(* ===== verification/Py_Json.thy ===== *)
theory Py_Json
  imports Relayna_Prelude
begin

text \<open>
  The text \<^verbatim>\<open>json.dumps\<close> of the standard library produces for the values of
  \<open>pyval\<close>: the options the code passes are \<^verbatim>\<open>ensure_ascii\<close>, \<^verbatim>\<open>sort_keys\<close> and
  \<^verbatim>\<open>separators\<close>.  The lemma the components rely on is that with sorted keys the text
  does not depend on the order in which a dictionary was filled.
\<close>

record json_opts =
  ensure_ascii :: bool
  sort_keys :: bool
  item_separator :: string
  key_separator :: string

definition json_char :: "bool \<Rightarrow> char \<Rightarrow> string" where
  "json_char asc c = (let n = of_char c :: nat in
     if n = 34 \<or> n = 92 then [CHR 0x5C, c]
     else if n = 8 then [CHR 0x5C, CHR ''b'']
     else if n = 9 then [CHR 0x5C, CHR ''t'']
     else if n = 10 then [CHR 0x5C, CHR ''n'']
     else if n = 12 then [CHR 0x5C, CHR ''f'']
     else if n = 13 then [CHR 0x5C, CHR ''r'']
     else if n < 32 \<or> (asc \<and> 126 < n) then [CHR 0x5C, CHR ''u'', CHR ''0'', CHR ''0''] @ hex2 n
     else [c])"

definition json_string :: "bool \<Rightarrow> string \<Rightarrow> string" where
  "json_string asc s = quote2 @ concat (map (json_char asc) s) @ quote2"

fun json_dumps :: "json_opts \<Rightarrow> pyval \<Rightarrow> string" where
  "json_dumps opt PNone = ''null''"
| "json_dumps opt (PBool b) = (if b then ''true'' else ''false'')"
| "json_dumps opt (PInt i) = int_str i"
| "json_dumps opt (PStr s) = json_string (ensure_ascii opt) s"
| "json_dumps opt (PList xs) = ''['' @ join (item_separator opt) (map (json_dumps opt) xs) @ '']''"
| "json_dumps opt (PDict d) =
     (let items = map (\<lambda>(k, v). (k, json_dumps opt v)) d;
          ordered = (if sort_keys opt then sort_key fst items else items)
      in ''{'' @ join (item_separator opt)
           (map (\<lambda>(k, t). json_string (ensure_ascii opt) k @ key_separator opt @ t) ordered) @ ''}'')"

lemma map_of_eq_set_eq:
  assumes "dict_wf d" "dict_wf e" "map_of d = map_of e"
  shows "set d = set e"
proof -
  have "(k, v) \<in> set d \<longleftrightarrow> (k, v) \<in> set e" for k v
    using map_of_eq_Some_iff [OF assms(1), of k v] map_of_eq_Some_iff [OF assms(2), of k v] assms(3)
    by auto
  then show ?thesis by auto
qed

lemma sort_key_fst_unique:
  fixes xs ys :: "('a :: linorder \<times> 'b) list"
  assumes "dict_wf xs" "dict_wf ys" "set xs = set ys"
  shows "sort_key fst xs = sort_key fst ys"
proof (rule map_sorted_distinct_set_unique [where f = fst])
  show "inj_on fst (set (sort_key fst xs) \<union> set (sort_key fst ys))"
    using assms by (simp add: distinct_map)
  have sk: "distinct (map fst (sort_key fst zs))" if "dict_wf zs" for zs :: "('a \<times> 'b) list"
    using that by (simp add: distinct_map)
  show "distinct (map fst (sort_key fst xs))" "distinct (map fst (sort_key fst ys))"
    using assms sk by blast+
qed (use assms in simp_all)

lemma json_dumps_order_independent:
  assumes "sort_keys opt" "dict_wf d" "dict_wf e" "map_of d = map_of e"
  shows "json_dumps opt (PDict d) = json_dumps opt (PDict e)"
proof -
  let ?f = "\<lambda>(k, v). (k, json_dumps opt v)"
  have keys: "map fst (map ?f zs) = map fst zs" for zs by (auto simp: case_prod_beta)
  have "dict_wf (map ?f d)" "dict_wf (map ?f e)"
    unfolding keys by (fact assms)+
  moreover have "set (map ?f d) = set (map ?f e)"
    by (simp add: map_of_eq_set_eq [OF assms(2-4)])
  ultimately have "sort_key fst (map ?f d) = sort_key fst (map ?f e)"
    by (rule sort_key_fst_unique)
  with assms(1) show ?thesis by simp
qed

end
