(* ===== verification/Contracts.thy ===== *)
theory Contracts
  imports Py_Json
begin

text \<open>
  \<^verbatim>\<open>src/src/relayna/contracts\<close>: field aliases (\<^verbatim>\<open>aliases.py\<close>), deterministic event
  identifiers and batch detection (\<^verbatim>\<open>compatibility.py\<close>), the declarative payload schemas
  (\<^verbatim>\<open>schemas.py\<close>), the envelopes and the terminal statuses (\<^verbatim>\<open>status.py\<close>,
  \<^verbatim>\<open>task.py\<close>, \<^verbatim>\<open>workflow.py\<close>).
  The SHA-256 hex digest is a parameter \<open>sha\<close>; the pydantic serialiser is a parameter
  \<open>dump\<close>.
\<close>

named_theorems contract_defs \<open>definitions of the contract helpers\<close>

subsection \<open>Alias configuration\<close>

record alias_config =
  field_aliases :: "(string \<times> string) list"
  http_aliases :: "(string \<times> string) list"

datatype alias_source = Payload | Http

definition payload_alias_for :: "alias_config \<Rightarrow> string \<Rightarrow> string option" where
  "payload_alias_for cfg field =
     (case map_of (field_aliases cfg) field of
        None \<Rightarrow> None
      | Some alias \<Rightarrow> (let a = strip alias in if a \<noteq> [] then Some a else None))"

definition http_alias_for :: "alias_config \<Rightarrow> string \<Rightarrow> string option" where
  "http_alias_for cfg field =
     (let alias = (case map_of (http_aliases cfg) field of
                     None \<Rightarrow> payload_alias_for cfg field
                   | Some a \<Rightarrow> if a = [] then payload_alias_for cfg field else Some a)
      in case alias of
           None \<Rightarrow> None
         | Some alias \<Rightarrow> (let a = strip alias in if a \<noteq> [] then Some a else None))"

definition document_compat_aliases :: alias_config where
  "document_compat_aliases = \<lparr>field_aliases = [(''task_id'', ''documentId'')], http_aliases = []\<rparr>"

definition alias_map :: "alias_config option \<Rightarrow> alias_source \<Rightarrow> (string \<times> string) list" where
  "alias_map cfg source =
     (case source of
        Payload \<Rightarrow>
          (let aliases = field_aliases document_compat_aliases
           in case cfg of None \<Rightarrow> aliases | Some c \<Rightarrow> dict_update aliases (field_aliases c))
      | Http \<Rightarrow>
          (case cfg of None \<Rightarrow> [] | Some c \<Rightarrow> dict_update (field_aliases c) (http_aliases c)))"

subsection \<open>Normalising and denormalising an event\<close>

definition adopt_alias :: "string \<times> string \<Rightarrow> dict \<Rightarrow> dict" where
  "adopt_alias p data = (case p of (canonical, alias) \<Rightarrow>
     if dict_has data canonical then data
     else case map_of data alias of None \<Rightarrow> data | Some v \<Rightarrow> AList.update canonical v data)"

definition drop_alias :: "string \<times> string \<Rightarrow> dict \<Rightarrow> dict" where
  "drop_alias p data = (case p of (canonical, alias) \<Rightarrow>
     if dict_has data canonical then AList.delete alias data else data)"

definition stringify_task_id :: "dict \<Rightarrow> dict" where
  "stringify_task_id data = (case map_of data ''task_id'' of
     None \<Rightarrow> data
   | Some v \<Rightarrow> if v = PNone then data else AList.update ''task_id'' (PStr (py_str v)) data)"

definition normalize_contract_aliases ::
  "dict \<Rightarrow> alias_config option \<Rightarrow> alias_source \<Rightarrow> bool \<Rightarrow> dict" where
  "normalize_contract_aliases event cfg source drop_aliases =
     (let data = fold adopt_alias (alias_map cfg source) event;
          data = (if drop_aliases then fold drop_alias (alias_map cfg source) data else data)
      in stringify_task_id data)"

definition expose_alias :: "bool \<Rightarrow> string \<times> string \<Rightarrow> dict \<Rightarrow> dict" where
  "expose_alias alias_only p data = (case p of (canonical, alias) \<Rightarrow>
     case map_of data canonical of
       None \<Rightarrow> data
     | Some value \<Rightarrow>
         if value = PNone then data
         else let data = AList.update alias value data
              in if alias_only then AList.delete canonical data else data)"

definition denormalize_contract_aliases ::
  "dict \<Rightarrow> alias_config option \<Rightarrow> alias_source \<Rightarrow> bool \<Rightarrow> dict" where
  "denormalize_contract_aliases event cfg source alias_only =
     fold (expose_alias alias_only) (alias_map cfg source) event"

text \<open>
  A dataclass instance is true, so \<^verbatim>\<open>alias_config or DOCUMENT_COMPAT_ALIASES\<close> is the
  default exactly for \<^verbatim>\<open>None\<close>.
\<close>

definition normalize_event_aliases :: "dict \<Rightarrow> alias_config option \<Rightarrow> dict" where
  "normalize_event_aliases event cfg =
     normalize_contract_aliases event
       (Some (case cfg of None \<Rightarrow> document_compat_aliases | Some c \<Rightarrow> c)) Payload False"

definition denormalize_document_aliases :: "dict \<Rightarrow> dict" where
  "denormalize_document_aliases event =
     denormalize_contract_aliases event (Some document_compat_aliases) Payload False"

definition public_output_aliases :: "dict \<Rightarrow> alias_config option \<Rightarrow> alias_source \<Rightarrow> dict" where
  "public_output_aliases event cfg source =
     (case cfg of None \<Rightarrow> event | Some c \<Rightarrow> denormalize_contract_aliases event (Some c) source True)"

subsection \<open>Batches and event identifiers\<close>

definition normalize_task_collection :: "dict list \<Rightarrow> alias_config option \<Rightarrow> dict list" where
  "normalize_task_collection tasks cfg =
     map (\<lambda>task. normalize_contract_aliases task cfg Payload False) tasks"

definition is_batch_task_payload :: "dict \<Rightarrow> bool" where
  "is_batch_task_payload payload =
     ((case map_of payload ''batch_id'' of Some (PStr _) \<Rightarrow> True | _ \<Rightarrow> False) \<and>
      (case map_of payload ''tasks'' of Some (PList _) \<Rightarrow> True | _ \<Rightarrow> False))"

definition event_id_json :: json_opts where
  "event_id_json = \<lparr>ensure_ascii = False, sort_keys = True, item_separator = '','', key_separator = '':''\<rparr>"

definition ensure_status_event_id :: "(string \<Rightarrow> string) \<Rightarrow> dict \<Rightarrow> dict" where
  "ensure_status_event_id sha event =
     (let digest = sha (json_dumps event_id_json (PDict (AList.delete ''event_id'' event)))
      in case map_of event ''event_id'' of
           Some (PStr existing) \<Rightarrow>
             if strip existing \<noteq> [] then AList.update ''event_id'' (PStr (strip existing)) event
             else AList.update ''event_id'' (PStr digest) event
         | _ \<Rightarrow> AList.update ''event_id'' (PStr digest) event)"

subsection \<open>Envelopes and terminal statuses\<close>

text \<open>The models allow extra fields: they are the last field of each record.\<close>

record status_event =
  se_task_id :: string
  se_status :: string
  se_timestamp :: string
  se_message :: "string option"
  se_meta :: dict
  se_result :: "dict option"
  se_correlation_id :: "string option"
  se_event_id :: "string option"
  se_service :: "string option"
  se_spec_version :: string
  se_extra :: dict

record task_envelope =
  te_task_id :: string
  te_payload :: dict
  te_created_at :: string
  te_service :: "string option"
  te_task_type :: "string option"
  te_correlation_id :: "string option"
  te_priority :: "int option"
  te_spec_version :: string
  te_extra :: dict

record batch_task_envelope =
  be_batch_id :: string
  be_tasks :: "task_envelope list"
  be_meta :: dict
  be_created_at :: string
  be_spec_version :: string
  be_extra :: dict

record workflow_envelope =
  we_task_id :: string
  we_message_id :: string
  we_correlation_id :: "string option"
  we_stage :: string
  we_origin_stage :: "string option"
  we_action :: "string option"
  we_payload :: dict
  we_meta :: dict
  we_priority :: "int option"
  we_spec_version :: string
  we_extra :: dict

definition or_text :: "string option \<Rightarrow> string \<Rightarrow> string" where
  "or_text a b = (case a of Some s \<Rightarrow> if s \<noteq> [] then s else b | None \<Rightarrow> b)"

definition dict_setdefault :: "string \<Rightarrow> pyval \<Rightarrow> dict \<Rightarrow> dict" where
  "dict_setdefault k v d = (if dict_has d k then d else AList.update k v d)"

definition status_transport_dict ::
  "(string \<Rightarrow> string) \<Rightarrow> (status_event \<Rightarrow> dict) \<Rightarrow> status_event \<Rightarrow> dict" where
  "status_transport_dict sha dump ev =
     ensure_status_event_id sha
       (dict_setdefault ''correlation_id'' (PStr (or_text (se_correlation_id ev) (se_task_id ev))) (dump ev))"

definition workflow_transport_dict :: "(workflow_envelope \<Rightarrow> dict) \<Rightarrow> workflow_envelope \<Rightarrow> dict" where
  "workflow_transport_dict dump env =
     dict_setdefault ''correlation_id'' (PStr (or_text (we_correlation_id env) (we_task_id env))) (dump env)"

definition is_terminal :: "string list \<Rightarrow> string option \<Rightarrow> bool" where
  "is_terminal statuses status =
     (case status of None \<Rightarrow> False
      | Some s \<Rightarrow> if s = [] then False else lower s \<in> set (map lower statuses))"

subsection \<open>Payload schemas\<close>

record payload_schema =
  ps_name :: string
  ps_version :: string
  required_fields :: "string list"
  optional_fields :: "string list"

record action_schema =
  as_action :: string
  as_description :: "string option"
  as_payload :: "payload_schema option"

definition sorted_set :: "('a :: linorder) list \<Rightarrow> 'a list" where
  "sorted_set xs = sort (remdups xs)"

definition validate_payload :: "payload_schema \<Rightarrow> dict \<Rightarrow> string list" where
  "validate_payload schema payload =
     (let missing = filter (\<lambda>f. \<not> dict_has payload f) (required_fields schema);
          unknown = sorted_set (filter (\<lambda>k. k \<notin> set (required_fields schema) \<and> k \<notin> set (optional_fields schema))
                                  (map fst payload))
      in (if missing \<noteq> [] then [''missing required fields: '' @ join '', '' missing] else []) @
         (if unknown \<noteq> [] then [''unknown fields: '' @ join '', '' unknown] else []))"

definition validate_action_schema_payload :: "action_schema \<Rightarrow> dict \<Rightarrow> string list" where
  "validate_action_schema_payload schema payload =
     (case as_payload schema of None \<Rightarrow> [] | Some p \<Rightarrow> validate_payload p payload)"

definition for_action :: "action_schema list \<Rightarrow> string \<Rightarrow> action_schema option" where
  "for_action actions action = List.find (\<lambda>item. as_action item = action) actions"

definition validate_action :: "action_schema list \<Rightarrow> string \<Rightarrow> dict \<Rightarrow> string list" where
  "validate_action actions action payload =
     (case for_action actions action of
        None \<Rightarrow> [''unsupported action '' @ quoted action]
      | Some schema \<Rightarrow> validate_action_schema_payload schema payload)"

lemma set_sorted_set [simp]: "set (sorted_set xs) = set xs"
  by (simp add: sorted_set_def)

lemma sorted_set_Nil_iff [simp]: "sorted_set xs = [] \<longleftrightarrow> xs = []"
  by (metis set_empty set_sorted_set)

lemma sorted_sorted_set [simp]: "sorted (sorted_set xs)" "distinct (sorted_set xs)"
  by (simp_all add: sorted_set_def)

subsection \<open>Payload schemas accept exactly the declared fields\<close>

text \<open>
  A payload schema reports no error exactly when every required field is present and
  every present field is required or optional.
\<close>
theorem validate_payload_ok_iff:
  "validate_payload schema payload = [] \<longleftrightarrow>
     set (required_fields schema) \<subseteq> fst ` set payload \<and>
     fst ` set payload \<subseteq> set (required_fields schema) \<union> set (optional_fields schema)"
proof -
  have "dict_has payload k \<longleftrightarrow> k \<in> fst ` set payload" for k
    by (simp add: map_of_eq_None_iff)
  then show ?thesis
    by (auto simp: validate_payload_def Let_def filter_empty_conv)
qed

subsection \<open>Event identifiers\<close>

text \<open>
  Giving a status event its identifier a second time changes nothing, for any digest
  that is not blank and has no surrounding blanks (a hex digest has neither).
\<close>
theorem ensure_status_event_id_idempotent:
  assumes "\<And>s. strip (sha s) = sha s \<and> sha s \<noteq> []"
  shows "ensure_status_event_id sha (ensure_status_event_id sha event) = ensure_status_event_id sha event"
proof -
  let ?d = "sha (json_dumps event_id_json (PDict (AList.delete ''event_id'' event)))"
  obtain t where t: "ensure_status_event_id sha event = AList.update ''event_id'' (PStr t) event"
    "strip t = t" "t \<noteq> []"
  proof (cases "\<exists>s. map_of event ''event_id'' = Some (PStr s) \<and> strip s \<noteq> []")
    case True
    then obtain s where "map_of event ''event_id'' = Some (PStr s)" "strip s \<noteq> []" by blast
    then show ?thesis by (intro that [of "strip s"]) (auto simp: ensure_status_event_id_def)
  next
    case False
    then show ?thesis using assms
      by (intro that [of ?d]) (auto simp: ensure_status_event_id_def Let_def split: option.splits pyval.splits)
  qed
  have "ensure_status_event_id sha (AList.update ''event_id'' (PStr t) event) =
      AList.update ''event_id'' (PStr t) (AList.update ''event_id'' (PStr t) event)"
    using t by (simp add: ensure_status_event_id_def)
  then show ?thesis by (simp add: t(1))
qed

theorem ensure_status_event_id_idempotent_witness:
  "ensure_status_event_id (\<lambda>_. ''9f86'') (ensure_status_event_id (\<lambda>_. ''9f86'') [(''status'', PStr ''done'')]) =
   ensure_status_event_id (\<lambda>_. ''9f86'') [(''status'', PStr ''done'')]"
  by (rule ensure_status_event_id_idempotent) (simp add: strip_def strip_with_def is_space_def)

text \<open>
  The identifier computed for an event does not depend on the order in which its keys
  were inserted: two dictionaries with the same content stay equal in content after
  \<^verbatim>\<open>ensure_status_event_id\<close>.
\<close>
theorem ensure_status_event_id_order_independent:
  assumes "dict_wf d" "dict_wf e" "map_of d = map_of e"
  shows "map_of (ensure_status_event_id sha d) = map_of (ensure_status_event_id sha e)"
proof -
  have "json_dumps event_id_json (PDict (AList.delete ''event_id'' d)) =
      json_dumps event_id_json (PDict (AList.delete ''event_id'' e))"
    by (rule json_dumps_order_independent) (simp_all add: event_id_json_def assms)
  then show ?thesis
    using assms(3) by (auto simp: ensure_status_event_id_def Let_def split: option.splits pyval.splits)
qed

theorem ensure_status_event_id_order_independent_witness:
  "map_of (ensure_status_event_id id [(''a'', PInt 1), (''b'', PInt 2)]) =
   map_of (ensure_status_event_id id [(''b'', PInt 2), (''a'', PInt 1)])"
  by (rule ensure_status_event_id_order_independent) (auto simp: fun_eq_iff)

subsection \<open>Aliases: public output read back\<close>

definition aliases_ok :: "(string \<times> string) list \<Rightarrow> bool" where
  "aliases_ok as \<longleftrightarrow> distinct (map fst as) \<and> distinct (map snd as) \<and> set (map fst as) \<inter> set (map snd as) = {}"

lemma aliases_ok_Cons:
  "aliases_ok ((c, a) # as) \<longleftrightarrow> c \<noteq> a \<and> c \<notin> set (map fst as) \<and> c \<notin> set (map snd as) \<and>
     a \<notin> set (map fst as) \<and> a \<notin> set (map snd as) \<and> aliases_ok as"
  by (auto simp: aliases_ok_def)

lemma aliases_ok_apart:
  "aliases_ok ((c', a') # as) \<Longrightarrow> (c, a) \<in> set as \<Longrightarrow> c' \<noteq> c \<and> a' \<noteq> c \<and> c' \<noteq> a \<and> a' \<noteq> a"
  by (auto simp: aliases_ok_Cons rev_image_eqI)

lemma alias_step_frames:
  "k \<noteq> c \<Longrightarrow> k \<noteq> a \<Longrightarrow> map_of (expose_alias b (c, a) d) k = map_of d k"
  "k \<noteq> c \<Longrightarrow> map_of (adopt_alias (c, a) d) k = map_of d k"
  "k \<noteq> a \<Longrightarrow> map_of (drop_alias (c, a) d) k = map_of d k"
  by (auto simp: expose_alias_def adopt_alias_def drop_alias_def Let_def split: option.splits)

lemma alias_fold_frames:
  "k \<notin> set (map fst as) \<Longrightarrow> k \<notin> set (map snd as) \<Longrightarrow> map_of (fold (expose_alias b) as d) k = map_of d k"
  "k \<notin> set (map fst as) \<Longrightarrow> map_of (fold adopt_alias as d) k = map_of d k"
  "k \<notin> set (map snd as) \<Longrightarrow> map_of (fold drop_alias as d) k = map_of d k"
  by (induction as arbitrary: d) (auto simp: alias_step_frames)

lemma expose_fold:
  assumes "aliases_ok as" "(c, a) \<in> set as" "map_of d a = None" "map_of d c \<noteq> Some PNone"
  shows "map_of (fold (expose_alias True) as d) c = None"
    and "map_of (fold (expose_alias True) as d) a = map_of d c"
  using assms
proof (induction as arbitrary: d)
  case (Cons p as)
  obtain c' a' where p: "p = (c', a')" by fastforce
  case 1
  show ?case
  proof (cases "(c, a) = p")
    case True
    with 1 show ?thesis
      by (auto simp: p aliases_ok_Cons alias_fold_frames expose_alias_def [of _ "(c', a')"] Let_def split: option.splits)
  next
    case False
    with 1 have "(c, a) \<in> set as" "c' \<noteq> c" "a' \<noteq> c" "c' \<noteq> a" "a' \<noteq> a"
      by (auto simp: p dest: aliases_ok_apart)
    with 1 Cons.IH show ?thesis by (simp add: p aliases_ok_Cons alias_step_frames)
  qed
  case 2
  show ?case
  proof (cases "(c, a) = p")
    case True
    with 2 show ?thesis
      by (auto simp: p aliases_ok_Cons alias_fold_frames expose_alias_def [of _ "(c', a')"] Let_def split: option.splits)
  next
    case False
    with 2 have "(c, a) \<in> set as" "c' \<noteq> c" "a' \<noteq> c" "c' \<noteq> a" "a' \<noteq> a"
      by (auto simp: p dest: aliases_ok_apart)
    with 2 Cons.IH show ?thesis by (simp add: p aliases_ok_Cons alias_step_frames)
  qed
qed simp_all

lemma adopt_fold:
  assumes "aliases_ok as" "(c, a) \<in> set as" "map_of d c = None"
  shows "map_of (fold adopt_alias as d) c = map_of d a"
  using assms
proof (induction as arbitrary: d)
  case (Cons p as)
  obtain c' a' where p: "p = (c', a')" by fastforce
  show ?case
  proof (cases "(c, a) = p")
    case True
    with Cons.prems show ?thesis
      by (auto simp: p aliases_ok_Cons alias_fold_frames adopt_alias_def [of "(c', a')"] split: option.splits)
  next
    case False
    with Cons.prems have "(c, a) \<in> set as" "c' \<noteq> c" "a' \<noteq> c" "c' \<noteq> a" "a' \<noteq> a"
      by (auto simp: p dest: aliases_ok_apart)
    with Cons show ?thesis by (simp add: p aliases_ok_Cons alias_step_frames)
  qed
qed simp

lemma drop_fold:
  assumes "aliases_ok as" "(c, a) \<in> set as"
  shows "map_of (fold drop_alias as d) a = (if dict_has d c then None else map_of d a)"
  using assms
proof (induction as arbitrary: d)
  case (Cons p as)
  obtain c' a' where p: "p = (c', a')" by fastforce
  show ?case
  proof (cases "(c, a) = p")
    case True
    with Cons.prems show ?thesis
      by (auto simp: p aliases_ok_Cons alias_fold_frames drop_alias_def [of "(c', a')"] split: option.splits)
  next
    case False
    with Cons.prems have "(c, a) \<in> set as" "c' \<noteq> c" "a' \<noteq> c" "c' \<noteq> a" "a' \<noteq> a"
      by (auto simp: p dest: aliases_ok_apart)
    with Cons show ?thesis by (simp add: p aliases_ok_Cons alias_step_frames)
  qed
qed simp

lemma normalize_expose:
  assumes ok: "aliases_ok as"
    and absent: "\<And>a. a \<in> set (map snd as) \<Longrightarrow> map_of d a = None"
    and vals: "\<And>c. c \<in> set (map fst as) \<Longrightarrow> map_of d c \<noteq> Some PNone"
  shows "map_of (fold drop_alias as (fold adopt_alias as (fold (expose_alias True) as d))) = map_of d"
proof
  fix k
  let ?e = "fold (expose_alias True) as d" let ?n = "fold adopt_alias as ?e"
  consider (canon) a where "(k, a) \<in> set as" | (shadow) c where "(c, k) \<in> set as"
    | (other) "k \<notin> set (map fst as)" "k \<notin> set (map snd as)"
    by (metis (no_types, lifting) imageE list.set_map prod.collapse)
  then show "map_of (fold drop_alias as ?n) k = map_of d k"
  proof cases
    case canon
    then have "k \<notin> set (map snd as)" "a \<in> set (map snd as)" "k \<in> set (map fst as)"
      using ok by (force simp: aliases_ok_def)+
    then show ?thesis
      using ok canon absent vals by (simp add: alias_fold_frames adopt_fold expose_fold)
  next
    case shadow
    then have m: "c \<in> set (map fst as)" "k \<in> set (map snd as)" "k \<notin> set (map fst as)"
      using ok by (force simp: aliases_ok_def)+
    have "map_of ?n c = map_of d c" "map_of ?n k = map_of d c"
      using ok shadow absent [OF m(2)] vals [OF m(1)] m(3)
      by (simp_all add: adopt_fold expose_fold alias_fold_frames)
    then show ?thesis
      using ok shadow absent [OF m(2)] by (auto simp: drop_fold)
  next
    case other
    then show ?thesis by (simp add: alias_fold_frames)
  qed
qed

text \<open>
  Reading back a public event restores it: for aliases that are distinct, do not name
  canonical fields, and do not occur in the event, normalising (and dropping aliases) what
  \<^verbatim>\<open>public_output_aliases\<close> produced gives the same fields and values again.
\<close>
theorem public_output_read_back:
  assumes "aliases_ok (alias_map cfg Payload)"
    and "\<forall>a \<in> set (map snd (alias_map cfg Payload)). map_of event a = None"
    and "\<forall>c \<in> set (map fst (alias_map cfg Payload)). map_of event c \<noteq> Some PNone"
    and "\<forall>v. map_of event ''task_id'' = Some v \<longrightarrow> (\<exists>s. v = PStr s)"
  shows "map_of (normalize_contract_aliases (public_output_aliases event cfg Payload) cfg Payload True) = map_of event"
proof -
  have tid: "map_of (stringify_task_id d) = map_of d" if "map_of d = map_of event" for d
    using that assms(4) by (auto simp: stringify_task_id_def py_str_def fun_eq_iff split: option.splits)
  show ?thesis
  proof (cases cfg)
    case None
    have "map_of event ''documentId'' = None"
      using assms(2) by (simp add: None alias_map_def document_compat_aliases_def)
    then have "map_of (fold drop_alias (alias_map None Payload) (fold adopt_alias (alias_map None Payload) event)) = map_of event"
      by (auto simp: alias_map_def document_compat_aliases_def drop_alias_def adopt_alias_def fun_eq_iff split: option.splits)
    then show ?thesis
      by (simp add: None public_output_aliases_def normalize_contract_aliases_def tid)
  next
    case (Some c)
    have "map_of (fold drop_alias (alias_map cfg Payload) (fold adopt_alias (alias_map cfg Payload)
        (fold (expose_alias True) (alias_map cfg Payload) event))) = map_of event"
      by (rule normalize_expose [OF assms(1)]) (use assms(2,3) in blast)+
    then show ?thesis
      by (simp add: Some public_output_aliases_def denormalize_contract_aliases_def
          normalize_contract_aliases_def tid)
  qed
qed

theorem public_output_read_back_witness:
  "map_of (normalize_contract_aliases
      (public_output_aliases [(''task_id'', PStr ''t1''), (''status'', PStr ''done''), (''n'', PInt 1)]
         (Some \<lparr>field_aliases = [(''status'', ''state'')], http_aliases = []\<rparr>) Payload)
      (Some \<lparr>field_aliases = [(''status'', ''state'')], http_aliases = []\<rparr>) Payload True) =
   map_of [(''task_id'', PStr ''t1''), (''status'', PStr ''done''), (''n'', PInt 1)]"
  by (rule public_output_read_back)
    (simp_all add: alias_map_def document_compat_aliases_def aliases_ok_def)

end
