(* ===== verification/Retry_Policy.thy ===== *)
theory Retry_Policy
  imports Contracts
begin

text \<open>
  Retry decisions: \<^verbatim>\<open>src/src/relayna/policies/retry.py\<close>, the adapter
  \<^verbatim>\<open>consumer/_retry_decision.py\<close>, and the part of \<^verbatim>\<open>consumer/context.py\<close> that writes
  the attempt into the message headers and reads it back on the next delivery.
  The interface \<^verbatim>\<open>RetryDecisionPolicy\<close> is the locale \<open>retry_decision_policy\<close>.
\<close>

subsection \<open>policies/retry.py\<close>

datatype retry_action = RETRY | DEAD_LETTER | REJECT | REQUEUE

fun retry_action_value :: "retry_action \<Rightarrow> string" where
  "retry_action_value RETRY = ''retry''"
| "retry_action_value DEAD_LETTER = ''dead_letter''"
| "retry_action_value REJECT = ''reject''"
| "retry_action_value REQUEUE = ''requeue''"

record retry_context =
  rc_worker_type :: string
  rc_queue_name :: string
  rc_retry_attempt :: int
  rc_reason :: string
  rc_exception_type :: "string option"
  rc_task_id :: "string option"
  rc_task_type :: "string option"
  rc_workflow_stage :: "string option"
  rc_headers :: dict
  rc_pressure_signals :: "pyval list"
  rc_lease_state :: "pyval option"
  rc_max_retries :: "int option"
  rc_failure_action :: string

record retry_decision =
  rd_action :: retry_action
  rd_retry_attempt :: int
  rd_max_retries :: "int option"
  rd_reason :: string
  rd_policy_name :: string
  rd_metadata :: dict

definition static_decide_retry :: "string \<Rightarrow> retry_context \<Rightarrow> retry_decision" where
  "static_decide_retry policy_name context =
     (case rc_max_retries context of
        None \<Rightarrow>
          \<lparr>rd_action = (if lower (rc_failure_action context) = retry_action_value REQUEUE
                        then REQUEUE else REJECT),
           rd_retry_attempt = rc_retry_attempt context, rd_max_retries = None,
           rd_reason = rc_reason context, rd_policy_name = ''no_retry_policy'', rd_metadata = []\<rparr>
      | Some m \<Rightarrow>
          if rc_retry_attempt context < m
          then \<lparr>rd_action = RETRY, rd_retry_attempt = rc_retry_attempt context + 1,
                rd_max_retries = Some m, rd_reason = rc_reason context,
                rd_policy_name = policy_name, rd_metadata = []\<rparr>
          else \<lparr>rd_action = DEAD_LETTER, rd_retry_attempt = rc_retry_attempt context,
                rd_max_retries = Some m, rd_reason = rc_reason context,
                rd_policy_name = policy_name, rd_metadata = []\<rparr>)"

definition engine_decide_retry :: "(retry_context \<Rightarrow> retry_decision) \<Rightarrow> retry_context \<Rightarrow> retry_decision" where
  "engine_decide_retry retry_policy context = retry_policy context"

definition decide_static_retry :: "retry_context \<Rightarrow> retry_decision" where
  "decide_static_retry context = static_decide_retry ''static_retry_policy'' context"

subsection \<open>consumer/context.py: policies and headers\<close>

datatype failure_action = FA_REJECT | FA_REQUEUE

fun failure_action_value :: "failure_action \<Rightarrow> string" where
  "failure_action_value FA_REJECT = ''reject''"
| "failure_action_value FA_REQUEUE = ''requeue''"

record retry_policy =
  rp_max_retries :: int
  rp_delay_ms :: int
  rp_retry_queue_suffix :: string
  rp_dead_letter_queue_suffix :: string
  rp_priority_step :: "int option"

definition retry_policy_post_init :: "retry_policy \<Rightarrow> retry_policy res" where
  "retry_policy_post_init p =
     (case rp_priority_step p of
        Some step \<Rightarrow> if step < 0
                     then Inl (ValueError ''retry_priority_step must be greater than or equal to 0'')
                     else Inr p
      | None \<Rightarrow> Inr p)"

definition retry_attempt_from_headers :: "dict \<Rightarrow> int" where
  "retry_attempt_from_headers headers =
     (case map_of headers ''x-relayna-retry-attempt'' of
        None \<Rightarrow> 0
      | Some value \<Rightarrow>
          if value = PNone then 0
          else (case py_int value of Inr n \<Rightarrow> max 0 n | Inl _ \<Rightarrow> 0))"

definition retry_headers ::
  "dict \<Rightarrow> string \<Rightarrow> int \<Rightarrow> int \<Rightarrow> string \<Rightarrow> string option \<Rightarrow> dict \<Rightarrow> dict" where
  "retry_headers message_headers source_queue_name retry_attempt max_retries reason exception_type extra_headers =
     (let headers = dict_update message_headers extra_headers;
          headers = AList.update ''x-relayna-retry-attempt'' (PInt retry_attempt) headers;
          headers = AList.update ''x-relayna-max-retries'' (PInt max_retries) headers;
          headers = AList.update ''x-relayna-source-queue'' (PStr source_queue_name) headers;
          headers = AList.update ''x-relayna-failure-reason'' (PStr reason) headers
      in AList.update ''x-relayna-exception-type'' (opt_str exception_type) headers)"

definition retry_priority :: "retry_policy option \<Rightarrow> int \<Rightarrow> int option" where
  "retry_priority policy retry_attempt =
     (case policy of None \<Rightarrow> None
      | Some p \<Rightarrow> (case rp_priority_step p of
            None \<Rightarrow> None
          | Some step \<Rightarrow> Some (min (retry_attempt * step) 255)))"

subsection \<open>consumer/\_retry\_decision.py\<close>

definition consumer_decide_static_retry ::
  "retry_context \<Rightarrow> retry_policy option \<Rightarrow> failure_action \<Rightarrow> retry_decision" where
  "consumer_decide_static_retry context policy failure =
     decide_static_retry
       (context\<lparr>rc_max_retries := map_option rp_max_retries policy,
                rc_failure_action := failure_action_value failure\<rparr>)"

subsection \<open>The interface and what follows from it\<close>

text \<open>
  What a consumer relies on when it asks for a decision: without a retry policy the message
  is rejected or requeued; with one, attempts below the limit are retried with the attempt
  increased by one, and the others are dead-lettered with the attempt unchanged.
\<close>

locale retry_decision_policy =
  fixes decide :: "retry_context \<Rightarrow> retry_decision"
  assumes no_policy: "rc_max_retries c = None \<Longrightarrow> rd_action (decide c) \<in> {REJECT, REQUEUE}"
    and below_limit: "rc_max_retries c = Some m \<Longrightarrow> rc_retry_attempt c < m \<Longrightarrow>
          rd_action (decide c) = RETRY \<and> rd_retry_attempt (decide c) = rc_retry_attempt c + 1"
    and at_limit: "rc_max_retries c = Some m \<Longrightarrow> m \<le> rc_retry_attempt c \<Longrightarrow>
          rd_action (decide c) = DEAD_LETTER \<and> rd_retry_attempt (decide c) = rc_retry_attempt c"
    and keeps_limit: "rd_max_retries (decide c) = rc_max_retries c"
begin

lemma action_cases:
  "rd_action (decide c) = RETRY \<longleftrightarrow> (\<exists>m. rc_max_retries c = Some m \<and> rc_retry_attempt c < m)"
  "rd_action (decide c) = DEAD_LETTER \<longleftrightarrow> (\<exists>m. rc_max_retries c = Some m \<and> m \<le> rc_retry_attempt c)"
  using no_policy [of c] below_limit [of c] at_limit [of c]
  by (cases "rc_max_retries c"; force)+

lemma retry_has_limit: "rd_action (decide c) = RETRY \<Longrightarrow> rd_max_retries (decide c) \<noteq> None"
  by (auto simp: action_cases keeps_limit)

text \<open>The context of the next delivery after a decision, as the retry headers carry it.\<close>

definition redeliver :: "retry_context \<Rightarrow> retry_context" where
  "redeliver c = c\<lparr>rc_retry_attempt := rd_retry_attempt (decide c)\<rparr>"

lemma redeliver_attempt:
  assumes "rc_max_retries c = Some m" "rc_retry_attempt c + int n \<le> m"
  shows "rc_retry_attempt ((redeliver ^^ n) c) = rc_retry_attempt c + int n \<and>
         rc_max_retries ((redeliver ^^ n) c) = Some m"
  using assms
proof (induction n)
  case (Suc n)
  then show ?case using below_limit [of "(redeliver ^^ n) c" m]
    by (simp add: redeliver_def [of "(redeliver ^^ n) c"])
qed simp

lemma exhausted_after:
  assumes "rc_max_retries c = Some m" "rc_retry_attempt c \<le> m"
  shows "(\<forall>i < nat (m - rc_retry_attempt c). rd_action (decide ((redeliver ^^ i) c)) = RETRY) \<and>
         rd_action (decide ((redeliver ^^ nat (m - rc_retry_attempt c)) c)) = DEAD_LETTER"
proof (intro conjI allI impI)
  fix i assume i: "i < nat (m - rc_retry_attempt c)"
  have "rc_retry_attempt ((redeliver ^^ i) c) = rc_retry_attempt c + int i \<and> rc_max_retries ((redeliver ^^ i) c) = Some m"
    by (rule redeliver_attempt) (use assms i in auto)
  with i show "rd_action (decide ((redeliver ^^ i) c)) = RETRY" by (auto simp: action_cases)
next
  have "rc_retry_attempt ((redeliver ^^ nat (m - rc_retry_attempt c)) c) = m \<and>
        rc_max_retries ((redeliver ^^ nat (m - rc_retry_attempt c)) c) = Some m"
    using redeliver_attempt [of c m "nat (m - rc_retry_attempt c)"] assms by auto
  then show "rd_action (decide ((redeliver ^^ nat (m - rc_retry_attempt c)) c)) = DEAD_LETTER"
    by (simp add: action_cases)
qed

end

interpretation static_policy: retry_decision_policy "static_decide_retry name" for name
  by unfold_locales (auto simp: static_decide_retry_def split: option.splits)

interpretation engine_policy: retry_decision_policy "engine_decide_retry decide_static_retry"
  by unfold_locales
    (auto simp: engine_decide_retry_def decide_static_retry_def static_decide_retry_def split: option.splits)

definition next_delivery :: "retry_context \<Rightarrow> retry_context" where
  "next_delivery c = c\<lparr>rc_retry_attempt := rd_retry_attempt (decide_static_retry c)\<rparr>"

text \<open>
  Under the default policy with limit \<open>m\<close> a task that keeps failing is retried exactly
  \<open>m\<close> times and then dead-lettered: the decisions of deliveries 0 to \<open>m - 1\<close> are RETRY and
  the decision of delivery \<open>m\<close> is DEAD\_LETTER.
\<close>
theorem static_retry_exhausts:
  assumes "rc_max_retries c = Some m" "0 \<le> m" "rc_retry_attempt c = 0"
  shows "(\<forall>i < nat m. rd_action (decide_static_retry ((next_delivery ^^ i) c)) = RETRY) \<and>
         rd_action (decide_static_retry ((next_delivery ^^ nat m) c)) = DEAD_LETTER"
proof -
  have "next_delivery = static_policy.redeliver ''static_retry_policy''"
    by (auto simp: fun_eq_iff next_delivery_def static_policy.redeliver_def decide_static_retry_def)
  then show ?thesis
    using static_policy.exhausted_after [of c m "''static_retry_policy''"] assms
    by (simp add: decide_static_retry_def)
qed

definition example_retry_context :: retry_context where
  "example_retry_context =
     \<lparr>rc_worker_type = ''task'', rc_queue_name = ''q'', rc_retry_attempt = 0, rc_reason = ''handler_error'',
      rc_exception_type = None, rc_task_id = None, rc_task_type = None, rc_workflow_stage = None,
      rc_headers = [], rc_pressure_signals = [], rc_lease_state = None, rc_max_retries = Some 2,
      rc_failure_action = ''reject''\<rparr>"

theorem static_retry_exhausts_witness:
  "rd_action (decide_static_retry ((next_delivery ^^ nat 2) example_retry_context)) = DEAD_LETTER"
  using static_retry_exhausts [of example_retry_context 2]
  by (simp add: example_retry_context_def)

text \<open>
  The attempt survives the broker: reading the retry headers of a republished message
  gives back the attempt that was written, whatever the original and the extra headers held,
  and a header outside the five that the retry writes is that of the extra headers or of the
  original message.
\<close>
theorem retry_headers_read_back:
  assumes "0 \<le> attempt" "dict_wf extra"
  shows "retry_attempt_from_headers (retry_headers h q attempt m reason exc extra) = attempt \<and>
     (\<forall>k. k \<notin> {''x-relayna-retry-attempt'', ''x-relayna-max-retries'', ''x-relayna-source-queue'',
                ''x-relayna-failure-reason'', ''x-relayna-exception-type''} \<longrightarrow>
          map_of (retry_headers h q attempt m reason exc extra) k = (map_of h ++ map_of extra) k)"
  using assms
  by (simp add: retry_headers_def retry_attempt_from_headers_def Let_def py_int_def map_of_dict_update)

theorem retry_headers_read_back_witness:
  "retry_attempt_from_headers
     (retry_headers [(''x-relayna-retry-attempt'', PStr ''7'')] ''q'' 3 5 ''handler_error'' None [(''batch_id'', PStr ''b'')]) = 3"
  using retry_headers_read_back [of 3 "[(''batch_id'', PStr ''b'')]"] by simp

text \<open>
  A retry priority is a legal AMQP priority: for a validated retry policy and a
  non-negative attempt it lies between 0 and 255, and it never decreases with the attempt.
\<close>
theorem retry_priority_bounds:
  assumes "retry_policy_post_init p = Inr p'" "0 \<le> attempt" "retry_priority (Some p') attempt = Some pr"
  shows "0 \<le> pr \<and> pr \<le> 255 \<and>
         (\<forall>later \<ge> attempt. \<exists>pr'. retry_priority (Some p') later = Some pr' \<and> pr \<le> pr')"
proof -
  obtain step where s: "rp_priority_step p' = Some step" "0 \<le> step" "pr = min (attempt * step) 255"
    using assms by (auto simp: retry_policy_post_init_def retry_priority_def split: option.splits if_splits)
  have "attempt * step \<le> later * step" if "attempt \<le> later" for later
    using that s(2) by (simp add: mult_right_mono)
  with s assms(2) show ?thesis
    by (fastforce simp: retry_priority_def intro: min.mono)
qed

theorem retry_priority_bounds_witness:
  "retry_priority (Some \<lparr>rp_max_retries = 3, rp_delay_ms = 1, rp_retry_queue_suffix = [], rp_dead_letter_queue_suffix = [],
      rp_priority_step = Some 100\<rparr>) 4 = Some 255 \<and> (0::int) \<le> 255 \<and> (255::int) \<le> 255"
  using retry_priority_bounds [of
      "\<lparr>rp_max_retries = 3, rp_delay_ms = 1, rp_retry_queue_suffix = [], rp_dead_letter_queue_suffix = [],
        rp_priority_step = Some 100\<rparr>" _ 4 255]
  by (simp add: retry_priority_def retry_policy_post_init_def)

end
