(* ===== verification/Bounded_Async.thy ===== *)
theory Bounded_Async
  imports Relayna_Prelude "HOL-Library.Multiset"
begin

text \<open>
  \<^verbatim>\<open>_async.py\<close>: \<^verbatim>\<open>map_bounded\<close> and \<^verbatim>\<open>run_bounded_iterator\<close> as transition systems over all
  interleavings of their tasks.  A step is a stretch of code between two suspension points,
  or a part of one, so every schedule of the event loop is a run.  The awaited worker or
  handler is an argument: a relation between an item and the outcomes its call may have.
  Events of the environment (cancellation of the caller, the stop event, what the iterator
  yields) are steps of their own.
\<close>

datatype async_exc = Cancelled_Error | Timeout_Error | Other_Error py_error

named_theorems phase_simps \<open>equations of the counting functions over task phases\<close>

subsection \<open>map\_bounded\<close>

text \<open>
  A worker task is at the head of its loop, awaits the call for an index, or is over.  The
  caller awaits \<^verbatim>\<open>gather\<close>, or, after an exception, the cancelled tasks.  \<open>mb_calls\<close> records
  the indices the worker was called with.
\<close>

datatype mb_worker = At_head | Awaiting nat | Ended | Failed async_exc

datatype 'b mb_main = Gathering | Cancelling async_exc | Raised async_exc | Returned "'b list"

record 'b mb_state =
  mb_next :: nat
  mb_results :: "'b option list"
  mb_workers :: "mb_worker list"
  mb_main :: "'b mb_main"
  mb_calls :: "nat list"

definition map_bounded :: "'a list \<Rightarrow> int \<Rightarrow> 'b mb_state" where
  "map_bounded items concurrency =
     (if concurrency < 1 then
        \<lparr>mb_next = 0, mb_results = [], mb_workers = [],
         mb_main = Raised (Other_Error (ValueError ''concurrency must be at least 1'')), mb_calls = []\<rparr>
      else if items = [] then
        \<lparr>mb_next = 0, mb_results = [], mb_workers = [], mb_main = Returned [], mb_calls = []\<rparr>
      else
        \<lparr>mb_next = 0, mb_results = replicate (length items) None,
         mb_workers = replicate (min (nat concurrency) (length items)) At_head,
         mb_main = Gathering, mb_calls = []\<rparr>)"

fun mb_over :: "mb_worker \<Rightarrow> bool" where
  "mb_over At_head = False"
| "mb_over (Awaiting i) = False"
| "mb_over Ended = True"
| "mb_over (Failed e) = True"

fun mb_busy :: "mb_worker \<Rightarrow> bool" where
  "mb_busy (Awaiting i) = True"
| "mb_busy _ = False"

inductive mb_step :: "('a \<Rightarrow> async_exc + 'b \<Rightarrow> bool) \<Rightarrow> 'a list \<Rightarrow> 'b mb_state \<Rightarrow> 'b mb_state \<Rightarrow> bool"
  for worker :: "'a \<Rightarrow> async_exc + 'b \<Rightarrow> bool" and items :: "'a list" where
  mb_take: "k < length (mb_workers s) \<Longrightarrow> mb_workers s ! k = At_head \<Longrightarrow> mb_next s < length items \<Longrightarrow>
    mb_step worker items s
      (s\<lparr>mb_next := mb_next s + 1, mb_workers := (mb_workers s)[k := Awaiting (mb_next s)],
         mb_calls := mb_calls s @ [mb_next s]\<rparr>)"
| mb_exit: "k < length (mb_workers s) \<Longrightarrow> mb_workers s ! k = At_head \<Longrightarrow> \<not> mb_next s < length items \<Longrightarrow>
    mb_step worker items s (s\<lparr>mb_workers := (mb_workers s)[k := Ended]\<rparr>)"
| mb_return: "k < length (mb_workers s) \<Longrightarrow> mb_workers s ! k = Awaiting i \<Longrightarrow> worker (items ! i) (Inr v) \<Longrightarrow>
    mb_step worker items s
      (s\<lparr>mb_results := (mb_results s)[i := Some v], mb_workers := (mb_workers s)[k := At_head]\<rparr>)"
| mb_raise: "k < length (mb_workers s) \<Longrightarrow> mb_workers s ! k = Awaiting i \<Longrightarrow> worker (items ! i) (Inl e) \<Longrightarrow>
    mb_step worker items s (s\<lparr>mb_workers := (mb_workers s)[k := Failed e]\<rparr>)"
| mb_gather_raise: "mb_main s = Gathering \<Longrightarrow> Failed e \<in> set (mb_workers s) \<Longrightarrow>
    mb_step worker items s (s\<lparr>mb_main := Cancelling e\<rparr>)"
| mb_gather_done: "mb_main s = Gathering \<Longrightarrow> \<forall>w \<in> set (mb_workers s). w = Ended \<Longrightarrow>
    mb_step worker items s (s\<lparr>mb_main := Returned (map the (mb_results s))\<rparr>)"
| mb_cancel_task: "mb_main s = Cancelling e \<Longrightarrow> k < length (mb_workers s) \<Longrightarrow> \<not> mb_over (mb_workers s ! k) \<Longrightarrow>
    mb_step worker items s (s\<lparr>mb_workers := (mb_workers s)[k := Failed Cancelled_Error]\<rparr>)"
| mb_cancelled_done: "mb_main s = Cancelling e \<Longrightarrow> \<forall>w \<in> set (mb_workers s). mb_over w \<Longrightarrow>
    mb_step worker items s (s\<lparr>mb_main := Raised e\<rparr>)"

text \<open>The caller of \<^verbatim>\<open>map_bounded\<close> is cancelled while it awaits.\<close>

inductive mb_cancelled :: "'b mb_state \<Rightarrow> 'b mb_state \<Rightarrow> bool" where
  mb_caller_cancelled: "mb_main s = Gathering \<Longrightarrow> mb_cancelled s (s\<lparr>mb_main := Cancelling Cancelled_Error\<rparr>)"
| mb_cancelled_again: "mb_main s = Cancelling e \<Longrightarrow> e \<noteq> Cancelled_Error \<Longrightarrow>
    mb_cancelled s (s\<lparr>mb_main := Cancelling Cancelled_Error\<rparr>)"

inductive mb_reach :: "('a \<Rightarrow> async_exc + 'b \<Rightarrow> bool) \<Rightarrow> 'a list \<Rightarrow> int \<Rightarrow> 'b mb_state \<Rightarrow> bool"
  for worker :: "'a \<Rightarrow> async_exc + 'b \<Rightarrow> bool" and items :: "'a list" and concurrency :: int where
  mb_start: "mb_reach worker items concurrency (map_bounded items concurrency)"
| mb_next_state: "mb_reach worker items concurrency s \<Longrightarrow> mb_step worker items s t \<or> mb_cancelled s t \<Longrightarrow>
    mb_reach worker items concurrency t"

subsection \<open>run\_bounded\_iterator\<close>

text \<open>
  A dispatched item's task is created, runs its handler, and is done; the done callback then
  takes it out of \<^verbatim>\<open>in_flight\<close>.  \<open>rb_dispatched\<close>, \<open>rb_started\<close>, \<open>rb_dropped\<close> and \<open>rb_done\<close> record the items handed out,
  those whose handler was called, those whose task was cancelled before it called the handler, and the
  outcomes of the finished tasks (the cancelled ones included), in order.
\<close>

datatype 'a rb_task = Created 'a | Running 'a | Finishing 'a "async_exc option"

datatype rb_main =
    Loop_head | Acquiring | Acquired | Fetching | Sleeping
  | Cancel_in_flight | Leaving "async_exc option" | Leaving_cancelled | Finished "async_exc option"

record 'a rb_state =
  rb_permits :: nat
  rb_in_flight :: "'a rb_task list"
  rb_first_error :: "async_exc option"
  rb_stop :: bool
  rb_main :: rb_main
  rb_dispatched :: "'a list"
  rb_started :: "'a list"
  rb_dropped :: "'a list"
  rb_done :: "('a \<times> async_exc option) list"

definition run_bounded_iterator :: "int \<Rightarrow> bool \<Rightarrow> 'a rb_state" where
  "run_bounded_iterator concurrency stop =
     (if concurrency < 1 then
        \<lparr>rb_permits = 0, rb_in_flight = [], rb_first_error = None, rb_stop = stop,
         rb_main = Finished (Some (Other_Error (ValueError ''concurrency must be at least 1''))),
         rb_dispatched = [], rb_started = [], rb_dropped = [], rb_done = []\<rparr>
      else
        \<lparr>rb_permits = nat concurrency, rb_in_flight = [], rb_first_error = None, rb_stop = stop,
         rb_main = Loop_head, rb_dispatched = [], rb_started = [], rb_dropped = [], rb_done = []\<rparr>)"

text \<open>\<^verbatim>\<open>record_completion\<close>: what a finished task leaves in \<^verbatim>\<open>first_error\<close>.\<close>

fun record_completion :: "async_exc option \<Rightarrow> async_exc option \<Rightarrow> async_exc option" where
  "record_completion first None = first"
| "record_completion first (Some Cancelled_Error) = first"
| "record_completion None (Some e) = Some e"
| "record_completion (Some f) (Some e) = Some f"

inductive rb_step :: "('a \<Rightarrow> async_exc option \<Rightarrow> bool) \<Rightarrow> 'a rb_state \<Rightarrow> 'a rb_state \<Rightarrow> bool"
  for handler :: "'a \<Rightarrow> async_exc option \<Rightarrow> bool" where
  rb_loop_stop: "rb_main s = Loop_head \<Longrightarrow> rb_stop s \<Longrightarrow> rb_step handler s (s\<lparr>rb_main := Leaving None\<rparr>)"
| rb_loop: "rb_main s = Loop_head \<Longrightarrow> \<not> rb_stop s \<Longrightarrow> rb_step handler s (s\<lparr>rb_main := Acquiring\<rparr>)"
| rb_acquire: "rb_main s = Acquiring \<Longrightarrow> rb_permits s = Suc n \<Longrightarrow>
    rb_step handler s (s\<lparr>rb_permits := n, rb_main := Acquired\<rparr>)"
| rb_error: "rb_main s = Acquired \<Longrightarrow> rb_first_error s = Some e \<Longrightarrow>
    rb_step handler s (s\<lparr>rb_permits := rb_permits s + 1, rb_main := Leaving (Some e)\<rparr>)"
| rb_stopped: "rb_main s = Acquired \<Longrightarrow> rb_first_error s = None \<Longrightarrow> rb_stop s \<Longrightarrow>
    rb_step handler s (s\<lparr>rb_permits := rb_permits s + 1, rb_main := Leaving None\<rparr>)"
| rb_fetch: "rb_main s = Acquired \<Longrightarrow> rb_first_error s = None \<Longrightarrow> \<not> rb_stop s \<Longrightarrow>
    rb_step handler s (s\<lparr>rb_main := Fetching\<rparr>)"
| rb_item: "rb_main s = Fetching \<Longrightarrow>
    rb_step handler s (s\<lparr>rb_in_flight := Created x # rb_in_flight s, rb_main := Loop_head,
      rb_dispatched := rb_dispatched s @ [x]\<rparr>)"
| rb_exhausted: "rb_main s = Fetching \<Longrightarrow>
    rb_step handler s (s\<lparr>rb_permits := rb_permits s + 1, rb_main := Leaving None\<rparr>)"
| rb_timeout: "rb_main s = Fetching \<Longrightarrow>
    rb_step handler s (s\<lparr>rb_permits := rb_permits s + 1,
      rb_main := (if rb_in_flight s \<noteq> [] then Sleeping else Leaving (Some Timeout_Error))\<rparr>)"
| rb_fetch_raises: "rb_main s = Fetching \<Longrightarrow> e \<noteq> Timeout_Error \<Longrightarrow>
    rb_step handler s (s\<lparr>rb_permits := rb_permits s + 1,
      rb_main := (if e = Cancelled_Error then Cancel_in_flight else Leaving (Some e))\<rparr>)"
| rb_slept: "rb_main s = Sleeping \<Longrightarrow> rb_step handler s (s\<lparr>rb_main := Loop_head\<rparr>)"
| rb_cancel_gathered: "rb_main s = Cancel_in_flight \<Longrightarrow> rb_in_flight s = [] \<Longrightarrow>
    rb_step handler s (s\<lparr>rb_main := Leaving (Some Cancelled_Error)\<rparr>)"
| rb_leave: "rb_main s = Leaving out \<Longrightarrow> rb_in_flight s = [] \<Longrightarrow>
    rb_step handler s (s\<lparr>rb_main := Finished (case rb_first_error s of Some e \<Rightarrow> Some e | None \<Rightarrow> out)\<rparr>)"
| rb_left_cancelled: "rb_main s = Leaving_cancelled \<Longrightarrow> rb_in_flight s = [] \<Longrightarrow>
    rb_step handler s (s\<lparr>rb_main := Finished (Some Cancelled_Error)\<rparr>)"
| rb_task_start: "rb_in_flight s = ts @ Created x # us \<Longrightarrow>
    rb_step handler s (s\<lparr>rb_in_flight := ts @ Running x # us, rb_started := rb_started s @ [x]\<rparr>)"
| rb_task_done: "rb_in_flight s = ts @ Running x # us \<Longrightarrow> handler x out \<Longrightarrow>
    rb_step handler s (s\<lparr>rb_permits := rb_permits s + 1, rb_in_flight := ts @ Finishing x out # us\<rparr>)"
| rb_task_callback: "rb_in_flight s = ts @ Finishing x out # us \<Longrightarrow>
    rb_step handler s (s\<lparr>rb_in_flight := ts @ us, rb_first_error := record_completion (rb_first_error s) out,
      rb_done := rb_done s @ [(x, out)]\<rparr>)"
| rb_cancel_created: "rb_main s = Cancel_in_flight \<or> rb_main s = Leaving_cancelled \<Longrightarrow>
    rb_in_flight s = ts @ Created x # us \<Longrightarrow>
    rb_step handler s (s\<lparr>rb_in_flight := ts @ Finishing x (Some Cancelled_Error) # us, rb_dropped := rb_dropped s @ [x]\<rparr>)"
| rb_cancel_running: "rb_main s = Cancel_in_flight \<or> rb_main s = Leaving_cancelled \<Longrightarrow>
    rb_in_flight s = ts @ Running x # us \<Longrightarrow>
    rb_step handler s (s\<lparr>rb_permits := rb_permits s + 1,
      rb_in_flight := ts @ Finishing x (Some Cancelled_Error) # us\<rparr>)"

text \<open>The caller is cancelled while it awaits, or the stop event is set.\<close>

inductive rb_event :: "'a rb_state \<Rightarrow> 'a rb_state \<Rightarrow> bool" where
  rb_cancelled: "rb_main s = Acquiring \<or> rb_main s = Sleeping \<Longrightarrow> rb_event s (s\<lparr>rb_main := Cancel_in_flight\<rparr>)"
| rb_leave_cancelled: "rb_main s = Leaving out \<Longrightarrow> rb_in_flight s \<noteq> [] \<Longrightarrow>
    rb_event s (s\<lparr>rb_main := Leaving_cancelled\<rparr>)"
| rb_stop_set: "rb_event s (s\<lparr>rb_stop := True\<rparr>)"

inductive rb_reach :: "('a \<Rightarrow> async_exc option \<Rightarrow> bool) \<Rightarrow> int \<Rightarrow> bool \<Rightarrow> 'a rb_state \<Rightarrow> bool"
  for handler :: "'a \<Rightarrow> async_exc option \<Rightarrow> bool" and concurrency :: int and stop :: bool where
  rb_start: "rb_reach handler concurrency stop (run_bounded_iterator concurrency stop)"
| rb_next_state: "rb_reach handler concurrency stop s \<Longrightarrow> rb_step handler s t \<or> rb_event s t \<Longrightarrow>
    rb_reach handler concurrency stop t"

subsection \<open>map\_bounded: order, bound, termination\<close>

lemma mem_update_other: "x \<in> set xs \<Longrightarrow> xs ! k \<noteq> x \<Longrightarrow> x \<in> set (xs[k := y])"
  by (metis in_set_conv_nth length_list_update nth_list_update_neq)

definition mb_inv :: "('a \<Rightarrow> async_exc + 'b \<Rightarrow> bool) \<Rightarrow> 'a list \<Rightarrow> int \<Rightarrow> 'b mb_state \<Rightarrow> bool" where
  "mb_inv worker items concurrency s \<longleftrightarrow>
     length (mb_workers s) \<le> nat concurrency \<and>
     mb_next s \<le> length items \<and>
     mb_calls s = [0..<mb_next s] \<and>
     (\<forall>i. Awaiting i \<in> set (mb_workers s) \<longrightarrow> i < mb_next s) \<and>
     (mb_workers s \<noteq> [] \<longrightarrow> length (mb_results s) = length items) \<and>
     (mb_main s = Gathering \<longrightarrow> mb_workers s \<noteq> []) \<and>
     (Ended \<in> set (mb_workers s) \<longrightarrow> mb_next s = length items) \<and>
     (\<forall>i < mb_next s. (\<exists>v. mb_results s ! i = Some v \<and> worker (items ! i) (Inr v)) \<or>
        Awaiting i \<in> set (mb_workers s) \<or> (\<exists>e. Failed e \<in> set (mb_workers s))) \<and>
     (\<forall>rs. mb_main s = Returned rs \<longrightarrow>
        mb_next s = length items \<and> list_all2 (\<lambda>x r. worker x (Inr r)) items rs)"

lemma mb_inv_cov:
  assumes "mb_inv worker items c s" and "i < mb_next s"
  obtains (result) v where "mb_results s ! i = Some v" "worker (items ! i) (Inr v)"
    | (awaited) "Awaiting i \<in> set (mb_workers s)" | (failed) e where "Failed e \<in> set (mb_workers s)"
  using assms unfolding mb_inv_def by auto

lemma mb_inv_start: "mb_inv worker items concurrency (map_bounded items concurrency)"
  by (auto simp: mb_inv_def map_bounded_def)

lemma mb_inv_worker_update:
  assumes "mb_inv worker items c s" and "k < length (mb_workers s)"
    and "\<And>i. w \<noteq> Awaiting i" and "w = Ended \<Longrightarrow> mb_next s = length items"
    and "\<And>i. mb_workers s ! k = Awaiting i \<Longrightarrow> \<exists>e. w = Failed e"
    and "\<And>e. mb_workers s ! k \<noteq> Failed e"
  shows "mb_inv worker items c (s\<lparr>mb_workers := (mb_workers s)[k := w]\<rparr>)"
proof -
  have aw: "Awaiting i \<in> set ((mb_workers s)[k := w]) \<Longrightarrow> Awaiting i \<in> set (mb_workers s)" for i
    using set_update_subset_insert[of "mb_workers s" k w] assms(3) by auto
  have en: "Ended \<in> set ((mb_workers s)[k := w]) \<Longrightarrow> mb_next s = length items"
    using set_update_subset_insert[of "mb_workers s" k w] assms(1,4) unfolding mb_inv_def by auto
  have cov: "Awaiting i \<in> set ((mb_workers s)[k := w]) \<or> (\<exists>e. Failed e \<in> set ((mb_workers s)[k := w]))"
    if "Awaiting i \<in> set (mb_workers s) \<or> (\<exists>e. Failed e \<in> set (mb_workers s))" for i
    using that assms(2,5,6) by (metis mem_update_other set_update_memI)
  show ?thesis
    using assms(1) aw en cov unfolding mb_inv_def by simp blast
qed

lemma mb_inv_main:
  assumes "mb_inv worker items c s" and "m = Gathering \<Longrightarrow> mb_main s = Gathering" and "\<And>rs. m \<noteq> Returned rs"
  shows "mb_inv worker items c (s\<lparr>mb_main := m\<rparr>)"
  using assms unfolding mb_inv_def by auto

lemma mb_inv_take:
  assumes inv: "mb_inv worker items c s" and k: "k < length (mb_workers s)" "mb_workers s ! k = At_head"
    and n: "mb_next s < length items"
  shows "mb_inv worker items c (s\<lparr>mb_next := mb_next s + 1, mb_workers := (mb_workers s)[k := Awaiting (mb_next s)],
         mb_calls := mb_calls s @ [mb_next s]\<rparr>)"
proof -
  let ?ws = "(mb_workers s)[k := Awaiting (mb_next s)]"
  have sub: "w \<in> set ?ws \<Longrightarrow> w = Awaiting (mb_next s) \<or> w \<in> set (mb_workers s)" for w
    using set_update_subset_insert[of "mb_workers s" k] by auto
  have keep: "w \<in> set (mb_workers s) \<Longrightarrow> w \<noteq> At_head \<Longrightarrow> w \<in> set ?ws" for w
    using k by (auto intro: mem_update_other)
  have new: "Awaiting (mb_next s) \<in> set ?ws" using k by (simp add: set_update_memI)
  have cov: "(\<exists>v. mb_results s ! i = Some v \<and> worker (items ! i) (Inr v)) \<or>
        Awaiting i \<in> set ?ws \<or> (\<exists>e. Failed e \<in> set ?ws)" if "i < mb_next s + 1" for i
  proof (cases "i = mb_next s")
    case True then show ?thesis using new by simp
  next
    case False
    then have "i < mb_next s" using that by simp
    with inv show ?thesis by (rule mb_inv_cov) (use keep in auto)
  qed
  have aw: "i < mb_next s + 1" if "Awaiting i \<in> set ?ws" for i
    using sub[OF that] inv unfolding mb_inv_def by auto
  have en: "Ended \<notin> set ?ws"
    using sub[of Ended] inv n unfolding mb_inv_def by auto
  show ?thesis using inv n aw en cov unfolding mb_inv_def by auto
qed

lemma mb_inv_return:
  assumes inv: "mb_inv worker items c s" and k: "k < length (mb_workers s)" "mb_workers s ! k = Awaiting i"
    and v: "worker (items ! i) (Inr v)"
  shows "mb_inv worker items c (s\<lparr>mb_results := (mb_results s)[i := Some v], mb_workers := (mb_workers s)[k := At_head]\<rparr>)"
proof -
  let ?ws = "(mb_workers s)[k := At_head]"
  have sub: "w \<in> set ?ws \<Longrightarrow> w \<noteq> At_head \<Longrightarrow> w \<in> set (mb_workers s)" for w
    using set_update_subset_insert[of "mb_workers s" k] by auto
  have keep: "w \<in> set (mb_workers s) \<Longrightarrow> w \<noteq> Awaiting i \<Longrightarrow> w \<in> set ?ws" for w
    using k by (auto intro: mem_update_other)
  have "Awaiting i \<in> set (mb_workers s)" using k by (metis nth_mem)
  then have i: "i < length (mb_results s)" using inv unfolding mb_inv_def by force
  have cov: "(\<exists>u. (mb_results s)[i := Some v] ! j = Some u \<and> worker (items ! j) (Inr u)) \<or>
        Awaiting j \<in> set ?ws \<or> (\<exists>e. Failed e \<in> set ?ws)" if j: "j < mb_next s" for j
  proof (cases "j = i")
    case True then show ?thesis using i v by simp
  next
    case False
    from inv j show ?thesis by (rule mb_inv_cov) (use keep False in auto)
  qed
  show ?thesis using inv sub[of "Awaiting _"] sub[of Ended] cov unfolding mb_inv_def by auto
qed

lemma mb_inv_done:
  assumes inv: "mb_inv worker items c s" and g: "mb_main s = Gathering" and e: "\<forall>w \<in> set (mb_workers s). w = Ended"
  shows "mb_inv worker items c (s\<lparr>mb_main := Returned (map the (mb_results s))\<rparr>)"
proof -
  have ne: "mb_workers s \<noteq> []" using inv g unfolding mb_inv_def by blast
  then have "Ended \<in> set (mb_workers s)" using e by (cases "mb_workers s") auto
  then have n: "mb_next s = length items" and len: "length (mb_results s) = length items"
    using inv ne unfolding mb_inv_def by auto
  have "\<exists>v. mb_results s ! i = Some v \<and> worker (items ! i) (Inr v)" if "i < length items" for i
    using inv that[folded n] by (rule mb_inv_cov) (use e in auto)
  then have "list_all2 (\<lambda>x r. worker x (Inr r)) items (map the (mb_results s))"
    using len by (fastforce simp: list_all2_conv_all_nth)
  then show ?thesis using inv n unfolding mb_inv_def by simp
qed

lemma mb_inv_step:
  assumes "mb_step worker items s t" and inv: "mb_inv worker items c s"
  shows "mb_inv worker items c t"
  using assms(1)
proof cases
  case (mb_take k) then show ?thesis using mb_inv_take[OF inv] by simp
next
  case (mb_exit k)
  moreover have "mb_next s = length items" using mb_exit(4) inv unfolding mb_inv_def by auto
  ultimately show ?thesis by (auto intro!: mb_inv_worker_update[OF inv])
next
  case (mb_return k i v) then show ?thesis using mb_inv_return[OF inv] by simp
next
  case (mb_raise k i e) then show ?thesis by (auto intro!: mb_inv_worker_update[OF inv])
next
  case (mb_cancel_task e k)
  then show ?thesis by (auto intro!: mb_inv_worker_update[OF inv])
next
  case mb_gather_done then show ?thesis using mb_inv_done[OF inv] by simp
qed (auto intro: mb_inv_main[OF inv])

lemma mb_inv_cancelled: "mb_cancelled s t \<Longrightarrow> mb_inv worker items c s \<Longrightarrow> mb_inv worker items c t"
  by (induction rule: mb_cancelled.induct) (auto intro: mb_inv_main)

lemma mb_reach_inv: "mb_reach worker items c s \<Longrightarrow> mb_inv worker items c s"
  by (induction rule: mb_reach.induct) (auto intro: mb_inv_start mb_inv_step mb_inv_cancelled)

lemma mb_busy_le: "length (filter mb_busy ws) \<le> length ws"
  by simp

text \<open>
  C15. \<^verbatim>\<open>map_bounded\<close> under every schedule: never more than \<open>concurrency\<close> calls of the worker are
  awaited at once, the worker is called in order and at most once per item, and when the call
  returns, every item was processed and the results are in the order of the items, whatever
  order the calls finished in.
\<close>

theorem map_bounded_ordered_and_bounded:
  assumes "mb_reach worker items concurrency s"
  shows "length (filter mb_busy (mb_workers s)) \<le> nat concurrency \<and>
    (\<exists>n \<le> length items. mb_calls s = [0..<n]) \<and>
    (\<forall>rs. mb_main s = Returned rs \<longrightarrow>
      mb_calls s = [0..<length items] \<and> list_all2 (\<lambda>x r. worker x (Inr r)) items rs)"
proof -
  have inv: "mb_inv worker items concurrency s" using assms by (rule mb_reach_inv)
  have "length (filter mb_busy (mb_workers s)) \<le> nat concurrency"
    using inv mb_busy_le[of "mb_workers s"] unfolding mb_inv_def by linarith
  then show ?thesis using inv unfolding mb_inv_def by auto
qed

text \<open>Termination: a weight of the state that every step lowers.\<close>

fun mb_weight :: "mb_worker \<Rightarrow> nat" where
  "mb_weight At_head = 1"
| "mb_weight (Awaiting i) = 2"
| "mb_weight Ended = 0"
| "mb_weight (Failed e) = 0"

fun mb_main_weight :: "'b mb_main \<Rightarrow> nat" where
  "mb_main_weight Gathering = 3"
| "mb_main_weight (Cancelling e) = (if e = Cancelled_Error then 1 else 2)"
| "mb_main_weight (Raised e) = 0"
| "mb_main_weight (Returned rs) = 0"

definition mb_measure :: "'a list \<Rightarrow> 'b mb_state \<Rightarrow> nat" where
  "mb_measure items s = 2 * (length items - mb_next s) + sum_list (map mb_weight (mb_workers s)) + mb_main_weight (mb_main s)"

lemma sum_list_update:
  "k < length xs \<Longrightarrow> sum_list (map f (xs[k := y])) + f (xs ! k) = sum_list (map f xs) + (f y :: nat)"
  by (induction xs arbitrary: k) (auto split: nat.splits simp: less_Suc_eq_0_disj)

lemma mb_weight_pos: "\<not> mb_over w \<Longrightarrow> 0 < mb_weight w"
  by (cases w) auto

lemma mb_step_decreases:
  assumes "mb_step worker items s t"
  shows "mb_measure items t < mb_measure items s"
  using assms
proof cases
  case (mb_take k)
  then show ?thesis using sum_list_update[of k "mb_workers s" mb_weight "Awaiting (mb_next s)"]
    by (simp add: mb_measure_def)
next
  case (mb_exit k)
  then show ?thesis using sum_list_update[of k "mb_workers s" mb_weight Ended]
    by (simp add: mb_measure_def)
next
  case (mb_return k i v)
  then show ?thesis using sum_list_update[of k "mb_workers s" mb_weight At_head]
    by (simp add: mb_measure_def)
next
  case (mb_raise k i e)
  then show ?thesis using sum_list_update[of k "mb_workers s" mb_weight "Failed e"]
    by (simp add: mb_measure_def)
next
  case (mb_cancel_task e k)
  then show ?thesis using sum_list_update[of k "mb_workers s" mb_weight "Failed Cancelled_Error"]
      mb_weight_pos[of "mb_workers s ! k"] by (simp add: mb_measure_def)
qed (simp_all add: mb_measure_def)

definition mb_final :: "'b mb_state \<Rightarrow> bool" where
  "mb_final s \<longleftrightarrow> (case mb_main s of Raised e \<Rightarrow> True | Returned rs \<Rightarrow> True | _ \<Rightarrow> False)"

lemma mb_open_worker_steps:
  assumes inv: "mb_inv worker items c s" and outcome: "\<And>x. x \<in> set items \<Longrightarrow> \<exists>r. worker x r"
    and w: "w \<in> set (mb_workers s)" "\<not> mb_over w"
  shows "\<exists>t. mb_step worker items s t"
proof -
  obtain k where k: "k < length (mb_workers s)" "mb_workers s ! k = w"
    using w(1) by (auto simp: in_set_conv_nth)
  show ?thesis
  proof (cases w)
    case At_head
    then show ?thesis using k mb_take[of k s items worker] mb_exit[of k s items worker] by blast
  next
    case (Awaiting i)
    then have "i < length items" using inv w unfolding mb_inv_def by force
    then obtain r where "worker (items ! i) r" using outcome[of "items ! i"] by auto
    then show ?thesis using k Awaiting mb_return[of k s i worker items] mb_raise[of k s i worker items]
      by (cases r) blast+
  qed (use w in auto)
qed

lemma mb_cancelled_decreases: "mb_cancelled s t \<Longrightarrow> mb_measure items t < mb_measure items s"
  by (induction rule: mb_cancelled.induct) (simp_all add: mb_measure_def)

lemma mb_progress:
  assumes inv: "mb_inv worker items c s" and outcome: "\<And>x. x \<in> set items \<Longrightarrow> \<exists>r. worker x r"
    and "\<not> mb_final s"
  shows "\<exists>t. mb_step worker items s t"
proof (cases "\<forall>w \<in> set (mb_workers s). mb_over w")
  case True
  show ?thesis
  proof (cases "mb_main s")
    case Gathering
    have "w = Ended \<or> (\<exists>e. w = Failed e)" if "w \<in> set (mb_workers s)" for w
      using True that by (cases w) auto
    then show ?thesis
      using Gathering mb_gather_raise[of s _ worker items] mb_gather_done[of s worker items] by blast
  next
    case (Cancelling e)
    then show ?thesis using True mb_cancelled_done[of s e worker items] by blast
  qed (use assms(3) in \<open>auto simp: mb_final_def\<close>)
next
  case False
  then show ?thesis using mb_open_worker_steps[OF inv outcome] by blast
qed

lemma mb_runs_to_end:
  assumes "mb_inv worker items c s" and outcome: "\<And>x. x \<in> set items \<Longrightarrow> \<exists>r. worker x r"
  shows "\<exists>t. (mb_step worker items)\<^sup>*\<^sup>* s t \<and> mb_final t"
  using assms(1)
proof (induction "mb_measure items s" arbitrary: s rule: less_induct)
  case less
  show ?case
  proof (cases "mb_final s")
    case False
    then obtain u where u: "mb_step worker items s u" using mb_progress[OF less.prems outcome] by blast
    then show ?thesis using less.hyps[OF mb_step_decreases[OF u] mb_inv_step[OF u less.prems]]
      by (meson converse_rtranclp_into_rtranclp)
  qed blast
qed

text \<open>
  C16. \<^verbatim>\<open>map_bounded\<close> ends: if every call of the worker has an outcome, no schedule runs forever
  (cancellations included), no schedule gets stuck, and the end can be reached from wherever the
  schedule has got to.
\<close>

theorem map_bounded_terminates:
  assumes "\<forall>x \<in> set items. \<exists>r. worker x r"
  shows "wfP (\<lambda>t s. mb_step worker items s t \<or> mb_cancelled s t) \<and>
    (\<forall>s. mb_reach worker items concurrency s \<longrightarrow>
      (mb_final s \<or> (\<exists>t. mb_step worker items s t)) \<and> (\<exists>t. (mb_step worker items)\<^sup>*\<^sup>* s t \<and> mb_final t))"
proof
  show "wfP (\<lambda>t s. mb_step worker items s t \<or> mb_cancelled s t)"
    by (rule wfp_if_convertible_to_nat[of _ "mb_measure items"])
      (use mb_step_decreases mb_cancelled_decreases in blast)
  show "\<forall>s. mb_reach worker items concurrency s \<longrightarrow>
      (mb_final s \<or> (\<exists>t. mb_step worker items s t)) \<and> (\<exists>t. (mb_step worker items)\<^sup>*\<^sup>* s t \<and> mb_final t)"
    using mb_reach_inv mb_progress mb_runs_to_end assms by metis
qed

subsection \<open>run\_bounded\_iterator: bound, completion, no deadlock\<close>

fun rb_active :: "'a rb_task \<Rightarrow> bool" where
  "rb_active (Created x) = True"
| "rb_active (Running x) = True"
| "rb_active (Finishing x out) = False"

fun rb_item_of :: "'a rb_task \<Rightarrow> 'a" where
  "rb_item_of (Created x) = x"
| "rb_item_of (Running x) = x"
| "rb_item_of (Finishing x out) = x"

fun rb_held :: "rb_main \<Rightarrow> nat" where
  "rb_held Acquired = 1"
| "rb_held Fetching = 1"
| "rb_held _ = 0"

fun rb_looping :: "rb_main \<Rightarrow> bool" where
  "rb_looping Cancel_in_flight = False"
| "rb_looping (Leaving out) = False"
| "rb_looping Leaving_cancelled = False"
| "rb_looping (Finished out) = False"
| "rb_looping _ = True"

fun rb_waiting :: "'a rb_task \<Rightarrow> bool" where
  "rb_waiting (Created x) = True"
| "rb_waiting (Running x) = False"
| "rb_waiting (Finishing x out) = False"

fun rb_aborting :: "rb_main \<Rightarrow> bool" where
  "rb_aborting Cancel_in_flight = True"
| "rb_aborting (Leaving out) = (out = Some Cancelled_Error)"
| "rb_aborting Leaving_cancelled = True"
| "rb_aborting (Finished out) = (out \<noteq> None)"
| "rb_aborting _ = False"

definition handler_failed :: "async_exc option \<Rightarrow> bool" where
  "handler_failed out \<longleftrightarrow> out \<noteq> None \<and> out \<noteq> Some Cancelled_Error"

definition rb_inv :: "('a \<Rightarrow> async_exc option \<Rightarrow> bool) \<Rightarrow> int \<Rightarrow> 'a rb_state \<Rightarrow> bool" where
  "rb_inv handler concurrency s \<longleftrightarrow>
     rb_permits s + length (filter rb_active (rb_in_flight s)) + rb_held (rb_main s) \<le> nat concurrency \<and>
     (rb_looping (rb_main s) \<longrightarrow>
        rb_permits s + length (filter rb_active (rb_in_flight s)) + rb_held (rb_main s) = nat concurrency \<and> 1 \<le> concurrency) \<and>
     mset (rb_dispatched s) = mset (map rb_item_of (rb_in_flight s)) + mset (map fst (rb_done s)) \<and>
     mset (rb_dispatched s) = mset (map rb_item_of (filter rb_waiting (rb_in_flight s))) + mset (rb_started s) + mset (rb_dropped s) \<and>
     (rb_dropped s \<noteq> [] \<longrightarrow> rb_aborting (rb_main s)) \<and>
     rb_first_error s = fold (\<lambda>out first. record_completion first out) (map snd (rb_done s)) None \<and>
     (\<forall>r. rb_main s = Finished r \<longrightarrow> rb_in_flight s = [] \<and> (r = None \<longrightarrow> rb_first_error s = None))"

lemma rb_inv_start: "rb_inv handler concurrency (run_bounded_iterator concurrency stop)"
  by (auto simp: rb_inv_def run_bounded_iterator_def)

lemma rb_inv_step: "rb_step handler s t \<Longrightarrow> rb_inv handler c s \<Longrightarrow> rb_inv handler c t"
  by (induction rule: rb_step.induct) (auto simp: rb_inv_def split: option.splits)

lemma rb_inv_event: "rb_event s t \<Longrightarrow> rb_inv handler c s \<Longrightarrow> rb_inv handler c t"
  by (induction rule: rb_event.induct) (auto simp: rb_inv_def)

lemma rb_reach_inv: "rb_reach handler c stop s \<Longrightarrow> rb_inv handler c s"
  by (induction rule: rb_reach.induct) (auto intro: rb_inv_start rb_inv_step rb_inv_event)

lemma record_completion_None:
  "record_completion first out = None \<longleftrightarrow> first = None \<and> \<not> handler_failed out"
  by (cases "(first, out)" rule: record_completion.cases) (auto simp: handler_failed_def)

lemma first_error_None:
  "fold (\<lambda>out first. record_completion first out) outs first = None \<longleftrightarrow>
     first = None \<and> (\<forall>out \<in> set outs. \<not> handler_failed out)"
  by (induction outs arbitrary: first) (auto simp: record_completion_None)

text \<open>
  C17. \<^verbatim>\<open>run_bounded_iterator\<close> under every schedule: never more than \<open>concurrency\<close> tasks are created or run
  their handler at once, and no item's handler is called more than once.  When the call is over, normally or by any
  exception, no task is left in flight, every dispatched item's task has ended once, and every dispatched item
  either had its handler called once or was dropped, its task cancelled before it called the
  handler.  The call returned normally only if nothing was dropped and no handler raised anything but a cancellation.
\<close>

theorem bounded_iterator_safe:
  assumes "rb_reach handler concurrency stop s"
  shows "length (filter rb_active (rb_in_flight s)) \<le> nat concurrency \<and> mset (rb_started s) \<subseteq># mset (rb_dispatched s) \<and>
    (\<forall>r. rb_main s = Finished r \<longrightarrow>
      rb_in_flight s = [] \<and> mset (map fst (rb_done s)) = mset (rb_dispatched s) \<and>
      mset (rb_dispatched s) = mset (rb_started s) + mset (rb_dropped s) \<and>
      (r = None \<longrightarrow> rb_dropped s = [] \<and> (\<forall>out \<in> snd ` set (rb_done s). \<not> handler_failed out)))"
proof -
  have inv: "rb_inv handler concurrency s" using assms by (rule rb_reach_inv)
  have done': "mset (rb_dispatched s) = mset (map rb_item_of (rb_in_flight s)) + mset (map fst (rb_done s))"
    and kept: "mset (rb_dispatched s) = mset (map rb_item_of (filter rb_waiting (rb_in_flight s))) + mset (rb_started s) + mset (rb_dropped s)"
    using inv unfolding rb_inv_def by blast+
  have bound: "length (filter rb_active (rb_in_flight s)) \<le> nat concurrency" using inv unfolding rb_inv_def by linarith
  have over: "rb_in_flight s = [] \<and> (r = None \<longrightarrow> rb_first_error s = None \<and> rb_dropped s = [])" if "rb_main s = Finished r" for r
    using inv that unfolding rb_inv_def by auto
  have failed: "\<not> handler_failed out" if "rb_first_error s = None" "out \<in> snd ` set (rb_done s)" for out
  proof -
    have "fold (\<lambda>out first. record_completion first out) (map snd (rb_done s)) None = None"
      using inv that(1) unfolding rb_inv_def by metis
    then show ?thesis using that(2) by (auto simp: first_error_None)
  qed
  show ?thesis
  proof (intro conjI allI impI ballI)
    fix r assume r: "rb_main s = Finished r"
    show "rb_in_flight s = []" using over[OF r] by simp
    then show "mset (map fst (rb_done s)) = mset (rb_dispatched s)" "mset (rb_dispatched s) = mset (rb_started s) + mset (rb_dropped s)"
      using done' kept by simp_all
    assume "r = None"
    then show "rb_dropped s = []" "\<And>out. out \<in> snd ` set (rb_done s) \<Longrightarrow> \<not> handler_failed out" using over[OF r] failed by simp_all
  qed (use bound kept in simp_all)
qed

fun rb_task_weight :: "'a rb_task \<Rightarrow> nat" where
  "rb_task_weight (Created x) = 3"
| "rb_task_weight (Running x) = 2"
| "rb_task_weight (Finishing x out) = 1"

fun rb_main_weight :: "rb_main \<Rightarrow> nat" where
  "rb_main_weight Sleeping = 6"
| "rb_main_weight Loop_head = 5"
| "rb_main_weight Acquiring = 4"
| "rb_main_weight Acquired = 3"
| "rb_main_weight Fetching = 2"
| "rb_main_weight Cancel_in_flight = 2"
| "rb_main_weight (Leaving out) = 1"
| "rb_main_weight Leaving_cancelled = 1"
| "rb_main_weight (Finished out) = 0"

definition rb_measure :: "'a rb_state \<Rightarrow> nat" where
  "rb_measure s = sum_list (map rb_task_weight (rb_in_flight s)) + rb_main_weight (rb_main s)"

lemma rb_task_progress:
  assumes "\<forall>x. \<exists>out. handler x out" and "rb_in_flight s = t # us"
  shows "\<exists>u. rb_step handler s u \<and> rb_measure u < rb_measure s"
proof (cases t)
  case (Created x)
  then show ?thesis using rb_task_start[of s "[]" x us handler] assms(2)
    by (auto simp: rb_measure_def intro!: exI)
next
  case (Running x)
  moreover obtain out where "handler x out" using assms(1) by blast
  ultimately show ?thesis using rb_task_done[of s "[]" x us handler out] assms(2)
    by (auto simp: rb_measure_def intro!: exI)
next
  case (Finishing x out)
  then show ?thesis using rb_task_callback[of s "[]" x out us handler] assms(2)
    by (auto simp: rb_measure_def intro!: exI)
qed

lemma rb_main_progress:
  assumes "rb_inv handler c s" and "rb_in_flight s = []" and "\<nexists>r. rb_main s = Finished r"
  shows "\<exists>u. rb_step handler s u \<and> rb_measure u < rb_measure s"
proof (cases "rb_main s")
  case Loop_head
  then show ?thesis using rb_loop_stop[of s handler] rb_loop[of s handler]
    by (cases "rb_stop s") (auto simp: rb_measure_def intro!: exI)
next
  case Acquiring
  moreover obtain n where "rb_permits s = Suc n"
    using assms(1,2) Acquiring unfolding rb_inv_def by (cases "rb_permits s") auto
  ultimately show ?thesis using rb_acquire[of s n handler] by (auto simp: rb_measure_def intro!: exI)
next
  case Acquired
  then show ?thesis using rb_error[of s _ handler] rb_stopped[of s handler] rb_fetch[of s handler]
    by (cases "rb_first_error s"; cases "rb_stop s") (auto simp: rb_measure_def intro!: exI)
next
  case Fetching
  then show ?thesis using rb_exhausted[of s handler] by (auto simp: rb_measure_def intro!: exI)
next
  case Sleeping
  then show ?thesis using rb_slept[of s handler] by (auto simp: rb_measure_def intro!: exI)
next
  case Cancel_in_flight
  then show ?thesis using rb_cancel_gathered[of s handler] assms(2) by (auto simp: rb_measure_def intro!: exI)
next
  case (Leaving out)
  then show ?thesis using rb_leave[of s out handler] assms(2) by (auto simp: rb_measure_def intro!: exI)
next
  case Leaving_cancelled
  then show ?thesis using rb_left_cancelled[of s handler] assms(2) by (auto simp: rb_measure_def intro!: exI)
qed (use assms(3) in blast)

lemma rb_runs_to_end:
  assumes "\<forall>x. \<exists>out. handler x out" and "rb_inv handler c s"
  shows "\<exists>t r. (rb_step handler)\<^sup>*\<^sup>* s t \<and> rb_main t = Finished r"
  using assms(2)
proof (induction "rb_measure s" arbitrary: s rule: less_induct)
  case less
  show ?case
  proof (cases "\<exists>r. rb_main s = Finished r")
    case False
    then obtain u where u: "rb_step handler s u" "rb_measure u < rb_measure s"
      using rb_task_progress[OF assms(1)] rb_main_progress[OF less.prems]
      by (metis neq_Nil_conv)
    then show ?thesis using less.hyps[OF u(2) rb_inv_step[OF u(1) less.prems]]
      by (meson converse_rtranclp_into_rtranclp)
  qed blast
qed

text \<open>
  \<^verbatim>\<open>run_bounded_iterator\<close> does not deadlock: if every handler call has an outcome, then from
  every state a schedule can get to, while the loop waits for a permit, while it drains, after a
  handler failed or after a cancellation, the call can come to its end.
\<close>

theorem bounded_iterator_never_stuck:
  assumes "\<forall>x. \<exists>out. handler x out" and "rb_reach handler concurrency stop s"
  shows "\<exists>t r. (rb_step handler)\<^sup>*\<^sup>* s t \<and> rb_main t = Finished r"
  using rb_runs_to_end[OF assms(1) rb_reach_inv[OF assms(2)]] .

subsection \<open>Instances\<close>

definition succ_worker :: "nat \<Rightarrow> async_exc + nat \<Rightarrow> bool" where
  "succ_worker x r \<longleftrightarrow> r = Inr (x + 1)"

lemma mb_run_example:
  "mb_reach succ_worker [7] 4
     \<lparr>mb_next = 1, mb_results = [Some 8], mb_workers = [Ended], mb_main = Returned [8], mb_calls = [0]\<rparr>"
proof -
  let ?R = "mb_reach succ_worker [7] 4"
  have "?R \<lparr>mb_next = 0, mb_results = [None], mb_workers = [At_head], mb_main = Gathering, mb_calls = []\<rparr>"
    using mb_start[of succ_worker "[7]" 4] by (simp add: map_bounded_def)
  then have "?R \<lparr>mb_next = 1, mb_results = [None], mb_workers = [Awaiting 0], mb_main = Gathering, mb_calls = [0]\<rparr>"
    by (rule mb_next_state) (auto simp: mb_step.simps intro!: exI[of _ 0])
  then have "?R \<lparr>mb_next = 1, mb_results = [Some 8], mb_workers = [At_head], mb_main = Gathering, mb_calls = [0]\<rparr>"
    by (rule mb_next_state) (auto simp: mb_step.simps succ_worker_def intro!: exI[of _ 0])
  then have "?R \<lparr>mb_next = 1, mb_results = [Some 8], mb_workers = [Ended], mb_main = Gathering, mb_calls = [0]\<rparr>"
    by (rule mb_next_state) (auto simp: mb_step.simps intro!: exI[of _ 0])
  then show ?thesis
    by (rule mb_next_state) (auto simp: mb_step.simps intro!: exI[of _ 0])
qed

theorem map_bounded_ordered_and_bounded_witness:
  "mb_reach succ_worker [7] 4
     \<lparr>mb_next = 1, mb_results = [Some 8], mb_workers = [Ended], mb_main = Returned [8], mb_calls = [0]\<rparr> \<and>
   list_all2 (\<lambda>x r. succ_worker x (Inr r)) [7] [8]"
  using mb_run_example map_bounded_ordered_and_bounded[OF mb_run_example] by simp

theorem map_bounded_terminates_witness:
  "\<exists>t. (mb_step succ_worker [7])\<^sup>*\<^sup>* (map_bounded [7::nat] 4) t \<and> mb_final t"
proof -
  have "\<forall>x \<in> set [7]. \<exists>r. succ_worker x r" by (simp add: succ_worker_def)
  from map_bounded_terminates[OF this, of 4] mb_start[of succ_worker "[7]" 4] show ?thesis by auto
qed

definition quiet_handler :: "nat \<Rightarrow> async_exc option \<Rightarrow> bool" where
  "quiet_handler x out \<longleftrightarrow> out = None"

lemma rb_run_example:
  "rb_reach quiet_handler 1 False
     \<lparr>rb_permits = 0, rb_in_flight = [Created 5], rb_first_error = None, rb_stop = False,
      rb_main = Acquiring, rb_dispatched = [5], rb_started = [], rb_dropped = [], rb_done = []\<rparr>"
proof -
  let ?R = "rb_reach quiet_handler 1 False"
  let ?s = "\<lambda>n ts m ds. \<lparr>rb_permits = n, rb_in_flight = ts, rb_first_error = None, rb_stop = False,
      rb_main = m, rb_dispatched = ds, rb_started = [], rb_dropped = [], rb_done = []\<rparr>"
  have "?R (?s 1 [] Loop_head [])"
    using rb_start[of quiet_handler 1 False] by (simp add: run_bounded_iterator_def)
  then have "?R (?s 1 [] Acquiring [])" by (rule rb_next_state) (auto simp: rb_step.simps)
  then have "?R (?s 0 [] Acquired [])" by (rule rb_next_state) (auto simp: rb_step.simps)
  then have "?R (?s 0 [] Fetching [])" by (rule rb_next_state) (auto simp: rb_step.simps)
  then have "?R (?s 0 [Created 5] Loop_head [5])" by (rule rb_next_state) (auto simp: rb_step.simps)
  then show ?thesis by (rule rb_next_state) (auto simp: rb_step.simps)
qed

text \<open>A whole call: the item is dispatched, its handler runs and ends, the iterator is exhausted.\<close>

definition rb_example_end :: "nat rb_state" where
  "rb_example_end = \<lparr>rb_permits = 1, rb_in_flight = [], rb_first_error = None, rb_stop = False,
     rb_main = Finished None, rb_dispatched = [5], rb_started = [5], rb_dropped = [], rb_done = [(5, None)]\<rparr>"

lemma rb_run_finished: "rb_reach quiet_handler 1 False rb_example_end"
proof -
  let ?R = "rb_reach quiet_handler 1 False"
  let ?s = "\<lambda>n ts m ds. \<lparr>rb_permits = n, rb_in_flight = ts, rb_first_error = None, rb_stop = False,
      rb_main = m, rb_dispatched = [5], rb_started = [5], rb_dropped = [], rb_done = ds\<rparr>"
  have "?R (?s 0 [Running 5] Acquiring [])" using rb_run_example by (rule rb_next_state) (auto simp: rb_step.simps intro: exI[of _ "[]"])
  then have "?R (?s 1 [Finishing 5 None] Acquiring [])" by (rule rb_next_state) (auto simp: rb_step.simps quiet_handler_def intro: exI[of _ "[]"])
  then have "?R (?s 1 [] Acquiring [(5, None)])" by (rule rb_next_state) (auto simp: rb_step.simps intro: exI[of _ "[]"])
  then have "?R (?s 0 [] Acquired [(5, None)])" by (rule rb_next_state) (auto simp: rb_step.simps)
  then have "?R (?s 0 [] Fetching [(5, None)])" by (rule rb_next_state) (auto simp: rb_step.simps)
  then have "?R (?s 1 [] (Leaving None) [(5, None)])" by (rule rb_next_state) (auto simp: rb_step.simps)
  then show ?thesis unfolding rb_example_end_def by (rule rb_next_state) (auto simp: rb_step.simps)
qed

theorem bounded_iterator_safe_witness:
  "rb_reach quiet_handler 1 False rb_example_end \<and> mset (rb_dispatched rb_example_end) = mset (rb_started rb_example_end) + mset (rb_dropped rb_example_end) \<and>
   rb_dropped rb_example_end = []"
proof -
  have "rb_main rb_example_end = Finished None" by (simp add: rb_example_end_def)
  then show ?thesis using bounded_iterator_safe[OF rb_run_finished] rb_run_finished by blast
qed

theorem bounded_iterator_never_stuck_witness:
  "\<exists>t r. (rb_step quiet_handler)\<^sup>*\<^sup>*
     \<lparr>rb_permits = 0, rb_in_flight = [Created 5], rb_first_error = None, rb_stop = False,
      rb_main = Acquiring, rb_dispatched = [5], rb_started = [], rb_dropped = [], rb_done = []\<rparr> t \<and> rb_main t = Finished r"
proof -
  have "\<forall>x. \<exists>out. quiet_handler x out" by (simp add: quiet_handler_def)
  from bounded_iterator_never_stuck[OF this rb_run_example] show ?thesis .
qed

end
