(* ===== verification/Topic_Match.thy ===== *)
theory Topic_Match
  imports Relayna_Prelude
begin

text \<open>
  Matching of RabbitMQ topic bindings.  The code has it twice: an index loop with an inner
  search in \<^verbatim>\<open>topology/workflow_graph.py\<close> and a memoised recursion in
  \<^verbatim>\<open>consumer/context.py\<close>.  Both are translated with their indices; \<open>amqp_matches\<close> is the
  documented meaning of a topic binding (\<open>*\<close> stands for one word, \<open>#\<close> for zero or more),
  and both routines are shown to compute it.
\<close>

subsection \<open>The meaning of a binding\<close>

inductive amqp_matches :: "string list \<Rightarrow> string list \<Rightarrow> bool" where
  am_end: "amqp_matches [] []"
| am_hash_none: "amqp_matches bs rs \<Longrightarrow> amqp_matches (''#'' # bs) rs"
| am_hash_more: "amqp_matches (''#'' # bs) rs \<Longrightarrow> amqp_matches (''#'' # bs) (r # rs)"
| am_star: "amqp_matches bs rs \<Longrightarrow> amqp_matches (''*'' # bs) (r # rs)"
| am_word: "w \<noteq> ''#'' \<Longrightarrow> amqp_matches bs rs \<Longrightarrow> amqp_matches (w # bs) (w # rs)"

inductive_simps amqp_Nil [simp]: "amqp_matches [] rs"
inductive_simps amqp_Cons: "amqp_matches (b # bs) rs"

lemma amqp_word:
  "b \<noteq> ''#'' \<Longrightarrow> amqp_matches (b # bs) rs \<longleftrightarrow>
     (case rs of [] \<Rightarrow> False | r # rs' \<Rightarrow> (b = ''*'' \<or> b = r) \<and> amqp_matches bs rs')"
  by (subst amqp_Cons) (auto split: list.splits)

lemma amqp_hash_dropD:
  "amqp_matches xs rs \<Longrightarrow> xs = ''#'' # bs \<Longrightarrow> \<exists>n \<le> length rs. amqp_matches bs (drop n rs)"
proof (induction rule: amqp_matches.induct)
  case (am_hash_none bs' rs)
  then show ?case by (intro exI [of _ 0]) simp
next
  case (am_hash_more bs' rs r)
  then obtain n where "n \<le> length rs" "amqp_matches bs (drop n rs)" by blast
  then show ?case by (intro exI [of _ "Suc n"]) simp
qed simp_all

lemma amqp_hash_dropI:
  "n \<le> length rs \<Longrightarrow> amqp_matches bs (drop n rs) \<Longrightarrow> amqp_matches (''#'' # bs) rs"
proof (induction n arbitrary: rs)
  case 0
  then show ?case by (simp add: amqp_matches.am_hash_none)
next
  case (Suc n)
  then obtain r rs' where "rs = r # rs'" by (cases rs) auto
  with Suc show ?case by (simp add: amqp_matches.am_hash_more)
qed

lemma amqp_hash_drop:
  "amqp_matches (''#'' # bs) rs \<longleftrightarrow> (\<exists>n \<le> length rs. amqp_matches bs (drop n rs))"
  by (rule iffI, erule amqp_hash_dropD [OF _ refl], elim exE conjE, rule amqp_hash_dropI)

lemma amqp_hash_drop_from:
  assumes "ri \<le> length rs"
  shows "amqp_matches (''#'' # bs) (drop ri rs) \<longleftrightarrow>
    (\<exists>n \<in> set [ri ..< length rs + 1]. amqp_matches bs (drop n rs))"
proof
  assume "amqp_matches (''#'' # bs) (drop ri rs)"
  then obtain n where "n \<le> length rs - ri" "amqp_matches bs (drop (n + ri) rs)"
    by (auto simp: amqp_hash_drop)
  with assms show "\<exists>n \<in> set [ri ..< length rs + 1]. amqp_matches bs (drop n rs)"
    by (intro bexI [of _ "n + ri"]) auto
next
  assume "\<exists>n \<in> set [ri ..< length rs + 1]. amqp_matches bs (drop n rs)"
  then obtain n where n: "ri \<le> n" "n \<le> length rs" "amqp_matches bs (drop n rs)" by auto
  show "amqp_matches (''#'' # bs) (drop ri rs)"
    by (rule amqp_hash_dropI [of "n - ri"]) (use n in simp_all)
qed

lemma amqp_hash_last: "amqp_matches [''#''] rs"
  by (subst amqp_hash_drop) (auto intro: exI [of _ "length rs"])

lemma amqp_hash_step:
  "amqp_matches (''#'' # bs) rs \<longleftrightarrow>
     amqp_matches bs rs \<or> (case rs of [] \<Rightarrow> False | r # rs' \<Rightarrow> amqp_matches (''#'' # bs) rs')"
  by (subst amqp_Cons) (auto split: list.splits)

lemma amqp_literal: "\<forall>w \<in> set ws. w \<noteq> ''#'' \<and> w \<noteq> ''*'' \<Longrightarrow> amqp_matches ws rs \<longleftrightarrow> ws = rs"
proof (induction ws arbitrary: rs)
  case (Cons w ws)
  then show ?case by (auto simp: amqp_word split: list.splits)
qed auto

subsection \<open>workflow\_graph.py\<close>

text \<open>
  \<^verbatim>\<open>_matches_parts\<close>: the \<^verbatim>\<open>while\<close> loop is the recursive call that advances both
  indices.  The callers keep \<open>bi\<close> and \<open>ri\<close> within the lengths of the two lists, where the
  first test is \<^verbatim>\<open>binding_index == len(binding_parts)\<close>.
\<close>

function matches_parts :: "string list \<Rightarrow> string list \<Rightarrow> nat \<Rightarrow> nat \<Rightarrow> bool" where
  "matches_parts binding_parts routing_parts bi ri =
     (if length binding_parts \<le> bi then ri = length routing_parts
      else let token = binding_parts ! bi in
        if token = ''#'' then
          (if bi = length binding_parts - 1 then True
           else list_ex (\<lambda>next_routing. matches_parts binding_parts routing_parts (bi + 1) next_routing)
                  [ri ..< length routing_parts + 1])
        else if ri = length routing_parts then False
        else if token \<noteq> ''*'' \<and> token \<noteq> routing_parts ! ri then False
        else matches_parts binding_parts routing_parts (bi + 1) (ri + 1))"
  by pat_completeness auto
termination
  by (relation "measure (\<lambda>(bs, rs, bi, ri). length bs - bi)") auto

declare matches_parts.simps [simp del]

definition topic_binding_matches :: "string \<Rightarrow> string \<Rightarrow> bool" where
  "topic_binding_matches binding_key routing_key =
     matches_parts (split_on (CHR ''.'') binding_key) (split_on (CHR ''.'') routing_key) 0 0"

subsection \<open>consumer/context.py\<close>

text \<open>The cache of \<^verbatim>\<open>_matches\<close> does not change its value and is left out.\<close>

function matches_cached :: "string list \<Rightarrow> string list \<Rightarrow> nat \<Rightarrow> nat \<Rightarrow> bool" where
  "matches_cached binding_parts routing_parts bi ri =
     (if length binding_parts \<le> bi then ri = length routing_parts
      else let token = binding_parts ! bi in
        if token = ''#'' then
          (if matches_cached binding_parts routing_parts (bi + 1) ri then True
           else if ri < length routing_parts then matches_cached binding_parts routing_parts bi (ri + 1)
           else False)
        else if ri = length routing_parts then False
        else if token = ''*'' \<or> token = routing_parts ! ri
        then matches_cached binding_parts routing_parts (bi + 1) (ri + 1)
        else False)"
  by pat_completeness auto
termination
  by (relation "measures [\<lambda>(bs, rs, bi, ri). length bs - bi, \<lambda>(bs, rs, bi, ri). length rs - ri]") auto

declare matches_cached.simps [simp del]

definition context_topic_binding_matches :: "string \<Rightarrow> string \<Rightarrow> bool" where
  "context_topic_binding_matches binding_key routing_key =
     matches_cached (split_on (CHR ''.'') binding_key) (split_on (CHR ''.'') routing_key) 0 0"

subsection \<open>Both compute the meaning\<close>

lemma drop_word: "i < length xs \<Longrightarrow> drop i xs = xs ! i # drop (Suc i) xs"
  by (rule Cons_nth_drop_Suc [symmetric])

lemma matches_parts_correct:
  "bi \<le> length bs \<Longrightarrow> ri \<le> length rs \<Longrightarrow>
     matches_parts bs rs bi ri \<longleftrightarrow> amqp_matches (drop bi bs) (drop ri rs)"
proof (induction bs rs bi ri rule: matches_parts.induct)
  case (1 bs rs bi ri)
  show ?case
  proof (cases "length bs \<le> bi")
    case True
    with "1.prems" show ?thesis by (subst matches_parts.simps) auto
  next
    case bi: False
    then have d: "drop bi bs = bs ! bi # drop (Suc bi) bs" by (simp add: drop_word)
    show ?thesis
    proof (cases "bs ! bi = ''#''")
      case True
      have "matches_parts bs rs (bi + 1) n \<longleftrightarrow> amqp_matches (drop (bi + 1) bs) (drop n rs)"
        if "bi \<noteq> length bs - 1" "n \<in> set [ri ..< length rs + 1]" for n
        using "1.IH"(1) [OF bi refl True that] bi that by auto
      then show ?thesis
        using bi True d "1.prems" amqp_hash_drop_from [OF "1.prems"(2), of "drop (Suc bi) bs"]
        by (subst matches_parts.simps) (auto simp: list_ex_iff amqp_hash_last Let_def)
    next
      case False
      show ?thesis
      proof (cases "ri = length rs")
        case True
        with False bi d show ?thesis by (subst matches_parts.simps) (auto simp: amqp_word Let_def)
      next
        case ri: False
        with "1.prems" have r: "drop ri rs = rs ! ri # drop (Suc ri) rs" by (simp add: drop_word)
        show ?thesis
          using False bi ri d r "1.IH"(2) [OF bi refl False ri] "1.prems"
          by (subst matches_parts.simps) (auto simp: amqp_word Let_def)
      qed
    qed
  qed
qed

lemma matches_cached_correct:
  "bi \<le> length bs \<Longrightarrow> ri \<le> length rs \<Longrightarrow>
     matches_cached bs rs bi ri \<longleftrightarrow> amqp_matches (drop bi bs) (drop ri rs)"
proof (induction bs rs bi ri rule: matches_cached.induct)
  case (1 bs rs bi ri)
  show ?case
  proof (cases "length bs \<le> bi")
    case True
    with "1.prems" show ?thesis by (subst matches_cached.simps) (auto simp: Let_def)
  next
    case bi: False
    then have d: "drop bi bs = bs ! bi # drop (Suc bi) bs" by (simp add: drop_word)
    show ?thesis
    proof (cases "bs ! bi = ''#''")
      case True
      have n1: "matches_cached bs rs (bi + 1) ri \<longleftrightarrow> amqp_matches (drop (Suc bi) bs) (drop ri rs)"
        using "1.IH"(1) [OF bi refl True] bi "1.prems" by simp
      have n2: "matches_cached bs rs bi (ri + 1) \<longleftrightarrow> amqp_matches (''#'' # drop (Suc bi) bs) (drop (Suc ri) rs)"
        if "\<not> matches_cached bs rs (bi + 1) ri" "ri < length rs"
        using "1.IH"(2) [OF bi refl True that] d True "1.prems" that by simp
      show ?thesis
      proof (cases "ri < length rs")
        case ri: True
        have "matches_cached bs rs bi ri \<longleftrightarrow> amqp_matches (drop (Suc bi) bs) (drop ri rs) \<or>
            amqp_matches (''#'' # drop (Suc bi) bs) (drop (Suc ri) rs)"
          using bi True ri n1 n2 by (subst matches_cached.simps) (auto simp: Let_def)
        then show ?thesis
          using amqp_hash_step [of "drop (Suc bi) bs" "drop ri rs"] ri d True by (simp add: drop_word)
      next
        case False
        then show ?thesis
          using bi True n1 d amqp_hash_step [of "drop (Suc bi) bs" "drop ri rs"]
          by (subst matches_cached.simps) (auto simp: Let_def)
      qed
    next
      case False
      show ?thesis
      proof (cases "ri = length rs")
        case True
        with False bi d show ?thesis by (subst matches_cached.simps) (auto simp: amqp_word Let_def)
      next
        case ri: False
        with "1.prems" have r: "drop ri rs = rs ! ri # drop (Suc ri) rs" by (simp add: drop_word)
        show ?thesis
          using False bi ri d r "1.IH"(3) [OF bi refl False ri] "1.prems"
          by (subst matches_cached.simps) (auto simp: amqp_word Let_def)
      qed
    qed
  qed
qed

text \<open>
  The index loop of \<^verbatim>\<open>workflow_graph.py\<close> decides exactly the documented meaning of a
  topic binding on the dot-separated words of the two keys.
\<close>
theorem topic_binding_matches_correct:
  "topic_binding_matches b r \<longleftrightarrow> amqp_matches (split_on (CHR ''.'') b) (split_on (CHR ''.'') r)"
  by (simp add: topic_binding_matches_def matches_parts_correct)

text \<open>
  C9. The two implementations of topic matching agree on every pair of keys: the exported
  workflow graph and the stage resolution of a worker never disagree on a binding.
\<close>
theorem topic_matchers_agree:
  "topic_binding_matches b r \<longleftrightarrow> context_topic_binding_matches b r"
  by (simp add: topic_binding_matches_def context_topic_binding_matches_def
      matches_parts_correct matches_cached_correct)

lemma topic_binding_literal:
  assumes "\<forall>w \<in> set (split_on (CHR ''.'') b). w \<noteq> ''#'' \<and> w \<noteq> ''*''"
  shows "topic_binding_matches b r \<longleftrightarrow> b = r"
proof -
  have "topic_binding_matches b r \<longleftrightarrow> split_on (CHR ''.'') b = split_on (CHR ''.'') r"
    by (simp add: topic_binding_matches_def matches_parts_correct amqp_literal [OF assms])
  then show ?thesis by (metis join_split_on)
qed

end
