(* ===== verification/Routing.thy ===== *)
theory Routing
  imports Contracts Topic_Match
begin

text \<open>
  \<^verbatim>\<open>src/src/relayna/topology/base.py\<close>: the routing strategies and the assembly of queue
  arguments.  Events are dictionaries (\<^verbatim>\<open>to_dict\<close> of a model is the dictionary pydantic
  dumps).  \<open>sha\<close> is the SHA-256 hex digest of a key.
\<close>

subsection \<open>Routing strategies\<close>

datatype routing_strategy =
    TaskIdRouting string "alias_config option"
  | ShardRouting string int string "(dict \<Rightarrow> string) option" "alias_config option"
  | TaskTypeRouting "alias_config option"
  | CustomRouting "dict \<Rightarrow> string res" "dict \<Rightarrow> string res"

definition dict_text :: "dict \<Rightarrow> string \<Rightarrow> string" where
  "dict_text d k = (case map_of d k of None \<Rightarrow> [] | Some v \<Rightarrow> py_str v)"

definition dict_text_or_blank :: "dict \<Rightarrow> string \<Rightarrow> string" where
  "dict_text_or_blank d k = (case map_of d k of None \<Rightarrow> [] | Some v \<Rightarrow> if truthy v then py_str v else [])"

definition task_id_status_routing_key :: "alias_config option \<Rightarrow> dict \<Rightarrow> string res" where
  "task_id_status_routing_key cfg event =
     (let normalized = normalize_contract_aliases event cfg Payload True;
          task_id = dict_text normalized ''task_id''
      in if task_id = [] then Inl (ValueError ''status event missing task_id'') else Inr task_id)"

definition hex_value :: "string \<Rightarrow> nat" where
  "hex_value s = foldl (\<lambda>acc c. 16 * acc +
     (let n = of_char c in if n \<le> 57 then n - 48 else if n \<le> 70 then n - 55 else n - 87)) 0 s"

definition default_shard_key :: "dict \<Rightarrow> string" where
  "default_shard_key normalized =
     (let parent = (case map_of normalized ''meta'' of
                      Some (PDict meta) \<Rightarrow> (case map_of meta ''parent_task_id'' of None \<Rightarrow> PNone | Some v \<Rightarrow> v)
                    | _ \<Rightarrow> PNone)
      in if truthy parent then py_str parent else dict_text_or_blank normalized ''task_id'')"

definition shard_for_event ::
  "(string \<Rightarrow> string) \<Rightarrow> int \<Rightarrow> (dict \<Rightarrow> string) option \<Rightarrow> alias_config option \<Rightarrow> dict \<Rightarrow> int res" where
  "shard_for_event sha shard_count key_extractor cfg event =
     (let normalized = normalize_contract_aliases event cfg Payload True;
          key = (case key_extractor of Some f \<Rightarrow> f normalized | None \<Rightarrow> default_shard_key normalized)
      in if key = [] then Inl (ValueError ''status event missing shard key'')
         else Inr (int (hex_value (sha key)) mod max 1 shard_count))"

definition shard_status_routing_key ::
  "(string \<Rightarrow> string) \<Rightarrow> int \<Rightarrow> string \<Rightarrow> (dict \<Rightarrow> string) option \<Rightarrow> alias_config option \<Rightarrow> dict \<Rightarrow> string res" where
  "shard_status_routing_key sha shard_count routing_prefix key_extractor cfg event =
     bind_res (shard_for_event sha shard_count key_extractor cfg event)
       (\<lambda>shard. Inr (routing_prefix @ ''.'' @ int_str shard))"

definition task_type_routing_key :: "alias_config option \<Rightarrow> dict \<Rightarrow> string res" where
  "task_type_routing_key cfg task =
     (let normalized = normalize_contract_aliases task cfg Payload True;
          task_type = strip (dict_text_or_blank normalized ''task_type'')
      in if task_type = [] then Inl (ValueError ''task message missing task_type'') else Inr task_type)"

definition strategy_task_routing_key :: "routing_strategy \<Rightarrow> dict \<Rightarrow> string res" where
  "strategy_task_routing_key strategy task =
     (case strategy of
        TaskIdRouting key _ \<Rightarrow> Inr key
      | ShardRouting key _ _ _ _ \<Rightarrow> Inr key
      | TaskTypeRouting cfg \<Rightarrow> task_type_routing_key cfg task
      | CustomRouting task_key _ \<Rightarrow> task_key task)"

definition strategy_status_routing_key :: "(string \<Rightarrow> string) \<Rightarrow> routing_strategy \<Rightarrow> dict \<Rightarrow> string res" where
  "strategy_status_routing_key sha strategy event =
     (case strategy of
        TaskIdRouting _ cfg \<Rightarrow> task_id_status_routing_key cfg event
      | ShardRouting _ n prefix extractor cfg \<Rightarrow> shard_status_routing_key sha n prefix extractor cfg event
      | TaskTypeRouting cfg \<Rightarrow> task_id_status_routing_key cfg event
      | CustomRouting _ status_key \<Rightarrow> status_key event)"

definition aggregation_parent_task_id :: "dict \<Rightarrow> string" where
  "aggregation_parent_task_id event =
     (case map_of event ''meta'' of
        Some (PDict meta) \<Rightarrow> dict_text_or_blank meta ''parent_task_id''
      | _ \<Rightarrow> [])"

subsection \<open>Queue arguments\<close>

definition validate_queue_max_priority :: "pyval \<Rightarrow> string \<Rightarrow> int res" where
  "validate_queue_max_priority value label =
     bind_res (py_int value) (\<lambda>priority.
       if priority < 1 \<or> priority > 255
       then Inl (ValueError (label @ ''_max_priority must be between 1 and 255''))
       else Inr priority)"

definition with_validated_queue_max_priority :: "dict \<Rightarrow> string \<Rightarrow> dict res" where
  "with_validated_queue_max_priority arguments label =
     (case map_of arguments ''x-max-priority'' of
        None \<Rightarrow> Inr arguments
      | Some max_priority \<Rightarrow>
          if max_priority = PNone then Inr arguments
          else bind_res (validate_queue_max_priority max_priority label)
                 (\<lambda>p. Inr (AList.update ''x-max-priority'' (PInt p) arguments)))"

definition raise_on_argument_conflicts :: "string \<Rightarrow> string \<Rightarrow> dict \<Rightarrow> string \<Rightarrow> dict \<Rightarrow> unit res" where
  "raise_on_argument_conflicts queue_family left_name left right_name right =
     (let duplicate_keys = sorted_set (filter (\<lambda>k. k \<in> set (map fst right)) (map fst left))
      in if duplicate_keys = [] then Inr ()
         else Inl (ValueError (''Duplicate '' @ queue_family @ '' queue arguments configured in '' @
                left_name @ '' and '' @ right_name @ '': '' @ join '', '' duplicate_keys)))"

definition merge_queue_arguments :: "string \<Rightarrow> dict \<Rightarrow> dict \<Rightarrow> dict \<Rightarrow> dict res" where
  "merge_queue_arguments queue_family builtins overrides kwargs =
     bind_res (raise_on_argument_conflicts queue_family ''built-in fields'' builtins ''overrides'' overrides) (\<lambda>_.
     bind_res (raise_on_argument_conflicts queue_family ''built-in fields'' builtins ''kwargs'' kwargs) (\<lambda>_.
     bind_res (raise_on_argument_conflicts queue_family ''overrides'' overrides ''kwargs'' kwargs) (\<lambda>_.
       Inr (dict_update (dict_update builtins overrides) kwargs))))"

lemma raise_on_argument_conflicts_ok [simp]:
  "raise_on_argument_conflicts fam ln l rn r = Inr u \<longleftrightarrow> set (map fst l) \<inter> set (map fst r) = {}"
  by (cases u) (auto simp: raise_on_argument_conflicts_def Let_def filter_empty_conv)

lemma merge_queue_arguments_content:
  assumes m: "merge_queue_arguments fam builtins overrides kwargs = Inr merged"
    and wf: "dict_wf builtins" "dict_wf overrides" "dict_wf kwargs"
  shows "dict_wf merged"
    and "map_of merged k = Some v \<longleftrightarrow>
           map_of builtins k = Some v \<or> map_of overrides k = Some v \<or> map_of kwargs k = Some v"
proof -
  from m have mg: "merged = dict_update (dict_update builtins overrides) kwargs"
    and dis: "set (map fst builtins) \<inter> set (map fst overrides) = {}"
      "set (map fst builtins) \<inter> set (map fst kwargs) = {}"
      "set (map fst overrides) \<inter> set (map fst kwargs) = {}"
    by (simp_all add: merge_queue_arguments_def)
  show "dict_wf merged" using wf by (simp add: mg)
  have no: "map_of d k = Some x \<Longrightarrow> set (map fst d) \<inter> set (map fst e) = {} \<Longrightarrow> map_of e k = None"
    for d e :: dict and x
    by (force simp: map_of_eq_None_iff dest: map_of_SomeD)
  show "map_of merged k = Some v \<longleftrightarrow>
      map_of builtins k = Some v \<or> map_of overrides k = Some v \<or> map_of kwargs k = Some v"
    using no [OF _ dis(1)] no [OF _ dis(2)] no [OF _ dis(3)]
    by (simp only: mg map_of_dict_update [OF wf(2)] map_of_dict_update [OF wf(3)] map_add_Some_iff) blast
qed

text \<open>
  Queue arguments are merged exactly when no key is configured in two of the three
  places, and then every argument is taken from the place that configures it.
\<close>
theorem merge_queue_arguments_iff:
  assumes "dict_wf builtins" "dict_wf overrides" "dict_wf kwargs"
  shows "((\<exists>merged. merge_queue_arguments fam builtins overrides kwargs = Inr merged) \<longleftrightarrow>
            set (map fst builtins) \<inter> set (map fst overrides) = {} \<and>
            set (map fst builtins) \<inter> set (map fst kwargs) = {} \<and>
            set (map fst overrides) \<inter> set (map fst kwargs) = {}) \<and>
         (\<forall>merged. merge_queue_arguments fam builtins overrides kwargs = Inr merged \<longrightarrow>
            dict_wf merged \<and>
            (\<forall>k v. map_of merged k = Some v \<longleftrightarrow>
               map_of builtins k = Some v \<or> map_of overrides k = Some v \<or> map_of kwargs k = Some v))"
proof (intro conjI allI impI)
  show "(\<exists>merged. merge_queue_arguments fam builtins overrides kwargs = Inr merged) \<longleftrightarrow>
          set (map fst builtins) \<inter> set (map fst overrides) = {} \<and>
          set (map fst builtins) \<inter> set (map fst kwargs) = {} \<and>
          set (map fst overrides) \<inter> set (map fst kwargs) = {}"
    by (simp add: merge_queue_arguments_def)
qed (simp_all only: merge_queue_arguments_content [OF _ assms])

theorem merge_queue_arguments_iff_witness:
  "\<exists>merged. merge_queue_arguments ''task'' [(''a'', PInt 1)] [(''b'', PInt 2)] [] = Inr merged"
  using merge_queue_arguments_iff [of "[(''a'', PInt 1)]" "[(''b'', PInt 2)]" "[]" "''task''"] by simp

lemma with_validated_queue_max_priority_bounds:
  assumes "with_validated_queue_max_priority args label = Inr out" "map_of out ''x-max-priority'' = Some v" "v \<noteq> PNone"
  shows "\<exists>p. v = PInt p \<and> 1 \<le> p \<and> p \<le> 255"
  using assms
  by (auto simp: with_validated_queue_max_priority_def validate_queue_max_priority_def split: option.splits if_splits)

lemma with_validated_queue_max_priority_frame:
  "with_validated_queue_max_priority args label = Inr out \<Longrightarrow> k \<noteq> ''x-max-priority'' \<Longrightarrow> map_of out k = map_of args k"
  by (auto simp: with_validated_queue_max_priority_def split: option.splits if_splits)

text \<open>
  Status routing by task id raises exactly when the normalised event has no task id or
  an empty one; otherwise the key is the text of the task id.
\<close>
theorem task_id_status_routing_key_cases:
  "task_id_status_routing_key cfg event =
     (case map_of (normalize_contract_aliases event cfg Payload True) ''task_id'' of
        None \<Rightarrow> Inl (ValueError ''status event missing task_id'')
      | Some v \<Rightarrow> if v = PStr [] then Inl (ValueError ''status event missing task_id'') else Inr (py_str v))"
proof -
  have "py_str v = [] \<longleftrightarrow> v = PStr []" for v
    by (cases v) (auto simp: py_str_def repr_string_def Let_def)
  then show ?thesis
    by (auto simp: task_id_status_routing_key_def dict_text_def Let_def py_str_def split: option.splits)
qed

text \<open>
  A shard is always a member of the configured range, equal shard keys give equal
  shards, and the routing key names the shard.
\<close>
theorem shard_for_event_in_range:
  assumes "shard_for_event sha n extractor cfg event = Inr shard"
  shows "0 \<le> shard \<and> shard < max 1 n \<and>
     shard_status_routing_key sha n prefix extractor cfg event = Inr (prefix @ ''.'' @ int_str shard)"
  using assms
  by (auto simp: shard_for_event_def shard_status_routing_key_def Let_def split: if_splits)

theorem shard_for_event_in_range_witness:
  "(0::int) \<le> 2 \<and> (2::int) < max 1 4 \<and>
   shard_status_routing_key (\<lambda>_. ''1a'') 4 ''agg'' None None [(''task_id'', PStr ''t'')] =
     Inr (''agg'' @ ''.'' @ int_str 2)"
proof -
  have "shard_for_event (\<lambda>_. ''1a'') 4 None None [(''task_id'', PStr ''t'')] = Inr 2"
    by code_simp
  from shard_for_event_in_range [OF this, of "''agg''"] show ?thesis .
qed

end
