(* ===== verification/Shared_Topology.thy ===== *)
theory Shared_Topology
  imports Routing
begin

text \<open>
  \<^verbatim>\<open>topology/shared_tasks.py\<close> and \<^verbatim>\<open>topology/sharded_aggregation.py\<close>.  The four classes
  share one record: \<open>st_task_types\<close> is present for the routed classes (which override the
  binding keys and the routing strategy), \<open>st_sharding\<close> for the sharded ones (which override
  the aggregation methods), so a method dispatches as the class of the object does.  Calls on
  the AMQP channel are the list of commands they send.
\<close>

record sharding =
  sh_shard_count :: int
  sh_routing_prefix :: string
  sh_queue_template :: string
  sh_queue_name_prefix :: string
  sh_consumer_timeout_ms :: "int option"
  sh_single_active_consumer :: "bool option"
  sh_max_priority :: "int option"
  sh_queue_type :: "string option"
  sh_arguments_overrides :: dict
  sh_queue_kwargs :: dict

record shared_topology =
  st_rabbitmq_url :: string
  st_tasks_exchange :: string
  st_tasks_queue :: string
  st_tasks_routing_key :: string
  st_status_exchange :: string
  st_status_queue :: string
  st_dead_letter_exchange :: "string option"
  st_prefetch_count :: int
  st_tasks_message_ttl_ms :: "int option"
  st_task_consumer_timeout_ms :: "int option"
  st_task_single_active_consumer :: "bool option"
  st_task_max_priority :: "int option"
  st_task_queue_type :: "string option"
  st_task_arguments_overrides :: dict
  st_task_queue_kwargs :: dict
  st_status_use_streams :: bool
  st_status_queue_ttl_ms :: "int option"
  st_status_stream_max_length_gb :: "int option"
  st_status_stream_max_segment_size_mb :: "int option"
  st_status_stream_initial_offset :: string
  st_status_arguments_overrides :: dict
  st_status_queue_kwargs :: dict
  st_routing_strategy :: "routing_strategy option"
  st_task_types :: "string list option"
  st_sharding :: "sharding option"

datatype broker_command =
    DeclareExchange string string
  | DeclareQueue string "dict option"
  | BindQueue string string string

subsection \<open>Names, arguments and stages\<close>

definition connection_string :: "string \<Rightarrow> string option \<Rightarrow> string" where
  "connection_string url connection_name =
     (case connection_name of
        None \<Rightarrow> url
      | Some name \<Rightarrow> if name = [] then url
          else url @ (if CHR ''?'' \<in> set url then ''&'' else ''?'') @ ''name='' @ name)"

definition add_arg :: "string \<Rightarrow> pyval option \<Rightarrow> dict \<Rightarrow> dict" where
  "add_arg k v d = (case v of None \<Rightarrow> d | Some x \<Rightarrow> AList.update k x d)"

definition nonzero :: "int option \<Rightarrow> int option" where
  "nonzero n = (case n of Some i \<Rightarrow> if i \<noteq> 0 then Some i else None | None \<Rightarrow> None)"

definition nonempty :: "string option \<Rightarrow> string option" where
  "nonempty s = (case s of Some t \<Rightarrow> if t \<noteq> [] then Some t else None | None \<Rightarrow> None)"

definition add_max_priority :: "int option \<Rightarrow> string \<Rightarrow> dict \<Rightarrow> dict res" where
  "add_max_priority p label d = (case p of
     None \<Rightarrow> Inr d
   | Some i \<Rightarrow> bind_res (validate_queue_max_priority (PInt i) label)
                (\<lambda>v. Inr (AList.update ''x-max-priority'' (PInt v) d)))"

definition task_queue_arguments :: "shared_topology \<Rightarrow> dict res" where
  "task_queue_arguments t =
     (let builtins = [];
          builtins = add_arg ''x-message-ttl'' (map_option PInt (nonzero (st_tasks_message_ttl_ms t))) builtins;
          builtins = add_arg ''x-dead-letter-exchange'' (map_option PStr (nonempty (st_dead_letter_exchange t))) builtins;
          builtins = add_arg ''x-consumer-timeout'' (map_option PInt (st_task_consumer_timeout_ms t)) builtins;
          builtins = add_arg ''x-single-active-consumer'' (map_option PBool (st_task_single_active_consumer t)) builtins
      in bind_res (add_max_priority (st_task_max_priority t) ''task'' builtins) (\<lambda>builtins.
         bind_res (merge_queue_arguments ''task''
                     (add_arg ''x-queue-type'' (map_option PStr (st_task_queue_type t)) builtins)
                     (st_task_arguments_overrides t) (st_task_queue_kwargs t)) (\<lambda>merged.
           with_validated_queue_max_priority merged ''task'')))"

definition status_arguments ::
  "bool \<Rightarrow> int option \<Rightarrow> int option \<Rightarrow> int option \<Rightarrow> dict \<Rightarrow> dict \<Rightarrow> dict res" where
  "status_arguments use_streams max_length_gb max_segment_mb ttl_ms overrides kwargs =
     (let builtins =
            (if use_streams
             then add_arg ''x-stream-max-segment-size-bytes'' (map_option (\<lambda>n. PInt (n * 1024 ^ 2)) max_segment_mb)
                    (add_arg ''x-max-length-bytes'' (map_option (\<lambda>n. PInt (n * 1024 ^ 3)) max_length_gb)
                       [(''x-queue-type'', PStr ''stream'')])
             else add_arg ''x-expires'' (map_option PInt (nonzero ttl_ms)) [])
      in merge_queue_arguments ''status'' builtins overrides kwargs)"

definition status_queue_arguments :: "shared_topology \<Rightarrow> dict res" where
  "status_queue_arguments t =
     status_arguments (st_status_use_streams t) (st_status_stream_max_length_gb t)
       (st_status_stream_max_segment_size_mb t) (st_status_queue_ttl_ms t)
       (st_status_arguments_overrides t) (st_status_queue_kwargs t)"

definition status_stream_consume_arguments :: "shared_topology \<Rightarrow> dict" where
  "status_stream_consume_arguments t =
     (if \<not> st_status_use_streams t then []
      else [(''x-stream-offset'', PStr (st_status_stream_initial_offset t))])"

definition workflow_exchange_name :: "shared_topology \<Rightarrow> string option" where
  "workflow_exchange_name t = Some (st_tasks_exchange t)"

definition workflow_stage_names :: "shared_topology \<Rightarrow> string list" where
  "workflow_stage_names t = [''default'']"

definition workflow_queue_names :: "shared_topology \<Rightarrow> string list" where
  "workflow_queue_names t = [st_tasks_queue t]"

definition require_default_workflow_stage :: "string \<Rightarrow> unit res" where
  "require_default_workflow_stage stage =
     (if stage \<noteq> ''default'' then Inl (KeyError (''Unknown workflow stage '' @ quoted stage)) else Inr ())"

definition task_queue_name :: "shared_topology \<Rightarrow> string" where
  "task_queue_name t = st_tasks_queue t"

definition status_queue_name :: "shared_topology \<Rightarrow> string" where
  "status_queue_name t = st_status_queue t"

definition normalize_task_types :: "string list \<Rightarrow> string list" where
  "normalize_task_types values =
     fold (\<lambda>value normalized.
        let task_type = strip value
        in if task_type = [] \<or> task_type \<in> set normalized then normalized
           else normalized @ [task_type]) values []"

definition normalized_task_types :: "string list \<Rightarrow> string list res" where
  "normalized_task_types values =
     (let normalized = normalize_task_types values
      in if normalized = [] then Inl (ValueError ''At least one task_type must be configured'')
         else Inr normalized)"

definition task_binding_keys :: "shared_topology \<Rightarrow> string list res" where
  "task_binding_keys t =
     (case st_task_types t of
        None \<Rightarrow> Inr [st_tasks_routing_key t]
      | Some task_types \<Rightarrow> normalized_task_types task_types)"

definition status_binding_keys :: "shared_topology \<Rightarrow> string list" where
  "status_binding_keys t = [''#'']"

definition workflow_queue_name :: "shared_topology \<Rightarrow> string \<Rightarrow> string res" where
  "workflow_queue_name t stage =
     bind_res (require_default_workflow_stage stage) (\<lambda>_. Inr (task_queue_name t))"

definition workflow_binding_keys :: "shared_topology \<Rightarrow> string \<Rightarrow> string list res" where
  "workflow_binding_keys t stage =
     bind_res (require_default_workflow_stage stage) (\<lambda>_. task_binding_keys t)"

definition workflow_queue_arguments :: "shared_topology \<Rightarrow> string \<Rightarrow> dict res" where
  "workflow_queue_arguments t stage =
     bind_res (require_default_workflow_stage stage) (\<lambda>_. task_queue_arguments t)"

definition workflow_publish_routing_key :: "shared_topology \<Rightarrow> string \<Rightarrow> string res" where
  "workflow_publish_routing_key t stage =
     bind_res (require_default_workflow_stage stage) (\<lambda>_.
       case st_task_types t of
         Some _ \<Rightarrow> Inl (RuntimeError ''Routed task topologies do not define a single workflow publish routing key'')
       | None \<Rightarrow>
           let routing_key = strip (st_tasks_routing_key t)
           in if routing_key = []
              then Inl (RuntimeError ''Topology does not define a single workflow publish routing key'')
              else Inr routing_key)"

definition workflow_entry_routing_key :: "shared_topology \<Rightarrow> string \<Rightarrow> string res" where
  "workflow_entry_routing_key t route =
     bind_res (require_default_workflow_stage route) (\<lambda>_. workflow_publish_routing_key t route)"

definition default_workflow_stage :: "shared_topology \<Rightarrow> string option" where
  "default_workflow_stage t = Some ''default''"

subsection \<open>Routing of tasks and statuses\<close>

definition routing :: "shared_topology \<Rightarrow> routing_strategy" where
  "routing t =
     (case st_task_types t of
        Some _ \<Rightarrow> TaskTypeRouting None
      | None \<Rightarrow> (case st_routing_strategy t of
            Some s \<Rightarrow> s
          | None \<Rightarrow> TaskIdRouting (st_tasks_routing_key t) None))"

definition task_routing_key :: "shared_topology \<Rightarrow> dict \<Rightarrow> string res" where
  "task_routing_key t task = strategy_task_routing_key (routing t) task"

definition status_routing_key :: "(string \<Rightarrow> string) \<Rightarrow> shared_topology \<Rightarrow> dict \<Rightarrow> string res" where
  "status_routing_key sha t event = strategy_status_routing_key sha (routing t) event"

subsection \<open>Sharded aggregation\<close>

definition no_aggregation :: "'a res" where
  "no_aggregation = Inl (RuntimeError ''Topology does not define shard-aware aggregation queues'')"

text \<open>
  The aggregation routing of a routed topology takes the first task type and so raises when
  none is configured; only its shard count, prefix and key extractor matter to the callers.
\<close>

definition aggregation_routing :: "shared_topology \<Rightarrow> sharding \<Rightarrow> routing_strategy res" where
  "aggregation_routing t sh =
     bind_res (case st_task_types t of
         None \<Rightarrow> Inr (st_tasks_routing_key t)
       | Some task_types \<Rightarrow> bind_res (normalized_task_types task_types) (\<lambda>ts. Inr (hd ts)))
       (\<lambda>key. Inr (ShardRouting key (sh_shard_count sh) (sh_routing_prefix sh)
                     (Some aggregation_parent_task_id) None))"

definition effective_shard_count :: "routing_strategy \<Rightarrow> int" where
  "effective_shard_count s = (case s of ShardRouting _ n _ _ _ \<Rightarrow> max 1 n | _ \<Rightarrow> 1)"

definition normalize_shards :: "shared_topology \<Rightarrow> sharding \<Rightarrow> int list \<Rightarrow> int list res" where
  "normalize_shards t sh shards =
     (if shards = [] then Inl (ValueError ''At least one aggregation shard must be selected'')
      else bind_res (aggregation_routing t sh) (\<lambda>r.
        let normalized = sorted_set shards; shard_count = effective_shard_count r
        in bind_res (for_each (\<lambda>shard. guard_res (shard < 0 \<or> shard_count \<le> shard)
               (ValueError (''Aggregation shard '' @ int_str shard @ '' is outside the configured range 0..'' @
                            int_str (shard_count - 1)))) normalized)
             (\<lambda>_. Inr normalized)))"

text \<open>
  \<^verbatim>\<open>template.format(shard=n)\<close> for templates whose only replacement field is the plain
  \<open>{shard}\<close>; any other field raises here.
\<close>

fun format_shard :: "string \<Rightarrow> string \<Rightarrow> string res" where
  "format_shard n [] = Inr []"
| "format_shard n (c # s) =
     (if c = CHR ''{'' then
        (if take 1 s = ''{'' then bind_res (format_shard n (drop 1 s)) (\<lambda>r. Inr (CHR ''{'' # r))
         else if take 6 s = ''shard}'' then bind_res (format_shard n (drop 6 s)) (\<lambda>r. Inr (n @ r))
         else Inl (KeyError ''template field''))
      else if c = CHR ''}'' then
        (if take 1 s = ''}'' then bind_res (format_shard n (drop 1 s)) (\<lambda>r. Inr (CHR ''}'' # r))
         else Inl (ValueError ''Single closing brace encountered in format string''))
      else bind_res (format_shard n s) (\<lambda>r. Inr (c # r)))"

definition default_aggregation_queue_name :: "sharding \<Rightarrow> int list \<Rightarrow> string res" where
  "default_aggregation_queue_name sh shards =
     (case shards of
        [shard] \<Rightarrow> format_shard (int_str shard) (sh_queue_template sh)
      | _ \<Rightarrow> Inr (sh_queue_name_prefix sh @ ''.'' @ join ''-'' (map int_str shards)))"

definition aggregation_queue_name :: "shared_topology \<Rightarrow> int list \<Rightarrow> string option \<Rightarrow> string res" where
  "aggregation_queue_name t shards queue_name =
     (case st_sharding t of
        None \<Rightarrow> (case queue_name of Some q \<Rightarrow> Inr q | None \<Rightarrow> no_aggregation)
      | Some sh \<Rightarrow>
          bind_res (normalize_shards t sh shards) (\<lambda>normalized.
            case nonempty queue_name of
              Some q \<Rightarrow> Inr q
            | None \<Rightarrow> default_aggregation_queue_name sh normalized))"

definition aggregation_binding_keys :: "shared_topology \<Rightarrow> int list \<Rightarrow> string list res" where
  "aggregation_binding_keys t shards =
     (case st_sharding t of
        None \<Rightarrow> no_aggregation
      | Some sh \<Rightarrow>
          bind_res (normalize_shards t sh shards) (\<lambda>normalized.
            Inr (map (\<lambda>shard. sh_routing_prefix sh @ ''.'' @ int_str shard) normalized)))"

definition aggregation_status_routing_key :: "(string \<Rightarrow> string) \<Rightarrow> shared_topology \<Rightarrow> dict \<Rightarrow> string res" where
  "aggregation_status_routing_key sha t event =
     (case st_sharding t of
        None \<Rightarrow> no_aggregation
      | Some sh \<Rightarrow> bind_res (aggregation_routing t sh) (\<lambda>r. strategy_status_routing_key sha r event))"

definition aggregation_shard :: "(string \<Rightarrow> string) \<Rightarrow> shared_topology \<Rightarrow> dict \<Rightarrow> int res" where
  "aggregation_shard sha t event =
     (case st_sharding t of
        None \<Rightarrow> no_aggregation
      | Some sh \<Rightarrow> bind_res (aggregation_routing t sh) (\<lambda>r.
          case r of ShardRouting _ n _ extractor cfg \<Rightarrow> shard_for_event sha n extractor cfg event
                  | _ \<Rightarrow> no_aggregation))"

definition aggregation_queue_arguments :: "shared_topology \<Rightarrow> dict res" where
  "aggregation_queue_arguments t =
     (case st_sharding t of
        None \<Rightarrow> Inr []
      | Some sh \<Rightarrow>
          (let builtins = add_arg ''x-single-active-consumer'' (map_option PBool (sh_single_active_consumer sh))
                 (add_arg ''x-consumer-timeout'' (map_option PInt (sh_consumer_timeout_ms sh)) [])
           in bind_res (add_max_priority (sh_max_priority sh) ''aggregation'' builtins) (\<lambda>builtins.
              bind_res (merge_queue_arguments ''aggregation''
                          (add_arg ''x-queue-type'' (map_option PStr (sh_queue_type sh)) builtins)
                          (sh_arguments_overrides sh) (sh_queue_kwargs sh)) (\<lambda>merged.
                with_validated_queue_max_priority merged ''aggregation''))))"

subsection \<open>Declarations on the channel\<close>

text \<open>
  A declaration sends commands and may raise after some were sent: the commands so far and
  the outcome.
\<close>

type_synonym 'a chan = "broker_command list \<times> 'a res"

definition chan_of :: "'a res \<Rightarrow> 'a chan" where
  "chan_of r = ([], r)"

definition send :: "broker_command list \<Rightarrow> unit chan" where
  "send cs = (cs, Inr ())"

definition chan_bind :: "'a chan \<Rightarrow> ('a \<Rightarrow> 'b chan) \<Rightarrow> 'b chan" where
  "chan_bind m f = (case m of (cs, Inl e) \<Rightarrow> (cs, Inl e) | (cs, Inr x) \<Rightarrow> (case f x of (ds, r) \<Rightarrow> (cs @ ds, r)))"

lemma chan_simps [simp]:
  "chan_bind (chan_of (Inr x)) f = f x"
  "chan_bind (chan_of (Inl e)) f = ([], Inl e)"
  "chan_bind (send cs) f = (cs @ fst (f ()), snd (f ()))"
  by (simp_all add: chan_bind_def chan_of_def send_def split: prod.splits)

definition args_or_none :: "dict \<Rightarrow> dict option" where
  "args_or_none d = (if d = [] then None else Some d)"

definition bind_all :: "string \<Rightarrow> string \<Rightarrow> string list \<Rightarrow> broker_command list" where
  "bind_all queue exchange keys = map (\<lambda>k. BindQueue queue exchange k) keys"

definition declare_exchanges :: "shared_topology \<Rightarrow> (string \<times> string) chan" where
  "declare_exchanges t =
     chan_bind (send (case nonempty (st_dead_letter_exchange t) of
         Some dlx \<Rightarrow> [DeclareExchange dlx ''fanout''] | None \<Rightarrow> [])) (\<lambda>_.
     chan_bind (send [DeclareExchange (st_tasks_exchange t) ''direct'',
                      DeclareExchange (st_status_exchange t) ''topic'']) (\<lambda>_.
       chan_of (Inr (st_tasks_exchange t, st_status_exchange t))))"

definition ensure_tasks_queue :: "shared_topology \<Rightarrow> string \<Rightarrow> string chan" where
  "ensure_tasks_queue t tasks_exchange =
     chan_bind (chan_of (task_queue_arguments t)) (\<lambda>args.
     chan_bind (send [DeclareQueue (task_queue_name t) (args_or_none args)]) (\<lambda>_.
     chan_bind (chan_of (task_binding_keys t)) (\<lambda>keys.
     chan_bind (send (bind_all (task_queue_name t) tasks_exchange keys)) (\<lambda>_.
       chan_of (Inr (task_queue_name t))))))"

definition ensure_status_queue :: "shared_topology \<Rightarrow> string \<Rightarrow> string chan" where
  "ensure_status_queue t status_exchange =
     chan_bind (chan_of (status_queue_arguments t)) (\<lambda>args.
     chan_bind (send [DeclareQueue (status_queue_name t) (args_or_none args)]) (\<lambda>_.
     chan_bind (send (bind_all (status_queue_name t) status_exchange (status_binding_keys t))) (\<lambda>_.
       chan_of (Inr (status_queue_name t)))))"

definition ensure_workflow_queue :: "shared_topology \<Rightarrow> string \<Rightarrow> string \<Rightarrow> string chan" where
  "ensure_workflow_queue t workflow_exchange stage =
     chan_bind (chan_of (require_default_workflow_stage stage)) (\<lambda>_. ensure_tasks_queue t workflow_exchange)"

definition ensure_aggregation_queue ::
  "shared_topology \<Rightarrow> string \<Rightarrow> int list \<Rightarrow> string option \<Rightarrow> string chan" where
  "ensure_aggregation_queue t status_exchange shards queue_name =
     (case st_sharding t of
        None \<Rightarrow> chan_of no_aggregation
      | Some sh \<Rightarrow>
          chan_bind (chan_of (normalize_shards t sh shards)) (\<lambda>normalized.
          chan_bind (chan_of (aggregation_queue_name t normalized queue_name)) (\<lambda>name.
          chan_bind (chan_of (aggregation_queue_arguments t)) (\<lambda>args.
          chan_bind (send [DeclareQueue name (args_or_none args)]) (\<lambda>_.
          chan_bind (chan_of (aggregation_binding_keys t normalized)) (\<lambda>keys.
          chan_bind (send (bind_all name status_exchange keys)) (\<lambda>_.
            chan_of (Inr name))))))))"

definition declare_queues :: "shared_topology \<Rightarrow> string \<Rightarrow> string \<Rightarrow> unit chan" where
  "declare_queues t tasks_exchange status_exchange =
     chan_bind (ensure_status_queue t status_exchange) (\<lambda>_.
     chan_bind (ensure_tasks_queue t tasks_exchange) (\<lambda>_. chan_of (Inr ())))"

text \<open>A small sharded topology, for the concrete instances below.\<close>

definition sample_sharding :: sharding where
  "sample_sharding = \<lparr>sh_shard_count = 4, sh_routing_prefix = ''agg'', sh_queue_template = ''aggregation.queue.shard.{shard}'',
     sh_queue_name_prefix = ''aggregation.queue.shards'', sh_consumer_timeout_ms = None, sh_single_active_consumer = Some True,
     sh_max_priority = Some 7, sh_queue_type = None, sh_arguments_overrides = [], sh_queue_kwargs = []\<rparr>"

definition sample_topology :: "string list option \<Rightarrow> sharding option \<Rightarrow> shared_topology" where
  "sample_topology types sh = \<lparr>st_rabbitmq_url = ''amqp://localhost'', st_tasks_exchange = ''tasks'',
     st_tasks_queue = ''tasks.queue'', st_tasks_routing_key = ''task.request'', st_status_exchange = ''status'',
     st_status_queue = ''status.queue'', st_dead_letter_exchange = Some ''dlx'', st_prefetch_count = 1,
     st_tasks_message_ttl_ms = Some 30000, st_task_consumer_timeout_ms = None, st_task_single_active_consumer = None,
     st_task_max_priority = Some 10, st_task_queue_type = None, st_task_arguments_overrides = [],
     st_task_queue_kwargs = [], st_status_use_streams = True, st_status_queue_ttl_ms = None,
     st_status_stream_max_length_gb = None, st_status_stream_max_segment_size_mb = None,
     st_status_stream_initial_offset = ''last'', st_status_arguments_overrides = [], st_status_queue_kwargs = [],
     st_routing_strategy = None, st_task_types = types, st_sharding = sh\<rparr>"

subsection \<open>Task types\<close>

lemma normalize_task_types_fold:
  "distinct acc \<Longrightarrow>
   distinct (fold (\<lambda>value normalized. let task_type = strip value
        in if task_type = [] \<or> task_type \<in> set normalized then normalized
           else normalized @ [task_type]) values acc) \<and>
   set (fold (\<lambda>value normalized. let task_type = strip value
        in if task_type = [] \<or> task_type \<in> set normalized then normalized
           else normalized @ [task_type]) values acc) = set acc \<union> ({strip v | v. v \<in> set values} - {[]})"
proof (induction "values" arbitrary: acc)
  case (Cons v vs)
  show ?case
  proof (cases "strip v = [] \<or> strip v \<in> set acc")
    case True
    then show ?thesis using Cons.IH [OF Cons.prems] by (auto simp: Let_def)
  next
    case False
    then have "distinct (acc @ [strip v])" using Cons.prems by simp
    from Cons.IH [OF this] False show ?thesis by (auto simp: Let_def)
  qed
qed simp

lemma distinct_normalize_task_types: "distinct (normalize_task_types ts)"
  using normalize_task_types_fold [of "[]" ts] by (simp add: normalize_task_types_def)

lemma set_normalize_task_types: "set (normalize_task_types ts) = {strip v | v. v \<in> set ts} - {[]}"
  using normalize_task_types_fold [of "[]" ts] by (simp add: normalize_task_types_def)

text \<open>
  In a routed topology a task reaches the task queue exactly when its (stripped) type is
  one of the configured ones: its routing key is among the binding keys of the queue, and the
  binding keys contain no duplicates.
\<close>
theorem routed_task_reaches_queue:
  assumes "st_task_types t = Some types" "task_binding_keys t = Inr keys" "task_routing_key t task = Inr key"
  shows "distinct keys \<and> (key \<in> set keys \<longleftrightarrow> (\<exists>v \<in> set types. strip v = key))"
proof -
  have keys: "keys = normalize_task_types types"
    using assms by (auto simp: task_binding_keys_def normalized_task_types_def Let_def split: if_splits)
  have "key \<noteq> []"
    using assms(1,3) by (auto simp: task_routing_key_def routing_def strategy_task_routing_key_def
        task_type_routing_key_def Let_def split: if_splits)
  then show ?thesis
    by (auto simp: keys distinct_normalize_task_types set_normalize_task_types)
qed

theorem routed_task_reaches_queue_witness:
  "distinct [''a'', ''b''] \<and>
   (''b'' \<in> set [''a'', ''b''] \<longleftrightarrow> (\<exists>v \<in> set ['' a'', ''b'', ''a '', '' '']. strip v = ''b''))"
proof (rule routed_task_reaches_queue [where t = "sample_topology (Some ['' a'', ''b'', ''a '', '' '']) None"
      and task = "[(''task_type'', PStr ''b'')]"])
  show "st_task_types (sample_topology (Some ['' a'', ''b'', ''a '', '' '']) None) = Some ['' a'', ''b'', ''a '', '' '']"
    by (simp add: sample_topology_def)
  show "task_binding_keys (sample_topology (Some ['' a'', ''b'', ''a '', '' '']) None) = Inr [''a'', ''b'']"
    by code_simp
  show "task_routing_key (sample_topology (Some ['' a'', ''b'', ''a '', '' '']) None) [(''task_type'', PStr ''b'')] = Inr ''b''"
    by code_simp
qed

subsection \<open>Queue arguments\<close>

text \<open>
  Whatever the configuration, the task queue is only ever declared with a priority bound
  of RabbitMQ's range 1 to 255: when \<open>task_queue_arguments\<close> returns, an \<open>x-max-priority\<close>
  that is not \<open>None\<close> is an integer in that range, whether it came from \<open>task_max_priority\<close>,
  the overrides or the extra arguments.
\<close>
theorem task_queue_priority_bounds:
  assumes "task_queue_arguments t = Inr args" "map_of args ''x-max-priority'' = Some v" "v \<noteq> PNone"
  shows "\<exists>p. v = PInt p \<and> 1 \<le> p \<and> p \<le> 255"
  using assms by (auto simp: task_queue_arguments_def Let_def intro: with_validated_queue_max_priority_bounds)

theorem task_queue_priority_bounds_witness: "\<exists>p. PInt 10 = PInt p \<and> 1 \<le> p \<and> p \<le> (255 :: int)"
proof (rule task_queue_priority_bounds [where t = "sample_topology None None"])
  show "task_queue_arguments (sample_topology None None) =
      Inr [(''x-message-ttl'', PInt 30000), (''x-dead-letter-exchange'', PStr ''dlx''), (''x-max-priority'', PInt 10)]"
    by code_simp
qed simp_all

subsection \<open>Shards\<close>

lemma normalize_shards_ok:
  assumes "normalize_shards t sh shards = Inr normalized"
  shows "normalized = sorted_set shards" "shards \<noteq> []"
    "\<forall>s \<in> set shards. 0 \<le> s \<and> s < max 1 (sh_shard_count sh)"
proof -
  have *: "normalized = sorted_set shards \<and> shards \<noteq> [] \<and>
      (\<forall>s \<in> set (sorted_set shards). \<not> (s < 0 \<or> max 1 (sh_shard_count sh) \<le> s))"
    using assms
    by (simp add: normalize_shards_def aggregation_routing_def effective_shard_count_def Let_def
        split: if_splits) force
  then show "normalized = sorted_set shards" "shards \<noteq> []" by simp_all
  from * show "\<forall>s \<in> set shards. 0 \<le> s \<and> s < max 1 (sh_shard_count sh)"
    by (force simp: not_less not_le less_max_iff_disj)
qed

lemma aggregation_shard_routing:
  assumes "st_sharding t = Some sh" "aggregation_shard sha t event = Inr shard"
  shows "aggregation_status_routing_key sha t event = Inr (sh_routing_prefix sh @ ''.'' @ int_str shard)"
  using assms
  by (auto simp: aggregation_shard_def aggregation_status_routing_key_def aggregation_routing_def
      strategy_status_routing_key_def shard_status_routing_key_def)

text \<open>
  An aggregation event is delivered to the queue of a shard group exactly when its shard
  belongs to the group: its routing key is one of the binding keys of the group.  So groups
  that partition the shards partition the events.
\<close>
theorem aggregation_event_reaches_its_group:
  assumes "st_sharding t = Some sh" "aggregation_binding_keys t shards = Inr keys"
    and "aggregation_shard sha t event = Inr shard" "aggregation_status_routing_key sha t event = Inr key"
  shows "key \<in> set keys \<longleftrightarrow> shard \<in> set shards"
proof -
  obtain normalized where n: "normalize_shards t sh shards = Inr normalized"
    and k: "keys = map (\<lambda>shard. sh_routing_prefix sh @ ''.'' @ int_str shard) normalized"
    using assms(1,2) by (auto simp: aggregation_binding_keys_def)
  have "key = sh_routing_prefix sh @ ''.'' @ int_str shard"
    using aggregation_shard_routing [OF assms(1,3)] assms(4) by simp
  then show ?thesis using normalize_shards_ok(1) [OF n] by (auto simp: k)
qed

theorem aggregation_event_reaches_its_group_witness:
  "''agg.2'' \<in> set [''agg.0'', ''agg.2''] \<longleftrightarrow> (2 :: int) \<in> set [2, 0]"
proof (rule aggregation_event_reaches_its_group [where t = "sample_topology None (Some sample_sharding)"
      and sh = sample_sharding and sha = "\<lambda>_. ''0000000a''" and event = "[(''meta'', PDict [(''parent_task_id'', PStr ''p'')])]"])
  show "st_sharding (sample_topology None (Some sample_sharding)) = Some sample_sharding"
    by (simp add: sample_topology_def)
  show "aggregation_binding_keys (sample_topology None (Some sample_sharding)) [2, 0] = Inr [''agg.0'', ''agg.2'']"
    by code_simp
  show "aggregation_shard (\<lambda>_. ''0000000a'') (sample_topology None (Some sample_sharding))
      [(''meta'', PDict [(''parent_task_id'', PStr ''p'')])] = Inr 2"
    by code_simp
  show "aggregation_status_routing_key (\<lambda>_. ''0000000a'') (sample_topology None (Some sample_sharding))
      [(''meta'', PDict [(''parent_task_id'', PStr ''p'')])] = Inr ''agg.2''"
    by code_simp
qed

end
