(* ===== verification/Workflow_Topology.thy ===== *)
theory Workflow_Topology
  imports Complex_Main Topic_Match Shared_Topology
begin

text \<open>
  \<^verbatim>\<open>topology/workflow.py\<close>, \<^verbatim>\<open>workflow_contract.py\<close>, \<^verbatim>\<open>workflow_templates.py\<close>,
  \<^verbatim>\<open>validation.py\<close> and the stage resolution of \<^verbatim>\<open>consumer/context.py\<close>: workflow stages and
  entry routes, the checks of the topology's constructor, its queue names, arguments and
  declarations, and the contract checks of publishing and receiving.  The operations of a
  workflow topology carry the prefix \<open>wt_\<close>, those of the shared topologies are in
  \<open>Shared_Topology\<close>.  A timeout in seconds is a rational number.
\<close>

subsection \<open>Stages, entry routes and the topology\<close>

record workflow_stage =
  ws_name :: string
  ws_queue :: string
  ws_binding_keys :: "string list"
  ws_publish_routing_key :: string
  ws_description :: "string option"
  ws_role :: "string option"
  ws_owner :: "string option"
  ws_tags :: "string list"
  ws_sla_ms :: "int option"
  ws_accepted_actions :: "action_schema list"
  ws_produced_actions :: "action_schema list"
  ws_allowed_next_stages :: "string list"
  ws_terminal :: bool
  ws_timeout_seconds :: "rat option"
  ws_max_retries :: "int option"
  ws_retry_delay_ms :: "int option"
  ws_max_inflight :: "int option"
  ws_dedup_key_fields :: "string list"
  ws_arguments_overrides :: dict
  ws_queue_kwargs :: dict

record workflow_entry_route =
  er_name :: string
  er_routing_key :: string
  er_target_stage :: string

record workflow_topology =
  wt_rabbitmq_url :: string
  wt_workflow_exchange :: string
  wt_status_exchange :: string
  wt_status_queue :: string
  wt_stages :: "workflow_stage list"
  wt_entry_routes :: "workflow_entry_route list"
  wt_dead_letter_exchange :: "string option"
  wt_prefetch_count :: int
  wt_consumer_timeout_ms :: "int option"
  wt_single_active_consumer :: "bool option"
  wt_max_priority :: "int option"
  wt_queue_type :: "string option"
  wt_arguments_overrides :: dict
  wt_queue_kwargs :: dict
  wt_status_use_streams :: bool
  wt_status_queue_ttl_ms :: "int option"
  wt_status_stream_max_length_gb :: "int option"
  wt_status_stream_max_segment_size_mb :: "int option"
  wt_status_stream_initial_offset :: string
  wt_status_arguments_overrides :: dict
  wt_status_queue_kwargs :: dict

subsection \<open>The checks of the constructor\<close>

definition strip_all :: "string list \<Rightarrow> string list" where
  "strip_all xs = map strip (filter (\<lambda>x. strip x \<noteq> []) xs)"

definition stage_error :: "string \<Rightarrow> string \<Rightarrow> py_error" where
  "stage_error stage_name what = ValueError (''Workflow stage '' @ quoted stage_name @ what)"

definition validate_action_schema_collection :: "action_schema list \<Rightarrow> string \<Rightarrow> string \<Rightarrow> unit res" where
  "validate_action_schema_collection actions stage_name field_name =
     bind_res (map_res (\<lambda>action.
         let action_name = strip (as_action action)
         in if action_name = []
            then Inl (stage_error stage_name ('' '' @ field_name @ '' must define non-empty action names''))
            else Inr action_name) actions) (\<lambda>names.
       guard_res (length (remdups names) \<noteq> length names)
         (stage_error stage_name ('' '' @ field_name @ '' must not define duplicate action names'')))"

definition none_or :: "('a \<Rightarrow> bool) \<Rightarrow> 'a option \<Rightarrow> bool" where
  "none_or p v = (case v of None \<Rightarrow> True | Some x \<Rightarrow> p x)"

definition check_stage_fields :: "workflow_stage \<Rightarrow> unit res" where
  "check_stage_fields s =
     (let stage_name = strip (ws_name s); dedup = strip_all (ws_dedup_key_fields s) in
      bind_res (guard_res (strip_all (ws_binding_keys s) = [])
        (stage_error stage_name '' must define at least one binding key'')) (\<lambda>_.
      bind_res (guard_res (strip (ws_publish_routing_key s) = [])
        (stage_error stage_name '' must define publish_routing_key'')) (\<lambda>_.
      bind_res (guard_res (\<not> none_or (\<lambda>v. 1 \<le> v) (ws_sla_ms s))
        (stage_error stage_name '' must define sla_ms >= 1'')) (\<lambda>_.
      bind_res (guard_res (\<not> none_or (\<lambda>v. 0 < v) (ws_timeout_seconds s))
        (stage_error stage_name '' must define timeout_seconds > 0'')) (\<lambda>_.
      bind_res (guard_res (\<not> none_or (\<lambda>v. 0 \<le> v) (ws_max_retries s))
        (stage_error stage_name '' must define max_retries >= 0'')) (\<lambda>_.
      bind_res (guard_res (\<not> none_or (\<lambda>v. 0 < v) (ws_retry_delay_ms s))
        (stage_error stage_name '' must define retry_delay_ms > 0'')) (\<lambda>_.
      bind_res (guard_res (\<not> none_or (\<lambda>v. 1 \<le> v) (ws_max_inflight s))
        (stage_error stage_name '' must define max_inflight >= 1'')) (\<lambda>_.
      bind_res (guard_res (length (remdups dedup) \<noteq> length dedup)
        (stage_error stage_name '' dedup_key_fields must be unique'')) (\<lambda>_.
      bind_res (guard_res (length dedup \<noteq> length (ws_dedup_key_fields s))
        (stage_error stage_name '' dedup_key_fields must not be empty'')) (\<lambda>_.
      bind_res (validate_action_schema_collection (ws_accepted_actions s) stage_name ''accepted_actions'') (\<lambda>_.
        validate_action_schema_collection (ws_produced_actions s) stage_name ''produced_actions'')))))))))))"

fun check_stages :: "workflow_stage list \<Rightarrow> string list \<Rightarrow> string list \<Rightarrow> string list res" where
  "check_stages [] stage_names queue_names = Inr stage_names"
| "check_stages (s # stages) stage_names queue_names =
     (let stage_name = strip (ws_name s); queue_name = strip (ws_queue s) in
      if stage_name = [] then Inl (ValueError ''Workflow stage names must not be empty'')
      else if stage_name \<in> set stage_names then Inl (ValueError (''Duplicate workflow stage name '' @ quoted stage_name))
      else if queue_name = [] then Inl (stage_error stage_name '' must define a queue name'')
      else if queue_name \<in> set queue_names then Inl (ValueError (''Duplicate workflow queue name '' @ quoted queue_name))
      else bind_res (check_stage_fields s) (\<lambda>_.
             check_stages stages (stage_name # stage_names) (queue_name # queue_names)))"

fun check_entry_routes :: "string list \<Rightarrow> workflow_entry_route list \<Rightarrow> string list \<Rightarrow> unit res" where
  "check_entry_routes stage_names [] route_names = Inr ()"
| "check_entry_routes stage_names (r # routes) route_names =
     (let route_name = strip (er_name r) in
      if route_name = [] then Inl (ValueError ''Workflow entry route names must not be empty'')
      else if route_name \<in> set route_names then Inl (ValueError (''Duplicate workflow entry route '' @ quoted route_name))
      else if strip (er_routing_key r) = []
      then Inl (ValueError (''Workflow entry route '' @ quoted route_name @ '' must define routing_key''))
      else if er_target_stage r \<notin> set stage_names
      then Inl (ValueError (''Workflow entry route '' @ quoted route_name @ '' references unknown target stage '' @
                            quoted (er_target_stage r)))
      else check_entry_routes stage_names routes (route_name # route_names))"

definition check_stage_successors :: "string list \<Rightarrow> workflow_stage \<Rightarrow> unit res" where
  "check_stage_successors stage_names s =
     (let stage_name = strip (ws_name s); allowed = strip_all (ws_allowed_next_stages s) in
      bind_res (guard_res (length (remdups allowed) \<noteq> length allowed)
        (stage_error stage_name '' allowed_next_stages must be unique'')) (\<lambda>_.
      bind_res (for_each (\<lambda>destination. guard_res (destination \<notin> set stage_names)
        (stage_error stage_name ('' references unknown downstream stage '' @ quoted destination))) allowed) (\<lambda>_.
      bind_res (guard_res (ws_terminal s \<and> allowed \<noteq> [])
        (stage_error stage_name '' cannot be terminal and define allowed_next_stages'')) (\<lambda>_.
      guard_res (ws_terminal s \<and> ws_produced_actions s \<noteq> [])
        (stage_error stage_name '' cannot be terminal and define produced_actions'')))))"

definition post_init :: "workflow_topology \<Rightarrow> unit res" where
  "post_init t =
     (if wt_stages t = [] then Inl (ValueError ''At least one workflow stage must be configured'')
      else bind_res (check_stages (wt_stages t) [] []) (\<lambda>stage_names.
           bind_res (check_entry_routes stage_names (wt_entry_routes t) []) (\<lambda>_.
             for_each (check_stage_successors stage_names) (wt_stages t))))"

subsection \<open>Names, keys and arguments of a stage\<close>

definition wt_stage :: "workflow_topology \<Rightarrow> string \<Rightarrow> workflow_stage res" where
  "wt_stage t stage =
     (case List.find (\<lambda>item. ws_name item = stage) (wt_stages t) of
        Some item \<Rightarrow> Inr item
      | None \<Rightarrow> Inl (KeyError (''Unknown workflow stage '' @ quoted stage)))"

definition wt_entry_route :: "workflow_topology \<Rightarrow> string \<Rightarrow> workflow_entry_route res" where
  "wt_entry_route t route =
     (case List.find (\<lambda>item. er_name item = route) (wt_entry_routes t) of
        Some item \<Rightarrow> Inr item
      | None \<Rightarrow> Inl (KeyError (''Unknown workflow entry route '' @ quoted route)))"

definition wt_connection_string :: "workflow_topology \<Rightarrow> string option \<Rightarrow> string" where
  "wt_connection_string t connection_name = connection_string (wt_rabbitmq_url t) connection_name"

definition wt_status_queue_arguments :: "workflow_topology \<Rightarrow> dict res" where
  "wt_status_queue_arguments t =
     status_arguments (wt_status_use_streams t) (wt_status_stream_max_length_gb t)
       (wt_status_stream_max_segment_size_mb t) (wt_status_queue_ttl_ms t)
       (wt_status_arguments_overrides t) (wt_status_queue_kwargs t)"

definition wt_status_stream_consume_arguments :: "workflow_topology \<Rightarrow> dict" where
  "wt_status_stream_consume_arguments t =
     (if \<not> wt_status_use_streams t then []
      else [(''x-stream-offset'', PStr (wt_status_stream_initial_offset t))])"

definition wt_workflow_exchange_name :: "workflow_topology \<Rightarrow> string option" where
  "wt_workflow_exchange_name t = Some (wt_workflow_exchange t)"

definition wt_workflow_stage_names :: "workflow_topology \<Rightarrow> string list" where
  "wt_workflow_stage_names t = map ws_name (wt_stages t)"

definition wt_workflow_queue_names :: "workflow_topology \<Rightarrow> string list" where
  "wt_workflow_queue_names t = map ws_queue (wt_stages t)"

definition wt_workflow_queue_name :: "workflow_topology \<Rightarrow> string \<Rightarrow> string res" where
  "wt_workflow_queue_name t stage = bind_res (wt_stage t stage) (\<lambda>s. Inr (ws_queue s))"

definition wt_workflow_binding_keys :: "workflow_topology \<Rightarrow> string \<Rightarrow> string list res" where
  "wt_workflow_binding_keys t stage = bind_res (wt_stage t stage) (\<lambda>s. Inr (strip_all (ws_binding_keys s)))"

definition wt_workflow_queue_arguments :: "workflow_topology \<Rightarrow> string \<Rightarrow> dict res" where
  "wt_workflow_queue_arguments t stage =
     bind_res (wt_stage t stage) (\<lambda>resolved.
       let builtins = add_arg ''x-dead-letter-exchange'' (map_option PStr (nonempty (wt_dead_letter_exchange t))) [];
           builtins = add_arg ''x-consumer-timeout'' (map_option PInt (wt_consumer_timeout_ms t)) builtins;
           builtins = add_arg ''x-single-active-consumer'' (map_option PBool (wt_single_active_consumer t)) builtins
       in bind_res (add_max_priority (wt_max_priority t) ''workflow'' builtins) (\<lambda>builtins.
          let builtins = add_arg ''x-queue-type'' (map_option PStr (wt_queue_type t)) builtins;
              global_overrides = wt_arguments_overrides t; stage_overrides = ws_arguments_overrides resolved;
              global_kwargs = wt_queue_kwargs t; stage_kwargs = ws_queue_kwargs resolved
          in bind_res (raise_on_argument_conflicts ''workflow'' ''global overrides'' global_overrides
                         ''stage overrides'' stage_overrides) (\<lambda>_.
             bind_res (raise_on_argument_conflicts ''workflow'' ''global kwargs'' global_kwargs
                         ''stage kwargs'' stage_kwargs) (\<lambda>_.
             bind_res (merge_queue_arguments ''workflow'' builtins
                         (dict_update global_overrides stage_overrides)
                         (dict_update global_kwargs stage_kwargs)) (\<lambda>merged.
               with_validated_queue_max_priority merged ''workflow'')))))"

definition wt_workflow_publish_routing_key :: "workflow_topology \<Rightarrow> string \<Rightarrow> string res" where
  "wt_workflow_publish_routing_key t stage = bind_res (wt_stage t stage) (\<lambda>s. Inr (strip (ws_publish_routing_key s)))"

definition wt_workflow_entry_routing_key :: "workflow_topology \<Rightarrow> string \<Rightarrow> string res" where
  "wt_workflow_entry_routing_key t route = bind_res (wt_entry_route t route) (\<lambda>r. Inr (strip (er_routing_key r)))"

definition wt_workflow_entry_target_stage :: "workflow_topology \<Rightarrow> string \<Rightarrow> string res" where
  "wt_workflow_entry_target_stage t route = bind_res (wt_entry_route t route) (\<lambda>r. Inr (er_target_stage r))"

definition wt_default_workflow_stage :: "workflow_topology \<Rightarrow> string option" where
  "wt_default_workflow_stage t = (case wt_stages t of [] \<Rightarrow> None | s # _ \<Rightarrow> Some (ws_name s))"

definition with_default_stage :: "workflow_topology \<Rightarrow> (string \<Rightarrow> 'a res) \<Rightarrow> 'a res" where
  "with_default_stage t f =
     (case wt_default_workflow_stage t of
        None \<Rightarrow> Inl (RuntimeError ''Workflow topology does not define a default workflow stage'')
      | Some stage \<Rightarrow> f stage)"

definition wt_task_queue_arguments :: "workflow_topology \<Rightarrow> dict res" where
  "wt_task_queue_arguments t = with_default_stage t (wt_workflow_queue_arguments t)"

definition wt_task_queue_name :: "workflow_topology \<Rightarrow> string res" where
  "wt_task_queue_name t = with_default_stage t (wt_workflow_queue_name t)"

definition wt_task_binding_keys :: "workflow_topology \<Rightarrow> string list res" where
  "wt_task_binding_keys t = with_default_stage t (wt_workflow_binding_keys t)"

definition wt_aggregation_queue_name :: "int list \<Rightarrow> string option \<Rightarrow> string res" where
  "wt_aggregation_queue_name shards queue_name = (case queue_name of Some q \<Rightarrow> Inr q | None \<Rightarrow> no_aggregation)"

definition wt_task_routing_key :: "dict \<Rightarrow> string res" where
  "wt_task_routing_key task =
     Inl (RuntimeError ''SharedStatusWorkflowTopology requires publish_to_stage(...) or publish_to_entry(...)'')"

definition wt_status_routing_key :: "dict \<Rightarrow> string res" where
  "wt_status_routing_key event =
     (let task_id = dict_text (normalize_contract_aliases event None Payload True) ''task_id''
      in if task_id = [] then Inl (ValueError ''status event missing task_id'') else Inr task_id)"

subsection \<open>Declarations on the channel\<close>

definition wt_declare_exchanges :: "workflow_topology \<Rightarrow> (string \<times> string) chan" where
  "wt_declare_exchanges t =
     chan_bind (send (case nonempty (wt_dead_letter_exchange t) of
         Some dlx \<Rightarrow> [DeclareExchange dlx ''fanout''] | None \<Rightarrow> [])) (\<lambda>_.
     chan_bind (send [DeclareExchange (wt_workflow_exchange t) ''topic'',
                      DeclareExchange (wt_status_exchange t) ''topic'']) (\<lambda>_.
       chan_of (Inr (wt_workflow_exchange t, wt_status_exchange t))))"

definition wt_ensure_workflow_queue :: "workflow_topology \<Rightarrow> string \<Rightarrow> string \<Rightarrow> string chan" where
  "wt_ensure_workflow_queue t workflow_exchange stage =
     chan_bind (chan_of (wt_workflow_queue_name t stage)) (\<lambda>queue_name.
     chan_bind (chan_of (wt_workflow_queue_arguments t stage)) (\<lambda>args.
     chan_bind (send [DeclareQueue queue_name (args_or_none args)]) (\<lambda>_.
     chan_bind (chan_of (wt_workflow_binding_keys t stage)) (\<lambda>keys.
     chan_bind (send (bind_all queue_name workflow_exchange keys)) (\<lambda>_.
       chan_of (Inr queue_name))))))"

definition wt_ensure_tasks_queue :: "workflow_topology \<Rightarrow> string \<Rightarrow> string chan" where
  "wt_ensure_tasks_queue t tasks_exchange =
     (case wt_default_workflow_stage t of
        None \<Rightarrow> chan_of (Inl (RuntimeError ''Workflow topology does not define a default workflow stage''))
      | Some stage \<Rightarrow> wt_ensure_workflow_queue t tasks_exchange stage)"

definition wt_ensure_status_queue :: "workflow_topology \<Rightarrow> string \<Rightarrow> string chan" where
  "wt_ensure_status_queue t status_exchange =
     chan_bind (chan_of (wt_status_queue_arguments t)) (\<lambda>args.
     chan_bind (send [DeclareQueue (wt_status_queue t) (args_or_none args)]) (\<lambda>_.
     chan_bind (send (bind_all (wt_status_queue t) status_exchange [''#''])) (\<lambda>_.
       chan_of (Inr (wt_status_queue t)))))"

fun ensure_stages :: "workflow_topology \<Rightarrow> string \<Rightarrow> string list \<Rightarrow> unit chan" where
  "ensure_stages t exchange [] = chan_of (Inr ())"
| "ensure_stages t exchange (stage # stages) =
     chan_bind (wt_ensure_workflow_queue t exchange stage) (\<lambda>_. ensure_stages t exchange stages)"

definition wt_declare_queues :: "workflow_topology \<Rightarrow> string \<Rightarrow> string \<Rightarrow> unit chan" where
  "wt_declare_queues t tasks_exchange status_exchange =
     chan_bind (wt_ensure_status_queue t status_exchange) (\<lambda>_.
       ensure_stages t tasks_exchange (wt_workflow_stage_names t))"

subsection \<open>What the constructor accepts\<close>

text \<open>The condition the error messages of the constructor describe, stated without its loops.\<close>

definition action_names_ok :: "action_schema list \<Rightarrow> bool" where
  "action_names_ok actions =
     ((\<forall>a \<in> set actions. strip (as_action a) \<noteq> []) \<and> distinct (map (\<lambda>a. strip (as_action a)) actions))"

definition stage_fields_ok :: "workflow_stage \<Rightarrow> bool" where
  "stage_fields_ok s =
     ((\<exists>k \<in> set (ws_binding_keys s). strip k \<noteq> []) \<and> strip (ws_publish_routing_key s) \<noteq> [] \<and>
      none_or (\<lambda>v. 1 \<le> v) (ws_sla_ms s) \<and> none_or (\<lambda>v. 0 < v) (ws_timeout_seconds s) \<and>
      none_or (\<lambda>v. 0 \<le> v) (ws_max_retries s) \<and> none_or (\<lambda>v. 0 < v) (ws_retry_delay_ms s) \<and>
      none_or (\<lambda>v. 1 \<le> v) (ws_max_inflight s) \<and>
      (\<forall>f \<in> set (ws_dedup_key_fields s). strip f \<noteq> []) \<and> distinct (map strip (ws_dedup_key_fields s)) \<and>
      action_names_ok (ws_accepted_actions s) \<and> action_names_ok (ws_produced_actions s))"

definition stage_keys :: "workflow_topology \<Rightarrow> string list" where
  "stage_keys t = map (\<lambda>s. strip (ws_name s)) (wt_stages t)"

definition workflow_ok :: "workflow_topology \<Rightarrow> bool" where
  "workflow_ok t =
     (wt_stages t \<noteq> [] \<and>
      distinct (stage_keys t) \<and> [] \<notin> set (stage_keys t) \<and>
      distinct (map (\<lambda>s. strip (ws_queue s)) (wt_stages t)) \<and>
      (\<forall>s \<in> set (wt_stages t). strip (ws_queue s) \<noteq> [] \<and> stage_fields_ok s) \<and>
      distinct (map (\<lambda>r. strip (er_name r)) (wt_entry_routes t)) \<and>
      (\<forall>r \<in> set (wt_entry_routes t).
         strip (er_name r) \<noteq> [] \<and> strip (er_routing_key r) \<noteq> [] \<and> er_target_stage r \<in> set (stage_keys t)) \<and>
      (\<forall>s \<in> set (wt_stages t).
         distinct (strip_all (ws_allowed_next_stages s)) \<and>
         set (strip_all (ws_allowed_next_stages s)) \<subseteq> set (stage_keys t) \<and>
         (ws_terminal s \<longrightarrow> strip_all (ws_allowed_next_stages s) = [] \<and> ws_produced_actions s = [])))"

lemma in_image_iff: "a \<in> f ` A \<longleftrightarrow> (\<exists>x \<in> A. f x = a)"
  by blast

lemma length_remdups_eq_iff: "length (remdups xs) \<noteq> length xs \<longleftrightarrow> \<not> distinct xs"
  using length_remdups_eq remdups_id_iff_distinct by metis

lemma strip_all_Nil_iff: "strip_all xs = [] \<longleftrightarrow> (\<forall>x \<in> set xs. strip x = [])"
  by (auto simp: strip_all_def filter_empty_conv)

lemma strip_all_length: "length (strip_all xs) = length xs \<longleftrightarrow> (\<forall>x \<in> set xs. strip x \<noteq> [])"
proof -
  have "length (filter P xs) = length xs \<longleftrightarrow> (\<forall>x \<in> set xs. P x)" for P
    by (induction xs) (auto, metis Suc_n_not_le_n length_filter_le)
  then show ?thesis by (simp add: strip_all_def)
qed

lemma strip_all_id: "\<forall>x \<in> set xs. strip x \<noteq> [] \<Longrightarrow> strip_all xs = map strip xs"
  by (simp add: strip_all_def)

lemma validate_action_schema_collection_ok [simp]:
  "validate_action_schema_collection actions n f = Inr u \<longleftrightarrow> action_names_ok actions"
proof -
  have "map_res (\<lambda>action. let action_name = strip (as_action action)
      in if action_name = [] then Inl e else Inr action_name) actions = Inr names \<longleftrightarrow>
    (\<forall>a \<in> set actions. strip (as_action a) \<noteq> []) \<and> names = map (\<lambda>a. strip (as_action a)) actions"
    for names and e :: py_error
    by (induction actions arbitrary: names) (auto simp: Let_def)
  then show ?thesis
    by (auto simp: validate_action_schema_collection_def action_names_ok_def length_remdups_eq_iff)
qed

lemma check_stage_fields_ok [simp]: "check_stage_fields s = Inr u \<longleftrightarrow> stage_fields_ok s"
proof -
  have "(length (remdups (strip_all xs)) = length (strip_all xs) \<and> length (strip_all xs) = length xs) \<longleftrightarrow>
      (\<forall>f \<in> set xs. strip f \<noteq> []) \<and> distinct (map strip xs)" for xs
    using length_remdups_eq_iff [of "strip_all xs"] by (auto simp: strip_all_length strip_all_id)
  then show ?thesis
    by (auto simp: check_stage_fields_def Let_def stage_fields_ok_def strip_all_Nil_iff)
qed

lemma check_stages_ok:
  "check_stages stages names queues = Inr out \<longleftrightarrow>
     out = rev (map (\<lambda>s. strip (ws_name s)) stages) @ names \<and>
     distinct (map (\<lambda>s. strip (ws_name s)) stages) \<and> distinct (map (\<lambda>s. strip (ws_queue s)) stages) \<and>
     (\<forall>s \<in> set stages. strip (ws_name s) \<notin> set names \<and> strip (ws_name s) \<noteq> [] \<and>
        strip (ws_queue s) \<notin> set queues \<and> strip (ws_queue s) \<noteq> [] \<and> stage_fields_ok s)"
  by (induction stages arbitrary: names queues) (auto simp: Let_def in_image_iff)

lemma check_entry_routes_ok:
  "check_entry_routes stage_names routes names = Inr u \<longleftrightarrow>
     distinct (map (\<lambda>r. strip (er_name r)) routes) \<and>
     (\<forall>r \<in> set routes. strip (er_name r) \<notin> set names \<and> strip (er_name r) \<noteq> [] \<and>
        strip (er_routing_key r) \<noteq> [] \<and> er_target_stage r \<in> set stage_names)"
  by (induction routes arbitrary: names) (auto simp: Let_def in_image_iff)

lemma check_stage_successors_ok [simp]:
  "check_stage_successors names s = Inr u \<longleftrightarrow>
     distinct (strip_all (ws_allowed_next_stages s)) \<and> set (strip_all (ws_allowed_next_stages s)) \<subseteq> set names \<and>
     (ws_terminal s \<longrightarrow> strip_all (ws_allowed_next_stages s) = [] \<and> ws_produced_actions s = [])"
  using length_remdups_eq_iff [of "strip_all (ws_allowed_next_stages s)"]
  by (auto simp: check_stage_successors_def Let_def)

lemma post_init_ok: "post_init t = Inr u \<longleftrightarrow> workflow_ok t"
  by (auto simp: post_init_def workflow_ok_def stage_keys_def check_stages_ok check_entry_routes_ok in_image_iff)

text \<open>
  C8. The constructor of a workflow topology accepts exactly the well-formed topologies: at
  least one stage; stage and queue names non-blank and pairwise different after stripping;
  every stage with a usable binding key and publish key, sane numeric limits, unique dedup
  fields and action names; entry routes with unique names and known targets; successors
  unique and known; terminal stages without successors and produced actions.
\<close>
theorem post_init_accepts_iff: "post_init t = Inr () \<longleftrightarrow> workflow_ok t"
  by (rule post_init_ok)

subsection \<open>Stage lookup\<close>

lemma find_map_of_distinct:
  "distinct (map f xs) \<Longrightarrow> x \<in> set xs \<Longrightarrow> List.find (\<lambda>y. f y = f x) xs = Some x"
  by (induction xs) (auto simp: image_iff)

lemma find_some: "List.find P xs = Some x \<Longrightarrow> x \<in> set xs \<and> P x"
  by (induction xs) (auto split: if_splits)

lemma find_none: "List.find P xs = None \<longleftrightarrow> (\<forall>x \<in> set xs. \<not> P x)"
  by (induction xs) auto

lemma workflow_ok_distinct_names: "workflow_ok t \<Longrightarrow> distinct (wt_workflow_stage_names t)"
  by (auto simp: workflow_ok_def stage_keys_def wt_workflow_stage_names_def distinct_map
      intro: inj_on_imageI2 [of strip] dest: comp_inj_on_iff simp: comp_def inj_on_def)

lemma wt_stage_of:
  assumes "workflow_ok t" "s \<in> set (wt_stages t)"
  shows "wt_stage t (ws_name s) = Inr s"
  using find_map_of_distinct [of ws_name "wt_stages t" s] workflow_ok_distinct_names [OF assms(1)] assms(2)
  by (simp add: wt_stage_def wt_workflow_stage_names_def)

lemma wt_stage_unknown:
  "stage \<notin> set (wt_workflow_stage_names t) \<Longrightarrow> wt_stage t stage = Inl (KeyError (''Unknown workflow stage '' @ quoted stage))"
  by (auto simp: wt_stage_def wt_workflow_stage_names_def find_none split: option.splits dest: find_some)

lemma wt_stage_known:
  assumes "workflow_ok t" "stage \<in> set (wt_workflow_stage_names t)"
  obtains s where "s \<in> set (wt_stages t)" "ws_name s = stage" "wt_stage t stage = Inr s"
  using assms wt_stage_of [OF assms(1)] by (auto simp: wt_workflow_stage_names_def)

lemma workflow_ok_stage:
  "workflow_ok t \<Longrightarrow> s \<in> set (wt_stages t) \<Longrightarrow> strip (ws_queue s) \<noteq> [] \<and> stage_fields_ok s"
  by (simp add: workflow_ok_def)

text \<open>
  The interface of a topology that workers and publishers use: the stages it names, and for a
  stage its queue, its binding keys and its publish key.
\<close>

locale stage_topology =
  fixes wf :: "'t \<Rightarrow> bool"
    and stage_names :: "'t \<Rightarrow> string list"
    and queue_of :: "'t \<Rightarrow> string \<Rightarrow> string res"
    and binding_keys_of :: "'t \<Rightarrow> string \<Rightarrow> string list res"
    and publish_key_of :: "'t \<Rightarrow> string \<Rightarrow> string res"
  assumes names_distinct: "wf t \<Longrightarrow> distinct (stage_names t)"
    and queue_known: "wf t \<Longrightarrow> stage \<in> set (stage_names t) \<Longrightarrow> \<exists>q. queue_of t stage = Inr q"
    and binding_known: "wf t \<Longrightarrow> stage \<in> set (stage_names t) \<Longrightarrow> \<exists>ks. binding_keys_of t stage = Inr ks \<and> ks \<noteq> []"
    and publish_known: "wf t \<Longrightarrow> stage \<in> set (stage_names t) \<Longrightarrow> \<exists>k. publish_key_of t stage = Inr k \<and> k \<noteq> []"
    and unknown: "stage \<notin> set (stage_names t) \<Longrightarrow>
      queue_of t stage = Inl (KeyError (''Unknown workflow stage '' @ quoted stage)) \<and>
      binding_keys_of t stage = Inl (KeyError (''Unknown workflow stage '' @ quoted stage)) \<and>
      publish_key_of t stage = Inl (KeyError (''Unknown workflow stage '' @ quoted stage))"
begin

lemma known_iff: "wf t \<Longrightarrow> stage \<in> set (stage_names t) \<longleftrightarrow> (\<exists>q. queue_of t stage = Inr q)"
  using queue_known unknown by fastforce

end

definition shared_stage_ok :: "shared_topology \<Rightarrow> bool" where
  "shared_stage_ok t = (st_task_types t = None \<and> strip (st_tasks_routing_key t) \<noteq> [])"

interpretation shared_stages: stage_topology shared_stage_ok workflow_stage_names workflow_queue_name
  workflow_binding_keys workflow_publish_routing_key
  by unfold_locales
    (auto simp: shared_stage_ok_def workflow_stage_names_def workflow_queue_name_def workflow_binding_keys_def
      workflow_publish_routing_key_def require_default_workflow_stage_def task_binding_keys_def Let_def)

interpretation workflow_stages: stage_topology workflow_ok wt_workflow_stage_names wt_workflow_queue_name
  wt_workflow_binding_keys wt_workflow_publish_routing_key
proof unfold_locales
  fix t stage assume *: "workflow_ok t" "stage \<in> set (wt_workflow_stage_names t)"
  obtain s where s: "s \<in> set (wt_stages t)" "wt_stage t stage = Inr s"
    using wt_stage_known [OF *] by blast
  have ok: "stage_fields_ok s" using workflow_ok_stage [OF *(1) s(1)] by simp
  show "\<exists>q. wt_workflow_queue_name t stage = Inr q" by (simp add: wt_workflow_queue_name_def s)
  show "\<exists>ks. wt_workflow_binding_keys t stage = Inr ks \<and> ks \<noteq> []"
    using ok by (auto simp: wt_workflow_binding_keys_def s strip_all_Nil_iff stage_fields_ok_def)
  show "\<exists>k. wt_workflow_publish_routing_key t stage = Inr k \<and> k \<noteq> []"
    using ok by (auto simp: wt_workflow_publish_routing_key_def s stage_fields_ok_def)
qed (simp_all add: workflow_ok_distinct_names wt_workflow_queue_name_def wt_workflow_binding_keys_def
    wt_workflow_publish_routing_key_def wt_stage_unknown)

end
