(* ===== verification/Workflow_Contract.thy ===== *)
theory Workflow_Contract
  imports Workflow_Topology
begin

text \<open>
  \<^verbatim>\<open>topology/workflow_contract.py\<close> (what a stage may publish and what it accepts) and the
  stage resolution \<^verbatim>\<open>_resolve_workflow_stage_for_routing_key\<close> of \<^verbatim>\<open>consumer/context.py\<close>,
  which is generic in the topology and so proved once over the interface \<open>stage_topology\<close>.
\<close>

subsection \<open>Contracts\<close>

definition contract_error :: "string \<Rightarrow> string \<Rightarrow> string \<Rightarrow> py_error" where
  "contract_error reason stage_name what =
     WorkflowContractError reason (''Workflow stage '' @ quoted stage_name @ what)"

definition validate_action_contract ::
  "action_schema list \<Rightarrow> string option \<Rightarrow> dict \<Rightarrow> string \<Rightarrow> string \<Rightarrow> unit res" where
  "validate_action_contract actions action payload stage_name unsupported_reason =
     (if actions = [] then Inr ()
      else
        let action_name = strip (or_text action []) in
        if action_name = []
        then Inl (contract_error unsupported_reason stage_name '' requires an action for this message'')
        else (case for_action actions action_name of
            None \<Rightarrow> Inl (contract_error unsupported_reason stage_name ('' does not support action '' @ quoted action_name))
          | Some schema \<Rightarrow>
              let errors = validate_action_schema_payload schema payload in
              if errors \<noteq> []
              then Inl (contract_error ''payload_schema_violation'' stage_name
                          ('' rejected action '' @ quoted action_name @ '': '' @ join ''; '' errors))
              else Inr ()))"

definition validate_publish_contract ::
  "workflow_topology \<Rightarrow> string \<Rightarrow> string option \<Rightarrow> dict \<Rightarrow> string option \<Rightarrow> unit res" where
  "validate_publish_contract t target_stage action payload source_stage =
     bind_res (wt_stage t target_stage) (\<lambda>destination.
     bind_res (case nonempty source_stage of
         None \<Rightarrow> Inr ()
       | Some source_name \<Rightarrow>
           bind_res (wt_stage t source_name) (\<lambda>source.
             if ws_terminal source
             then Inl (contract_error ''terminal_stage_handoff'' source_name
                         '' is terminal and cannot publish downstream handoffs'')
             else if ws_allowed_next_stages source \<noteq> [] \<and> target_stage \<notin> set (ws_allowed_next_stages source)
             then Inl (contract_error ''forbidden_transition'' source_name ('' cannot publish to '' @ quoted target_stage))
             else validate_action_contract (ws_produced_actions source) action payload source_name ''unsupported_action''))
       (\<lambda>_. validate_action_contract (ws_accepted_actions destination) action payload target_stage ''unsupported_action''))"

definition validate_inbound_message_contract ::
  "workflow_topology \<Rightarrow> string \<Rightarrow> string option \<Rightarrow> dict \<Rightarrow> unit res" where
  "validate_inbound_message_contract t stage action payload =
     bind_res (wt_stage t stage) (\<lambda>destination.
       validate_action_contract (ws_accepted_actions destination) action payload stage ''unsupported_action'')"

definition serialize_action_schemas :: "(action_schema \<Rightarrow> dict) \<Rightarrow> action_schema list \<Rightarrow> pyval list" where
  "serialize_action_schemas dump actions = map (\<lambda>action. PDict (dump action)) actions"

definition opt_val :: "('a \<Rightarrow> pyval) \<Rightarrow> 'a option \<Rightarrow> pyval" where
  "opt_val f v = (case v of None \<Rightarrow> PNone | Some x \<Rightarrow> f x)"

text \<open>\<open>dump\<close> is pydantic's \<^verbatim>\<open>model_dump\<close> of an action schema, \<open>num\<close> the value of a float.\<close>

definition serialize_workflow_stage ::
  "(action_schema \<Rightarrow> dict) \<Rightarrow> (rat \<Rightarrow> pyval) \<Rightarrow> workflow_stage \<Rightarrow> dict \<Rightarrow> dict" where
  "serialize_workflow_stage dump num stage queue_arguments =
     [(''id'', PStr (ws_name stage)),
      (''name'', PStr (ws_name stage)),
      (''queue'', PStr (ws_queue stage)),
      (''binding_keys'', PList (map PStr (ws_binding_keys stage))),
      (''publish_routing_key'', PStr (ws_publish_routing_key stage)),
      (''queue_arguments'', PDict queue_arguments),
      (''description'', opt_val PStr (ws_description stage)),
      (''role'', opt_val PStr (ws_role stage)),
      (''owner'', opt_val PStr (ws_owner stage)),
      (''tags'', PList (map PStr (ws_tags stage))),
      (''sla_ms'', opt_val PInt (ws_sla_ms stage)),
      (''accepted_actions'', PList (serialize_action_schemas dump (ws_accepted_actions stage))),
      (''produced_actions'', PList (serialize_action_schemas dump (ws_produced_actions stage))),
      (''allowed_next_stages'', PList (map PStr (ws_allowed_next_stages stage))),
      (''terminal'', PBool (ws_terminal stage)),
      (''timeout_seconds'', opt_val num (ws_timeout_seconds stage)),
      (''max_retries'', opt_val PInt (ws_max_retries stage)),
      (''retry_delay_ms'', opt_val PInt (ws_retry_delay_ms stage)),
      (''max_inflight'', opt_val PInt (ws_max_inflight stage)),
      (''dedup_key_fields'', PList (map PStr (ws_dedup_key_fields stage)))]"

subsection \<open>The stage of a routing key\<close>

fun find_res :: "('a \<Rightarrow> bool res) \<Rightarrow> 'a list \<Rightarrow> 'a option res" where
  "find_res p [] = Inr None"
| "find_res p (x # xs) = bind_res (p x) (\<lambda>b. if b then Inr (Some x) else find_res p xs)"

definition or_else :: "'a option res \<Rightarrow> 'a option res \<Rightarrow> 'a option res" where
  "or_else m n = bind_res m (\<lambda>r. case r of Some x \<Rightarrow> Inr (Some x) | None \<Rightarrow> n)"

definition resolve_workflow_stage_for_routing_key ::
  "string list \<Rightarrow> (string \<Rightarrow> string res) \<Rightarrow> (string \<Rightarrow> string list res) \<Rightarrow> workflow_entry_route list \<Rightarrow> string \<Rightarrow> string res" where
  "resolve_workflow_stage_for_routing_key names publish bindings entry_routes routing_key =
     bind_res
       (or_else (find_res (\<lambda>stage. bind_res (publish stage) (\<lambda>k. Inr (k = routing_key))) names)
       (or_else (find_res (\<lambda>stage. bind_res (bindings stage) (\<lambda>ks. Inr (routing_key \<in> set ks))) names)
       (or_else (Inr (map_option er_target_stage (List.find (\<lambda>route. er_routing_key route = routing_key) entry_routes)))
         (find_res (\<lambda>stage. bind_res (bindings stage)
            (\<lambda>ks. Inr (list_ex (\<lambda>k. context_topic_binding_matches k routing_key) ks))) names))))
       (\<lambda>r. case r of
            Some stage \<Rightarrow> Inr stage
          | None \<Rightarrow> Inl (KeyError (''No workflow stage publishes with routing key '' @ quoted routing_key)))"

lemma find_res_total:
  "(\<And>x. x \<in> set xs \<Longrightarrow> p x = Inr (q x)) \<Longrightarrow> find_res p xs = Inr (List.find q xs)"
  by (induction xs) auto

lemma or_else_Inr [simp]: "or_else (Inr a) (Inr b) = Inr (case a of None \<Rightarrow> b | Some x \<Rightarrow> Some x)"
  by (simp add: or_else_def split: option.splits)

context stage_topology
begin

definition publish_key :: "'t \<Rightarrow> string \<Rightarrow> string" where
  "publish_key t stage = projr (publish_key_of t stage)"

definition binding_keys :: "'t \<Rightarrow> string \<Rightarrow> string list" where
  "binding_keys t stage = projr (binding_keys_of t stage)"

lemma publish_key: "wf t \<Longrightarrow> stage \<in> set (stage_names t) \<Longrightarrow> publish_key_of t stage = Inr (publish_key t stage)"
  using publish_known by (fastforce simp: publish_key_def)

lemma binding_keys: "wf t \<Longrightarrow> stage \<in> set (stage_names t) \<Longrightarrow> binding_keys_of t stage = Inr (binding_keys t stage)"
  using binding_known by (fastforce simp: binding_keys_def)

lemma resolve_eq:
  assumes "wf t"
  shows "resolve_workflow_stage_for_routing_key (stage_names t) (publish_key_of t) (binding_keys_of t) routes rk =
    (case List.find (\<lambda>stage. publish_key t stage = rk) (stage_names t) of
       Some stage \<Rightarrow> Inr stage
     | None \<Rightarrow> (case List.find (\<lambda>stage. rk \<in> set (binding_keys t stage)) (stage_names t) of
         Some stage \<Rightarrow> Inr stage
       | None \<Rightarrow> (case List.find (\<lambda>route. er_routing_key route = rk) routes of
           Some route \<Rightarrow> Inr (er_target_stage route)
         | None \<Rightarrow> (case List.find (\<lambda>stage. list_ex (\<lambda>k. context_topic_binding_matches k rk) (binding_keys t stage))
                      (stage_names t) of
             Some stage \<Rightarrow> Inr stage
           | None \<Rightarrow> Inl (KeyError (''No workflow stage publishes with routing key '' @ quoted rk))))))"
proof -
  have "find_res (\<lambda>stage. bind_res (publish_key_of t stage) (\<lambda>k. Inr (k = rk))) (stage_names t) =
      Inr (List.find (\<lambda>stage. publish_key t stage = rk) (stage_names t))"
    by (rule find_res_total) (simp add: publish_key assms)
  moreover have "find_res (\<lambda>stage. bind_res (binding_keys_of t stage) (\<lambda>ks. Inr (P ks))) (stage_names t) =
      Inr (List.find (\<lambda>stage. P (binding_keys t stage)) (stage_names t))" for P
    by (rule find_res_total) (simp add: binding_keys assms)
  ultimately show ?thesis
    unfolding resolve_workflow_stage_for_routing_key_def by (simp split: option.splits)
qed

lemma resolve_sound:
  assumes "wf t"
    and "resolve_workflow_stage_for_routing_key (stage_names t) (publish_key_of t) (binding_keys_of t) routes rk = Inr stage"
  shows "stage \<in> set (stage_names t) \<or> stage \<in> er_target_stage ` set routes"
  using assms(2) by (auto simp: resolve_eq [OF assms(1)] split: option.splits dest!: find_some)

lemma resolve_publish_key:
  assumes "wf t" "inj_on (publish_key t) (set (stage_names t))" "stage \<in> set (stage_names t)"
  shows "resolve_workflow_stage_for_routing_key (stage_names t) (publish_key_of t) (binding_keys_of t) routes
           (publish_key t stage) = Inr stage"
proof -
  have "distinct (map (publish_key t) (stage_names t))"
    using assms names_distinct by (simp add: distinct_map)
  from find_map_of_distinct [OF this assms(3)] show ?thesis by (simp add: resolve_eq [OF assms(1)])
qed

lemma resolve_complete:
  assumes "wf t" "stage \<in> set (stage_names t)" "k \<in> set (binding_keys t stage)" "context_topic_binding_matches k rk"
  shows "\<exists>s. resolve_workflow_stage_for_routing_key (stage_names t) (publish_key_of t) (binding_keys_of t) routes rk = Inr s"
  using assms(2-4) by (auto simp: resolve_eq [OF assms(1)] find_none list_ex_iff split: option.splits)

end

subsection \<open>What the contracts accept\<close>

definition payload_accepted :: "payload_schema option \<Rightarrow> dict \<Rightarrow> bool" where
  "payload_accepted schema payload =
     (case schema of
        None \<Rightarrow> True
      | Some p \<Rightarrow> set (required_fields p) \<subseteq> fst ` set payload \<and>
                   fst ` set payload \<subseteq> set (required_fields p) \<union> set (optional_fields p))"

definition action_accepted :: "action_schema list \<Rightarrow> string option \<Rightarrow> dict \<Rightarrow> bool" where
  "action_accepted actions action payload =
     (actions \<noteq> [] \<longrightarrow>
       strip (or_text action []) \<noteq> [] \<and>
       (\<exists>schema before after. actions = before @ schema # after \<and>
          as_action schema = strip (or_text action []) \<and>
          (\<forall>b \<in> set before. as_action b \<noteq> strip (or_text action [])) \<and>
          payload_accepted (as_payload schema) payload))"

lemma validate_payload_Nil:
  "validate_payload schema payload = [] \<longleftrightarrow> payload_accepted (Some schema) payload"
proof -
  have "dict_has payload k \<longleftrightarrow> k \<in> fst ` set payload" for k
    by (simp add: map_of_eq_None_iff)
  then show ?thesis
    by (auto simp: validate_payload_def Let_def filter_empty_conv payload_accepted_def)
qed

lemma validate_action_schema_payload_Nil:
  "validate_action_schema_payload schema payload = [] \<longleftrightarrow> payload_accepted (as_payload schema) payload"
  by (cases "as_payload schema") (simp_all add: validate_action_schema_payload_def validate_payload_Nil, simp add: payload_accepted_def)

lemma find_first_append: "\<forall>b \<in> set before. \<not> P b \<Longrightarrow> P x \<Longrightarrow> List.find P (before @ x # after) = Some x"
  by (induction before) auto

lemma find_first_split:
  "List.find P xs = Some x \<Longrightarrow> \<exists>before after. xs = before @ x # after \<and> P x \<and> (\<forall>b \<in> set before. \<not> P b)"
proof (induction xs)
  case (Cons a xs)
  show ?case
  proof (cases "P a")
    case True
    with Cons.prems show ?thesis by (intro exI [of _ "[]"] exI [of _ xs]) simp
  next
    case False
    with Cons obtain before after where "xs = before @ x # after" "P x" "\<forall>b \<in> set before. \<not> P b" by auto
    with False show ?thesis by (intro exI [of _ "a # before"] exI [of _ after]) simp
  qed
qed simp

lemma for_action_first:
  "for_action actions name = Some schema \<longleftrightarrow>
     (\<exists>before after. actions = before @ schema # after \<and> as_action schema = name \<and>
        (\<forall>b \<in> set before. as_action b \<noteq> name))"
  unfolding for_action_def
  by (rule iffI, erule find_first_split, elim exE conjE, simp add: find_first_append)

lemma validate_action_contract_ok:
  "validate_action_contract actions action payload stage_name reason = Inr u \<longleftrightarrow> action_accepted actions action payload"
proof -
  have "validate_action_contract actions action payload stage_name reason = Inr u \<longleftrightarrow>
      (actions \<noteq> [] \<longrightarrow> strip (or_text action []) \<noteq> [] \<and>
        (\<exists>schema. for_action actions (strip (or_text action [])) = Some schema \<and>
           payload_accepted (as_payload schema) payload))"
    by (auto simp: validate_action_contract_def Let_def validate_action_schema_payload_Nil split: option.splits)
  also have "\<dots> \<longleftrightarrow> action_accepted actions action payload"
    unfolding action_accepted_def for_action_first by blast
  finally show ?thesis .
qed

text \<open>
  A handoff is allowed exactly when the target stage exists and accepts the action with
  this payload, and, when it comes from a stage, that stage exists, is not terminal, lists no
  successors or the target among them, and produces the action with this payload.
\<close>
theorem publish_contract_iff:
  "validate_publish_contract t target action payload source_stage = Inr () \<longleftrightarrow>
     (\<exists>destination. wt_stage t target = Inr destination \<and>
        action_accepted (ws_accepted_actions destination) action payload) \<and>
     (case nonempty source_stage of
        None \<Rightarrow> True
      | Some name \<Rightarrow> \<exists>source. wt_stage t name = Inr source \<and> \<not> ws_terminal source \<and>
          (ws_allowed_next_stages source = [] \<or> target \<in> set (ws_allowed_next_stages source)) \<and>
          action_accepted (ws_produced_actions source) action payload)"
  by (auto simp: validate_publish_contract_def validate_action_contract_ok split: option.splits if_splits)

text \<open>
  What a publisher is allowed to send, the receiving stage does not reject: when the
  publish contract holds for a target, the inbound contract of the target holds for the same
  action and payload, whatever the source.
\<close>
theorem published_message_is_accepted_inbound:
  assumes "validate_publish_contract t target action payload source_stage = Inr ()"
  shows "validate_inbound_message_contract t target action payload = Inr ()"
  using assms by (auto simp: validate_publish_contract_def validate_inbound_message_contract_def)

text \<open>A two-stage workflow, for the concrete instances below.\<close>

definition sample_stage :: "string \<Rightarrow> string list \<Rightarrow> action_schema list \<Rightarrow> workflow_stage" where
  "sample_stage name next_stages accepted = \<lparr>ws_name = name, ws_queue = ''wf.'' @ name,
     ws_binding_keys = [name @ ''.*''], ws_publish_routing_key = name @ ''.in'', ws_description = None,
     ws_role = None, ws_owner = None, ws_tags = [], ws_sla_ms = Some 5000, ws_accepted_actions = accepted,
     ws_produced_actions = [], ws_allowed_next_stages = next_stages, ws_terminal = (next_stages = []),
     ws_timeout_seconds = Some (5 / 2), ws_max_retries = Some 4, ws_retry_delay_ms = None, ws_max_inflight = None,
     ws_dedup_key_fields = [''query''], ws_arguments_overrides = [], ws_queue_kwargs = []\<rparr>"

definition sample_workflow :: workflow_topology where
  "sample_workflow = \<lparr>wt_rabbitmq_url = ''amqp://localhost'', wt_workflow_exchange = ''wf'',
     wt_status_exchange = ''status'', wt_status_queue = ''status.queue'',
     wt_stages = [sample_stage ''plan'' [''write''] [],
                  sample_stage ''write'' [] [\<lparr>as_action = ''draft'', as_description = None,
                     as_payload = Some \<lparr>ps_name = ''p'', ps_version = ''v1'', required_fields = [''outline''],
                       optional_fields = [''tone'']\<rparr>\<rparr>]],
     wt_entry_routes = [\<lparr>er_name = ''start'', er_routing_key = ''plan.start'', er_target_stage = ''plan''\<rparr>],
     wt_dead_letter_exchange = Some ''dlx'', wt_prefetch_count = 1, wt_consumer_timeout_ms = None,
     wt_single_active_consumer = None, wt_max_priority = Some 5, wt_queue_type = None,
     wt_arguments_overrides = [], wt_queue_kwargs = [], wt_status_use_streams = True, wt_status_queue_ttl_ms = None,
     wt_status_stream_max_length_gb = None, wt_status_stream_max_segment_size_mb = None,
     wt_status_stream_initial_offset = ''last'', wt_status_arguments_overrides = [], wt_status_queue_kwargs = []\<rparr>"

lemma sample_workflow_ok: "workflow_ok sample_workflow"
proof -
  have "post_init sample_workflow = Inr ()" by code_simp
  then show ?thesis by (simp add: post_init_ok)
qed

theorem published_message_is_accepted_inbound_witness:
  "validate_inbound_message_contract sample_workflow ''write'' (Some '' draft '') [(''outline'', PStr ''x'')] = Inr ()"
  by (rule published_message_is_accepted_inbound [where source_stage = "Some ''plan''"]) code_simp

subsection \<open>Stage resolution\<close>

text \<open>
  Resolution inverts publishing: when the stages of a well-formed workflow have pairwise
  different publish keys, the publish key of a stage resolves to that stage, whatever the
  bindings and entry routes are.
\<close>
theorem publish_key_resolves_to_stage:
  assumes "workflow_ok t" "distinct (map (\<lambda>s. strip (ws_publish_routing_key s)) (wt_stages t))"
    and "wt_workflow_publish_routing_key t stage = Inr rk"
  shows "resolve_workflow_stage_for_routing_key (wt_workflow_stage_names t) (wt_workflow_publish_routing_key t)
           (wt_workflow_binding_keys t) (wt_entry_routes t) rk = Inr stage"
proof -
  have known: "stage \<in> set (wt_workflow_stage_names t)"
    using assms(3) workflow_stages.unknown [of stage t] by fastforce
  have key: "workflow_stages.publish_key t (ws_name s) = strip (ws_publish_routing_key s)"
    if "s \<in> set (wt_stages t)" for s
    using that by (simp add: workflow_stages.publish_key_def wt_workflow_publish_routing_key_def wt_stage_of [OF assms(1)])
  have "inj_on (workflow_stages.publish_key t) (set (wt_workflow_stage_names t))"
    using assms(2) key by (fastforce simp: inj_on_def wt_workflow_stage_names_def distinct_map)
  from workflow_stages.resolve_publish_key [OF assms(1) this known, of "wt_entry_routes t"] show ?thesis
    using workflow_stages.publish_key [OF assms(1) known] assms(3) by simp
qed

theorem publish_key_resolves_to_stage_witness:
  "resolve_workflow_stage_for_routing_key (wt_workflow_stage_names sample_workflow)
     (wt_workflow_publish_routing_key sample_workflow) (wt_workflow_binding_keys sample_workflow)
     (wt_entry_routes sample_workflow) ''write.in'' = Inr ''write''"
proof (rule publish_key_resolves_to_stage [OF sample_workflow_ok])
  show "distinct (map (\<lambda>s. strip (ws_publish_routing_key s)) (wt_stages sample_workflow))" by code_simp
  show "wt_workflow_publish_routing_key sample_workflow ''write'' = Inr ''write.in''" by code_simp
qed

text \<open>
  A message routed to a stage's queue is attributed to some stage: when a binding key of
  a stage of a well-formed workflow matches the routing key (topic rules), resolution
  returns, and what it returns is a stage of the workflow or the target of an entry route.
\<close>
theorem bound_message_resolves:
  assumes "workflow_ok t" "wt_workflow_binding_keys t stage = Inr keys" "k \<in> set keys"
    and "amqp_matches (split_on (CHR ''.'') k) (split_on (CHR ''.'') rk)"
  shows "\<exists>s. resolve_workflow_stage_for_routing_key (wt_workflow_stage_names t) (wt_workflow_publish_routing_key t)
           (wt_workflow_binding_keys t) (wt_entry_routes t) rk = Inr s \<and>
         (s \<in> set (wt_workflow_stage_names t) \<or> s \<in> er_target_stage ` set (wt_entry_routes t))"
proof -
  have known: "stage \<in> set (wt_workflow_stage_names t)"
    using assms(2) workflow_stages.unknown [of stage t] by fastforce
  have "k \<in> set (workflow_stages.binding_keys t stage)"
    using assms(2,3) by (simp add: workflow_stages.binding_keys_def)
  moreover have "context_topic_binding_matches k rk"
    using assms(4) by (simp add: context_topic_binding_matches_def matches_cached_correct)
  ultimately show ?thesis
    using workflow_stages.resolve_complete [OF assms(1) known] workflow_stages.resolve_sound [OF assms(1)] by metis
qed

theorem bound_message_resolves_witness:
  "\<exists>s. resolve_workflow_stage_for_routing_key (wt_workflow_stage_names sample_workflow)
       (wt_workflow_publish_routing_key sample_workflow) (wt_workflow_binding_keys sample_workflow)
       (wt_entry_routes sample_workflow) ''write.again'' = Inr s \<and>
     (s \<in> set (wt_workflow_stage_names sample_workflow) \<or>
      s \<in> er_target_stage ` set (wt_entry_routes sample_workflow))"
proof (rule bound_message_resolves [OF sample_workflow_ok, where stage = "''write''" and keys = "[''write.*'']" and k = "''write.*''"])
  show "wt_workflow_binding_keys sample_workflow ''write'' = Inr [''write.*'']" by code_simp
  show "amqp_matches (split_on (CHR ''.'') ''write.*'') (split_on (CHR ''.'') ''write.again'')"
    by (simp add: amqp_word)
qed simp

subsection \<open>Entry routes\<close>

text \<open>
  When stage names carry no surrounding blanks, every entry route of an accepted workflow
  leads to a stage: the target of the route is found, and so are its queue and its keys.
\<close>
theorem entry_route_reaches_stage:
  assumes "post_init t = Inr ()" "\<forall>s \<in> set (wt_stages t). strip (ws_name s) = ws_name s"
    and "wt_workflow_entry_target_stage t route = Inr target"
  shows "(\<exists>s. wt_stage t target = Inr s) \<and> (\<exists>q. wt_workflow_queue_name t target = Inr q) \<and>
         (\<exists>k. wt_workflow_publish_routing_key t target = Inr k \<and> k \<noteq> [])"
proof -
  have ok: "workflow_ok t" using assms(1) by (simp add: post_init_ok)
  obtain r where "r \<in> set (wt_entry_routes t)" "target = er_target_stage r"
    using assms(3) by (auto simp: wt_workflow_entry_target_stage_def wt_entry_route_def split: option.splits dest: find_some)
  with ok assms(2) have known: "target \<in> set (wt_workflow_stage_names t)"
    by (fastforce simp: workflow_ok_def stage_keys_def wt_workflow_stage_names_def)
  then show ?thesis
    using wt_stage_known [OF ok known] workflow_stages.queue_known [OF ok known]
      workflow_stages.publish_known [OF ok known] by metis
qed

theorem entry_route_reaches_stage_witness:
  "(\<exists>s. wt_stage sample_workflow ''plan'' = Inr s) \<and> (\<exists>q. wt_workflow_queue_name sample_workflow ''plan'' = Inr q) \<and>
   (\<exists>k. wt_workflow_publish_routing_key sample_workflow ''plan'' = Inr k \<and> k \<noteq> [])"
proof (rule entry_route_reaches_stage [where route = "''start''"])
  show "post_init sample_workflow = Inr ()" by code_simp
  show "\<forall>s \<in> set (wt_stages sample_workflow). strip (ws_name s) = ws_name s" by code_simp
  show "wt_workflow_entry_target_stage sample_workflow ''start'' = Inr ''plan''" by code_simp
qed

text \<open>
  Without that condition the lookup can fail: the constructor compares stripped stage names,
  the lookup compares the names as they are.
\<close>

lemma entry_target_with_blank_name_fails:
  "let t = sample_workflow\<lparr>wt_stages := [sample_stage '' plan'' [] []]\<rparr> in
   post_init t = Inr () \<and> wt_workflow_entry_target_stage t ''start'' = Inr ''plan'' \<and>
   wt_workflow_queue_name t ''plan'' = Inl (KeyError (''Unknown workflow stage '' @ quoted ''plan''))"
  by code_simp

subsection \<open>Declarations\<close>

lemma chan_bind_Inr:
  "chan_bind m f = (cs, Inr y) \<longleftrightarrow> (\<exists>as x bs. m = (as, Inr x) \<and> f x = (bs, Inr y) \<and> cs = as @ bs)"
  by (cases m; cases "snd m") (auto simp: chan_bind_def split: prod.splits sum.splits)

lemma chan_of_Inr [simp]: "chan_of r = (cs, Inr x) \<longleftrightarrow> cs = [] \<and> r = Inr x"
  by (auto simp: chan_of_def)

lemma send_Inr [simp]: "send ds = (cs, Inr u) \<longleftrightarrow> cs = ds"
  by (auto simp: send_def)

lemma ensure_workflow_queue_commands:
  assumes "wt_stage t stage = Inr s" "wt_ensure_workflow_queue t exchange stage = (cs, Inr q)"
  shows "q = ws_queue s \<and> (\<exists>args. cs = DeclareQueue (ws_queue s) args #
           bind_all (ws_queue s) exchange (strip_all (ws_binding_keys s)))"
  using assms
  by (auto simp: wt_ensure_workflow_queue_def chan_bind_Inr wt_workflow_queue_name_def wt_workflow_binding_keys_def)
    (auto simp: chan_bind_def chan_of_def)

lemma ensure_stages_commands:
  assumes "ensure_stages t exchange stages = (cs, Inr ())" "stage \<in> set stages" "wt_stage t stage = Inr s"
  shows "\<exists>before args after. cs = before @ DeclareQueue (ws_queue s) args #
           bind_all (ws_queue s) exchange (strip_all (ws_binding_keys s)) @ after"
  using assms
proof (induction stages arbitrary: cs)
  case (Cons a stages)
  from Cons.prems(1) obtain as q bs where split: "wt_ensure_workflow_queue t exchange a = (as, Inr q)"
    "ensure_stages t exchange stages = (bs, Inr ())" "cs = as @ bs"
    by (auto simp: chan_bind_Inr)
  show ?case
  proof (cases "a = stage")
    case True
    with ensure_workflow_queue_commands [OF Cons.prems(3)] split(1,3)
    show ?thesis by (metis append_Cons append_Nil)
  next
    case False
    with Cons.IH [OF split(2)] Cons.prems(2,3) split(3) show ?thesis by (auto, metis append_assoc)
  qed
qed simp

text \<open>
  After a successful \<open>declare_queues\<close> of a well-formed workflow, every stage's queue was
  declared and then at once bound to the exchange under each of the stage's non-blank binding
  keys: no stage is left without its queue or bindings.
\<close>
theorem declare_queues_binds_every_stage:
  assumes "workflow_ok t" "wt_declare_queues t exchange status_exchange = (cs, Inr ())" "s \<in> set (wt_stages t)"
  shows "\<exists>before args after. cs = before @ DeclareQueue (ws_queue s) args #
           bind_all (ws_queue s) exchange (strip_all (ws_binding_keys s)) @ after"
proof -
  from assms(2) obtain as bs where "ensure_stages t exchange (wt_workflow_stage_names t) = (bs, Inr ())" "cs = as @ bs"
    by (auto simp: wt_declare_queues_def chan_bind_Inr)
  moreover have "ws_name s \<in> set (wt_workflow_stage_names t)" using assms(3) by (simp add: wt_workflow_stage_names_def)
  ultimately show ?thesis
    using ensure_stages_commands [of t exchange "wt_workflow_stage_names t" bs "ws_name s" s] wt_stage_of [OF assms(1,3)]
    by (metis append_assoc)
qed

theorem declare_queues_binds_every_stage_witness:
  "\<exists>cs before args after. wt_declare_queues sample_workflow ''wf'' ''status'' = (cs, Inr ()) \<and>
     cs = before @ DeclareQueue ''wf.write'' args # bind_all ''wf.write'' ''wf'' (strip_all [''write.*'']) @ after"
proof -
  have "snd (wt_declare_queues sample_workflow ''wf'' ''status'') = Inr ()" by code_simp
  then obtain cs where "wt_declare_queues sample_workflow ''wf'' ''status'' = (cs, Inr ())"
    by (metis prod.collapse)
  with declare_queues_binds_every_stage [OF sample_workflow_ok this, of "sample_stage ''write'' [] [\<lparr>as_action = ''draft'', as_description = None,
                     as_payload = Some \<lparr>ps_name = ''p'', ps_version = ''v1'', required_fields = [''outline''],
                       optional_fields = [''tone'']\<rparr>\<rparr>]"]
  show ?thesis by (auto simp: sample_workflow_def sample_stage_def)
qed

end
