(* ===== verification/Workflow_Graph.thy ===== *)
theory Workflow_Graph
  imports Workflow_Contract
begin

text \<open>
  \<^verbatim>\<open>topology/workflow_graph.py\<close> (the exported graph and its Mermaid rendering),
  \<^verbatim>\<open>topology/workflow_templates.py\<close> and \<^verbatim>\<open>topology/validation.py\<close>.
\<close>

subsection \<open>The exported graph\<close>

record graph_edge =
  ge_source :: string
  ge_target :: string
  ge_routing_key :: string

record workflow_graph =
  wg_workflow_exchange :: "string option"
  wg_status_queue :: string
  wg_stages :: "dict list"
  wg_entry_routes :: "workflow_entry_route list"
  wg_edges :: "graph_edge list"

definition stage_accepts_key :: "workflow_topology \<Rightarrow> string \<Rightarrow> string \<Rightarrow> bool res" where
  "stage_accepts_key t routing_key destination =
     bind_res (wt_workflow_binding_keys t destination) (\<lambda>keys.
       Inr (list_ex (\<lambda>binding. topic_binding_matches binding routing_key) keys))"

definition edges_from :: "workflow_topology \<Rightarrow> string \<Rightarrow> graph_edge list res" where
  "edges_from t source =
     bind_res (wt_workflow_publish_routing_key t source) (\<lambda>routing_key.
     bind_res (map_res (\<lambda>destination. bind_res (stage_accepts_key t routing_key destination) (\<lambda>hit.
         Inr (if hit then [\<lparr>ge_source = source, ge_target = destination, ge_routing_key = routing_key\<rparr>] else [])))
       (wt_workflow_stage_names t)) (\<lambda>parts. Inr (concat parts)))"

definition export_workflow_graph ::
  "(action_schema \<Rightarrow> dict) \<Rightarrow> (rat \<Rightarrow> pyval) \<Rightarrow> workflow_topology \<Rightarrow> workflow_graph res" where
  "export_workflow_graph dump num t =
     bind_res (map_res (\<lambda>stage.
         bind_res (wt_stage t stage) (\<lambda>resolved.
         bind_res (wt_workflow_queue_arguments t stage) (\<lambda>args.
           Inr (serialize_workflow_stage dump num resolved args)))) (wt_workflow_stage_names t)) (\<lambda>stages.
     bind_res (map_res (edges_from t) (wt_workflow_stage_names t)) (\<lambda>edges.
       Inr \<lparr>wg_workflow_exchange = wt_workflow_exchange_name t, wg_status_queue = wt_status_queue t,
            wg_stages = stages, wg_entry_routes = wt_entry_routes t, wg_edges = concat edges\<rparr>))"

subsection \<open>Mermaid\<close>

definition is_word_char :: "char \<Rightarrow> bool" where
  "is_word_char c = (let n = of_char c :: nat in
     (48 \<le> n \<and> n \<le> 57) \<or> (65 \<le> n \<and> n \<le> 90) \<or> (97 \<le> n \<and> n \<le> 122) \<or> n = 95)"

definition sanitize_mermaid_identifier :: "string \<Rightarrow> string" where
  "sanitize_mermaid_identifier name =
     (let sanitized = strip_with (\<lambda>c. c = CHR ''_'') (map (\<lambda>c. if is_word_char c then c else CHR ''_'') name)
      in if sanitized = [] then ''node'' else sanitized)"

definition suffixed :: "string \<Rightarrow> nat \<Rightarrow> string" where
  "suffixed base n = base @ ''_'' @ nat_str n"

text \<open>
  The loop \<^verbatim>\<open>while candidate in used\<close> after the first candidate: it tries the suffixes from
  \<open>n\<close> on and ends because \<open>used\<close> is finite and suffixed names are pairwise different.
\<close>

lemma suffixed_inj: "suffixed base m = suffixed base n \<longleftrightarrow> m = n"
  by (simp add: suffixed_def nat_str_inj)

lemma finite_suffixes: "finite {m. n \<le> m \<and> suffixed base m \<in> set used}"
proof -
  have "inj_on (suffixed base) {m. n \<le> m \<and> suffixed base m \<in> set used}"
    by (auto simp: inj_on_def suffixed_inj)
  moreover have "suffixed base ` {m. n \<le> m \<and> suffixed base m \<in> set used} \<subseteq> set used" by auto
  ultimately show ?thesis by (metis List.finite_set finite_imageD finite_subset)
qed

function free_suffix :: "string \<Rightarrow> string list \<Rightarrow> nat \<Rightarrow> string" where
  "free_suffix base used n =
     (if suffixed base n \<in> set used then free_suffix base used (n + 1) else suffixed base n)"
  by pat_completeness auto
termination
proof (relation "measure (\<lambda>(base, used, n). card {m. n \<le> m \<and> suffixed base m \<in> set used})")
  fix base used n assume "suffixed base n \<in> set used"
  then have "{m. n + 1 \<le> m \<and> suffixed base m \<in> set used} \<subset> {m. n \<le> m \<and> suffixed base m \<in> set used}"
    by (intro psubsetI) (auto simp: set_eq_iff intro!: exI [of _ n])
  then show "((base, used, n + 1), (base, used, n)) \<in>
      measure (\<lambda>(base, used, n). card {m. n \<le> m \<and> suffixed base m \<in> set used})"
    using psubset_card_mono [OF finite_suffixes] by simp
qed simp

declare free_suffix.simps [simp del]

definition fresh_candidate :: "string \<Rightarrow> string list \<Rightarrow> string" where
  "fresh_candidate base used = (if base \<in> set used then free_suffix base used 2 else base)"

fun build_node_ids :: "string \<Rightarrow> string list \<Rightarrow> (string \<times> string) list \<Rightarrow> string list \<Rightarrow> (string \<times> string) list" where
  "build_node_ids prefix [] identifiers used = identifiers"
| "build_node_ids prefix (name # names) identifiers used =
     (let candidate = fresh_candidate (prefix @ ''_'' @ sanitize_mermaid_identifier name) used
      in build_node_ids prefix names (AList.update name candidate identifiers) (candidate # used))"

definition build_mermaid_node_ids :: "string list \<Rightarrow> string \<Rightarrow> (string \<times> string) list" where
  "build_mermaid_node_ids names prefix = build_node_ids prefix names [] []"

definition node_id :: "(string \<times> string) list \<Rightarrow> string \<Rightarrow> string res" where
  "node_id ids name = (case map_of ids name of Some i \<Rightarrow> Inr i | None \<Rightarrow> Inl (KeyError (repr_string name)))"

definition node_label :: "string \<Rightarrow> string \<Rightarrow> string" where
  "node_label a b = ''['' @ quote2 @ a @ [CHR 0x5C] @ ''n'' @ b @ quote2 @ '']''"

definition stage_field :: "dict \<Rightarrow> string \<Rightarrow> string" where
  "stage_field d k = (case map_of d k of Some (PStr s) \<Rightarrow> s | _ \<Rightarrow> [])"

definition workflow_graph_mermaid ::
  "(action_schema \<Rightarrow> dict) \<Rightarrow> (rat \<Rightarrow> pyval) \<Rightarrow> workflow_topology \<Rightarrow> string res" where
  "workflow_graph_mermaid dump num t =
     bind_res (export_workflow_graph dump num t) (\<lambda>graph.
       let stage_node_ids = build_mermaid_node_ids (map (\<lambda>d. stage_field d ''id'') (wg_stages graph)) ''stage'';
           entry_node_ids = build_mermaid_node_ids (map er_name (wg_entry_routes graph)) ''entry''
       in bind_res (map_res (\<lambda>d. bind_res (node_id stage_node_ids (stage_field d ''id'')) (\<lambda>n.
              Inr (''    '' @ n @ node_label (stage_field d ''id'') (stage_field d ''queue'')))) (wg_stages graph)) (\<lambda>stage_lines.
          bind_res (map_res (\<lambda>r. bind_res (node_id entry_node_ids (er_name r)) (\<lambda>n.
              bind_res (node_id stage_node_ids (er_target_stage r)) (\<lambda>target.
              Inr (''    '' @ n @ node_label (er_name r) (er_routing_key r) @ '' --> '' @ target))))
              (wg_entry_routes graph)) (\<lambda>entry_lines.
          bind_res (map_res (\<lambda>e. bind_res (node_id stage_node_ids (ge_source e)) (\<lambda>source.
              bind_res (node_id stage_node_ids (ge_target e)) (\<lambda>target.
              Inr (''    '' @ source @ '' -->|'' @ ge_routing_key e @ ''| '' @ target))))
              (wg_edges graph)) (\<lambda>edge_lines.
            Inr (join [CHR 0x0A] (''flowchart LR'' # stage_lines @ entry_lines @ edge_lines))))))"

subsection \<open>Templates\<close>

definition template_stage :: "string \<Rightarrow> string \<Rightarrow> workflow_stage" where
  "template_stage queue_prefix stage_name =
     \<lparr>ws_name = stage_name, ws_queue = queue_prefix @ ''.'' @ stage_name, ws_binding_keys = [stage_name @ ''.in''],
      ws_publish_routing_key = stage_name @ ''.in'', ws_description = None, ws_role = None, ws_owner = None,
      ws_tags = [], ws_sla_ms = None, ws_accepted_actions = [], ws_produced_actions = [],
      ws_allowed_next_stages = [], ws_terminal = False, ws_timeout_seconds = None, ws_max_retries = None,
      ws_retry_delay_ms = None, ws_max_inflight = None, ws_dedup_key_fields = [],
      ws_arguments_overrides = [], ws_queue_kwargs = []\<rparr>"

definition template_topology ::
  "string \<Rightarrow> string \<Rightarrow> string \<Rightarrow> string \<Rightarrow> workflow_stage list \<Rightarrow> workflow_entry_route list \<Rightarrow> workflow_topology" where
  "template_topology url workflow_exchange status_exchange status_queue stages entry_routes =
     \<lparr>wt_rabbitmq_url = url, wt_workflow_exchange = workflow_exchange, wt_status_exchange = status_exchange,
      wt_status_queue = status_queue, wt_stages = stages, wt_entry_routes = entry_routes,
      wt_dead_letter_exchange = None, wt_prefetch_count = 1, wt_consumer_timeout_ms = None,
      wt_single_active_consumer = None, wt_max_priority = None, wt_queue_type = None,
      wt_arguments_overrides = [], wt_queue_kwargs = [], wt_status_use_streams = True,
      wt_status_queue_ttl_ms = None, wt_status_stream_max_length_gb = None,
      wt_status_stream_max_segment_size_mb = None, wt_status_stream_initial_offset = ''last'',
      wt_status_arguments_overrides = [], wt_status_queue_kwargs = []\<rparr>"

text \<open>Constructing the object runs \<open>post_init\<close>.\<close>

definition constructed :: "workflow_topology \<Rightarrow> workflow_topology res" where
  "constructed t = bind_res (post_init t) (\<lambda>_. Inr t)"

definition build_linear_workflow_topology ::
  "string \<Rightarrow> string \<Rightarrow> string \<Rightarrow> string \<Rightarrow> string list \<Rightarrow> string \<Rightarrow> workflow_topology res" where
  "build_linear_workflow_topology url workflow_exchange status_exchange status_queue stage_names queue_prefix =
     constructed (template_topology url workflow_exchange status_exchange status_queue
       (map (template_stage queue_prefix) stage_names) [])"

definition build_search_aggregate_workflow_topology ::
  "string \<Rightarrow> string \<Rightarrow> string \<Rightarrow> string \<Rightarrow> string \<Rightarrow> string list \<Rightarrow> string \<Rightarrow> string \<Rightarrow> string \<Rightarrow> workflow_topology res" where
  "build_search_aggregate_workflow_topology url workflow_exchange status_exchange status_queue
       planner_stage search_stages aggregate_stage writer_stage queue_prefix =
     constructed (template_topology url workflow_exchange status_exchange status_queue
       (map (template_stage queue_prefix) ([planner_stage] @ search_stages @ [aggregate_stage, writer_stage]))
       [\<lparr>er_name = ''planner'', er_routing_key = planner_stage @ ''.in'', er_target_stage = planner_stage\<rparr>])"

subsection \<open>Validation\<close>

definition validate_stage :: "workflow_topology \<Rightarrow> string \<Rightarrow> string list res" where
  "validate_stage t stage =
     bind_res (wt_workflow_queue_name t stage) (\<lambda>queue.
     bind_res (wt_workflow_binding_keys t stage) (\<lambda>keys.
     bind_res (wt_stage t stage) (\<lambda>resolved.
       Inr ((if strip queue = [] then [''workflow stage '' @ quoted stage @ '' must define a queue name''] else []) @
            (if keys = [] then [''workflow stage '' @ quoted stage @ '' must define at least one binding key''] else []) @
            concat (map (\<lambda>downstream. if downstream \<notin> set (wt_workflow_stage_names t)
               then [''workflow stage '' @ quoted stage @ '' references unknown downstream stage '' @ quoted downstream]
               else []) (ws_allowed_next_stages resolved))))))"

definition validate_topology :: "workflow_topology \<Rightarrow> string list res" where
  "validate_topology t =
     bind_res (map_res (validate_stage t) (wt_workflow_stage_names t)) (\<lambda>errors.
       Inr ((if wt_workflow_stage_names t = [] then [''workflow topology must contain at least one stage''] else []) @
            concat errors))"

definition summarize_topology :: "(action_schema \<Rightarrow> dict) \<Rightarrow> (rat \<Rightarrow> pyval) \<Rightarrow> workflow_topology \<Rightarrow> dict res" where
  "summarize_topology dump num t =
     bind_res (map_res (\<lambda>stage.
         bind_res (wt_stage t stage) (\<lambda>resolved.
         bind_res (wt_workflow_queue_arguments t stage) (\<lambda>args.
           Inr (PDict (serialize_workflow_stage dump num resolved args))))) (wt_workflow_stage_names t)) (\<lambda>stages.
       Inr [(''kind'', PStr ''SharedStatusWorkflowTopology''), (''prefetch_count'', PInt (wt_prefetch_count t)),
            (''status_queue'', PStr (wt_status_queue t)),
            (''workflow_exchange'', PStr (wt_workflow_exchange t)), (''workflow_stages'', PList stages)])"

datatype topology = WorkflowTopology workflow_topology | TasksTopology shared_topology

definition topology_kind :: "topology \<Rightarrow> string" where
  "topology_kind topo =
     (case topo of
        WorkflowTopology _ \<Rightarrow> ''shared_status_workflow''
      | TasksTopology t \<Rightarrow>
          (case (st_task_types t, st_sharding t) of
             (Some _, Some _) \<Rightarrow> ''routed_tasks_shared_status_sharded_aggregation''
           | (None, Some _) \<Rightarrow> ''shared_tasks_shared_status_sharded_aggregation''
           | (Some _, None) \<Rightarrow> ''routed_tasks_shared_status''
           | (None, None) \<Rightarrow> ''shared_tasks_shared_status''))"

subsection \<open>Node identifiers are unique\<close>

lemma free_suffix_fresh:
  "free_suffix base used n \<notin> set used \<and> (\<exists>m. free_suffix base used n = suffixed base m)"
proof (induction base used n rule: free_suffix.induct)
  case (1 base used n)
  then show ?case by (subst (1 2) free_suffix.simps) auto
qed

lemma fresh_candidate_fresh:
  "fresh_candidate base used \<notin> set used \<and> (\<exists>rest. fresh_candidate base used = base @ rest)"
  using free_suffix_fresh [of base used 2] by (auto simp: fresh_candidate_def suffixed_def)

lemma build_node_ids_spec:
  assumes "distinct (map fst ids @ names)" "distinct (map snd ids)" "set (map snd ids) \<subseteq> set used"
    and "\<forall>i \<in> set (map snd ids). \<exists>rest. i = prefix @ ''_'' @ rest"
  shows "map fst (build_node_ids prefix names ids used) = map fst ids @ names \<and>
         distinct (map snd (build_node_ids prefix names ids used)) \<and>
         (\<forall>i \<in> set (map snd (build_node_ids prefix names ids used)). \<exists>rest. i = prefix @ ''_'' @ rest)"
  using assms
proof (induction names arbitrary: ids used)
  case (Cons name names)
  define c where "c = fresh_candidate (prefix @ ''_'' @ sanitize_mermaid_identifier name) used"
  have c: "c \<notin> set used" "\<exists>rest. c = prefix @ ''_'' @ rest"
    using fresh_candidate_fresh [of "prefix @ ''_'' @ sanitize_mermaid_identifier name" used] by (auto simp: c_def)
  have new: "AList.update name c ids = ids @ [(name, c)]"
    using Cons.prems(1) by (intro update_new) auto
  have step: "build_node_ids prefix (name # names) ids used = build_node_ids prefix names (ids @ [(name, c)]) (c # used)"
    unfolding build_node_ids.simps Let_def c_def [symmetric] new ..
  have "c \<notin> snd ` set ids" using Cons.prems(3) c(1) by auto
  moreover have "snd ` set ids \<subseteq> insert c (set used)" using Cons.prems(3) by auto
  ultimately show ?case
    unfolding step using Cons.IH [of "ids @ [(name, c)]" "c # used"] Cons.prems c by simp
qed simp

text \<open>
  The Mermaid rendering never merges two nodes: for pairwise different stage names and
  entry names, every name gets an identifier, in order, and all stage and entry identifiers
  are pairwise different, although sanitising maps different names to the same text.
\<close>
theorem mermaid_node_ids_unique:
  assumes "distinct stages" "distinct routes"
  shows "map fst (build_mermaid_node_ids stages ''stage'') = stages \<and>
         map fst (build_mermaid_node_ids routes ''entry'') = routes \<and>
         distinct (map snd (build_mermaid_node_ids stages ''stage'' @ build_mermaid_node_ids routes ''entry''))"
proof -
  have "map fst (build_mermaid_node_ids stages ''stage'') = stages \<and>
      distinct (map snd (build_mermaid_node_ids stages ''stage'')) \<and>
      (\<forall>i \<in> set (map snd (build_mermaid_node_ids stages ''stage'')). \<exists>rest. i = ''stage_'' @ rest)"
    using build_node_ids_spec [of "[]" stages "[]" "''stage''"] assms by (simp add: build_mermaid_node_ids_def)
  moreover have "map fst (build_mermaid_node_ids routes ''entry'') = routes \<and>
      distinct (map snd (build_mermaid_node_ids routes ''entry'')) \<and>
      (\<forall>i \<in> set (map snd (build_mermaid_node_ids routes ''entry'')). \<exists>rest. i = ''entry_'' @ rest)"
    using build_node_ids_spec [of "[]" routes "[]" "''entry''"] assms by (simp add: build_mermaid_node_ids_def)
  ultimately show ?thesis by (fastforce simp: disjoint_iff)
qed

theorem mermaid_node_ids_unique_witness:
  "map fst (build_mermaid_node_ids [''a.b'', ''a-b''] ''stage'') = [''a.b'', ''a-b''] \<and>
   map fst (build_mermaid_node_ids [''in''] ''entry'') = [''in''] \<and>
   distinct (map snd (build_mermaid_node_ids [''a.b'', ''a-b''] ''stage'' @ build_mermaid_node_ids [''in''] ''entry''))"
  by (rule mermaid_node_ids_unique) simp_all

subsection \<open>Edges\<close>

lemma edges_from_Inr:
  assumes "edges_from t source = Inr es"
  shows "e \<in> set es \<longleftrightarrow> ge_source e = source \<and> wt_workflow_publish_routing_key t source = Inr (ge_routing_key e) \<and>
     ge_target e \<in> set (wt_workflow_stage_names t) \<and>
     (\<exists>ks. wt_workflow_binding_keys t (ge_target e) = Inr ks \<and> (\<exists>b \<in> set ks. topic_binding_matches b (ge_routing_key e)))"
proof -
  obtain rk parts where rk: "wt_workflow_publish_routing_key t source = Inr rk" and es: "es = concat parts"
    and parts: "map_res (\<lambda>destination. bind_res (stage_accepts_key t rk destination) (\<lambda>hit.
         Inr (if hit then [\<lparr>ge_source = source, ge_target = destination, ge_routing_key = rk\<rparr>] else [])))
       (wt_workflow_stage_names t) = Inr parts"
    using assms by (auto simp: edges_from_def)
  have "e \<in> set (concat parts) \<longleftrightarrow> (\<exists>d \<in> set ds. stage_accepts_key t rk d = Inr True \<and>
      e = \<lparr>ge_source = source, ge_target = d, ge_routing_key = rk\<rparr>)"
    if "map_res (\<lambda>destination. bind_res (stage_accepts_key t rk destination) (\<lambda>hit.
         Inr (if hit then [\<lparr>ge_source = source, ge_target = destination, ge_routing_key = rk\<rparr>] else []))) ds = Inr parts"
    for ds
    using that
  proof (induction ds arbitrary: parts)
    case (Cons d ds)
    then show ?case by (auto split: if_splits)
  qed simp
  from this [OF parts] show ?thesis
    by (cases e) (auto simp: es rk stage_accepts_key_def list_ex_iff)
qed

text \<open>
  The exported graph has an edge from one stage to another exactly when the publish key
  of the first, as its label, is matched under the topic rules by a binding key of the second.
\<close>
theorem exported_edges_iff:
  assumes "export_workflow_graph dump num t = Inr g"
  shows "e \<in> set (wg_edges g) \<longleftrightarrow>
     ge_source e \<in> set (wt_workflow_stage_names t) \<and> ge_target e \<in> set (wt_workflow_stage_names t) \<and>
     wt_workflow_publish_routing_key t (ge_source e) = Inr (ge_routing_key e) \<and>
     (\<exists>ks. wt_workflow_binding_keys t (ge_target e) = Inr ks \<and>
        (\<exists>b \<in> set ks. amqp_matches (split_on (CHR ''.'') b) (split_on (CHR ''.'') (ge_routing_key e))))"
proof -
  obtain edges where edges: "map_res (edges_from t) (wt_workflow_stage_names t) = Inr edges" and g: "wg_edges g = concat edges"
    using assms by (auto simp: export_workflow_graph_def)
  have "e \<in> set (concat edges) \<longleftrightarrow> (\<exists>s \<in> set ss. \<exists>es. edges_from t s = Inr es \<and> e \<in> set es)"
    if "map_res (edges_from t) ss = Inr edges" for ss
    using that by (induction ss arbitrary: edges) auto
  from this [OF edges] have "e \<in> set (wg_edges g) \<longleftrightarrow>
      (\<exists>s \<in> set (wt_workflow_stage_names t). \<exists>es. edges_from t s = Inr es \<and> e \<in> set es)"
    by (simp add: g)
  also have "\<dots> \<longleftrightarrow> (\<exists>s \<in> set (wt_workflow_stage_names t). ge_source e = s \<and>
      wt_workflow_publish_routing_key t s = Inr (ge_routing_key e) \<and> ge_target e \<in> set (wt_workflow_stage_names t) \<and>
      (\<exists>ks. wt_workflow_binding_keys t (ge_target e) = Inr ks \<and> (\<exists>b \<in> set ks. topic_binding_matches b (ge_routing_key e))))"
  proof (rule bex_cong [OF refl])
    fix s assume "s \<in> set (wt_workflow_stage_names t)"
    then obtain es where "edges_from t s = Inr es"
      using edges by (auto simp: map_res_Inr_iff list_all2_conv_all_nth in_set_conv_nth)
    then show "(\<exists>es. edges_from t s = Inr es \<and> e \<in> set es) \<longleftrightarrow> ge_source e = s \<and>
      wt_workflow_publish_routing_key t s = Inr (ge_routing_key e) \<and> ge_target e \<in> set (wt_workflow_stage_names t) \<and>
      (\<exists>ks. wt_workflow_binding_keys t (ge_target e) = Inr ks \<and> (\<exists>b \<in> set ks. topic_binding_matches b (ge_routing_key e)))"
      using edges_from_Inr [of t s es e] by simp
  qed
  finally show ?thesis
    by (auto simp: topic_binding_matches_def matches_parts_correct)
qed

theorem exported_edges_iff_witness:
  "\<exists>g. export_workflow_graph (\<lambda>_. []) (\<lambda>_. PNone) sample_workflow = Inr g \<and>
     (\<lparr>ge_source = ''plan'', ge_target = ''write'', ge_routing_key = ''plan.in''\<rparr> \<in> set (wg_edges g) \<longleftrightarrow>
       ''plan'' \<in> set (wt_workflow_stage_names sample_workflow) \<and> ''write'' \<in> set (wt_workflow_stage_names sample_workflow) \<and>
       wt_workflow_publish_routing_key sample_workflow ''plan'' = Inr ''plan.in'' \<and>
       (\<exists>ks. wt_workflow_binding_keys sample_workflow ''write'' = Inr ks \<and>
          (\<exists>b \<in> set ks. amqp_matches (split_on (CHR ''.'') b) (split_on (CHR ''.'') ''plan.in''))))"
proof -
  have "\<not> isl (export_workflow_graph (\<lambda>_. []) (\<lambda>_. PNone) sample_workflow)" by code_simp
  then obtain g where "export_workflow_graph (\<lambda>_. []) (\<lambda>_. PNone) sample_workflow = Inr g"
    by (cases "export_workflow_graph (\<lambda>_. []) (\<lambda>_. PNone) sample_workflow") auto
  from this exported_edges_iff [OF this, of "\<lparr>ge_source = ''plan'', ge_target = ''write'', ge_routing_key = ''plan.in''\<rparr>"]
  show ?thesis by auto
qed

text \<open>
  For the linear template the edges are self-loops: a stage's publish key is the key it
  receives on, so no edge leads to the next stage.
\<close>

lemma linear_template_self_loops:
  "bind_res (build_linear_workflow_topology ''url'' ''wf'' ''st'' ''sq'' [''plan'', ''write''] ''workflow'')
     (\<lambda>t. bind_res (export_workflow_graph (\<lambda>_. []) (\<lambda>_. PNone) t) (\<lambda>g.
        Inr (map (\<lambda>e. (ge_source e, ge_target e)) (wg_edges g)))) =
   Inr [(''plan'', ''plan''), (''write'', ''write'')]"
  by code_simp

end
