(* ===== verification/Workflow_State.thy ===== *)
theory Workflow_State
  imports Workflow_Contract
begin

text \<open>
  The helpers of \<^verbatim>\<open>src/src/relayna/workflow/\<close>: run state, fan-in progress, transition rules,
  lineage, stage policies and metadata, stall diagnosis, replay headers and actions.  The
  sets of a fan-in are Isabelle sets, the dictionaries association lists.
\<close>

subsection \<open>run\_state.py\<close>

record workflow_stage_state =
  wss_stage :: string
  wss_status :: string
  wss_attempts :: int
  wss_latest_message_id :: "string option"
  wss_meta :: dict

record workflow_run_state =
  wrs_task_id :: string
  wrs_current_stage :: "string option"
  wrs_status :: string
  wrs_stages :: "(string \<times> workflow_stage_state) list"

definition new_stage_state :: "string \<Rightarrow> workflow_stage_state" where
  "new_stage_state stage = \<lparr>wss_stage = stage, wss_status = ''pending'', wss_attempts = 0,
     wss_latest_message_id = None, wss_meta = []\<rparr>"

definition new_run_state :: "string \<Rightarrow> workflow_run_state" where
  "new_run_state task_id = \<lparr>wrs_task_id = task_id, wrs_current_stage = None, wrs_status = ''pending'', wrs_stages = []\<rparr>"

definition update_stage ::
  "string \<Rightarrow> string \<Rightarrow> string option \<Rightarrow> dict option \<Rightarrow> workflow_run_state \<Rightarrow> workflow_run_state" where
  "update_stage stage status message_id meta run =
     (let item = (case map_of (wrs_stages run) stage of Some i \<Rightarrow> i | None \<Rightarrow> new_stage_state stage);
          item = item\<lparr>wss_status := status, wss_attempts := wss_attempts item + 1, wss_latest_message_id := message_id,
                      wss_meta := (case meta of Some m \<Rightarrow> dict_update (wss_meta item) m | None \<Rightarrow> wss_meta item)\<rparr>
      in run\<lparr>wrs_stages := AList.update stage item (wrs_stages run), wrs_current_stage := Some stage,
             wrs_status := status\<rparr>)"

subsection \<open>fanin.py\<close>

record fanin_progress =
  fi_stage :: string
  fi_expected :: "string set"
  fi_completed :: "string set"

definition fanin_is_complete :: "fanin_progress \<Rightarrow> bool" where
  "fanin_is_complete progress = (fi_expected progress \<noteq> {} \<and> fi_expected progress \<subseteq> fi_completed progress)"

definition update_fanin_progress :: "string \<Rightarrow> fanin_progress \<Rightarrow> fanin_progress" where
  "update_fanin_progress completed_stage progress =
     progress\<lparr>fi_completed := insert completed_stage (fi_completed progress)\<rparr>"

subsection \<open>transitions.py\<close>

record transition_rule =
  tr_source :: string
  tr_targets :: "string list"

definition transition_rule_from_stage :: "workflow_stage \<Rightarrow> transition_rule" where
  "transition_rule_from_stage stage = \<lparr>tr_source = ws_name stage, tr_targets = ws_allowed_next_stages stage\<rparr>"

fun validate_transition :: "string \<Rightarrow> string \<Rightarrow> transition_rule list \<Rightarrow> bool" where
  "validate_transition current_stage next_stage [] = False"
| "validate_transition current_stage next_stage (rule # rules) =
     (if tr_source rule = current_stage then next_stage \<in> set (tr_targets rule)
      else validate_transition current_stage next_stage rules)"

subsection \<open>lineage.py\<close>

record lineage_edge =
  le_parent_message_id :: pyval
  le_message_id :: string
  le_source_stage :: pyval
  le_target_stage :: pyval

definition build_lineage :: "dict list \<Rightarrow> lineage_edge list" where
  "build_lineage messages =
     map (\<lambda>item. \<lparr>le_parent_message_id = dict_get item ''correlation_id'',
                  le_message_id = dict_text item ''message_id'',
                  le_source_stage = dict_get item ''origin_stage'', le_target_stage = dict_get item ''stage''\<rparr>)
       (filter (\<lambda>item. truthy (dict_get item ''message_id'')) messages)"

subsection \<open>policies.py and stage\_registry.py\<close>

record stage_policy =
  sp_stage :: string
  sp_max_retries :: int
  sp_timeout_seconds :: "rat option"
  sp_concurrency :: "int option"
  sp_dedup_key_field :: "string option"

definition stage_policy_from_stage :: "workflow_stage \<Rightarrow> stage_policy" where
  "stage_policy_from_stage stage =
     \<lparr>sp_stage = ws_name stage, sp_max_retries = (case ws_max_retries stage of Some n \<Rightarrow> n | None \<Rightarrow> 0),
      sp_timeout_seconds = ws_timeout_seconds stage, sp_concurrency = ws_max_inflight stage,
      sp_dedup_key_field = (case ws_dedup_key_fields stage of [] \<Rightarrow> None | f # _ \<Rightarrow> Some f)\<rparr>"

record stage_metadata =
  sm_name :: string
  sm_description :: "string option"
  sm_owner :: "string option"
  sm_tags :: "string list"
  sm_expected_actions :: "string list"
  sm_concurrency_hint :: "int option"

type_synonym stage_registry = "(string \<times> stage_metadata) list"

definition metadata_from_stage :: "workflow_stage \<Rightarrow> stage_metadata" where
  "metadata_from_stage stage =
     \<lparr>sm_name = ws_name stage, sm_description = ws_description stage, sm_owner = ws_owner stage,
      sm_tags = ws_tags stage, sm_expected_actions = map as_action (ws_accepted_actions stage),
      sm_concurrency_hint = ws_max_inflight stage\<rparr>"

definition register_stage :: "stage_metadata \<Rightarrow> stage_registry \<Rightarrow> stage_registry" where
  "register_stage item items = AList.update (sm_name item) item items"

definition registry_of :: "stage_metadata list \<Rightarrow> stage_registry" where
  "registry_of items = fold (\<lambda>item. AList.update (sm_name item) item) items []"

definition registry_from_stages :: "workflow_stage list \<Rightarrow> stage_registry" where
  "registry_from_stages stages = registry_of (map metadata_from_stage stages)"

definition registry_get :: "stage_registry \<Rightarrow> string \<Rightarrow> stage_metadata option" where
  "registry_get items name = map_of items name"

definition registry_names :: "stage_registry \<Rightarrow> string list" where
  "registry_names items = map fst items"

definition registry_as_dict :: "stage_registry \<Rightarrow> dict" where
  "registry_as_dict items =
     map (\<lambda>(name, item). (name, PDict
       [(''description'', opt_val PStr (sm_description item)), (''owner'', opt_val PStr (sm_owner item)),
        (''tags'', PList (map PStr (sm_tags item))), (''expected_actions'', PList (map PStr (sm_expected_actions item))),
        (''concurrency_hint'', opt_val PInt (sm_concurrency_hint item))])) items"

subsection \<open>diagnostics.py, replay.py and actions.py\<close>

record workflow_diagnosis =
  wd_task_id :: string
  wd_status :: string
  wd_current_stage :: "string option"
  wd_reasons :: "string list"

definition explain_stall :: "workflow_run_state \<Rightarrow> workflow_diagnosis" where
  "explain_stall run =
     (let reasons = (if wrs_current_stage run = None then [''workflow has not entered a stage yet''] else []) @
            map (\<lambda>(stage_name, st). ''stage '' @ quoted stage_name @ '' is '' @ wss_status st)
              (filter (\<lambda>(stage_name, st). wss_status st \<in> {''failed'', ''retrying''}) (wrs_stages run));
          reasons = (if reasons = [] \<and> wrs_status run \<notin> {''completed'', ''failed''}
                     then [''no terminal stage observed yet''] else reasons)
      in \<lparr>wd_task_id = wrs_task_id run, wd_status = wrs_status run, wd_current_stage = wrs_current_stage run,
          wd_reasons = reasons\<rparr>)"

record replay_request =
  rr_task_id :: string
  rr_stage :: string
  rr_reason :: string
  rr_meta :: dict

definition build_replay_headers :: "replay_request \<Rightarrow> dict" where
  "build_replay_headers request =
     [(''x-relayna-replay-task-id'', PStr (rr_task_id request)), (''x-relayna-replay-stage'', PStr (rr_stage request)),
      (''x-relayna-replay-reason'', PStr (rr_reason request)), (''x-relayna-replay-meta'', PDict (rr_meta request))]"

record workflow_action =
  wa_name :: string
  wa_payload :: dict

definition validate_action_payload :: "workflow_action \<Rightarrow> action_schema option \<Rightarrow> string list" where
  "validate_action_payload action schema =
     (case schema of None \<Rightarrow> [] | Some s \<Rightarrow> validate_action_schema_payload s (wa_payload action))"

subsection \<open>Run state\<close>

text \<open>A run is a sequence of updates: the stage, the status and the message of each.\<close>

definition replay_updates :: "(string \<times> string \<times> string option) list \<Rightarrow> workflow_run_state \<Rightarrow> workflow_run_state" where
  "replay_updates events run = fold (\<lambda>(stage, status, mid). update_stage stage status mid None) events run"

definition attempts_of :: "workflow_run_state \<Rightarrow> string \<Rightarrow> int" where
  "attempts_of run stage = (case map_of (wrs_stages run) stage of Some i \<Rightarrow> wss_attempts i | None \<Rightarrow> 0)"

lemma attempts_of_update_stage:
  "attempts_of (update_stage stage status mid meta run) s = attempts_of run s + (if s = stage then 1 else 0)"
  by (auto simp: attempts_of_def update_stage_def Let_def new_stage_state_def split: option.splits)

lemma attempts_of_replay:
  "attempts_of (replay_updates events run) s = attempts_of run s + int (length (filter (\<lambda>e. fst e = s) events))"
  by (induction events arbitrary: run) (auto simp: replay_updates_def attempts_of_update_stage split: prod.splits)

lemma run_status_replay:
  "events \<noteq> [] \<Longrightarrow> wrs_status (replay_updates events run) = fst (snd (last events)) \<and>
     wrs_current_stage (replay_updates events run) = Some (fst (last events))"
  by (induction events arbitrary: run rule: rev_induct)
    (auto simp: replay_updates_def update_stage_def Let_def split: prod.splits)

lemma replay_updates_task: "wrs_task_id (replay_updates events run) = wrs_task_id run"
  by (induction events arbitrary: run) (auto simp: replay_updates_def update_stage_def Let_def split: prod.splits)

text \<open>
  A run state is an exact account of the updates it received: the attempts of a stage are
  the number of its updates, and current stage and status are those of the last update.
\<close>
theorem run_state_accounts_for_updates:
  assumes "events \<noteq> []"
  shows "attempts_of (replay_updates events (new_run_state task_id)) s = int (length (filter (\<lambda>e. fst e = s) events)) \<and>
         wrs_current_stage (replay_updates events (new_run_state task_id)) = Some (fst (last events)) \<and>
         wrs_status (replay_updates events (new_run_state task_id)) = fst (snd (last events))"
  using run_status_replay [OF assms] by (simp add: attempts_of_replay) (simp add: attempts_of_def new_run_state_def)

theorem run_state_accounts_for_updates_witness:
  "attempts_of (replay_updates [(''a'', ''failed'', None), (''a'', ''done'', None)] (new_run_state ''t'')) ''a'' =
     int (length (filter (\<lambda>e. fst e = ''a'') [(''a'', ''failed'', None :: string option), (''a'', ''done'', None)])) \<and>
   wrs_current_stage (replay_updates [(''a'', ''failed'', None), (''a'', ''done'', None)] (new_run_state ''t'')) =
     Some (fst (last [(''a'', ''failed'', None :: string option), (''a'', ''done'', None)])) \<and>
   wrs_status (replay_updates [(''a'', ''failed'', None), (''a'', ''done'', None)] (new_run_state ''t'')) =
     fst (snd (last [(''a'', ''failed'', None :: string option), (''a'', ''done'', None)]))"
  by (rule run_state_accounts_for_updates) simp

subsection \<open>Fan-in and transitions\<close>

lemma fold_fanin: "fi_completed (fold update_fanin_progress stages p) = fi_completed p \<union> set stages \<and>
    fi_expected (fold update_fanin_progress stages p) = fi_expected p"
  by (induction stages arbitrary: p) (auto simp: update_fanin_progress_def)

text \<open>
  A fan-in is complete exactly when something is expected and every expected stage was
  reported, in any order and any number of times.
\<close>
theorem fanin_complete_iff:
  "fanin_is_complete (fold update_fanin_progress stages p) \<longleftrightarrow>
     fi_expected p \<noteq> {} \<and> fi_expected p \<subseteq> fi_completed p \<union> set stages"
  by (simp add: fanin_is_complete_def fold_fanin)

lemma validate_transition_stages:
  assumes "distinct (map ws_name stages)" "s \<in> set stages"
  shows "validate_transition (ws_name s) target (map transition_rule_from_stage stages) \<longleftrightarrow>
     target \<in> set (ws_allowed_next_stages s)"
  using assms by (induction stages) (auto simp: transition_rule_from_stage_def)

lemma register_get: "registry_get (register_stage item items) name =
    (if name = sm_name item then Some item else registry_get items name)"
  by (simp add: registry_get_def register_stage_def)

end
