(* ===== verification/Redis.thy ===== *)
theory Redis
  imports Contracts "HOL-Library.Multiset"
begin

text \<open>
  The Redis server the stores talk to.  It is not part of the repository: every store
  operation takes the server as a parameter \<open>R\<close>, a record of the two ways the code calls it
  (one command, or a pipeline of commands), over an unknown state type.  What the code relies
  on is the locale \<open>redis_server\<close>: a view \<open>\<alpha>\<close> of the server's state as a keyspace with
  deadlines, on which a call that returns acts as the documentation of the command says, and a
  call that raises leaves the view as it was.  Time is in microseconds; an operation of a store
  happens at one instant \<open>now\<close>.  \<open>mem_redis\<close> is a server satisfying the laws, used for the
  concrete instances.

  Also here: the state-and-exception monad of the effectful code, and \<^verbatim>\<open>src/relayna/_redis.py\<close>.
\<close>

named_theorems io_simps \<open>equations of the state and exception monad\<close>

subsection \<open>State and exceptions\<close>

type_synonym ('s, 'a) io = "'s \<Rightarrow> 'a res \<times> 's"

definition io_return :: "'a \<Rightarrow> ('s, 'a) io" where
  "io_return x s = (Inr x, s)"

definition io_raise :: "py_error \<Rightarrow> ('s, 'a) io" where
  "io_raise e s = (Inl e, s)"

definition io_bind :: "('s, 'a) io \<Rightarrow> ('a \<Rightarrow> ('s, 'b) io) \<Rightarrow> ('s, 'b) io" where
  "io_bind m f s = (case m s of (Inl e, s') \<Rightarrow> (Inl e, s') | (Inr x, s') \<Rightarrow> f x s')"

definition io_lift :: "'a res \<Rightarrow> ('s, 'a) io" where
  "io_lift r s = (r, s)"

text \<open>\<^verbatim>\<open>try: m except Exception as e: h e\<close> and \<^verbatim>\<open>try: m finally: f\<close>.\<close>

definition io_catch :: "('s, 'a) io \<Rightarrow> (py_error \<Rightarrow> ('s, 'a) io) \<Rightarrow> ('s, 'a) io" where
  "io_catch m h s = (case m s of (Inl e, s') \<Rightarrow> h e s' | (Inr x, s') \<Rightarrow> (Inr x, s'))"

definition io_finally :: "('s, 'a) io \<Rightarrow> ('s, unit) io \<Rightarrow> ('s, 'a) io" where
  "io_finally m f s =
     (case m s of (r, s') \<Rightarrow> (case f s' of (Inl e, s'') \<Rightarrow> (Inl e, s'') | (Inr _, s'') \<Rightarrow> (r, s'')))"

fun io_map :: "('a \<Rightarrow> ('s, 'b) io) \<Rightarrow> 'a list \<Rightarrow> ('s, 'b list) io" where
  "io_map f [] = io_return []"
| "io_map f (x # xs) = io_bind (f x) (\<lambda>y. io_bind (io_map f xs) (\<lambda>ys. io_return (y # ys)))"

lemma io_bind_Inr [io_simps]:
  "io_bind m f s = (Inr y, t) \<longleftrightarrow> (\<exists>x s'. m s = (Inr x, s') \<and> f x s' = (Inr y, t))"
  by (auto simp: io_bind_def split: prod.splits sum.splits)

lemma io_bind_Inl [io_simps]:
  "io_bind m f s = (Inl e, t) \<longleftrightarrow> m s = (Inl e, t) \<or> (\<exists>x s'. m s = (Inr x, s') \<and> f x s' = (Inl e, t))"
  by (auto simp: io_bind_def split: prod.splits sum.splits)

lemma io_return_eq [io_simps]: "io_return x s = (r, t) \<longleftrightarrow> r = Inr x \<and> t = s"
  by (auto simp: io_return_def)

lemma io_raise_eq [io_simps]: "io_raise e s = (r, t) \<longleftrightarrow> r = Inl e \<and> t = s"
  by (auto simp: io_raise_def)

lemma io_lift_eq [io_simps]: "io_lift x s = (r, t) \<longleftrightarrow> x = r \<and> t = s"
  by (auto simp: io_lift_def)

subsection \<open>Commands and the keyspace\<close>

datatype redis_command =
    SET string string "int option" bool
  | GET string
  | MGET "string list"
  | DEL string
  | EXPIRE string int
  | LPUSH string string
  | LTRIM string int int
  | LRANGE string int int
  | LINDEX string int
  | LPOS string string
  | SADD string string
  | SREM string string
  | SMEMBERS string
  | ZADD string string int
  | ZREM string string
  | ZRANGEBYSCORE string int int int
  | ZREVRANGEBYSCORE string "int option" "int option" int int
  | ZREMRANGEBYSCORE string int
  | HSET string string string
  | HDEL string string
  | PUBLISH string string

datatype redis_reply =
    NilR
  | IntR int
  | BulkR string
  | ArrayR "string option list"
  | SetR "string list"

datatype redis_value =
    StrV string
  | ListV "string list"
  | SetV "string list"
  | ZSetV "(string \<times> int) list"
  | HashV "(string \<times> string) list"

text \<open>A keyspace: the value of a key and, for a volatile key, the last instant it lives.\<close>

type_synonym keyspace = "string \<Rightarrow> (redis_value \<times> int option) option"

definition live :: "int \<Rightarrow> keyspace \<Rightarrow> keyspace" where
  "live now d k =
     (case d k of Some (v, Some deadline) \<Rightarrow> if deadline < now then None else d k | _ \<Rightarrow> d k)"

definition seconds :: "int \<Rightarrow> int" where
  "seconds n = n * 1000000"

definition wrong_type :: "'a res" where
  "wrong_type = Inl (ExternalError ''WRONGTYPE'')"

definition with_str :: "int \<Rightarrow> keyspace \<Rightarrow> string \<Rightarrow> string option res" where
  "with_str now d k = (case live now d k of None \<Rightarrow> Inr None | Some (StrV s, _) \<Rightarrow> Inr (Some s) | _ \<Rightarrow> wrong_type)"

definition with_list :: "int \<Rightarrow> keyspace \<Rightarrow> string \<Rightarrow> (string list \<times> int option) res" where
  "with_list now d k = (case live now d k of None \<Rightarrow> Inr ([], None) | Some (ListV xs, t) \<Rightarrow> Inr (xs, t) | _ \<Rightarrow> wrong_type)"

definition with_set :: "int \<Rightarrow> keyspace \<Rightarrow> string \<Rightarrow> (string list \<times> int option) res" where
  "with_set now d k = (case live now d k of None \<Rightarrow> Inr ([], None) | Some (SetV xs, t) \<Rightarrow> Inr (xs, t) | _ \<Rightarrow> wrong_type)"

definition with_zset :: "int \<Rightarrow> keyspace \<Rightarrow> string \<Rightarrow> ((string \<times> int) list \<times> int option) res" where
  "with_zset now d k = (case live now d k of None \<Rightarrow> Inr ([], None) | Some (ZSetV xs, t) \<Rightarrow> Inr (xs, t) | _ \<Rightarrow> wrong_type)"

definition with_hash :: "int \<Rightarrow> keyspace \<Rightarrow> string \<Rightarrow> ((string \<times> string) list \<times> int option) res" where
  "with_hash now d k = (case live now d k of None \<Rightarrow> Inr ([], None) | Some (HashV xs, t) \<Rightarrow> Inr (xs, t) | _ \<Rightarrow> wrong_type)"

text \<open>Empty lists, sets, sorted sets and hashes do not exist as keys.\<close>

definition put_list :: "string \<Rightarrow> string list \<Rightarrow> int option \<Rightarrow> keyspace \<Rightarrow> keyspace" where
  "put_list k xs t d = d(k := if xs = [] then None else Some (ListV xs, t))"

definition put_set :: "string \<Rightarrow> string list \<Rightarrow> int option \<Rightarrow> keyspace \<Rightarrow> keyspace" where
  "put_set k xs t d = d(k := if xs = [] then None else Some (SetV xs, t))"

definition put_zset :: "string \<Rightarrow> (string \<times> int) list \<Rightarrow> int option \<Rightarrow> keyspace \<Rightarrow> keyspace" where
  "put_zset k xs t d = d(k := if xs = [] then None else Some (ZSetV xs, t))"

definition put_hash :: "string \<Rightarrow> (string \<times> string) list \<Rightarrow> int option \<Rightarrow> keyspace \<Rightarrow> keyspace" where
  "put_hash k xs t d = d(k := if xs = [] then None else Some (HashV xs, t))"

definition list_index :: "int \<Rightarrow> nat \<Rightarrow> int" where
  "list_index i n = (if i < 0 then int n + i else i)"

definition list_slice :: "int \<Rightarrow> int \<Rightarrow> 'a list \<Rightarrow> 'a list" where
  "list_slice a b xs =
     (let a = max 0 (list_index a (length xs)); b = list_index b (length xs)
      in take (nat (b + 1 - a)) (drop (nat a) xs))"

definition position :: "'a \<Rightarrow> 'a list \<Rightarrow> nat option" where
  "position x xs = (if x \<in> set xs then Some (length (takeWhile (\<lambda>y. y \<noteq> x) xs)) else None)"

text \<open>Members of a sorted set in ascending order of score, then of member.\<close>

definition by_score :: "(string \<times> int) list \<Rightarrow> (string \<times> int) list" where
  "by_score xs = sort_key snd (sort_key fst xs)"

definition window :: "int \<Rightarrow> int \<Rightarrow> 'a list \<Rightarrow> 'a list" where
  "window start num xs = (let ys = drop (nat start) xs in if num < 0 then ys else take (nat num) ys)"

definition reply_or :: "'a res \<Rightarrow> keyspace \<Rightarrow> ('a \<Rightarrow> redis_reply \<times> keyspace) \<Rightarrow> redis_reply res \<times> keyspace" where
  "reply_or r d f = (case r of Inl e \<Rightarrow> (Inl e, d) | Inr x \<Rightarrow> (case f x of (y, d') \<Rightarrow> (Inr y, d')))"

definition bool_reply :: "bool \<Rightarrow> redis_reply" where
  "bool_reply b = IntR (if b then 1 else 0)"

fun db_exec :: "int \<Rightarrow> redis_command \<Rightarrow> keyspace \<Rightarrow> redis_reply res \<times> keyspace" where
  "db_exec now (SET k v ex nx) d =
     (if (case ex of Some n \<Rightarrow> n \<le> 0 | None \<Rightarrow> False) then (Inl (ExternalError ''invalid expire time''), d)
      else if nx \<and> live now d k \<noteq> None then (Inr NilR, d)
      else (Inr (IntR 1), d(k \<mapsto> (StrV v, map_option (\<lambda>n. now + seconds n) ex))))"
| "db_exec now (GET k) d =
     reply_or (with_str now d k) d (\<lambda>v. (case v of None \<Rightarrow> NilR | Some s \<Rightarrow> BulkR s, d))"
| "db_exec now (MGET ks) d =
     (Inr (ArrayR (map (\<lambda>k. case live now d k of Some (StrV s, _) \<Rightarrow> Some s | _ \<Rightarrow> None) ks)), d)"
| "db_exec now (DEL k) d = (Inr (bool_reply (live now d k \<noteq> None)), d(k := None))"
| "db_exec now (EXPIRE k n) d =
     (case live now d k of
        None \<Rightarrow> (Inr (IntR 0), d)
      | Some (v, _) \<Rightarrow> (Inr (IntR 1), if n \<le> 0 then d(k := None) else d(k \<mapsto> (v, Some (now + seconds n)))))"
| "db_exec now (LPUSH k v) d =
     reply_or (with_list now d k) d (\<lambda>(xs, t). (IntR (int (length xs) + 1), put_list k (v # xs) t d))"
| "db_exec now (LTRIM k a b) d =
     reply_or (with_list now d k) d (\<lambda>(xs, t). (IntR 1, put_list k (list_slice a b xs) t d))"
| "db_exec now (LRANGE k a b) d =
     reply_or (with_list now d k) d (\<lambda>(xs, t). (ArrayR (map Some (list_slice a b xs)), d))"
| "db_exec now (LINDEX k i) d =
     reply_or (with_list now d k) d (\<lambda>(xs, t).
       (let j = list_index i (length xs)
        in if 0 \<le> j \<and> j < int (length xs) then BulkR (xs ! nat j) else NilR, d))"
| "db_exec now (LPOS k v) d =
     reply_or (with_list now d k) d (\<lambda>(xs, t). (case position v xs of None \<Rightarrow> NilR | Some i \<Rightarrow> IntR (int i), d))"
| "db_exec now (SADD k v) d =
     reply_or (with_set now d k) d (\<lambda>(xs, t).
       (bool_reply (v \<notin> set xs), put_set k (if v \<in> set xs then xs else v # xs) t d))"
| "db_exec now (SREM k v) d =
     reply_or (with_set now d k) d (\<lambda>(xs, t). (bool_reply (v \<in> set xs), put_set k (removeAll v xs) t d))"
| "db_exec now (SMEMBERS k) d =
     reply_or (with_set now d k) d (\<lambda>(xs, t). (SetR xs, d))"
| "db_exec now (ZADD k m score) d =
     reply_or (with_zset now d k) d (\<lambda>(xs, t).
       (bool_reply (\<not> dict_has xs m), put_zset k (AList.update m score xs) t d))"
| "db_exec now (ZREM k m) d =
     reply_or (with_zset now d k) d (\<lambda>(xs, t). (bool_reply (dict_has xs m), put_zset k (AList.delete m xs) t d))"
| "db_exec now (ZRANGEBYSCORE k hi start num) d =
     reply_or (with_zset now d k) d (\<lambda>(xs, t).
       (ArrayR (map (\<lambda>(m, _). Some m) (window start num (filter (\<lambda>(m, s). s \<le> hi) (by_score xs)))), d))"
| "db_exec now (ZREVRANGEBYSCORE k hi lo start num) d =
     reply_or (with_zset now d k) d (\<lambda>(xs, t).
       (ArrayR (map (\<lambda>(m, _). Some m) (window start num
          (filter (\<lambda>(m, s). (case hi of None \<Rightarrow> True | Some h \<Rightarrow> s \<le> h) \<and> (case lo of None \<Rightarrow> True | Some l \<Rightarrow> l \<le> s))
             (rev (by_score xs))))), d))"
| "db_exec now (ZREMRANGEBYSCORE k hi) d =
     reply_or (with_zset now d k) d (\<lambda>(xs, t).
       (IntR (int (length (filter (\<lambda>(m, s). s \<le> hi) xs))), put_zset k (filter (\<lambda>(m, s). \<not> s \<le> hi) xs) t d))"
| "db_exec now (HSET k f v) d =
     reply_or (with_hash now d k) d (\<lambda>(xs, t). (bool_reply (\<not> dict_has xs f), put_hash k (AList.update f v xs) t d))"
| "db_exec now (HDEL k f) d =
     reply_or (with_hash now d k) d (\<lambda>(xs, t). (bool_reply (dict_has xs f), put_hash k (AList.delete f xs) t d))"
| "db_exec now (PUBLISH channel message) d = (Inr (IntR 0), d)"

text \<open>A transaction runs all its commands; the call raises the first error among the replies.\<close>

fun db_run :: "int \<Rightarrow> redis_command list \<Rightarrow> keyspace \<Rightarrow> redis_reply res list \<times> keyspace" where
  "db_run now [] d = ([], d)"
| "db_run now (c # cs) d = (case db_exec now c d of (r, d') \<Rightarrow> (case db_run now cs d' of (rs, d'') \<Rightarrow> (r # rs, d'')))"

definition db_pipe :: "int \<Rightarrow> redis_command list \<Rightarrow> keyspace \<Rightarrow> redis_reply list res \<times> keyspace" where
  "db_pipe now cs d = (case db_run now cs d of (rs, d') \<Rightarrow> (map_res id rs, d'))"

subsection \<open>The server\<close>

record 'r redis =
  exec :: "int \<Rightarrow> redis_command \<Rightarrow> ('r, redis_reply) io"
  pipeline :: "int \<Rightarrow> redis_command list \<Rightarrow> ('r, redis_reply list) io"

text \<open>The order in which \<^verbatim>\<open>SMEMBERS\<close> lists a set is not specified.\<close>

fun same_reply :: "redis_reply \<Rightarrow> redis_reply \<Rightarrow> bool" where
  "same_reply (SetR xs) (SetR ys) = (mset xs = mset ys)"
| "same_reply a b = (a = b)"

definition same_result :: "redis_reply res \<Rightarrow> redis_reply res \<Rightarrow> bool" where
  "same_result a b = (case (a, b) of (Inr x, Inr y) \<Rightarrow> same_reply x y | (Inl e, Inl f) \<Rightarrow> e = f | _ \<Rightarrow> False)"

locale redis_server =
  fixes R :: "'r redis" and \<alpha> :: "'r \<Rightarrow> keyspace"
  assumes exec_law: "exec R now c r = (x, r') \<Longrightarrow>
      (same_result x (fst (db_exec now c (\<alpha> r))) \<and> \<alpha> r' = snd (db_exec now c (\<alpha> r))) \<or>
      (isl x \<and> \<alpha> r' = \<alpha> r)"
    and pipeline_law: "pipeline R now cs r = (xs, r') \<Longrightarrow>
      (xs, \<alpha> r') = db_pipe now cs (\<alpha> r) \<or> (isl xs \<and> \<alpha> r' = \<alpha> r)"
begin

lemma exec_Inr:
  assumes "exec R now c r = (Inr x, r')"
  shows "\<exists>y. db_exec now c (\<alpha> r) = (Inr y, \<alpha> r') \<and> same_reply x y"
  using exec_law [OF assms]
  by (cases "db_exec now c (\<alpha> r)") (auto simp: same_result_def split: sum.splits)

lemma exec_plain:
  assumes "exec R now c r = (Inr x, r')" "db_exec now c (\<alpha> r) = (res, d)" "\<And>xs. x \<noteq> SetR xs"
  shows "res = Inr x \<and> \<alpha> r' = d"
proof -
  obtain y where "db_exec now c (\<alpha> r) = (Inr y, \<alpha> r')" "same_reply x y" using exec_Inr [OF assms(1)] by blast
  moreover have "x = y" using \<open>same_reply x y\<close> assms(3) by (cases x; cases y) auto
  ultimately show ?thesis using assms(2) by auto
qed

lemma exec_Inl_unchanged:
  assumes "exec R now c r = (Inl e, r')" "\<not> isl (fst (db_exec now c (\<alpha> r)))"
  shows "\<alpha> r' = \<alpha> r"
  using exec_law [OF assms(1)] assms(2) by (auto simp: same_result_def split: sum.splits)

lemma pipeline_Inr: "pipeline R now cs r = (Inr xs, r') \<Longrightarrow> db_pipe now cs (\<alpha> r) = (Inr xs, \<alpha> r')"
  using pipeline_law by fastforce

end

definition mem_redis :: "keyspace redis" where
  "mem_redis = \<lparr>exec = db_exec, pipeline = db_pipe\<rparr>"

lemma same_result_refl [simp]: "same_result x x"
proof -
  have "same_reply y y" for y by (cases y) auto
  then show ?thesis by (simp add: same_result_def split: sum.splits)
qed

interpretation mem_redis: redis_server mem_redis id
  by unfold_locales (auto simp: mem_redis_def)

definition redis_key :: "(string \<Rightarrow> string) \<Rightarrow> string \<Rightarrow> string \<Rightarrow> string list \<Rightarrow> string" where
  "redis_key sha prefix slot segments =
     ''{relayna:'' @ take 16 (sha (prefix @ [CHR 0x1F] @ slot)) @ ''}:'' @ prefix @ '':'' @ join '':'' segments"

text \<open>The text of a reply, its truth value and its list of texts, as the client sees them.\<close>

definition bad_reply :: "'a res" where
  "bad_reply = Inl (ExternalError ''unexpected reply'')"

definition reply_true :: "redis_reply \<Rightarrow> bool" where
  "reply_true r = (case r of NilR \<Rightarrow> False | IntR n \<Rightarrow> n \<noteq> 0 | BulkR s \<Rightarrow> s \<noteq> [] | ArrayR xs \<Rightarrow> xs \<noteq> [] | SetR xs \<Rightarrow> xs \<noteq> [])"

definition reply_text :: "redis_reply \<Rightarrow> string option res" where
  "reply_text r = (case r of NilR \<Rightarrow> Inr None | BulkR s \<Rightarrow> Inr (Some s) | _ \<Rightarrow> bad_reply)"

definition reply_texts :: "redis_reply \<Rightarrow> string option list res" where
  "reply_texts r = (case r of ArrayR xs \<Rightarrow> Inr xs | SetR xs \<Rightarrow> Inr (map Some xs) | _ \<Rightarrow> bad_reply)"

definition reply_int :: "redis_reply \<Rightarrow> int res" where
  "reply_int r = (case r of IntR n \<Rightarrow> Inr n | _ \<Rightarrow> bad_reply)"

definition present :: "'a option list \<Rightarrow> 'a list" where
  "present xs = map the (filter (\<lambda>x. x \<noteq> None) xs)"

subsection \<open>What a command can change\<close>

fun keys_of :: "redis_command \<Rightarrow> string set" where
  "keys_of (SET k v ex nx) = {k}"
| "keys_of (GET k) = {}"
| "keys_of (MGET ks) = {}"
| "keys_of (DEL k) = {k}"
| "keys_of (EXPIRE k n) = {k}"
| "keys_of (LPUSH k v) = {k}"
| "keys_of (LTRIM k a b) = {k}"
| "keys_of (LRANGE k a b) = {}"
| "keys_of (LINDEX k i) = {}"
| "keys_of (LPOS k v) = {}"
| "keys_of (SADD k v) = {k}"
| "keys_of (SREM k v) = {k}"
| "keys_of (SMEMBERS k) = {}"
| "keys_of (ZADD k m s) = {k}"
| "keys_of (ZREM k m) = {k}"
| "keys_of (ZRANGEBYSCORE k hi a n) = {}"
| "keys_of (ZREVRANGEBYSCORE k hi lo a n) = {}"
| "keys_of (ZREMRANGEBYSCORE k hi) = {k}"
| "keys_of (HSET k f v) = {k}"
| "keys_of (HDEL k f) = {k}"
| "keys_of (PUBLISH ch m) = {}"

lemmas put_defs = put_list_def put_set_def put_zset_def put_hash_def

lemma reply_or_snd: "snd (reply_or r d f) = (case r of Inl _ \<Rightarrow> d | Inr x \<Rightarrow> snd (f x))"
  by (auto simp: reply_or_def split: sum.splits prod.splits)

lemma db_exec_frame: "k \<notin> keys_of c \<Longrightarrow> snd (db_exec now c d) k = d k"
  by (cases c) (auto simp: reply_or_snd put_defs split: sum.splits option.splits prod.splits)

lemma db_run_frame: "\<forall>c \<in> set cs. k \<notin> keys_of c \<Longrightarrow> snd (db_run now cs d) k = d k"
proof (induction cs arbitrary: d)
  case (Cons c cs)
  have "snd (db_run now (c # cs) d) = snd (db_run now cs (snd (db_exec now c d)))"
    by (simp split: prod.splits)
  then show ?case using Cons db_exec_frame [of k c now d] by simp
qed simp

lemma db_pipe_frame: "\<forall>c \<in> set cs. k \<notin> keys_of c \<Longrightarrow> snd (db_pipe now cs d) k = d k"
  using db_run_frame [of cs k now d] by (cases "db_run now cs d") (simp add: db_pipe_def)

lemma live_frame: "d k = d' k \<Longrightarrow> live now d k = live now d' k"
  by (simp add: live_def split: option.splits prod.splits)

lemma db_run_append: "db_run now (cs @ ds) d =
    (case db_run now cs d of (rs, d') \<Rightarrow> (case db_run now ds d' of (ss, d'') \<Rightarrow> (rs @ ss, d'')))"
  by (induction cs arbitrary: d) (auto split: prod.splits)

lemma db_run_length: "length (fst (db_run now cs d)) = length cs"
  by (induction cs arbitrary: d) (auto split: prod.splits, metis fst_conv)

lemma live_upd: "live now (d(k := Some (v, t))) k = (case t of Some x \<Rightarrow> if x < now then None else Some (v, t) | None \<Rightarrow> Some (v, t))"
  by (simp add: live_def split: option.splits)

lemma live_Some: "live now d k = Some (v, Some x) \<Longrightarrow> now \<le> x"
  by (auto simp: live_def split: option.splits prod.splits if_splits)

lemma live_other [simp]: "k \<noteq> k' \<Longrightarrow> live now (d(k := v)) k' = live now d k'"
  by (simp add: live_def split: option.splits prod.splits)

lemma with_list_frame: "d k = d' k \<Longrightarrow> with_list now d k = with_list now d' k"
  unfolding with_list_def by (drule live_frame [of d k d' now]) simp

lemma with_list_alive: "with_list now d k = Inr (xs, Some b) \<Longrightarrow> now \<le> b"
proof -
  assume "with_list now d k = Inr (xs, Some b)"
  then have "live now d k = Some (ListV xs, Some b)"
    by (auto simp: with_list_def wrong_type_def split: option.splits redis_value.splits)
  then show ?thesis by (rule live_Some)
qed

lemma live_put_list:
  "xs \<noteq> [] \<Longrightarrow> (\<And>b. t = Some b \<Longrightarrow> now \<le> b) \<Longrightarrow> live now (put_list k xs t d) k = Some (ListV xs, t)"
  by (auto simp: put_list_def live_upd split: option.splits)

lemma with_list_put:
  "xs \<noteq> [] \<Longrightarrow> (\<And>b. t = Some b \<Longrightarrow> now \<le> b) \<Longrightarrow> with_list now (put_list k xs t d) k = Inr (xs, t)"
  by (simp add: with_list_def live_put_list)

text \<open>Pushing, trimming and refreshing the deadline of a list.\<close>

lemma push_trim_expire:
  assumes "with_list now d k = Inr (xs, t)" "list_slice 0 m (v # xs) \<noteq> []"
    and "es = [] \<or> (\<exists>n > 0. es = [EXPIRE k n])"
  shows "\<exists>t'. with_list now (snd (db_run now ([LPUSH k v, LTRIM k 0 m] @ es) d)) k = Inr (list_slice 0 m (v # xs), t')"
proof -
  define d1 where "d1 = put_list k (v # xs) t d"
  define d2 where "d2 = put_list k (list_slice 0 m (v # xs)) t d1"
  have t: "now \<le> b" if "t = Some b" for b using with_list_alive assms(1) that by blast
  have 1: "snd (db_exec now (LPUSH k v) d) = d1" by (simp add: assms(1) reply_or_def d1_def)
  have "with_list now d1 k = Inr (v # xs, t)" unfolding d1_def by (rule with_list_put) (auto intro: t)
  then have 2: "snd (db_exec now (LTRIM k 0 m) d1) = d2" by (simp add: reply_or_def d2_def)
  have run: "snd (db_run now ([LPUSH k v, LTRIM k 0 m] @ es) d) = snd (db_run now es d2)"
    using 1 2 by (auto simp: split: prod.splits)
  have l2: "live now d2 k = Some (ListV (list_slice 0 m (v # xs)), t)"
    unfolding d2_def by (rule live_put_list) (auto intro: t simp: assms(2))
  from assms(3) show ?thesis
  proof
    assume "es = []"
    then show ?thesis unfolding run using l2 by (simp add: with_list_def)
  next
    assume "\<exists>n > 0. es = [EXPIRE k n]"
    then obtain n where n: "n > 0" "es = [EXPIRE k n]" by blast
    then show ?thesis unfolding run using l2 by (simp add: with_list_def live_upd seconds_def)
  qed
qed

text \<open>Digests of one length keep keys of different slots apart when their segments differ.\<close>

lemma redis_key_segments:
  assumes "length (sha (prefix @ [CHR 0x1F] @ slot)) = length (sha (prefix @ [CHR 0x1F] @ slot'))"
    and "redis_key sha prefix slot as = redis_key sha prefix slot' bs"
  shows "join '':'' as = join '':'' bs"
proof -
  have 1: "take 16 (sha (prefix @ [CHR 0x1F] @ slot)) @ (''}:'' @ prefix @ '':'' @ join '':'' as) =
      take 16 (sha (prefix @ [CHR 0x1F] @ slot')) @ (''}:'' @ prefix @ '':'' @ join '':'' bs)"
    using assms(2) by (simp add: redis_key_def)
  have 2: "length (take 16 (sha (prefix @ [CHR 0x1F] @ slot))) = length (take 16 (sha (prefix @ [CHR 0x1F] @ slot')))"
    using assms(1) by simp
  have "''}:'' @ prefix @ '':'' @ join '':'' as = ''}:'' @ prefix @ '':'' @ join '':'' bs"
    using iffD1 [OF append_eq_append_conv [OF disjI1 [OF 2]] 1] by (rule conjunct2)
  then show ?thesis by simp
qed

lemma redis_key_slot_inj [simp]:
  "redis_key sha prefix slot as = redis_key sha prefix slot bs \<longleftrightarrow> join '':'' as = join '':'' bs"
  by (simp add: redis_key_def)

context redis_server
begin

lemma pipeline_frame:
  assumes "pipeline R now cs r = (xs, r')" "\<forall>c \<in> set cs. k \<notin> keys_of c"
  shows "\<alpha> r' k = \<alpha> r k"
  using pipeline_law [OF assms(1)] db_pipe_frame [OF assms(2), of now "\<alpha> r"] by (metis snd_conv)

lemma exec_frame:
  assumes "exec R now c r = (x, r')" "k \<notin> keys_of c"
  shows "\<alpha> r' k = \<alpha> r k"
  using exec_law [OF assms(1)] db_exec_frame [OF assms(2), of now "\<alpha> r"] by auto

lemma exec_read:
  assumes "exec R now c r = (x, r')" "keys_of c = {}"
  shows "\<alpha> r' = \<alpha> r"
  using exec_frame [OF assms(1)] assms(2) by auto

lemma exec_set:
  assumes "exec R now (SET k v ex nx) r = (Inr x, r')"
  shows "if nx \<and> live now (\<alpha> r) k \<noteq> None then x = NilR \<and> \<alpha> r' = \<alpha> r
         else x = IntR 1 \<and> \<alpha> r' = (\<alpha> r)(k \<mapsto> (StrV v, map_option (\<lambda>n. now + seconds n) ex))"
  using exec_Inr [OF assms] by (cases x) (auto split: if_splits)

lemma exec_get:
  assumes "exec R now (GET k) r = (Inr x, r')"
  shows "\<alpha> r' = \<alpha> r \<and>
    ((live now (\<alpha> r) k = None \<and> x = NilR) \<or> (\<exists>s t. live now (\<alpha> r) k = Some (StrV s, t) \<and> x = BulkR s))"
  using exec_Inr [OF assms]
  by (cases x) (auto simp: reply_or_def with_str_def wrong_type_def split: sum.splits option.splits redis_value.splits prod.splits)

lemma exec_mget:
  assumes "exec R now (MGET ks) r = (Inr x, r')"
  shows "\<alpha> r' = \<alpha> r \<and> x = ArrayR (map (\<lambda>k. case live now (\<alpha> r) k of Some (StrV s, _) \<Rightarrow> Some s | _ \<Rightarrow> None) ks)"
  using exec_Inr [OF assms] by (cases x) auto

end

end
