(* ===== verification/Lease_Store.thy ===== *)
theory Lease_Store
  imports Redis
begin

text \<open>
  \<^verbatim>\<open>storage/task_lease_store.py\<close>: the Redis task lease store and the expiry scanner.  The
  store is a record of what the object holds: the Redis client, the key prefix, the digest
  of \<^verbatim>\<open>hashlib\<close> and pydantic's conversion of a lease to and from JSON text.  A lease key
  lives for whole seconds, so lease times matter: instants are microseconds.
\<close>

datatype lease_recovery_action = OBSERVE_ONLY | PUBLISH_STALE_STATUS | LR_REQUEUE | LR_RETRY | LR_DEAD_LETTER

fun lease_recovery_value :: "lease_recovery_action \<Rightarrow> string" where
  "lease_recovery_value OBSERVE_ONLY = ''observe_only''"
| "lease_recovery_value PUBLISH_STALE_STATUS = ''publish_stale_status''"
| "lease_recovery_value LR_REQUEUE = ''requeue''"
| "lease_recovery_value LR_RETRY = ''retry''"
| "lease_recovery_value LR_DEAD_LETTER = ''dead_letter''"

record task_lease =
  tl_lease_id :: string
  tl_task_id :: string
  tl_owner_id :: string
  tl_consumer_name :: string
  tl_acquired_at :: int
  tl_heartbeat_at :: int
  tl_expires_at :: int
  tl_message_id :: "string option"
  tl_task_type :: "string option"
  tl_workflow_id :: "string option"
  tl_stage :: "string option"
  tl_attempt :: int
  tl_recovery_action :: lease_recovery_action

definition lease_expired :: "int \<Rightarrow> task_lease \<Rightarrow> bool" where
  "lease_expired now lease = (tl_expires_at lease \<le> now)"

record 'r lease_store =
  ls_redis :: "'r redis"
  ls_prefix :: string
  ls_sha :: "string \<Rightarrow> string"
  ls_dump :: "task_lease \<Rightarrow> string"
  ls_load :: "string \<Rightarrow> task_lease res"

definition lease_key :: "'r lease_store \<Rightarrow> string \<Rightarrow> string" where
  "lease_key S lease_id = redis_key (ls_sha S) (ls_prefix S) ''task-leases'' [''lease'', ''task'', lease_id]"

definition owner_key :: "'r lease_store \<Rightarrow> string \<Rightarrow> string" where
  "owner_key S owner_id = redis_key (ls_sha S) (ls_prefix S) ''task-leases'' [''lease'', ''owner'', owner_id]"

definition expiries_key :: "'r lease_store \<Rightarrow> string" where
  "expiries_key S = redis_key (ls_sha S) (ls_prefix S) ''task-leases'' [''lease'', ''expiries'']"

definition expired_claims_key :: "'r lease_store \<Rightarrow> string" where
  "expired_claims_key S = redis_key (ls_sha S) (ls_prefix S) ''task-leases'' [''lease'', ''expired_claims'']"

definition lease_ttl :: "int \<Rightarrow> int \<Rightarrow> int" where
  "lease_ttl now expires_at = max 1 ((expires_at - now) div 1000000)"

definition acquire :: "'r lease_store \<Rightarrow> int \<Rightarrow> task_lease \<Rightarrow> ('r, bool) io" where
  "acquire S now lease =
     io_bind (exec (ls_redis S) now (SET (lease_key S (tl_lease_id lease)) (ls_dump S lease)
                (Some (lease_ttl now (tl_expires_at lease))) True)) (\<lambda>acquired.
     if \<not> reply_true acquired then io_return False
     else io_bind (pipeline (ls_redis S) now
            [SREM (expired_claims_key S) (tl_lease_id lease),
             SADD (owner_key S (tl_owner_id lease)) (tl_lease_id lease),
             ZADD (expiries_key S) (tl_lease_id lease) (tl_expires_at lease)]) (\<lambda>_. io_return True))"

definition load_payload :: "'r lease_store \<Rightarrow> string option \<Rightarrow> task_lease option res" where
  "load_payload S payload =
     (case payload of None \<Rightarrow> Inr None | Some p \<Rightarrow> bind_res (ls_load S p) (\<lambda>l. Inr (Some l)))"

definition lease_get :: "'r lease_store \<Rightarrow> int \<Rightarrow> string \<Rightarrow> ('r, task_lease option) io" where
  "lease_get S now lease_id =
     io_bind (exec (ls_redis S) now (GET (lease_key S lease_id))) (\<lambda>reply.
     io_bind (io_lift (reply_text reply)) (\<lambda>payload. io_lift (load_payload S payload)))"

definition heartbeat :: "'r lease_store \<Rightarrow> int \<Rightarrow> string \<Rightarrow> string \<Rightarrow> int \<Rightarrow> ('r, task_lease option) io" where
  "heartbeat S now lease_id owner_id expires_at =
     io_bind (lease_get S now lease_id) (\<lambda>current.
     case current of
       None \<Rightarrow> io_return None
     | Some lease \<Rightarrow>
         if tl_owner_id lease \<noteq> owner_id then io_return None
         else let updated = lease\<lparr>tl_heartbeat_at := now, tl_expires_at := expires_at\<rparr>
              in io_bind (pipeline (ls_redis S) now
                   [SET (lease_key S lease_id) (ls_dump S updated) (Some (lease_ttl now expires_at)) False,
                    ZADD (expiries_key S) lease_id expires_at]) (\<lambda>_. io_return (Some updated)))"

definition release :: "'r lease_store \<Rightarrow> int \<Rightarrow> string \<Rightarrow> string \<Rightarrow> ('r, bool) io" where
  "release S now lease_id owner_id =
     io_bind (lease_get S now lease_id) (\<lambda>current.
     case current of
       None \<Rightarrow> io_return False
     | Some lease \<Rightarrow>
         if tl_owner_id lease \<noteq> owner_id then io_return False
         else io_bind (pipeline (ls_redis S) now
                [DEL (lease_key S lease_id), SREM (owner_key S owner_id) lease_id,
                 ZREM (expiries_key S) lease_id, SREM (expired_claims_key S) lease_id])
                (\<lambda>_. io_return True))"

definition list_by_owner :: "'r lease_store \<Rightarrow> int \<Rightarrow> string \<Rightarrow> ('r, task_lease list) io" where
  "list_by_owner S now owner_id =
     io_bind (exec (ls_redis S) now (SMEMBERS (owner_key S owner_id))) (\<lambda>reply.
     io_bind (io_lift (reply_texts reply)) (\<lambda>ids.
     if present ids = [] then io_return []
     else io_bind (exec (ls_redis S) now (MGET (map (lease_key S) (present ids)))) (\<lambda>reply.
          io_bind (io_lift (reply_texts reply)) (\<lambda>payloads.
            io_lift (map_res (ls_load S) (present payloads))))))"

text \<open>
  The classification loop of \<^verbatim>\<open>claim_expired\<close>: for each claimed id and its payload the
  commands of the clean-up pipeline, and the leases found expired.
\<close>

definition claim_outcome ::
  "'r lease_store \<Rightarrow> int \<Rightarrow> string \<Rightarrow> task_lease option \<Rightarrow> redis_command list \<times> task_lease list" where
  "claim_outcome S now lease_id lease =
     (case lease of
        None \<Rightarrow> ([ZREM (expiries_key S) lease_id, SREM (expired_claims_key S) lease_id], [])
      | Some l \<Rightarrow>
          if now < tl_expires_at l
          then ([ZREM (expiries_key S) lease_id, ZADD (expiries_key S) lease_id (tl_expires_at l),
                 SREM (expired_claims_key S) lease_id], [])
          else ([ZREM (expiries_key S) lease_id], [l]))"

definition classify_claim ::
  "'r lease_store \<Rightarrow> int \<Rightarrow> string \<times> string option \<Rightarrow> (redis_command list \<times> task_lease list) res" where
  "classify_claim S now claim =
     bind_res (load_payload S (snd claim)) (\<lambda>lease. Inr (claim_outcome S now (fst claim) lease))"

text \<open>
  The process and the Redis server share one clock, here as in the other operations.  The instant
  \<open>now\<close> by which a caller wants leases to be expired is an argument of its own: without it
  the clock is taken, with it the scan may look ahead or back while Redis goes on with its clock.
\<close>

definition claim_expired :: "'r lease_store \<Rightarrow> int \<Rightarrow> int option \<Rightarrow> int \<Rightarrow> ('r, task_lease list) io" where
  "claim_expired S clock asked limit =
     (let now = (case asked of Some instant \<Rightarrow> instant | None \<Rightarrow> clock) in
     io_bind (exec (ls_redis S) clock (ZRANGEBYSCORE (expiries_key S) now 0 limit)) (\<lambda>reply.
     io_bind (io_lift (reply_texts reply)) (\<lambda>raw_ids.
     let lease_ids = present raw_ids in
     if lease_ids = [] then io_return []
     else io_bind (pipeline (ls_redis S) clock (map (SADD (expired_claims_key S)) lease_ids)) (\<lambda>claim_results.
     if length claim_results \<noteq> length lease_ids then io_raise (ValueError ''zip() arguments have different lengths'')
     else
       let claimed_ids = map fst (filter (\<lambda>(i, c). reply_true c) (zip lease_ids claim_results)) in
       if claimed_ids = [] then io_return []
       else io_bind (exec (ls_redis S) clock (MGET (map (lease_key S) claimed_ids))) (\<lambda>reply.
            io_bind (io_lift (reply_texts reply)) (\<lambda>payloads.
            if length payloads \<noteq> length claimed_ids then io_raise (ValueError ''zip() arguments have different lengths'')
            else io_bind (io_lift (map_res (classify_claim S now) (zip claimed_ids payloads))) (\<lambda>parts.
                 io_bind (pipeline (ls_redis S) clock (concat (map fst parts))) (\<lambda>_.
                   io_return (concat (map snd parts))))))))))"

definition release_expired_claim :: "'r lease_store \<Rightarrow> int \<Rightarrow> string \<Rightarrow> bool \<Rightarrow> ('r, unit) io" where
  "release_expired_claim S now lease_id retry =
     io_bind (lease_get S now lease_id) (\<lambda>lease.
     io_bind (pipeline (ls_redis S) now
       ((case lease of
           Some l \<Rightarrow> if retry then [ZADD (expiries_key S) lease_id (tl_expires_at l)] else []
         | None \<Rightarrow> []) @ [SREM (expired_claims_key S) lease_id])) (\<lambda>_. io_return ()))"

definition publishes_stale :: "lease_recovery_action \<Rightarrow> bool" where
  "publishes_stale a = (a \<in> {PUBLISH_STALE_STATUS, LR_REQUEUE, LR_RETRY, LR_DEAD_LETTER})"

fun publish_stale :: "'r lease_store \<Rightarrow> int \<Rightarrow> (task_lease \<Rightarrow> ('r, unit) io) \<Rightarrow> task_lease list \<Rightarrow> ('r, unit) io" where
  "publish_stale S now publisher [] = io_return ()"
| "publish_stale S now publisher (lease # leases) =
     io_bind (if publishes_stale (tl_recovery_action lease)
              then io_catch (publisher lease) (\<lambda>_. release_expired_claim S now (tl_lease_id lease) True)
              else io_return ()) (\<lambda>_. publish_stale S now publisher leases)"

definition scan_once ::
  "'r lease_store \<Rightarrow> int \<Rightarrow> int \<Rightarrow> (task_lease \<Rightarrow> ('r, unit) io) option \<Rightarrow> ('r, task_lease list) io" where
  "scan_once S now batch_size status_publisher =
     io_bind (claim_expired S now None batch_size) (\<lambda>expired.
     case status_publisher of
       None \<Rightarrow> io_return expired
     | Some publisher \<Rightarrow> io_bind (publish_stale S now publisher expired) (\<lambda>_. io_return expired))"

text \<open>Instants of a health entry are microseconds.\<close>

definition task_leases_for_health :: "int \<Rightarrow> task_lease list \<Rightarrow> dict list" where
  "task_leases_for_health now leases =
     map (\<lambda>l. [(''lease_id'', PStr (tl_lease_id l)), (''task_id'', PStr (tl_task_id l)),
               (''message_id'', case tl_message_id l of Some s \<Rightarrow> PStr s | None \<Rightarrow> PNone),
               (''task_type'', case tl_task_type l of Some s \<Rightarrow> PStr s | None \<Rightarrow> PNone),
               (''stage'', case tl_stage l of Some s \<Rightarrow> PStr s | None \<Rightarrow> PNone),
               (''owner_id'', PStr (tl_owner_id l)), (''consumer_name'', PStr (tl_consumer_name l)),
               (''attempt'', PInt (tl_attempt l)), (''acquired_at'', PInt (tl_acquired_at l)),
               (''heartbeat_at'', PInt (tl_heartbeat_at l)), (''expires_at'', PInt (tl_expires_at l)),
               (''expired'', PBool (lease_expired now l)),
               (''recovery_action'', PStr (lease_recovery_value (tl_recovery_action l)))]) leases"

subsection \<open>Keys\<close>

lemma lease_keys_apart [simp]:
  "lease_key S i = lease_key S j \<longleftrightarrow> i = j"
  "lease_key S i \<noteq> owner_key S j" "owner_key S j \<noteq> lease_key S i"
  "lease_key S i \<noteq> expiries_key S" "expiries_key S \<noteq> lease_key S i"
  "lease_key S i \<noteq> expired_claims_key S" "expired_claims_key S \<noteq> lease_key S i"
  "expiries_key S \<noteq> expired_claims_key S" "expired_claims_key S \<noteq> expiries_key S"
  "owner_key S j \<noteq> expiries_key S" "owner_key S j \<noteq> expired_claims_key S"
  "expiries_key S \<noteq> owner_key S j" "expired_claims_key S \<noteq> owner_key S j"
  by (simp_all add: lease_key_def owner_key_def expiries_key_def expired_claims_key_def)

text \<open>
  What a store relies on is its Redis server.  That pydantic reads back the lease it wrote is
  a hypothesis of the theorems that need it.
\<close>

locale lease_backend = redis_server "ls_redis S" \<alpha> for S :: "'r lease_store" and \<alpha> :: "'r \<Rightarrow> keyspace"
begin

lemma acquire_ok:
  assumes "acquire S now l r = (Inr b, r')"
  shows "b \<longleftrightarrow> live now (\<alpha> r) (lease_key S (tl_lease_id l)) = None"
    and "\<alpha> r' (lease_key S i) = (if b \<and> i = tl_lease_id l
           then Some (StrV (ls_dump S l), Some (now + seconds (lease_ttl now (tl_expires_at l)))) else \<alpha> r (lease_key S i))"
proof -
  from assms obtain x r1 where set: "exec (ls_redis S) now (SET (lease_key S (tl_lease_id l)) (ls_dump S l)
      (Some (lease_ttl now (tl_expires_at l))) True) r = (Inr x, r1)"
    and rest: "(if \<not> reply_true x then io_return False
     else io_bind (pipeline (ls_redis S) now
            [SREM (expired_claims_key S) (tl_lease_id l), SADD (owner_key S (tl_owner_id l)) (tl_lease_id l),
             ZADD (expiries_key S) (tl_lease_id l) (tl_expires_at l)]) (\<lambda>_. io_return True)) r1 = (Inr b, r')"
    by (auto simp: acquire_def io_simps)
  have b: "b \<longleftrightarrow> reply_true x" using rest by (auto simp: io_simps split: if_splits)
  have frame: "\<alpha> r' (lease_key S i) = \<alpha> r1 (lease_key S i)" for i
    using rest by (auto simp: io_simps split: if_splits dest!: pipeline_frame [where k = "lease_key S i"])
  show "b \<longleftrightarrow> live now (\<alpha> r) (lease_key S (tl_lease_id l)) = None"
    using exec_set [OF set] by (cases "live now (\<alpha> r) (lease_key S (tl_lease_id l))") (auto simp: b reply_true_def)
  then show "\<alpha> r' (lease_key S i) = (if b \<and> i = tl_lease_id l
           then Some (StrV (ls_dump S l), Some (now + seconds (lease_ttl now (tl_expires_at l)))) else \<alpha> r (lease_key S i))"
    using exec_set [OF set] by (auto simp: b frame split: if_splits)
qed

lemma lease_get_ok:
  assumes "lease_get S now i r = (Inr x, r')"
  shows "\<alpha> r' = \<alpha> r \<and>
    (case x of None \<Rightarrow> live now (\<alpha> r) (lease_key S i) = None
     | Some l \<Rightarrow> \<exists>p t. live now (\<alpha> r) (lease_key S i) = Some (StrV p, t) \<and> ls_load S p = Inr l)"
proof -
  from assms obtain y p where get: "exec (ls_redis S) now (GET (lease_key S i)) r = (Inr y, r')"
    and "reply_text y = Inr p" "load_payload S p = Inr x"
    by (auto simp: lease_get_def io_simps)
  then show ?thesis using exec_get [OF get]
    by (auto simp: reply_text_def load_payload_def split: option.splits)
qed

lemma release_other_owner:
  assumes "release S now i owner r = (Inr b, r')"
  shows "(b \<longrightarrow> (\<exists>p t l. live now (\<alpha> r) (lease_key S i) = Some (StrV p, t) \<and> ls_load S p = Inr l \<and> tl_owner_id l = owner)) \<and>
         (\<not> b \<longrightarrow> \<alpha> r' = \<alpha> r)"
proof -
  from assms obtain c r1 where get: "lease_get S now i r = (Inr c, r1)"
    and rest: "(case c of None \<Rightarrow> io_return False | Some lease \<Rightarrow>
         if tl_owner_id lease \<noteq> owner then io_return False
         else io_bind (pipeline (ls_redis S) now
                [DEL (lease_key S i), SREM (owner_key S owner) i,
                 ZREM (expiries_key S) i, SREM (expired_claims_key S) i]) (\<lambda>_. io_return True)) r1 = (Inr b, r')"
    by (auto simp: release_def io_simps)
  show ?thesis using lease_get_ok [OF get] rest by (cases c) (auto simp: io_simps split: if_splits)
qed

lemma heartbeat_other_owner:
  assumes "heartbeat S now i owner e r = (Inr x, r')"
  shows "(x = None \<longrightarrow> \<alpha> r' = \<alpha> r) \<and>
         (\<forall>u. x = Some u \<longrightarrow> (\<exists>p t l. live now (\<alpha> r) (lease_key S i) = Some (StrV p, t) \<and> ls_load S p = Inr l \<and>
             tl_owner_id l = owner \<and> u = l\<lparr>tl_heartbeat_at := now, tl_expires_at := e\<rparr>))"
proof -
  from assms obtain c r1 where get: "lease_get S now i r = (Inr c, r1)"
    and rest: "(case c of None \<Rightarrow> io_return None | Some lease \<Rightarrow>
         if tl_owner_id lease \<noteq> owner then io_return None
         else let updated = lease\<lparr>tl_heartbeat_at := now, tl_expires_at := e\<rparr>
              in io_bind (pipeline (ls_redis S) now
                   [SET (lease_key S i) (ls_dump S updated) (Some (lease_ttl now e)) False,
                    ZADD (expiries_key S) i e]) (\<lambda>_. io_return (Some updated))) r1 = (Inr x, r')"
    by (auto simp: heartbeat_def io_simps)
  show ?thesis using lease_get_ok [OF get] rest by (cases c) (auto simp: io_simps Let_def split: if_splits)
qed

lemma claim_outcome_found:
  "x \<in> set (snd (claim_outcome S now i lease)) \<Longrightarrow> lease = Some x \<and> tl_expires_at x \<le> now"
  by (cases lease) (auto simp: claim_outcome_def split: if_splits)

lemma classify_claim_found:
  assumes "classify_claim S now ip = Inr part" "x \<in> set (snd part)"
  shows "\<exists>p. snd ip = Some p \<and> ls_load S p = Inr x \<and> tl_expires_at x \<le> now"
proof -
  obtain lease where "load_payload S (snd ip) = Inr lease" "part = claim_outcome S now (fst ip) lease"
    using assms(1) by (auto simp: classify_claim_def)
  with claim_outcome_found [of x now "fst ip" lease] assms(2) show ?thesis
    by (auto simp: load_payload_def split: option.splits)
qed

lemma classify_all_found:
  assumes "map_res (classify_claim S now) (zip ids ps) = Inr parts" "x \<in> set (concat (map snd parts))" "length ps = length ids"
  shows "\<exists>n p. n < length ids \<and> ps ! n = Some p \<and> ls_load S p = Inr x \<and> tl_expires_at x \<le> now"
proof -
  have rel: "list_all2 (\<lambda>ip part. classify_claim S now ip = Inr part) (zip ids ps) parts"
    using assms(1) by (simp add: map_res_Inr_iff)
  obtain part where part: "part \<in> set parts" "x \<in> set (snd part)" using assms(2) by auto
  then obtain n where n: "n < length parts" "parts ! n = part" by (auto simp: in_set_conv_nth)
  then have "classify_claim S now (ids ! n, ps ! n) = Inr part"
    using rel assms(3) by (auto simp: list_all2_conv_all_nth)
  from classify_claim_found [OF this part(2)] show ?thesis
    using n(1) rel assms(3) by (auto simp: list_all2_conv_all_nth)
qed

lemma claim_expired_sound:
  assumes claimed: "claim_expired S clock asked limit r = (Inr ls, r')" "x \<in> set ls"
  shows "\<exists>i p t. live clock (\<alpha> r) (lease_key S i) = Some (StrV p, t) \<and> ls_load S p = Inr x \<and>
    tl_expires_at x \<le> (case asked of Some instant \<Rightarrow> instant | None \<Rightarrow> clock)"
proof -
  define now where "now = (case asked of Some instant \<Rightarrow> instant | None \<Rightarrow> clock)"
  note run = claimed(1)[unfolded claim_expired_def Let_def, folded now_def]
  from run claimed(2) obtain x1 r1 raw_ids where zr: "exec (ls_redis S) clock (ZRANGEBYSCORE (expiries_key S) now 0 limit) r = (Inr x1, r1)"
    and "reply_texts x1 = Inr raw_ids" and nonempty: "present raw_ids \<noteq> []"
    by (fastforce simp: io_simps split: if_splits)
  with run claimed(2) obtain claims r2 x2 r3 ps parts ids r4 where
    cl: "pipeline (ls_redis S) clock (map (SADD (expired_claims_key S)) (present raw_ids)) r1 = (Inr claims, r2)"
    and ids: "ids = map fst (filter (\<lambda>(i, c). reply_true c) (zip (present raw_ids) claims))"
    and mg: "exec (ls_redis S) clock (MGET (map (lease_key S) ids)) r2 = (Inr x2, r3)"
    and ps: "reply_texts x2 = Inr ps" "length ps = length ids"
    and parts: "map_res (classify_claim S now) (zip ids ps) = Inr parts" and ls: "ls = concat (map snd parts)"
    by (fastforce simp: io_simps split: if_splits)
  have "\<alpha> r1 = \<alpha> r" using exec_read [OF zr] by simp
  moreover have "\<alpha> r2 (lease_key S i) = \<alpha> r1 (lease_key S i)" for i
    by (rule pipeline_frame [OF cl]) auto
  ultimately have same: "live clock (\<alpha> r2) (lease_key S i) = live clock (\<alpha> r) (lease_key S i)" for i
    by (intro live_frame) simp
  obtain n p where n: "n < length ids" "ps ! n = Some p" "ls_load S p = Inr x" "tl_expires_at x \<le> now"
    using classify_all_found [OF parts _ ps(2)] claimed(2) ls by blast
  have "ps = map (\<lambda>k. case live clock (\<alpha> r2) k of Some (StrV s, _) \<Rightarrow> Some s | _ \<Rightarrow> None) (map (lease_key S) ids)"
    using exec_mget [OF mg] ps(1) by (simp add: reply_texts_def)
  then have "ps ! n = (case live clock (\<alpha> r) (lease_key S (ids ! n)) of Some (StrV s, _) \<Rightarrow> Some s | _ \<Rightarrow> None)"
    using n(1) by (simp add: same)
  then show ?thesis using n unfolding now_def[symmetric] by (auto split: option.splits redis_value.splits prod.splits)
qed

lemma scan_once_claims:
  assumes "scan_once S clock batch_size status_publisher r = (Inr ls, r')"
  obtains r1 where "claim_expired S clock None batch_size r = (Inr ls, r1)"
  using assms by (auto simp: scan_once_def io_simps split: option.splits)

end

subsection \<open>Properties\<close>

definition sample_lease :: "string \<Rightarrow> int \<Rightarrow> task_lease" where
  "sample_lease owner expires_at = \<lparr>tl_lease_id = ''l1'', tl_task_id = ''t1'', tl_owner_id = owner,
     tl_consumer_name = ''worker'', tl_acquired_at = 0, tl_heartbeat_at = 0, tl_expires_at = expires_at,
     tl_message_id = None, tl_task_type = None, tl_workflow_id = None, tl_stage = None, tl_attempt = 0,
     tl_recovery_action = PUBLISH_STALE_STATUS\<rparr>"

text \<open>A store on the in-memory server that reads every payload as one given lease.\<close>

definition sample_lease_store :: "task_lease \<Rightarrow> keyspace lease_store" where
  "sample_lease_store l = \<lparr>ls_redis = mem_redis, ls_prefix = ''relayna'', ls_sha = (\<lambda>_. ''0123456789abcdef''),
     ls_dump = (\<lambda>_. ''lease''), ls_load = (\<lambda>_. Inr l)\<rparr>"

interpretation mem_leases: lease_backend "sample_lease_store l" id for l
  by (simp add: lease_backend_def sample_lease_store_def mem_redis.redis_server_axioms)

text \<open>
  C4. A lease excludes: while the key of an acquired lease lives (its rounded-down time to
  live, at least one second), every other attempt to acquire a lease of the same id is
  refused, whoever makes it, and the stored lease stays as it was.
\<close>
theorem lease_mutual_exclusion:
  assumes "redis_server (ls_redis S) \<alpha>" "acquire S t0 l r = (Inr True, r1)"
    and "t1 \<le> t0 + seconds (lease_ttl t0 (tl_expires_at l))"
    and "tl_lease_id l2 = tl_lease_id l" "acquire S t1 l2 r1 = (Inr b, r2)"
  shows "\<not> b \<and> \<alpha> r2 (lease_key S (tl_lease_id l)) = \<alpha> r1 (lease_key S (tl_lease_id l))"
proof -
  have B: "lease_backend S \<alpha>" using assms(1) by (simp add: lease_backend_def)
  have "\<alpha> r1 (lease_key S (tl_lease_id l)) =
      Some (StrV (ls_dump S l), Some (t0 + seconds (lease_ttl t0 (tl_expires_at l))))"
    using lease_backend.acquire_ok(2) [OF B assms(2), of "tl_lease_id l"] by simp
  then have "live t1 (\<alpha> r1) (lease_key S (tl_lease_id l)) \<noteq> None"
    using assms(3) by (simp add: live_def)
  then show ?thesis
    using lease_backend.acquire_ok [OF B assms(5)] assms(4) by metis
qed

text \<open>
  A lease that was acquired is read back as it was written for as long as its key lives,
  provided pydantic reads the JSON it wrote for this lease.
\<close>
theorem lease_read_back:
  assumes "redis_server (ls_redis S) \<alpha>" "ls_load S (ls_dump S l) = Inr l"
    and "acquire S t0 l r = (Inr True, r1)" "t1 \<le> t0 + seconds (lease_ttl t0 (tl_expires_at l))"
    and "lease_get S t1 (tl_lease_id l) r1 = (Inr x, r2)"
  shows "x = Some l"
proof -
  have B: "lease_backend S \<alpha>" using assms(1) by (simp add: lease_backend_def)
  have "live t1 (\<alpha> r1) (lease_key S (tl_lease_id l)) =
      Some (StrV (ls_dump S l), Some (t0 + seconds (lease_ttl t0 (tl_expires_at l))))"
    using lease_backend.acquire_ok(2) [OF B assms(3), of "tl_lease_id l"] assms(4) by (simp add: live_def)
  then show ?thesis
    using lease_backend.lease_get_ok [OF B assms(5)] assms(2) by (cases x) auto
qed

text \<open>
  Only the owner of a lease can change it: a heartbeat or a release under another owner
  id changes nothing in Redis and reports failure.
\<close>
theorem lease_owner_only:
  assumes "redis_server (ls_redis S) \<alpha>" "live now (\<alpha> r) (lease_key S i) = Some (StrV p, t)"
    and "ls_load S p = Inr l" "tl_owner_id l \<noteq> owner"
    and "release S now i owner r = (Inr b, r1)" "heartbeat S now i owner e r = (Inr h, r2)"
  shows "\<not> b \<and> \<alpha> r1 = \<alpha> r \<and> h = None \<and> \<alpha> r2 = \<alpha> r"
proof -
  have B: "lease_backend S \<alpha>" using assms(1) by (simp add: lease_backend_def)
  show ?thesis
    using lease_backend.release_other_owner [OF B assms(5)] lease_backend.heartbeat_other_owner [OF B assms(6)] assms(2-4)
    by (cases h) auto
qed

lemma lease_key_within_expiry:
  assumes "t0 + seconds 1 \<le> expires_at"
  shows "t0 + seconds (lease_ttl t0 expires_at) \<le> expires_at"
proof -
  have "1000000 div 1000000 \<le> (expires_at - t0) div 1000000"
    using assms by (intro zdiv_mono1) (auto simp: seconds_def)
  then have "1 \<le> (expires_at - t0) div 1000000" by simp
  then have "seconds (lease_ttl t0 expires_at) = (expires_at - t0) div 1000000 * 1000000"
    by (simp add: lease_ttl_def seconds_def)
  moreover have "(expires_at - t0) div 1000000 * 1000000 \<le> expires_at - t0"
    by (metis add_le_cancel_left div_mult_mod_eq le_add_same_cancel1 pos_mod_sign zero_less_numeral)
  ultimately show ?thesis by simp
qed

text \<open>
  C34. The scanner cannot see a lease that simply expired.  \<^verbatim>\<open>scan_once\<close> claims the leases expired by its own
  clock.  The key of a lease is set to live for the whole seconds until its expiry, so at any scan after the expiry of a lease
  acquired at least a second before that, the key is gone on a Redis server with the same clock, and every
  lease the scan returns was read from the key of some other lease id.  (A caller of \<^verbatim>\<open>claim_expired\<close> that passes an instant ahead of the clock does
  get leases whose key still lives; the scanner passes none.)
\<close>
theorem expired_lease_not_claimed:
  assumes "redis_server (ls_redis S) \<alpha>" "acquire S t0 l r = (Inr True, r1)"
    and "t0 + seconds 1 \<le> tl_expires_at l" "tl_expires_at l < clock" "scan_once S clock batch_size status_publisher r1 = (Inr ls, r2)"
  shows "live clock (\<alpha> r1) (lease_key S (tl_lease_id l)) = None \<and>
         (\<forall>x \<in> set ls. \<exists>i p t. i \<noteq> tl_lease_id l \<and> live clock (\<alpha> r1) (lease_key S i) = Some (StrV p, t) \<and> ls_load S p = Inr x)"
proof -
  have B: "lease_backend S \<alpha>" using assms(1) by (simp add: lease_backend_def)
  have gone: "live clock (\<alpha> r1) (lease_key S (tl_lease_id l)) = None"
    using lease_backend.acquire_ok(2) [OF B assms(2), of "tl_lease_id l"] lease_key_within_expiry[OF assms(3)] assms(4)
    by (simp add: live_def)
  obtain r3 where claim: "claim_expired S clock None batch_size r1 = (Inr ls, r3)"
    using lease_backend.scan_once_claims [OF B assms(5)] .
  have "\<exists>i p t. i \<noteq> tl_lease_id l \<and> live clock (\<alpha> r1) (lease_key S i) = Some (StrV p, t) \<and> ls_load S p = Inr x"
    if x: "x \<in> set ls" for x
    using lease_backend.claim_expired_sound [OF B claim x] gone by (metis option.distinct(1))
  with gone show ?thesis by blast
qed

lemma sample_backend [simp]: "redis_server (ls_redis (sample_lease_store l)) id"
  by (simp add: sample_lease_store_def mem_redis.redis_server_axioms)

text \<open>The first acquisition of the concrete instances: owner \<open>a\<close> at instant 0 until second 3.\<close>

definition sample_held :: keyspace where
  "sample_held = snd (acquire (sample_lease_store (sample_lease ''a'' 3000000)) 0 (sample_lease ''a'' 3000000) (\<lambda>_. None))"

lemma sample_acquired:
  "acquire (sample_lease_store (sample_lease ''a'' 3000000)) 0 (sample_lease ''a'' 3000000) (\<lambda>_. None) = (Inr True, sample_held)"
proof -
  have "fst (acquire (sample_lease_store (sample_lease ''a'' 3000000)) 0 (sample_lease ''a'' 3000000) (\<lambda>_. None)) = Inr True"
    by code_simp
  then show ?thesis by (simp add: sample_held_def prod_eq_iff)
qed

theorem lease_mutual_exclusion_witness:
  "\<exists>r2. acquire (sample_lease_store (sample_lease ''a'' 3000000)) 2000000 (sample_lease ''b'' 9000000) sample_held = (Inr False, r2) \<and>
     \<not> False \<and> id r2 (lease_key (sample_lease_store (sample_lease ''a'' 3000000)) ''l1'') =
     id sample_held (lease_key (sample_lease_store (sample_lease ''a'' 3000000)) ''l1'')"
proof -
  let ?S = "sample_lease_store (sample_lease ''a'' 3000000)"
  have "fst (acquire ?S 2000000 (sample_lease ''b'' 9000000) sample_held) = Inr False" by code_simp
  then obtain r2 where 2: "acquire ?S 2000000 (sample_lease ''b'' 9000000) sample_held = (Inr False, r2)"
    by (metis prod.collapse)
  have "2000000 \<le> 0 + seconds (lease_ttl 0 (tl_expires_at (sample_lease ''a'' 3000000)))" by code_simp
  from lease_mutual_exclusion [OF sample_backend sample_acquired this _ 2] 2 show ?thesis
    by (auto simp: sample_lease_def)
qed

theorem lease_read_back_witness:
  "\<exists>x r2. lease_get (sample_lease_store (sample_lease ''a'' 3000000)) 2000000 ''l1'' sample_held = (Inr x, r2) \<and>
     x = Some (sample_lease ''a'' 3000000)"
proof -
  let ?S = "sample_lease_store (sample_lease ''a'' 3000000)"
  have "\<not> isl (fst (lease_get ?S 2000000 ''l1'' sample_held))" by code_simp
  then obtain x r2 where 2: "lease_get ?S 2000000 ''l1'' sample_held = (Inr x, r2)"
    by (metis prod.collapse sum.collapse(2))
  have "2000000 \<le> 0 + seconds (lease_ttl 0 (tl_expires_at (sample_lease ''a'' 3000000)))" by code_simp
  moreover have "ls_load ?S (ls_dump ?S (sample_lease ''a'' 3000000)) = Inr (sample_lease ''a'' 3000000)"
    by (simp add: sample_lease_store_def)
  moreover have "tl_lease_id (sample_lease ''a'' 3000000) = ''l1''" by (simp add: sample_lease_def)
  ultimately show ?thesis using lease_read_back [OF sample_backend _ sample_acquired _] 2 by metis
qed

theorem lease_owner_only_witness:
  "\<exists>r1 r2. release (sample_lease_store (sample_lease ''a'' 3000000)) 2000000 ''l1'' ''b'' sample_held = (Inr False, r1) \<and>
     heartbeat (sample_lease_store (sample_lease ''a'' 3000000)) 2000000 ''l1'' ''b'' 5000000 sample_held = (Inr None, r2) \<and>
     id r1 = id sample_held \<and> id r2 = id sample_held"
proof -
  let ?S = "sample_lease_store (sample_lease ''a'' 3000000)"
  have "fst (release ?S 2000000 ''l1'' ''b'' sample_held) = Inr False" by code_simp
  then obtain r1 where 1: "release ?S 2000000 ''l1'' ''b'' sample_held = (Inr False, r1)" by (metis prod.collapse)
  have "fst (heartbeat ?S 2000000 ''l1'' ''b'' 5000000 sample_held) = Inr None" by code_simp
  then obtain r2 where 2: "heartbeat ?S 2000000 ''l1'' ''b'' 5000000 sample_held = (Inr None, r2)" by (metis prod.collapse)
  have "live 2000000 (id sample_held) (lease_key ?S ''l1'') = Some (StrV ''lease'', Some 3000000)" by code_simp
  from lease_owner_only [OF sample_backend this _ _ 1 2] 1 2 show ?thesis
    by (auto simp: sample_lease_store_def sample_lease_def)
qed

theorem expired_lease_not_claimed_witness:
  "\<exists>ls r2. scan_once (sample_lease_store (sample_lease ''a'' 3000000)) 3000001 100 None sample_held = (Inr ls, r2) \<and>
     live 3000001 (id sample_held) (lease_key (sample_lease_store (sample_lease ''a'' 3000000)) ''l1'') = None \<and>
     (\<forall>x \<in> set ls. \<exists>i p t. i \<noteq> ''l1'' \<and>
        live 3000001 (id sample_held) (lease_key (sample_lease_store (sample_lease ''a'' 3000000)) i) = Some (StrV p, t) \<and>
        ls_load (sample_lease_store (sample_lease ''a'' 3000000)) p = Inr x)"
proof -
  let ?S = "sample_lease_store (sample_lease ''a'' 3000000)"
  have "\<not> isl (fst (scan_once ?S 3000001 100 None sample_held))" by code_simp
  then obtain ls r2 where 2: "scan_once ?S 3000001 100 None sample_held = (Inr ls, r2)"
    by (metis prod.collapse sum.collapse(2))
  have "0 + seconds 1 \<le> tl_expires_at (sample_lease ''a'' 3000000)" "tl_expires_at (sample_lease ''a'' 3000000) < 3000001"
    by code_simp+
  from expired_lease_not_claimed [OF sample_backend sample_acquired this 2] 2 show ?thesis
    by (auto simp: sample_lease_def)
qed

text \<open>An instant ahead of the clock finds the lease while its key lives; the scanner's own clock finds it at no instant after.\<close>

lemma claim_ahead_of_clock:
  "fst (claim_expired (sample_lease_store (sample_lease ''a'' 3000000)) 2000000 (Some 120000000) 100 sample_held) =
     Inr [sample_lease ''a'' 3000000]"
  "fst (claim_expired (sample_lease_store (sample_lease ''a'' 3000000)) 3000001 None 100 sample_held) = Inr []"
  by code_simp+

end
