(* ===== verification/Contract_Store.thy ===== *)
theory Contract_Store
  imports Redis
begin

text \<open>
  \<^verbatim>\<open>storage/workflow_contract_store.py\<close>: the Redis store that admits a stage's message at
  most once per deduplication signature, and records what is in flight.
\<close>

record 'r contract_store =
  cs_redis :: "'r redis"
  cs_prefix :: string
  cs_ttl_seconds :: "int option"
  cs_sha :: "string \<Rightarrow> string"

text \<open>\<^verbatim>\<open>{field: payload.get(field) for field in fields}\<close>\<close>

definition pick_fields :: "string list \<Rightarrow> dict \<Rightarrow> dict" where
  "pick_fields key_fields payload = fold (\<lambda>f. AList.update f (dict_get payload f)) key_fields []"

definition signature_json :: json_opts where
  "signature_json = \<lparr>ensure_ascii = True, sort_keys = True, item_separator = '','', key_separator = '':''\<rparr>"

definition inflight_json :: json_opts where
  "inflight_json = \<lparr>ensure_ascii = True, sort_keys = True, item_separator = '', '', key_separator = '': ''\<rparr>"

definition build_dedup_signature ::
  "(string \<Rightarrow> string) \<Rightarrow> string \<Rightarrow> string option \<Rightarrow> dict \<Rightarrow> string list \<Rightarrow> string" where
  "build_dedup_signature sha task_id action payload key_fields =
     sha (json_dumps signature_json (PDict
       [(''task_id'', PStr task_id), (''action'', opt_str action), (''fields'', PDict (pick_fields key_fields payload))]))"

definition contract_slot :: "string \<Rightarrow> string \<Rightarrow> string" where
  "contract_slot stage task_id = ''workflow-contract:'' @ stage @ '':'' @ task_id"

definition dedup_key ::
  "'r contract_store \<Rightarrow> string \<Rightarrow> string \<Rightarrow> string option \<Rightarrow> dict \<Rightarrow> string list \<Rightarrow> string" where
  "dedup_key S stage task_id action payload key_fields =
     redis_key (cs_sha S) (cs_prefix S) (contract_slot stage task_id)
       [''workflow'', ''contract'', stage, ''dedup'', task_id,
        build_dedup_signature (cs_sha S) task_id action payload key_fields]"

definition inflight_key :: "'r contract_store \<Rightarrow> string \<Rightarrow> string \<Rightarrow> string" where
  "inflight_key S stage task_id =
     redis_key (cs_sha S) (cs_prefix S) (contract_slot stage task_id)
       [''workflow'', ''contract'', stage, ''inflight'', task_id]"

definition acquire_dedup ::
  "'r contract_store \<Rightarrow> int \<Rightarrow> string \<Rightarrow> string \<Rightarrow> string option \<Rightarrow> dict \<Rightarrow> string list \<Rightarrow> ('r, bool) io" where
  "acquire_dedup S now stage task_id action payload key_fields =
     io_bind (exec (cs_redis S) now (SET (dedup_key S stage task_id action payload key_fields) ''1'' (cs_ttl_seconds S) True))
       (\<lambda>stored. io_return (reply_true stored))"

definition release_dedup ::
  "'r contract_store \<Rightarrow> int \<Rightarrow> string \<Rightarrow> string \<Rightarrow> string option \<Rightarrow> dict \<Rightarrow> string list \<Rightarrow> ('r, unit) io" where
  "release_dedup S now stage task_id action payload key_fields =
     io_bind (exec (cs_redis S) now (DEL (dedup_key S stage task_id action payload key_fields))) (\<lambda>_. io_return ())"

definition mark_inflight ::
  "'r contract_store \<Rightarrow> int \<Rightarrow> string \<Rightarrow> string \<Rightarrow> string option \<Rightarrow> dict \<Rightarrow> string list \<Rightarrow> ('r, unit) io" where
  "mark_inflight S now stage task_id action payload key_fields =
     (let signature = build_dedup_signature (cs_sha S) task_id action payload key_fields;
          key = inflight_key S stage task_id;
          value = json_dumps inflight_json (PDict
            [(''task_id'', PStr task_id), (''stage'', PStr stage), (''action'', opt_str action),
             (''dedup_key_fields'', PList (map PStr key_fields)), (''payload'', PDict (pick_fields key_fields payload))])
      in io_bind (exec (cs_redis S) now (HSET key signature value)) (\<lambda>_.
         case cs_ttl_seconds S of
           None \<Rightarrow> io_return ()
         | Some ttl \<Rightarrow> io_bind (exec (cs_redis S) now (EXPIRE key ttl)) (\<lambda>_. io_return ())))"

definition clear_inflight ::
  "'r contract_store \<Rightarrow> int \<Rightarrow> string \<Rightarrow> string \<Rightarrow> string option \<Rightarrow> dict \<Rightarrow> string list \<Rightarrow> ('r, unit) io" where
  "clear_inflight S now stage task_id action payload key_fields =
     io_bind (exec (cs_redis S) now (HDEL (inflight_key S stage task_id)
       (build_dedup_signature (cs_sha S) task_id action payload key_fields))) (\<lambda>_. io_return ())"

subsection \<open>Signatures\<close>

lemma pick_fields_fold:
  "\<forall>f \<in> set key_fields. dict_get p f = dict_get q f \<Longrightarrow>
     fold (\<lambda>f. AList.update f (dict_get p f)) key_fields acc = fold (\<lambda>f. AList.update f (dict_get q f)) key_fields acc"
  by (induction key_fields arbitrary: acc) auto

lemma dedup_key_cong:
  "\<forall>f \<in> set key_fields. dict_get p f = dict_get q f \<Longrightarrow> dedup_key S stage t a p key_fields = dedup_key S stage t a q key_fields"
  using pick_fields_fold [of key_fields p q "[]"] by (simp add: dedup_key_def build_dedup_signature_def pick_fields_def)

lemma dedup_key_not_inflight: "dedup_key S stage t a p key_fields \<noteq> inflight_key S stage t"
  by (simp add: dedup_key_def inflight_key_def redis_key_def join_neq_Nil)

locale dedup_backend = redis_server "cs_redis S" \<alpha> for S :: "'r contract_store" and \<alpha> :: "'r \<Rightarrow> keyspace"
begin

lemma acquire_dedup_ok:
  assumes "acquire_dedup S now stage t a p key_fields r = (Inr b, r')"
  shows "(b \<longleftrightarrow> live now (\<alpha> r) (dedup_key S stage t a p key_fields) = None) \<and>
    (b \<longrightarrow> \<alpha> r' = (\<alpha> r)(dedup_key S stage t a p key_fields \<mapsto> (StrV ''1'', map_option (\<lambda>n. now + seconds n) (cs_ttl_seconds S)))) \<and>
    (\<not> b \<longrightarrow> \<alpha> r' = \<alpha> r)"
proof -
  from assms obtain x where set: "exec (cs_redis S) now (SET (dedup_key S stage t a p key_fields) ''1'' (cs_ttl_seconds S) True) r = (Inr x, r')"
    and b: "b = reply_true x"
    by (auto simp: acquire_dedup_def io_simps)
  show ?thesis
    using exec_set [OF set] by (cases "live now (\<alpha> r) (dedup_key S stage t a p key_fields)") (auto simp: b reply_true_def)
qed

lemma release_dedup_ok:
  assumes "release_dedup S now stage t a p key_fields r = (Inr u, r')"
  shows "\<alpha> r' = (\<alpha> r)(dedup_key S stage t a p key_fields := None)"
proof -
  from assms obtain x where del: "exec (cs_redis S) now (DEL (dedup_key S stage t a p key_fields)) r = (Inr x, r')"
    by (auto simp: release_dedup_def io_simps)
  from exec_Inr [OF del] show ?thesis by auto
qed

lemma mark_inflight_keeps_entry:
  assumes "mark_inflight S now stage t a p key_fields r = (x, r')"
  shows "\<alpha> r' (dedup_key S stage t a p key_fields) = \<alpha> r (dedup_key S stage t a p key_fields)"
  using assms exec_frame dedup_key_not_inflight[of S stage t a p key_fields]
  by (fastforce simp: mark_inflight_def Let_def io_bind_def io_return_def split: prod.splits sum.splits option.splits)

end

definition sample_contract_store :: "keyspace contract_store" where
  "sample_contract_store = \<lparr>cs_redis = mem_redis, cs_prefix = ''relayna'', cs_ttl_seconds = Some 60, cs_sha = (\<lambda>s. take 40 s)\<rparr>"

interpretation mem_dedup: dedup_backend sample_contract_store id
  by (simp add: dedup_backend_def sample_contract_store_def mem_redis.redis_server_axioms)

text \<open>
  A stage admits a message once: after a successful \<open>acquire_dedup\<close>, a message of the same
  stage, task and action whose payload agrees on the deduplication fields (and may differ
  elsewhere) is refused until the entry's time to live is over.
\<close>
theorem dedup_admits_once:
  assumes "redis_server (cs_redis S) \<alpha>" "acquire_dedup S t0 stage t a p key_fields r = (Inr True, r1)"
    and "\<forall>f \<in> set key_fields. dict_get p f = dict_get q f"
    and "\<forall>ttl. cs_ttl_seconds S = Some ttl \<longrightarrow> t1 \<le> t0 + seconds ttl"
    and "acquire_dedup S t1 stage t a q key_fields r1 = (Inr b, r2)"
  shows "\<not> b"
proof -
  have B: "dedup_backend S \<alpha>" using assms(1) by (simp add: dedup_backend_def)
  have "\<alpha> r1 (dedup_key S stage t a q key_fields) = Some (StrV ''1'', map_option (\<lambda>n. t0 + seconds n) (cs_ttl_seconds S))"
    using dedup_backend.acquire_dedup_ok [OF B assms(2)] dedup_key_cong [OF assms(3), of S stage t a] by simp
  then have "live t1 (\<alpha> r1) (dedup_key S stage t a q key_fields) \<noteq> None"
    using assms(4) by (cases "cs_ttl_seconds S") (auto simp: live_def)
  then show ?thesis using dedup_backend.acquire_dedup_ok [OF B assms(5)] by simp
qed

text \<open>
  Releasing reopens: after \<open>release_dedup\<close> the same message is admitted again at any time,
  so a message whose processing failed is not lost to its own deduplication entry.
\<close>
theorem dedup_release_reopens:
  assumes "redis_server (cs_redis S) \<alpha>" "release_dedup S t0 stage t a p key_fields r = (Inr u, r1)"
    and "acquire_dedup S t1 stage t a p key_fields r1 = (Inr b, r2)"
  shows b
proof -
  have B: "dedup_backend S \<alpha>" using assms(1) by (simp add: dedup_backend_def)
  show ?thesis
    using dedup_backend.acquire_dedup_ok [OF B assms(3)] dedup_backend.release_dedup_ok [OF B assms(2)]
    by (simp add: live_def)
qed

lemma sample_dedup_backend: "redis_server (cs_redis sample_contract_store) id"
  by (simp add: sample_contract_store_def mem_redis.redis_server_axioms)

theorem dedup_admits_once_witness:
  "\<exists>b r1 r2. acquire_dedup sample_contract_store 0 ''s'' ''t'' None [(''q'', PInt 1), (''x'', PInt 2)] [''q''] (\<lambda>_. None) = (Inr True, r1) \<and>
     acquire_dedup sample_contract_store 59000000 ''s'' ''t'' None [(''q'', PInt 1)] [''q''] r1 = (Inr b, r2) \<and> \<not> b"
proof -
  let ?m = "acquire_dedup sample_contract_store 0 ''s'' ''t'' None [(''q'', PInt 1), (''x'', PInt 2)] [''q''] (\<lambda>_. None)"
  let ?n = "acquire_dedup sample_contract_store 59000000 ''s'' ''t'' None [(''q'', PInt 1)] [''q''] (snd ?m)"
  have "fst ?m = Inr True" by code_simp
  then have 1: "?m = (Inr True, snd ?m)" by (metis prod.collapse)
  have "\<not> isl (fst ?n)" by code_simp
  then obtain b where 2: "?n = (Inr b, snd ?n)" by (metis prod.collapse sum.collapse(2))
  have "\<not> b"
    by (rule dedup_admits_once [OF sample_dedup_backend 1 _ _ 2])
      (simp_all add: dict_get_def sample_contract_store_def seconds_def)
  with 1 2 show ?thesis by blast
qed

theorem dedup_release_reopens_witness:
  "\<exists>b r1 r2. release_dedup sample_contract_store 0 ''s'' ''t'' None [(''q'', PInt 1)] [''q''] (\<lambda>_. None) = (Inr (), r1) \<and>
     acquire_dedup sample_contract_store 1 ''s'' ''t'' None [(''q'', PInt 1)] [''q''] r1 = (Inr b, r2) \<and> b"
proof -
  let ?m = "release_dedup sample_contract_store 0 ''s'' ''t'' None [(''q'', PInt 1)] [''q''] (\<lambda>_. None)"
  let ?n = "acquire_dedup sample_contract_store 1 ''s'' ''t'' None [(''q'', PInt 1)] [''q''] (snd ?m)"
  have "fst ?m = Inr ()" by code_simp
  then have 1: "?m = (Inr (), snd ?m)" by (metis prod.collapse)
  have "\<not> isl (fst ?n)" by code_simp
  then obtain b where 2: "?n = (Inr b, snd ?n)" by (metis prod.collapse sum.collapse(2))
  from dedup_release_reopens [OF sample_dedup_backend 1 2] 1 2 show ?thesis by blast
qed

end
