(* ===== verification/Status_Store.thy ===== *)
theory Status_Store
  imports Redis Routing
begin

text \<open>
  \<^verbatim>\<open>status/store.py\<close>: the task history in Redis.  The optional service event feed the store
  forwards to is an argument (\<open>ss_service_event\<close>); \<open>ss_loads\<close> is \<^verbatim>\<open>json.loads\<close>.
\<close>

record 'r status_store =
  ss_redis :: "'r redis"
  ss_prefix :: string
  ss_ttl_seconds :: "int option"
  ss_history_maxlen :: int
  ss_sha :: "string \<Rightarrow> string"
  ss_loads :: "string \<Rightarrow> pyval res"
  ss_service_event :: "(dict \<Rightarrow> ('r, unit) io) option"

definition plain_json :: json_opts where
  "plain_json = \<lparr>ensure_ascii = False, sort_keys = False, item_separator = '', '', key_separator = '': ''\<rparr>"

definition canonical_json :: json_opts where
  "canonical_json = \<lparr>ensure_ascii = False, sort_keys = True, item_separator = '', '', key_separator = '': ''\<rparr>"

definition history_key :: "'r status_store \<Rightarrow> string \<Rightarrow> string" where
  "history_key S task_id = redis_key (ss_sha S) (ss_prefix S) (''status:'' @ task_id) [''history'', task_id]"

definition channel_name :: "'r status_store \<Rightarrow> string \<Rightarrow> string" where
  "channel_name S task_id = redis_key (ss_sha S) (ss_prefix S) (''status:'' @ task_id) [''channel'', task_id]"

definition event_token :: "'r status_store \<Rightarrow> dict \<Rightarrow> string" where
  "event_token S event =
     (case map_of event ''event_id'' of
        Some (PStr event_id) \<Rightarrow>
          if strip event_id \<noteq> [] then strip event_id
          else ss_sha S (json_dumps canonical_json (PDict event))
      | _ \<Rightarrow> ss_sha S (json_dumps canonical_json (PDict event)))"

definition event_key :: "'r status_store \<Rightarrow> string \<Rightarrow> dict \<Rightarrow> string" where
  "event_key S task_id event =
     redis_key (ss_sha S) (ss_prefix S) (''status:'' @ task_id) [''event'', task_id, event_token S event]"

definition child_tasks_key :: "'r status_store \<Rightarrow> string \<Rightarrow> string" where
  "child_tasks_key S parent_task_id =
     redis_key (ss_sha S) (ss_prefix S) (''status-children:'' @ parent_task_id) [''children'', parent_task_id]"

definition parent_task_id :: "dict \<Rightarrow> string option" where
  "parent_task_id event =
     (case map_of event ''meta'' of
        Some (PDict meta) \<Rightarrow>
          (let parent = strip (dict_text_or_blank meta ''parent_task_id'')
           in if parent = [] \<or> parent = strip (dict_text_or_blank event ''task_id'') then None else Some parent)
      | _ \<Rightarrow> None)"

definition effective_ttl :: "'r status_store \<Rightarrow> int option" where
  "effective_ttl S = (case ss_ttl_seconds S of Some n \<Rightarrow> if n \<noteq> 0 then Some n else None | None \<Rightarrow> None)"

definition expire_commands :: "'r status_store \<Rightarrow> string \<Rightarrow> redis_command list" where
  "expire_commands S key = (case effective_ttl S of Some n \<Rightarrow> [EXPIRE key n] | None \<Rightarrow> [])"

definition history_commands :: "'r status_store \<Rightarrow> string \<Rightarrow> string \<Rightarrow> redis_command list" where
  "history_commands S task_id payload =
     [LPUSH (history_key S task_id) payload, LTRIM (history_key S task_id) 0 (ss_history_maxlen S - 1)] @
     expire_commands S (history_key S task_id)"

definition push_history :: "'r status_store \<Rightarrow> int \<Rightarrow> string \<Rightarrow> string \<Rightarrow> string \<Rightarrow> ('r, unit) io" where
  "push_history S now task_id payload dedupe_key =
     io_bind (io_catch (pipeline (ss_redis S) now (history_commands S task_id payload)) (\<lambda>e. io_bind (exec (ss_redis S) now (DEL dedupe_key)) (\<lambda>_. io_raise e))) (\<lambda>_. io_return ())"

definition link_parent :: "'r status_store \<Rightarrow> int \<Rightarrow> string \<Rightarrow> dict \<Rightarrow> ('r, unit) io" where
  "link_parent S now task_id event =
     (case parent_task_id event of
        None \<Rightarrow> io_return ()
      | Some parent \<Rightarrow>
          io_bind (pipeline (ss_redis S) now
            (SADD (child_tasks_key S parent) task_id # expire_commands S (child_tasks_key S parent))) (\<lambda>_. io_return ()))"

definition announce :: "'r status_store \<Rightarrow> int \<Rightarrow> string \<Rightarrow> dict \<Rightarrow> string \<Rightarrow> ('r, unit) io" where
  "announce S now task_id event payload =
     io_bind (case ss_service_event S of None \<Rightarrow> io_return () | Some add_status_event \<Rightarrow> add_status_event event) (\<lambda>_.
     io_bind (exec (ss_redis S) now (PUBLISH (channel_name S task_id) payload)) (\<lambda>_. io_return ()))"

definition set_history :: "'r status_store \<Rightarrow> int \<Rightarrow> string \<Rightarrow> dict \<Rightarrow> ('r, unit) io" where
  "set_history S now task_id event =
     (let payload = json_dumps plain_json (PDict event); dedupe_key = event_key S task_id event in
      io_bind (exec (ss_redis S) now (SET dedupe_key ''pending'' (effective_ttl S) True)) (\<lambda>inserted.
      io_bind (if reply_true inserted then io_return NilR else exec (ss_redis S) now (GET dedupe_key)) (\<lambda>marker.
      if \<not> reply_true inserted \<and> marker = BulkR ''complete'' then io_return ()
      else
        io_bind (if reply_true inserted then push_history S now task_id payload dedupe_key else io_return ()) (\<lambda>_.
        io_bind (link_parent S now task_id event) (\<lambda>_.
        io_bind (announce S now task_id event payload) (\<lambda>_.
        io_bind (exec (ss_redis S) now (SET dedupe_key ''complete'' (effective_ttl S) False)) (\<lambda>_. io_return ())))))))"

definition get_history :: "'r status_store \<Rightarrow> int \<Rightarrow> string \<Rightarrow> int option \<Rightarrow> ('r, pyval list) io" where
  "get_history S now task_id limit =
     (let limit = (case limit of Some n \<Rightarrow> n | None \<Rightarrow> ss_history_maxlen S) in
      io_bind (exec (ss_redis S) now (LRANGE (history_key S task_id) 0 (max 0 (limit - 1)))) (\<lambda>reply.
      io_bind (io_lift (reply_texts reply)) (\<lambda>items. io_lift (map_res (ss_loads S) (present items)))))"

definition get_latest :: "'r status_store \<Rightarrow> int \<Rightarrow> string \<Rightarrow> ('r, pyval option) io" where
  "get_latest S now task_id =
     io_bind (exec (ss_redis S) now (LINDEX (history_key S task_id) 0)) (\<lambda>reply.
     io_bind (io_lift (reply_text reply)) (\<lambda>item.
     case item of None \<Rightarrow> io_return None | Some t \<Rightarrow> io_lift (bind_res (ss_loads S t) (\<lambda>v. Inr (Some v)))))"

definition get_child_task_ids :: "'r status_store \<Rightarrow> int \<Rightarrow> string \<Rightarrow> int option \<Rightarrow> ('r, string list) io" where
  "get_child_task_ids S now parent limit =
     io_bind (exec (ss_redis S) now (SMEMBERS (child_tasks_key S parent))) (\<lambda>reply.
     io_bind (io_lift (reply_texts reply)) (\<lambda>items.
       let ids = sort (present items)
       in io_return (case limit of None \<Rightarrow> ids | Some n \<Rightarrow> take (nat (max 0 n)) ids)))"

subsection \<open>Keys\<close>

lemma status_keys_apart [simp]:
  "history_key S t \<noteq> event_key S t e" "event_key S t e \<noteq> history_key S t"
  by (simp_all add: history_key_def event_key_def)

text \<open>
  What the store relies on: its Redis server, digests of 64 characters (SHA-256 in hexadecimal),
  and a service event feed that keeps out of the task histories and event markers.
\<close>

locale status_backend = redis_server "ss_redis S" \<alpha> for S :: "'r status_store" and \<alpha> :: "'r \<Rightarrow> keyspace" +
  assumes digest: "length (ss_sha S text) = 64"
    and service: "ss_service_event S = Some add \<Longrightarrow> add e r = (x, r') \<Longrightarrow>
      \<alpha> r' (history_key S t) = \<alpha> r (history_key S t) \<and> \<alpha> r' (event_key S t e2) = \<alpha> r (event_key S t e2)"
begin

lemma child_key_apart [simp]:
  "child_tasks_key S p \<noteq> history_key S t" "history_key S t \<noteq> child_tasks_key S p"
  "child_tasks_key S p \<noteq> event_key S t e" "event_key S t e \<noteq> child_tasks_key S p"
  unfolding child_tasks_key_def history_key_def event_key_def
  using digest by (auto dest!: redis_key_segments [rotated])

lemma link_parent_frame:
  "link_parent S now t e r = (x, r') \<Longrightarrow>
     \<alpha> r' (history_key S t2) = \<alpha> r (history_key S t2) \<and> \<alpha> r' (event_key S t2 e2) = \<alpha> r (event_key S t2 e2)"
proof (cases "parent_task_id e")
  case (Some p)
  assume "link_parent S now t e r = (x, r')"
  then obtain y where "pipeline (ss_redis S) now (SADD (child_tasks_key S p) t # expire_commands S (child_tasks_key S p)) r = (y, r')"
    by (auto simp: link_parent_def Some io_bind_def io_return_def split: prod.splits sum.splits)
  note frame = pipeline_frame [OF this]
  have "\<alpha> r' (history_key S t2) = \<alpha> r (history_key S t2)"
    by (rule frame) (auto simp: expire_commands_def split: option.splits)
  moreover have "\<alpha> r' (event_key S t2 e2) = \<alpha> r (event_key S t2 e2)"
    by (rule frame) (auto simp: expire_commands_def split: option.splits)
  ultimately show ?thesis ..
qed (simp add: link_parent_def io_simps)

lemma announce_frame:
  assumes "announce S now t e p r = (Inr u, r')"
  shows "\<alpha> r' (history_key S t2) = \<alpha> r (history_key S t2) \<and> \<alpha> r' (event_key S t2 e2) = \<alpha> r (event_key S t2 e2)"
proof -
  from assms obtain y r1 z where
    1: "(case ss_service_event S of None \<Rightarrow> io_return () | Some add_status_event \<Rightarrow> add_status_event e) r = (Inr y, r1)"
    and 2: "exec (ss_redis S) now (PUBLISH (channel_name S t) p) r1 = (Inr z, r')"
    by (auto simp: announce_def io_simps)
  have "\<alpha> r' = \<alpha> r1" using exec_read [OF 2] by simp
  with 1 service show ?thesis by (cases "ss_service_event S") (auto simp: io_simps)
qed

text \<open>The part after the history write: it only sets the marker to complete.\<close>

lemma finish_ok:
  assumes "io_bind (link_parent S now t e) (\<lambda>_. io_bind (announce S now t e p) (\<lambda>_.
     io_bind (exec (ss_redis S) now (SET (event_key S t e) ''complete'' (effective_ttl S) False)) (\<lambda>_. io_return ()))) r = (Inr u, r')"
  shows "\<alpha> r' (history_key S t) = \<alpha> r (history_key S t) \<and>
         \<alpha> r' (event_key S t e) = Some (StrV ''complete'', map_option (\<lambda>n. now + seconds n) (effective_ttl S))"
proof -
  from assms obtain r1 r2 x where 1: "link_parent S now t e r = (Inr (), r1)" and 2: "announce S now t e p r1 = (Inr (), r2)"
    and 3: "exec (ss_redis S) now (SET (event_key S t e) ''complete'' (effective_ttl S) False) r2 = (Inr x, r')"
    by (auto simp: io_simps)
  show ?thesis
    using link_parent_frame [OF 1, of t e] announce_frame [OF 2, of t e] exec_set [OF 3] by simp
qed

lemma set_history_complete:
  assumes "live now (\<alpha> r) (event_key S t e) = Some (StrV ''complete'', d)" "set_history S now t e r = (Inr u, r')"
  shows "\<alpha> r' = \<alpha> r"
proof -
  from assms(2) obtain x r1 y r2 where 1: "exec (ss_redis S) now (SET (event_key S t e) ''pending'' (effective_ttl S) True) r = (Inr x, r1)"
    and 2: "(if reply_true x then io_return NilR else exec (ss_redis S) now (GET (event_key S t e))) r1 = (Inr y, r2)"
    and 3: "\<not> reply_true x \<and> y = BulkR ''complete'' \<longrightarrow> r' = r2"
    by (auto simp: set_history_def io_simps Let_def split: if_splits)
  have x: "x = NilR" "\<alpha> r1 = \<alpha> r" using exec_set [OF 1] assms(1) by auto
  then have "exec (ss_redis S) now (GET (event_key S t e)) r1 = (Inr y, r2)" using 2 by (simp add: reply_true_def)
  from exec_get [OF this] assms(1) x have "y = BulkR ''complete''" "\<alpha> r2 = \<alpha> r" by auto
  with 3 x show ?thesis by (simp add: reply_true_def)
qed

lemma set_history_pending:
  assumes "live now (\<alpha> r) (event_key S t e) = Some (StrV ''pending'', d)" "set_history S now t e r = (Inr u, r')"
  shows "\<alpha> r' (history_key S t) = \<alpha> r (history_key S t) \<and>
         \<alpha> r' (event_key S t e) = Some (StrV ''complete'', map_option (\<lambda>n. now + seconds n) (effective_ttl S))"
proof -
  from assms(2) obtain x r1 y r2 where 1: "exec (ss_redis S) now (SET (event_key S t e) ''pending'' (effective_ttl S) True) r = (Inr x, r1)"
    and 2: "(if reply_true x then io_return NilR else exec (ss_redis S) now (GET (event_key S t e))) r1 = (Inr y, r2)"
    and 3: "\<not> reply_true x \<and> y \<noteq> BulkR ''complete'' \<longrightarrow>
      io_bind (link_parent S now t e) (\<lambda>_. io_bind (announce S now t e (json_dumps plain_json (PDict e))) (\<lambda>_.
     io_bind (exec (ss_redis S) now (SET (event_key S t e) ''complete'' (effective_ttl S) False)) (\<lambda>_. io_return ()))) r2 = (Inr u, r')"
    by (auto simp: set_history_def io_simps Let_def split: if_splits)
  have x: "x = NilR" "\<alpha> r1 = \<alpha> r" using exec_set [OF 1] assms(1) by auto
  then have "exec (ss_redis S) now (GET (event_key S t e)) r1 = (Inr y, r2)" using 2 by (simp add: reply_true_def)
  from exec_get [OF this] assms(1) x have y: "y = BulkR ''pending''" "\<alpha> r2 = \<alpha> r" by auto
  with 3 x have "io_bind (link_parent S now t e) (\<lambda>_. io_bind (announce S now t e (json_dumps plain_json (PDict e))) (\<lambda>_.
     io_bind (exec (ss_redis S) now (SET (event_key S t e) ''complete'' (effective_ttl S) False)) (\<lambda>_. io_return ()))) r2 = (Inr u, r')"
    by (simp add: reply_true_def)
  from finish_ok [OF this] y show ?thesis by simp
qed

lemma set_history_fresh:
  assumes "live now (\<alpha> r) (event_key S t e) = None" "set_history S now t e r = (Inr u, r')"
    and "with_list now (\<alpha> r) (history_key S t) = Inr (xs, d)" "1 \<le> ss_history_maxlen S"
  shows "(\<exists>d'. with_list now (\<alpha> r') (history_key S t) =
            Inr (take (nat (ss_history_maxlen S)) (json_dumps plain_json (PDict e) # xs), d')) \<and>
         \<alpha> r' (event_key S t e) = Some (StrV ''complete'', map_option (\<lambda>n. now + seconds n) (effective_ttl S))"
proof -
  let ?p = "json_dumps plain_json (PDict e)"
  let ?cs = "[LPUSH (history_key S t) ?p, LTRIM (history_key S t) 0 (ss_history_maxlen S - 1)] @
          expire_commands S (history_key S t)"
  from assms(2) obtain x r1 y r2 where 1: "exec (ss_redis S) now (SET (event_key S t e) ''pending'' (effective_ttl S) True) r = (Inr x, r1)"
    and 3: "reply_true x \<longrightarrow> (\<exists>r2. push_history S now t ?p (event_key S t e) r1 = (Inr (), r2) \<and>
      io_bind (link_parent S now t e) (\<lambda>_. io_bind (announce S now t e ?p) (\<lambda>_.
     io_bind (exec (ss_redis S) now (SET (event_key S t e) ''complete'' (effective_ttl S) False)) (\<lambda>_. io_return ()))) r2 = (Inr u, r'))"
    by (fastforce simp: set_history_def io_simps Let_def split: if_splits)
  have x: "x = IntR 1" "\<alpha> r1 = (\<alpha> r)(event_key S t e \<mapsto> (StrV ''pending'', map_option (\<lambda>n. now + seconds n) (effective_ttl S)))"
    using exec_set [OF 1] assms(1) by auto
  have ttl: "\<not> (case effective_ttl S of Some n \<Rightarrow> n \<le> 0 | None \<Rightarrow> False)"
    using exec_Inr [OF 1] by (auto split: if_splits)
  obtain r2 where push: "push_history S now t ?p (event_key S t e) r1 = (Inr (), r2)"
    and fin: "io_bind (link_parent S now t e) (\<lambda>_. io_bind (announce S now t e ?p) (\<lambda>_.
     io_bind (exec (ss_redis S) now (SET (event_key S t e) ''complete'' (effective_ttl S) False)) (\<lambda>_. io_return ()))) r2 = (Inr u, r')"
    using 3 x by (auto simp: reply_true_def)
  obtain ys where pipe: "pipeline (ss_redis S) now ?cs r1 = (Inr ys, r2)"
    using push by (auto simp: push_history_def history_commands_def io_catch_def io_simps split: prod.splits sum.splits)
  have hist1: "with_list now (\<alpha> r1) (history_key S t) = Inr (xs, d)"
    using assms(3) with_list_frame [of "\<alpha> r1" "history_key S t" "\<alpha> r" now] by (simp add: x(2))
  have slice: "list_slice 0 (ss_history_maxlen S - 1) (?p # xs) = take (nat (ss_history_maxlen S)) (?p # xs)"
    using assms(4) by (simp add: list_slice_def list_index_def Let_def)
  have "\<alpha> r2 = snd (db_run now ?cs (\<alpha> r1))"
    using pipeline_Inr [OF pipe] by (auto simp: db_pipe_def split: prod.splits)
  moreover have "\<exists>d'. with_list now (snd (db_run now ?cs (\<alpha> r1))) (history_key S t) =
      Inr (take (nat (ss_history_maxlen S)) (?p # xs), d')"
    unfolding slice [symmetric]
  proof (rule push_trim_expire [OF hist1])
    show "list_slice 0 (ss_history_maxlen S - 1) (?p # xs) \<noteq> []" unfolding slice using assms(4) by simp
    show "expire_commands S (history_key S t) = [] \<or> (\<exists>n > 0. expire_commands S (history_key S t) = [EXPIRE (history_key S t) n])"
      using ttl by (auto simp: expire_commands_def split: option.splits)
  qed
  ultimately show ?thesis
    using finish_ok [OF fin] with_list_frame [of "\<alpha> r'" "history_key S t" "\<alpha> r2" now] by metis
qed

end

subsection \<open>Properties\<close>

definition sample_status_store :: "keyspace status_store" where
  "sample_status_store = \<lparr>ss_redis = mem_redis, ss_prefix = ''task'', ss_ttl_seconds = Some 60, ss_history_maxlen = 2,
     ss_sha = (\<lambda>_. replicate 64 (CHR ''0'')), ss_loads = (\<lambda>_. Inr PNone), ss_service_event = None\<rparr>"

interpretation mem_status: status_backend sample_status_store id
  by (intro status_backend.intro, simp add: sample_status_store_def mem_redis.redis_server_axioms,
      unfold_locales, simp_all add: sample_status_store_def)

text \<open>
  Storing a new status event puts it at the head of the task's history, keeps at most
  \<open>history_maxlen\<close> entries (the oldest leave), and marks the event as complete.
\<close>
theorem status_history_newest_first:
  assumes "status_backend S \<alpha>" "live now (\<alpha> r) (event_key S t e) = None"
    and "with_list now (\<alpha> r) (history_key S t) = Inr (xs, d)" "1 \<le> ss_history_maxlen S"
    and "set_history S now t e r = (Inr (), r')"
  shows "(\<exists>d'. with_list now (\<alpha> r') (history_key S t) =
            Inr (take (nat (ss_history_maxlen S)) (json_dumps plain_json (PDict e) # xs), d')) \<and>
         \<alpha> r' (event_key S t e) = Some (StrV ''complete'', map_option (\<lambda>n. now + seconds n) (effective_ttl S))"
  by (rule status_backend.set_history_fresh [OF assms(1,2,5,3,4)])

text \<open>
  C2. A redelivered status event is stored once: after a new event was stored, storing an
  event with the same key (the same event id, or the same content) again while the marker
  lives changes nothing in Redis.
\<close>
theorem status_event_stored_once:
  assumes "status_backend S \<alpha>" "live t0 (\<alpha> r) (event_key S t e) = None"
    and "with_list t0 (\<alpha> r) (history_key S t) = Inr (xs, d)" "1 \<le> ss_history_maxlen S"
    and "set_history S t0 t e r = (Inr (), r1)" "event_key S t e2 = event_key S t e"
    and "\<forall>ttl. effective_ttl S = Some ttl \<longrightarrow> t1 \<le> t0 + seconds ttl" "set_history S t1 t e2 r1 = (Inr (), r2)"
  shows "\<alpha> r2 = \<alpha> r1"
proof -
  have "\<alpha> r1 (event_key S t e2) = Some (StrV ''complete'', map_option (\<lambda>n. t0 + seconds n) (effective_ttl S))"
    using status_backend.set_history_fresh [OF assms(1,2,5,3,4)] assms(6) by simp
  then have "live t1 (\<alpha> r1) (event_key S t e2) = Some (StrV ''complete'', map_option (\<lambda>n. t0 + seconds n) (effective_ttl S))"
    using assms(7) by (cases "effective_ttl S") (auto simp: live_def)
  from status_backend.set_history_complete [OF assms(1) this assms(8)] show ?thesis .
qed


text \<open>Concrete instances: one event on an empty server.\<close>

definition sample_event :: dict where
  "sample_event = [(''task_id'', PStr ''t''), (''event_id'', PStr ''e1''), (''status'', PStr ''done'')]"

definition sample_stored :: keyspace where
  "sample_stored = snd (set_history sample_status_store 0 ''t'' sample_event (\<lambda>_. None))"

lemma sample_stored: "set_history sample_status_store 0 ''t'' sample_event (\<lambda>_. None) = (Inr (), sample_stored)"
proof -
  have "fst (set_history sample_status_store 0 ''t'' sample_event (\<lambda>_. None)) = Inr ()" by code_simp
  then show ?thesis by (simp add: sample_stored_def prod_eq_iff)
qed

lemma sample_empty:
  "live now (id (\<lambda>_. None)) k = None" "with_list now (id (\<lambda>_. None)) k = Inr ([], None)"
  by (simp_all add: live_def with_list_def)

theorem status_history_newest_first_witness:
  "(\<exists>d'. with_list 0 (id sample_stored) (history_key sample_status_store ''t'') =
      Inr (take (nat (ss_history_maxlen sample_status_store)) (json_dumps plain_json (PDict sample_event) # []), d')) \<and>
   id sample_stored (event_key sample_status_store ''t'' sample_event) =
     Some (StrV ''complete'', map_option (\<lambda>n. 0 + seconds n) (effective_ttl sample_status_store))"
  by (rule status_history_newest_first [OF mem_status.status_backend_axioms sample_empty _ sample_stored])
    (simp add: sample_status_store_def)

theorem status_event_stored_once_witness:
  "\<exists>r2. set_history sample_status_store 59000000 ''t'' (sample_event @ [(''note'', PStr ''again'')]) sample_stored = (Inr (), r2) \<and>
     id r2 = id sample_stored"
proof -
  let ?e = "sample_event @ [(''note'', PStr ''again'')]"
  have "fst (set_history sample_status_store 59000000 ''t'' ?e sample_stored) = Inr ()" by code_simp
  then obtain r2 where 2: "set_history sample_status_store 59000000 ''t'' ?e sample_stored = (Inr (), r2)"
    by (metis prod.collapse)
  have "event_key sample_status_store ''t'' ?e = event_key sample_status_store ''t'' sample_event" by code_simp
  moreover have "\<forall>ttl. effective_ttl sample_status_store = Some ttl \<longrightarrow> 59000000 \<le> 0 + seconds ttl"
    by (simp add: effective_ttl_def sample_status_store_def seconds_def)
  moreover have "1 \<le> ss_history_maxlen sample_status_store" by (simp add: sample_status_store_def)
  ultimately show ?thesis
    using status_event_stored_once [OF mem_status.status_backend_axioms sample_empty _ sample_stored _ _ 2] 2 by blast
qed





end
