(* ===== verification/Status_Hub.thy ===== *)
theory Status_Hub
  imports Status_Store "HOL-Library.Sublist"
begin

text \<open>
  \<^verbatim>\<open>status/hub.py\<close> and \<^verbatim>\<open>_transport_json.py\<close>: the handler that turns a status message into
  a stored event and settles it, and the per-task locks of \<^verbatim>\<open>_store_ordered\<close> as a transition
  system over the interleavings of concurrent handlers.  Parsing a body with
  \<^verbatim>\<open>pydantic_core.from_json\<close> and \<^verbatim>\<open>json.loads\<close> are arguments; observations are returned.
\<close>

subsection \<open>Parsing a transport body\<close>

definition parse_transport_json ::
  "(string \<Rightarrow> pyval res) \<Rightarrow> (string \<Rightarrow> pyval res) \<Rightarrow> string \<Rightarrow> pyval res" where
  "parse_transport_json from_json loads payload =
     (case from_json payload of
        Inr v \<Rightarrow> Inr v
      | Inl (ValueError m) \<Rightarrow>
          if \<not> sublist ''recursion limit exceeded'' m then Inl (ValueError m) else loads payload
      | Inl e \<Rightarrow> Inl e)"

subsection \<open>The message handler\<close>

datatype settlement = Ack | RejectRequeue

datatype hub_observation =
    StatusHubMalformedMessage string
  | StatusHubStoreWriteFailed string py_error
  | StatusHubStoredEvent string "string option" "string option"

record 'r status_hub =
  sh_store :: "'r status_store"
  sh_sanitize_meta_keys :: "string list"
  sh_alias_config :: "alias_config option"
  sh_parse :: "string \<Rightarrow> pyval res"

definition hub_event_id :: "dict \<Rightarrow> string option" where
  "hub_event_id data =
     (case map_of data ''event_id'' of
        Some (PStr v) \<Rightarrow> if strip v \<noteq> [] then Some (strip v) else None
      | _ \<Rightarrow> None)"

definition hub_status_value :: "dict \<Rightarrow> string option" where
  "hub_status_value data =
     (case map_of data ''status'' of
        Some (PStr s) \<Rightarrow> Some s
      | Some PNone \<Rightarrow> None
      | None \<Rightarrow> None
      | Some v \<Rightarrow> Some (py_str v))"

definition sanitize_meta :: "string list \<Rightarrow> dict \<Rightarrow> dict" where
  "sanitize_meta keys data =
     (case map_of data ''meta'' of
        Some (PDict meta) \<Rightarrow> AList.update ''meta'' (PDict (fold AList.delete keys meta)) data
      | _ \<Rightarrow> data)"

definition hub_event :: "'r status_hub \<Rightarrow> dict \<Rightarrow> dict" where
  "hub_event H payload =
     sanitize_meta (sh_sanitize_meta_keys H) (normalize_contract_aliases payload (sh_alias_config H) Payload True)"

definition hub_task_id :: "dict \<Rightarrow> string" where
  "hub_task_id data = strip (dict_text data ''task_id'')"

definition handle_message ::
  "'r status_hub \<Rightarrow> int \<Rightarrow> string \<Rightarrow> 'r \<Rightarrow> (settlement list \<times> hub_observation list) \<times> 'r" where
  "handle_message H now body r =
     (case sh_parse H body of
        Inl _ \<Rightarrow> (([Ack], [StatusHubMalformedMessage ''malformed_json'']), r)
      | Inr (PDict payload) \<Rightarrow>
          (let data = hub_event H payload; task_id = hub_task_id data in
           if task_id = [] then (([Ack], []), r)
           else (case set_history (sh_store H) now task_id data r of
                   (Inl e, r') \<Rightarrow> (([RejectRequeue], [StatusHubStoreWriteFailed task_id e]), r')
                 | (Inr _, r') \<Rightarrow>
                     (([Ack], [StatusHubStoredEvent task_id (hub_event_id data) (hub_status_value data)]), r')))
      | Inr _ \<Rightarrow> (([Ack], [StatusHubMalformedMessage ''payload_not_mapping'']), r))"

lemma fold_delete: "map_of (fold AList.delete ks d) k = (if k \<in> set ks then None else map_of d k)"
  by (induction ks arbitrary: d) auto

text \<open>
  C31. A status message is settled exactly once, and never acknowledged while its event is
  unstored: it is returned to the queue exactly when it is a well-formed event whose storing
  raised, and what is passed on to the store carries none of the secret \<open>meta\<close> keys.
\<close>
theorem status_message_settled_once:
  assumes "handle_message H now body r = ((settled, observations), r')"
  shows "settled = [if \<exists>payload e. sh_parse H body = Inr (PDict payload) \<and> hub_task_id (hub_event H payload) \<noteq> [] \<and>
             fst (set_history (sh_store H) now (hub_task_id (hub_event H payload)) (hub_event H payload) r) = Inl e
           then RejectRequeue else Ack] \<and>
         (\<forall>payload meta k. map_of (hub_event H payload) ''meta'' = Some (PDict meta) \<longrightarrow>
            k \<in> set (sh_sanitize_meta_keys H) \<longrightarrow> map_of meta k = None)"
proof -
  have "map_of meta k = None"
    if "map_of (hub_event H payload) ''meta'' = Some (PDict meta)" "k \<in> set (sh_sanitize_meta_keys H)" for payload meta k
    using that by (auto simp: hub_event_def sanitize_meta_def fold_delete split: option.splits pyval.splits)
  moreover have "settled = [if \<exists>payload e. sh_parse H body = Inr (PDict payload) \<and> hub_task_id (hub_event H payload) \<noteq> [] \<and>
             fst (set_history (sh_store H) now (hub_task_id (hub_event H payload)) (hub_event H payload) r) = Inl e
           then RejectRequeue else Ack]"
    using assms by (auto simp: handle_message_def Let_def split: sum.splits pyval.splits prod.splits if_splits)
  ultimately show ?thesis by blast
qed

theorem status_message_settled_once_witness:
  "\<exists>settled obs r'. handle_message \<lparr>sh_store = sample_status_store, sh_sanitize_meta_keys = [''auth_token''],
       sh_alias_config = None, sh_parse = (\<lambda>_. Inr (PDict sample_event))\<rparr> 0 ''body'' (\<lambda>_. None) = ((settled, obs), r') \<and> settled = [Ack]"
proof -
  let ?H = "\<lparr>sh_store = sample_status_store, sh_sanitize_meta_keys = [''auth_token''],
       sh_alias_config = None, sh_parse = (\<lambda>_. Inr (PDict sample_event))\<rparr>"
  obtain settled obs r' where 1: "handle_message ?H 0 ''body'' (\<lambda>_. None) = ((settled, obs), r')"
    by (metis prod.collapse)
  have 2: "fst (set_history sample_status_store 0 (hub_task_id (hub_event ?H sample_event)) (hub_event ?H sample_event) (\<lambda>_. None)) = Inr ()"
    by code_simp
  have "settled = [Ack]"
    using status_message_settled_once [OF 1] 2 by simp
  with 1 show ?thesis by blast
qed

subsection \<open>Per-task locks\<close>

text \<open>
  \<^verbatim>\<open>_task_locks\<close> maps a task id to a lock entry, an object with identity; a handler keeps the
  entry it looked up.  A handler is idle, waiting for the lock of its entry, or storing with
  the lock held.  Between two awaits the code runs without interruption, which gives four
  actions: look up or create the entry and count oneself, take the free lock, leave after
  storing (normally or by an exception), and be cancelled while waiting.
\<close>

datatype handler_state = Idle | Waiting string nat | Storing string nat

record 'w lock_table =
  lt_locks :: "string \<Rightarrow> nat option"
  lt_users :: "nat \<Rightarrow> nat"
  lt_holder :: "nat \<Rightarrow> 'w option"
  lt_next :: nat
  lt_handler :: "'w \<Rightarrow> handler_state"

datatype 'w lock_action = Enter 'w string | Take 'w | Leave 'w | Cancel 'w

definition drop_user :: "string \<Rightarrow> nat \<Rightarrow> 'w lock_table \<Rightarrow> 'w lock_table" where
  "drop_user task_id entry s =
     (let users = lt_users s entry - 1;
          s = s\<lparr>lt_users := (lt_users s)(entry := users)\<rparr>
      in if users = 0 \<and> lt_locks s task_id = Some entry then s\<lparr>lt_locks := (lt_locks s)(task_id := None)\<rparr> else s)"

fun lock_step :: "'w lock_action \<Rightarrow> 'w lock_table \<Rightarrow> 'w lock_table option" where
  "lock_step (Enter w task_id) s =
     (if lt_handler s w = Idle
      then (case lt_locks s task_id of
              Some entry \<Rightarrow>
                Some (s\<lparr>lt_users := (lt_users s)(entry := lt_users s entry + 1),
                        lt_handler := (lt_handler s)(w := Waiting task_id entry)\<rparr>)
            | None \<Rightarrow>
                (let entry = lt_next s
                 in Some (s\<lparr>lt_locks := (lt_locks s)(task_id \<mapsto> entry), lt_users := (lt_users s)(entry := 1),
                            lt_holder := (lt_holder s)(entry := None), lt_next := entry + 1,
                            lt_handler := (lt_handler s)(w := Waiting task_id entry)\<rparr>)))
      else None)"
| "lock_step (Take w) s =
     (case lt_handler s w of
        Waiting task_id entry \<Rightarrow>
          if lt_holder s entry = None
          then Some (s\<lparr>lt_holder := (lt_holder s)(entry \<mapsto> w), lt_handler := (lt_handler s)(w := Storing task_id entry)\<rparr>)
          else None
      | _ \<Rightarrow> None)"
| "lock_step (Leave w) s =
     (case lt_handler s w of
        Storing task_id entry \<Rightarrow>
          Some (drop_user task_id entry
            (s\<lparr>lt_holder := (lt_holder s)(entry := None), lt_handler := (lt_handler s)(w := Idle)\<rparr>))
      | _ \<Rightarrow> None)"
| "lock_step (Cancel w) s =
     (case lt_handler s w of
        Waiting task_id entry \<Rightarrow> Some (drop_user task_id entry (s\<lparr>lt_handler := (lt_handler s)(w := Idle)\<rparr>))
      | _ \<Rightarrow> None)"

definition no_locks :: "'w lock_table" where
  "no_locks = \<lparr>lt_locks = (\<lambda>_. None), lt_users = (\<lambda>_. 0), lt_holder = (\<lambda>_. None), lt_next = 0, lt_handler = (\<lambda>_. Idle)\<rparr>"

inductive lock_reachable :: "'w lock_table \<Rightarrow> bool" where
  lr_start: "lock_reachable no_locks"
| lr_step: "lock_reachable s \<Longrightarrow> lock_step a s = Some s' \<Longrightarrow> lock_reachable s'"

fun uses :: "handler_state \<Rightarrow> (string \<times> nat) option" where
  "uses Idle = None"
| "uses (Waiting t i) = Some (t, i)"
| "uses (Storing t i) = Some (t, i)"

definition users_of :: "'w lock_table \<Rightarrow> nat \<Rightarrow> 'w set" where
  "users_of s i = {w. \<exists>t. uses (lt_handler s w) = Some (t, i)}"

definition lock_inv :: "'w lock_table \<Rightarrow> bool" where
  "lock_inv s =
     (finite {w. lt_handler s w \<noteq> Idle} \<and>
      (\<forall>w t i. uses (lt_handler s w) = Some (t, i) \<longrightarrow> lt_locks s t = Some i) \<and>
      (\<forall>t i. lt_locks s t = Some i \<longrightarrow> i < lt_next s \<and> lt_users s i = card (users_of s i) \<and> users_of s i \<noteq> {}) \<and>
      (\<forall>t u i. lt_locks s t = Some i \<longrightarrow> lt_locks s u = Some i \<longrightarrow> t = u) \<and>
      (\<forall>w t i. lt_handler s w = Storing t i \<longrightarrow> lt_holder s i = Some w) \<and>
      (\<forall>t i w. lt_locks s t = Some i \<longrightarrow> lt_holder s i = Some w \<longrightarrow> lt_handler s w = Storing t i))"

lemma lock_invD:
  assumes "lock_inv s"
  shows "finite {w. lt_handler s w \<noteq> Idle}"
    and "uses (lt_handler s w) = Some (t, i) \<Longrightarrow> lt_locks s t = Some i"
    and "lt_locks s t = Some i \<Longrightarrow> i < lt_next s"
    and "lt_locks s t = Some i \<Longrightarrow> lt_users s i = card (users_of s i)"
    and "lt_locks s t = Some i \<Longrightarrow> users_of s i \<noteq> {}"
    and "lt_locks s t = Some i \<Longrightarrow> lt_locks s u = Some i \<Longrightarrow> t = u"
    and "lt_handler s w = Storing t i \<Longrightarrow> lt_holder s i = Some w"
    and "lt_locks s t = Some i \<Longrightarrow> lt_holder s i = Some w \<Longrightarrow> lt_handler s w = Storing t i"
  using assms unfolding lock_inv_def by blast+

lemma finite_users_of: "lock_inv s \<Longrightarrow> finite (users_of s i)"
  by (rule finite_subset [OF _ lock_invD(1)]) (auto simp: users_of_def)

lemma users_of_upd:
  "lt_handler s' = (lt_handler s)(w := h) \<Longrightarrow>
     users_of s' i = (if \<exists>t. uses h = Some (t, i) then insert w (users_of s i) else users_of s i - {w})"
  by (auto simp: users_of_def)

lemma finite_active_upd:
  "finite {w. lt_handler s w \<noteq> Idle} \<Longrightarrow> finite {v. ((lt_handler s)(w := h)) v \<noteq> Idle}"
  by (rule finite_subset [of _ "insert w {w. lt_handler s w \<noteq> Idle}"]) auto

text \<open>Leaving an entry: the common part of leaving and being cancelled.\<close>

lemma drop_user_inv:
  assumes inv: "lock_inv s" and w: "uses (lt_handler s w) = Some (t, i)"
    and H: "\<And>j. holder j = (if j = i \<and> lt_holder s i = Some w then None else lt_holder s j)"
  shows "lock_inv (drop_user t i (s\<lparr>lt_holder := holder, lt_handler := (lt_handler s)(w := Idle)\<rparr>))"
proof -
  define s1 where "s1 = s\<lparr>lt_holder := holder, lt_handler := (lt_handler s)(w := Idle)\<rparr>"
  have lock: "lt_locks s t = Some i" using lock_invD(2) [OF inv w] .
  have wi: "w \<in> users_of s i" using w by (auto simp: users_of_def)
  have users1: "users_of s1 j = users_of s j - {w}" for j
    using users_of_upd [of s1 s w Idle j] by (simp add: s1_def)
  have other: "w \<notin> users_of s j" if "j \<noteq> i" for j using that w by (auto simp: users_of_def)
  define n where "n = lt_users s i - 1"
  have n: "n = card (users_of s i - {w})"
    using lock_invD(4) [OF inv lock] wi finite_users_of [OF inv, of i] by (simp add: n_def card_Diff_singleton)
  define s2 where "s2 = drop_user t i s1"
  have s2: "s2 = s1\<lparr>lt_users := (lt_users s)(i := n), lt_locks := (if n = 0 then (lt_locks s)(t := None) else lt_locks s)\<rparr>"
    using lock by (simp add: s2_def drop_user_def s1_def n_def Let_def)
  have users2: "users_of s2 j = users_of s j - {w}" for j using users1 by (simp add: users_of_def s2)
  have h2: "lt_handler s2 = (lt_handler s)(w := Idle)" by (simp add: s2 s1_def)
  have empty: "n = 0 \<longleftrightarrow> users_of s2 i = {}"
    using n finite_users_of [OF inv, of i] by (simp add: users2)
  have locks2: "lt_locks s2 u = Some j \<longleftrightarrow> lt_locks s u = Some j \<and> (u = t \<longrightarrow> n \<noteq> 0)" for u j
    by (auto simp: s2)
  have "lock_inv s2" unfolding lock_inv_def
  proof (intro conjI allI impI)
    show "finite {v. lt_handler s2 v \<noteq> Idle}" unfolding h2 by (rule finite_active_upd [OF lock_invD(1) [OF inv]])
  next
    fix v u j assume a: "uses (lt_handler s2 v) = Some (u, j)"
    then have v: "v \<noteq> w" "uses (lt_handler s v) = Some (u, j)" by (auto simp: h2 split: if_splits)
    have lu: "lt_locks s u = Some j" using lock_invD(2) [OF inv v(2)] .
    have "n \<noteq> 0" if "u = t"
    proof -
      have "j = i" using that lu lock by simp
      then have "v \<in> users_of s2 i" using a by (auto simp: users_of_def)
      then show ?thesis using empty by auto
    qed
    then show "lt_locks s2 u = Some j" using lu locks2 by blast
  next
    fix u j assume "lt_locks s2 u = Some j"
    then have l: "lt_locks s u = Some j" "u = t \<longrightarrow> n \<noteq> 0" using locks2 by auto
    show "j < lt_next s2" using lock_invD(3) [OF inv l(1)] by (simp add: s2 s1_def)
    show "lt_users s2 j = card (users_of s2 j)"
      unfolding users2 using n lock_invD(4) [OF inv l(1)] other [of j] by (cases "j = i") (simp_all add: s2 s1_def)
    show "users_of s2 j \<noteq> {}"
    proof (cases "j = i")
      case True
      then have "u = t" using lock_invD(6) [OF inv l(1)] lock by simp
      then show ?thesis using l(2) empty True by simp
    next
      case False
      then show ?thesis using lock_invD(5) [OF inv l(1)] other [of j] by (simp add: users2)
    qed
  next
    fix u v j assume "lt_locks s2 u = Some j" "lt_locks s2 v = Some j"
    then show "u = v" using lock_invD(6) [OF inv] locks2 by blast
  next
    fix v u j assume "lt_handler s2 v = Storing u j"
    then have v: "v \<noteq> w" "lt_handler s v = Storing u j" by (auto simp: h2 split: if_splits)
    then show "lt_holder s2 j = Some v" using lock_invD(7) [OF inv v(2)] H [of j] by (auto simp: s2 s1_def)
  next
    fix u j v assume a: "lt_locks s2 u = Some j" "lt_holder s2 j = Some v"
    then have l: "lt_locks s u = Some j" using locks2 by auto
    have hold: "lt_holder s j = Some v" "j = i \<longrightarrow> v \<noteq> w"
      using a(2) H [of j] by (auto simp: s2 s1_def split: if_splits)
    have st: "lt_handler s v = Storing u j" using lock_invD(8) [OF inv l hold(1)] .
    have "v \<noteq> w" using st w hold(2) by auto
    then show "lt_handler s2 v = Storing u j" using st by (simp add: h2)
  qed
  then show ?thesis by (simp add: s2_def s1_def)
qed

lemma enter_inv:
  assumes inv: "lock_inv s" and idle: "lt_handler s w = Idle" and step: "lock_step (Enter w t) s = Some s'"
  shows "lock_inv s'"
proof -
  define i where "i = (case lt_locks s t of Some e \<Rightarrow> e | None \<Rightarrow> lt_next s)"
  have h': "lt_handler s' = (lt_handler s)(w := Waiting t i)"
    using step idle by (auto simp: i_def Let_def split: option.splits)
  have l': "lt_locks s' = (lt_locks s)(t \<mapsto> i)"
    using step idle by (auto simp: i_def Let_def fun_eq_iff split: option.splits)
  have holder': "lt_holder s' = (if lt_locks s t = None then (lt_holder s)(i := None) else lt_holder s)"
    using step idle by (auto simp: i_def Let_def split: option.splits)
  have users': "lt_users s' = (lt_users s)(i := (if lt_locks s t = None then 1 else lt_users s i + 1))"
    using step idle by (auto simp: i_def Let_def split: option.splits)
  have next': "lt_next s' = (if lt_locks s t = None then lt_next s + 1 else lt_next s)"
    using step idle by (auto simp: Let_def split: option.splits)
  have new: "lt_locks s u \<noteq> Some (lt_next s)" for u using lock_invD(3) [OF inv] by fastforce
  have users_next: "users_of s (lt_next s) = {}"
    using lock_invD(2) [OF inv] new by (auto simp: users_of_def)
  have wout: "w \<notin> users_of s j" for j using idle by (auto simp: users_of_def)
  have U: "users_of s' j = (if j = i then insert w (users_of s i) else users_of s j)" for j
    using users_of_upd [OF h', of j] wout by auto
  have i_cases: "lt_locks s t = Some i \<or> (lt_locks s t = None \<and> i = lt_next s)"
    by (auto simp: i_def split: option.splits)
  have only_t: "lt_locks s u = Some i \<Longrightarrow> u = t" for u
    using i_cases lock_invD(6) [OF inv] new by auto
  show ?thesis unfolding lock_inv_def
  proof (intro conjI allI impI)
    show "finite {v. lt_handler s' v \<noteq> Idle}" unfolding h' by (rule finite_active_upd [OF lock_invD(1) [OF inv]])
  next
    fix v u j assume "uses (lt_handler s' v) = Some (u, j)"
    then show "lt_locks s' u = Some j"
      using lock_invD(2) [OF inv, of v u j] i_cases by (auto simp: h' l' split: if_splits)
  next
    fix u j assume a: "lt_locks s' u = Some j"
    then have j: "j = i \<or> (u \<noteq> t \<and> j \<noteq> i \<and> lt_locks s u = Some j)" using only_t by (auto simp: l' split: if_splits)
    show "j < lt_next s'" using j i_cases lock_invD(3) [OF inv] by (auto simp: next' less_Suc_eq)
    show "lt_users s' j = card (users_of s' j)"
      using j i_cases lock_invD(4) [OF inv] users_next wout finite_users_of [OF inv]
      by (auto simp: users' U)
    show "users_of s' j \<noteq> {}" using j lock_invD(5) [OF inv] by (auto simp: U)
  next
    fix u v j assume "lt_locks s' u = Some j" "lt_locks s' v = Some j"
    then show "u = v" using lock_invD(6) [OF inv] only_t by (auto simp: l' split: if_splits)
  next
    fix v u j assume "lt_handler s' v = Storing u j"
    then have "lt_handler s v = Storing u j" by (auto simp: h' split: if_splits)
    then show "lt_holder s' j = Some v"
      using lock_invD(7) [OF inv] lock_invD(2) [OF inv, of v u j] new i_cases by (auto simp: holder')
  next
    fix u j v assume a: "lt_locks s' u = Some j" "lt_holder s' j = Some v"
    then have "lt_locks s u = Some j" "lt_holder s j = Some v"
      using i_cases by (auto simp: l' holder' split: if_splits)
    from lock_invD(8) [OF inv this] idle show "lt_handler s' v = Storing u j" by (auto simp: h')
  qed
qed

lemma take_inv:
  assumes inv: "lock_inv s" and w: "lt_handler s w = Waiting t i" "lt_holder s i = None"
  shows "lock_inv (s\<lparr>lt_holder := (lt_holder s)(i \<mapsto> w), lt_handler := (lt_handler s)(w := Storing t i)\<rparr>)" (is "lock_inv ?s'")
proof -
  have lock: "lt_locks s t = Some i" using lock_invD(2) [OF inv, of w] w by simp
  have U: "users_of ?s' j = users_of s j" for j
    using users_of_upd [of ?s' s w "Storing t i" j] w by (auto simp: users_of_def)
  show ?thesis unfolding lock_inv_def U
  proof (intro conjI allI impI)
    show "finite {v. lt_handler ?s' v \<noteq> Idle}" using finite_active_upd [OF lock_invD(1) [OF inv]] by simp
  next
    fix v u j assume "uses (lt_handler ?s' v) = Some (u, j)"
    then show "lt_locks ?s' u = Some j" using lock_invD(2) [OF inv, of v u j] lock by (auto split: if_splits)
  next
    fix u j assume "lt_locks ?s' u = Some j"
    then have "lt_locks s u = Some j" by simp
    from lock_invD(3,4,5) [OF inv this]
    show "j < lt_next ?s'" "lt_users ?s' j = card (users_of s j)" "users_of s j \<noteq> {}" by simp_all
  next
    fix u v j assume "lt_locks ?s' u = Some j" "lt_locks ?s' v = Some j"
    then show "u = v" using lock_invD(6) [OF inv] by simp
  next
    fix v u j assume "lt_handler ?s' v = Storing u j"
    then show "lt_holder ?s' j = Some v" using lock_invD(7) [OF inv, of v u j] w(2) by (auto split: if_splits)
  next
    fix u j v assume "lt_locks ?s' u = Some j" "lt_holder ?s' j = Some v"
    then show "lt_handler ?s' v = Storing u j"
      using lock_invD(6) [OF inv, of u j t] lock_invD(8) [OF inv, of u j v] lock w(1) by (auto split: if_splits)
  qed
qed

lemma lock_step_inv: "lock_inv s \<Longrightarrow> lock_step a s = Some s' \<Longrightarrow> lock_inv s'"
proof (cases a)
  case (Enter w t)
  assume "lock_inv s" "lock_step a s = Some s'"
  then show ?thesis using enter_inv [of s w t s'] by (simp add: Enter split: if_splits)
next
  case (Take w)
  assume "lock_inv s" "lock_step a s = Some s'"
  then show ?thesis using take_inv [of s w] by (auto simp: Take split: handler_state.splits if_splits)
next
  case (Leave w)
  assume inv: "lock_inv s" and "lock_step a s = Some s'"
  then obtain t i where w: "lt_handler s w = Storing t i"
    and s': "s' = drop_user t i (s\<lparr>lt_holder := (lt_holder s)(i := None), lt_handler := (lt_handler s)(w := Idle)\<rparr>)"
    by (auto simp: Leave split: handler_state.splits)
  show ?thesis unfolding s'
    by (rule drop_user_inv [OF inv]) (use w lock_invD(7) [OF inv w] in auto)
next
  case (Cancel w)
  assume inv: "lock_inv s" and "lock_step a s = Some s'"
  then obtain t i where w: "lt_handler s w = Waiting t i"
    and s': "s' = drop_user t i (s\<lparr>lt_handler := (lt_handler s)(w := Idle)\<rparr>)"
    by (auto simp: Cancel split: handler_state.splits)
  have lock: "lt_locks s t = Some i" using lock_invD(2) [OF inv, of w] w by simp
  have "lt_holder s i \<noteq> Some w" using lock_invD(8) [OF inv lock, of w] w by auto
  then have "lock_inv (drop_user t i (s\<lparr>lt_holder := lt_holder s, lt_handler := (lt_handler s)(w := Idle)\<rparr>))"
    by (intro drop_user_inv [OF inv]) (use w in auto)
  then show ?thesis unfolding s' by simp
qed

lemma lock_reachable_inv: "lock_reachable s \<Longrightarrow> lock_inv s"
proof (induction rule: lock_reachable.induct)
  case lr_start
  show ?case by (simp add: lock_inv_def no_locks_def)
next
  case (lr_step s a s')
  then show ?case by (blast intro: lock_step_inv)
qed

text \<open>
  C28. Events of one task are stored one at a time: in every reachable state of any number of
  concurrent handlers, at most one of them is storing for a given task, although entries are
  created and deleted on the fly; and when no handler is active the lock table is empty.
\<close>
theorem status_hub_stores_in_turn:
  assumes "lock_reachable s"
  shows "(\<forall>v w t i j. lt_handler s v = Storing t i \<longrightarrow> lt_handler s w = Storing t j \<longrightarrow> v = w) \<and>
         ((\<forall>w. lt_handler s w = Idle) \<longrightarrow> (\<forall>t. lt_locks s t = None))"
proof -
  have inv: "lock_inv s" using assms by (rule lock_reachable_inv)
  have "v = w" if "lt_handler s v = Storing t i" "lt_handler s w = Storing t j" for v w t i j
  proof -
    have "i = j" using lock_invD(2) [OF inv, of v t i] lock_invD(2) [OF inv, of w t j] that by simp
    then show ?thesis using lock_invD(7) [OF inv that(1)] lock_invD(7) [OF inv that(2)] by simp
  qed
  moreover have "lt_locks s t = None" if "\<forall>w. lt_handler s w = Idle" for t
  proof (cases "lt_locks s t")
    case (Some i)
    with that lock_invD(5) [OF inv Some] show ?thesis by (auto simp: users_of_def)
  qed
  ultimately show ?thesis by blast
qed

text \<open>Two handlers of one task: the first stores, the second waits for the same lock.\<close>

theorem status_hub_stores_in_turn_witness:
  "\<exists>s. lock_reachable s \<and> lt_handler s (1 :: nat) = Storing ''t'' 0 \<and> lt_handler s 2 = Waiting ''t'' 0 \<and>
     (\<forall>w i. lt_handler s w = Storing ''t'' i \<longrightarrow> w = 1)"
proof -
  obtain a b s :: "nat lock_table" where run: "lock_step (Enter 1 ''t'') no_locks = Some a" "lock_step (Take 1) a = Some b"
      "lock_step (Enter 2 ''t'') b = Some s" and h: "lt_handler s 1 = Storing ''t'' 0" "lt_handler s 2 = Waiting ''t'' 0"
    by (simp add: no_locks_def Let_def)
  have reach: "lock_reachable s" by (rule lr_step[OF lr_step[OF lr_step[OF lr_start run(1)] run(2)] run(3)])
  from status_hub_stores_in_turn [OF this] h(1) have "w = 1" if "lt_handler s w = Storing ''t'' i" for w i using that by blast
  with reach h show ?thesis by blast
qed

end
