(* ===== verification/Base64.thy ===== *)
theory Base64
  imports Relayna_Prelude
begin

text \<open>
  \<^verbatim>\<open>base64.b64encode\<close> and \<^verbatim>\<open>base64.b64decode\<close> of the standard library, which dead-letter
  records use to keep message bodies: bytes are characters.  Decoding drops characters
  outside the alphabet, as the library does by default.
\<close>

definition sextet_char :: "nat \<Rightarrow> char" where
  "sextet_char i =
     (if i < 26 then char_of (65 + i) else if i < 52 then char_of (71 + i)
      else if i < 62 then char_of (i - 4) else if i = 62 then CHR ''+'' else CHR ''/'')"

definition sextet_value :: "char \<Rightarrow> nat option" where
  "sextet_value c = (let n = of_char c :: nat in
     if 65 \<le> n \<and> n \<le> 90 then Some (n - 65) else if 97 \<le> n \<and> n \<le> 122 then Some (n - 71)
     else if 48 \<le> n \<and> n \<le> 57 then Some (n + 4) else if n = 43 then Some 62 else if n = 47 then Some 63 else None)"

definition byte :: "char \<Rightarrow> nat" where
  "byte c = of_char c"

fun b64encode :: "string \<Rightarrow> string" where
  "b64encode [] = []"
| "b64encode [a] = [sextet_char (byte a div 4), sextet_char (byte a mod 4 * 16), CHR ''='', CHR ''='']"
| "b64encode [a, b] =
     [sextet_char (byte a div 4), sextet_char (byte a mod 4 * 16 + byte b div 16), sextet_char (byte b mod 16 * 4), CHR ''='']"
| "b64encode (a # b # c # rest) =
     [sextet_char (byte a div 4), sextet_char (byte a mod 4 * 16 + byte b div 16),
      sextet_char (byte b mod 16 * 4 + byte c div 64), sextet_char (byte c mod 64)] @ b64encode rest"

definition in_alphabet :: "char \<Rightarrow> bool" where
  "in_alphabet c = (sextet_value c \<noteq> None \<or> c = CHR ''='')"

definition padding_error :: "'a res" where
  "padding_error = Inl (ValueError ''Incorrect padding'')"

fun decode_groups :: "string \<Rightarrow> string res" where
  "decode_groups [] = Inr []"
| "decode_groups (p # q # r # s # rest) =
     (case (sextet_value p, sextet_value q, sextet_value r, sextet_value s) of
        (Some i, Some j, Some k, Some l) \<Rightarrow>
          bind_res (decode_groups rest) (\<lambda>tail.
            Inr ([char_of (i * 4 + j div 16), char_of (j mod 16 * 16 + k div 4), char_of (k mod 4 * 64 + l)] @ tail))
      | (Some i, Some j, Some k, None) \<Rightarrow> Inr [char_of (i * 4 + j div 16), char_of (j mod 16 * 16 + k div 4)]
      | (Some i, Some j, None, None) \<Rightarrow> Inr [char_of (i * 4 + j div 16)]
      | _ \<Rightarrow> padding_error)"
| "decode_groups _ = padding_error"

definition b64decode :: "string \<Rightarrow> string res" where
  "b64decode s = decode_groups (filter in_alphabet s)"

lemma byte_less: "byte c < 256"
proof -
  have "of_char c = of_char c mod (256 :: nat)" by (metis char_of_char of_char_of)
  then show ?thesis unfolding byte_def by (metis mod_less_divisor zero_less_numeral)
qed

lemma char_of_byte: "char_of (byte c) = c"
  by (simp add: byte_def)

lemma sextet_value_char: "i < 64 \<Longrightarrow> sextet_value (sextet_char i) = Some i"
  by (auto simp: sextet_value_def sextet_char_def Let_def of_char_of)

lemma sextet_value_pad: "sextet_value (CHR ''='') = None"
  by code_simp

lemma in_alphabet_sextet: "i < 64 \<Longrightarrow> in_alphabet (sextet_char i)"
  by (simp add: in_alphabet_def sextet_value_char)

lemma sextet_bounds:
  "byte a div 4 < 64" "byte a mod 4 * 16 < 64" "byte a mod 4 * 16 + byte b div 16 < 64"
  "byte b mod 16 * 4 < 64" "byte b mod 16 * 4 + byte c div 64 < 64" "byte c mod 64 < 64"
  using byte_less [of a] byte_less [of b] byte_less [of c] by (auto simp: less_mult_imp_div_less)

lemma byte_parts:
  "byte b div 16 div 16 = 0" "byte b div 16 mod 16 = byte b div 16"
  "byte c div 64 div 4 = 0" "byte c div 64 mod 4 = byte c div 64"
  using byte_less [of b] byte_less [of c] by auto

lemma alphabet_pad: "in_alphabet (CHR ''='')"
  by (simp add: in_alphabet_def)

lemma b64encode_alphabet: "filter in_alphabet (b64encode s) = b64encode s"
  by (induction s rule: b64encode.induct) (simp_all add: in_alphabet_sextet sextet_bounds alphabet_pad)

lemma b64decode_b64encode: "b64decode (b64encode s) = Inr s"
proof -
  have "decode_groups (b64encode s) = Inr s"
    by (induction s rule: b64encode.induct)
      (simp_all add: sextet_value_char sextet_bounds sextet_value_pad byte_parts char_of_byte)
  then show ?thesis by (simp add: b64decode_def b64encode_alphabet)
qed

end
