(* ===== verification/Dlq_Store.thy ===== *)
theory Dlq_Store
  imports Redis Routing Base64
begin

text \<open>
  \<^verbatim>\<open>dlq/models.py\<close> and \<^verbatim>\<open>dlq/store.py\<close>: dead-letter records, how they are built from a dead
  message, and the Redis store that indexes, pages, claims and updates them.  Decoding UTF-8
  text and JSON when a body is inspected, and pydantic's conversion of a record to and from
  JSON text, are arguments.  Instants are microseconds.
\<close>

subsection \<open>dlq/models.py\<close>

datatype dlq_record_state = DEAD_LETTERED | REPLAYED

datatype investigation_status = UNREVIEWED | INVESTIGATED

datatype failed_retry_status = NOT_RETRIED | RETRIED

record dlq_diagnosis =
  dd_failure_reason :: string
  dd_exception_type :: "string option"
  dd_terminal_retry_attempt :: int
  dd_attempt :: int
  dd_max_retries :: int
  dd_source_queue_name :: string
  dd_retry_queue_name :: string
  dd_policy_name :: "string option"
  dd_policy_reason :: "string option"
  dd_consumer_name :: "string option"
  dd_task_id :: "string option"
  dd_correlation_id :: "string option"
  dd_task_type :: "string option"
  dd_workflow_stage :: "string option"
  dd_action :: "string option"
  dd_content_type :: "string option"
  dd_body_encoding :: string
  dd_recommended_action :: string
  dd_warnings :: "string list"

record dlq_record =
  dr_dlq_id :: string
  dr_failure_id :: "string option"
  dr_queue_name :: string
  dr_source_queue_name :: string
  dr_retry_queue_name :: string
  dr_task_id :: "string option"
  dr_correlation_id :: "string option"
  dr_service_name :: "string option"
  dr_reason :: string
  dr_exception_type :: "string option"
  dr_exception_message :: "string option"
  dr_retry_attempt :: int
  dr_max_retries :: int
  dr_headers :: dict
  dr_content_type :: "string option"
  dr_body :: pyval
  dr_body_encoding :: string
  dr_raw_body_b64 :: string
  dr_dead_lettered_at :: int
  dr_state :: dlq_record_state
  dr_replay_count :: int
  dr_replayed_at :: "int option"
  dr_replay_target_queue_name :: "string option"
  dr_diagnosis :: "dlq_diagnosis option"
  dr_failed_at :: "int option"
  dr_status :: string
  dr_traceback :: "string option"
  dr_worker_id :: "string option"
  dr_runtime_name :: "string option"
  dr_runtime_version :: "string option"
  dr_input_preview :: pyval
  dr_metadata :: dict
  dr_last_logs :: "dict list"
  dr_payload_available :: bool
  dr_investigation_status :: investigation_status
  dr_investigated_at :: "int option"
  dr_investigated_by :: "string option"
  dr_investigation_note :: "string option"
  dr_retry_status :: failed_retry_status
  dr_retried_at :: "int option"
  dr_retried_by :: "string option"
  dr_retried_task_id :: "string option"
  dr_retry_target_queue :: "string option"
  dr_retry_note :: "string option"

text \<open>The standard library's decoding of bytes and JSON, digests and ISO dates.\<close>

record text_codecs =
  tc_utf8 :: "string \<Rightarrow> string option"
  tc_json :: "string \<Rightarrow> pyval option"
  tc_sha :: "string \<Rightarrow> string"
  tc_isoformat :: "int \<Rightarrow> string"

definition inspect_dead_letter_body :: "text_codecs \<Rightarrow> string \<Rightarrow> pyval \<times> string \<times> string" where
  "inspect_dead_letter_body C body =
     (let raw_body_b64 = b64encode body in
      case tc_utf8 C body of
        None \<Rightarrow> (PStr raw_body_b64, ''base64'', raw_body_b64)
      | Some decoded \<Rightarrow>
          (case tc_json C decoded of
             Some v \<Rightarrow> (v, ''json'', raw_body_b64)
           | None \<Rightarrow> (PStr decoded, ''text'', raw_body_b64)))"

definition build_dlq_id :: "text_codecs \<Rightarrow> string \<Rightarrow> string \<Rightarrow> string option \<Rightarrow> int \<Rightarrow> string \<Rightarrow> int \<Rightarrow> string" where
  "build_dlq_id C queue_name source_queue_name correlation_id retry_attempt body dead_lettered_at =
     tc_sha C (queue_name @ source_queue_name @ or_text correlation_id [] @ int_str retry_attempt @
               tc_isoformat C dead_lettered_at @ body)"

definition string_or_none :: "pyval \<Rightarrow> string option" where
  "string_or_none value =
     (if value = PNone then None else let text = strip (py_str value) in if text = [] then None else Some text)"

definition envelope_field :: "pyval \<Rightarrow> string \<Rightarrow> string option" where
  "envelope_field body k = (case body of PDict d \<Rightarrow> string_or_none (dict_get d k) | _ \<Rightarrow> None)"

definition build_dlq_diagnosis ::
  "string \<Rightarrow> string \<Rightarrow> string option \<Rightarrow> string option \<Rightarrow> string \<Rightarrow> string option \<Rightarrow> int \<Rightarrow> int \<Rightarrow> string option \<Rightarrow>
   pyval \<Rightarrow> string \<Rightarrow> string option \<Rightarrow> dlq_diagnosis" where
  "build_dlq_diagnosis source_queue_name retry_queue_name task_id correlation_id reason exception_type
       retry_attempt max_retries content_type inspected_body body_encoding consumer_name =
     \<lparr>dd_failure_reason = reason, dd_exception_type = exception_type, dd_terminal_retry_attempt = retry_attempt,
      dd_attempt = retry_attempt, dd_max_retries = max_retries, dd_source_queue_name = source_queue_name,
      dd_retry_queue_name = retry_queue_name, dd_policy_name = None, dd_policy_reason = Some reason,
      dd_consumer_name = consumer_name, dd_task_id = task_id, dd_correlation_id = correlation_id,
      dd_task_type = envelope_field inspected_body ''task_type'',
      dd_workflow_stage = envelope_field inspected_body ''stage'',
      dd_action = envelope_field inspected_body ''action'',
      dd_content_type = content_type, dd_body_encoding = body_encoding,
      dd_recommended_action = ''review_before_replay'',
      dd_warnings =
        (if reason \<in> {''malformed_json'', ''invalid_envelope'', ''unsupported_action'', ''dedup_conflict''}
         then [''Replay may fail again until '' @ quoted reason @ '' is resolved.''] else []) @
        (if max_retries \<le> retry_attempt then [''Message reached the configured retry limit.''] else [])\<rparr>"

record dead_letter =
  dl_queue_name :: string
  dl_source_queue_name :: string
  dl_retry_queue_name :: string
  dl_task_id :: "string option"
  dl_correlation_id :: "string option"
  dl_reason :: string
  dl_exception_type :: "string option"
  dl_retry_attempt :: int
  dl_max_retries :: int
  dl_headers :: dict
  dl_content_type :: "string option"
  dl_body :: string
  dl_consumer_name :: "string option"
  dl_diagnosis :: "dlq_diagnosis option"
  dl_exception_message :: "string option"
  dl_traceback :: "string option"
  dl_metadata :: dict

definition build_dlq_record :: "text_codecs \<Rightarrow> int \<Rightarrow> dead_letter \<Rightarrow> dlq_record" where
  "build_dlq_record C timestamp a =
     (let (inspected_body, body_encoding, raw_body_b64) = inspect_dead_letter_body C (dl_body a);
          dlq_id = build_dlq_id C (dl_queue_name a) (dl_source_queue_name a) (dl_correlation_id a)
                     (dl_retry_attempt a) (dl_body a) timestamp;
          diagnosis = (case dl_diagnosis a of Some d \<Rightarrow> d | None \<Rightarrow>
            build_dlq_diagnosis (dl_source_queue_name a) (dl_retry_queue_name a) (dl_task_id a) (dl_correlation_id a)
              (dl_reason a) (dl_exception_type a) (dl_retry_attempt a) (dl_max_retries a) (dl_content_type a)
              inspected_body body_encoding (dl_consumer_name a))
      in \<lparr>dr_dlq_id = dlq_id, dr_failure_id = Some dlq_id, dr_queue_name = dl_queue_name a,
          dr_source_queue_name = dl_source_queue_name a, dr_retry_queue_name = dl_retry_queue_name a,
          dr_task_id = dl_task_id a, dr_correlation_id = dl_correlation_id a, dr_service_name = dl_consumer_name a,
          dr_reason = dl_reason a, dr_exception_type = dl_exception_type a,
          dr_exception_message = dl_exception_message a, dr_retry_attempt = dl_retry_attempt a,
          dr_max_retries = dl_max_retries a, dr_headers = dl_headers a, dr_content_type = dl_content_type a,
          dr_body = inspected_body, dr_body_encoding = body_encoding, dr_raw_body_b64 = raw_body_b64,
          dr_dead_lettered_at = timestamp, dr_state = DEAD_LETTERED, dr_replay_count = 0, dr_replayed_at = None,
          dr_replay_target_queue_name = None, dr_diagnosis = Some diagnosis, dr_failed_at = Some timestamp,
          dr_status = ''DLQ'', dr_traceback = dl_traceback a, dr_worker_id = dl_consumer_name a,
          dr_runtime_name = Some ''relayna-worker'', dr_runtime_version = None, dr_input_preview = inspected_body,
          dr_metadata = dl_metadata a, dr_last_logs = [], dr_payload_available = True,
          dr_investigation_status = UNREVIEWED, dr_investigated_at = None, dr_investigated_by = None,
          dr_investigation_note = None, dr_retry_status = NOT_RETRIED, dr_retried_at = None, dr_retried_by = None,
          dr_retried_task_id = None, dr_retry_target_queue = None, dr_retry_note = None\<rparr>)"

subsection \<open>dlq/store.py\<close>

record 'r dlq_store =
  ds_redis :: "'r redis"
  ds_prefix :: string
  ds_ttl_seconds :: "int option"
  ds_sha :: "string \<Rightarrow> string"
  ds_dump :: "dlq_record \<Rightarrow> string"
  ds_load :: "string \<Rightarrow> dlq_record res"

definition record_key :: "'r dlq_store \<Rightarrow> string \<Rightarrow> string" where
  "record_key S dlq_id = redis_key (ds_sha S) (ds_prefix S) ''dlq'' [''dlq'', ''record'', dlq_id]"

definition records_key :: "'r dlq_store \<Rightarrow> string" where
  "records_key S = redis_key (ds_sha S) (ds_prefix S) ''dlq'' [''dlq'', ''records'']"

definition failed_tasks_index_key :: "'r dlq_store \<Rightarrow> string" where
  "failed_tasks_index_key S = redis_key (ds_sha S) (ds_prefix S) ''dlq'' [''failed_tasks'', ''index'']"

definition replay_lock_key :: "'r dlq_store \<Rightarrow> string \<Rightarrow> string" where
  "replay_lock_key S dlq_id = redis_key (ds_sha S) (ds_prefix S) ''dlq'' [''dlq'', ''replay-lock'', dlq_id]"

definition failed_score :: "dlq_record \<Rightarrow> int" where
  "failed_score rec = (case dr_failed_at rec of Some t \<Rightarrow> t | None \<Rightarrow> dr_dead_lettered_at rec)"

definition dlq_add :: "'r dlq_store \<Rightarrow> int \<Rightarrow> dlq_record \<Rightarrow> ('r, unit) io" where
  "dlq_add S now rec =
     io_bind (pipeline (ds_redis S) now
       ([SET (record_key S (dr_dlq_id rec)) (ds_dump S rec) (ds_ttl_seconds S) False,
         LPUSH (records_key S) (dr_dlq_id rec),
         ZADD (failed_tasks_index_key S) (dr_dlq_id rec) (failed_score rec)] @
        (case ds_ttl_seconds S of
           Some n \<Rightarrow> if n \<noteq> 0 then [EXPIRE (records_key S) n, EXPIRE (failed_tasks_index_key S) n] else []
         | None \<Rightarrow> []))) (\<lambda>_. io_return ())"

definition load_record :: "'r dlq_store \<Rightarrow> string option \<Rightarrow> dlq_record option res" where
  "load_record S payload =
     (case payload of None \<Rightarrow> Inr None | Some p \<Rightarrow> bind_res (ds_load S p) (\<lambda>rec. Inr (Some rec)))"

definition dlq_get :: "'r dlq_store \<Rightarrow> int \<Rightarrow> string \<Rightarrow> ('r, dlq_record option) io" where
  "dlq_get S now dlq_id =
     io_bind (exec (ds_redis S) now (GET (record_key S dlq_id))) (\<lambda>reply.
     io_bind (io_lift (reply_text reply)) (\<lambda>payload. io_lift (load_record S payload)))"

definition get_many :: "'r dlq_store \<Rightarrow> int \<Rightarrow> string list \<Rightarrow> ('r, dlq_record option list) io" where
  "get_many S now dlq_ids =
     (if dlq_ids = [] then io_return []
      else io_bind (exec (ds_redis S) now (MGET (map (record_key S) dlq_ids))) (\<lambda>reply.
           io_bind (io_lift (reply_texts reply)) (\<lambda>payloads. io_lift (map_res (load_record S) payloads))))"

definition wanted :: "string option \<Rightarrow> string option \<Rightarrow> bool" where
  "wanted required value = (case required of None \<Rightarrow> True | Some f \<Rightarrow> f = [] \<or> value = Some f)"

record record_filter =
  rf_queue_name :: "string option"
  rf_task_id :: "string option"
  rf_reason :: "string option"
  rf_source_queue_name :: "string option"
  rf_state :: "dlq_record_state option"

definition record_matches :: "record_filter \<Rightarrow> dlq_record \<Rightarrow> bool" where
  "record_matches f rec =
     (wanted (rf_queue_name f) (Some (dr_queue_name rec)) \<and> wanted (rf_task_id f) (dr_task_id rec) \<and>
      wanted (rf_reason f) (Some (dr_reason rec)) \<and> wanted (rf_source_queue_name f) (Some (dr_source_queue_name rec)) \<and>
      (case rf_state f of None \<Rightarrow> True | Some st \<Rightarrow> dr_state rec = st))"

type_synonym page = "dlq_record list \<times> string option"

text \<open>
  The loop over the records of a chunk: it leaves with a full page as soon as one more than
  a page was found, and otherwise goes on with what it has.
\<close>

definition full_page :: "nat \<Rightarrow> dlq_record list \<Rightarrow> page" where
  "full_page page_size items = (take page_size items, Some (dr_dlq_id (items ! (page_size - 1))))"

fun scan_records :: "(dlq_record \<Rightarrow> bool) \<Rightarrow> nat \<Rightarrow> dlq_record option list \<Rightarrow> dlq_record list \<Rightarrow> page + dlq_record list" where
  "scan_records p page_size [] items = Inr items"
| "scan_records p page_size (None # recs) items = scan_records p page_size recs items"
| "scan_records p page_size (Some rec # recs) items =
     (if \<not> p rec then scan_records p page_size recs items
      else let items = items @ [rec]
           in if page_size < length items then Inl (full_page page_size items)
              else scan_records p page_size recs items)"

text \<open>
  The loop over chunks runs against the server, so it is bounded by \<open>fuel\<close>; running out is
  \<open>None\<close>, which the lemmas below exclude.
\<close>

fun list_chunks ::
  "nat \<Rightarrow> 'r dlq_store \<Rightarrow> int \<Rightarrow> (dlq_record \<Rightarrow> bool) \<Rightarrow> nat \<Rightarrow> int \<Rightarrow> int \<Rightarrow> dlq_record list \<Rightarrow> ('r, page option) io" where
  "list_chunks 0 S now p page_size chunk_size offset items = io_return None"
| "list_chunks (Suc fuel) S now p page_size chunk_size offset items =
     (if page_size < length items then io_return (Some (items, None))
      else
        io_bind (exec (ds_redis S) now (LRANGE (records_key S) offset (offset + chunk_size - 1))) (\<lambda>reply.
        io_bind (io_lift (reply_texts reply)) (\<lambda>raw_ids.
        let ids = present raw_ids in
        if ids = [] then io_return (Some (items, None))
        else io_bind (get_many S now ids) (\<lambda>recs.
             case scan_records p page_size recs items of
               Inl page \<Rightarrow> io_return (Some page)
             | Inr items \<Rightarrow>
                 if int (length ids) < chunk_size then io_return (Some (items, None))
                 else list_chunks fuel S now p page_size chunk_size (offset + int (length ids)) items))))"

definition list_records ::
  "nat \<Rightarrow> 'r dlq_store \<Rightarrow> int \<Rightarrow> record_filter \<Rightarrow> string option \<Rightarrow> int \<Rightarrow> ('r, page option) io" where
  "list_records fuel S now f cursor limit =
     io_bind (case (if cursor = Some [] then None else cursor) of
         None \<Rightarrow> io_return 0
       | Some c \<Rightarrow> io_bind (exec (ds_redis S) now (LPOS (records_key S) c)) (\<lambda>reply.
           io_return (case reply of IntR pos \<Rightarrow> pos + 1 | _ \<Rightarrow> 0))) (\<lambda>start_index.
       let page_size = max 1 limit; chunk_size = max 100 (page_size * 2)
       in list_chunks fuel S now (record_matches f) (nat page_size) chunk_size start_index [])"

record failed_filter =
  ff_service_name :: "string option"
  ff_queue_name :: "string option"
  ff_dlq_name :: "string option"
  ff_error_type :: "string option"
  ff_status :: "string option"
  ff_task_id :: "string option"
  ff_worker_id :: "string option"
  ff_investigation_status :: "investigation_status option"

definition failed_record_matches :: "failed_filter \<Rightarrow> dlq_record \<Rightarrow> bool" where
  "failed_record_matches f rec =
     (wanted (ff_service_name f) (dr_service_name rec) \<and> wanted (ff_queue_name f) (Some (dr_source_queue_name rec)) \<and>
      wanted (ff_dlq_name f) (Some (dr_queue_name rec)) \<and> wanted (ff_error_type f) (dr_exception_type rec) \<and>
      wanted (ff_status f) (Some (dr_status rec)) \<and> wanted (ff_task_id f) (dr_task_id rec) \<and>
      wanted (ff_worker_id f) (dr_worker_id rec) \<and>
      (case ff_investigation_status f of None \<Rightarrow> True | Some st \<Rightarrow> dr_investigation_status rec = st))"

text \<open>
  The scan of a chunk of the failed-task index: until the cursor is met, matching records go
  to the head (one page and one more at most), after it to the items.
\<close>

record failed_scan =
  fs_items :: "dlq_record list"
  fs_head :: "dlq_record list"
  fs_cursor_found :: bool

fun scan_failed ::
  "(dlq_record \<Rightarrow> bool) \<Rightarrow> nat \<Rightarrow> string option \<Rightarrow> (string \<times> dlq_record option) list \<Rightarrow> failed_scan \<Rightarrow> page + failed_scan" where
  "scan_failed p page_size cursor [] st = Inr st"
| "scan_failed p page_size cursor ((dlq_id, rec) # recs) st =
     (let hit = (case rec of None \<Rightarrow> False | Some x \<Rightarrow> p x) in
      if \<not> fs_cursor_found st
      then
        let st = (if hit \<and> length (fs_head st) \<le> page_size then st\<lparr>fs_head := fs_head st @ [the rec]\<rparr> else st)
        in scan_failed p page_size cursor recs (if Some dlq_id = cursor then st\<lparr>fs_cursor_found := True\<rparr> else st)
      else if \<not> hit then scan_failed p page_size cursor recs st
      else
        let st = st\<lparr>fs_items := fs_items st @ [the rec]\<rparr>
        in if page_size < length (fs_items st) then Inl (full_page page_size (fs_items st))
           else scan_failed p page_size cursor recs st)"

definition finish_failed :: "nat \<Rightarrow> string option \<Rightarrow> failed_scan \<Rightarrow> page" where
  "finish_failed page_size cursor st =
     (if cursor \<noteq> None \<and> \<not> fs_cursor_found st
      then (if page_size < length (fs_head st) then full_page page_size (fs_head st) else (fs_head st, None))
      else (fs_items st, None))"

fun failed_chunks ::
  "nat \<Rightarrow> 'r dlq_store \<Rightarrow> int \<Rightarrow> (dlq_record \<Rightarrow> bool) \<Rightarrow> int option \<Rightarrow> int option \<Rightarrow> string option \<Rightarrow> nat \<Rightarrow> int \<Rightarrow> int \<Rightarrow>
   failed_scan \<Rightarrow> ('r, page option) io" where
  "failed_chunks 0 S now p hi lo cursor page_size chunk_size offset st = io_return None"
| "failed_chunks (Suc fuel) S now p hi lo cursor page_size chunk_size offset st =
     (if page_size < length (fs_items st) then io_return (Some (finish_failed page_size cursor st))
      else
        io_bind (exec (ds_redis S) now (ZREVRANGEBYSCORE (failed_tasks_index_key S) hi lo offset chunk_size)) (\<lambda>reply.
        io_bind (io_lift (reply_texts reply)) (\<lambda>raw_ids.
        let ids = present raw_ids in
        if ids = [] then io_return (Some (finish_failed page_size cursor st))
        else io_bind (get_many S now ids) (\<lambda>recs.
             if length recs \<noteq> length ids then io_raise (ValueError ''zip() arguments have different lengths'')
             else case scan_failed p page_size cursor (zip ids recs) st of
               Inl page \<Rightarrow> io_return (Some page)
             | Inr st \<Rightarrow>
                 if int (length ids) < chunk_size then io_return (Some (finish_failed page_size cursor st))
                 else failed_chunks fuel S now p hi lo cursor page_size chunk_size (offset + int (length ids)) st))))"

definition list_failed_task_records ::
  "nat \<Rightarrow> 'r dlq_store \<Rightarrow> int \<Rightarrow> failed_filter \<Rightarrow> int option \<Rightarrow> int option \<Rightarrow> string option \<Rightarrow> int \<Rightarrow> ('r, page option) io" where
  "list_failed_task_records fuel S now f failed_from failed_to cursor limit =
     (let page_size = max 1 limit; chunk_size = max 100 (page_size * 2)
      in failed_chunks fuel S now (failed_record_matches f) failed_to failed_from cursor (nat page_size) chunk_size 0
           \<lparr>fs_items = [], fs_head = [], fs_cursor_found = (cursor = None)\<rparr>)"

fun chunks_of :: "nat \<Rightarrow> 'a list \<Rightarrow> 'a list list" where
  "chunks_of n [] = []"
| "chunks_of n (x # xs) = take (Suc (n - 1)) (x # xs) # chunks_of n (drop (Suc (n - 1)) (x # xs))"

definition count_record :: "dlq_record option \<Rightarrow> (string \<times> int \<times> int) list \<Rightarrow> (string \<times> int \<times> int) list" where
  "count_record rec counts =
     (case rec of
        None \<Rightarrow> counts
      | Some x \<Rightarrow>
          (let (n, latest) = (case map_of counts (dr_queue_name x) of
                 None \<Rightarrow> (0, dr_dead_lettered_at x)
               | Some (n, t) \<Rightarrow> (n, if dr_dead_lettered_at x > t then dr_dead_lettered_at x else t))
           in AList.update (dr_queue_name x) (n + 1, latest) counts))"

definition summarize_queues :: "'r dlq_store \<Rightarrow> int \<Rightarrow> ('r, (string \<times> int \<times> int option) list) io" where
  "summarize_queues S now =
     io_bind (exec (ds_redis S) now (LRANGE (records_key S) 0 (- 1))) (\<lambda>reply.
     io_bind (io_lift (reply_texts reply)) (\<lambda>raw_ids.
     io_bind (io_map (get_many S now) (chunks_of 500 (present raw_ids))) (\<lambda>recs.
       let counts = fold count_record (concat recs) []
       in io_return (map (\<lambda>(q, n, t). (q, n, Some t)) (sort_key fst counts)))))"

definition release_replay_claim :: "'r dlq_store \<Rightarrow> int \<Rightarrow> string \<Rightarrow> ('r, unit) io" where
  "release_replay_claim S now dlq_id =
     io_bind (exec (ds_redis S) now (DEL (replay_lock_key S dlq_id))) (\<lambda>_. io_return ())"

definition claim_replay :: "'r dlq_store \<Rightarrow> int \<Rightarrow> string \<Rightarrow> bool \<Rightarrow> ('r, dlq_record option) io" where
  "claim_replay S now dlq_id force =
     io_bind (exec (ds_redis S) now (SET (replay_lock_key S dlq_id) ''1'' (Some 30) True)) (\<lambda>lock_acquired.
     if \<not> reply_true lock_acquired
     then io_raise (DLQReplayConflict dlq_id ''DLQ replay is already in progress.'')
     else io_catch
       (io_bind (dlq_get S now dlq_id) (\<lambda>rec.
          case rec of
            None \<Rightarrow> io_return None
          | Some x \<Rightarrow>
              if dr_state x = REPLAYED \<and> \<not> force
              then io_raise (DLQReplayConflict dlq_id (''DLQ message '' @ quoted dlq_id @ '' has already been replayed.''))
              else io_return (Some x)))
       (\<lambda>e. io_bind (release_replay_claim S now dlq_id) (\<lambda>_. io_raise e)))"

definition mark_replayed :: "'r dlq_store \<Rightarrow> int \<Rightarrow> string \<Rightarrow> int \<Rightarrow> string \<Rightarrow> ('r, dlq_record option) io" where
  "mark_replayed S now dlq_id replayed_at target_queue_name =
     io_bind (dlq_get S now dlq_id) (\<lambda>rec.
     case rec of
       None \<Rightarrow> io_return None
     | Some x \<Rightarrow>
         let updated = x\<lparr>dr_state := REPLAYED, dr_replay_count := dr_replay_count x + 1,
                         dr_replayed_at := Some replayed_at, dr_replay_target_queue_name := Some target_queue_name\<rparr>
         in io_bind (exec (ds_redis S) now (SET (record_key S (dr_dlq_id updated)) (ds_dump S updated) (ds_ttl_seconds S) False))
              (\<lambda>_. io_return (Some updated)))"

definition dlq_update :: "'r dlq_store \<Rightarrow> int \<Rightarrow> dlq_record \<Rightarrow> ('r, dlq_record) io" where
  "dlq_update S now rec =
     io_bind (exec (ds_redis S) now (SET (record_key S (dr_dlq_id rec)) (ds_dump S rec) (ds_ttl_seconds S) False)) (\<lambda>_.
     io_bind (exec (ds_redis S) now (ZADD (failed_tasks_index_key S) (dr_dlq_id rec) (failed_score rec))) (\<lambda>_.
       io_return rec))"

definition dlq_delete :: "'r dlq_store \<Rightarrow> int \<Rightarrow> string \<Rightarrow> ('r, bool) io" where
  "dlq_delete S now dlq_id =
     io_bind (exec (ds_redis S) now (DEL (record_key S dlq_id))) (\<lambda>deleted.
     io_bind (exec (ds_redis S) now (ZREM (failed_tasks_index_key S) dlq_id)) (\<lambda>_. io_return (reply_true deleted)))"

definition cleanup_failed_task_index :: "'r dlq_store \<Rightarrow> int \<Rightarrow> int option \<Rightarrow> ('r, int) io" where
  "cleanup_failed_task_index S now older_than =
     (case (older_than, ds_ttl_seconds S) of
        (None, None) \<Rightarrow> io_return 0
      | (None, Some ttl) \<Rightarrow>
          io_bind (exec (ds_redis S) now (ZREMRANGEBYSCORE (failed_tasks_index_key S) (now - seconds ttl)))
            (\<lambda>reply. io_lift (reply_int reply))
      | (Some t, _) \<Rightarrow>
          io_bind (exec (ds_redis S) now (ZREMRANGEBYSCORE (failed_tasks_index_key S) t)) (\<lambda>reply. io_lift (reply_int reply)))"

subsection \<open>Paging\<close>

definition page_of :: "nat \<Rightarrow> dlq_record list \<Rightarrow> page" where
  "page_of page_size matches =
     (if page_size < length matches then full_page page_size matches else (matches, None))"

text \<open>
  The keyspace as the pages see it: the text stored under an id, the record it stands for,
  the matching records among some ids, and where the page after a cursor starts.
\<close>

definition record_text :: "'r dlq_store \<Rightarrow> int \<Rightarrow> keyspace \<Rightarrow> string \<Rightarrow> string option" where
  "record_text S now d i = (case live now d (record_key S i) of Some (StrV s, _) \<Rightarrow> Some s | _ \<Rightarrow> None)"

definition record_of :: "'r dlq_store \<Rightarrow> int \<Rightarrow> keyspace \<Rightarrow> string \<Rightarrow> dlq_record option" where
  "record_of S now d i =
     (case record_text S now d i of
        None \<Rightarrow> None
      | Some s \<Rightarrow> (case ds_load S s of Inr rec \<Rightarrow> Some rec | Inl _ \<Rightarrow> None))"

definition matches_from :: "'r dlq_store \<Rightarrow> (dlq_record \<Rightarrow> bool) \<Rightarrow> int \<Rightarrow> keyspace \<Rightarrow> string list \<Rightarrow> dlq_record list" where
  "matches_from S p now d ids = filter p (present (map (record_of S now d) ids))"

definition start_of :: "string option \<Rightarrow> string list \<Rightarrow> nat" where
  "start_of cursor L = (case (if cursor = Some [] then None else cursor) of
     None \<Rightarrow> 0 | Some c \<Rightarrow> (case position c L of None \<Rightarrow> 0 | Some i \<Rightarrow> i + 1))"

lemma page_of_append: "page_size < length xs \<Longrightarrow> 0 < page_size \<Longrightarrow> page_of page_size (xs @ ys) = full_page page_size xs"
  by (auto simp: page_of_def full_page_def nth_append)

lemma scan_records_spec:
  assumes "length items \<le> page_size" "0 < page_size"
  shows "scan_records p page_size recs items =
    (let found = items @ filter p (present recs)
     in if page_size < length found then Inl (page_of page_size found) else Inr found)"
  using assms
proof (induction p page_size recs items rule: scan_records.induct)
  case (3 p page_size rec recs items)
  show ?case
  proof (cases "p rec \<and> page_size < length (items @ [rec])")
    case True
    then show ?thesis
      using page_of_append [of page_size "items @ [rec]" "filter p (present recs)"] 3(4)
      by (simp add: present_def Let_def)
  next
    case False
    then show ?thesis using 3 by (auto simp: present_def Let_def)
  qed
qed (auto simp: present_def page_of_def Let_def)

lemma present_some [simp]: "present (map Some xs) = xs"
  by (simp add: present_def comp_def)

lemma present_append [simp]: "present (xs @ ys) = present xs @ present ys"
  by (simp add: present_def)

locale dlq_backend = redis_server "ds_redis S" \<alpha> for S :: "'r dlq_store" and \<alpha> :: "'r \<Rightarrow> keyspace"
begin

lemma get_many_ok:
  assumes "get_many S now ids r = (Inr recs, r')"
  shows "\<alpha> r' = \<alpha> r \<and> list_all2 (\<lambda>i rec. load_record S (record_text S now (\<alpha> r) i) = Inr rec) ids recs"
proof (cases "ids = []")
  case False
  then obtain x ps where mg: "exec (ds_redis S) now (MGET (map (record_key S) ids)) r = (Inr x, r')"
    and ps: "reply_texts x = Inr ps" "map_res (load_record S) ps = Inr recs"
    using assms by (auto simp: get_many_def io_simps)
  have "ps = map (record_text S now (\<alpha> r)) ids" "\<alpha> r' = \<alpha> r"
    using exec_mget [OF mg] ps(1) by (auto simp: reply_texts_def record_text_def comp_def)
  then show ?thesis using ps(2) by (auto simp: map_res_Inr_iff list_all2_conv_all_nth)
qed (use assms in \<open>simp add: get_many_def io_simps\<close>)

lemma lrange_ok:
  assumes "exec (ds_redis S) now (LRANGE k a b) r = (Inr x, r')" "with_list now (\<alpha> r) k = Inr (xs, t)"
  shows "\<alpha> r' = \<alpha> r \<and> x = ArrayR (map Some (list_slice a b xs))"
  using exec_Inr [OF assms(1)] assms(2) by (cases x) (auto simp: reply_or_def)

lemma get_many_records:
  assumes "get_many S now ids r = (Inr recs, r')"
  shows "\<alpha> r' = \<alpha> r" "recs = map (record_of S now (\<alpha> r)) ids"
proof -
  have "rec = record_of S now (\<alpha> r) i" if "load_record S (record_text S now (\<alpha> r) i) = Inr rec" for i rec
    using that by (auto simp: load_record_def record_of_def split: option.splits)
  then show "\<alpha> r' = \<alpha> r" "recs = map (record_of S now (\<alpha> r)) ids"
    using get_many_ok [OF assms] by (auto simp: list_all2_conv_all_nth list_eq_iff_nth_eq)
qed

lemma list_slice_chunk:
  assumes "0 \<le> offset" "0 < chunk"
  shows "list_slice offset (offset + chunk - 1) xs = take (nat chunk) (drop (nat offset) xs)"
  using assms by (simp add: list_slice_def list_index_def Let_def)

lemma list_chunks_ok:
  assumes "with_list now (\<alpha> r) (records_key S) = Inr (L, t)" "0 \<le> offset" "0 < chunk" "0 < page_size"
    and "length items \<le> page_size"
    and "list_chunks fuel S now p page_size chunk offset items r = (Inr result, r')"
  shows "(result = None \<and> fuel \<le> length (drop (nat offset) L)) \<or>
         result = Some (page_of page_size (items @ matches_from S p now (\<alpha> r) (drop (nat offset) L)))"
  using assms
proof (induction fuel arbitrary: offset items r)
  case (Suc fuel)
  from Suc.prems(5,6) obtain x r1 raw where lr: "exec (ds_redis S) now (LRANGE (records_key S) offset (offset + chunk - 1)) r = (Inr x, r1)"
    and raw: "reply_texts x = Inr raw"
    and rest: "(let ids = present raw in
        if ids = [] then io_return (Some (items, None))
        else io_bind (get_many S now ids) (\<lambda>recs.
             case scan_records p page_size recs items of
               Inl page \<Rightarrow> io_return (Some page)
             | Inr items \<Rightarrow>
                 if int (length ids) < chunk then io_return (Some (items, None))
                 else list_chunks fuel S now p page_size chunk (offset + int (length ids)) items)) r1 = (Inr result, r')"
    by (auto simp: io_simps split: if_splits)
  define ids where "ids = take (nat chunk) (drop (nat offset) L)"
  have ids: "present raw = ids" and \<alpha>1: "\<alpha> r1 = \<alpha> r"
    using lrange_ok [OF lr Suc.prems(1)] raw list_slice_chunk [OF Suc.prems(2,3), of L]
    by (auto simp: reply_texts_def ids_def)
  define found where "found = items @ matches_from S p now (\<alpha> r) ids"
  have split: "drop (nat offset) L = ids @ drop (nat chunk) (drop (nat offset) L)"
    unfolding ids_def by (rule append_take_drop_id [symmetric])
  have total: "items @ matches_from S p now (\<alpha> r) (drop (nat offset) L) =
      found @ matches_from S p now (\<alpha> r) (drop (nat chunk) (drop (nat offset) L))"
    by (subst split) (simp add: found_def matches_from_def)
  show ?case
  proof (cases "ids = []")
    case True
    then have "drop (nat offset) L = []" using Suc.prems(3) by (auto simp: ids_def)
    moreover have "result = Some (items, None)" using rest True by (simp add: ids io_simps Let_def)
    ultimately show ?thesis using Suc.prems(5) by (simp add: page_of_def matches_from_def present_def)
  next
    case False
    obtain recs r2 where gm: "get_many S now ids r1 = (Inr recs, r2)"
      and rest2: "(case scan_records p page_size recs items of
               Inl page \<Rightarrow> io_return (Some page)
             | Inr items \<Rightarrow>
                 if int (length ids) < chunk then io_return (Some (items, None))
                 else list_chunks fuel S now p page_size chunk (offset + int (length ids)) items) r2 = (Inr result, r')"
      using rest False by (auto simp: ids io_simps Let_def)
    have recs: "recs = map (record_of S now (\<alpha> r)) ids" and \<alpha>2: "\<alpha> r2 = \<alpha> r"
      using get_many_records [OF gm] \<alpha>1 by auto
    have scan: "scan_records p page_size recs items =
        (if page_size < length found then Inl (page_of page_size found) else Inr found)"
      using scan_records_spec [OF Suc.prems(5,4), of p recs] by (simp add: Let_def found_def matches_from_def recs)
    show ?thesis
    proof (cases "page_size < length found")
      case True
      then show ?thesis using rest2 scan total page_of_append [OF True Suc.prems(4)]
        by (auto simp: io_simps page_of_def)
    next
      case nf: False
      show ?thesis
      proof (cases "int (length ids) < chunk")
        case True
        then have "length (drop (nat offset) L) < nat chunk" by (auto simp: ids_def min_def split: if_splits)
        then show ?thesis using rest2 scan nf True total
          by (auto simp: io_simps page_of_def matches_from_def present_def)
      next
        case False
        then have len: "int (length ids) = chunk" using Suc.prems(3) by (auto simp: ids_def min_def split: if_splits)
        have "(result = None \<and> fuel \<le> length (drop (nat (offset + chunk)) L)) \<or>
            result = Some (page_of page_size (found @ matches_from S p now (\<alpha> r2) (drop (nat (offset + chunk)) L)))"
        proof (rule Suc.IH)
          show "with_list now (\<alpha> r2) (records_key S) = Inr (L, t)" using Suc.prems(1) by (simp add: \<alpha>2)
          show "list_chunks fuel S now p page_size chunk (offset + chunk) found r2 = (Inr result, r')"
            using rest2 scan nf False len by simp
        qed (use Suc.prems nf in auto)
        moreover have "drop (nat (offset + chunk)) L = drop (nat chunk) (drop (nat offset) L)"
          using Suc.prems(2,3) by (simp add: nat_add_distrib add.commute)
        moreover have "fuel \<le> length (drop (nat chunk) (drop (nat offset) L)) \<Longrightarrow> Suc fuel \<le> length (drop (nat offset) L)"
          using len Suc.prems(3) by (simp add: ids_def)
        ultimately show ?thesis using total by (auto simp: \<alpha>2)
      qed
    qed
  qed
qed (simp add: io_simps)

lemma lpos_ok:
  assumes "exec (ds_redis S) now (LPOS k v) r = (Inr x, r')" "with_list now (\<alpha> r) k = Inr (xs, t)"
  shows "\<alpha> r' = \<alpha> r \<and> x = (case position v xs of None \<Rightarrow> NilR | Some i \<Rightarrow> IntR (int i))"
  using exec_Inr [OF assms(1)] assms(2) by (cases x) (auto simp: reply_or_def split: option.splits)

lemma list_records_ok:
  assumes L: "with_list now (\<alpha> r) (records_key S) = Inr (L, t)" and fuel: "length L < fuel"
    and run: "list_records fuel S now f cursor limit r = (Inr result, r')"
  shows "result = Some (page_of (nat (max 1 limit)) (matches_from S (record_matches f) now (\<alpha> r) (drop (start_of cursor L) L)))"
proof -
  from run obtain start r1 where
    start: "(case (if cursor = Some [] then None else cursor) of
         None \<Rightarrow> io_return 0
       | Some c \<Rightarrow> io_bind (exec (ds_redis S) now (LPOS (records_key S) c)) (\<lambda>reply.
           io_return (case reply of IntR pos \<Rightarrow> pos + 1 | _ \<Rightarrow> 0))) r = (Inr start, r1)"
    and chunks: "list_chunks fuel S now (record_matches f) (nat (max 1 limit)) (max 100 (max 1 limit * 2)) start [] r1 = (Inr result, r')"
    by (auto simp: list_records_def io_simps Let_def)
  have s: "\<alpha> r1 = \<alpha> r \<and> start = int (start_of cursor L)"
  proof (cases "if cursor = Some [] then None else cursor")
    case None
    then show ?thesis using start by (simp add: io_simps start_of_def)
  next
    case (Some c)
    with start obtain x where e: "exec (ds_redis S) now (LPOS (records_key S) c) r = (Inr x, r1)"
      and "start = (case x of IntR pos \<Rightarrow> pos + 1 | _ \<Rightarrow> 0)"
      by (auto simp: io_simps)
    then show ?thesis using lpos_ok [OF e L] Some by (cases "position c L") (simp_all add: start_of_def)
  qed
  have "(result = None \<and> fuel \<le> length (drop (nat start) L)) \<or>
      result = Some (page_of (nat (max 1 limit)) ([] @ matches_from S (record_matches f) now (\<alpha> r1) (drop (nat start) L)))"
    by (rule list_chunks_ok [OF _ _ _ _ _ chunks]) (use L s in auto)
  then show ?thesis using s fuel by auto
qed

end

subsection \<open>Pages partition the matches\<close>

lemma position_append: "c \<notin> set A \<Longrightarrow> position c (A @ c # B) = Some (length A)"
  by (induction A) (auto simp: position_def)

lemma matches_from_append: "matches_from S p now d (A @ B) = matches_from S p now d A @ matches_from S p now d B"
  by (simp add: matches_from_def)

lemma matches_from_ids:
  "\<forall>i rec. record_of S now d i = Some rec \<longrightarrow> dr_dlq_id rec = i \<Longrightarrow>
     rec \<in> set (matches_from S p now d A) \<Longrightarrow> dr_dlq_id rec \<in> set A \<and> record_of S now d (dr_dlq_id rec) = Some rec \<and> p rec"
  by (auto simp: matches_from_def present_def)

lemma matches_from_before:
  assumes ids: "\<forall>i rec. record_of S now d i = Some rec \<longrightarrow> dr_dlq_id rec = i" and "c \<notin> set A"
    and rec: "record_of S now d c = Some rec" "p rec" and nth: "matches_from S p now d (A @ [c]) @ M = M'"
    and n: "n < length M'" "M' ! n = rec" "distinct (map dr_dlq_id M')"
  shows "n = length (matches_from S p now d A)"
proof -
  have "matches_from S p now d (A @ [c]) = matches_from S p now d A @ [rec]"
    using rec by (simp add: matches_from_def present_def)
  then have at: "M' ! length (matches_from S p now d A) = rec" "length (matches_from S p now d A) < length M'"
    using nth by (auto simp: nth_append)
  show ?thesis
    using n at nth_eq_iff_index_eq [of "map dr_dlq_id M'" n "length (matches_from S p now d A)"] by simp
qed

lemma distinct_matches:
  assumes "\<forall>i rec. record_of S now d i = Some rec \<longrightarrow> dr_dlq_id rec = i"
  shows "distinct A \<Longrightarrow> distinct (map dr_dlq_id (matches_from S p now d A))"
proof (induction A)
  case (Cons a A)
  have IH: "distinct (map dr_dlq_id (matches_from S p now d A))" and a: "a \<notin> set A" using Cons by auto
  show ?case
  proof (cases "\<exists>rec. record_of S now d a = Some rec \<and> p rec")
    case True
    then obtain rec where rec: "record_of S now d a = Some rec" "p rec" by blast
    then have step: "matches_from S p now d (a # A) = rec # matches_from S p now d A"
      by (simp add: matches_from_def present_def)
    have id: "dr_dlq_id rec = a" using assms rec(1) by blast
    have "a \<notin> dr_dlq_id ` set (matches_from S p now d A)"
      using matches_from_ids [OF assms, of _ p A] a by blast
    then show ?thesis using IH by (simp add: step id)
  next
    case False
    then have "matches_from S p now d (a # A) = matches_from S p now d A"
      by (cases "record_of S now d a") (simp_all add: matches_from_def present_def)
    then show ?thesis using IH by simp
  qed
qed (simp add: matches_from_def present_def)

lemma pages_partition:
  assumes ids: "\<forall>i rec. record_of S now d i = Some rec \<longrightarrow> dr_dlq_id rec = i" and "distinct L" "[] \<notin> set L" "0 < n"
    and page: "page_of n (matches_from S p now d (drop s L)) = (items, Some c)"
  shows "items @ matches_from S p now d (drop (start_of (Some c) L) L) = matches_from S p now d (drop s L)"
proof -
  define M where "M = matches_from S p now d (drop s L)"
  have n: "n < length M" and items: "items = take n M" and c: "c = dr_dlq_id (M ! (n - 1))"
    using page by (auto simp: page_of_def full_page_def M_def split: if_splits)
  have m: "M ! (n - 1) \<in> set M" using n by simp
  have rec: "c \<in> set (drop s L)" "record_of S now d c = Some (M ! (n - 1))" "p (M ! (n - 1))"
    using matches_from_ids [OF ids, of _ p "drop s L"] m by (auto simp: c M_def)
  obtain A B where AB: "drop s L = A @ c # B" using split_list [OF rec(1)] by blast
  have dist: "distinct (take s L @ A @ c # B)" using assms(2) AB by (metis append_take_drop_id)
  define P where "P = take s L @ A"
  have LP: "L = P @ c # B" using AB unfolding P_def by (metis append.assoc append_take_drop_id)
  have "c \<notin> set P" using dist by (auto simp: P_def)
  moreover have "c \<noteq> []" using assms(3) rec(1) by (auto dest: in_set_dropD)
  ultimately have start: "drop (start_of (Some c) L) L = B"
    using position_append [of c P B] by (simp add: start_of_def LP)
  have Mv: "matches_from S p now d (A @ [c]) @ matches_from S p now d B = M"
    using matches_from_append [of S p now d "A @ [c]" B] by (simp add: M_def AB)
  have "n - 1 = length (matches_from S p now d A)"
    by (rule matches_from_before [where M' = M and p = p, OF ids _ rec(2,3) Mv _ refl])
      (use dist n assms(4) distinct_matches [OF ids, of "drop s L" p] AB in \<open>auto simp: M_def\<close>)
  moreover have "matches_from S p now d (A @ [c]) = matches_from S p now d A @ [M ! (n - 1)]"
    using rec by (simp add: matches_from_def present_def)
  ultimately have "take n M = matches_from S p now d (A @ [c])"
    using Mv assms(4) by (metis Suc_diff_1 append_eq_conv_conj length_append_singleton)
  then show ?thesis using Mv items start by (simp add: M_def)
qed

text \<open>
  C32. A page of dead-letter records is exact: with the record list \<open>L\<close> in Redis, the chunked
  loop returns (within \<open>length L + 1\<close> rounds) the first \<open>max 1 limit\<close> records after the cursor
  that match the filters, with a cursor to continue from exactly when more follow.
\<close>
theorem dlq_page_exact:
  assumes "redis_server (ds_redis S) \<alpha>" "with_list now (\<alpha> r) (records_key S) = Inr (L, t)" "length L < fuel"
    and "list_records fuel S now f cursor limit r = (Inr result, r')"
  shows "result = Some (page_of (nat (max 1 limit)) (matches_from S (record_matches f) now (\<alpha> r) (drop (start_of cursor L) L)))"
proof -
  have "dlq_backend S \<alpha>" using assms(1) by (simp add: dlq_backend_def)
  from dlq_backend.list_records_ok [OF this assms(2-4)] show ?thesis .
qed

text \<open>
  Following the cursors loses and repeats nothing: when a page comes with a cursor, its
  items followed by all matches the next page can draw from are exactly the matches this page
  drew from.
\<close>
theorem dlq_pages_partition:
  assumes "redis_server (ds_redis S) \<alpha>" "with_list now (\<alpha> r) (records_key S) = Inr (L, t)" "length L < fuel"
    and "distinct L" "[] \<notin> set L" "\<forall>i rec. record_of S now (\<alpha> r) i = Some rec \<longrightarrow> dr_dlq_id rec = i"
    and "list_records fuel S now f cursor limit r = (Inr (Some (items, Some c)), r')"
  shows "items @ matches_from S (record_matches f) now (\<alpha> r) (drop (start_of (Some c) L) L) =
         matches_from S (record_matches f) now (\<alpha> r) (drop (start_of cursor L) L)"
proof -
  have "dlq_backend S \<alpha>" using assms(1) by (simp add: dlq_backend_def)
  from dlq_backend.list_records_ok [OF this assms(2,3,7)]
  have "page_of (nat (max 1 limit)) (matches_from S (record_matches f) now (\<alpha> r) (drop (start_of cursor L) L)) = (items, Some c)"
    by simp
  from pages_partition [OF assms(6,4,5) _ this] show ?thesis by simp
qed

text \<open>
  A dead letter keeps the message: the body that a replay decodes from the record is the
  body that was dead-lettered, byte for byte, whatever encoding was detected for display.
\<close>
theorem dead_letter_keeps_body: "b64decode (dr_raw_body_b64 (build_dlq_record C timestamp a)) = Inr (dl_body a)"
proof -
  have "dr_raw_body_b64 (build_dlq_record C timestamp a) = b64encode (dl_body a)"
    by (simp add: build_dlq_record_def inspect_dead_letter_body_def Let_def split: option.splits)
  then show ?thesis by (simp add: b64decode_b64encode)
qed

subsection \<open>Concrete instances\<close>

definition sample_record :: dlq_record where
  "sample_record = build_dlq_record \<lparr>tc_utf8 = Some, tc_json = (\<lambda>_. None), tc_sha = (\<lambda>_. ''d1''), tc_isoformat = (\<lambda>_. ''now'')\<rparr> 0
     \<lparr>dl_queue_name = ''q.dlq'', dl_source_queue_name = ''q'', dl_retry_queue_name = ''q.retry'', dl_task_id = Some ''t'',
      dl_correlation_id = None, dl_reason = ''handler_error'', dl_exception_type = Some ''ValueError'', dl_retry_attempt = 3,
      dl_max_retries = 3, dl_headers = [(''x-relayna-retry-attempt'', PInt 3)], dl_content_type = None, dl_body = ''body'',
      dl_consumer_name = None, dl_diagnosis = None, dl_exception_message = None, dl_traceback = None, dl_metadata = []\<rparr>"

definition any_record :: record_filter where
  "any_record = \<lparr>rf_queue_name = None, rf_task_id = None, rf_reason = None, rf_source_queue_name = None, rf_state = None\<rparr>"

text \<open>A store of two records whose text is their id.\<close>

definition sample_list_store :: "keyspace dlq_store" where
  "sample_list_store = \<lparr>ds_redis = mem_redis, ds_prefix = ''relayna'', ds_ttl_seconds = None, ds_sha = (\<lambda>_. ''0123456789abcdef''),
     ds_dump = dr_dlq_id, ds_load = (\<lambda>s. Inr (sample_record\<lparr>dr_dlq_id := s\<rparr>))\<rparr>"

interpretation mem_dlq: dlq_backend sample_list_store id
  by (simp add: dlq_backend_def sample_list_store_def mem_redis.redis_server_axioms)

definition sample_list :: keyspace where
  "sample_list k = (if k = record_key sample_list_store ''d1'' then Some (StrV ''d1'', None)
     else if k = record_key sample_list_store ''d2'' then Some (StrV ''d2'', None)
     else if k = records_key sample_list_store then Some (ListV [''d2'', ''d1''], None) else None)"

lemma sample_list_backend: "redis_server (ds_redis sample_list_store) id"
  by (simp add: sample_list_store_def mem_redis.redis_server_axioms)

lemma sample_list_ids: "with_list 0 (id sample_list) (records_key sample_list_store) = Inr ([''d2'', ''d1''], None)"
  by (simp add: with_list_def live_def sample_list_def record_key_def records_key_def)

lemma sample_list_page:
  "\<exists>items r'. list_records 3 sample_list_store 0 any_record None 1 sample_list = (Inr (Some (items, Some ''d2'')), r')"
proof -
  have "(case fst (list_records 3 sample_list_store 0 any_record None 1 sample_list) of
      Inr (Some (items, Some c)) \<Rightarrow> c = ''d2'' | _ \<Rightarrow> False)"
    by code_simp
  then show ?thesis
    by (cases "list_records 3 sample_list_store 0 any_record None 1 sample_list")
      (auto split: sum.splits option.splits)
qed

theorem dlq_page_exact_witness:
  "\<exists>result r'. list_records 3 sample_list_store 0 any_record None 1 sample_list = (Inr result, r') \<and>
     result = Some (page_of (nat (max 1 1))
       (matches_from sample_list_store (record_matches any_record) 0 (id sample_list) (drop (start_of None [''d2'', ''d1'']) [''d2'', ''d1''])))"
proof -
  obtain items r' where run: "list_records 3 sample_list_store 0 any_record None 1 sample_list = (Inr (Some (items, Some ''d2'')), r')"
    using sample_list_page by blast
  have "length [''d2'', ''d1''] < (3 :: nat)" by simp
  from dlq_page_exact [OF sample_list_backend sample_list_ids this run] run show ?thesis by blast
qed

theorem dlq_pages_partition_witness:
  "\<exists>items r'. list_records 3 sample_list_store 0 any_record None 1 sample_list = (Inr (Some (items, Some ''d2'')), r') \<and>
     items @ matches_from sample_list_store (record_matches any_record) 0 (id sample_list) (drop (start_of (Some ''d2'') [''d2'', ''d1'']) [''d2'', ''d1'']) =
     matches_from sample_list_store (record_matches any_record) 0 (id sample_list) (drop (start_of None [''d2'', ''d1'']) [''d2'', ''d1''])"
proof -
  obtain items r' where run: "list_records 3 sample_list_store 0 any_record None 1 sample_list = (Inr (Some (items, Some ''d2'')), r')"
    using sample_list_page by blast
  have keys: "record_key sample_list_store i \<noteq> records_key sample_list_store" for i
    by (simp add: record_key_def records_key_def)
  have "\<forall>i rec. record_of sample_list_store 0 (id sample_list) i = Some rec \<longrightarrow> dr_dlq_id rec = i"
    by (auto simp: record_of_def record_text_def sample_list_def live_def keys split: if_splits option.splits)
      (auto simp: sample_list_store_def record_key_def)
  from dlq_pages_partition [OF sample_list_backend sample_list_ids _ _ _ this run] run show ?thesis by fastforce
qed

end
