(* ===== verification/Dlq_Service.thy ===== *)
theory Dlq_Service
  imports Dlq_Store Status_Store
begin

text \<open>
  \<^verbatim>\<open>dlq/service.py\<close>: listing, replaying, investigating and manually retrying dead-lettered
  tasks.  The service holds its dead-letter store, an optional status store, and the calls it
  makes on the RabbitMQ client (publishing raw bytes to a queue, inspecting a queue), which
  are arguments acting on the same world state as Redis.
\<close>

record queue_inspection =
  qi_exists :: bool
  qi_message_count :: "int option"

record published =
  pb_queue :: string
  pb_body :: string
  pb_correlation_id :: "string option"
  pb_headers :: dict
  pb_content_type :: "string option"

record broker_message =
  bm_queue_name :: string
  bm_message_key :: string
  bm_task_id :: "string option"
  bm_body :: pyval

record 'r dlq_service =
  sv_store :: "'r dlq_store"
  sv_status_store :: "'r status_store option"
  sv_publish_raw :: "published \<Rightarrow> ('r, unit) io"
  sv_inspect_queue :: "string \<Rightarrow> ('r, int option) io"
  sv_isoformat :: "int \<Rightarrow> string"
  sv_encode_json :: "pyval \<Rightarrow> string"
  sv_broker_inspector :: "(string \<Rightarrow> int \<Rightarrow> ('r, broker_message list) io) option"

subsection \<open>Replay\<close>

definition copy_header :: "string \<Rightarrow> string \<Rightarrow> dict \<Rightarrow> dict" where
  "copy_header from_key to_key headers =
     (case map_of headers from_key of Some v \<Rightarrow> AList.update to_key v headers | None \<Rightarrow> headers)"

definition replay_headers :: "(int \<Rightarrow> string) \<Rightarrow> dlq_record \<Rightarrow> int \<Rightarrow> dict" where
  "replay_headers fmt rec replayed_at =
     (let headers = dr_headers rec;
          headers = copy_header ''x-relayna-retry-attempt'' ''x-relayna-original-retry-attempt'' headers;
          headers = copy_header ''x-relayna-failure-reason'' ''x-relayna-original-failure-reason'' headers;
          headers = copy_header ''x-relayna-exception-type'' ''x-relayna-original-exception-type'' headers;
          headers = AList.update ''x-relayna-replayed-from-dlq'' (PBool True) headers;
          headers = AList.update ''x-relayna-dlq-id'' (PStr (dr_dlq_id rec)) headers;
          headers = AList.update ''x-relayna-replayed-at'' (PStr (fmt replayed_at)) headers;
          headers = AList.update ''x-relayna-retry-attempt'' (PInt 0) headers
      in AList.delete ''x-relayna-exception-type'' (AList.delete ''x-relayna-failure-reason'' headers))"

record dlq_replay_result =
  rp_dlq_id :: string
  rp_target_queue_name :: string
  rp_state :: dlq_record_state
  rp_replayed_at :: int
  rp_replay_count :: int
  rp_forced :: bool

definition replay_message :: "'r dlq_service \<Rightarrow> int \<Rightarrow> string \<Rightarrow> bool \<Rightarrow> ('r, dlq_replay_result option) io" where
  "replay_message V now dlq_id force =
     io_bind (claim_replay (sv_store V) now dlq_id force) (\<lambda>rec.
     case rec of
       None \<Rightarrow> io_bind (release_replay_claim (sv_store V) now dlq_id) (\<lambda>_. io_return None)
     | Some x \<Rightarrow>
         io_finally
           (io_bind (io_lift (b64decode (dr_raw_body_b64 x))) (\<lambda>body.
            io_bind (sv_publish_raw V \<lparr>pb_queue = dr_retry_queue_name x, pb_body = body,
                pb_correlation_id = dr_correlation_id x, pb_headers = replay_headers (sv_isoformat V) x now,
                pb_content_type = dr_content_type x\<rparr>) (\<lambda>_.
            io_bind (mark_replayed (sv_store V) now (dr_dlq_id x) now (dr_retry_queue_name x)) (\<lambda>updated.
            case updated of
              None \<Rightarrow> io_return None
            | Some u \<Rightarrow> io_return (Some
                \<lparr>rp_dlq_id = dr_dlq_id u, rp_target_queue_name = dr_retry_queue_name u, rp_state = dr_state u,
                 rp_replayed_at = (case dr_replayed_at u of Some t \<Rightarrow> t | None \<Rightarrow> now),
                 rp_replay_count = dr_replay_count u, rp_forced = force\<rparr>)))))
           (release_replay_claim (sv_store V) now dlq_id))"

subsection \<open>Manual retry and investigation\<close>

record failed_retry_request =
  rq_target_queue :: "string option"
  rq_override_payload :: pyval
  rq_retried_by :: "string option"
  rq_note :: "string option"

definition no_retry_request :: failed_retry_request where
  "no_retry_request = \<lparr>rq_target_queue = None, rq_override_payload = PNone, rq_retried_by = None, rq_note = None\<rparr>"

record failed_retry_result =
  fr_failure_id :: string
  fr_target_queue :: string
  fr_retry_status :: failed_retry_status
  fr_retried_at :: int
  fr_retried_by :: "string option"
  fr_retried_task_id :: "string option"

definition retry_payload_bytes :: "'r dlq_service \<Rightarrow> dlq_record \<Rightarrow> pyval \<Rightarrow> string res" where
  "retry_payload_bytes V rec override_payload =
     (case override_payload of
        PNone \<Rightarrow> b64decode (dr_raw_body_b64 rec)
      | PStr s \<Rightarrow> Inr s
      | v \<Rightarrow> Inr (sv_encode_json V v))"

definition task_id_from_payload :: "pyval \<Rightarrow> string option" where
  "task_id_from_payload payload =
     (case payload of
        PDict d \<Rightarrow> (case dict_get d ''task_id'' of PNone \<Rightarrow> None | v \<Rightarrow> Some (py_str v))
      | _ \<Rightarrow> None)"

definition manual_retry_headers :: "(int \<Rightarrow> string) \<Rightarrow> dlq_record \<Rightarrow> string \<Rightarrow> int \<Rightarrow> dict" where
  "manual_retry_headers fmt rec failure_id retried_at =
     (let headers = AList.update ''x-relayna-manual-retry-from-failure-id'' (PStr failure_id) (dr_headers rec);
          headers = AList.update ''x-relayna-manual-retry-at'' (PStr (fmt retried_at)) headers;
          headers = AList.update ''x-relayna-retry-attempt'' (PInt 0) headers
      in AList.delete ''x-relayna-exception-type'' (AList.delete ''x-relayna-failure-reason'' headers))"

definition retry_failed_task ::
  "'r dlq_service \<Rightarrow> int \<Rightarrow> string \<Rightarrow> failed_retry_request option \<Rightarrow> ('r, failed_retry_result option) io" where
  "retry_failed_task V now failure_id request =
     io_bind (dlq_get (sv_store V) now failure_id) (\<lambda>rec.
     case rec of
       None \<Rightarrow> io_return None
     | Some x \<Rightarrow>
         if dr_status x \<notin> {''DLQ'', ''retry_exhausted'', ''terminal_failed''}
         then io_raise (FailedTaskRetryRejected failure_id ''manual_retry_not_allowed'')
         else if \<not> dr_payload_available x \<or> dr_raw_body_b64 x = []
         then io_raise (FailedTaskRetryRejected failure_id ''manual_retry_payload_unavailable'')
         else
           let retry_request = (case request of Some q \<Rightarrow> q | None \<Rightarrow> no_retry_request);
               target_queue = or_text (rq_target_queue retry_request) (dr_source_queue_name x)
           in io_bind (io_lift (retry_payload_bytes V x (rq_override_payload retry_request))) (\<lambda>payload.
              io_bind (sv_publish_raw V \<lparr>pb_queue = target_queue, pb_body = payload,
                  pb_correlation_id = dr_correlation_id x,
                  pb_headers = manual_retry_headers (sv_isoformat V) x failure_id now,
                  pb_content_type = dr_content_type x\<rparr>) (\<lambda>_.
              let retried_task_id = (if rq_override_payload retry_request \<noteq> PNone
                    then task_id_from_payload (rq_override_payload retry_request) else dr_task_id x);
                  updated = x\<lparr>dr_retry_status := RETRIED, dr_retried_at := Some now,
                      dr_retried_by := Some (or_text (rq_retried_by retry_request) ''operator''),
                      dr_retried_task_id := retried_task_id, dr_retry_target_queue := Some target_queue,
                      dr_retry_note := rq_note retry_request\<rparr>
              in io_bind (dlq_update (sv_store V) now updated) (\<lambda>_.
                 io_return (Some \<lparr>fr_failure_id = failure_id, fr_target_queue = target_queue,
                    fr_retry_status = RETRIED, fr_retried_at = now, fr_retried_by = dr_retried_by updated,
                    fr_retried_task_id = retried_task_id\<rparr>)))))"

record failed_task_detail =
  fd_record :: dlq_record
  fd_failure_id :: string
  fd_failed_at :: int
  fd_error_message :: string
  fd_last_logs :: "pyval list"
  fd_latest_status :: "pyval option"
  fd_status_history :: "pyval list"

text \<open>
  The detail view: the record's own fields, with the identifiers and times \<^verbatim>\<open>_failed_summary\<close>
  resolves, and the task's status history (whose last hundred entries stand in for missing
  logs).
\<close>

definition get_failed_task_detail :: "'r dlq_service \<Rightarrow> int \<Rightarrow> string \<Rightarrow> ('r, failed_task_detail option) io" where
  "get_failed_task_detail V now failure_id =
     io_bind (dlq_get (sv_store V) now failure_id) (\<lambda>rec.
     case rec of
       None \<Rightarrow> io_return None
     | Some x \<Rightarrow>
         io_bind (case (sv_status_store V, dr_task_id x) of
             (Some S, Some task_id) \<Rightarrow>
               if task_id = [] then io_return (None, [])
               else io_bind (get_latest S now task_id) (\<lambda>latest.
                    io_bind (get_history S now task_id None) (\<lambda>history. io_return (latest, history)))
           | _ \<Rightarrow> io_return (None, [])) (\<lambda>(latest, history).
         io_return (Some \<lparr>fd_record = x, fd_failure_id = or_text (dr_failure_id x) (dr_dlq_id x),
             fd_failed_at = failed_score x,
             fd_error_message = or_text (dr_exception_message x) (dr_reason x),
             fd_last_logs = (if dr_last_logs x \<noteq> [] then map PDict (dr_last_logs x) else drop (length history - 100) history),
             fd_latest_status = latest, fd_status_history = history\<rparr>)))"

definition mark_failed_task_investigated ::
  "'r dlq_service \<Rightarrow> int \<Rightarrow> string \<Rightarrow> string option \<Rightarrow> string option \<Rightarrow> ('r, failed_task_detail option) io" where
  "mark_failed_task_investigated V now failure_id investigated_by note =
     io_bind (dlq_get (sv_store V) now failure_id) (\<lambda>rec.
     case rec of
       None \<Rightarrow> io_return None
     | Some x \<Rightarrow>
         io_bind (dlq_update (sv_store V) now (x\<lparr>dr_investigation_status := INVESTIGATED,
             dr_investigated_at := Some now, dr_investigated_by := Some (or_text investigated_by ''operator''),
             dr_investigation_note := note\<rparr>)) (\<lambda>_.
           get_failed_task_detail V now failure_id))"

definition mark_failed_task_uninvestigated ::
  "'r dlq_service \<Rightarrow> int \<Rightarrow> string \<Rightarrow> ('r, failed_task_detail option) io" where
  "mark_failed_task_uninvestigated V now failure_id =
     io_bind (dlq_get (sv_store V) now failure_id) (\<lambda>rec.
     case rec of
       None \<Rightarrow> io_return None
     | Some x \<Rightarrow>
         io_bind (dlq_update (sv_store V) now (x\<lparr>dr_investigation_status := UNREVIEWED,
             dr_investigated_at := None, dr_investigated_by := None, dr_investigation_note := None\<rparr>)) (\<lambda>_.
           get_failed_task_detail V now failure_id))"

definition delete_failed_task :: "'r dlq_service \<Rightarrow> int \<Rightarrow> string \<Rightarrow> ('r, bool) io" where
  "delete_failed_task V now failure_id = dlq_delete (sv_store V) now failure_id"

subsection \<open>Queue summaries\<close>

definition inspect_queue :: "'r dlq_service \<Rightarrow> string \<Rightarrow> ('r, queue_inspection) io" where
  "inspect_queue V queue_name =
     io_bind (sv_inspect_queue V queue_name) (\<lambda>inspection.
       io_return (case inspection of
           None \<Rightarrow> \<lparr>qi_exists = False, qi_message_count = None\<rparr>
         | Some n \<Rightarrow> \<lparr>qi_exists = True, qi_message_count = Some n\<rparr>))"

record dlq_queue_summary =
  qs_queue_name :: string
  qs_indexed_count :: int
  qs_last_indexed_at :: "int option"
  qs_exists :: bool
  qs_message_count :: "int option"

fun build_queue_summaries ::
  "'r dlq_service \<Rightarrow> bool \<Rightarrow> (string \<times> int \<times> int option) list \<Rightarrow> ('r, dlq_queue_summary list) io" where
  "build_queue_summaries V include_broker_only [] = io_return []"
| "build_queue_summaries V include_broker_only ((queue_name, indexed_count, last_indexed_at) # queues) =
     io_bind (inspect_queue V queue_name) (\<lambda>inspection.
     io_bind (build_queue_summaries V include_broker_only queues) (\<lambda>items.
       io_return
         (if indexed_count \<le> 0 \<and> (\<not> include_broker_only \<or> \<not> qi_exists inspection) then items
          else \<lparr>qs_queue_name = queue_name, qs_indexed_count = indexed_count, qs_last_indexed_at = last_indexed_at,
                qs_exists = qi_exists inspection, qs_message_count = qi_message_count inspection\<rparr> # items)))"

definition get_queue_summaries :: "'r dlq_service \<Rightarrow> int \<Rightarrow> ('r, dlq_queue_summary list) io" where
  "get_queue_summaries V now =
     io_bind (summarize_queues (sv_store V) now) (\<lambda>queues. build_queue_summaries V False queues)"

definition get_broker_queue_summaries :: "'r dlq_service \<Rightarrow> int \<Rightarrow> string list \<Rightarrow> ('r, dlq_queue_summary list) io" where
  "get_broker_queue_summaries V now candidates =
     io_bind (summarize_queues (sv_store V) now) (\<lambda>queues.
       let indexed = fold (\<lambda>candidate indexed.
             let normalized = strip candidate
             in if normalized = [] \<or> dict_has indexed normalized then indexed
                else AList.update normalized (0, None) indexed) candidates queues
       in build_queue_summaries V True (sort_key fst indexed))"

subsection \<open>Messages on the broker\<close>

definition allowed_queues :: "string list \<Rightarrow> string list" where
  "allowed_queues candidates =
     fold (\<lambda>candidate names. let normalized = strip candidate
       in if normalized \<noteq> [] \<and> normalized \<notin> set names then names @ [normalized] else names) candidates []"

text \<open>The two nested loops stop as soon as the limit is reached.\<close>

fun collect_items :: "string option \<Rightarrow> nat \<Rightarrow> broker_message list \<Rightarrow> broker_message list \<Rightarrow> broker_message list \<times> bool" where
  "collect_items task_id limit [] items = (items, False)"
| "collect_items task_id limit (m # ms) items =
     (if \<not> wanted task_id (bm_task_id m) then collect_items task_id limit ms items
      else let items = items @ [m]
           in if limit \<le> length items then (items, True) else collect_items task_id limit ms items)"

fun collect_queues ::
  "(string \<Rightarrow> int \<Rightarrow> ('r, broker_message list) io) \<Rightarrow> string option \<Rightarrow> int \<Rightarrow> string list \<Rightarrow> broker_message list \<Rightarrow>
   ('r, broker_message list) io" where
  "collect_queues inspector task_id limit [] items = io_return items"
| "collect_queues inspector task_id limit (q # queues) items =
     io_bind (inspector q limit) (\<lambda>queue_items.
       case collect_items task_id (nat limit) queue_items items of
         (items, True) \<Rightarrow> io_return items
       | (items, False) \<Rightarrow> collect_queues inspector task_id limit queues items)"

definition list_broker_messages ::
  "'r dlq_service \<Rightarrow> string list \<Rightarrow> string option \<Rightarrow> string option \<Rightarrow> int \<Rightarrow> ('r, broker_message list) io" where
  "list_broker_messages V candidates queue_name task_id limit =
     (case sv_broker_inspector V of
        None \<Rightarrow> io_raise (RuntimeError ''Broker DLQ message inspection is not configured.'')
      | Some inspector \<Rightarrow>
          (let normalized_limit = max 1 (min limit 200);
               allowed = allowed_queues candidates;
               chosen = strip (or_text queue_name [])
           in if chosen \<noteq> [] \<and> chosen \<notin> set allowed
              then io_raise (ValueError (''Unsupported broker DLQ queue '' @ quoted chosen @ ''. Allowed queues: '' @
                     (if allowed = [] then ''none'' else join '', '' (sort allowed)) @ ''.''))
              else collect_queues inspector task_id normalized_limit (if chosen \<noteq> [] then [chosen] else allowed) []))"

subsection \<open>Replaying\<close>

text \<open>
  The world of the service: Redis as \<open>\<alpha>\<close> shows it and the messages published so far as \<open>\<beta>\<close>
  shows them.  A publish that returns appends its message, one that raises publishes nothing,
  and neither service touches the other.
\<close>

locale dlq_world = redis_server "ds_redis (sv_store V)" \<alpha>
  for V :: "'r dlq_service" and \<alpha> :: "'r \<Rightarrow> keyspace" +
  fixes \<beta> :: "'r \<Rightarrow> published list"
  assumes exec_published: "exec (ds_redis (sv_store V)) now c r = (x, r') \<Longrightarrow> \<beta> r' = \<beta> r"
    and publish_law: "sv_publish_raw V m r = (y, r') \<Longrightarrow>
      \<alpha> r' = \<alpha> r \<and> \<beta> r' = (if isl y then \<beta> r else \<beta> r @ [m])"
begin

abbreviation "S \<equiv> sv_store V"

lemma dlq_get_ok:
  assumes "dlq_get S now i r = (Inr x, r')"
  shows "\<alpha> r' = \<alpha> r \<and> \<beta> r' = \<beta> r \<and>
    (case x of None \<Rightarrow> live now (\<alpha> r) (record_key S i) = None
     | Some rec \<Rightarrow> \<exists>p t. live now (\<alpha> r) (record_key S i) = Some (StrV p, t) \<and> ds_load S p = Inr rec)"
proof -
  from assms obtain y p where get: "exec (ds_redis S) now (GET (record_key S i)) r = (Inr y, r')"
    and "reply_text y = Inr p" "load_record S p = Inr x"
    by (auto simp: dlq_get_def io_simps)
  then show ?thesis using exec_get [OF get] exec_published [OF get]
    by (auto simp: reply_text_def load_record_def split: option.splits)
qed

lemma dlq_get_published: "dlq_get S now i r = (x, r') \<Longrightarrow> \<beta> r' = \<beta> r"
  using exec_published
  by (auto simp: dlq_get_def io_bind_def io_lift_def split: prod.splits sum.splits)

lemma release_claim_ok:
  assumes "release_replay_claim S now i r = (Inr u, r')"
  shows "\<alpha> r' = (\<alpha> r)(replay_lock_key S i := None) \<and> \<beta> r' = \<beta> r"
proof -
  from assms obtain y where del: "exec (ds_redis S) now (DEL (replay_lock_key S i)) r = (Inr y, r')"
    by (auto simp: release_replay_claim_def io_simps)
  then show ?thesis using exec_Inr [OF del] exec_published [OF del] by auto
qed

lemma release_claim_published: "release_replay_claim S now i r = (x, r') \<Longrightarrow> \<beta> r' = \<beta> r"
  using exec_published
  by (auto simp: release_replay_claim_def io_bind_def io_return_def split: prod.splits sum.splits)

lemma claim_replay_ok:
  assumes "claim_replay S now i force r = (Inr x, r')"
  shows "live now (\<alpha> r) (replay_lock_key S i) = None \<and> \<beta> r' = \<beta> r \<and>
    \<alpha> r' = (\<alpha> r)(replay_lock_key S i \<mapsto> (StrV ''1'', Some (now + seconds 30))) \<and>
    (\<forall>rec. x = Some rec \<longrightarrow> (dr_state rec \<noteq> REPLAYED \<or> force) \<and>
       (\<exists>p t. live now (\<alpha> r') (record_key S i) = Some (StrV p, t) \<and> ds_load S p = Inr rec))"
proof -
  from assms obtain y r1 where lock: "exec (ds_redis S) now (SET (replay_lock_key S i) ''1'' (Some 30) True) r = (Inr y, r1)"
    and true: "reply_true y"
    and body: "io_catch
       (io_bind (dlq_get S now i) (\<lambda>rec.
          case rec of
            None \<Rightarrow> io_return None
          | Some x \<Rightarrow>
              if dr_state x = REPLAYED \<and> \<not> force
              then io_raise (DLQReplayConflict i (''DLQ message '' @ quoted i @ '' has already been replayed.''))
              else io_return (Some x)))
       (\<lambda>e. io_bind (release_replay_claim S now i) (\<lambda>_. io_raise e)) r1 = (Inr x, r')"
    by (auto simp: claim_replay_def io_simps split: if_splits)
  from body have "io_bind (dlq_get S now i) (\<lambda>rec.
          case rec of
            None \<Rightarrow> io_return None
          | Some x \<Rightarrow>
              if dr_state x = REPLAYED \<and> \<not> force
              then io_raise (DLQReplayConflict i (''DLQ message '' @ quoted i @ '' has already been replayed.''))
              else io_return (Some x)) r1 = (Inr x, r')"
    by (auto simp: io_catch_def io_simps split: prod.splits sum.splits)
  then obtain z r2 where get2: "dlq_get S now i r1 = (Inr z, r2)"
    and z: "(case z of
            None \<Rightarrow> io_return None
          | Some x \<Rightarrow>
              if dr_state x = REPLAYED \<and> \<not> force
              then io_raise (DLQReplayConflict i (''DLQ message '' @ quoted i @ '' has already been replayed.''))
              else io_return (Some x)) r2 = (Inr x, r')"
    by (auto simp: io_simps)
  have x: "x = z" "\<forall>rec. x = Some rec \<longrightarrow> dr_state rec \<noteq> REPLAYED \<or> force" "r' = r2"
    using z by (cases z; auto simp: io_simps split: if_splits)+
  have get: "dlq_get S now i r1 = (Inr z, r')" using get2 x(3) by simp
  have "live now (\<alpha> r) (replay_lock_key S i) = None"
    "\<alpha> r1 = (\<alpha> r)(replay_lock_key S i \<mapsto> (StrV ''1'', Some (now + seconds 30)))"
    using exec_set [OF lock] true
    by (cases "live now (\<alpha> r) (replay_lock_key S i)"; auto simp: reply_true_def)+
  then show ?thesis
    using dlq_get_ok [OF get] exec_published [OF lock] x by (auto split: option.splits)
qed

lemma mark_replayed_ok:
  assumes "mark_replayed S now i at q r = (Inr (Some u), r')"
  shows "\<beta> r' = \<beta> r \<and> (\<exists>rec p t. live now (\<alpha> r) (record_key S i) = Some (StrV p, t) \<and> ds_load S p = Inr rec \<and>
    u = rec\<lparr>dr_state := REPLAYED, dr_replay_count := dr_replay_count rec + 1, dr_replayed_at := Some at,
             dr_replay_target_queue_name := Some q\<rparr> \<and>
    \<alpha> r' = (\<alpha> r)(record_key S (dr_dlq_id rec) \<mapsto> (StrV (ds_dump S u), map_option (\<lambda>n. now + seconds n) (ds_ttl_seconds S))))"
proof -
  from assms obtain z r1 where get: "dlq_get S now i r = (Inr z, r1)"
    and z: "(case z of
       None \<Rightarrow> io_return None
     | Some x \<Rightarrow>
         let updated = x\<lparr>dr_state := REPLAYED, dr_replay_count := dr_replay_count x + 1,
                         dr_replayed_at := Some at, dr_replay_target_queue_name := Some q\<rparr>
         in io_bind (exec (ds_redis S) now (SET (record_key S (dr_dlq_id updated)) (ds_dump S updated) (ds_ttl_seconds S) False))
              (\<lambda>_. io_return (Some updated))) r1 = (Inr (Some u), r')"
    by (auto simp: mark_replayed_def io_simps)
  from z obtain rec y where rec: "z = Some rec"
    and u: "u = rec\<lparr>dr_state := REPLAYED, dr_replay_count := dr_replay_count rec + 1,
                         dr_replayed_at := Some at, dr_replay_target_queue_name := Some q\<rparr>"
    and set: "exec (ds_redis S) now (SET (record_key S (dr_dlq_id rec)) (ds_dump S u) (ds_ttl_seconds S) False) r1 = (Inr y, r')"
    by (cases z) (auto simp: io_simps Let_def)
  show ?thesis
    using dlq_get_ok [OF get] exec_set [OF set] exec_published [OF set] by (auto simp: rec u)
qed

end

lemma dlq_keys_apart [simp]:
  "record_key S i \<noteq> replay_lock_key S j" "replay_lock_key S j \<noteq> record_key S i"
  "record_key S i = record_key S j \<longleftrightarrow> i = j"
  by (simp_all add: record_key_def replay_lock_key_def)

text \<open>
  C10. A successful replay publishes one message and marks the record: the record existed and
  was not replayed before (unless forced), exactly the original body with the replay headers
  goes to the retry queue, nothing else is published, the stored record is the old one marked
  as replayed with its count raised by one, and the replay lock is free again.
\<close>
theorem replay_publishes_original:
  assumes "dlq_world V \<alpha> \<beta>" "\<forall>i rec. record_of (sv_store V) now (\<alpha> r) i = Some rec \<longrightarrow> dr_dlq_id rec = i"
    and "replay_message V now i force r = (Inr (Some res), r')"
  shows "\<exists>rec body u. record_of (sv_store V) now (\<alpha> r) i = Some rec \<and> (dr_state rec \<noteq> REPLAYED \<or> force) \<and>
     b64decode (dr_raw_body_b64 rec) = Inr body \<and>
     \<beta> r' = \<beta> r @ [\<lparr>pb_queue = dr_retry_queue_name rec, pb_body = body, pb_correlation_id = dr_correlation_id rec,
                    pb_headers = replay_headers (sv_isoformat V) rec now, pb_content_type = dr_content_type rec\<rparr>] \<and>
     u = rec\<lparr>dr_state := REPLAYED, dr_replay_count := dr_replay_count rec + 1, dr_replayed_at := Some now,
             dr_replay_target_queue_name := Some (dr_retry_queue_name rec)\<rparr> \<and>
     \<alpha> r' (record_key (sv_store V) i) =
       Some (StrV (ds_dump (sv_store V) u), map_option (\<lambda>n. now + seconds n) (ds_ttl_seconds (sv_store V))) \<and>
     rp_replay_count res = dr_replay_count rec + 1 \<and> \<alpha> r' (replay_lock_key (sv_store V) i) = None"
proof -
  let ?S = "sv_store V"
  have W: "dlq_world V \<alpha> \<beta>" by fact
  from assms(3) obtain x r1 where claim: "claim_replay ?S now i force r = (Inr x, r1)"
    and rest: "(case x of
       None \<Rightarrow> io_bind (release_replay_claim ?S now i) (\<lambda>_. io_return None)
     | Some x \<Rightarrow> io_finally
           (io_bind (io_lift (b64decode (dr_raw_body_b64 x))) (\<lambda>body.
            io_bind (sv_publish_raw V \<lparr>pb_queue = dr_retry_queue_name x, pb_body = body,
                pb_correlation_id = dr_correlation_id x, pb_headers = replay_headers (sv_isoformat V) x now,
                pb_content_type = dr_content_type x\<rparr>) (\<lambda>_.
            io_bind (mark_replayed ?S now (dr_dlq_id x) now (dr_retry_queue_name x)) (\<lambda>updated.
            case updated of
              None \<Rightarrow> io_return None
            | Some u \<Rightarrow> io_return (Some
                \<lparr>rp_dlq_id = dr_dlq_id u, rp_target_queue_name = dr_retry_queue_name u, rp_state = dr_state u,
                 rp_replayed_at = (case dr_replayed_at u of Some t \<Rightarrow> t | None \<Rightarrow> now),
                 rp_replay_count = dr_replay_count u, rp_forced = force\<rparr>)))))
           (release_replay_claim ?S now i)) r1 = (Inr (Some res), r')"
    by (auto simp: replay_message_def io_simps)
  note c = dlq_world.claim_replay_ok [OF W claim]
  from rest obtain rec where x: "x = Some rec" by (cases x) (auto simp: io_simps)
  from rest x obtain body r2 r3 u r4 where body: "b64decode (dr_raw_body_b64 rec) = Inr body"
    and pub: "sv_publish_raw V \<lparr>pb_queue = dr_retry_queue_name rec, pb_body = body,
                pb_correlation_id = dr_correlation_id rec, pb_headers = replay_headers (sv_isoformat V) rec now,
                pb_content_type = dr_content_type rec\<rparr> r1 = (Inr (), r2)"
    and mark: "mark_replayed ?S now (dr_dlq_id rec) now (dr_retry_queue_name rec) r2 = (Inr (Some u), r3)"
    and rel: "release_replay_claim ?S now i r3 = (Inr (), r')" and res: "rp_replay_count res = dr_replay_count u"
    by (auto simp: io_finally_def io_bind_def io_lift_def io_return_def split: prod.splits sum.splits option.splits)
  obtain p t where p: "live now (\<alpha> r1) (record_key ?S i) = Some (StrV p, t)" "ds_load ?S p = Inr rec"
    "dr_state rec \<noteq> REPLAYED \<or> force"
    using c x by blast
  have key: "live now (\<alpha> r1) (record_key ?S i) = live now (\<alpha> r) (record_key ?S i)"
    by (rule live_frame) (use c in simp)
  then have "live now (\<alpha> r) (record_key ?S i) = Some (StrV p, t)" using p(1) by simp
  then have rec: "record_of ?S now (\<alpha> r) i = Some rec" using p(2) by (simp add: record_of_def record_text_def)
  then have id: "dr_dlq_id rec = i" using assms(2) by blast
  have \<alpha>2: "\<alpha> r2 = \<alpha> r1" and \<beta>2: "\<beta> r2 = \<beta> r1 @ [\<lparr>pb_queue = dr_retry_queue_name rec, pb_body = body,
                pb_correlation_id = dr_correlation_id rec, pb_headers = replay_headers (sv_isoformat V) rec now,
                pb_content_type = dr_content_type rec\<rparr>]"
    using dlq_world.publish_law [OF W pub] by simp_all
  have m: "\<beta> r3 = \<beta> r2" "u = rec\<lparr>dr_state := REPLAYED, dr_replay_count := dr_replay_count rec + 1, dr_replayed_at := Some now,
             dr_replay_target_queue_name := Some (dr_retry_queue_name rec)\<rparr>"
    "\<alpha> r3 = (\<alpha> r2)(record_key ?S i \<mapsto> (StrV (ds_dump ?S u), map_option (\<lambda>n. now + seconds n) (ds_ttl_seconds ?S)))"
    using dlq_world.mark_replayed_ok [OF W mark] p by (auto simp: id \<alpha>2)
  have rel': "\<alpha> r' = (\<alpha> r3)(replay_lock_key ?S i := None)" "\<beta> r' = \<beta> r3"
    using dlq_world.release_claim_ok [OF W rel] by simp_all
  have "\<beta> r' = \<beta> r @ [\<lparr>pb_queue = dr_retry_queue_name rec, pb_body = body, pb_correlation_id = dr_correlation_id rec,
                    pb_headers = replay_headers (sv_isoformat V) rec now, pb_content_type = dr_content_type rec\<rparr>]"
    using rel' m(1) \<beta>2 c by simp
  moreover have "\<alpha> r' (record_key ?S i) = Some (StrV (ds_dump ?S u), map_option (\<lambda>n. now + seconds n) (ds_ttl_seconds ?S))"
    using rel' m(3) by simp
  moreover have "rp_replay_count res = dr_replay_count rec + 1" using res m(2) by simp
  moreover have "\<alpha> r' (replay_lock_key ?S i) = None" using rel' by simp
  ultimately show ?thesis using rec p(3) body m(2) by blast
qed

text \<open>
  Replays exclude each other: while another replay of the record holds its lock, a replay
  raises and publishes nothing.
\<close>
theorem replay_refused_while_locked:
  assumes "dlq_world V \<alpha> \<beta>" "live now (\<alpha> r) (replay_lock_key (sv_store V) i) \<noteq> None"
    and "replay_message V now i force r = (x, r')"
  shows "isl x \<and> \<beta> r' = \<beta> r"
proof -
  let ?S = "sv_store V"
  have W: "dlq_world V \<alpha> \<beta>" by fact
  have R: "redis_server (ds_redis ?S) \<alpha>" using W by (simp add: dlq_world_def)
  obtain y r1 where lock: "exec (ds_redis ?S) now (SET (replay_lock_key ?S i) ''1'' (Some 30) True) r = (y, r1)"
    by fastforce
  have \<beta>: "\<beta> r1 = \<beta> r" using dlq_world.exec_published [OF W lock] .
  show ?thesis
  proof (cases y)
    case (Inl e)
    then show ?thesis using assms(3) lock \<beta> by (auto simp: replay_message_def claim_replay_def io_bind_def)
  next
    case (Inr z)
    then have "z = NilR" using redis_server.exec_set [OF R] lock assms(2) by fastforce
    then show ?thesis using assms(3) lock Inr \<beta>
      by (auto simp: replay_message_def claim_replay_def io_bind_def reply_true_def io_raise_def)
  qed
qed

subsection \<open>A concrete world\<close>

text \<open>The in-memory server beside a list of published messages.\<close>

type_synonym sample_world = "keyspace \<times> published list"

definition on_keyspace :: "(keyspace, 'a) io \<Rightarrow> (sample_world, 'a) io" where
  "on_keyspace m w = (case m (fst w) of (x, d) \<Rightarrow> (x, (d, snd w)))"

definition world_redis :: "sample_world redis" where
  "world_redis = \<lparr>exec = (\<lambda>now c. on_keyspace (db_exec now c)), pipeline = (\<lambda>now cs. on_keyspace (db_pipe now cs))\<rparr>"

definition sample_dlq_store :: "sample_world dlq_store" where
  "sample_dlq_store = \<lparr>ds_redis = world_redis, ds_prefix = ''relayna'', ds_ttl_seconds = None, ds_sha = (\<lambda>_. ''0123456789abcdef''),
     ds_dump = (\<lambda>_. ''record''), ds_load = (\<lambda>_. Inr sample_record)\<rparr>"

definition sample_dlq_service :: "sample_world dlq_service" where
  "sample_dlq_service = \<lparr>sv_store = sample_dlq_store, sv_status_store = None,
     sv_publish_raw = (\<lambda>m w. (Inr (), (fst w, snd w @ [m]))), sv_inspect_queue = (\<lambda>_. io_return None),
     sv_isoformat = (\<lambda>_. ''now''), sv_encode_json = json_dumps plain_json, sv_broker_inspector = None\<rparr>"

interpretation world_redis: redis_server world_redis fst
  by unfold_locales (auto simp: world_redis_def on_keyspace_def split: prod.splits)

interpretation sample_world: dlq_world sample_dlq_service fst snd
proof -
  have "redis_server (ds_redis (sv_store sample_dlq_service)) fst"
    by (simp add: sample_dlq_service_def sample_dlq_store_def world_redis.redis_server_axioms)
  then show "dlq_world sample_dlq_service fst snd"
    by (intro dlq_world.intro dlq_world_axioms.intro)
      (auto simp: sample_dlq_service_def sample_dlq_store_def world_redis_def on_keyspace_def split: prod.splits)
qed

definition sample_dlq_world :: sample_world where
  "sample_dlq_world = (\<lambda>k. if k = record_key sample_dlq_store ''d1'' then Some (StrV ''record'', None)
     else if k = records_key sample_dlq_store then Some (ListV [''d1''], None) else None, [])"

lemma sample_records:
  "record_of (sv_store sample_dlq_service) now (fst sample_dlq_world) i = Some rec \<Longrightarrow> dr_dlq_id rec = i"
proof -
  have "dr_dlq_id sample_record = ''d1''" by code_simp
  moreover have "record_key sample_dlq_store i \<noteq> records_key sample_dlq_store"
    by (simp add: record_key_def records_key_def)
  moreover assume "record_of (sv_store sample_dlq_service) now (fst sample_dlq_world) i = Some rec"
  ultimately show ?thesis
    by (auto simp: record_of_def record_text_def sample_dlq_world_def sample_dlq_service_def live_def
        split: if_splits option.splits) (simp_all add: sample_dlq_store_def)
qed

theorem replay_publishes_original_witness:
  "\<exists>res r' rec body u. replay_message sample_dlq_service 0 ''d1'' False sample_dlq_world = (Inr (Some res), r') \<and>
     record_of (sv_store sample_dlq_service) 0 (fst sample_dlq_world) ''d1'' = Some rec \<and>
     b64decode (dr_raw_body_b64 rec) = Inr body \<and>
     snd r' = snd sample_dlq_world @ [\<lparr>pb_queue = dr_retry_queue_name rec, pb_body = body, pb_correlation_id = dr_correlation_id rec,
                    pb_headers = replay_headers (sv_isoformat sample_dlq_service) rec 0, pb_content_type = dr_content_type rec\<rparr>] \<and>
     rp_replay_count res = dr_replay_count rec + 1"
proof -
  have "(case fst (replay_message sample_dlq_service 0 ''d1'' False sample_dlq_world) of Inr (Some _) \<Rightarrow> True | _ \<Rightarrow> False)"
    by code_simp
  then obtain res r' where run: "replay_message sample_dlq_service 0 ''d1'' False sample_dlq_world = (Inr (Some res), r')"
    by (cases "replay_message sample_dlq_service 0 ''d1'' False sample_dlq_world") (auto split: sum.splits option.splits)
  have "\<forall>i rec. record_of (sv_store sample_dlq_service) 0 (fst sample_dlq_world) i = Some rec \<longrightarrow> dr_dlq_id rec = i"
    using sample_records by blast
  from replay_publishes_original [OF sample_world.dlq_world_axioms this run] run
  show ?thesis by (elim exE conjE) (intro exI conjI, assumption+)
qed

theorem replay_refused_while_locked_witness:
  "\<exists>x r'. replay_message sample_dlq_service 0 ''d1'' False
       (\<lambda>k. if k = replay_lock_key sample_dlq_store ''d1'' then Some (StrV ''1'', Some 30) else None, []) = (x, r') \<and>
     isl x \<and> snd r' = []"
proof -
  let ?w = "(\<lambda>k. if k = replay_lock_key sample_dlq_store ''d1'' then Some (StrV ''1'', Some (30 :: int)) else None, []) :: sample_world"
  obtain x r' where run: "replay_message sample_dlq_service 0 ''d1'' False ?w = (x, r')" by (rule prod.exhaust)
  have "live 0 (fst ?w) (replay_lock_key (sv_store sample_dlq_service) ''d1'') \<noteq> None"
    by (simp add: live_def sample_dlq_service_def)
  from replay_refused_while_locked [OF sample_world.dlq_world_axioms this run] run show ?thesis by auto
qed

end
