(* ===== verification/Consumer_Context.thy ===== *)
theory Consumer_Context
  imports Retry_Policy Dlq_Service Workflow_Contract
begin

text \<open>
  \<^verbatim>\<open>consumer/context.py\<close>: what the consumers read from a message's headers, the context
  objects they hand to a handler, the manual retry a handler may ask for, and the status
  events a context publishes.  Validation and dumping of envelopes by pydantic are arguments
  (\<open>task_model\<close>), as is the clock.
\<close>

subsection \<open>Configuration and contexts\<close>

record lifecycle_config =
  lc_enabled :: bool
  lc_processing_status :: string
  lc_completed_status :: string
  lc_failed_status :: string
  lc_include_error_message :: bool

record retry_status_config =
  rs_enabled :: bool
  rs_retrying_status :: string
  rs_dead_lettered_status :: string
  rs_include_error_message :: bool

record manual_retry_request =
  mrq_task :: dict
  mrq_headers :: dict
  mrq_status_message :: string
  mrq_status_meta :: dict

record amqp_message =
  am_body :: string
  am_headers :: "dict option"
  am_correlation_id :: "string option"
  am_delivery_tag :: "int option"
  am_redelivered :: bool
  am_content_type :: "string option"

record message_metadata =
  md_headers :: dict
  md_correlation_id :: "string option"
  md_delivery_tag :: "int option"
  md_redelivered :: bool
  md_content_type :: "string option"
  md_retry_attempt :: int

record task_context =
  tx_consumer_name :: string
  tx_raw_payload :: dict
  tx_correlation_id :: "string option"
  tx_delivery_tag :: "int option"
  tx_redelivered :: bool
  tx_task_id :: string
  tx_retry_attempt :: int
  tx_max_retries :: "int option"
  tx_source_queue_name :: "string option"
  tx_batch_id :: "string option"
  tx_batch_index :: "int option"
  tx_batch_size :: "int option"
  tx_headers :: dict
  tx_is_task_context :: bool
  tx_manual_retry_count :: int
  tx_manual_retry_previous_task_type :: "string option"
  tx_manual_retry_source_consumer :: "string option"
  tx_manual_retry_reason :: "string option"

record workflow_context =
  wx_consumer_name :: string
  wx_stage :: string
  wx_raw_payload :: dict
  wx_correlation_id :: "string option"
  wx_delivery_tag :: "int option"
  wx_redelivered :: bool
  wx_task_id :: string
  wx_message_id :: string
  wx_origin_stage :: "string option"
  wx_retry_attempt :: int
  wx_max_retries :: "int option"
  wx_source_queue_name :: "string option"
  wx_headers :: dict

subsection \<open>Reading headers\<close>

definition first_text :: "string option \<Rightarrow> string option \<Rightarrow> string option" where
  "first_text a b = (case a of Some s \<Rightarrow> if s \<noteq> [] then a else b | None \<Rightarrow> b)"

definition coerce_task_id :: "pyval \<Rightarrow> string option" where
  "coerce_task_id payload =
     (case payload of PDict d \<Rightarrow> (case map_of d ''task_id'' of Some (PStr s) \<Rightarrow> Some s | _ \<Rightarrow> None) | _ \<Rightarrow> None)"

definition message_headers :: "amqp_message \<Rightarrow> dict" where
  "message_headers message = (case am_headers message of Some h \<Rightarrow> h | None \<Rightarrow> [])"

definition extract_message_metadata :: "amqp_message \<Rightarrow> message_metadata" where
  "extract_message_metadata message =
     (let headers = message_headers message in
      \<lparr>md_headers = headers, md_correlation_id = am_correlation_id message,
       md_delivery_tag = am_delivery_tag message, md_redelivered = am_redelivered message,
       md_content_type = am_content_type message, md_retry_attempt = retry_attempt_from_headers headers\<rparr>)"

definition retry_attempt :: "amqp_message \<Rightarrow> int" where
  "retry_attempt message = retry_attempt_from_headers (message_headers message)"

definition header_string :: "dict \<Rightarrow> string \<Rightarrow> string option" where
  "header_string headers key =
     (case map_of headers key of
        Some (PStr s) \<Rightarrow> (let value = strip s in if value \<noteq> [] then Some value else None)
      | _ \<Rightarrow> None)"

definition header_int :: "dict \<Rightarrow> string \<Rightarrow> int option" where
  "header_int headers key =
     (case map_of headers key of
        None \<Rightarrow> None
      | Some PNone \<Rightarrow> None
      | Some value \<Rightarrow> (case py_int value of Inr i \<Rightarrow> Some i | Inl _ \<Rightarrow> None))"

definition int_or_zero :: "int option \<Rightarrow> int" where
  "int_or_zero i = (case i of Some n \<Rightarrow> n | None \<Rightarrow> 0)"

definition manual_retry_count :: "dict \<Rightarrow> int" where
  "manual_retry_count headers = max 0 (int_or_zero (header_int headers ''x-relayna-manual-retry-count''))"

definition coerce_non_negative_int :: "pyval \<Rightarrow> int \<Rightarrow> int" where
  "coerce_non_negative_int value fallback =
     (case py_int value of Inr i \<Rightarrow> max 0 i | Inl _ \<Rightarrow> max 0 fallback)"

record manual_retry_meta =
  mm_count :: int
  mm_previous_task_type :: "string option"
  mm_source_consumer :: "string option"
  mm_reason :: "string option"

definition manual_retry_meta_from_status :: "dict \<Rightarrow> manual_retry_meta" where
  "manual_retry_meta_from_status meta =
     (case map_of meta ''manual_retry'' of
        Some (PDict manual_retry) \<Rightarrow>
          \<lparr>mm_count = coerce_non_negative_int (dict_get manual_retry ''count'') 0,
           mm_previous_task_type = string_or_none (dict_get manual_retry ''previous_task_type''),
           mm_source_consumer = string_or_none (dict_get manual_retry ''source_consumer''),
           mm_reason = string_or_none (dict_get manual_retry ''reason'')\<rparr>
      | _ \<Rightarrow> \<lparr>mm_count = 0, mm_previous_task_type = None, mm_source_consumer = None, mm_reason = None\<rparr>)"

definition put_opt :: "string \<Rightarrow> pyval option \<Rightarrow> dict \<Rightarrow> dict" where
  "put_opt k v d = (case v of Some x \<Rightarrow> AList.update k x d | None \<Rightarrow> d)"

definition merge_batch_retry_headers :: "task_context \<Rightarrow> dict \<Rightarrow> dict" where
  "merge_batch_retry_headers context headers =
     put_opt ''batch_size'' (map_option PInt (tx_batch_size context))
       (put_opt ''batch_index'' (map_option PInt (tx_batch_index context))
         (put_opt ''batch_id'' (map_option PStr (tx_batch_id context)) headers))"

subsection \<open>Manual retry: headers and metadata\<close>

definition text_field :: "string option \<Rightarrow> pyval option" where
  "text_field s = (case s of Some t \<Rightarrow> if t \<noteq> [] then Some (PStr t) else None | None \<Rightarrow> None)"

definition not_forwarded :: "string list" where
  "not_forwarded =
     [''x-relayna-retry-attempt'', ''x-relayna-max-retries'', ''x-relayna-source-queue'',
      ''x-relayna-failure-reason'', ''x-relayna-exception-type'', ''x-relayna-manual-retry-count'',
      ''x-relayna-manual-retry-from-task-type'', ''x-relayna-manual-retry-source-consumer'',
      ''x-relayna-manual-retry-reason'']"

definition context_manual_retry_headers ::
  "dict \<Rightarrow> int \<Rightarrow> string option \<Rightarrow> string \<Rightarrow> string option \<Rightarrow> string \<Rightarrow> dict \<Rightarrow> dict" where
  "context_manual_retry_headers headers n previous_task_type source_consumer reason task_id extra_headers =
     (let forwarded = List.filter (\<lambda>(k, v). k \<notin> set not_forwarded) headers;
          forwarded = AList.update ''task_id'' (PStr task_id) forwarded;
          forwarded = AList.update ''x-relayna-manual-retry-count'' (PInt n) forwarded;
          forwarded = AList.update ''x-relayna-manual-retry-source-consumer'' (PStr source_consumer) forwarded;
          forwarded = put_opt ''x-relayna-manual-retry-from-task-type'' (text_field previous_task_type) forwarded;
          forwarded = put_opt ''x-relayna-manual-retry-reason'' (text_field reason) forwarded
      in dict_update forwarded extra_headers)"

definition manual_retry_context_meta :: "task_context \<Rightarrow> dict" where
  "manual_retry_context_meta context =
     (let manual_retry =
            put_opt ''reason'' (text_field (tx_manual_retry_reason context))
              (put_opt ''source_consumer'' (text_field (tx_manual_retry_source_consumer context))
                (put_opt ''previous_task_type'' (text_field (tx_manual_retry_previous_task_type context))
                  [(''count'', PInt (tx_manual_retry_count context))]))
      in if length manual_retry = 1 \<and> tx_manual_retry_count context = 0 then []
         else [(''manual_retry'', PDict manual_retry)])"

definition manual_retry_status_meta ::
  "int \<Rightarrow> string option \<Rightarrow> string \<Rightarrow> string option \<Rightarrow> string option \<Rightarrow> dict \<Rightarrow> dict" where
  "manual_retry_status_meta n previous_task_type source_consumer reason target_task_type extra_meta =
     (let manual_retry =
            put_opt ''target_task_type'' (text_field target_task_type)
              (put_opt ''reason'' (text_field reason)
                (put_opt ''previous_task_type'' (text_field previous_task_type)
                  [(''count'', PInt n), (''source_consumer'', PStr source_consumer)]))
      in case map_of extra_meta ''manual_retry'' of
           Some (PDict existing) \<Rightarrow>
             AList.update ''manual_retry'' (PDict (dict_update manual_retry existing)) extra_meta
         | _ \<Rightarrow> AList.update ''manual_retry'' (PDict manual_retry) extra_meta)"

text \<open>\<^verbatim>\<open>TaskContext._merge_status_meta\<close>\<close>

definition merge_status_meta :: "task_context \<Rightarrow> dict \<Rightarrow> dict" where
  "merge_status_meta self meta =
     (case manual_retry_context_meta self of
        [(_, PDict lineage)] \<Rightarrow>
          (case map_of meta ''manual_retry'' of
             Some (PDict existing) \<Rightarrow>
               (let merged = dict_update lineage existing;
                    n = coerce_non_negative_int (dict_get merged ''count'') (tx_manual_retry_count self)
                in AList.update ''manual_retry'' (PDict (AList.update ''count'' (PInt n) merged)) meta)
           | _ \<Rightarrow> AList.update ''manual_retry'' (PDict lineage) meta)
      | _ \<Rightarrow> meta)"

definition failure_message :: "string \<Rightarrow> bool \<Rightarrow> string" where
  "failure_message exc_text include_error_message =
     (let text = strip exc_text in
      if include_error_message \<and> text \<noteq> [] then text else ''Task processing failed.'')"

definition normalize_payload :: "alias_config option \<Rightarrow> pyval \<Rightarrow> pyval" where
  "normalize_payload cfg payload =
     (case payload of PDict d \<Rightarrow> PDict (normalize_contract_aliases d cfg Payload True) | _ \<Rightarrow> payload)"

definition normalize_batch_payload :: "alias_config option \<Rightarrow> dict \<Rightarrow> dict" where
  "normalize_batch_payload cfg payload =
     (let normalized = normalize_contract_aliases payload cfg Payload True in
      case map_of normalized ''tasks'' of
        Some (PList tasks) \<Rightarrow> AList.update ''tasks'' (PList (map (normalize_payload cfg) tasks)) normalized
      | _ \<Rightarrow> normalized)"

subsection \<open>TaskContext.manual\_retry\<close>

text \<open>
  \<^verbatim>\<open>TaskEnvelope.model_validate\<close> (an error is its \<^verbatim>\<open>ValidationError\<close>) and
  \<^verbatim>\<open>model_dump(mode="json", exclude_none=True)\<close>.
\<close>

record task_model =
  tm_validate :: "pyval \<Rightarrow> task_envelope res"
  tm_dump :: "task_envelope \<Rightarrow> dict"

record manual_retry_args =
  ma_task_type :: "string option"
  ma_payload :: "dict option"
  ma_payload_merge :: "dict option"
  ma_service :: "string option"
  ma_correlation_id :: "string option"
  ma_priority :: "int option"
  ma_reason :: "string option"
  ma_message :: "string option"
  ma_meta :: dict
  ma_headers :: dict
  ma_extra_fields :: "dict option"

definition reserved_fields :: "string list" where
  "reserved_fields =
     [''task_id'', ''correlation_id'', ''task_type'', ''service'', ''payload'', ''priority'', ''spec_version'', ''created_at'']"

definition stripped_field :: "dict \<Rightarrow> string \<Rightarrow> string option" where
  "stripped_field d k =
     (let text = strip (if truthy (dict_get d k) then py_str (dict_get d k) else []) in
      if text = [] then None else Some text)"

definition with_task_type :: "string option \<Rightarrow> dict \<Rightarrow> dict res" where
  "with_task_type task_type next_task =
     (case task_type of
        None \<Rightarrow> Inr next_task
      | Some t \<Rightarrow>
          if strip t = [] then Inl (ValueError ''task_type must not be empty when provided'')
          else Inr (AList.update ''task_type'' (PStr (strip t)) next_task))"

definition with_payload :: "manual_retry_args \<Rightarrow> dict \<Rightarrow> dict" where
  "with_payload args next_task =
     (case ma_payload args of
        Some p \<Rightarrow> AList.update ''payload'' (PDict p) next_task
      | None \<Rightarrow>
          (case ma_payload_merge args of
             Some m \<Rightarrow>
               (let merged = (case dict_get next_task ''payload'' of PDict p \<Rightarrow> p | _ \<Rightarrow> [])
                in AList.update ''payload'' (PDict (dict_update merged m)) next_task)
           | None \<Rightarrow> next_task))"

definition with_extra_fields :: "dict option \<Rightarrow> dict \<Rightarrow> dict res" where
  "with_extra_fields extra next_task =
     (case extra of
        None \<Rightarrow> Inr next_task
      | Some provided \<Rightarrow>
          (let conflicting = sort (filter (\<lambda>k. k \<in> set reserved_fields) (map fst provided)) in
           if conflicting \<noteq> []
           then Inl (ValueError (''extra_fields contains reserved key(s): '' @ join '', '' conflicting))
           else Inr (dict_update next_task provided)))"

text \<open>The task a manual retry prepares, from the dump of the current one.\<close>

definition next_task :: "task_context \<Rightarrow> manual_retry_args \<Rightarrow> dict \<Rightarrow> dict res" where
  "next_task self args current =
     (let task = AList.update ''task_id'' (PStr (tx_task_id self)) current;
          task = AList.update ''correlation_id''
            (case first_text (ma_correlation_id args) (first_text (tx_correlation_id self) None) of
               Some c \<Rightarrow> PStr c | None \<Rightarrow> dict_get current ''correlation_id'') task;
          task = put_opt ''priority'' (map_option PInt (ma_priority args)) task
      in bind_res (with_task_type (ma_task_type args) task) (\<lambda>task.
         with_extra_fields (ma_extra_fields args)
           (with_payload args (put_opt ''service'' (map_option PStr (ma_service args)) task))))"

text \<open>\<^verbatim>\<open>manual_retry\<close> always raises: an error, or, with the request stored, \<^verbatim>\<open>_ManualRetryRequested\<close>.\<close>

definition manual_retry :: "task_model \<Rightarrow> task_context \<Rightarrow> manual_retry_args \<Rightarrow> manual_retry_request res" where
  "manual_retry M self args =
     (if ma_payload args \<noteq> None \<and> ma_payload_merge args \<noteq> None
      then Inl (ValueError ''Pass either payload or payload_merge, not both.'')
      else if \<not> tx_is_task_context self
      then Inl (ValueError ''manual_retry requires a task envelope context'')
      else case tm_validate M (PDict (tx_raw_payload self)) of
        Inl _ \<Rightarrow> Inl (ValueError ''manual_retry requires a task envelope context'')
      | Inr task \<Rightarrow>
          (let current = tm_dump M task in
           bind_res (next_task self args current) (\<lambda>next.
           bind_res (tm_validate M (PDict next)) (\<lambda>validated.
             let prepared = tm_dump M validated;
                 next_count = tx_manual_retry_count self + 1;
                 previous_task_type = stripped_field current ''task_type'';
                 target_task_type = stripped_field prepared ''task_type''
             in Inr \<lparr>mrq_task = prepared,
                     mrq_headers = context_manual_retry_headers (tx_headers self) next_count previous_task_type
                       (tx_consumer_name self) (ma_reason args) (tx_task_id self) (ma_headers args),
                     mrq_status_message =
                       or_text (first_text (ma_message args) (ma_reason args)) ''Task handed off for manual retry.'',
                     mrq_status_meta = manual_retry_status_meta next_count previous_task_type
                       (tx_consumer_name self) (ma_reason args) target_task_type (ma_meta args)\<rparr>))))"

subsection \<open>Status events of a context\<close>

text \<open>
  The keyword form of \<^verbatim>\<open>publish_status\<close>, and the form that takes an event.  Calling with both or
  with neither raises.
\<close>

record status_fields =
  sf_status :: "string option"
  sf_message :: "string option"
  sf_meta :: dict
  sf_result :: "dict option"
  sf_event_id :: "string option"
  sf_service :: "string option"

definition fields_event :: "string \<Rightarrow> string \<Rightarrow> string option \<Rightarrow> status_fields \<Rightarrow> dict \<Rightarrow> status_event" where
  "fields_event timestamp task_id correlation_id f meta =
     \<lparr>se_task_id = task_id, se_status = or_text (sf_status f) [], se_timestamp = timestamp,
      se_message = sf_message f, se_meta = meta, se_result = sf_result f, se_correlation_id = correlation_id,
      se_event_id = sf_event_id f, se_service = sf_service f, se_spec_version = ''1.0'', se_extra = []\<rparr>"

definition check_status_args :: "status_event option \<Rightarrow> status_fields \<Rightarrow> unit res" where
  "check_status_args event f =
     (if event \<noteq> None \<and> sf_status f \<noteq> None
      then Inl (ValueError ''Pass either a StatusEventEnvelope or keyword fields, not both.'')
      else if event = None \<and> sf_status f = None
      then Inl (ValueError ''status is required when event is not provided.'') else Inr ())"

definition task_status_event :: "string \<Rightarrow> task_context \<Rightarrow> status_event option \<Rightarrow> status_fields \<Rightarrow> status_event res" where
  "task_status_event timestamp self event f =
     bind_res (check_status_args event f) (\<lambda>_. Inr (case event of
       None \<Rightarrow> fields_event timestamp (tx_task_id self) (tx_correlation_id self) f (merge_status_meta self (sf_meta f))
     | Some ev \<Rightarrow> ev\<lparr>se_task_id := tx_task_id self,
                    se_correlation_id := first_text (se_correlation_id ev) (tx_correlation_id self),
                    se_meta := merge_status_meta self (se_meta ev)\<rparr>))"

definition aggregation_status_event ::
  "string \<Rightarrow> task_context \<Rightarrow> status_event option \<Rightarrow> status_fields \<Rightarrow> status_event res" where
  "aggregation_status_event timestamp self event f =
     bind_res (check_status_args event f) (\<lambda>_. Inr (case event of
       None \<Rightarrow> fields_event timestamp (tx_task_id self) (tx_correlation_id self) f (merge_status_meta self (sf_meta f))
     | Some ev \<Rightarrow> ev\<lparr>se_task_id := tx_task_id self,
                    se_correlation_id := first_text (se_correlation_id ev) (tx_correlation_id self),
                    se_meta := dict_update (merge_status_meta self (sf_meta f)) (se_meta ev)\<rparr>))"

definition workflow_status_event ::
  "string \<Rightarrow> workflow_context \<Rightarrow> status_event option \<Rightarrow> status_fields \<Rightarrow> status_event res" where
  "workflow_status_event timestamp self event f =
     bind_res (check_status_args event f) (\<lambda>_. Inr (case event of
       None \<Rightarrow> fields_event timestamp (wx_task_id self) (wx_correlation_id self) f (sf_meta f)
     | Some ev \<Rightarrow> ev\<lparr>se_task_id := wx_task_id self,
                    se_correlation_id := first_text (se_correlation_id ev) (wx_correlation_id self),
                    se_meta := (if sf_meta f \<noteq> [] then sf_meta f else se_meta ev)\<rparr>))"

subsection \<open>Messages a workflow context publishes\<close>

record stage_message =
  sm_payload :: dict
  sm_action :: "string option"
  sm_meta :: dict
  sm_priority :: "int option"

definition stage_envelope :: "string \<Rightarrow> workflow_context \<Rightarrow> string \<Rightarrow> stage_message \<Rightarrow> workflow_envelope" where
  "stage_envelope message_id self stage m =
     \<lparr>we_task_id = wx_task_id self, we_message_id = message_id,
      we_correlation_id = Some (or_text (wx_correlation_id self) (wx_task_id self)),
      we_stage = stage, we_origin_stage = Some (wx_stage self), we_action = sm_action m,
      we_payload = sm_payload m, we_meta = sm_meta m, we_priority = sm_priority m,
      we_spec_version = ''1.0'', we_extra = []\<rparr>"

text \<open>
  \<^verbatim>\<open>publish_to_stage\<close> and \<^verbatim>\<open>publish_workflow_message\<close>: the client's method is an argument; the
  second resolves the destination stage first.
\<close>

definition publish_to_stage ::
  "(workflow_envelope \<Rightarrow> string \<Rightarrow> ('w, unit) io) \<Rightarrow> string \<Rightarrow> workflow_context \<Rightarrow> string \<Rightarrow> stage_message \<Rightarrow>
   ('w, workflow_envelope) io" where
  "publish_to_stage publish message_id self stage m =
     (let envelope = stage_envelope message_id self stage m in
      io_bind (publish envelope stage) (\<lambda>_. io_return envelope))"

definition publish_workflow_message ::
  "(workflow_envelope \<Rightarrow> string \<Rightarrow> ('w, unit) io) \<Rightarrow> workflow_topology \<Rightarrow> string \<Rightarrow> workflow_context \<Rightarrow> string \<Rightarrow>
   stage_message \<Rightarrow> ('w, workflow_envelope) io" where
  "publish_workflow_message publish topology message_id self routing_key m =
     io_bind (io_lift (resolve_workflow_stage_for_routing_key (wt_workflow_stage_names topology)
         (wt_workflow_publish_routing_key topology) (wt_workflow_binding_keys topology)
         (wt_entry_routes topology) routing_key)) (\<lambda>destination_stage.
       let envelope = stage_envelope message_id self destination_stage m in
       io_bind (publish envelope routing_key) (\<lambda>_. io_return envelope))"

subsection \<open>What the next delivery reads\<close>

lemma map_of_filter_keys: "map_of (filter (\<lambda>(k, v). k \<notin> A) d) k = (if k \<in> A then None else map_of d k)"
  by (induction d) auto

lemma map_of_put_opt [simp, dict_simps]:
  "map_of (put_opt k v d) j = (if j = k then (case v of Some x \<Rightarrow> Some x | None \<Rightarrow> map_of d k) else map_of d j)"
  by (simp add: put_opt_def split: option.splits)

lemma map_of_manual_retry_headers:
  assumes "dict_wf extra"
  shows "map_of (context_manual_retry_headers headers n previous source reason task_id extra) k =
    (case map_of extra k of Some v \<Rightarrow> Some v | None \<Rightarrow>
       if k = ''x-relayna-manual-retry-reason'' then text_field reason
       else if k = ''x-relayna-manual-retry-from-task-type'' then text_field previous
       else if k = ''x-relayna-manual-retry-source-consumer'' then Some (PStr source)
       else if k = ''x-relayna-manual-retry-count'' then Some (PInt n)
       else if k = ''task_id'' then Some (PStr task_id)
       else if k \<in> set not_forwarded then None else map_of headers k)"
proof -
  have kept: "''x-relayna-manual-retry-reason'' \<in> set not_forwarded"
    "''x-relayna-manual-retry-from-task-type'' \<in> set not_forwarded"
    by (simp_all add: not_forwarded_def)
  show ?thesis
    unfolding context_manual_retry_headers_def Let_def map_of_dict_update[OF assms] map_add_def
      map_of_put_opt map_of_update fun_upd_apply
    by (cases "map_of extra k"; cases "k = ''x-relayna-manual-retry-reason''";
        cases "k = ''x-relayna-manual-retry-from-task-type''"; cases "k = ''x-relayna-manual-retry-source-consumer''";
        cases "k = ''x-relayna-manual-retry-count''"; cases "k = ''task_id''")
      (simp_all add: map_of_filter_keys kept split: option.splits)
qed

definition stripped :: "string option \<Rightarrow> string option" where
  "stripped s = (case s of Some t \<Rightarrow> if strip t \<noteq> [] then Some (strip t) else None | None \<Rightarrow> None)"

lemma header_string_text_field:
  "map_of headers k = text_field s \<Longrightarrow> header_string headers k = stripped s"
  by (auto simp: header_string_def text_field_def stripped_def Let_def split: option.splits if_splits)

lemma stripped_stripped_field [simp]: "stripped (stripped_field d k) = stripped_field d k"
  by (simp add: stripped_def stripped_field_def Let_def)

lemma manual_retry_request_headers:
  assumes "manual_retry M self args = Inr req"
  obtains task where "tm_validate M (PDict (tx_raw_payload self)) = Inr task"
    "mrq_headers req = context_manual_retry_headers (tx_headers self) (tx_manual_retry_count self + 1)
       (stripped_field (tm_dump M task) ''task_type'') (tx_consumer_name self) (ma_reason args) (tx_task_id self)
       (ma_headers args)"
  using assms by (auto simp: manual_retry_def Let_def split: if_splits sum.splits)

text \<open>
  C27. A manual retry survives the broker: what the next delivery reads from the headers of the
  task a handler handed back is a fresh automatic attempt, the manual count raised by one, and
  the previous task type, the consumer and the reason of the hand-over, while every header that
  is not part of this bookkeeping is forwarded.
\<close>

theorem manual_retry_read_back:
  assumes "manual_retry M self args = Inr req" and "0 \<le> tx_manual_retry_count self"
    and "dict_wf (ma_headers args)" and "set (map fst (ma_headers args)) \<inter> set not_forwarded = {}"
  shows "retry_attempt_from_headers (mrq_headers req) = 0 \<and>
    manual_retry_count (mrq_headers req) = tx_manual_retry_count self + 1 \<and>
    header_string (mrq_headers req) ''x-relayna-manual-retry-source-consumer'' = stripped (Some (tx_consumer_name self)) \<and>
    header_string (mrq_headers req) ''x-relayna-manual-retry-reason'' = stripped (ma_reason args) \<and>
    (\<exists>task. tm_validate M (PDict (tx_raw_payload self)) = Inr task \<and>
       header_string (mrq_headers req) ''x-relayna-manual-retry-from-task-type'' =
         stripped_field (tm_dump M task) ''task_type'') \<and>
    (\<forall>k. k \<notin> set not_forwarded \<longrightarrow> k \<noteq> ''task_id'' \<longrightarrow> k \<notin> set (map fst (ma_headers args)) \<longrightarrow>
       map_of (mrq_headers req) k = map_of (tx_headers self) k)"
proof -
  obtain task where task: "tm_validate M (PDict (tx_raw_payload self)) = Inr task"
    and h: "mrq_headers req = context_manual_retry_headers (tx_headers self) (tx_manual_retry_count self + 1)
       (stripped_field (tm_dump M task) ''task_type'') (tx_consumer_name self) (ma_reason args) (tx_task_id self)
       (ma_headers args)"
    using assms(1) by (rule manual_retry_request_headers)
  have none: "map_of (ma_headers args) k = None" if "k \<in> set not_forwarded" for k
    using assms(4) that by (auto simp: map_of_eq_None_iff)
  note look = map_of_manual_retry_headers[OF assms(3), of "tx_headers self" "tx_manual_retry_count self + 1"
      "stripped_field (tm_dump M task) ''task_type''" "tx_consumer_name self" "ma_reason args" "tx_task_id self", folded h]
  have keys: "map_of (mrq_headers req) ''x-relayna-retry-attempt'' = None"
    "map_of (mrq_headers req) ''x-relayna-manual-retry-count'' = Some (PInt (tx_manual_retry_count self + 1))"
    "map_of (mrq_headers req) ''x-relayna-manual-retry-source-consumer'' = Some (PStr (tx_consumer_name self))"
    "map_of (mrq_headers req) ''x-relayna-manual-retry-reason'' = text_field (ma_reason args)"
    "map_of (mrq_headers req) ''x-relayna-manual-retry-from-task-type'' = text_field (stripped_field (tm_dump M task) ''task_type'')"
    by (simp_all add: look none not_forwarded_def)
  have other: "map_of (mrq_headers req) k = map_of (tx_headers self) k"
    if "k \<notin> set not_forwarded" "k \<noteq> ''task_id''" "k \<notin> set (map fst (ma_headers args))" for k
  proof -
    have "map_of (ma_headers args) k = None" using that(3) by (simp add: map_of_eq_None_iff)
    then show ?thesis using that(1,2) by (auto simp: look not_forwarded_def)
  qed
  have "retry_attempt_from_headers (mrq_headers req) = 0"
    by (simp add: retry_attempt_from_headers_def keys)
  moreover have "manual_retry_count (mrq_headers req) = tx_manual_retry_count self + 1"
    using assms(2) by (simp add: manual_retry_count_def header_int_def keys py_int_def int_or_zero_def)
  moreover have "header_string (mrq_headers req) ''x-relayna-manual-retry-source-consumer'' = stripped (Some (tx_consumer_name self))"
    by (simp add: header_string_def keys stripped_def Let_def)
  ultimately show ?thesis
    using task other header_string_text_field[OF keys(4)] header_string_text_field[OF keys(5)] by simp
qed

definition sample_task_model :: task_model where
  "sample_task_model =
     \<lparr>tm_validate = (\<lambda>v. case v of
        PDict d \<Rightarrow> Inr \<lparr>te_task_id = dict_text d ''task_id'', te_payload = [], te_created_at = [], te_service = None,
          te_task_type = (case map_of d ''task_type'' of Some (PStr t) \<Rightarrow> Some t | _ \<Rightarrow> None),
          te_correlation_id = None, te_priority = None, te_spec_version = ''1.0'', te_extra = []\<rparr>
      | _ \<Rightarrow> Inl (ValueError ''not a mapping'')),
      tm_dump = (\<lambda>t. [(''task_id'', PStr (te_task_id t)),
        (''task_type'', case te_task_type t of Some s \<Rightarrow> PStr s | None \<Rightarrow> PNone)])\<rparr>"

definition sample_task_context :: task_context where
  "sample_task_context =
     \<lparr>tx_consumer_name = ''worker'', tx_raw_payload = [(''task_id'', PStr ''t1''), (''task_type'', PStr ''ocr'')],
      tx_correlation_id = None, tx_delivery_tag = None, tx_redelivered = False, tx_task_id = ''t1'',
      tx_retry_attempt = 2, tx_max_retries = Some 3, tx_source_queue_name = None, tx_batch_id = None,
      tx_batch_index = None, tx_batch_size = None,
      tx_headers = [(''x-relayna-retry-attempt'', PInt 2), (''trace'', PStr ''abc'')], tx_is_task_context = True,
      tx_manual_retry_count = 0, tx_manual_retry_previous_task_type = None, tx_manual_retry_source_consumer = None,
      tx_manual_retry_reason = None\<rparr>"

definition sample_manual_args :: manual_retry_args where
  "sample_manual_args =
     \<lparr>ma_task_type = Some ''llm'', ma_payload = None, ma_payload_merge = None, ma_service = None,
      ma_correlation_id = None, ma_priority = None, ma_reason = Some ''bad scan'', ma_message = None, ma_meta = [],
      ma_headers = [], ma_extra_fields = None\<rparr>"

lemma sample_manual_retry_returns:
  "\<exists>req. manual_retry sample_task_model sample_task_context sample_manual_args = Inr req"
  by (simp add: manual_retry_def sample_task_model_def sample_task_context_def sample_manual_args_def next_task_def
      with_task_type_def with_payload_def with_extra_fields_def first_text_def put_opt_def Let_def strip_id is_space_def)

theorem manual_retry_read_back_witness:
  "\<exists>req. manual_retry sample_task_model sample_task_context sample_manual_args = Inr req \<and>
     retry_attempt_from_headers (mrq_headers req) = 0 \<and> manual_retry_count (mrq_headers req) = 1"
proof -
  obtain req where req: "manual_retry sample_task_model sample_task_context sample_manual_args = Inr req"
    using sample_manual_retry_returns by blast
  show ?thesis using req manual_retry_read_back[OF req]
    by (simp add: sample_task_context_def sample_manual_args_def)
qed

end
