(* ===== verification/Consumer_Effects.thy ===== *)
theory Consumer_Effects
  imports Consumer_Context Lease_Store "HOL-Library.Sublist"
begin

text \<open>
  The effects of the consumers.  A consumer acts on the world through calls: settling the
  message it handles, publishing, running the user's handler, reporting observations.  The
  calls are arguments that may do anything to the world and may raise; the model keeps, beside
  the world, the trace of the calls made and whether each returned.  \<open>emits\<close> is the triple used
  to reason about traces: how a piece of code extends the trace and what it returns or raises.
  Observations and status events are best effort in this code, so the triple speaks of the
  \<open>core\<close> of a trace, without them.
\<close>

subsection \<open>Calls\<close>

record raw_message = published + pb_priority :: "int option"

datatype broker_call =
    Msg_ack
  | Msg_reject bool
  | Publish_raw raw_message
  | Publish_task dict dict
  | Publish_status status_event
  | Run_handler string
  | Observe string dict

type_synonym call_trace = "(broker_call \<times> bool) list"

type_synonym 'w traced = "'w \<times> call_trace"

abbreviation returned :: "'a res \<Rightarrow> bool" where
  "returned r \<equiv> \<not> isl r"

definition perform :: "(broker_call \<Rightarrow> ('w, unit) io) \<Rightarrow> broker_call \<Rightarrow> ('w traced, unit) io" where
  "perform call c s = (case call c (fst s) of (r, w) \<Rightarrow> (r, (w, snd s @ [(c, returned r)])))"

definition on_world :: "('w, 'a) io \<Rightarrow> ('w traced, 'a) io" where
  "on_world m s = (case m (fst s) of (r, w) \<Rightarrow> (r, (w, snd s)))"

text \<open>\<^verbatim>\<open>except Exception: return\<close>\<close>

definition quietly :: "('s, unit) io \<Rightarrow> ('s, unit) io" where
  "quietly m = io_catch m (\<lambda>_. io_return ())"

text \<open>\<^verbatim>\<open>observability/events.py\<close>: observations never fail; without a sink there are none.\<close>

definition emit_observation ::
  "(broker_call \<Rightarrow> ('w, unit) io) \<Rightarrow> bool \<Rightarrow> string \<Rightarrow> dict \<Rightarrow> ('w traced, unit) io" where
  "emit_observation call sink name kwargs =
     (if sink then quietly (perform call (Observe name kwargs)) else io_return ())"

text \<open>What running the user's handler ends in.\<close>

datatype handler_end = Handler_done "manual_retry_request option" | Handler_failed py_error

definition run_handler :: "('w \<Rightarrow> handler_end \<times> 'w) \<Rightarrow> string \<Rightarrow> ('w traced, manual_retry_request option) io" where
  "run_handler handler task_id s =
     (case handler (fst s) of
        (Handler_done request, w) \<Rightarrow> (Inr request, (w, snd s @ [(Run_handler task_id, True)]))
      | (Handler_failed e, w) \<Rightarrow> (Inl e, (w, snd s @ [(Run_handler task_id, False)])))"

subsection \<open>Traces\<close>

fun best_effort :: "broker_call \<Rightarrow> bool" where
  "best_effort (Observe n d) = True"
| "best_effort (Publish_status ev) = True"
| "best_effort _ = False"

fun settles :: "broker_call \<Rightarrow> bool" where
  "settles Msg_ack = True"
| "settles (Msg_reject requeue) = True"
| "settles _ = False"

definition core :: "call_trace \<Rightarrow> call_trace" where
  "core tr = filter (\<lambda>(c, ok). \<not> best_effort c) tr"

definition settlements :: "call_trace \<Rightarrow> call_trace" where
  "settlements tr = filter (\<lambda>(c, ok). settles c) tr"

lemma core_simps [simp]:
  "core [] = []" "core (a @ b) = core a @ core b"
  "core ((c, ok) # tr) = (if best_effort c then core tr else (c, ok) # core tr)"
  by (simp_all add: core_def)

lemma settlements_simps [simp]:
  "settlements [] = []" "settlements (a @ b) = settlements a @ settlements b"
  "settlements ((c, ok) # tr) = (if settles c then (c, ok) # settlements tr else settlements tr)"
  by (simp_all add: settlements_def)

lemma settles_not_best_effort: "settles c \<Longrightarrow> \<not> best_effort c"
  by (cases c) auto

lemma settlements_core [simp]: "settlements (core tr) = settlements tr"
  by (induction tr) (auto simp: settles_not_best_effort)

lemma io_bind_return [simp]: "io_bind (io_return x) f = f x"
  by (simp add: io_bind_def io_return_def fun_eq_iff)

subsection \<open>Triples over traces\<close>

definition emits :: "('w traced, 'a) io \<Rightarrow> ('a res \<Rightarrow> call_trace \<Rightarrow> bool) \<Rightarrow> bool" where
  "emits m Q \<longleftrightarrow> (\<forall>s r t. m s = (r, t) \<longrightarrow> (\<exists>ext. snd t = snd s @ ext \<and> Q r (core ext)))"

lemma emitsI: "(\<And>s r t. m s = (r, t) \<Longrightarrow> \<exists>ext. snd t = snd s @ ext \<and> Q r (core ext)) \<Longrightarrow> emits m Q"
  by (simp add: emits_def)

lemma emitsE:
  assumes "emits m Q" "m s = (r, t)"
  obtains ext where "snd t = snd s @ ext" "Q r (core ext)"
  using assms unfolding emits_def by blast

lemma emits_weaken: "emits m Q \<Longrightarrow> (\<And>r c. Q r c \<Longrightarrow> P r c) \<Longrightarrow> emits m P"
  unfolding emits_def by blast

lemma emits_return: "Q (Inr x) [] \<Longrightarrow> emits (io_return x) Q"
  by (auto simp: emits_def io_return_def)

lemma emits_raise: "Q (Inl e) [] \<Longrightarrow> emits (io_raise e) Q"
  by (auto simp: emits_def io_raise_def)

lemma emits_lift: "Q r [] \<Longrightarrow> emits (io_lift r) Q"
  by (auto simp: emits_def io_lift_def)

lemma emits_world: "(\<And>r. Q r []) \<Longrightarrow> emits (on_world m) Q"
  by (auto simp: emits_def on_world_def split: prod.splits)

lemma emits_bind:
  assumes "emits m (\<lambda>r c. case r of Inl e \<Rightarrow> P (Inl e) c | Inr x \<Rightarrow> emits (f x) (\<lambda>r d. P r (c @ d)))"
  shows "emits (io_bind m f) P"
proof (rule emitsI)
  fix s r t assume run: "io_bind m f s = (r, t)"
  obtain r1 s1 where m: "m s = (r1, s1)" by (rule prod.exhaust)
  obtain a where a: "snd s1 = snd s @ a"
    "case r1 of Inl e \<Rightarrow> P (Inl e) (core a) | Inr x \<Rightarrow> emits (f x) (\<lambda>r d. P r (core a @ d))"
    using assms m by (rule emitsE)
  show "\<exists>ext. snd t = snd s @ ext \<and> P r (core ext)"
  proof (cases r1)
    case (Inl e)
    then show ?thesis using run m a by (auto simp: io_bind_def)
  next
    case (Inr x)
    then have "f x s1 = (r, t)" using run m by (simp add: io_bind_def)
    moreover have "emits (f x) (\<lambda>r d. P r (core a @ d))" using a Inr by simp
    ultimately obtain b where "snd t = snd s1 @ b" "P r (core a @ core b)" by (metis emitsE)
    then show ?thesis using a by (intro exI[of _ "a @ b"]) simp
  qed
qed

lemma emits_catch:
  assumes "emits m (\<lambda>r c. case r of Inr x \<Rightarrow> P (Inr x) c | Inl e \<Rightarrow> emits (h e) (\<lambda>r d. P r (c @ d)))"
  shows "emits (io_catch m h) P"
proof (rule emitsI)
  fix s r t assume run: "io_catch m h s = (r, t)"
  obtain r1 s1 where m: "m s = (r1, s1)" by (rule prod.exhaust)
  obtain a where a: "snd s1 = snd s @ a"
    "case r1 of Inr x \<Rightarrow> P (Inr x) (core a) | Inl e \<Rightarrow> emits (h e) (\<lambda>r d. P r (core a @ d))"
    using assms m by (rule emitsE)
  show "\<exists>ext. snd t = snd s @ ext \<and> P r (core ext)"
  proof (cases r1)
    case (Inr x)
    then show ?thesis using run m a by (auto simp: io_catch_def)
  next
    case (Inl e)
    then have "h e s1 = (r, t)" using run m by (simp add: io_catch_def)
    moreover have "emits (h e) (\<lambda>r d. P r (core a @ d))" using a Inl by simp
    ultimately obtain b where "snd t = snd s1 @ b" "P r (core a @ core b)" by (metis emitsE)
    then show ?thesis using a by (intro exI[of _ "a @ b"]) simp
  qed
qed

lemma emits_finally:
  assumes "emits m (\<lambda>r c. emits f (\<lambda>r' d. P (case r' of Inl e \<Rightarrow> Inl e | Inr _ \<Rightarrow> r) (c @ d)))"
  shows "emits (io_finally m f) P"
proof (rule emitsI)
  fix s r t assume run: "io_finally m f s = (r, t)"
  obtain r1 s1 where m: "m s = (r1, s1)" by (rule prod.exhaust)
  obtain r2 s2 where f: "f s1 = (r2, s2)" by (rule prod.exhaust)
  have rt: "r = (case r2 of Inl e \<Rightarrow> Inl e | Inr _ \<Rightarrow> r1)" "t = s2"
    using run m f by (cases r2; simp add: io_finally_def)+
  obtain a where a: "snd s1 = snd s @ a"
    "emits f (\<lambda>r' d. P (case r' of Inl e \<Rightarrow> Inl e | Inr _ \<Rightarrow> r1) (core a @ d))"
    using assms m by (rule emitsE)
  obtain b where "snd s2 = snd s1 @ b" "P (case r2 of Inl e \<Rightarrow> Inl e | Inr _ \<Rightarrow> r1) (core a @ core b)"
    using a(2) f by (rule emitsE)
  then show "\<exists>ext. snd t = snd s @ ext \<and> P r (core ext)"
    using a rt by (intro exI[of _ "a @ b"]) simp
qed

lemma emits_perform: "(\<And>r. Q r (core [(c, returned r)])) \<Longrightarrow> emits (perform call c) Q"
  by (auto simp: emits_def perform_def split: prod.splits intro!: exI)

lemma emits_handler:
  "(\<And>x. Q (Inr x) [(Run_handler task_id, True)]) \<Longrightarrow> (\<And>e. Q (Inl e) [(Run_handler task_id, False)]) \<Longrightarrow>
   emits (run_handler handler task_id) Q"
  by (fastforce simp: emits_def run_handler_def split: prod.splits handler_end.splits)

lemma emits_quietly:
  assumes "emits m (\<lambda>r c. P (Inr ()) c)"
  shows "emits (quietly m) P"
  unfolding quietly_def
  by (rule emits_catch, rule emits_weaken[OF assms]) (auto split: sum.splits intro!: emits_return)

text \<open>Best-effort code returns and leaves no core.\<close>

definition silent :: "('w traced, unit) io \<Rightarrow> bool" where
  "silent m \<longleftrightarrow> emits m (\<lambda>r c. r = Inr () \<and> c = [])"

lemma silent_observation [intro, simp]: "silent (emit_observation call sink name kwargs)"
  by (auto simp: silent_def emit_observation_def intro!: emits_return emits_quietly emits_perform)

lemma silent_return [intro, simp]: "silent (io_return ())"
  by (simp add: silent_def emits_return)

lemma emits_silent_bind:
  assumes "silent m" and "emits (f ()) P"
  shows "emits (io_bind m f) P"
  by (rule emits_bind, rule emits_weaken[OF assms(1)[unfolded silent_def]]) (use assms(2) in auto)

lemma silent_bind: "silent m \<Longrightarrow> silent (f ()) \<Longrightarrow> silent (io_bind m f)"
  unfolding silent_def[of "io_bind m f"] by (rule emits_silent_bind) (auto simp: silent_def)

lemma emits_read: "(\<And>w. emits (m w) Q) \<Longrightarrow> emits (\<lambda>s. m (fst s) s) Q"
  unfolding emits_def by blast

lemma silent_read: "(\<And>w. silent (m w)) \<Longrightarrow> silent (\<lambda>s. m (fst s) s)"
  unfolding silent_def by (rule emits_read)

lemma silent_quietly: "emits m (\<lambda>r c. c = []) \<Longrightarrow> silent (quietly m)"
  unfolding silent_def by (rule emits_quietly) (auto elim: emits_weaken)

lemma silent_finally: "emits m P \<Longrightarrow> silent f \<Longrightarrow> emits (io_finally m f) P"
  by (rule emits_finally, rule emits_weaken[where Q = P], assumption)
    (auto simp: silent_def elim!: emits_weaken)

lemma emits_silent: "silent m \<Longrightarrow> P (Inr ()) [] \<Longrightarrow> emits m P"
  unfolding silent_def by (auto elim: emits_weaken)

lemma emits_perform_then:
  assumes "\<And>e. P (Inl e) (core [(c, False)])" and "emits f (\<lambda>r d. P r (core [(c, True)] @ d))"
  shows "emits (io_bind (perform call c) (\<lambda>_. f)) P"
  by (rule emits_bind, rule emits_perform) (use assms in \<open>auto split: sum.splits simp del: core_simps\<close>)

lemma emits_call:
  "(\<And>e. Q (Inl e) (core [(c, False)])) \<Longrightarrow> Q (Inr ()) (core [(c, True)]) \<Longrightarrow> emits (perform call c) Q"
  by (rule emits_perform) (metis (full_types) isl_def obj_sumE old.unit.exhaust)

subsection \<open>What the consumers share\<close>

text \<open>
  The collaborators every consumer holds: its name, policies and stores, the calls on the
  client, the clock (read from the world) and formatting of instants, JSON parsing, and the class
  name and text of an exception.
\<close>

record retry_infrastructure =
  ri_retry_queue_name :: string
  ri_dead_letter_queue_name :: string

record 'w consumer_base =
  cn_consumer_name :: string
  cn_retry_policy :: "retry_policy option"
  cn_retry_statuses :: retry_status_config
  cn_alias_config :: "alias_config option"
  cn_dlq_store :: "'w dlq_store option"
  cn_sink :: bool
  cn_call :: "broker_call \<Rightarrow> ('w, unit) io"
  cn_clock :: "'w \<Rightarrow> int"
  cn_isoformat :: "int \<Rightarrow> string"
  cn_parse :: "string \<Rightarrow> pyval res"
  cn_codecs :: text_codecs
  cn_exc_type :: "py_error \<Rightarrow> string"
  cn_exc_text :: "py_error \<Rightarrow> string"

definition coerce_task_type :: "pyval \<Rightarrow> string option" where
  "coerce_task_type payload = (case payload of PDict d \<Rightarrow> stripped_field d ''task_type'' | _ \<Rightarrow> None)"

text \<open>\<^verbatim>\<open>dict(payload)\<close> of a mapping\<close>

definition payload_dict :: "pyval \<Rightarrow> dict" where
  "payload_dict payload = (case payload of PDict d \<Rightarrow> d | _ \<Rightarrow> [])"

definition task_type_from_body :: "('w, 'x) consumer_base_scheme \<Rightarrow> string \<Rightarrow> string option" where
  "task_type_from_body C body =
     (case cn_parse C body of
        Inl _ \<Rightarrow> None
      | Inr payload \<Rightarrow> coerce_task_type (normalize_payload (cn_alias_config C) payload))"

abbreviation observe :: "('w, 'x) consumer_base_scheme \<Rightarrow> string \<Rightarrow> dict \<Rightarrow> ('w traced, unit) io" where
  "observe C \<equiv> emit_observation (cn_call C) (cn_sink C)"

definition opt_int :: "int option \<Rightarrow> pyval" where
  "opt_int i = (case i of None \<Rightarrow> PNone | Some n \<Rightarrow> PInt n)"

definition publish_context_status ::
  "('w, 'x) consumer_base_scheme \<Rightarrow> task_context \<Rightarrow> string \<Rightarrow> string \<Rightarrow> dict \<Rightarrow> ('w traced, unit) io" where
  "publish_context_status C context status message meta s =
     io_bind (io_lift (task_status_event (cn_isoformat C (cn_clock C (fst s))) context None
       \<lparr>sf_status = Some status, sf_message = Some message, sf_meta = meta, sf_result = None, sf_event_id = None,
        sf_service = None\<rparr>)) (\<lambda>event. perform (cn_call C) (Publish_status event)) s"

definition retry_status_text :: "int \<Rightarrow> int \<Rightarrow> string" where
  "retry_status_text next_attempt max_retries =
     ''Task processing failed. Scheduling retry '' @ int_str next_attempt @ ''/'' @ int_str max_retries @ ''.''"

definition not_initialized :: "('s, 'a) io" where
  "not_initialized = io_raise (RuntimeError ''Retry infrastructure is not initialized'')"

definition retry_message ::
  "('w, 'x) consumer_base_scheme \<Rightarrow> amqp_message \<Rightarrow> message_metadata \<Rightarrow> retry_infrastructure \<Rightarrow> string \<Rightarrow> int \<Rightarrow> int \<Rightarrow> string \<Rightarrow>
   string option \<Rightarrow> dict \<Rightarrow> raw_message" where
  "retry_message C message metadata infra source_queue_name attempt max_retries reason exception_type extra_headers =
     \<lparr>pb_queue = ri_retry_queue_name infra, pb_body = am_body message,
      pb_correlation_id = md_correlation_id metadata,
      pb_headers = retry_headers (md_headers metadata) source_queue_name attempt max_retries reason exception_type extra_headers,
      pb_content_type = md_content_type metadata, pb_priority = retry_priority (cn_retry_policy C) attempt\<rparr>"

text \<open>\<^verbatim>\<open>_persist_dlq_record\<close>: a failing store is reported and otherwise ignored.\<close>

definition persist_dlq_record :: "('w, 'x) consumer_base_scheme \<Rightarrow> dead_letter \<Rightarrow> ('w traced, unit) io" where
  "persist_dlq_record C letter =
     (case cn_dlq_store C of
        None \<Rightarrow> io_return ()
      | Some S \<Rightarrow>
          io_catch (on_world (\<lambda>w. dlq_add S (cn_clock C w) (build_dlq_record (cn_codecs C) (cn_clock C w) letter) w)) (\<lambda>exc.
            observe C ''ConsumerDLQRecordPersistFailed''
              [(''consumer_name'', opt_str (dl_consumer_name letter)), (''task_id'', opt_str (dl_task_id letter)),
               (''queue_name'', PStr (dl_queue_name letter)), (''source_queue_name'', PStr (dl_source_queue_name letter)),
               (''retry_attempt'', PInt (dl_retry_attempt letter)), (''max_retries'', PInt (dl_max_retries letter)),
               (''reason'', PStr (dl_reason letter)), (''exception_type'', PStr (cn_exc_type C exc)),
               (''exception_message'', PStr (cn_exc_text C exc))]))"

record failure =
  fl_task_id :: "string option"
  fl_retry_attempt :: int
  fl_reason :: string
  fl_exception_type :: "string option"
  fl_exception_message :: "string option"
  fl_extra_headers :: dict

definition dead_letter_headers :: "retry_policy \<Rightarrow> message_metadata \<Rightarrow> string \<Rightarrow> failure \<Rightarrow> dict" where
  "dead_letter_headers policy metadata source_queue_name f =
     retry_headers (md_headers metadata) source_queue_name (fl_retry_attempt f) (rp_max_retries policy)
       (fl_reason f) (fl_exception_type f) (fl_extra_headers f)"

definition dead_letter_message ::
  "amqp_message \<Rightarrow> message_metadata \<Rightarrow> retry_policy \<Rightarrow> retry_infrastructure \<Rightarrow> string \<Rightarrow> failure \<Rightarrow> raw_message" where
  "dead_letter_message message metadata policy ri source_queue_name f =
     \<lparr>pb_queue = ri_dead_letter_queue_name ri, pb_body = am_body message,
      pb_correlation_id = md_correlation_id metadata,
      pb_headers = dead_letter_headers policy metadata source_queue_name f,
      pb_content_type = md_content_type metadata, pb_priority = None\<rparr>"

definition dead_letter_of ::
  "string \<Rightarrow> amqp_message \<Rightarrow> message_metadata \<Rightarrow> retry_policy \<Rightarrow> retry_infrastructure \<Rightarrow> string \<Rightarrow> failure \<Rightarrow> dead_letter" where
  "dead_letter_of consumer_name message metadata policy ri source_queue_name f =
     \<lparr>dl_queue_name = ri_dead_letter_queue_name ri, dl_source_queue_name = source_queue_name,
      dl_retry_queue_name = ri_retry_queue_name ri, dl_task_id = fl_task_id f,
      dl_correlation_id = md_correlation_id metadata, dl_reason = fl_reason f,
      dl_exception_type = fl_exception_type f, dl_retry_attempt = fl_retry_attempt f,
      dl_max_retries = rp_max_retries policy,
      dl_headers = dead_letter_headers policy metadata source_queue_name f,
      dl_content_type = md_content_type metadata, dl_body = am_body message,
      dl_consumer_name = Some consumer_name, dl_diagnosis = None,
      dl_exception_message = fl_exception_message f, dl_traceback = None, dl_metadata = []\<rparr>"

lemma publish_context_status_core: "emits (publish_context_status C context status message meta) (\<lambda>r c. c = [])"
proof -
  have "emits (\<lambda>s. (\<lambda>w. io_bind (io_lift (task_status_event (cn_isoformat C (cn_clock C w)) context None
       \<lparr>sf_status = Some status, sf_message = Some message, sf_meta = meta, sf_result = None, sf_event_id = None,
        sf_service = None\<rparr>)) (\<lambda>event. perform (cn_call C) (Publish_status event))) (fst s) s) (\<lambda>r c. c = [])"
    by (rule emits_read) (auto intro!: emits_bind emits_lift emits_perform split: sum.splits)
  then show ?thesis by (simp add: publish_context_status_def[abs_def])
qed

lemma silent_persist [intro, simp]:
  "silent (persist_dlq_record C letter)"
  by (auto simp: silent_def persist_dlq_record_def split: option.splits sum.splits
      intro!: emits_return emits_catch emits_world silent_observation[unfolded silent_def])

subsection \<open>Leases\<close>

record lease_policy =
  lp_enabled :: bool
  lp_ttl :: int
  lp_recovery_action :: lease_recovery_action

text \<open>A consumer that takes leases; \<open>lz_beats\<close> is how often its heartbeat task gets to run.\<close>

record 'w leasing_consumer = "'w consumer_base" +
  lz_lease_store :: "'w lease_store option"
  lz_lease_policy :: lease_policy
  lz_lease_owner_id :: string
  lz_beats :: "'w \<Rightarrow> nat"

text \<open>
  \<^verbatim>\<open>_heartbeat_lease\<close> beats until it is cancelled: as many times as the schedule lets it.  It runs
  beside the handler; here its beats, which only touch the lease, come when it is awaited.
\<close>

fun heartbeat_lease :: "nat \<Rightarrow> ('w, 'x) leasing_consumer_scheme \<Rightarrow> 'w lease_store \<Rightarrow> string \<Rightarrow> ('w, unit) io" where
  "heartbeat_lease 0 C S lease_id = io_return ()"
| "heartbeat_lease (Suc n) C S lease_id =
     io_bind (\<lambda>w. heartbeat S (cn_clock C w) lease_id (lz_lease_owner_id C)
       (cn_clock C w + lp_ttl (lz_lease_policy C)) w) (\<lambda>_. heartbeat_lease n C S lease_id)"

subsection \<open>The settlement protocol\<close>

text \<open>
  What happens to a message that cannot be completed, as an abstract specification: it is
  rejected, or a copy is published and then it is acknowledged; without the retry
  infrastructure nothing can be done.
\<close>

datatype disposition = Reject_it bool | Publish_then_ack raw_message | Give_up

inductive disposes :: "disposition \<Rightarrow> 'a res \<Rightarrow> call_trace \<Rightarrow> bool" where
  rejected: "disposes (Reject_it requeue) (Inr v) [(Msg_reject requeue, True)]"
| reject_raised: "disposes (Reject_it requeue) (Inl e) [(Msg_reject requeue, False)]"
| published: "disposes (Publish_then_ack m) (Inr v) [(Publish_raw m, True), (Msg_ack, True)]"
| publish_raised: "disposes (Publish_then_ack m) (Inl e) [(Publish_raw m, False)]"
| ack_raised: "disposes (Publish_then_ack m) (Inl e) [(Publish_raw m, True), (Msg_ack, False)]"
| given_up: "disposes Give_up (Inl e) []"

inductive_cases disposes_returned: "disposes d (Inr v) c"


definition dead_letter_disposition ::
  "('w, 'x) consumer_base_scheme \<Rightarrow> amqp_message \<Rightarrow> retry_infrastructure option \<Rightarrow> string \<Rightarrow> failure \<Rightarrow> disposition" where
  "dead_letter_disposition C message infra source_queue_name f =
     (case (infra, cn_retry_policy C) of
        (Some ri, Some policy) \<Rightarrow>
          Publish_then_ack (dead_letter_message message (extract_message_metadata message) policy ri source_queue_name f)
      | _ \<Rightarrow> Give_up)"

text \<open>
  Safe settlement: a message is settled at most once, and once when its handling returns; an
  acknowledgement comes last and only when the message is secured by what was done before.
\<close>

definition copy_published :: "amqp_message \<Rightarrow> call_trace \<Rightarrow> bool" where
  "copy_published message c \<longleftrightarrow> (\<exists>m. (Publish_raw m, True) \<in> set c \<and> pb_body m = am_body message)"

definition settled_safely :: "(call_trace \<Rightarrow> bool) \<Rightarrow> 'a res \<Rightarrow> call_trace \<Rightarrow> bool" where
  "settled_safely secure r c \<longleftrightarrow>
     length (settlements c) \<le> 1 \<and>
     (returned r \<longrightarrow> (\<exists>how. settlements c = [(how, True)])) \<and>
     (\<forall>ok. (Msg_ack, ok) \<in> set c \<longrightarrow> last c = (Msg_ack, ok) \<and> secure (butlast c))"

definition copies_of :: "amqp_message \<Rightarrow> disposition \<Rightarrow> bool" where
  "copies_of message d \<longleftrightarrow> (case d of Publish_then_ack m \<Rightarrow> pb_body m = am_body message | _ \<Rightarrow> True)"

lemma disposes_safely:
  assumes "disposes d r c" and "copies_of message d" and "\<And>c. copy_published message c \<Longrightarrow> secure c"
  shows "settled_safely secure r c"
  using assms by (induction rule: disposes.induct) (auto simp: settled_safely_def copies_of_def copy_published_def)

lemma settlements_none: "settlements c = [] \<Longrightarrow> (Msg_ack, ok) \<notin> set c"
  by (auto simp: settlements_def filter_empty_conv)

lemma settled_safely_ack:
  assumes "settlements c = []" and "secure c"
  shows "settled_safely secure r (c @ [(Msg_ack, returned r)])"
  using assms settlements_none[OF assms(1)] by (auto simp: settled_safely_def)

text \<open>A message is secured when its handler completed or a copy of it was published.\<close>

definition processed_or_copied :: "amqp_message \<Rightarrow> call_trace \<Rightarrow> bool" where
  "processed_or_copied message c \<longleftrightarrow> (\<exists>i. (Run_handler i, True) \<in> set c) \<or> copy_published message c"

lemma disposes_behind:
  assumes "disposes d r c" and "copies_of message d" and "settlements pre = []"
  shows "settled_safely (processed_or_copied message) r (pre @ c)"
proof -
  have s: "settled_safely (copy_published message) r c"
    using assms(1,2) by (rule disposes_safely)
  have none: "(Msg_ack, ok) \<notin> set pre" for ok using assms(3) by (rule settlements_none)
  have "last (pre @ c) = (Msg_ack, ok) \<and> processed_or_copied message (butlast (pre @ c))" if "(Msg_ack, ok) \<in> set c" for ok
  proof -
    have "c \<noteq> []" "last c = (Msg_ack, ok)" "copy_published message (butlast c)"
      using s that by (auto simp: settled_safely_def)
    then show ?thesis by (auto simp: processed_or_copied_def copy_published_def butlast_append)
  qed
  then show ?thesis using s none assms(3) by (auto simp: settled_safely_def)
qed

text \<open>
  The interface of a consumer that settles safely, and what follows for one message and for the
  sequence of messages of \<^verbatim>\<open>_run_sequential_iterator\<close>: a loop over the messages that ends at the
  first exception or when the stop event is set.
\<close>

fun run_sequential_iterator :: "('m \<Rightarrow> ('w traced, unit) io) \<Rightarrow> ('w \<Rightarrow> bool) \<Rightarrow> 'm list \<Rightarrow> ('w traced, 'm list) io" where
  "run_sequential_iterator handle stop [] = io_return []"
| "run_sequential_iterator handle stop (m # ms) =
     io_bind (handle m) (\<lambda>_ s. (if stop (fst s) then io_return [m]
       else io_bind (run_sequential_iterator handle stop ms) (\<lambda>handled. io_return (m # handled))) s)"

locale settling_consumer =
  fixes handle :: "'m \<Rightarrow> ('w traced, unit) io" and secure :: "'m \<Rightarrow> call_trace \<Rightarrow> bool"
  assumes settles_safely: "emits (handle m) (settled_safely (secure m))"
begin

lemma settled:
  assumes "handle m (w, []) = (r, (w', tr))"
  shows "length (settlements tr) \<le> 1 \<and>
    (r = Inr () \<longrightarrow> (\<exists>how. settlements tr = [(how, True)])) \<and>
    (\<forall>ok. (Msg_ack, ok) \<in> set tr \<longrightarrow> last (core tr) = (Msg_ack, ok) \<and> secure m (butlast (core tr)))"
proof -
  obtain ext where "tr = ext" and "settled_safely (secure m) r (core ext)"
    using emitsE[OF settles_safely assms] by auto
  moreover have "(Msg_ack, ok) \<in> set (core tr) \<longleftrightarrow> (Msg_ack, ok) \<in> set tr" for ok
    by (auto simp: core_def)
  ultimately show ?thesis by (auto simp: settled_safely_def)
qed

text \<open>A run over a sequence settles each message it has handled exactly once.\<close>

lemma sequence_settled:
  "emits (run_sequential_iterator handle stop ms)
     (\<lambda>r c. \<forall>handled. r = Inr handled \<longrightarrow>
        prefix handled ms \<and> length (settlements c) = length handled \<and> (\<forall>x \<in> set (settlements c). snd x))"
proof (induction ms)
  case (Cons m ms)
  have rest: "emits (\<lambda>s. (\<lambda>w. if stop w then io_return [m]
       else io_bind (run_sequential_iterator handle stop ms) (\<lambda>handled. io_return (m # handled))) (fst s) s)
     (\<lambda>r d. \<forall>handled. r = Inr handled \<longrightarrow> prefix handled (m # ms) \<and>
        length (settlements (c @ d)) = length handled \<and> (\<forall>x \<in> set (settlements (c @ d)). snd x))"
    if "settlements c = [(how, True)]" for c how
  proof (rule emits_read)
    fix w
    have "emits (io_bind (run_sequential_iterator handle stop ms) (\<lambda>handled. io_return (m # handled)))
     (\<lambda>r d. \<forall>handled. r = Inr handled \<longrightarrow> prefix handled (m # ms) \<and>
        length (settlements (c @ d)) = length handled \<and> (\<forall>x \<in> set (settlements (c @ d)). snd x))"
      by (rule emits_bind, rule emits_weaken[OF Cons.IH]) (use that in \<open>auto split: sum.splits intro!: emits_return\<close>)
    moreover have "emits (io_return [m]) (\<lambda>r d. \<forall>handled. r = Inr handled \<longrightarrow> prefix handled (m # ms) \<and>
        length (settlements (c @ d)) = length handled \<and> (\<forall>x \<in> set (settlements (c @ d)). snd x))"
      using that by (intro emits_return) auto
    ultimately show "emits (if stop w then io_return [m]
        else io_bind (run_sequential_iterator handle stop ms) (\<lambda>handled. io_return (m # handled)))
     (\<lambda>r d. \<forall>handled. r = Inr handled \<longrightarrow> prefix handled (m # ms) \<and>
        length (settlements (c @ d)) = length handled \<and> (\<forall>x \<in> set (settlements (c @ d)). snd x))"
      by (cases "stop w") (simp_all only: if_True if_False)
  qed
  show ?case unfolding run_sequential_iterator.simps
  proof (rule emits_bind, rule emits_weaken[OF settles_safely])
    fix r c assume "settled_safely (secure m) r c"
    then show "case r of Inl e \<Rightarrow> \<forall>handled. Inl e = Inr handled \<longrightarrow> prefix handled (m # ms) \<and>
          length (settlements c) = length handled \<and> (\<forall>x \<in> set (settlements c). snd x)
      | Inr u \<Rightarrow> emits (\<lambda>s. (if stop (fst s) then io_return [m]
           else io_bind (run_sequential_iterator handle stop ms) (\<lambda>handled. io_return (m # handled))) s)
         (\<lambda>r d. \<forall>handled. r = Inr handled \<longrightarrow> prefix handled (m # ms) \<and>
            length (settlements (c @ d)) = length handled \<and> (\<forall>x \<in> set (settlements (c @ d)). snd x))"
    proof (cases r)
      case (Inr u)
      with \<open>settled_safely (secure m) r c\<close> obtain how where "settlements c = [(how, True)]"
        by (auto simp: settled_safely_def)
      from rest[OF this] show ?thesis unfolding Inr sum.case by (rule emits_weaken) blast
    qed simp
  qed
qed (simp add: emits_return)

end

end
