(* ===== verification/Task_Consumer.thy ===== *)
theory Task_Consumer
  imports Consumer_Effects
begin

text \<open>
  \<^verbatim>\<open>consumer/task_consumer.py\<close>, class \<^verbatim>\<open>TaskConsumer\<close>: how one message of the task queue is
  parsed, expanded when it is a batch, processed under a lease, retried, dead-lettered and
  settled.  The consumer's record holds what the object holds; the client's calls, the user's
  handler, JSON parsing and encoding and the pydantic models are arguments, and the clock is
  read from the world.  Metrics and tracing spans, which influence nothing here, are left out.
\<close>

subsection \<open>The consumer\<close>

record 'w task_consumer = "'w leasing_consumer" +
  tk_failure_action :: failure_action
  tk_lifecycle_statuses :: lifecycle_config
  tk_routed_topology :: bool
  tk_handler :: "task_envelope \<Rightarrow> task_context \<Rightarrow> 'w \<Rightarrow> handler_end \<times> 'w"
  tk_encode :: "dict \<Rightarrow> string"
  tk_model :: task_model
  tk_validate_batch :: "pyval \<Rightarrow> batch_task_envelope res"
  tk_sample :: "'w \<Rightarrow> dict option"
  tk_overrun :: "'w \<Rightarrow> nat"

definition rejected_fields ::
  "'w task_consumer \<Rightarrow> string \<Rightarrow> string option \<Rightarrow> string option \<Rightarrow> int \<Rightarrow> string option \<Rightarrow> bool \<Rightarrow> string \<Rightarrow> dict" where
  "rejected_fields C queue_name task_id correlation_id attempt task_type requeue reason =
     [(''consumer_name'', PStr (cn_consumer_name C)), (''queue_name'', PStr queue_name), (''task_id'', opt_str task_id),
      (''correlation_id'', opt_str correlation_id), (''retry_attempt'', PInt attempt), (''task_type'', opt_str task_type),
      (''requeue'', PBool requeue), (''reason'', PStr reason)]"

text \<open>\<^verbatim>\<open>_make_task_context\<close>; the batch fields come from the headers.\<close>

definition make_task_context ::
  "'w task_consumer \<Rightarrow> task_envelope \<Rightarrow> dict \<Rightarrow> message_metadata \<Rightarrow> string \<Rightarrow> task_context" where
  "make_task_context C task raw_payload metadata source_queue_name =
     (let headers = md_headers metadata in
      \<lparr>tx_consumer_name = cn_consumer_name C, tx_raw_payload = raw_payload,
       tx_correlation_id = first_text (te_correlation_id task) (md_correlation_id metadata),
       tx_delivery_tag = md_delivery_tag metadata, tx_redelivered = md_redelivered metadata,
       tx_task_id = te_task_id task, tx_retry_attempt = md_retry_attempt metadata,
       tx_max_retries = map_option rp_max_retries (cn_retry_policy C),
       tx_source_queue_name = Some source_queue_name, tx_batch_id = header_string headers ''batch_id'',
       tx_batch_index = header_int headers ''batch_index'', tx_batch_size = header_int headers ''batch_size'',
       tx_headers = headers, tx_is_task_context = True, tx_manual_retry_count = manual_retry_count headers,
       tx_manual_retry_previous_task_type = header_string headers ''x-relayna-manual-retry-from-task-type'',
       tx_manual_retry_source_consumer = header_string headers ''x-relayna-manual-retry-source-consumer'',
       tx_manual_retry_reason = header_string headers ''x-relayna-manual-retry-reason''\<rparr>)"

subsection \<open>Statuses\<close>

definition publish_lifecycle_status :: "'w task_consumer \<Rightarrow> task_context \<Rightarrow> string \<Rightarrow> string \<Rightarrow> ('w traced, unit) io" where
  "publish_lifecycle_status C context status message =
     (if \<not> lc_enabled (tk_lifecycle_statuses C) then io_return ()
      else quietly (io_bind (publish_context_status C context status message []) (\<lambda>_.
        observe C ''TaskLifecycleStatusPublished''
          [(''consumer_name'', PStr (cn_consumer_name C)), (''queue_name'', opt_str (tx_source_queue_name context)),
           (''task_id'', PStr (tx_task_id context)), (''correlation_id'', opt_str (tx_correlation_id context)),
           (''retry_attempt'', PInt (tx_retry_attempt context)),
           (''task_type'', opt_str (coerce_task_type (PDict (tx_raw_payload context)))), (''status'', PStr status)])))"

definition publish_retry_status :: "'w task_consumer \<Rightarrow> task_context \<Rightarrow> int \<Rightarrow> int \<Rightarrow> ('w traced, unit) io" where
  "publish_retry_status C context next_attempt max_retries =
     (if \<not> rs_enabled (cn_retry_statuses C) then io_return ()
      else quietly (publish_context_status C context (rs_retrying_status (cn_retry_statuses C))
             (retry_status_text next_attempt max_retries) []))"

definition publish_dead_letter_status :: "'w task_consumer \<Rightarrow> task_context \<Rightarrow> py_error \<Rightarrow> ('w traced, unit) io" where
  "publish_dead_letter_status C context exc =
     (if rs_enabled (cn_retry_statuses C)
      then quietly (publish_context_status C context (rs_dead_lettered_status (cn_retry_statuses C))
             (failure_message (cn_exc_text C exc) (rs_include_error_message (cn_retry_statuses C))) [])
      else if \<not> lc_enabled (tk_lifecycle_statuses C) then io_return ()
      else publish_lifecycle_status C context (lc_failed_status (tk_lifecycle_statuses C))
             (failure_message (cn_exc_text C exc) (lc_include_error_message (tk_lifecycle_statuses C))))"

definition publish_manual_retry_request ::
  "'w task_consumer \<Rightarrow> task_context \<Rightarrow> manual_retry_request \<Rightarrow> ('w traced, unit) io" where
  "publish_manual_retry_request C context request =
     io_bind (quietly (publish_context_status C context ''manual_retrying'' (mrq_status_message request)
       (mrq_status_meta request))) (\<lambda>_.
     perform (cn_call C) (Publish_task (mrq_task request) (mrq_headers request)))"

definition emit_task_resource_sample ::
  "'w task_consumer \<Rightarrow> task_envelope \<Rightarrow> task_context \<Rightarrow> string \<Rightarrow> string \<Rightarrow> ('w traced, unit) io" where
  "emit_task_resource_sample C task context queue_name sample_kind s =
     (case tk_sample C (fst s) of
        None \<Rightarrow> io_return () s
      | Some sample \<Rightarrow> observe C ''TaskResourceSampled''
          ([(''task_id'', PStr (te_task_id task)), (''correlation_id'', opt_str (tx_correlation_id context)),
            (''task_type'', opt_str (te_task_type task)), (''consumer_name'', PStr (cn_consumer_name C)),
            (''queue_name'', PStr queue_name), (''sample_kind'', PStr sample_kind)] @ sample) s)"

subsection \<open>Retry and dead letter\<close>

definition publish_retry ::
  "'w task_consumer \<Rightarrow> amqp_message \<Rightarrow> message_metadata \<Rightarrow> retry_infrastructure option \<Rightarrow> string \<Rightarrow> string option \<Rightarrow>
   int \<Rightarrow> int \<Rightarrow> string \<Rightarrow> string option \<Rightarrow> dict \<Rightarrow> ('w traced, unit) io" where
  "publish_retry C message metadata infra source_queue_name task_id attempt max_retries reason exception_type extra_headers =
     (case infra of
        None \<Rightarrow> not_initialized
      | Some ri \<Rightarrow>
          io_bind (perform (cn_call C) (Publish_raw (retry_message C message metadata ri source_queue_name attempt
             max_retries reason exception_type extra_headers))) (\<lambda>_.
          observe C ''ConsumerRetryScheduled''
            [(''consumer_name'', PStr (cn_consumer_name C)), (''task_id'', opt_str task_id),
             (''queue_name'', PStr (ri_retry_queue_name ri)), (''source_queue_name'', PStr source_queue_name),
             (''correlation_id'', opt_str (md_correlation_id metadata)),
             (''task_type'', opt_str (task_type_from_body C (am_body message))), (''retry_attempt'', PInt attempt),
             (''max_retries'', PInt max_retries), (''reason'', PStr reason)]))"

definition publish_dead_letter ::
  "'w task_consumer \<Rightarrow> amqp_message \<Rightarrow> message_metadata \<Rightarrow> retry_infrastructure option \<Rightarrow> string \<Rightarrow> failure \<Rightarrow>
   ('w traced, unit) io" where
  "publish_dead_letter C message metadata infra source_queue_name f =
     (case (infra, cn_retry_policy C) of
        (Some ri, Some policy) \<Rightarrow>
          io_bind (perform (cn_call C) (Publish_raw (dead_letter_message message metadata policy ri source_queue_name f))) (\<lambda>_.
          io_bind (observe C ''ConsumerDeadLetterPublished''
            [(''consumer_name'', PStr (cn_consumer_name C)), (''task_id'', opt_str (fl_task_id f)),
             (''queue_name'', PStr (ri_dead_letter_queue_name ri)), (''source_queue_name'', PStr source_queue_name),
             (''correlation_id'', opt_str (md_correlation_id metadata)),
             (''task_type'', opt_str (task_type_from_body C (am_body message))),
             (''retry_attempt'', PInt (fl_retry_attempt f)), (''max_retries'', PInt (rp_max_retries policy)),
             (''reason'', PStr (fl_reason f))]) (\<lambda>_.
          persist_dlq_record C (dead_letter_of (cn_consumer_name C) message metadata policy ri source_queue_name f)))
      | _ \<Rightarrow> not_initialized)"

subsection \<open>Processing a task\<close>

definition failure_context ::
  "'w task_consumer \<Rightarrow> task_envelope \<Rightarrow> task_context \<Rightarrow> string \<Rightarrow> py_error \<Rightarrow> retry_context" where
  "failure_context C task context source_queue_name exc =
     \<lparr>rc_worker_type = ''task'', rc_queue_name = source_queue_name, rc_retry_attempt = tx_retry_attempt context,
      rc_reason = ''handler_error'', rc_exception_type = Some (cn_exc_type C exc), rc_task_id = Some (te_task_id task),
      rc_task_type = te_task_type task, rc_workflow_stage = None, rc_headers = tx_headers context,
      rc_pressure_signals = [], rc_lease_state = None, rc_max_retries = map_option rp_max_retries (cn_retry_policy C),
      rc_failure_action = failure_action_value (tk_failure_action C)\<rparr>"

definition task_decision ::
  "'w task_consumer \<Rightarrow> task_envelope \<Rightarrow> task_context \<Rightarrow> string \<Rightarrow> py_error \<Rightarrow> retry_decision" where
  "task_decision C task context source_queue_name exc =
     engine_decide_retry decide_static_retry (failure_context C task context source_queue_name exc)"

text \<open>The body of the \<^verbatim>\<open>try\<close> of \<^verbatim>\<open>_process_task\<close>.\<close>

definition run_task ::
  "'w task_consumer \<Rightarrow> task_envelope \<Rightarrow> task_context \<Rightarrow> string \<Rightarrow> ('w traced, bool) io" where
  "run_task C task context source_queue_name =
     io_bind (publish_lifecycle_status C context (lc_processing_status (tk_lifecycle_statuses C))
       ''Task processing started.'') (\<lambda>_.
     io_bind (emit_task_resource_sample C task context source_queue_name ''start'') (\<lambda>_.
     io_bind (run_handler (tk_handler C task context) (te_task_id task)) (\<lambda>request.
     case request of
       Some r \<Rightarrow> io_bind (publish_manual_retry_request C context r) (\<lambda>_. io_return True)
     | None \<Rightarrow>
         io_bind (publish_lifecycle_status C context (lc_completed_status (tk_lifecycle_statuses C))
           ''Task processing completed.'') (\<lambda>_. io_return True))))"

text \<open>The branch of \<^verbatim>\<open>_process_task\<close> for an exception of the handler.\<close>

definition task_failed ::
  "'w task_consumer \<Rightarrow> task_envelope \<Rightarrow> task_context \<Rightarrow> amqp_message \<Rightarrow> message_metadata \<Rightarrow>
   retry_infrastructure option \<Rightarrow> string \<Rightarrow> py_error \<Rightarrow> ('w traced, bool) io" where
  "task_failed C task context message metadata infra source_queue_name exc =
     (let decision = task_decision C task context source_queue_name exc in
      io_bind (observe C ''TaskHandlerFailed''
        [(''consumer_name'', PStr (cn_consumer_name C)), (''queue_name'', PStr source_queue_name),
         (''task_id'', PStr (te_task_id task)), (''correlation_id'', opt_str (tx_correlation_id context)),
         (''retry_attempt'', PInt (tx_retry_attempt context)), (''task_type'', opt_str (te_task_type task)),
         (''exception_type'', PStr (cn_exc_type C exc)), (''exception_message'', PStr (cn_exc_text C exc)),
         (''requeue'', PBool (cn_retry_policy C = None \<and> tk_failure_action C = FA_REQUEUE))]) (\<lambda>_.
      if rd_action decision = REJECT \<or> rd_action decision = REQUEUE then
        io_bind (publish_lifecycle_status C context (lc_failed_status (tk_lifecycle_statuses C))
          (failure_message (cn_exc_text C exc) (lc_include_error_message (tk_lifecycle_statuses C)))) (\<lambda>_.
        let requeue = (tk_failure_action C = FA_REQUEUE) in
        io_bind (perform (cn_call C) (Msg_reject requeue)) (\<lambda>_.
        io_bind (observe C ''TaskMessageRejected''
          (rejected_fields C source_queue_name (Some (te_task_id task)) (tx_correlation_id context)
             (tx_retry_attempt context) (te_task_type task) requeue ''handler_error'')) (\<lambda>_. io_return False)))
      else if rd_action decision = RETRY then
        (case rd_max_retries decision of
           None \<Rightarrow> io_raise (RuntimeError ''Retry decision is missing max_retries'')
         | Some max_retries \<Rightarrow>
             io_bind (publish_retry C message metadata infra source_queue_name (Some (te_task_id task))
               (rd_retry_attempt decision) max_retries (rd_reason decision) (Some (cn_exc_type C exc))
               (merge_batch_retry_headers context [])) (\<lambda>_.
             io_bind (publish_retry_status C context (rd_retry_attempt decision) max_retries) (\<lambda>_.
             io_bind (perform (cn_call C) Msg_ack) (\<lambda>_. io_return False))))
      else
        io_bind (publish_dead_letter C message metadata infra source_queue_name
          \<lparr>fl_task_id = Some (te_task_id task), fl_retry_attempt = rd_retry_attempt decision,
           fl_reason = rd_reason decision, fl_exception_type = Some (cn_exc_type C exc),
           fl_exception_message = Some (cn_exc_text C exc),
           fl_extra_headers = merge_batch_retry_headers context []\<rparr>) (\<lambda>_.
        io_bind (publish_dead_letter_status C context exc) (\<lambda>_.
        io_bind (perform (cn_call C) Msg_ack) (\<lambda>_. io_return False)))))"

definition process_task ::
  "'w task_consumer \<Rightarrow> task_envelope \<Rightarrow> task_context \<Rightarrow> amqp_message \<Rightarrow> message_metadata \<Rightarrow>
   retry_infrastructure option \<Rightarrow> string \<Rightarrow> ('w traced, bool) io" where
  "process_task C task context message metadata infra source_queue_name =
     io_finally
       (io_catch (run_task C task context source_queue_name)
          (task_failed C task context message metadata infra source_queue_name))
       (emit_task_resource_sample C task context source_queue_name ''end'')"

subsection \<open>Leases\<close>

definition build_task_lease :: "'w task_consumer \<Rightarrow> task_envelope \<Rightarrow> task_context \<Rightarrow> int \<Rightarrow> task_lease" where
  "build_task_lease C task context now =
     \<lparr>tl_lease_id = te_task_id task, tl_task_id = te_task_id task, tl_owner_id = lz_lease_owner_id C,
      tl_consumer_name = cn_consumer_name C, tl_acquired_at = now, tl_heartbeat_at = now,
      tl_expires_at = now + lp_ttl (lz_lease_policy C), tl_message_id = None, tl_task_type = te_task_type task,
      tl_workflow_id = None, tl_stage = None, tl_attempt = tx_retry_attempt context,
      tl_recovery_action = lp_recovery_action (lz_lease_policy C)\<rparr>"

definition process_task_with_lease ::
  "'w task_consumer \<Rightarrow> task_envelope \<Rightarrow> task_context \<Rightarrow> amqp_message \<Rightarrow> message_metadata \<Rightarrow>
   retry_infrastructure option \<Rightarrow> string \<Rightarrow> ('w traced, bool) io" where
  "process_task_with_lease C task context message metadata infra source_queue_name =
     (case (if lp_enabled (lz_lease_policy C) then lz_lease_store C else None) of
        None \<Rightarrow> process_task C task context message metadata infra source_queue_name
      | Some S \<Rightarrow>
          io_bind (on_world (\<lambda>w. acquire S (cn_clock C w) (build_task_lease C task context (cn_clock C w)) w)) (\<lambda>acquired.
          if \<not> acquired then
            io_bind (observe C ''TaskMessageRejected''
              (rejected_fields C source_queue_name (Some (te_task_id task)) (tx_correlation_id context)
                 (tx_retry_attempt context) (te_task_type task) True ''lease_conflict'')) (\<lambda>_.
            io_bind (perform (cn_call C) (Msg_reject True)) (\<lambda>_. io_return False))
          else
            io_finally (process_task C task context message metadata infra source_queue_name)
              (io_bind (on_world (\<lambda>w. heartbeat_lease (lz_beats C w) C S (te_task_id task) w)) (\<lambda>_.
               io_bind (on_world (\<lambda>w. release S (cn_clock C w) (te_task_id task) (lz_lease_owner_id C) w))
                 (\<lambda>_. io_return ())))))"

subsection \<open>Batches\<close>

definition batch_item_message ::
  "'w task_consumer \<Rightarrow> batch_task_envelope \<Rightarrow> message_metadata \<Rightarrow> string \<Rightarrow> nat \<times> task_envelope \<Rightarrow> raw_message" where
  "batch_item_message C batch metadata source_queue_name item =
     (case item of (index, task) \<Rightarrow>
       \<lparr>pb_queue = source_queue_name, pb_body = tk_encode C (tm_dump (tk_model C) task),
        pb_correlation_id = Some (or_text (te_correlation_id task) (te_task_id task)),
        pb_headers = [(''task_id'', PStr (te_task_id task)), (''batch_id'', PStr (be_batch_id batch)),
                      (''batch_index'', PInt (int index)), (''batch_size'', PInt (int (length (be_tasks batch))))],
        pb_content_type = md_content_type metadata, pb_priority = None\<rparr>)"

text \<open>
  \<^verbatim>\<open>map_bounded\<close> starts the calls in the order of the items; when one raises, some calls already
  started still go through (\<open>overrun\<close> of them) before the first exception is raised again.
\<close>

fun publish_started :: "(broker_call \<Rightarrow> ('w, unit) io) \<Rightarrow> raw_message list \<Rightarrow> ('w traced, unit) io" where
  "publish_started call [] = io_return ()"
| "publish_started call (m # ms) = io_bind (quietly (perform call (Publish_raw m))) (\<lambda>_. publish_started call ms)"

fun publish_all :: "(broker_call \<Rightarrow> ('w, unit) io) \<Rightarrow> ('w \<Rightarrow> nat) \<Rightarrow> raw_message list \<Rightarrow> ('w traced, unit) io" where
  "publish_all call overrun [] = io_return ()"
| "publish_all call overrun (m # ms) =
     io_bind (io_catch (perform call (Publish_raw m)) (\<lambda>e s.
       io_bind (publish_started call (take (overrun (fst s)) ms)) (\<lambda>_. io_raise e) s))
       (\<lambda>_. publish_all call overrun ms)"

text \<open>\<^verbatim>\<open>str(task.task_type)\<close> of an absent type is the text \<^verbatim>\<open>None\<close>.\<close>

definition batch_task_types :: "batch_task_envelope \<Rightarrow> string list" where
  "batch_task_types batch =
     remdups (filter (\<lambda>t. t \<noteq> []) (map (\<lambda>task. strip (py_str (opt_str (te_task_type task)))) (be_tasks batch)))"

definition plain_failure :: "string option \<Rightarrow> int \<Rightarrow> string \<Rightarrow> string option \<Rightarrow> failure" where
  "plain_failure task_id attempt reason exception_type =
     \<lparr>fl_task_id = task_id, fl_retry_attempt = attempt, fl_reason = reason, fl_exception_type = exception_type,
      fl_exception_message = None, fl_extra_headers = []\<rparr>"

definition dead_letter_and_ack ::
  "'w task_consumer \<Rightarrow> amqp_message \<Rightarrow> message_metadata \<Rightarrow> retry_infrastructure option \<Rightarrow> string \<Rightarrow> failure \<Rightarrow>
   ('w traced, unit) io" where
  "dead_letter_and_ack C message metadata infra source_queue_name f =
     io_bind (publish_dead_letter C message metadata infra source_queue_name f) (\<lambda>_. perform (cn_call C) Msg_ack)"

definition handle_batch_message ::
  "'w task_consumer \<Rightarrow> amqp_message \<Rightarrow> message_metadata \<Rightarrow> dict \<Rightarrow> retry_infrastructure option \<Rightarrow> string \<Rightarrow>
   ('w traced, unit) io" where
  "handle_batch_message C message metadata payload infra source_queue_name =
     (case tk_validate_batch C (PDict (normalize_batch_payload (cn_alias_config C) payload)) of
        Inl _ \<Rightarrow> dead_letter_and_ack C message metadata infra source_queue_name
          (plain_failure None (md_retry_attempt metadata) ''invalid_envelope'' (Some ''ValidationError''))
      | Inr batch \<Rightarrow>
          if tk_routed_topology C \<and> 1 < length (batch_task_types batch)
          then dead_letter_and_ack C message metadata infra source_queue_name
            (plain_failure None (md_retry_attempt metadata) ''mixed_task_type_batch'' (Some ''ValueError''))
          else
            io_bind (publish_all (cn_call C) (tk_overrun C)
              (map (batch_item_message C batch metadata source_queue_name) (enumerate 0 (be_tasks batch)))) (\<lambda>_.
            io_bind (perform (cn_call C) Msg_ack) (\<lambda>_.
            observe C ''TaskMessageAcked''
              [(''consumer_name'', PStr (cn_consumer_name C)), (''queue_name'', PStr source_queue_name),
               (''task_id'', PNone), (''retry_attempt'', PInt (md_retry_attempt metadata))])))"

subsection \<open>Handling a message\<close>

definition reject_message ::
  "'w task_consumer \<Rightarrow> string \<Rightarrow> message_metadata \<Rightarrow> string option \<Rightarrow> string option \<Rightarrow> string \<Rightarrow> ('w traced, unit) io" where
  "reject_message C source_queue_name metadata task_id task_type reason =
     io_bind (perform (cn_call C) (Msg_reject False)) (\<lambda>_.
     observe C ''TaskMessageRejected'' (rejected_fields C source_queue_name task_id (md_correlation_id metadata)
       (md_retry_attempt metadata) task_type False reason))"

definition handle_task ::
  "'w task_consumer \<Rightarrow> amqp_message \<Rightarrow> message_metadata \<Rightarrow> task_envelope \<Rightarrow> dict \<Rightarrow> retry_infrastructure option \<Rightarrow>
   string \<Rightarrow> ('w traced, unit) io" where
  "handle_task C message metadata task raw_payload infra source_queue_name =
     (let context = make_task_context C task raw_payload metadata source_queue_name in
      io_bind (process_task_with_lease C task context message metadata infra source_queue_name) (\<lambda>success.
      if \<not> success then io_return ()
      else
        io_bind (perform (cn_call C) Msg_ack) (\<lambda>_.
        observe C ''TaskMessageAcked''
          [(''consumer_name'', PStr (cn_consumer_name C)), (''queue_name'', PStr source_queue_name),
           (''task_id'', PStr (te_task_id task)), (''correlation_id'', opt_str (tx_correlation_id context)),
           (''retry_attempt'', PInt (tx_retry_attempt context)), (''task_type'', opt_str (te_task_type task))])))"

text \<open>\<^verbatim>\<open>isinstance(payload, Mapping) and is_batch_task_payload(payload)\<close>\<close>

definition is_batch_payload :: "pyval \<Rightarrow> bool" where
  "is_batch_payload payload = (case payload of PDict d \<Rightarrow> is_batch_task_payload d | _ \<Rightarrow> False)"

definition handle_task_message ::
  "'w task_consumer \<Rightarrow> amqp_message \<Rightarrow> retry_infrastructure option \<Rightarrow> string \<Rightarrow> ('w traced, unit) io" where
  "handle_task_message C message infra source_queue_name =
     (let metadata = extract_message_metadata message in
      case cn_parse C (am_body message) of
        Inl _ \<Rightarrow>
          if cn_retry_policy C = None
          then reject_message C source_queue_name metadata None None ''malformed_json''
          else dead_letter_and_ack C message metadata infra source_queue_name
                 (plain_failure None (md_retry_attempt metadata) ''malformed_json'' None)
      | Inr parsed \<Rightarrow>
          (let payload = normalize_payload (cn_alias_config C) parsed in
           io_bind (observe C ''TaskMessageReceived''
             [(''consumer_name'', PStr (cn_consumer_name C)), (''queue_name'', PStr source_queue_name),
              (''task_id'', opt_str (coerce_task_id payload)), (''correlation_id'', opt_str (md_correlation_id metadata)),
              (''retry_attempt'', PInt (md_retry_attempt metadata)), (''task_type'', opt_str (coerce_task_type payload)),
              (''delivery_tag'', opt_int (md_delivery_tag metadata)), (''redelivered'', PBool (md_redelivered metadata))]) (\<lambda>_.
           if is_batch_payload payload then
             if cn_retry_policy C = None
             then reject_message C source_queue_name metadata None None ''unsupported_batch_envelope''
             else handle_batch_message C message metadata (payload_dict payload) infra source_queue_name
           else
             (case tm_validate (tk_model C) payload of
                Inr task \<Rightarrow> handle_task C message metadata task (payload_dict payload) infra source_queue_name
              | Inl _ \<Rightarrow>
                  if cn_retry_policy C = None
                  then reject_message C source_queue_name metadata (coerce_task_id payload)
                         (coerce_task_type payload) ''invalid_envelope''
                  else dead_letter_and_ack C message metadata infra source_queue_name
                         (plain_failure (coerce_task_id payload) (md_retry_attempt metadata) ''invalid_envelope''
                            (Some ''ValidationError'')))))) "

subsection \<open>Best-effort parts\<close>

lemma silent_lifecycle [intro, simp]: "silent (publish_lifecycle_status C context status message)"
proof -
  have "emits (io_bind (publish_context_status C context status message []) (\<lambda>_. observe C name kwargs)) (\<lambda>r c. c = [])"
    for name kwargs
    by (rule emits_bind, rule emits_weaken[OF publish_context_status_core])
      (auto split: sum.splits intro!: emits_weaken[OF silent_observation[unfolded silent_def]])
  then show ?thesis by (simp add: publish_lifecycle_status_def silent_quietly)
qed

lemma silent_retry_status [intro, simp]: "silent (publish_retry_status C context next_attempt max_retries)"
  by (simp add: publish_retry_status_def silent_quietly publish_context_status_core)

lemma silent_dead_letter_status [intro, simp]: "silent (publish_dead_letter_status C context exc)"
  by (simp add: publish_dead_letter_status_def silent_quietly publish_context_status_core)

lemma silent_sample [intro, simp]: "silent (emit_task_resource_sample C task context queue_name kind)"
proof -
  have "silent (\<lambda>s. (\<lambda>w. case tk_sample C w of None \<Rightarrow> io_return ()
      | Some sample \<Rightarrow> observe C name (fields sample)) (fst s) s)" for name fields
    by (rule silent_read) (simp split: option.splits)
  then show ?thesis
    by (simp add: emit_task_resource_sample_def[abs_def] option.case_distrib[where h = "\<lambda>f. f _"] cong: option.case_cong)
qed

text \<open>What a failed task leads to: the decision of the retry policy for its attempt.\<close>

definition failed_task_disposition ::
  "'w task_consumer \<Rightarrow> amqp_message \<Rightarrow> retry_infrastructure option \<Rightarrow> string \<Rightarrow> task_envelope \<Rightarrow> task_context \<Rightarrow>
   py_error \<Rightarrow> disposition" where
  "failed_task_disposition C message infra source_queue_name task context exc =
     (case cn_retry_policy C of
        None \<Rightarrow> Reject_it (tk_failure_action C = FA_REQUEUE)
      | Some policy \<Rightarrow>
          if tx_retry_attempt context < rp_max_retries policy then
            (case infra of
               None \<Rightarrow> Give_up
             | Some ri \<Rightarrow> Publish_then_ack (retry_message C message (extract_message_metadata message) ri source_queue_name
                 (tx_retry_attempt context + 1) (rp_max_retries policy) ''handler_error'' (Some (cn_exc_type C exc))
                 (merge_batch_retry_headers context [])))
          else dead_letter_disposition C message infra source_queue_name
            \<lparr>fl_task_id = Some (te_task_id task), fl_retry_attempt = tx_retry_attempt context,
             fl_reason = ''handler_error'', fl_exception_type = Some (cn_exc_type C exc),
             fl_exception_message = Some (cn_exc_text C exc),
             fl_extra_headers = merge_batch_retry_headers context []\<rparr>)"

lemma publish_dead_letter_emits:
  assumes "infra = Some ri" and "cn_retry_policy C = Some policy"
    and "\<And>e. P (Inl e) [(Publish_raw (dead_letter_message message metadata policy ri source_queue_name f), False)]"
    and "P (Inr ()) [(Publish_raw (dead_letter_message message metadata policy ri source_queue_name f), True)]"
  shows "emits (publish_dead_letter C message metadata infra source_queue_name f) P"
  unfolding publish_dead_letter_def assms(1,2) prod.case option.case
  apply (rule emits_perform_then)
   apply (simp add: assms(3))
  apply (rule emits_silent_bind, simp)
  apply (rule emits_silent, simp)
  apply (simp add: assms(4))
  done

lemma dead_letter_and_ack_disposes:
  "emits (dead_letter_and_ack C message (extract_message_metadata message) infra source_queue_name f)
     (disposes (dead_letter_disposition C message infra source_queue_name f))"
proof (cases "infra = None \<or> cn_retry_policy C = None")
  case True
  then have "publish_dead_letter C message metadata infra source_queue_name f = not_initialized" for metadata
    by (auto simp: publish_dead_letter_def split: option.splits)
  moreover have "dead_letter_disposition C message infra source_queue_name f = Give_up"
    using True by (auto simp: dead_letter_disposition_def split: option.splits)
  ultimately show ?thesis
    by (auto simp: dead_letter_and_ack_def not_initialized_def intro!: emits_bind emits_raise given_up)
next
  case False
  then obtain ri policy where c: "infra = Some ri" "cn_retry_policy C = Some policy" by auto
  show ?thesis unfolding dead_letter_and_ack_def dead_letter_disposition_def c option.case prod.case
    apply (rule emits_bind, rule publish_dead_letter_emits[OF refl c(2)])
     apply (auto intro: publish_raised)[1]
    apply (auto intro!: emits_call ack_raised published)
    done
qed

lemma decision_cases:
  "cn_retry_policy C = None \<Longrightarrow> rd_action (task_decision C task context src exc) \<in> {REJECT, REQUEUE}"
  "cn_retry_policy C = Some policy \<Longrightarrow> tx_retry_attempt context < rp_max_retries policy \<Longrightarrow>
      rd_action (task_decision C task context src exc) = RETRY \<and>
      rd_max_retries (task_decision C task context src exc) = Some (rp_max_retries policy) \<and>
      rd_retry_attempt (task_decision C task context src exc) = tx_retry_attempt context + 1 \<and>
      rd_reason (task_decision C task context src exc) = ''handler_error''"
  "cn_retry_policy C = Some policy \<Longrightarrow> \<not> tx_retry_attempt context < rp_max_retries policy \<Longrightarrow>
      rd_action (task_decision C task context src exc) = DEAD_LETTER \<and>
      rd_retry_attempt (task_decision C task context src exc) = tx_retry_attempt context \<and>
      rd_reason (task_decision C task context src exc) = ''handler_error''"
  by (simp_all add: task_decision_def engine_decide_retry_def decide_static_retry_def static_decide_retry_def
      failure_context_def)

lemma publish_retry_emits:
  assumes "infra = Some ri"
    and "\<And>e. P (Inl e) [(Publish_raw (retry_message C message metadata ri src attempt m reason exc extra), False)]"
    and "P (Inr ()) [(Publish_raw (retry_message C message metadata ri src attempt m reason exc extra), True)]"
  shows "emits (publish_retry C message metadata infra src task_id attempt m reason exc extra) P"
  unfolding publish_retry_def assms(1) option.case
  apply (rule emits_perform_then)
   apply (simp add: assms(2))
  apply (rule emits_silent, simp)
  apply (simp add: assms(3))
  done

text \<open>The result of a failed task: no success, and the calls of its disposition.\<close>

definition failed_as :: "disposition \<Rightarrow> bool res \<Rightarrow> call_trace \<Rightarrow> bool" where
  "failed_as d r c \<longleftrightarrow> disposes d r c \<and> r \<noteq> Inr True"

lemma failed_asI:
  "failed_as (Reject_it q) (Inr False) [(Msg_reject q, True)]"
  "failed_as (Reject_it q) (Inl e) [(Msg_reject q, False)]"
  "failed_as (Publish_then_ack m) (Inr False) [(Publish_raw m, True), (Msg_ack, True)]"
  "failed_as (Publish_then_ack m) (Inl e) [(Publish_raw m, False)]"
  "failed_as (Publish_then_ack m) (Inl e) [(Publish_raw m, True), (Msg_ack, False)]"
  "failed_as Give_up (Inl e) []"
  by (auto simp: failed_as_def intro: disposes.intros)

lemma task_failed_disposes:
  "emits (task_failed C task context message (extract_message_metadata message) infra source_queue_name exc)
     (failed_as (failed_task_disposition C message infra source_queue_name task context exc))"
proof (cases "cn_retry_policy C")
  case None
  then show ?thesis using decision_cases(1)[OF None, of task "context" source_queue_name exc]
    unfolding task_failed_def failed_task_disposition_def Let_def
    by (auto intro!: emits_silent_bind emits_perform_then emits_return failed_asI silent_observation)
next
  case (Some policy)
  show ?thesis
  proof (cases "tx_retry_attempt context < rp_max_retries policy")
    case True
    note dec = decision_cases(2)[OF Some True, of task source_queue_name exc]
    show ?thesis
    proof (cases infra)
      case None
      then show ?thesis using dec Some True unfolding task_failed_def failed_task_disposition_def Let_def publish_retry_def not_initialized_def
        by (auto intro!: emits_silent_bind emits_bind[of "io_raise _"] emits_raise failed_asI)
    next
      case (Some ri)
      then show ?thesis using dec \<open>cn_retry_policy C = Some policy\<close> True
        unfolding task_failed_def failed_task_disposition_def Let_def
        by (auto intro!: emits_silent_bind[OF silent_observation] emits_bind[of "publish_retry _ _ _ _ _ _ _ _ _ _ _"]
            publish_retry_emits emits_silent_bind[OF silent_retry_status] emits_perform_then emits_return failed_asI)
    qed
  next
    case False
    note dec = decision_cases(3)[OF Some False, of task source_queue_name exc]
    show ?thesis
    proof (cases infra)
      case None
      then show ?thesis using dec Some False
        unfolding task_failed_def failed_task_disposition_def dead_letter_disposition_def Let_def publish_dead_letter_def not_initialized_def
        by (auto intro!: emits_silent_bind emits_bind[of "io_raise _"] emits_raise failed_asI)
    next
      case (Some ri)
      then show ?thesis using dec \<open>cn_retry_policy C = Some policy\<close> False
        unfolding task_failed_def failed_task_disposition_def dead_letter_disposition_def Let_def
        by (auto intro!: emits_silent_bind[OF silent_observation] emits_bind[of "publish_dead_letter _ _ _ _ _ _"]
            publish_dead_letter_emits emits_silent_bind[OF silent_dead_letter_status] emits_perform_then emits_return failed_asI)
    qed
  qed
qed

text \<open>How a task under its lease may go, with the trace of its calls.\<close>

inductive task_goes :: "(py_error \<Rightarrow> disposition) \<Rightarrow> string \<Rightarrow> bool res \<Rightarrow> call_trace \<Rightarrow> bool"
  for D :: "py_error \<Rightarrow> disposition" and task_id :: string where
  completed: "task_goes D task_id (Inr True) [(Run_handler task_id, True)]"
| handed_over: "task_goes D task_id (Inr True) [(Run_handler task_id, True), (Publish_task t h, True)]"
| failed: "failed_as (D e) r c \<Longrightarrow> task_goes D task_id r ((Run_handler task_id, False) # c)"
| hand_over_failed: "failed_as (D e) r c \<Longrightarrow>
    task_goes D task_id r ((Run_handler task_id, True) # (Publish_task t h, False) # c)"
| after_failure: "task_goes D task_id r c \<Longrightarrow> task_goes D task_id (Inl e) c"
| not_acquired: "task_goes D task_id (Inr False) [(Msg_reject True, True)]"
| not_acquired_raised: "task_goes D task_id (Inl e) [(Msg_reject True, False)]"
| lease_raised: "task_goes D task_id (Inl e) []"

lemma publish_manual_retry_emits:
  assumes "\<And>e. P (Inl e) [(Publish_task (mrq_task r) (mrq_headers r), False)]"
    and "P (Inr ()) [(Publish_task (mrq_task r) (mrq_headers r), True)]"
  shows "emits (publish_manual_retry_request C context r) P"
  unfolding publish_manual_retry_request_def
  apply (rule emits_silent_bind, rule silent_quietly, rule publish_context_status_core)
  apply (rule emits_call)
   apply (simp_all add: assms)
  done

lemma run_task_emits:
  assumes "P (Inr True) [(Run_handler (te_task_id task), True)]"
    and "\<And>t h. P (Inr True) [(Run_handler (te_task_id task), True), (Publish_task t h, True)]"
    and "\<And>e. P (Inl e) [(Run_handler (te_task_id task), False)]"
    and "\<And>e t h. P (Inl e) [(Run_handler (te_task_id task), True), (Publish_task t h, False)]"
  shows "emits (run_task C task context source_queue_name) P"
  unfolding run_task_def
  apply (rule emits_silent_bind, simp)
  apply (rule emits_silent_bind, simp)
  apply (rule emits_bind, rule emits_handler)
   apply (auto split: option.splits simp: assms intro!: emits_silent_bind[OF silent_lifecycle] emits_return
      emits_bind[of "publish_manual_retry_request _ _ _"] publish_manual_retry_emits)
  done

lemma process_task_goes:
  "emits (process_task C task context message (extract_message_metadata message) infra source_queue_name)
     (task_goes (failed_task_disposition C message infra source_queue_name task context) (te_task_id task))"
  unfolding process_task_def
  apply (rule silent_finally[OF _ silent_sample])
  apply (rule emits_catch, rule run_task_emits)
  by (auto intro: task_goes.intros intro!: emits_weaken[OF task_failed_disposes])

lemma process_task_with_lease_goes:
  "emits (process_task_with_lease C task context message (extract_message_metadata message) infra source_queue_name)
     (task_goes (failed_task_disposition C message infra source_queue_name task context) (te_task_id task))"
proof -
  have rel: "emits (io_finally (process_task C task context message (extract_message_metadata message) infra source_queue_name)
      (io_bind (on_world a) (\<lambda>_. io_bind (on_world b) (\<lambda>_. io_return ()))))
     (task_goes (failed_task_disposition C message infra source_queue_name task context) (te_task_id task))" for a b
    by (rule emits_finally, rule emits_weaken[OF process_task_goes])
      (auto intro!: emits_bind emits_world emits_return split: sum.splits, (erule task_goes.after_failure)+)
  show ?thesis unfolding process_task_with_lease_def
    by (auto split: option.splits sum.splits intro!: process_task_goes emits_bind[of "on_world _"] emits_world rel
        emits_silent_bind[OF silent_observation] emits_perform_then emits_return not_acquired not_acquired_raised lease_raised)
qed

subsection \<open>Settled once, and nothing is lost\<close>

definition batch_of :: "'w task_consumer \<Rightarrow> amqp_message \<Rightarrow> batch_task_envelope res" where
  "batch_of C message =
     bind_res (cn_parse C (am_body message)) (\<lambda>parsed.
       tk_validate_batch C (PDict (normalize_batch_payload (cn_alias_config C)
         (payload_dict (normalize_payload (cn_alias_config C) parsed)))))"

definition batch_messages :: "'w task_consumer \<Rightarrow> amqp_message \<Rightarrow> string \<Rightarrow> batch_task_envelope \<Rightarrow> raw_message list" where
  "batch_messages C message source_queue_name batch =
     map (batch_item_message C batch (extract_message_metadata message) source_queue_name) (enumerate 0 (be_tasks batch))"

text \<open>
  What must have happened before a message may be acknowledged: its handler completed (and a
  task it handed over was published), or a copy of the message was published, or every task of
  the batch was.
\<close>

definition secured :: "'w task_consumer \<Rightarrow> amqp_message \<Rightarrow> string \<Rightarrow> call_trace \<Rightarrow> bool" where
  "secured C message source_queue_name c \<longleftrightarrow>
     (\<exists>task_id. (Run_handler task_id, True) \<in> set c \<and> (\<forall>t h. (Publish_task t h, False) \<notin> set c)) \<or>
     (\<exists>m. (Publish_raw m, True) \<in> set c \<and> pb_body m = am_body message) \<or>
     (\<exists>batch. batch_of C message = Inr batch \<and>
        c = map (\<lambda>m. (Publish_raw m, True)) (batch_messages C message source_queue_name batch))"

lemma copies_of_dispositions [simp]:
  "copies_of message (dead_letter_disposition C message infra src f)"
  "copies_of message (failed_task_disposition C message infra src task ctx exc)"
  by (auto simp: copies_of_def dead_letter_disposition_def failed_task_disposition_def dead_letter_message_def
      retry_message_def split: option.splits)

lemma secured_copy: "copy_published message c \<Longrightarrow> secured C message src c"
  by (auto simp: copy_published_def secured_def)

lemma failed_as_cases:
  assumes "failed_as d r c"
  obtains (rejected) q where "c = [(Msg_reject q, returned r)]"
    | (acked) m where "d = Publish_then_ack m" "c = [(Publish_raw m, True), (Msg_ack, returned r)]"
    | (unpublished) m e where "c = [(Publish_raw m, False)]" "r = Inl e"
    | (nothing) e where "c = []" "r = Inl e"
  using assms by (auto simp: failed_as_def elim!: disposes.cases)

lemma failed_as_settled:
  assumes "failed_as d r c"
  shows "length (settlements c) \<le> 1" and "r = Inr b \<Longrightarrow> \<not> b \<and> (\<exists>how. settlements c = [(how, True)])"
    and "copies_of message d \<Longrightarrow> (Msg_ack, ok) \<in> set c \<Longrightarrow>
      last (pre @ c) = (Msg_ack, ok) \<and> secured C message src (butlast (pre @ c))"
proof -
  show "length (settlements c) \<le> 1" using assms by (cases rule: failed_as_cases) auto
  show "\<not> b \<and> (\<exists>how. settlements c = [(how, True)])" if "r = Inr b"
  proof -
    have nb: "\<not> b" using assms that by (simp add: failed_as_def)
    from assms that nb show ?thesis by (cases rule: failed_as_cases) auto
  qed
  show "last (pre @ c) = (Msg_ack, ok) \<and> secured C message src (butlast (pre @ c))"
    if "copies_of message d" "(Msg_ack, ok) \<in> set c"
    using assms that by (cases rule: failed_as_cases) (auto simp: secured_def copies_of_def butlast_append)
qed

text \<open>A run of a task has settled its message, or it succeeded and nothing was settled yet.\<close>

definition task_settled :: "'w task_consumer \<Rightarrow> amqp_message \<Rightarrow> string \<Rightarrow> bool res \<Rightarrow> call_trace \<Rightarrow> bool" where
  "task_settled C message src r c \<longleftrightarrow>
     length (settlements c) \<le> 1 \<and>
     (r = Inr False \<longrightarrow> (\<exists>how. settlements c = [(how, True)])) \<and>
     (r = Inr True \<longrightarrow> settlements c = [] \<and>
        (\<exists>task_id. (Run_handler task_id, True) \<in> set c) \<and> (\<forall>t h. (Publish_task t h, False) \<notin> set c)) \<and>
     (\<forall>ok. (Msg_ack, ok) \<in> set c \<longrightarrow> last c = (Msg_ack, ok) \<and> secured C message src (butlast c))"

lemma task_settled_prefix:
  assumes "failed_as d r c" and "copies_of message d" and "settlements pre = []"
  shows "task_settled C message src r (pre @ c)"
proof -
  have "(Msg_ack, ok) \<notin> set pre" for ok
    using assms(3) by (auto simp: settlements_def filter_empty_conv)
  then show ?thesis
    using failed_as_settled(1,2)[OF assms(1)] failed_as_settled(3)[OF assms(1,2), of _ pre C src] assms(3)
    unfolding task_settled_def by auto
qed

lemma task_goes_settled:
  assumes "task_goes D task_id r c" and "\<And>e. copies_of message (D e)"
  shows "task_settled C message src r c"
  using assms(1)
proof induction
  case (failed e r c)
  from task_settled_prefix[OF this assms(2), of "[(Run_handler task_id, False)]"] show ?case by simp
next
  case (hand_over_failed e r c t h)
  from task_settled_prefix[OF this assms(2), of "[(Run_handler task_id, True), (Publish_task t h, False)]"]
  show ?case by simp
qed (auto simp: task_settled_def)

lemma settled_safely_success:
  assumes "task_settled C message src (Inr True) c"
  shows "settled_safely (secured C message src) r (c @ [(Msg_ack, returned r)])"
  using assms by (intro settled_safely_ack) (auto simp: task_settled_def secured_def)

lemma handle_task_safely:
  "emits (handle_task C message (extract_message_metadata message) task raw infra src) (settled_safely (secured C message src))"
  unfolding handle_task_def Let_def
proof (rule emits_bind, rule emits_weaken[OF process_task_with_lease_goes])
  fix r c
  assume "task_goes (failed_task_disposition C message infra src task
      (make_task_context C task raw (extract_message_metadata message) src)) (te_task_id task) r c"
  then have ts: "task_settled C message src r c" by (rule task_goes_settled) simp
  show "case r of Inl e \<Rightarrow> settled_safely (secured C message src) (Inl e) c
    | Inr success \<Rightarrow> emits (if \<not> success then io_return () else io_bind (perform (cn_call C) Msg_ack) (\<lambda>_. observe C
          ''TaskMessageAcked''
          [(''consumer_name'', PStr (cn_consumer_name C)), (''queue_name'', PStr src),
           (''task_id'', PStr (te_task_id task)), (''correlation_id'', opt_str (tx_correlation_id
              (make_task_context C task raw (extract_message_metadata message) src))),
           (''retry_attempt'', PInt (tx_retry_attempt (make_task_context C task raw (extract_message_metadata message) src))),
           (''task_type'', opt_str (te_task_type task))]))
        (\<lambda>r d. settled_safely (secured C message src) r (c @ d))"
  proof (cases r)
    case (Inl e)
    then show ?thesis using ts by (simp add: task_settled_def settled_safely_def)
  next
    case (Inr success)
    show ?thesis
    proof (cases success)
      case False
      then show ?thesis using ts Inr by (auto simp: task_settled_def settled_safely_def intro!: emits_return)
    next
      case True
      then have "task_settled C message src (Inr True) c" using ts Inr by simp
      from settled_safely_success[OF this, of "Inl _ :: unit res"] settled_safely_success[OF this, of "Inr () :: unit res"]
      show ?thesis using Inr True by (auto intro!: emits_perform_then emits_silent[OF silent_observation])
    qed
  qed
qed

lemma publish_started_emits: "emits (publish_started call ms) (\<lambda>r c. settlements c = [])"
proof (induction ms)
  case (Cons m ms)
  show ?case unfolding publish_started.simps
    by (rule emits_bind, rule emits_quietly, rule emits_call)
      (auto intro!: emits_weaken[OF Cons.IH])
qed (simp add: emits_return)

lemma publish_all_emits:
  "emits (publish_all call overrun ms)
     (\<lambda>r c. settlements c = [] \<and> (returned r \<longrightarrow> c = map (\<lambda>m. (Publish_raw m, True)) ms))"
proof (induction ms)
  case (Cons m ms)
  have over: "emits (\<lambda>s. (\<lambda>w. io_bind (publish_started call (take (overrun w) ms)) (\<lambda>_. io_raise e)) (fst s) s)
      (\<lambda>r c. settlements c = [] \<and> \<not> returned r)" for e
    by (rule emits_read, rule emits_bind, rule emits_weaken[OF publish_started_emits])
      (auto split: sum.splits intro!: emits_raise)
  have first: "emits (io_catch (perform call (Publish_raw m))
       (\<lambda>e s. io_bind (publish_started call (take (overrun (fst s)) ms)) (\<lambda>_. io_raise e) s))
     (\<lambda>r c. settlements c = [] \<and> (returned r \<longrightarrow> c = [(Publish_raw m, True)]))"
    by (rule emits_catch, rule emits_call) (auto intro!: emits_weaken[OF over])
  show ?case unfolding publish_all.simps
    by (rule emits_bind, rule emits_weaken[OF first]) (auto split: sum.splits intro!: emits_weaken[OF Cons.IH])
qed (simp add: emits_return)

lemma dead_letter_and_ack_safely:
  "emits (dead_letter_and_ack C message (extract_message_metadata message) infra src f)
     (settled_safely (secured C message src))"
  by (rule emits_weaken[OF dead_letter_and_ack_disposes], rule disposes_safely) (auto intro: secured_copy)

lemma handle_batch_safely:
  assumes "cn_parse C (am_body message) = Inr parsed"
  shows "emits (handle_batch_message C message (extract_message_metadata message)
      (payload_dict (normalize_payload (cn_alias_config C) parsed)) infra src) (settled_safely (secured C message src))"
proof -
  let ?md = "extract_message_metadata message"
  let ?val = "tk_validate_batch C (PDict (normalize_batch_payload (cn_alias_config C)
         (payload_dict (normalize_payload (cn_alias_config C) parsed))))"
  note dead = dead_letter_and_ack_safely[of C message infra src]
  show ?thesis
  proof (cases ?val)
    case (Inl e)
    then show ?thesis by (simp add: handle_batch_message_def dead)
  next
    case (Inr batch)
    then have b: "batch_of C message = Inr batch" by (simp add: batch_of_def assms)
    have sec: "secured C message src (map (\<lambda>m. (Publish_raw m, True)) (batch_messages C message src batch))"
      using b by (auto simp: secured_def)
    have no_settlement: "settlements (map (\<lambda>m. (Publish_raw m, True)) ms) = []" for ms
      by (induction ms) auto
    have "emits (io_bind (publish_all (cn_call C) (tk_overrun C) (batch_messages C message src batch)) (\<lambda>_.
        io_bind (perform (cn_call C) Msg_ack) (\<lambda>_. observe C n d))) (settled_safely (secured C message src))" for n d
      by (rule emits_bind, rule emits_weaken[OF publish_all_emits])
        (auto split: sum.splits intro!: emits_perform_then emits_silent[OF silent_observation]
          simp: settled_safely_def sec no_settlement dest: settlements_none)
    then show ?thesis using Inr dead by (simp add: handle_batch_message_def batch_messages_def)
  qed
qed

lemma reject_message_safely:
  "emits (reject_message C src metadata task_id task_type reason) (settled_safely (secured C message src))"
  unfolding reject_message_def
  by (auto intro!: emits_perform_then emits_silent[OF silent_observation] simp: settled_safely_def)

lemma handle_task_message_safely:
  "emits (handle_task_message C message infra src) (settled_safely (secured C message src))"
proof -
  note dead = dead_letter_and_ack_safely[of C message infra src]
  show ?thesis
    unfolding handle_task_message_def Let_def
    by (auto split: sum.splits intro!: emits_silent_bind[OF silent_observation] dead reject_message_safely
        handle_batch_safely handle_task_safely)
qed

interpretation task_settling: settling_consumer "\<lambda>message. handle_task_message C message infra source_queue_name"
  "\<lambda>message. secured C message source_queue_name" for C :: "'w task_consumer" and infra and source_queue_name
  by unfold_locales (rule handle_task_message_safely)

text \<open>
  C1. A task message is settled at most once, and exactly once when its handling returns; and no
  acknowledged message is lost: the acknowledgement is the last call, and before it the handler
  completed (with every hand-over published), or a copy of the message went to the retry or
  dead-letter queue, or every task of the batch was published.  This holds whatever the broker,
  Redis and the handler do.
\<close>

theorem task_message_settled_safely:
  assumes "handle_task_message C message infra source_queue_name (w, []) = (r, (w', tr))"
  shows "length (settlements tr) \<le> 1 \<and>
    (r = Inr () \<longrightarrow> (\<exists>how. settlements tr = [(how, True)])) \<and>
    (\<forall>ok. (Msg_ack, ok) \<in> set tr \<longrightarrow>
       last (core tr) = (Msg_ack, ok) \<and> secured C message source_queue_name (butlast (core tr)))"
  using assms by (rule task_settling.settled)

subsection \<open>A failing task is retried with the next attempt, then dead-lettered\<close>

lemma task_goes_failed:
  "task_goes D task_id r c \<Longrightarrow> returned r \<Longrightarrow> (Run_handler i, False) \<in> set c \<Longrightarrow>
   \<exists>e c'. r = Inr False \<and> c = (Run_handler i, False) # c' \<and> failed_as (D e) (Inr False) c'"
proof (induction rule: task_goes.induct)
  case (failed e r c)
  then obtain b where r: "r = Inr b" by (cases r) auto
  then have "\<not> b" using failed(1) by (simp add: failed_as_def)
  moreover have "(Run_handler i, False) \<notin> set c" using failed(1) by (auto elim: failed_as_cases)
  ultimately show ?case using failed r by auto
next
  case (hand_over_failed e r c t h)
  then show ?case by (auto elim: failed_as_cases)
qed auto

definition failed_shape ::
  "'w task_consumer \<Rightarrow> amqp_message \<Rightarrow> retry_infrastructure option \<Rightarrow> string \<Rightarrow> string \<Rightarrow> call_trace \<Rightarrow> bool" where
  "failed_shape C message infra src i c \<longleftrightarrow>
     (\<exists>task context e c'. tx_retry_attempt context = retry_attempt message \<and> dict_wf (merge_batch_retry_headers context []) \<and>
        c = (Run_handler i, False) # c' \<and> failed_as (failed_task_disposition C message infra src task context e) (Inr False) c')"

lemma merge_batch_retry_headers_wf [simp]: "dict_wf (merge_batch_retry_headers context [])"
  by (auto simp: merge_batch_retry_headers_def put_opt_def split: option.splits)

lemma handle_task_failed_shape:
  "emits (handle_task C message (extract_message_metadata message) task raw infra src)
     (\<lambda>r c. returned r \<longrightarrow> (Run_handler i, False) \<in> set c \<longrightarrow> failed_shape C message infra src i c)"
  unfolding handle_task_def Let_def
proof (rule emits_bind, rule emits_weaken[OF process_task_with_lease_goes], goal_cases)
  case (1 r c)
  show ?case
  proof (cases r)
    case (Inr success)
    note shape = task_goes_failed[OF 1, of i]
    show ?thesis
    proof (cases "(Run_handler i, False) \<in> set c")
      case True
      then obtain e c' where sh: "\<not> success" "c = (Run_handler i, False) # c'"
        "failed_as (failed_task_disposition C message infra src task
          (make_task_context C task raw (extract_message_metadata message) src) e) (Inr False) c'"
        using shape Inr by auto
      have "failed_shape C message infra src i c"
        unfolding failed_shape_def
        by (rule exI[of _ task], rule exI[of _ "make_task_context C task raw (extract_message_metadata message) src"],
            rule exI[of _ e], rule exI[of _ c'])
          (use sh in \<open>simp add: make_task_context_def extract_message_metadata_def retry_attempt_def Let_def\<close>)
      then show ?thesis using Inr sh(1) by (auto intro!: emits_return)
    next
      case False
      then show ?thesis using Inr by (auto intro!: emits_return emits_perform_then emits_silent[OF silent_observation])
    qed
  qed simp
qed

lemma no_handler_runs:
  "emits (dead_letter_and_ack C message (extract_message_metadata message) infra src f) (\<lambda>r c. (Run_handler i, ok) \<notin> set c)"
  "emits (reject_message C src metadata task_id task_type reason) (\<lambda>r c. (Run_handler i, ok) \<notin> set c)"
  "emits (publish_all call overrun ms) (\<lambda>r c. (Run_handler i, ok) \<notin> set c)"
proof -
  show "emits (dead_letter_and_ack C message (extract_message_metadata message) infra src f) (\<lambda>r c. (Run_handler i, ok) \<notin> set c)"
    by (rule emits_weaken[OF dead_letter_and_ack_disposes]) (auto elim: disposes.cases)
  show "emits (reject_message C src metadata task_id task_type reason) (\<lambda>r c. (Run_handler i, ok) \<notin> set c)"
    unfolding reject_message_def by (auto intro!: emits_perform_then emits_silent[OF silent_observation])
  have st: "emits (publish_started call ms) (\<lambda>r c. (Run_handler i, ok) \<notin> set c)" for ms
    by (induction ms) (auto intro!: emits_return emits_bind emits_quietly emits_call elim: emits_weaken)
  have over: "emits (\<lambda>s. (\<lambda>w. io_bind (publish_started call (take (overrun w) ms)) (\<lambda>_. io_raise e)) (fst s) s)
      (\<lambda>r c. (Run_handler i, ok) \<notin> set c)" for e ms
    by (rule emits_read, rule emits_bind, rule emits_weaken[OF st]) (auto split: sum.splits intro!: emits_raise)
  show "emits (publish_all call overrun ms) (\<lambda>r c. (Run_handler i, ok) \<notin> set c)"
  proof (induction ms)
    case (Cons m ms)
    show ?case unfolding publish_all.simps
      by (rule emits_bind, rule emits_catch, rule emits_call)
        (auto intro!: emits_weaken[OF over] emits_weaken[OF Cons.IH] split: sum.splits)
  qed (simp add: emits_return)
qed

lemma handle_batch_no_handler:
  "emits (handle_batch_message C message (extract_message_metadata message) d infra src) (\<lambda>r c. (Run_handler i, ok) \<notin> set c)"
  unfolding handle_batch_message_def
  by (auto split: sum.splits intro!: no_handler_runs emits_bind[of "publish_all _ _ _"] emits_weaken[OF no_handler_runs(3)]
      emits_perform_then emits_silent[OF silent_observation])

lemma handle_task_message_failed_shape:
  "emits (handle_task_message C message infra src)
     (\<lambda>r c. returned r \<longrightarrow> (Run_handler i, False) \<in> set c \<longrightarrow> failed_shape C message infra src i c)"
  unfolding handle_task_message_def Let_def
  by (auto split: sum.splits intro!: emits_silent_bind[OF silent_observation] handle_task_failed_shape
      emits_weaken[OF no_handler_runs(1)] emits_weaken[OF no_handler_runs(2)] emits_weaken[OF handle_batch_no_handler])

lemma retry_attempt_read_back:
  "0 \<le> attempt \<Longrightarrow> dict_wf extra \<Longrightarrow> retry_attempt_from_headers (retry_headers h q attempt m reason exc extra) = attempt"
  by (simp add: retry_headers_def retry_attempt_from_headers_def Let_def py_int_def)

lemma retry_attempt_nonneg: "0 \<le> retry_attempt message"
  by (auto simp: retry_attempt_def retry_attempt_from_headers_def split: option.splits sum.splits)

text \<open>
  C5. A failing task is retried with its next attempt and dead-lettered after the last: when a
  handler raised under a retry policy and the message was handled to the end, then exactly one
  copy of the message was published before it was acknowledged, and nothing else: below the
  limit to the retry queue, where the next delivery reads the attempt plus one, and at the
  limit to the dead-letter queue with the attempt unchanged.
\<close>

theorem failed_task_retried_or_dead_lettered:
  assumes "handle_task_message C message infra source_queue_name (w, []) = (Inr (), (w', tr))"
    and "(Run_handler i, False) \<in> set tr" and "cn_retry_policy C = Some policy"
  shows "\<exists>ri m. infra = Some ri \<and> core tr = [(Run_handler i, False), (Publish_raw m, True), (Msg_ack, True)] \<and>
    pb_body m = am_body message \<and>
    (if retry_attempt message < rp_max_retries policy
     then pb_queue m = ri_retry_queue_name ri \<and> retry_attempt_from_headers (pb_headers m) = retry_attempt message + 1
     else pb_queue m = ri_dead_letter_queue_name ri \<and> retry_attempt_from_headers (pb_headers m) = retry_attempt message)"
proof -
  have run: "(Run_handler i, False) \<in> set (core tr)" using assms(2) by (simp add: core_def)
  obtain ext where "tr = ext" "(Run_handler i, False) \<in> set (core ext) \<longrightarrow> failed_shape C message infra source_queue_name i (core ext)"
    using handle_task_message_failed_shape[of C message infra source_queue_name i] assms(1) by (rule emitsE) simp
  then have "failed_shape C message infra source_queue_name i (core tr)" using run by simp
  then obtain task "context" e c' where c: "core tr = (Run_handler i, False) # c'"
    and a: "tx_retry_attempt context = retry_attempt message"
    and f: "disposes (failed_task_disposition C message infra source_queue_name task context e) (Inr False) c'"
    unfolding failed_shape_def failed_as_def by blast
  from f obtain m where d: "failed_task_disposition C message infra source_queue_name task context e = Publish_then_ack m"
    and c': "c' = [(Publish_raw m, True), (Msg_ack, True)]"
    by (cases rule: disposes_returned)
      (auto simp: failed_task_disposition_def dead_letter_disposition_def assms(3) split: option.splits if_splits)
  have "failed_task_disposition C message infra source_queue_name task context e \<noteq> Give_up" by (simp add: d)
  then obtain ri where ri: "infra = Some ri"
    by (cases infra) (auto simp: failed_task_disposition_def dead_letter_disposition_def assms(3) split: if_splits)
  have n: "0 \<le> retry_attempt message" by (rule retry_attempt_nonneg)
  have "pb_body m = am_body message \<and>
    (if retry_attempt message < rp_max_retries policy
     then pb_queue m = ri_retry_queue_name ri \<and> retry_attempt_from_headers (pb_headers m) = retry_attempt message + 1
     else pb_queue m = ri_dead_letter_queue_name ri \<and> retry_attempt_from_headers (pb_headers m) = retry_attempt message)"
    using d n by (auto simp: failed_task_disposition_def dead_letter_disposition_def assms(3) ri a retry_message_def
        dead_letter_message_def dead_letter_headers_def retry_attempt_read_back split: if_splits)
  then show ?thesis using c c' ri by blast
qed

subsection \<open>Leases keep a task to one consumer\<close>

text \<open>
  C13. While somebody's lease on a task lives in Redis, a consumer with leases enabled never runs
  the handler for it: the lease is refused, and when handling returns the message went back to
  the queue by one rejection with requeue and nothing else happened to it.
\<close>

theorem leased_task_not_run:
  assumes "redis_server (ls_redis S) \<alpha>" and "lz_lease_store C = Some S" and "lp_enabled (lz_lease_policy C)"
    and "live (cn_clock C w) (\<alpha> w) (lease_key S (te_task_id task)) \<noteq> None"
    and "handle_task C message metadata task raw infra source_queue_name (w, []) = (r, (w', tr))"
  shows "(\<forall>i ok. (Run_handler i, ok) \<notin> set tr) \<and> (r = Inr () \<longrightarrow> core tr = [(Msg_reject True, True)])"
proof -
  let ?ctx = "make_task_context C task raw metadata source_queue_name"
  let ?acq = "\<lambda>w. acquire S (cn_clock C w) (build_task_lease C task ?ctx (cn_clock C w)) w"
  have refused: "x \<noteq> Inr True" if "?acq w = (x, w1)" for x w1
    using lease_backend.acquire_ok(1)[of S \<alpha> "cn_clock C w" "build_task_lease C task ?ctx (cn_clock C w)" w True w1]
      assms(1,4) that by (auto simp: lease_backend_def build_task_lease_def)
  define rest where "rest = io_bind (observe C ''TaskMessageRejected''
              (rejected_fields C source_queue_name (Some (te_task_id task)) (tx_correlation_id ?ctx)
                 (tx_retry_attempt ?ctx) (te_task_type task) True ''lease_conflict'')) (\<lambda>_.
            io_bind (perform (cn_call C) (Msg_reject True)) (\<lambda>_. io_return False))"
  have rest: "emits rest (\<lambda>r c. r \<noteq> Inr True \<and> c = [(Msg_reject True, returned r)])"
    unfolding rest_def by (auto intro!: emits_silent_bind[OF silent_observation] emits_perform_then emits_return)
  obtain x w1 where acq: "?acq w = (x, w1)" by (rule prod.exhaust)
  obtain p t where p: "process_task_with_lease C task ?ctx message metadata infra source_queue_name (w, []) = (p, t)"
    by (rule prod.exhaust)
  have "p \<noteq> Inr True \<and> (\<exists>c. core (snd t) = c \<and> (returned p \<longrightarrow> c = [(Msg_reject True, True)]) \<and>
      (\<forall>i ok. (Run_handler i, ok) \<notin> set c))"
  proof (cases x)
    case (Inl e)
    then show ?thesis using p acq assms(2,3)
      by (auto simp: process_task_with_lease_def io_bind_def on_world_def)
  next
    case (Inr b)
    then have "\<not> b" using refused[OF acq] by auto
    then have "rest (w1, []) = (p, t)"
      using p acq Inr assms(2,3) by (simp add: process_task_with_lease_def io_bind_def[of "on_world _"] on_world_def rest_def)
    with rest show ?thesis by (rule emitsE) auto
  qed
  then have t: "p \<noteq> Inr True" "returned p \<Longrightarrow> core (snd t) = [(Msg_reject True, True)]"
    "(Run_handler i, ok) \<notin> set (core (snd t))" for i ok by auto
  have "t = (w', tr)" "r = Inr () \<Longrightarrow> returned p"
    using assms(5) p t(1) by (auto simp: handle_task_def Let_def io_bind_def io_return_def split: sum.splits if_splits)
  then show ?thesis using t by (auto simp: core_def)
qed


subsection \<open>Instances\<close>

text \<open>A consumer over the in-memory Redis: calls succeed, the handler ends as given.\<close>

definition sample_consumer :: "handler_end \<Rightarrow> bool \<Rightarrow> task_lease res \<Rightarrow> keyspace task_consumer" where
  "sample_consumer end leases loaded =
     \<lparr>cn_consumer_name = ''worker'',
      cn_retry_policy = Some \<lparr>rp_max_retries = 3, rp_delay_ms = 1000, rp_retry_queue_suffix = ''.retry'',
        rp_dead_letter_queue_suffix = ''.dlq'', rp_priority_step = None\<rparr>,
      cn_retry_statuses = \<lparr>rs_enabled = False, rs_retrying_status = ''retrying'', rs_dead_lettered_status = ''failed'',
        rs_include_error_message = True\<rparr>,
      cn_alias_config = None, cn_dlq_store = None, cn_sink = False, cn_call = (\<lambda>c. io_return ()),
      cn_clock = (\<lambda>w. 0), cn_isoformat = (\<lambda>t. []),
      cn_parse = (\<lambda>b. Inr (PDict [(''task_id'', PStr b), (''task_type'', PStr ''ocr'')])),
      cn_codecs = \<lparr>tc_utf8 = Some, tc_json = (\<lambda>s. None), tc_sha = (\<lambda>s. s), tc_isoformat = int_str\<rparr>,
      cn_exc_type = (\<lambda>e. ''ValueError''), cn_exc_text = (\<lambda>e. ''boom''),
      lz_lease_store = Some \<lparr>ls_redis = mem_redis, ls_prefix = ''relayna'', ls_sha = (\<lambda>_. ''0123456789abcdef''),
        ls_dump = (\<lambda>_. ''lease''), ls_load = (\<lambda>_. loaded)\<rparr>,
      lz_lease_policy = \<lparr>lp_enabled = leases, lp_ttl = 60000000, lp_recovery_action = OBSERVE_ONLY\<rparr>,
      lz_lease_owner_id = ''worker'', lz_beats = (\<lambda>w. 1),
      tk_failure_action = FA_REJECT,
      tk_lifecycle_statuses = \<lparr>lc_enabled = False, lc_processing_status = ''processing'', lc_completed_status = ''completed'',
        lc_failed_status = ''failed'', lc_include_error_message = True\<rparr>,
      tk_routed_topology = False, tk_handler = (\<lambda>task context w. (end, w)),
      tk_encode = (\<lambda>d. []), tk_model = sample_task_model, tk_validate_batch = (\<lambda>v. Inl (ValueError [])),
      tk_sample = (\<lambda>w. None), tk_overrun = (\<lambda>w. 0)\<rparr>"

definition sample_message :: amqp_message where
  "sample_message = \<lparr>am_body = ''t1'', am_headers = Some [(''x-relayna-retry-attempt'', PInt 2)], am_correlation_id = None,
     am_delivery_tag = None, am_redelivered = False, am_content_type = Some ''application/json''\<rparr>"

definition sample_infra :: retry_infrastructure where
  "sample_infra = \<lparr>ri_retry_queue_name = ''q.retry'', ri_dead_letter_queue_name = ''q.dlq''\<rparr>"

definition failing_run :: "unit res \<times> keyspace traced" where
  "failing_run = handle_task_message (sample_consumer (Handler_failed (ValueError ''boom'')) False (Inl (ValueError [])))
     sample_message (Some sample_infra) ''q'' (\<lambda>_. None, [])"

lemma failing_run_eq:
  "fst failing_run = Inr ()" "hd (snd (snd failing_run)) = (Run_handler ''t1'', False)" "snd (snd failing_run) \<noteq> []"
  by code_simp+

lemma failing_run_returns:
  "handle_task_message (sample_consumer (Handler_failed (ValueError ''boom'')) False (Inl (ValueError [])))
     sample_message (Some sample_infra) ''q'' (\<lambda>_. None, []) = (Inr (), fst (snd failing_run), snd (snd failing_run))"
  using failing_run_eq(1) unfolding failing_run_def by (metis prod.collapse)

theorem task_message_settled_safely_witness:
  "handle_task_message (sample_consumer (Handler_failed (ValueError ''boom'')) False (Inl (ValueError [])))
     sample_message (Some sample_infra) ''q'' (\<lambda>_. None, []) = (Inr (), fst (snd failing_run), snd (snd failing_run)) \<and>
   (\<exists>how. settlements (snd (snd failing_run)) = [(how, True)])"
  using failing_run_returns task_message_settled_safely[OF failing_run_returns] by simp

theorem failed_task_retried_or_dead_lettered_witness:
  "\<exists>m. core (snd (snd failing_run)) = [(Run_handler ''t1'', False), (Publish_raw m, True), (Msg_ack, True)] \<and>
     pb_queue m = ''q.retry'' \<and> retry_attempt_from_headers (pb_headers m) = 3"
proof -
  have "(Run_handler ''t1'', False) \<in> set (snd (snd failing_run))"
    using failing_run_eq(2,3) by (metis list.set_sel(1))
  moreover have "retry_attempt sample_message = 2"
    by (simp add: retry_attempt_def sample_message_def message_headers_def retry_attempt_from_headers_def py_int_def)
  ultimately show ?thesis
    using failed_task_retried_or_dead_lettered[OF failing_run_returns, of "''t1''"]
    by (fastforce simp: sample_consumer_def sample_infra_def)
qed

definition sample_task :: task_envelope where
  "sample_task = \<lparr>te_task_id = ''t1'', te_payload = [], te_created_at = [], te_service = None, te_task_type = Some ''ocr'',
     te_correlation_id = None, te_priority = None, te_spec_version = ''1.0'', te_extra = []\<rparr>"

definition leased_world :: keyspace where
  "leased_world = [lease_key (the (lz_lease_store (sample_consumer (Handler_done None) True (Inl (ValueError []))))) ''t1'' \<mapsto>
     (StrV ''lease'', Some 5000000)]"

definition refused_run :: "unit res \<times> keyspace traced" where
  "refused_run = handle_task (sample_consumer (Handler_done None) True (Inl (ValueError []))) sample_message
     (extract_message_metadata sample_message) sample_task [] (Some sample_infra) ''q'' (leased_world, [])"

theorem leased_task_not_run_witness:
  "fst refused_run = Inr () \<and> core (snd (snd refused_run)) = [(Msg_reject True, True)]"
proof -
  let ?C = "sample_consumer (Handler_done None) True (Inl (ValueError []))"
  let ?S = "the (lz_lease_store ?C)"
  have r: "fst refused_run = Inr ()" by code_simp
  have "redis_server (ls_redis ?S) id" by (simp add: sample_consumer_def mem_redis.redis_server_axioms)
  moreover have "lz_lease_store ?C = Some ?S" "lp_enabled (lz_lease_policy ?C)" by (simp_all add: sample_consumer_def)
  moreover have "live (cn_clock ?C leased_world) (id leased_world) (lease_key ?S (te_task_id sample_task)) \<noteq> None"
    by (simp add: live_def leased_world_def sample_consumer_def sample_task_def)
  moreover have "handle_task ?C sample_message (extract_message_metadata sample_message) sample_task [] (Some sample_infra) ''q''
      (leased_world, []) = (fst refused_run, (fst (snd refused_run), snd (snd refused_run)))"
    by (simp add: refused_run_def)
  ultimately show ?thesis using leased_task_not_run[of ?S id ?C leased_world sample_task] r by blast
qed


end
