(* ===== verification/Aggregation_Consumer.thy ===== *)
theory Aggregation_Consumer
  imports Consumer_Effects
begin

text \<open>
  \<^verbatim>\<open>consumer/task_consumer.py\<close>, class \<^verbatim>\<open>AggregationConsumer\<close>: one message of a shard queue is a
  status event that is handed to the aggregation handler, retried, dead-lettered and settled.
  Without a retry policy a failing message is rejected without requeue.
\<close>

record 'w aggregation_consumer = "'w consumer_base" +
  ag_handler :: "status_event \<Rightarrow> task_context \<Rightarrow> 'w \<Rightarrow> handler_end \<times> 'w"
  ag_validate :: "pyval \<Rightarrow> status_event res"

definition parent_task_id_from_meta :: "dict \<Rightarrow> string option" where
  "parent_task_id_from_meta meta = stripped_field meta ''parent_task_id''"

definition aggregation_retry_status ::
  "'w aggregation_consumer \<Rightarrow> task_context \<Rightarrow> int \<Rightarrow> int \<Rightarrow> dict \<Rightarrow> ('w traced, unit) io" where
  "aggregation_retry_status C context next_attempt max_retries meta =
     (if \<not> rs_enabled (cn_retry_statuses C) then io_return ()
      else quietly (publish_context_status C context (rs_retrying_status (cn_retry_statuses C))
             (retry_status_text next_attempt max_retries) meta))"

definition aggregation_dead_letter_status ::
  "'w aggregation_consumer \<Rightarrow> task_context \<Rightarrow> py_error \<Rightarrow> dict \<Rightarrow> ('w traced, unit) io" where
  "aggregation_dead_letter_status C context exc meta =
     (if \<not> rs_enabled (cn_retry_statuses C) then io_return ()
      else quietly (publish_context_status C context (rs_dead_lettered_status (cn_retry_statuses C))
             (failure_message (cn_exc_text C exc) (rs_include_error_message (cn_retry_statuses C))) meta))"

definition aggregation_publish_retry ::
  "'w aggregation_consumer \<Rightarrow> amqp_message \<Rightarrow> message_metadata \<Rightarrow> retry_infrastructure option \<Rightarrow> string \<Rightarrow>
   string option \<Rightarrow> string option \<Rightarrow> int \<Rightarrow> int \<Rightarrow> string \<Rightarrow> string option \<Rightarrow> ('w traced, unit) io" where
  "aggregation_publish_retry C message metadata infra source_queue_name task_id parent attempt max_retries
       reason exception_type =
     (case infra of
        None \<Rightarrow> not_initialized
      | Some ri \<Rightarrow>
          io_bind (perform (cn_call C) (Publish_raw (retry_message C message metadata ri source_queue_name attempt
             max_retries reason exception_type []))) (\<lambda>_.
          observe C ''AggregationRetryScheduled''
            [(''consumer_name'', PStr (cn_consumer_name C)), (''task_id'', opt_str task_id),
             (''parent_task_id'', opt_str parent), (''queue_name'', PStr (ri_retry_queue_name ri)),
             (''source_queue_name'', PStr source_queue_name), (''correlation_id'', opt_str (md_correlation_id metadata)),
             (''retry_attempt'', PInt attempt), (''max_retries'', PInt max_retries), (''reason'', PStr reason)]))"

definition aggregation_publish_dead_letter ::
  "'w aggregation_consumer \<Rightarrow> amqp_message \<Rightarrow> message_metadata \<Rightarrow> retry_infrastructure option \<Rightarrow> string \<Rightarrow>
   string option \<Rightarrow> failure \<Rightarrow> ('w traced, unit) io" where
  "aggregation_publish_dead_letter C message metadata infra source_queue_name parent f =
     (case (infra, cn_retry_policy C) of
        (Some ri, Some policy) \<Rightarrow>
          io_bind (perform (cn_call C) (Publish_raw (dead_letter_message message metadata policy ri source_queue_name f))) (\<lambda>_.
          io_bind (observe C ''AggregationDeadLetterPublished''
            [(''consumer_name'', PStr (cn_consumer_name C)), (''task_id'', opt_str (fl_task_id f)),
             (''parent_task_id'', opt_str parent), (''queue_name'', PStr (ri_dead_letter_queue_name ri)),
             (''source_queue_name'', PStr source_queue_name), (''correlation_id'', opt_str (md_correlation_id metadata)),
             (''retry_attempt'', PInt (fl_retry_attempt f)), (''max_retries'', PInt (rp_max_retries policy)),
             (''reason'', PStr (fl_reason f))]) (\<lambda>_.
          persist_dlq_record C (dead_letter_of (cn_consumer_name C) message metadata policy ri source_queue_name f)))
      | _ \<Rightarrow> not_initialized)"

definition aggregation_context ::
  "'w aggregation_consumer \<Rightarrow> status_event \<Rightarrow> dict \<Rightarrow> message_metadata \<Rightarrow> string \<Rightarrow> task_context" where
  "aggregation_context C event payload metadata source_queue_name =
     (let headers = md_headers metadata; meta = manual_retry_meta_from_status (se_meta event) in
      \<lparr>tx_consumer_name = cn_consumer_name C, tx_raw_payload = payload,
       tx_correlation_id = first_text (se_correlation_id event) (md_correlation_id metadata),
       tx_delivery_tag = md_delivery_tag metadata, tx_redelivered = md_redelivered metadata,
       tx_task_id = se_task_id event, tx_retry_attempt = md_retry_attempt metadata,
       tx_max_retries = map_option rp_max_retries (cn_retry_policy C),
       tx_source_queue_name = Some source_queue_name, tx_batch_id = None, tx_batch_index = None, tx_batch_size = None,
       tx_headers = headers, tx_is_task_context = False,
       tx_manual_retry_count = (if manual_retry_count headers \<noteq> 0 then manual_retry_count headers else mm_count meta),
       tx_manual_retry_previous_task_type =
         first_text (header_string headers ''x-relayna-manual-retry-from-task-type'') (mm_previous_task_type meta),
       tx_manual_retry_source_consumer =
         first_text (header_string headers ''x-relayna-manual-retry-source-consumer'') (mm_source_consumer meta),
       tx_manual_retry_reason = first_text (header_string headers ''x-relayna-manual-retry-reason'') (mm_reason meta)\<rparr>)"

text \<open>The branch for an exception of the handler.\<close>

definition aggregation_failed ::
  "'w aggregation_consumer \<Rightarrow> status_event \<Rightarrow> task_context \<Rightarrow> amqp_message \<Rightarrow> message_metadata \<Rightarrow>
   retry_infrastructure option \<Rightarrow> string \<Rightarrow> py_error \<Rightarrow> ('w traced, unit) io" where
  "aggregation_failed C event context message metadata infra source_queue_name exc =
     (let parent = parent_task_id_from_meta (se_meta event); attempt = md_retry_attempt metadata in
      io_bind (observe C ''AggregationHandlerFailed''
        [(''consumer_name'', PStr (cn_consumer_name C)), (''queue_name'', PStr source_queue_name),
         (''task_id'', PStr (se_task_id event)), (''parent_task_id'', opt_str parent),
         (''correlation_id'', opt_str (tx_correlation_id context)), (''retry_attempt'', PInt attempt),
         (''exception_type'', PStr (cn_exc_type C exc)), (''exception_message'', PStr (cn_exc_text C exc))]) (\<lambda>_.
      case cn_retry_policy C of
        None \<Rightarrow> perform (cn_call C) (Msg_reject False)
      | Some policy \<Rightarrow>
          if attempt < rp_max_retries policy then
            io_bind (aggregation_publish_retry C message metadata infra source_queue_name (Some (se_task_id event)) parent
              (attempt + 1) (rp_max_retries policy) ''handler_error'' (Some (cn_exc_type C exc))) (\<lambda>_.
            io_bind (aggregation_retry_status C context (attempt + 1) (rp_max_retries policy) (se_meta event)) (\<lambda>_.
            perform (cn_call C) Msg_ack))
          else
            io_bind (aggregation_publish_dead_letter C message metadata infra source_queue_name parent
              \<lparr>fl_task_id = Some (se_task_id event), fl_retry_attempt = attempt, fl_reason = ''handler_error'',
               fl_exception_type = Some (cn_exc_type C exc), fl_exception_message = Some (cn_exc_text C exc),
               fl_extra_headers = []\<rparr>) (\<lambda>_.
            io_bind (aggregation_dead_letter_status C context exc (se_meta event)) (\<lambda>_.
            perform (cn_call C) Msg_ack))))"

text \<open>\<^verbatim>\<open>try: handler except Exception\<close>: whether the code after the statement is reached.\<close>

definition run_aggregation ::
  "'w aggregation_consumer \<Rightarrow> status_event \<Rightarrow> task_context \<Rightarrow> amqp_message \<Rightarrow> message_metadata \<Rightarrow>
   retry_infrastructure option \<Rightarrow> string \<Rightarrow> ('w traced, bool) io" where
  "run_aggregation C event context message metadata infra source_queue_name =
     io_catch (io_bind (run_handler (ag_handler C event context) (se_task_id event)) (\<lambda>_. io_return True)) (\<lambda>exc.
       io_bind (aggregation_failed C event context message metadata infra source_queue_name exc) (\<lambda>_. io_return False))"

definition aggregation_unusable ::
  "'w aggregation_consumer \<Rightarrow> amqp_message \<Rightarrow> retry_infrastructure option \<Rightarrow> string \<Rightarrow> string option \<Rightarrow> string \<Rightarrow>
   string option \<Rightarrow> ('w traced, unit) io" where
  "aggregation_unusable C message infra source_queue_name task_id reason exception_type =
     (let metadata = extract_message_metadata message in
      if cn_retry_policy C = None then perform (cn_call C) (Msg_reject False)
      else io_bind (aggregation_publish_dead_letter C message metadata infra source_queue_name None
             \<lparr>fl_task_id = task_id, fl_retry_attempt = md_retry_attempt metadata, fl_reason = reason,
              fl_exception_type = exception_type, fl_exception_message = None, fl_extra_headers = []\<rparr>)
             (\<lambda>_. perform (cn_call C) Msg_ack))"

definition handle_aggregation_message ::
  "'w aggregation_consumer \<Rightarrow> amqp_message \<Rightarrow> retry_infrastructure option \<Rightarrow> string \<Rightarrow> ('w traced, unit) io" where
  "handle_aggregation_message C message infra source_queue_name =
     (let metadata = extract_message_metadata message in
      case cn_parse C (am_body message) of
        Inl _ \<Rightarrow> aggregation_unusable C message infra source_queue_name None ''malformed_json'' None
      | Inr parsed \<Rightarrow>
          (let payload = normalize_payload (cn_alias_config C) parsed in
           case ag_validate C payload of
             Inl _ \<Rightarrow> aggregation_unusable C message infra source_queue_name (coerce_task_id payload) ''invalid_envelope''
               (Some ''ValidationError'')
           | Inr event \<Rightarrow>
               (let context = aggregation_context C event (payload_dict payload) metadata source_queue_name;
                    parent = parent_task_id_from_meta (se_meta event)
                in io_bind (observe C ''AggregationMessageReceived''
                     [(''consumer_name'', PStr (cn_consumer_name C)), (''queue_name'', PStr source_queue_name),
                      (''task_id'', PStr (se_task_id event)), (''parent_task_id'', opt_str parent),
                      (''correlation_id'', opt_str (tx_correlation_id context)),
                      (''retry_attempt'', PInt (md_retry_attempt metadata)),
                      (''delivery_tag'', opt_int (md_delivery_tag metadata)),
                      (''redelivered'', PBool (md_redelivered metadata))]) (\<lambda>_.
                   io_bind (run_aggregation C event context message metadata infra source_queue_name) (\<lambda>success.
                   if \<not> success then io_return ()
                   else
                     io_bind (perform (cn_call C) Msg_ack) (\<lambda>_.
                     observe C ''AggregationMessageAcked''
                       [(''consumer_name'', PStr (cn_consumer_name C)), (''queue_name'', PStr source_queue_name),
                        (''task_id'', PStr (se_task_id event)), (''parent_task_id'', opt_str parent),
                        (''correlation_id'', opt_str (tx_correlation_id context)),
                        (''retry_attempt'', PInt (md_retry_attempt metadata))]))))))"

subsection \<open>Safe settlement\<close>

lemma silent_aggregation_statuses [simp]:
  "silent (aggregation_retry_status C context next_attempt max_retries meta)"
  "silent (aggregation_dead_letter_status C context exc meta)"
  by (simp_all add: aggregation_retry_status_def aggregation_dead_letter_status_def silent_quietly publish_context_status_core)

text \<open>What happens to a message whose handler raised.\<close>

definition failed_aggregation_disposition ::
  "'w aggregation_consumer \<Rightarrow> amqp_message \<Rightarrow> retry_infrastructure option \<Rightarrow> string \<Rightarrow> status_event \<Rightarrow> py_error \<Rightarrow> disposition" where
  "failed_aggregation_disposition C message infra source_queue_name event exc =
     (case cn_retry_policy C of
        None \<Rightarrow> Reject_it False
      | Some policy \<Rightarrow>
          if retry_attempt message < rp_max_retries policy then
            (case infra of
               None \<Rightarrow> Give_up
             | Some ri \<Rightarrow> Publish_then_ack (retry_message C message (extract_message_metadata message) ri source_queue_name
                 (retry_attempt message + 1) (rp_max_retries policy) ''handler_error'' (Some (cn_exc_type C exc)) []))
          else dead_letter_disposition C message infra source_queue_name
            \<lparr>fl_task_id = Some (se_task_id event), fl_retry_attempt = retry_attempt message,
             fl_reason = ''handler_error'', fl_exception_type = Some (cn_exc_type C exc),
             fl_exception_message = Some (cn_exc_text C exc), fl_extra_headers = []\<rparr>)"

lemma aggregation_dead_letter_then_ack:
  assumes "silent m"
  shows "emits (io_bind (aggregation_publish_dead_letter C message (extract_message_metadata message) infra src parent f)
      (\<lambda>_. io_bind m (\<lambda>_. perform (cn_call C) Msg_ack))) (disposes (dead_letter_disposition C message infra src f))"
proof (cases "infra = None \<or> cn_retry_policy C = None")
  case True
  then have "aggregation_publish_dead_letter C message metadata infra src parent f = not_initialized" for metadata
    by (auto simp: aggregation_publish_dead_letter_def split: option.splits)
  moreover have "dead_letter_disposition C message infra src f = Give_up"
    using True by (auto simp: dead_letter_disposition_def split: option.splits)
  ultimately show ?thesis by (auto simp: not_initialized_def intro!: emits_bind emits_raise given_up)
next
  case False
  then obtain ri policy where c: "infra = Some ri" "cn_retry_policy C = Some policy" by auto
  show ?thesis unfolding aggregation_publish_dead_letter_def dead_letter_disposition_def c option.case prod.case
    apply (rule emits_bind, rule emits_perform_then)
     apply (simp add: publish_raised)
    apply (rule emits_silent_bind, simp)
    apply (rule emits_silent, simp)
    apply simp
    apply (rule emits_silent_bind[OF assms])
    apply (rule emits_call)
     apply (simp_all add: ack_raised published)
    done
qed

lemma aggregation_retry_then_ack:
  assumes "silent m"
  shows "emits (io_bind (aggregation_publish_retry C message (extract_message_metadata message) infra src task_id parent
      attempt max_retries reason exc) (\<lambda>_. io_bind m (\<lambda>_. perform (cn_call C) Msg_ack)))
    (disposes (case infra of None \<Rightarrow> Give_up | Some ri \<Rightarrow>
      Publish_then_ack (retry_message C message (extract_message_metadata message) ri src attempt max_retries reason exc [])))"
proof (cases infra)
  case None
  then show ?thesis
    by (auto simp: aggregation_publish_retry_def not_initialized_def intro!: emits_bind emits_raise given_up)
next
  case (Some ri)
  show ?thesis unfolding aggregation_publish_retry_def Some option.case
    apply (rule emits_bind, rule emits_perform_then)
     apply (simp add: publish_raised)
    apply (rule emits_silent, simp)
    apply simp
    apply (rule emits_silent_bind[OF assms])
    apply (rule emits_call)
     apply (simp_all add: ack_raised published)
    done
qed

lemma aggregation_failed_disposes:
  "emits (aggregation_failed C event context message (extract_message_metadata message) infra src exc)
     (disposes (failed_aggregation_disposition C message infra src event exc))"
proof -
  have a: "md_retry_attempt (extract_message_metadata message) = retry_attempt message"
    by (simp add: extract_message_metadata_def retry_attempt_def Let_def)
  have rej: "emits (perform (cn_call C) (Msg_reject False)) (disposes (Reject_it False))"
    by (rule emits_call) (simp_all add: rejected reject_raised)
  show ?thesis
    unfolding aggregation_failed_def failed_aggregation_disposition_def Let_def a
    by (rule emits_silent_bind, simp)
      (auto split: option.splits intro!: rej aggregation_dead_letter_then_ack aggregation_retry_then_ack
        aggregation_retry_then_ack[where infra = None, simplified] aggregation_retry_then_ack[where infra = "Some _", simplified])
qed

lemma copies_of_aggregation [simp]:
  "copies_of message (dead_letter_disposition C message infra src f)"
  "copies_of message (failed_aggregation_disposition C message infra src event exc)"
  by (auto simp: copies_of_def dead_letter_disposition_def failed_aggregation_disposition_def dead_letter_message_def
      retry_message_def split: option.splits)

lemma run_aggregation_emits:
  assumes "\<And>c. c = [(Run_handler (se_task_id event), True)] \<Longrightarrow> P (Inr True) c"
    and "\<And>c r e. disposes (failed_aggregation_disposition C message infra src event e) (r :: unit res) c \<Longrightarrow>
      P (map_sum id (\<lambda>_. False) r) ((Run_handler (se_task_id event), False) # c)"
  shows "emits (run_aggregation C event context message (extract_message_metadata message) infra src) P"
  unfolding run_aggregation_def
proof (rule emits_catch, rule emits_bind, rule emits_handler, goal_cases)
  case (1 x)
  show ?case by (auto intro!: emits_return assms(1))
next
  case (2 e)
  show ?case unfolding sum.case
  proof (rule emits_bind, rule emits_weaken[OF aggregation_failed_disposes], goal_cases)
    case (1 r c)
    from assms(2)[OF 1] show ?case by (cases r) (auto intro!: emits_return)
  qed
qed

lemma aggregation_unusable_safely:
  "emits (aggregation_unusable C message infra src task_id reason exc) (settled_safely (processed_or_copied message))"
proof (cases "cn_retry_policy C = None")
  case True
  then show ?thesis
    by (auto simp: aggregation_unusable_def Let_def settled_safely_def intro!: emits_call)
next
  case False
  have "emits (io_bind (aggregation_publish_dead_letter C message (extract_message_metadata message) infra src None f)
      (\<lambda>_. perform (cn_call C) Msg_ack)) (settled_safely (processed_or_copied message))" for f
    by (rule emits_weaken[OF aggregation_dead_letter_then_ack[OF silent_return, simplified]])
      (drule disposes_behind[where pre = "[]" and message = message], simp_all)
  then show ?thesis using False by (auto simp: aggregation_unusable_def Let_def)
qed

lemma handle_aggregation_message_safely:
  "emits (handle_aggregation_message C message infra src) (settled_safely (processed_or_copied message))"
proof -
  let ?md = "extract_message_metadata message"
  have run: "emits (io_bind (run_aggregation C event context message ?md infra src) (\<lambda>success.
      if \<not> success then io_return () else io_bind (perform (cn_call C) Msg_ack) (\<lambda>_. observe C n d)))
      (settled_safely (processed_or_copied message))" for event "context" n d
  proof (rule emits_bind, rule run_aggregation_emits, goal_cases)
    case (1 c)
    then show ?case
      by (auto intro!: emits_perform_then emits_silent[OF silent_observation] simp: settled_safely_def processed_or_copied_def)
  next
    case (2 c r e)
    have "settled_safely (processed_or_copied message) r ((Run_handler (se_task_id event), False) # c)"
      using disposes_behind[OF 2, of message "[(Run_handler (se_task_id event), False)]"] by simp
    then show ?case by (cases r) (auto intro!: emits_return)
  qed
  show ?thesis unfolding handle_aggregation_message_def Let_def
    by (auto split: sum.splits intro!: aggregation_unusable_safely emits_silent_bind[OF silent_observation] run)
qed

interpretation aggregation_settling: settling_consumer "\<lambda>message. handle_aggregation_message C message infra source_queue_name"
  processed_or_copied for C :: "'w aggregation_consumer" and infra and source_queue_name
  by unfold_locales (rule handle_aggregation_message_safely)

text \<open>
  C14. A message of an aggregation queue is settled at most once, and exactly once when its
  handling returns; it is acknowledged only as the last call, after the handler completed or a
  copy of it went to the retry or dead-letter queue.
\<close>

theorem aggregation_message_settled_safely:
  assumes "handle_aggregation_message C message infra source_queue_name (w, []) = (r, (w', tr))"
  shows "length (settlements tr) \<le> 1 \<and>
    (r = Inr () \<longrightarrow> (\<exists>how. settlements tr = [(how, True)])) \<and>
    (\<forall>ok. (Msg_ack, ok) \<in> set tr \<longrightarrow>
       last (core tr) = (Msg_ack, ok) \<and> processed_or_copied message (butlast (core tr)))"
  using assms by (rule aggregation_settling.settled)

definition sample_aggregation :: "handler_end \<Rightarrow> unit aggregation_consumer" where
  "sample_aggregation end =
     \<lparr>cn_consumer_name = ''aggregator'',
      cn_retry_policy = Some \<lparr>rp_max_retries = 1, rp_delay_ms = 1000, rp_retry_queue_suffix = ''.retry'',
        rp_dead_letter_queue_suffix = ''.dlq'', rp_priority_step = None\<rparr>,
      cn_retry_statuses = \<lparr>rs_enabled = True, rs_retrying_status = ''retrying'', rs_dead_lettered_status = ''failed'',
        rs_include_error_message = True\<rparr>,
      cn_alias_config = None, cn_dlq_store = None, cn_sink = True, cn_call = (\<lambda>c. io_return ()),
      cn_clock = (\<lambda>w. 0), cn_isoformat = (\<lambda>t. []), cn_parse = (\<lambda>b. Inr (PDict [(''task_id'', PStr b)])),
      cn_codecs = \<lparr>tc_utf8 = Some, tc_json = (\<lambda>s. None), tc_sha = (\<lambda>s. s), tc_isoformat = int_str\<rparr>,
      cn_exc_type = (\<lambda>e. ''ValueError''), cn_exc_text = (\<lambda>e. ''boom''),
      ag_handler = (\<lambda>event context w. (end, w)),
      ag_validate = (\<lambda>v. Inr \<lparr>se_task_id = ''t1'', se_status = ''done'', se_timestamp = [], se_message = None,
        se_meta = [(''parent_task_id'', PStr ''p1'')], se_result = None, se_correlation_id = None, se_event_id = None,
        se_service = None, se_spec_version = ''1.0'', se_extra = []\<rparr>)\<rparr>"

definition aggregation_run :: "unit res \<times> unit traced" where
  "aggregation_run = handle_aggregation_message (sample_aggregation (Handler_failed (ValueError ''boom'')))
     \<lparr>am_body = ''t1'', am_headers = None, am_correlation_id = None, am_delivery_tag = None, am_redelivered = False,
      am_content_type = None\<rparr> (Some \<lparr>ri_retry_queue_name = ''q.retry'', ri_dead_letter_queue_name = ''q.dlq''\<rparr>) ''q'' ((), [])"

theorem aggregation_message_settled_safely_witness:
  "fst aggregation_run = Inr () \<and> (Msg_ack, True) \<in> set (snd (snd aggregation_run)) \<and>
   (\<exists>how. settlements (snd (snd aggregation_run)) = [(how, True)])"
proof -
  have r: "fst aggregation_run = Inr ()" "(Msg_ack, True) \<in> set (snd (snd aggregation_run))" by code_simp+
  have run: "handle_aggregation_message (sample_aggregation (Handler_failed (ValueError ''boom'')))
     \<lparr>am_body = ''t1'', am_headers = None, am_correlation_id = None, am_delivery_tag = None, am_redelivered = False,
      am_content_type = None\<rparr> (Some \<lparr>ri_retry_queue_name = ''q.retry'', ri_dead_letter_queue_name = ''q.dlq''\<rparr>) ''q'' ((), []) =
     (Inr (), (fst (snd aggregation_run), snd (snd aggregation_run)))"
    using r(1) unfolding aggregation_run_def by (metis prod.collapse)
  show ?thesis using r aggregation_message_settled_safely[OF run] by simp
qed

end
