(* ===== verification/Workflow_Consumer.thy ===== *)
theory Workflow_Consumer
  imports Consumer_Effects Contract_Store
begin

text \<open>
  \<^verbatim>\<open>consumer/workflow_consumer.py\<close>: how one message of a workflow stage is parsed, checked
  against the stage's contract, admitted by the deduplication store, processed under a lease and
  the stage's timeout, retried or dead-lettered, and settled.  \<open>start_stage\<close> is what \<^verbatim>\<open>run_forever\<close>
  fixes before its loop; from there on \<open>cn_retry_policy\<close> holds the policy in force, which the code
  passes along as an argument.  Whether an exception is a \<^verbatim>\<open>TimeoutError\<close> is an argument, and the
  handler, run under \<^verbatim>\<open>asyncio.wait_for\<close>, is given the timeout.
\<close>

subsection \<open>The consumer\<close>

record 'w workflow_consumer = "'w leasing_consumer" +
  wc_stage :: "string option"
  wc_queue_name :: "string option"
  wc_prefetch :: "int option"
  wc_topology :: workflow_topology
  wc_contract_store :: "'w contract_store option"
  wc_handler :: "workflow_envelope \<Rightarrow> workflow_context \<Rightarrow> rat option \<Rightarrow> 'w \<Rightarrow> handler_end \<times> 'w"
  wc_is_timeout :: "py_error \<Rightarrow> bool"
  wc_validate :: "pyval \<Rightarrow> workflow_envelope res"
  wc_dump :: "workflow_envelope \<Rightarrow> dict"

fun stage_of_queue :: "workflow_topology \<Rightarrow> string \<Rightarrow> string list \<Rightarrow> string res" where
  "stage_of_queue topology queue_name [] = Inl (KeyError (''No workflow stage is bound to queue '' @ quoted queue_name))"
| "stage_of_queue topology queue_name (stage # stages) =
     bind_res (wt_workflow_queue_name topology stage) (\<lambda>q.
       if q = queue_name then Inr stage else stage_of_queue topology queue_name stages)"

definition resolve_stage :: "'w workflow_consumer \<Rightarrow> string res" where
  "resolve_stage C =
     (case wc_stage C of
        Some stage \<Rightarrow> Inr stage
      | None \<Rightarrow>
          (case wc_queue_name C of
             None \<Rightarrow> Inl (RuntimeError ''WorkflowConsumer requires stage=... or queue_name=...'')
           | Some queue_name \<Rightarrow>
               stage_of_queue (wc_topology C) queue_name (wt_workflow_stage_names (wc_topology C))))"

definition default_retry_policy :: retry_policy where
  "default_retry_policy =
     \<lparr>rp_max_retries = 3, rp_delay_ms = 30000, rp_retry_queue_suffix = ''.retry'',
      rp_dead_letter_queue_suffix = ''.dlq'', rp_priority_step = None\<rparr>"

definition effective_retry_policy :: "'w workflow_consumer \<Rightarrow> string \<Rightarrow> retry_policy option res" where
  "effective_retry_policy C stage =
     bind_res (wt_stage (wc_topology C) stage) (\<lambda>config. Inr (
       if cn_retry_policy C = None \<and> ws_max_retries config = None \<and> ws_retry_delay_ms config = None then None
       else let base = (case cn_retry_policy C of Some p \<Rightarrow> p | None \<Rightarrow> default_retry_policy) in
         Some \<lparr>rp_max_retries = (case ws_max_retries config of Some n \<Rightarrow> n | None \<Rightarrow> rp_max_retries base),
               rp_delay_ms = (case ws_retry_delay_ms config of Some d \<Rightarrow> d | None \<Rightarrow> rp_delay_ms base),
               rp_retry_queue_suffix = rp_retry_queue_suffix base,
               rp_dead_letter_queue_suffix = rp_dead_letter_queue_suffix base,
               rp_priority_step = rp_priority_step base\<rparr>))"

text \<open>\<^verbatim>\<open>a or b\<close> of an optional number\<close>

definition or_number :: "int option \<Rightarrow> int option \<Rightarrow> int option" where
  "or_number a b = (case a of Some n \<Rightarrow> if n \<noteq> 0 then a else b | None \<Rightarrow> b)"

text \<open>The stage, its prefetch and the consumer with the policy in force.\<close>

definition start_stage :: "'w workflow_consumer \<Rightarrow> (string \<times> int \<times> 'w workflow_consumer) res" where
  "start_stage C =
     bind_res (resolve_stage C) (\<lambda>stage.
     bind_res (wt_stage (wc_topology C) stage) (\<lambda>config.
     bind_res (effective_retry_policy C stage) (\<lambda>policy.
     if ws_dedup_key_fields config \<noteq> [] \<and> wc_contract_store C = None
     then Inl (RuntimeError (''Workflow stage '' @ quoted stage @ '' requires contract_store for dedup enforcement''))
     else Inr (stage,
       the (or_number (or_number (wc_prefetch C) (ws_max_inflight config)) (Some (wt_prefetch_count (wc_topology C)))),
       C\<lparr>cn_retry_policy := policy\<rparr>))))"

subsection \<open>Statuses, retry and dead letter\<close>

definition publish_workflow_status ::
  "'w workflow_consumer \<Rightarrow> workflow_context \<Rightarrow> string \<Rightarrow> string \<Rightarrow> ('w traced, unit) io" where
  "publish_workflow_status C context status message s =
     io_bind (io_lift (workflow_status_event (cn_isoformat C (cn_clock C (fst s))) context None
       \<lparr>sf_status = Some status, sf_message = Some message, sf_meta = [], sf_result = None, sf_event_id = None,
        sf_service = None\<rparr>)) (\<lambda>event. perform (cn_call C) (Publish_status event)) s"

definition workflow_retry_status :: "'w workflow_consumer \<Rightarrow> workflow_context \<Rightarrow> int \<Rightarrow> int \<Rightarrow> ('w traced, unit) io" where
  "workflow_retry_status C context next_attempt max_retries =
     (if \<not> rs_enabled (cn_retry_statuses C) then io_return ()
      else quietly (publish_workflow_status C context (rs_retrying_status (cn_retry_statuses C))
             (retry_status_text next_attempt max_retries)))"

definition workflow_dead_letter_status :: "'w workflow_consumer \<Rightarrow> workflow_context \<Rightarrow> py_error \<Rightarrow> ('w traced, unit) io" where
  "workflow_dead_letter_status C context exc =
     (if \<not> rs_enabled (cn_retry_statuses C) then io_return ()
      else quietly (publish_workflow_status C context (rs_dead_lettered_status (cn_retry_statuses C))
             (failure_message (cn_exc_text C exc) (rs_include_error_message (cn_retry_statuses C)))))"

definition workflow_publish_retry ::
  "'w workflow_consumer \<Rightarrow> amqp_message \<Rightarrow> message_metadata \<Rightarrow> retry_infrastructure option \<Rightarrow> string \<Rightarrow> string option \<Rightarrow>
   int \<Rightarrow> int \<Rightarrow> string \<Rightarrow> string option \<Rightarrow> ('w traced, unit) io" where
  "workflow_publish_retry C message metadata infra source_queue_name task_id attempt max_retries reason exception_type =
     (case infra of
        None \<Rightarrow> not_initialized
      | Some ri \<Rightarrow>
          io_bind (perform (cn_call C) (Publish_raw (retry_message C message metadata ri source_queue_name attempt
             max_retries reason exception_type []))) (\<lambda>_.
          observe C ''ConsumerRetryScheduled''
            [(''consumer_name'', PStr (cn_consumer_name C)), (''task_id'', opt_str task_id),
             (''queue_name'', PStr (ri_retry_queue_name ri)), (''source_queue_name'', PStr source_queue_name),
             (''correlation_id'', opt_str (md_correlation_id metadata)), (''retry_attempt'', PInt attempt),
             (''max_retries'', PInt max_retries), (''reason'', PStr reason)]))"

definition workflow_publish_dead_letter ::
  "'w workflow_consumer \<Rightarrow> amqp_message \<Rightarrow> message_metadata \<Rightarrow> retry_infrastructure option \<Rightarrow> string \<Rightarrow> failure \<Rightarrow>
   ('w traced, unit) io" where
  "workflow_publish_dead_letter C message metadata infra source_queue_name f =
     (case (infra, cn_retry_policy C) of
        (Some ri, Some policy) \<Rightarrow>
          io_bind (perform (cn_call C) (Publish_raw (dead_letter_message message metadata policy ri source_queue_name f))) (\<lambda>_.
          io_bind (observe C ''ConsumerDeadLetterPublished''
            [(''consumer_name'', PStr (cn_consumer_name C)), (''task_id'', opt_str (fl_task_id f)),
             (''queue_name'', PStr (ri_dead_letter_queue_name ri)), (''source_queue_name'', PStr source_queue_name),
             (''correlation_id'', opt_str (md_correlation_id metadata)), (''retry_attempt'', PInt (fl_retry_attempt f)),
             (''max_retries'', PInt (rp_max_retries policy)), (''reason'', PStr (fl_reason f))]) (\<lambda>_.
          persist_dlq_record C (dead_letter_of (cn_consumer_name C) message metadata policy ri source_queue_name f)))
      | _ \<Rightarrow> not_initialized)"

definition stage_failure :: "string option \<Rightarrow> int \<Rightarrow> string \<Rightarrow> string option \<Rightarrow> failure" where
  "stage_failure task_id attempt reason exception_type =
     \<lparr>fl_task_id = task_id, fl_retry_attempt = attempt, fl_reason = reason, fl_exception_type = exception_type,
      fl_exception_message = None, fl_extra_headers = []\<rparr>"

text \<open>A message that cannot be processed: rejected, or dead-lettered under a retry policy.\<close>

definition refuse_message ::
  "'w workflow_consumer \<Rightarrow> amqp_message \<Rightarrow> message_metadata \<Rightarrow> retry_infrastructure option \<Rightarrow> string \<Rightarrow>
   string option \<Rightarrow> string \<Rightarrow> string option \<Rightarrow> ('w traced, bool) io" where
  "refuse_message C message metadata infra source_queue_name task_id reason exception_type =
     (if cn_retry_policy C = None
      then io_bind (perform (cn_call C) (Msg_reject False)) (\<lambda>_. io_return False)
      else io_bind (workflow_publish_dead_letter C message metadata infra source_queue_name
        (stage_failure task_id (md_retry_attempt metadata) reason exception_type)) (\<lambda>_. io_return True))"

subsection \<open>Admission\<close>

abbreviation on_entry ::
  "'w workflow_consumer \<Rightarrow> string \<Rightarrow> workflow_envelope \<Rightarrow> workflow_stage \<Rightarrow>
   (int \<Rightarrow> string \<Rightarrow> string \<Rightarrow> string option \<Rightarrow> dict \<Rightarrow> string list \<Rightarrow> ('w, 'a) io) \<Rightarrow> ('w traced, 'a) io" where
  "on_entry C stage m config operation \<equiv>
     on_world (\<lambda>w. operation (cn_clock C w) stage (we_task_id m) (we_action m) (we_payload m) (ws_dedup_key_fields config) w)"

definition cleanup_dedup_state ::
  "'w workflow_consumer \<Rightarrow> string \<Rightarrow> workflow_envelope \<Rightarrow> workflow_stage \<Rightarrow> ('w traced, unit) io" where
  "cleanup_dedup_state C stage m config =
     (case wc_contract_store C of
        None \<Rightarrow> io_return ()
      | Some S \<Rightarrow>
          io_bind (quietly (on_entry C stage m config (clear_inflight S))) (\<lambda>_.
          quietly (on_entry C stage m config (release_dedup S))))"

text \<open>None: the stage does not deduplicate; otherwise whether the message was admitted.\<close>

definition admit_message ::
  "'w workflow_consumer \<Rightarrow> string \<Rightarrow> workflow_envelope \<Rightarrow> workflow_stage \<Rightarrow> ('w traced, bool option) io" where
  "admit_message C stage m config =
     (if ws_dedup_key_fields config = [] then io_return None
      else case wc_contract_store C of
        None \<Rightarrow> io_raise (RuntimeError (''Workflow stage '' @ quoted stage @ '' requires contract_store for dedup enforcement''))
      | Some S \<Rightarrow>
          io_bind (on_entry C stage m config (acquire_dedup S)) (\<lambda>acquired.
          if \<not> acquired then io_return (Some False)
          else io_catch (io_bind (on_entry C stage m config (mark_inflight S)) (\<lambda>_. io_return (Some True))) (\<lambda>exc.
            io_bind (on_entry C stage m config (release_dedup S)) (\<lambda>_. io_raise exc))))"

subsection \<open>Processing\<close>

definition build_workflow_lease ::
  "'w workflow_consumer \<Rightarrow> workflow_envelope \<Rightarrow> workflow_context \<Rightarrow> string \<Rightarrow> int \<Rightarrow> task_lease" where
  "build_workflow_lease C m context stage now =
     \<lparr>tl_lease_id = (if we_message_id m \<noteq> [] then we_message_id m else we_task_id m @ '':'' @ stage),
      tl_task_id = we_task_id m, tl_owner_id = lz_lease_owner_id C,
      tl_consumer_name = cn_consumer_name C, tl_acquired_at = now, tl_heartbeat_at = now,
      tl_expires_at = now + lp_ttl (lz_lease_policy C), tl_message_id = Some (we_message_id m),
      tl_task_type = we_action m, tl_workflow_id = None, tl_stage = Some stage, tl_attempt = wx_retry_attempt context,
      tl_recovery_action = lp_recovery_action (lz_lease_policy C)\<rparr>"

definition stage_failed_fields ::
  "'w workflow_consumer \<Rightarrow> string \<Rightarrow> string \<Rightarrow> workflow_envelope \<Rightarrow> workflow_context \<Rightarrow> string \<Rightarrow> string \<Rightarrow> bool \<Rightarrow> dict" where
  "stage_failed_fields C source_queue_name stage m context exception_type exception_message requeue =
     [(''consumer_name'', PStr (cn_consumer_name C)), (''queue_name'', PStr source_queue_name), (''stage'', PStr stage),
      (''routing_key'', PNone), (''task_id'', PStr (we_task_id m)), (''message_id'', PStr (we_message_id m)),
      (''origin_stage'', opt_str (we_origin_stage m)), (''correlation_id'', opt_str (wx_correlation_id context)),
      (''exception_type'', PStr exception_type), (''exception_message'', PStr exception_message),
      (''requeue'', PBool requeue)]"

definition stage_decision ::
  "'w workflow_consumer \<Rightarrow> string \<Rightarrow> workflow_envelope \<Rightarrow> workflow_context \<Rightarrow> string \<Rightarrow> py_error \<Rightarrow> retry_decision" where
  "stage_decision C stage m context source_queue_name exc =
     engine_decide_retry decide_static_retry
       \<lparr>rc_worker_type = ''workflow'', rc_queue_name = source_queue_name, rc_retry_attempt = wx_retry_attempt context,
        rc_reason = (if wc_is_timeout C exc then ''stage_timeout'' else ''handler_error''),
        rc_exception_type = Some (cn_exc_type C exc), rc_task_id = Some (we_task_id m), rc_task_type = we_action m,
        rc_workflow_stage = Some stage, rc_headers = wx_headers context, rc_pressure_signals = [], rc_lease_state = None,
        rc_max_retries = map_option rp_max_retries (cn_retry_policy C), rc_failure_action = ''reject''\<rparr>"

text \<open>The two \<^verbatim>\<open>except\<close> branches, which differ in the reason only.\<close>

definition stage_failed ::
  "'w workflow_consumer \<Rightarrow> string \<Rightarrow> workflow_envelope \<Rightarrow> workflow_context \<Rightarrow> amqp_message \<Rightarrow> message_metadata \<Rightarrow>
   retry_infrastructure option \<Rightarrow> string \<Rightarrow> py_error \<Rightarrow> ('w traced, bool) io" where
  "stage_failed C stage m context message metadata infra source_queue_name exc =
     (let decision = stage_decision C stage m context source_queue_name exc in
      io_bind (observe C ''WorkflowStageFailed''
        (stage_failed_fields C source_queue_name stage m context (cn_exc_type C exc) (cn_exc_text C exc) False)) (\<lambda>_.
      if rd_action decision = REJECT then
        io_bind (perform (cn_call C) (Msg_reject False)) (\<lambda>_. io_return False)
      else if rd_action decision = RETRY then
        (case rd_max_retries decision of
           None \<Rightarrow> io_raise (RuntimeError ''Retry decision is missing max_retries'')
         | Some max_retries \<Rightarrow>
             io_bind (workflow_publish_retry C message metadata infra source_queue_name (Some (we_task_id m))
               (rd_retry_attempt decision) max_retries (rd_reason decision) (Some (cn_exc_type C exc))) (\<lambda>_.
             io_bind (workflow_retry_status C context (rd_retry_attempt decision) max_retries) (\<lambda>_. io_return True)))
      else if rd_action decision \<noteq> DEAD_LETTER then
        io_raise (RuntimeError ''Unsupported retry decision action'')
      else if cn_retry_policy C = None then
        io_raise (RuntimeError ''Dead-letter retry decision is missing retry policy'')
      else
        io_bind (workflow_publish_dead_letter C message metadata infra source_queue_name
          (stage_failure (Some (we_task_id m)) (rd_retry_attempt decision) (rd_reason decision)
             (Some (cn_exc_type C exc)))) (\<lambda>_.
        io_bind (workflow_dead_letter_status C context exc) (\<lambda>_. io_return True))))"

text \<open>The \<^verbatim>\<open>try\<close> statement: None when the handler completed, the returned value otherwise.\<close>

definition run_stage ::
  "'w workflow_consumer \<Rightarrow> string \<Rightarrow> workflow_stage \<Rightarrow> workflow_envelope \<Rightarrow> workflow_context \<Rightarrow> amqp_message \<Rightarrow>
   message_metadata \<Rightarrow> retry_infrastructure option \<Rightarrow> string \<Rightarrow> ('w traced, bool option) io" where
  "run_stage C stage config m context message metadata infra source_queue_name =
     io_catch (io_bind (run_handler (wc_handler C m context (ws_timeout_seconds config)) (we_task_id m)) (\<lambda>_. io_return None))
       (\<lambda>exc. io_bind (stage_failed C stage m context message metadata infra source_queue_name exc) (\<lambda>acked. io_return (Some acked)))"

definition cleanup_if :: "bool \<Rightarrow> ('w traced, unit) io \<Rightarrow> ('w traced, unit) io" where
  "cleanup_if admitted cleanup = (if admitted then cleanup else io_return ())"

definition stage_acked ::
  "'w workflow_consumer \<Rightarrow> string \<Rightarrow> string \<Rightarrow> workflow_envelope \<Rightarrow> workflow_context \<Rightarrow> bool option \<Rightarrow> ('w traced, bool) io" where
  "stage_acked C stage source_queue_name m context outcome =
     (case outcome of
        Some acked \<Rightarrow> io_return acked
      | None \<Rightarrow>
          io_bind (observe C ''WorkflowStageAcked''
            [(''consumer_name'', PStr (cn_consumer_name C)), (''queue_name'', PStr source_queue_name), (''stage'', PStr stage),
             (''routing_key'', PNone), (''task_id'', PStr (we_task_id m)), (''message_id'', PStr (we_message_id m)),
             (''origin_stage'', opt_str (we_origin_stage m)), (''correlation_id'', opt_str (wx_correlation_id context))])
            (\<lambda>_. io_return True))"

definition process_stage ::
  "'w workflow_consumer \<Rightarrow> string \<Rightarrow> workflow_stage \<Rightarrow> workflow_envelope \<Rightarrow> workflow_context \<Rightarrow> amqp_message \<Rightarrow>
   message_metadata \<Rightarrow> retry_infrastructure option \<Rightarrow> string \<Rightarrow> bool \<Rightarrow> ('w traced, bool) io" where
  "process_stage C stage config m context message metadata infra source_queue_name admitted =
     (let cleanup = cleanup_if admitted (cleanup_dedup_state C stage m config);
          run = run_stage C stage config m context message metadata infra source_queue_name
      in case (if lp_enabled (lz_lease_policy C) then lz_lease_store C else None) of
        None \<Rightarrow> io_bind (io_finally run cleanup) (stage_acked C stage source_queue_name m context)
      | Some S \<Rightarrow>
          (\<lambda>s. let lease = build_workflow_lease C m context stage (cn_clock C (fst s)) in
            io_bind (on_world (\<lambda>w. acquire S (cn_clock C w) lease w)) (\<lambda>acquired.
            if \<not> acquired then
              io_bind (observe C ''WorkflowStageFailed'' (stage_failed_fields C source_queue_name stage m context
                ''LeaseConflict'' ''Workflow message lease is already owned.'' True)) (\<lambda>_.
              io_bind (perform (cn_call C) (Msg_reject True)) (\<lambda>_.
              io_bind cleanup (\<lambda>_. io_return False)))
            else
              io_bind (io_finally run
                (io_bind cleanup (\<lambda>_.
                 io_bind (on_world (\<lambda>w. heartbeat_lease (lz_beats C w) C S (tl_lease_id lease) w)) (\<lambda>_.
                 io_bind (on_world (\<lambda>w. release S (cn_clock C w) (tl_lease_id lease) (lz_lease_owner_id C) w))
                   (\<lambda>_. io_return ())))))
                (stage_acked C stage source_queue_name m context)) s))"

subsection \<open>Handling a message\<close>

definition make_workflow_context ::
  "'w workflow_consumer \<Rightarrow> string \<Rightarrow> workflow_envelope \<Rightarrow> message_metadata \<Rightarrow> string \<Rightarrow> workflow_context" where
  "make_workflow_context C stage m metadata source_queue_name =
     \<lparr>wx_consumer_name = cn_consumer_name C, wx_stage = stage, wx_raw_payload = wc_dump C m,
      wx_correlation_id = first_text (we_correlation_id m) (md_correlation_id metadata),
      wx_delivery_tag = md_delivery_tag metadata, wx_redelivered = md_redelivered metadata,
      wx_task_id = we_task_id m, wx_message_id = we_message_id m, wx_origin_stage = we_origin_stage m,
      wx_retry_attempt = md_retry_attempt metadata, wx_max_retries = map_option rp_max_retries (cn_retry_policy C),
      wx_source_queue_name = Some source_queue_name, wx_headers = md_headers metadata\<rparr>"

definition handle_stage_message ::
  "'w workflow_consumer \<Rightarrow> string \<Rightarrow> workflow_envelope \<Rightarrow> amqp_message \<Rightarrow> message_metadata \<Rightarrow> retry_infrastructure option \<Rightarrow>
   string \<Rightarrow> ('w traced, bool) io" where
  "handle_stage_message C stage m message metadata infra source_queue_name =
     (let context = make_workflow_context C stage m metadata source_queue_name in
      io_bind (observe C ''WorkflowMessageReceived''
        [(''consumer_name'', PStr (cn_consumer_name C)), (''queue_name'', PStr source_queue_name), (''stage'', PStr stage),
         (''routing_key'', PNone), (''task_id'', PStr (we_task_id m)), (''message_id'', PStr (we_message_id m)),
         (''origin_stage'', opt_str (we_origin_stage m)), (''correlation_id'', opt_str (wx_correlation_id context)),
         (''delivery_tag'', opt_int (md_delivery_tag metadata)), (''redelivered'', PBool (md_redelivered metadata))]) (\<lambda>_.
      io_bind (io_lift (wt_stage (wc_topology C) stage)) (\<lambda>config.
      io_bind (admit_message C stage m config) (\<lambda>admitted.
      if admitted = Some False
      then refuse_message C message metadata infra source_queue_name (Some (we_task_id m)) ''dedup_conflict''
             (Some ''WorkflowContractError'')
      else process_stage C stage config m context message metadata infra source_queue_name (admitted = Some True)))))"

definition handle_workflow_impl ::
  "'w workflow_consumer \<Rightarrow> string \<Rightarrow> amqp_message \<Rightarrow> retry_infrastructure option \<Rightarrow> string \<Rightarrow> ('w traced, bool) io" where
  "handle_workflow_impl C stage message infra source_queue_name =
     (let metadata = extract_message_metadata message in
      case cn_parse C (am_body message) of
        Inl _ \<Rightarrow> refuse_message C message metadata infra source_queue_name None ''malformed_json'' None
      | Inr parsed \<Rightarrow>
          (let payload = normalize_payload (cn_alias_config C) parsed in
           case wc_validate C payload of
             Inl _ \<Rightarrow> refuse_message C message metadata infra source_queue_name (coerce_task_id payload)
               ''invalid_envelope'' (Some ''ValidationError'')
           | Inr m \<Rightarrow>
               (case validate_inbound_message_contract (wc_topology C) stage (we_action m) (we_payload m) of
                  Inl (WorkflowContractError reason text) \<Rightarrow>
                    refuse_message C message metadata infra source_queue_name (Some (we_task_id m)) reason
                      (Some ''WorkflowContractError'')
                | Inl exc \<Rightarrow> io_raise exc
                | Inr _ \<Rightarrow> handle_stage_message C stage m message metadata infra source_queue_name)))"

text \<open>\<^verbatim>\<open>handle_message\<close> of \<^verbatim>\<open>run_forever\<close>\<close>

definition handle_workflow_message ::
  "'w workflow_consumer \<Rightarrow> string \<Rightarrow> amqp_message \<Rightarrow> retry_infrastructure option \<Rightarrow> string \<Rightarrow> ('w traced, unit) io" where
  "handle_workflow_message C stage message infra source_queue_name =
     io_bind (handle_workflow_impl C stage message infra source_queue_name) (\<lambda>acked.
     if acked then perform (cn_call C) Msg_ack else io_return ())"

subsection \<open>Safe settlement\<close>

lemma publish_workflow_status_core: "emits (publish_workflow_status C context status message) (\<lambda>r c. c = [])"
proof -
  have "emits (\<lambda>s. (\<lambda>w. io_bind (io_lift (workflow_status_event (cn_isoformat C (cn_clock C w)) context None
       \<lparr>sf_status = Some status, sf_message = Some message, sf_meta = [], sf_result = None, sf_event_id = None,
        sf_service = None\<rparr>)) (\<lambda>event. perform (cn_call C) (Publish_status event))) (fst s) s) (\<lambda>r c. c = [])"
    by (rule emits_read) (auto intro!: emits_bind emits_lift emits_perform split: sum.splits)
  then show ?thesis by (simp add: publish_workflow_status_def[abs_def])
qed

lemma silent_workflow_statuses [simp]:
  "silent (workflow_retry_status C context next_attempt max_retries)"
  "silent (workflow_dead_letter_status C context exc)"
  by (simp_all add: workflow_retry_status_def workflow_dead_letter_status_def silent_quietly publish_workflow_status_core)

lemma silent_on_world [simp]: "silent (quietly (on_world m))"
  by (rule silent_quietly) (simp add: emits_world)

lemma silent_cleanup [simp]: "silent (cleanup_if admitted (cleanup_dedup_state C stage m config))"
  by (auto simp: cleanup_if_def cleanup_dedup_state_def split: option.splits intro!: silent_bind)

text \<open>Code that publishes a copy of the message, and settles nothing.\<close>

definition copies :: "amqp_message \<Rightarrow> unit res \<Rightarrow> call_trace \<Rightarrow> bool" where
  "copies message r c \<longleftrightarrow> (\<forall>x \<in> set c. \<exists>m ok. x = (Publish_raw m, ok)) \<and> (r = Inr () \<longrightarrow> copy_published message c)"

lemma workflow_publish_retry_copies:
  "emits (workflow_publish_retry C message metadata infra src task_id attempt max_retries reason exc) (copies message)"
  by (auto simp: workflow_publish_retry_def not_initialized_def copies_def copy_published_def retry_message_def
      split: option.splits intro!: emits_raise emits_perform_then emits_silent[OF silent_observation])

lemma workflow_publish_dead_letter_copies:
  "emits (workflow_publish_dead_letter C message metadata infra src f) (copies message)"
  by (auto simp: workflow_publish_dead_letter_def not_initialized_def copies_def copy_published_def dead_letter_message_def
      split: option.splits intro!: emits_raise emits_perform_then emits_silent_bind[OF silent_observation]
        emits_silent[OF silent_persist])

text \<open>The message is acknowledged by the caller when True is returned, and was rejected on False.\<close>

definition stage_settled :: "amqp_message \<Rightarrow> bool res \<Rightarrow> call_trace \<Rightarrow> bool" where
  "stage_settled message r c \<longleftrightarrow>
     (\<forall>ok. (Msg_ack, ok) \<notin> set c) \<and> length (settlements c) \<le> 1 \<and>
     (r = Inr True \<longrightarrow> settlements c = [] \<and> processed_or_copied message c) \<and>
     (r = Inr False \<longrightarrow> (\<exists>requeue. settlements c = [(Msg_reject requeue, True)]))"

lemma settlements_publishes: "\<forall>x \<in> set c. \<exists>m ok. x = (Publish_raw m, ok) \<Longrightarrow> settlements c = []"
  by (auto simp: settlements_def filter_empty_conv)

lemma stage_settled_raised: "stage_settled message r c \<Longrightarrow> stage_settled message (Inl e) c"
  by (auto simp: stage_settled_def)

lemma stage_settled_copied:
  assumes "copies message r c" and "settlements pre = []"
  shows "stage_settled message (map_sum id (\<lambda>_. True) r) (pre @ c)"
proof -
  have "settlements c = []" using assms(1) settlements_publishes by (auto simp: copies_def)
  moreover have "(Msg_ack, ok) \<notin> set (pre @ c)" for ok
    using settlements_none[of "pre @ c"] calculation assms(2) by simp
  ultimately show ?thesis using assms
    by (cases r) (auto simp: stage_settled_def copies_def processed_or_copied_def copy_published_def)
qed

lemma stage_settled_rejected: "settlements pre = [] \<Longrightarrow> stage_settled message (Inr False) (pre @ [(Msg_reject q, True)])"
  and stage_settled_reject_raised: "settlements pre = [] \<Longrightarrow> stage_settled message (Inl e) (pre @ [(Msg_reject q, False)])"
  and stage_settled_nothing: "settlements pre = [] \<Longrightarrow> stage_settled message (Inl e) pre"
  using settlements_none[of pre] by (auto simp: stage_settled_def)

lemma emits_copied:
  assumes "emits m (copies message)" and "settlements pre = []" and "silent k"
  shows "emits (io_bind m (\<lambda>_. io_bind k (\<lambda>_. io_return True))) (\<lambda>r c. stage_settled message r (pre @ c))"
proof (rule emits_bind, rule emits_weaken[OF assms(1)], goal_cases)
  case (1 r c)
  from stage_settled_copied[OF 1 assms(2)] show ?case
    by (cases r) (auto intro!: emits_silent_bind[OF assms(3)] emits_return)
qed

lemma refuse_message_settled:
  "emits (refuse_message C message metadata infra src task_id reason exc) (stage_settled message)"
proof (cases "cn_retry_policy C = None")
  case True
  then show ?thesis
    using stage_settled_rejected[of "[]"] stage_settled_reject_raised[of "[]"]
    by (auto simp: refuse_message_def intro!: emits_perform_then emits_return)
next
  case False
  then show ?thesis
    using emits_copied[OF workflow_publish_dead_letter_copies _ silent_return, of "[]"]
    by (auto simp: refuse_message_def)
qed

lemma lower_reject: "lower ''reject'' \<noteq> ''requeue''"
  by code_simp

lemma stage_decision_cases:
  "cn_retry_policy C = None \<Longrightarrow> rd_action (stage_decision C stage m context src exc) = REJECT"
  "cn_retry_policy C = Some policy \<Longrightarrow> wx_retry_attempt context < rp_max_retries policy \<Longrightarrow>
     rd_action (stage_decision C stage m context src exc) = RETRY \<and>
     rd_max_retries (stage_decision C stage m context src exc) = Some (rp_max_retries policy)"
  "cn_retry_policy C = Some policy \<Longrightarrow> \<not> wx_retry_attempt context < rp_max_retries policy \<Longrightarrow>
     rd_action (stage_decision C stage m context src exc) = DEAD_LETTER"
  by (simp_all add: stage_decision_def engine_decide_retry_def decide_static_retry_def static_decide_retry_def
      lower_reject)

lemma stage_failed_settled:
  "emits (stage_failed C stage m context message metadata infra src exc)
     (\<lambda>r c. stage_settled message r ((Run_handler i, False) # c))"
proof -
  let ?pre = "[(Run_handler i, False)]"
  have reject: "emits (io_bind (perform (cn_call C) (Msg_reject False)) (\<lambda>_. io_return False))
     (\<lambda>r c. stage_settled message r ((Run_handler i, False) # c))"
    using stage_settled_rejected[of ?pre] stage_settled_reject_raised[of ?pre]
    by (auto intro!: emits_perform_then emits_return)
  note copied = emits_copied[OF workflow_publish_retry_copies, of ?pre, simplified]
    emits_copied[OF workflow_publish_dead_letter_copies, of ?pre, simplified]
  show ?thesis
  proof (cases "cn_retry_policy C")
    case None
    then show ?thesis using stage_decision_cases(1)[OF None, of stage m "context" src exc]
      by (auto simp: stage_failed_def Let_def intro!: emits_silent_bind[OF silent_observation] reject)
  next
    case (Some policy)
    then show ?thesis
      using stage_decision_cases(2,3)[OF Some, of "context" stage m src exc]
      by (cases "wx_retry_attempt context < rp_max_retries policy")
        (auto simp: stage_failed_def Let_def intro!: emits_silent_bind[OF silent_observation] copied)
  qed
qed

definition outcome_acked :: "bool option \<Rightarrow> bool" where
  "outcome_acked outcome = (case outcome of None \<Rightarrow> True | Some acked \<Rightarrow> acked)"

lemma run_stage_settled:
  "emits (run_stage C stage config m context message metadata infra src)
     (\<lambda>r c. stage_settled message (map_sum id outcome_acked r) c)"
  unfolding run_stage_def
proof (rule emits_catch, rule emits_bind, rule emits_handler, goal_cases)
  case (1 x)
  show ?case by (auto intro!: emits_return simp: outcome_acked_def stage_settled_def processed_or_copied_def)
next
  case (2 e)
  show ?case unfolding sum.case
  proof (rule emits_bind, rule emits_weaken[OF stage_failed_settled[of _ _ _ _ _ _ _ _ _ "we_task_id m"]], goal_cases)
    case (1 r c)
    then show ?case by (cases r) (auto intro!: emits_return simp: outcome_acked_def)
  qed
qed

lemma stage_acked_settled:
  assumes "emits run (\<lambda>r c. stage_settled message (map_sum id outcome_acked r) c)"
  shows "emits (io_bind run (stage_acked C stage src m context)) (stage_settled message)"
proof (rule emits_bind, rule emits_weaken[OF assms], goal_cases)
  case (1 r c)
  then show ?case
    by (cases r) (auto simp: stage_acked_def outcome_acked_def split: option.splits
        intro!: emits_return emits_silent_bind[OF silent_observation])
qed

lemma release_settled:
  assumes "emits run (\<lambda>r c. stage_settled message (map_sum id f r) c)" and "silent cleanup"
  shows "emits (io_finally run (io_bind cleanup (\<lambda>_. io_bind (on_world a) (\<lambda>_. io_bind (on_world b) (\<lambda>_. io_return ())))))
    (\<lambda>r c. stage_settled message (map_sum id f r) c)"
  by (rule emits_finally, rule emits_weaken[OF assms(1)])
    (auto intro!: emits_silent_bind[OF assms(2)] emits_bind[of "on_world _"] emits_world emits_return
      split: sum.splits, (erule stage_settled_raised)+)

lemma process_stage_settled:
  "emits (process_stage C stage config m context message metadata infra src admitted) (stage_settled message)"
proof -
  let ?cleanup = "cleanup_if admitted (cleanup_dedup_state C stage m config)"
  let ?run = "run_stage C stage config m context message metadata infra src"
  have conflict: "emits (io_bind (observe C n d) (\<lambda>_. io_bind (perform (cn_call C) (Msg_reject True)) (\<lambda>_.
      io_bind ?cleanup (\<lambda>_. io_return False)))) (stage_settled message)" for n d
    using stage_settled_rejected[of "[]"] stage_settled_reject_raised[of "[]"]
    by (auto intro!: emits_silent_bind[OF silent_observation] emits_perform_then emits_silent_bind[OF silent_cleanup] emits_return)
  have "emits (io_bind (io_finally ?run ?cleanup) (stage_acked C stage src m context)) (stage_settled message)"
    by (rule stage_acked_settled, rule silent_finally[OF run_stage_settled silent_cleanup])
  moreover have "emits (\<lambda>s. (\<lambda>w. let lease = build_workflow_lease C m context stage (cn_clock C w) in
            io_bind (on_world (\<lambda>w. acquire S (cn_clock C w) lease w)) (\<lambda>acquired.
            if \<not> acquired then
              io_bind (observe C ''WorkflowStageFailed'' (stage_failed_fields C src stage m context
                ''LeaseConflict'' ''Workflow message lease is already owned.'' True)) (\<lambda>_.
              io_bind (perform (cn_call C) (Msg_reject True)) (\<lambda>_.
              io_bind ?cleanup (\<lambda>_. io_return False)))
            else
              io_bind (io_finally ?run
                (io_bind ?cleanup (\<lambda>_.
                 io_bind (on_world (\<lambda>w. heartbeat_lease (lz_beats C w) C S (tl_lease_id lease) w)) (\<lambda>_.
                 io_bind (on_world (\<lambda>w. release S (cn_clock C w) (tl_lease_id lease) (lz_lease_owner_id C) w))
                   (\<lambda>_. io_return ())))))
                (stage_acked C stage src m context))) (fst s) s) (stage_settled message)" for S
    unfolding Let_def
    by (rule emits_read)
      (auto intro!: emits_bind[of "on_world _"] emits_world conflict stage_acked_settled release_settled run_stage_settled
        stage_settled_nothing[of "[]"] split: sum.splits)
  ultimately show ?thesis
    unfolding process_stage_def Let_def by (auto split: option.splits)
qed

lemma admit_message_core: "emits (admit_message C stage m config) (\<lambda>r c. c = [])"
  by (auto simp: admit_message_def split: option.splits sum.splits
      intro!: emits_return emits_raise emits_bind emits_world emits_catch)

lemma handle_stage_message_settled:
  "emits (handle_stage_message C stage m message metadata infra src) (stage_settled message)"
  unfolding handle_stage_message_def Let_def
  by (auto intro!: emits_silent_bind[OF silent_observation] emits_bind[of "io_lift _"] emits_lift
      emits_bind[of "admit_message _ _ _ _"] emits_weaken[OF admit_message_core] refuse_message_settled
      process_stage_settled stage_settled_nothing[of "[]"] split: sum.splits)

lemma handle_workflow_impl_settled: "emits (handle_workflow_impl C stage message infra src) (stage_settled message)"
  unfolding handle_workflow_impl_def Let_def
  by (auto split: sum.splits py_error.splits intro!: refuse_message_settled handle_stage_message_settled emits_raise
      stage_settled_nothing[of "[]"])

lemma handle_workflow_message_safely:
  "emits (handle_workflow_message C stage message infra src) (settled_safely (processed_or_copied message))"
  unfolding handle_workflow_message_def
proof (rule emits_bind, rule emits_weaken[OF handle_workflow_impl_settled], goal_cases)
  case (1 r c)
  have "settled_safely (processed_or_copied message) q (c @ [(Msg_ack, returned q)])" if "r = Inr True" for q :: "unit res"
    using 1 that by (intro settled_safely_ack) (auto simp: stage_settled_def)
  from this[of "Inr ()"] this[of "Inl _"] 1 show ?case
    by (cases r) (auto simp: stage_settled_def settled_safely_def intro!: emits_call emits_return)
qed

interpretation workflow_settling: settling_consumer "\<lambda>message. handle_workflow_message C stage message infra source_queue_name"
  processed_or_copied for C :: "'w workflow_consumer" and stage and infra and source_queue_name
  by unfold_locales (rule handle_workflow_message_safely)

text \<open>
  C3. A message of a workflow stage is settled at most once, and exactly once when its handling
  returns; it is acknowledged only as the last call, after the stage's handler completed or a
  copy of it went to the retry or dead-letter queue.
\<close>

theorem workflow_message_settled_safely:
  assumes "handle_workflow_message C stage message infra source_queue_name (w, []) = (r, (w', tr))"
  shows "length (settlements tr) \<le> 1 \<and>
    (r = Inr () \<longrightarrow> (\<exists>how. settlements tr = [(how, True)])) \<and>
    (\<forall>ok. (Msg_ack, ok) \<in> set tr \<longrightarrow>
       last (core tr) = (Msg_ack, ok) \<and> processed_or_copied message (butlast (core tr)))"
  using assms by (rule workflow_settling.settled)

subsection \<open>Deduplication\<close>

abbreviation entry_key :: "'w contract_store \<Rightarrow> string \<Rightarrow> workflow_envelope \<Rightarrow> workflow_stage \<Rightarrow> string" where
  "entry_key S stage m config \<equiv>
     dedup_key S stage (we_task_id m) (we_action m) (we_payload m) (ws_dedup_key_fields config)"

lemma core_handler: "(Run_handler i, ok) \<in> set (core tr) \<longleftrightarrow> (Run_handler i, ok) \<in> set tr"
  by (auto simp: core_def)

lemma observe_without_sink: "\<not> cn_sink C \<Longrightarrow> observe C name kwargs = io_return ()"
  by (simp add: emit_observation_def)

lemma refuse_message_calls:
  "emits (refuse_message C message metadata infra src task_id reason exc)
     (\<lambda>r c. (\<forall>i ok. (Run_handler i, ok) \<notin> set c) \<and>
        (\<forall>acked. r = Inr acked \<longrightarrow>
           (if cn_retry_policy C = None then \<not> acked \<and> c = [(Msg_reject False, True)]
            else acked \<and> (\<exists>ri m. infra = Some ri \<and> pb_queue m = ri_dead_letter_queue_name ri \<and>
                pb_body m = am_body message \<and> c = [(Publish_raw m, True)]))))"
proof (cases "infra = None \<or> cn_retry_policy C = None")
  case True
  then show ?thesis
    by (auto simp: refuse_message_def workflow_publish_dead_letter_def not_initialized_def split: option.splits
        intro!: emits_perform_then emits_return emits_bind[of "io_raise _"] emits_raise)
next
  case False
  then obtain ri policy where c: "infra = Some ri" "cn_retry_policy C = Some policy" by auto
  show ?thesis unfolding refuse_message_def workflow_publish_dead_letter_def c option.case prod.case
    by (auto simp: dead_letter_message_def intro!: emits_bind[of "io_bind (perform _ _) _"] emits_perform_then
        emits_silent_bind[OF silent_observation] emits_silent[OF silent_persist] emits_return)
qed

lemma admit_refused:
  assumes "redis_server (cs_redis S) \<alpha>" and "wc_contract_store C = Some S" and "ws_dedup_key_fields config \<noteq> []"
    and "live (cn_clock C w) (\<alpha> w) (entry_key S stage m config) \<noteq> None"
    and "admit_message C stage m config (w, tr) = (r, s)"
  shows "(isl r \<or> r = Inr (Some False)) \<and> snd s = tr"
proof -
  have B: "dedup_backend S \<alpha>" using assms(1) by (simp add: dedup_backend_def)
  obtain x w1 where a: "acquire_dedup S (cn_clock C w) stage (we_task_id m) (we_action m) (we_payload m)
      (ws_dedup_key_fields config) w = (x, w1)" by (rule prod.exhaust)
  have "x \<noteq> Inr True" using dedup_backend.acquire_dedup_ok[OF B, of _ stage] a assms(4) by fastforce
  then show ?thesis using assms(2,3,5) a
    by (cases x) (auto simp: admit_message_def io_bind_def[of "on_world _"] on_world_def io_return_def)
qed

lemma duplicate_refused:
  assumes "redis_server (cs_redis S) \<alpha>" and "wc_contract_store C = Some S" and "\<not> cn_sink C"
    and "wt_stage (wc_topology C) stage = Inr config" and "ws_dedup_key_fields config \<noteq> []"
    and "live (cn_clock C w) (\<alpha> w) (entry_key S stage m config) \<noteq> None"
    and "handle_stage_message C stage m message metadata infra source_queue_name (w, []) = (r, (w', tr))"
  shows "(\<forall>i ok. (Run_handler i, ok) \<notin> set tr) \<and>
    (\<forall>acked. r = Inr acked \<longrightarrow>
       (if cn_retry_policy C = None then \<not> acked \<and> core tr = [(Msg_reject False, True)]
        else acked \<and> (\<exists>ri copy. infra = Some ri \<and> pb_queue copy = ri_dead_letter_queue_name ri \<and>
            pb_body copy = am_body message \<and> core tr = [(Publish_raw copy, True)])))"
proof -
  obtain a s where a: "admit_message C stage m config (w, []) = (a, s)" by (rule prod.exhaust)
  have adm: "isl a \<or> a = Inr (Some False)" "snd s = []" using admit_refused[OF assms(1,2,5,6) a] by auto
  have run: "(case a of Inl e \<Rightarrow> (Inl e, s) | Inr admitted \<Rightarrow>
      (if admitted = Some False
       then refuse_message C message metadata infra source_queue_name (Some (we_task_id m)) ''dedup_conflict''
             (Some ''WorkflowContractError'')
       else process_stage C stage config m (make_workflow_context C stage m metadata source_queue_name) message metadata
              infra source_queue_name (admitted = Some True)) s) = (r, (w', tr))"
    using assms(7) a by (simp add: handle_stage_message_def Let_def observe_without_sink[OF assms(3)] assms(4)
        io_lift_def io_bind_def split: sum.splits)
  show ?thesis
  proof (cases a)
    case (Inl e)
    then show ?thesis using run adm(2) by auto
  next
    case (Inr b)
    then have "refuse_message C message metadata infra source_queue_name (Some (we_task_id m)) ''dedup_conflict''
        (Some ''WorkflowContractError'') s = (r, (w', tr))" using run adm(1) by simp
    with refuse_message_calls show ?thesis
      by (rule emitsE) (use adm(2) in \<open>simp add: core_handler split del: if_split\<close>, blast)
  qed
qed

text \<open>
  C12. A stage's handler never sees a duplicate: while the deduplication entry of a message with
  the same signature lives in Redis, a message is not handed to the handler; when its handling
  returns it was rejected without requeue, or, under a retry policy, exactly one copy of it went
  to the dead-letter queue.  The consumer has no observation sink.
\<close>

theorem duplicate_stage_message_not_run:
  assumes "redis_server (cs_redis S) \<alpha>" and "wc_contract_store C = Some S" and "\<not> cn_sink C"
    and "wt_stage (wc_topology C) stage = Inr config" and "ws_dedup_key_fields config \<noteq> []"
    and "live (cn_clock C w) (\<alpha> w) (entry_key S stage m config) \<noteq> None"
    and "handle_stage_message C stage m message metadata infra source_queue_name (w, []) = (r, (w', tr))"
  shows "(\<forall>i ok. (Run_handler i, ok) \<notin> set tr) \<and>
    (\<forall>acked. r = Inr acked \<longrightarrow>
       (if cn_retry_policy C = None then \<not> acked \<and> core tr = [(Msg_reject False, True)]
        else acked \<and> (\<exists>ri copy. infra = Some ri \<and> pb_queue copy = ri_dead_letter_queue_name ri \<and>
            pb_body copy = am_body message \<and> core tr = [(Publish_raw copy, True)])))"
  using assms by (rule duplicate_refused)

lemma cleanup_reopens:
  assumes "redis_server (cs_redis S) \<alpha>" and "wc_contract_store C = Some S"
    and "\<And>now w. returned (fst (release_dedup S now stage (we_task_id m) (we_action m) (we_payload m)
            (ws_dedup_key_fields config) w))"
    and "cleanup_dedup_state C stage m config s = (r, t)"
  shows "\<alpha> (fst t) (entry_key S stage m config) = None"
proof -
  have B: "dedup_backend S \<alpha>" using assms(1) by (simp add: dedup_backend_def)
  obtain r1 s1 where q: "quietly (on_entry C stage m config (clear_inflight S)) s = (r1, s1)" by (rule prod.exhaust)
  then have "r1 = Inr ()" by (auto simp: quietly_def io_catch_def io_return_def split: prod.splits sum.splits)
  then have run: "quietly (on_entry C stage m config (release_dedup S)) s1 = (r, t)"
    using q assms(2,4) by (simp add: cleanup_dedup_state_def io_bind_def)
  obtain x w where rel: "release_dedup S (cn_clock C (fst s1)) stage (we_task_id m) (we_action m) (we_payload m)
      (ws_dedup_key_fields config) (fst s1) = (x, w)" by (rule prod.exhaust)
  moreover obtain u where "x = Inr u" using assms(3)[of "cn_clock C (fst s1)" "fst s1"] rel by (cases x) auto
  ultimately have "\<alpha> w (entry_key S stage m config) = None" "fst t = w"
    using dedup_backend.release_dedup_ok[OF B] run by (auto simp: quietly_def io_catch_def on_world_def)
  then show ?thesis by simp
qed

lemma finally_ends: "io_finally m f s = (r, t) \<Longrightarrow> \<exists>s1 r1. f s1 = (r1, t)"
  by (auto simp: io_finally_def split: prod.splits sum.splits)

text \<open>After the clean-up a consumer with leases beats and releases its lease: commands on the keys of the lease store only.\<close>

definition lease_keys_apart :: "'r lease_store \<Rightarrow> string \<Rightarrow> bool" where
  "lease_keys_apart L k \<longleftrightarrow> (\<forall>i. lease_key L i \<noteq> k) \<and> (\<forall>i. owner_key L i \<noteq> k) \<and> expiries_key L \<noteq> k \<and> expired_claims_key L \<noteq> k"

lemma lease_get_frame:
  assumes "redis_server (ls_redis L) \<alpha>" "lease_get L now i w = (x, w')"
  shows "\<alpha> w' = \<alpha> w"
  using assms redis_server.exec_read[OF assms(1), of now "GET (lease_key L i)"]
  by (auto simp: lease_get_def io_bind_def io_lift_def split: prod.splits sum.splits)

lemma lease_frames:
  assumes "redis_server (ls_redis L) \<alpha>" "lease_keys_apart L k"
  shows "heartbeat L now i owner e w = (x, w') \<Longrightarrow> \<alpha> w' k = \<alpha> w k"
    and "release L now i owner w = (y, w') \<Longrightarrow> \<alpha> w' k = \<alpha> w k"
    and "heartbeat_lease n C L i w = (z, w') \<Longrightarrow> \<alpha> w' k = \<alpha> w k"
proof -
  have apart [simp]: "k \<noteq> lease_key L j" "k \<noteq> owner_key L j" "k \<noteq> expiries_key L" "k \<noteq> expired_claims_key L" for j
    using assms(2) by (auto simp: lease_keys_apart_def)
  have pipe: "\<alpha> w' k = \<alpha> w k" if "pipeline (ls_redis L) now cs w = (xs, w')" "\<forall>c \<in> set cs. k \<notin> keys_of c" for now cs w xs w'
    using redis_server.pipeline_frame[OF assms(1) that] .
  have beat: "\<alpha> w' k = \<alpha> w k" if run: "heartbeat L now i owner e w = (x, w')" for now owner e w x w'
  proof -
    obtain g w1 where g: "lease_get L now i w = (g, w1)" by fastforce
    have "\<alpha> w' k = \<alpha> w1 k"
      using run g unfolding heartbeat_def
      by (auto simp: io_bind_def io_return_def Let_def dest!: pipe split: sum.splits option.splits if_splits prod.splits)
    then show ?thesis using lease_get_frame[OF assms(1) g] by simp
  qed
  show "heartbeat L now i owner e w = (x, w') \<Longrightarrow> \<alpha> w' k = \<alpha> w k" by (rule beat)
  show "release L now i owner w = (y, w') \<Longrightarrow> \<alpha> w' k = \<alpha> w k"
  proof -
    assume run: "release L now i owner w = (y, w')"
    obtain g w1 where g: "lease_get L now i w = (g, w1)" by fastforce
    have "\<alpha> w' k = \<alpha> w1 k"
      using run g unfolding release_def
      by (auto simp: io_bind_def io_return_def dest!: pipe split: sum.splits option.splits if_splits prod.splits)
    then show ?thesis using lease_get_frame[OF assms(1) g] by simp
  qed
  show "heartbeat_lease n C L i w = (z, w') \<Longrightarrow> \<alpha> w' k = \<alpha> w k"
  proof (induction n arbitrary: w)
    case (Suc n)
    obtain b w1 where b: "heartbeat L (cn_clock C w) i (lz_lease_owner_id C) (cn_clock C w + lp_ttl (lz_lease_policy C)) w = (b, w1)" by fastforce
    then have "(\<exists>e. b = Inl e \<and> w' = w1) \<or> heartbeat_lease n C L i w1 = (z, w')"
      using Suc.prems by (auto simp: io_bind_def split: sum.splits)
    then show ?case using beat[OF b] Suc.IH by metis
  qed (simp add: io_return_def)
qed

lemma cleanup_then_lease:
  assumes "redis_server (cs_redis S) \<alpha>" and "wc_contract_store C = Some S"
    and "\<And>now w. returned (fst (release_dedup S now stage (we_task_id m) (we_action m) (we_payload m) (ws_dedup_key_fields config) w))"
    and L: "redis_server (ls_redis L) \<alpha>" "lease_keys_apart L (entry_key S stage m config)"
    and run: "io_bind (cleanup_dedup_state C stage m config) (\<lambda>_.
        io_bind (on_world (\<lambda>w. heartbeat_lease (lz_beats C w) C L i w)) (\<lambda>_.
        io_bind (on_world (\<lambda>w. release L (cn_clock C w) i (lz_lease_owner_id C) w)) (\<lambda>_. io_return ()))) s = (r, t)"
  shows "\<alpha> (fst t) (entry_key S stage m config) = None"
proof -
  obtain c s1 where c: "cleanup_dedup_state C stage m config s = (c, s1)" by (rule prod.exhaust)
  then have "c = Inr ()" using assms(2) by (auto simp: cleanup_dedup_state_def quietly_def io_bind_def io_catch_def io_return_def split: prod.splits sum.splits)
  moreover obtain h w2 where h: "heartbeat_lease (lz_beats C (fst s1)) C L i (fst s1) = (h, w2)" by fastforce
  moreover obtain x w3 where x: "release L (cn_clock C w2) i (lz_lease_owner_id C) w2 = (x, w3)" by fastforce
  ultimately have "fst t = w2 \<or> fst t = w3"
    using run c by (auto simp: io_bind_def on_world_def io_return_def split: sum.splits)
  moreover have "\<alpha> (fst s1) (entry_key S stage m config) = None" using cleanup_reopens[OF assms(1-3) c] .
  ultimately show ?thesis using lease_frames(3)[OF L h] lease_frames(2)[OF L x] by auto
qed

lemma observe_skip: "\<not> cn_sink C \<Longrightarrow> io_bind (observe C name kwargs) f = f ()"
  by (simp add: emit_observation_def io_bind_def io_return_def fun_eq_iff)

lemma acked_without_sink:
  "\<not> cn_sink C \<Longrightarrow> io_bind m (stage_acked C stage src msg ctx) s = (r, t) \<Longrightarrow> \<exists>x. m s = (x, t)"
  by (auto simp: io_bind_def stage_acked_def io_return_def emit_observation_def split: prod.splits sum.splits option.splits)

lemma processed_stage_reopens:
  assumes "redis_server (cs_redis S) \<alpha>" and "wc_contract_store C = Some S" and sink: "\<not> cn_sink C"
    and answers: "\<And>now w. returned (fst (release_dedup S now stage (we_task_id m) (we_action m) (we_payload m) (ws_dedup_key_fields config) w))"
    and L: "\<forall>L. lz_lease_store C = Some L \<longrightarrow> redis_server (ls_redis L) \<alpha> \<and> lease_keys_apart L (entry_key S stage m config)"
    and run: "process_stage C stage config m ctx message metadata infra src True s = (r, (w', tr))"
    and ran: "(Run_handler i, ok) \<in> set tr" "(Run_handler i, ok) \<notin> set (snd s)"
  shows "\<alpha> w' (entry_key S stage m config) = None"
proof -
  let ?run = "run_stage C stage config m ctx message metadata infra src" and ?cleanup = "cleanup_dedup_state C stage m config"
  show ?thesis
  proof (cases "if lp_enabled (lz_lease_policy C) then lz_lease_store C else None")
    case None
    then have "io_bind (io_finally ?run ?cleanup) (stage_acked C stage src m ctx) s = (r, (w', tr))"
      using run by (simp add: process_stage_def Let_def cleanup_if_def)
    from acked_without_sink[OF sink this] obtain x where "io_finally ?run ?cleanup s = (x, (w', tr))" by blast
    from finally_ends[OF this] obtain s1 r1 where "?cleanup s1 = (r1, (w', tr))" by blast
    from cleanup_reopens[OF assms(1,2) answers this] show ?thesis by simp
  next
    case (Some S')
    then have store: "lz_lease_store C = Some S'" by (simp split: if_splits)
    define lease where "lease = build_workflow_lease C m ctx stage (cn_clock C (fst s))"
    let ?ending = "io_bind ?cleanup (\<lambda>_. io_bind (on_world (\<lambda>w. heartbeat_lease (lz_beats C w) C S' (tl_lease_id lease) w)) (\<lambda>_.
        io_bind (on_world (\<lambda>w. release S' (cn_clock C w) (tl_lease_id lease) (lz_lease_owner_id C) w)) (\<lambda>_. io_return ())))"
    let ?conflict = "io_bind (perform (cn_call C) (Msg_reject True)) (\<lambda>_. io_bind ?cleanup (\<lambda>_. io_return False))"
    have body: "io_bind (on_world (\<lambda>w. acquire S' (cn_clock C w) lease w)) (\<lambda>acquired. if \<not> acquired then ?conflict
        else io_bind (io_finally ?run ?ending) (stage_acked C stage src m ctx)) s = (r, (w', tr))"
      using run unfolding process_stage_def Let_def Some cleanup_if_def observe_skip[OF sink] lease_def if_True by simp
    obtain q wq where q: "acquire S' (cn_clock C (fst s)) lease (fst s) = (q, wq)" by (rule prod.exhaust)
    have refused: "emits ?conflict (\<lambda>r c. \<forall>i ok. (Run_handler i, ok) \<notin> set c)"
      unfolding cleanup_dedup_state_def quietly_def
      by (auto intro!: emits_bind emits_perform emits_return emits_world emits_catch split: option.splits sum.splits)
    have "q = Inr True"
    proof (rule ccontr)
      assume "q \<noteq> Inr True"
      then consider e where "q = Inl e" | "q = Inr False" by (cases q) auto
      then show False
      proof cases
        case 1
        then show False using body q ran by (auto simp: io_bind_def on_world_def)
      next
        case 2
        then have "?conflict (wq, snd s) = (r, (w', tr))" using body q by (simp add: io_bind_def on_world_def)
        with refused have "(Run_handler i, ok) \<notin> set tr" by (rule emitsE) (use ran(2) in \<open>simp add: core_handler\<close>)
        then show False using ran(1) by simp
      qed
    qed
    then have "io_bind (io_finally ?run ?ending) (stage_acked C stage src m ctx) (wq, snd s) = (r, (w', tr))"
      using body q by (simp add: io_bind_def on_world_def)
    from acked_without_sink[OF sink this] obtain x where "io_finally ?run ?ending (wq, snd s) = (x, (w', tr))" by blast
    from finally_ends[OF this] obtain s1 r1 where last: "?ending s1 = (r1, (w', tr))" by blast
    have "redis_server (ls_redis S') \<alpha>" "lease_keys_apart S' (entry_key S stage m config)" using L store by auto
    from cleanup_then_lease[OF assms(1,2) answers this last] show ?thesis by simp
  qed
qed

text \<open>
  C7. A stage reopens its deduplication entry when it is done with a message: when Redis answers the deletion of the entry,
  then once the handler has run, and however it ended (also when publishing its retry or dead letter, or
  renewing or releasing its lease, failed), the entry of the message is gone, so the retried copy, which has the
  same signature, is admitted and not refused as its own duplicate.  The consumer has no observation sink, and its lease
  store, if it has one, uses other keys.  A deletion that raises is swallowed by the code; the theorem does not
  cover it, and the entry then stays until its time to live is over.
\<close>

theorem retried_stage_message_admitted_again:
  assumes "redis_server (cs_redis S) \<alpha>" and "wc_contract_store C = Some S" and "\<not> cn_sink C"
    and "wt_stage (wc_topology C) stage = Inr config" and "ws_dedup_key_fields config \<noteq> []"
    and "\<forall>L. lz_lease_store C = Some L \<longrightarrow> redis_server (ls_redis L) \<alpha> \<and> lease_keys_apart L (entry_key S stage m config)"
    and "\<forall>now w. returned (fst (release_dedup S now stage (we_task_id m) (we_action m) (we_payload m)
            (ws_dedup_key_fields config) w))"
    and "handle_stage_message C stage m message metadata infra source_queue_name (w, []) = (r, (w', tr))"
    and "(Run_handler i, ok) \<in> set tr"
    and "acquire_dedup S now stage (we_task_id m) (we_action m) (we_payload m) (ws_dedup_key_fields config) w' = (Inr b, w'')"
  shows b
proof -
  let ?ctx = "make_workflow_context C stage m metadata source_queue_name"
  let ?run = "run_stage C stage config m ?ctx message metadata infra source_queue_name"
  obtain a s where a: "admit_message C stage m config (w, []) = (a, s)" by (rule prod.exhaust)
  have "core (snd s) = []" using admit_message_core a by (rule emitsE) simp
  then have none: "(Run_handler i, ok) \<notin> set (snd s)" using core_handler[of i ok "snd s"] by simp
  have run: "(case a of Inl e \<Rightarrow> (Inl e, s) | Inr admitted \<Rightarrow>
      (if admitted = Some False
       then refuse_message C message metadata infra source_queue_name (Some (we_task_id m)) ''dedup_conflict''
             (Some ''WorkflowContractError'')
       else process_stage C stage config m ?ctx message metadata infra source_queue_name (admitted = Some True)) s) = (r, (w', tr))"
    using assms(8) a by (simp add: handle_stage_message_def Let_def observe_without_sink[OF assms(3)] assms(4)
        io_lift_def io_bind_def split: sum.splits)
  have "a = Inr (Some True)"
  proof (cases a)
    case (Inl e)
    then show ?thesis using run none assms(9) by simp
  next
    case (Inr b)
    have "b \<noteq> None" using a assms(2,5) Inr
      by (auto simp: admit_message_def io_bind_def io_catch_def io_return_def io_raise_def split: prod.splits sum.splits if_splits)
    moreover have "b \<noteq> Some False"
    proof
      assume "b = Some False"
      then have "refuse_message C message metadata infra source_queue_name (Some (we_task_id m)) ''dedup_conflict''
        (Some ''WorkflowContractError'') s = (r, (w', tr))" using run Inr by simp
      with refuse_message_calls have "(Run_handler i, ok) \<notin> set tr"
        by (rule emitsE) (use none in \<open>simp add: core_handler\<close>)
      then show False using assms(9) by simp
    qed
    ultimately show ?thesis using Inr by (cases b) auto
  qed
  then have process: "process_stage C stage config m ?ctx message metadata infra source_queue_name True s = (r, (w', tr))" using run by simp
  have "\<alpha> w' (entry_key S stage m config) = None" by (rule processed_stage_reopens[OF assms(1-3) _ assms(6) process assms(9) none]) (use assms(7) in blast)
  moreover have "dedup_backend S \<alpha>" using assms(1) by (simp add: dedup_backend_def)
  ultimately show ?thesis using dedup_backend.acquire_dedup_ok[OF _ assms(10)] by (simp add: live_def)
qed

text \<open>
  C40. A lease that cannot be taken because Redis fails keeps the deduplication entry: the exception
  leaves the handling of the message after it was admitted and before the statement that cleans
  up.  The message is not settled; the broker delivers it again, and while the entry lives it is
  refused as a duplicate of itself: its handler never runs.  The consumer has no observation sink.
\<close>

theorem failed_lease_blocks_redelivery:
  assumes "redis_server (cs_redis S) \<alpha>" and "wc_contract_store C = Some S" and "\<not> cn_sink C"
    and "wt_stage (wc_topology C) stage = Inr config" and "ws_dedup_key_fields config \<noteq> []"
    and "lz_lease_store C = Some L" and "lp_enabled (lz_lease_policy C)"
    and "acquire_dedup S (cn_clock C w) stage (we_task_id m) (we_action m) (we_payload m) (ws_dedup_key_fields config) w = (Inr True, w1)"
    and "mark_inflight S (cn_clock C w1) stage (we_task_id m) (we_action m) (we_payload m) (ws_dedup_key_fields config) w1 = (Inr (), w2)"
    and "acquire L (cn_clock C w2) (build_workflow_lease C m (make_workflow_context C stage m metadata source_queue_name) stage
           (cn_clock C w2)) w2 = (Inl e, w3)"
    and "\<alpha> w3 (entry_key S stage m config) = \<alpha> w2 (entry_key S stage m config)"
    and "\<forall>ttl. cs_ttl_seconds S = Some ttl \<longrightarrow> cn_clock C w3 \<le> cn_clock C w + seconds ttl"
  shows "handle_stage_message C stage m message metadata infra source_queue_name (w, []) = (Inl e, (w3, [])) \<and>
    (\<forall>i ok. (Run_handler i, ok) \<notin>
       set (snd (snd (handle_stage_message C stage m again metadata' infra source_queue_name (w3, [])))))"
proof
  show "handle_stage_message C stage m message metadata infra source_queue_name (w, []) = (Inl e, (w3, []))"
    using assms(2,4-10) by (simp add: handle_stage_message_def Let_def observe_without_sink[OF assms(3)] io_lift_def io_bind_def
        admit_message_def on_world_def io_catch_def io_return_def process_stage_def)
  have B: "dedup_backend S \<alpha>" using assms(1) by (simp add: dedup_backend_def)
  have "\<alpha> w3 (entry_key S stage m config) = Some (StrV ''1'', map_option (\<lambda>n. cn_clock C w + seconds n) (cs_ttl_seconds S))"
    using dedup_backend.acquire_dedup_ok[OF B assms(8)] dedup_backend.mark_inflight_keeps_entry[OF B assms(9)] assms(11) by simp
  then have "live (cn_clock C w3) (\<alpha> w3) (entry_key S stage m config) \<noteq> None"
    using assms(12) by (cases "cs_ttl_seconds S") (auto simp: live_def)
  from duplicate_refused[OF assms(1-5) this, of again metadata' infra source_queue_name]
  show "\<forall>i ok. (Run_handler i, ok) \<notin>
       set (snd (snd (handle_stage_message C stage m again metadata' infra source_queue_name (w3, []))))"
    by (metis prod.collapse)
qed

subsection \<open>Instances\<close>

text \<open>The instances: an in-memory Redis that refuses the lease commands when \<open>broken\<close>.\<close>

definition dedup_stage :: workflow_stage where
  "dedup_stage = (sample_stage ''plan'' [] [])\<lparr>ws_dedup_key_fields := [''doc'']\<rparr>"

definition sample_workflow_consumer :: "handler_end \<Rightarrow> bool \<Rightarrow> bool \<Rightarrow> keyspace workflow_consumer" where
  "sample_workflow_consumer end leases broken =
     \<lparr>cn_consumer_name = ''stage'',
      cn_retry_policy = Some default_retry_policy,
      cn_retry_statuses = \<lparr>rs_enabled = False, rs_retrying_status = ''retrying'', rs_dead_lettered_status = ''failed'',
        rs_include_error_message = True\<rparr>,
      cn_alias_config = None, cn_dlq_store = None, cn_sink = False, cn_call = (\<lambda>c. io_return ()),
      cn_clock = (\<lambda>w. 0), cn_isoformat = (\<lambda>t. []), cn_parse = (\<lambda>b. Inr (PStr b)),
      cn_codecs = \<lparr>tc_utf8 = Some, tc_json = (\<lambda>s. None), tc_sha = (\<lambda>s. s), tc_isoformat = int_str\<rparr>,
      cn_exc_type = (\<lambda>e. ''ValueError''), cn_exc_text = (\<lambda>e. ''boom''),
      lz_lease_store = Some \<lparr>ls_redis = (if broken then mem_redis\<lparr>exec := (\<lambda>now c. io_raise (ExternalError ''down''))\<rparr> else mem_redis),
        ls_prefix = ''relayna'', ls_sha = (\<lambda>_. ''0123456789abcdef''), ls_dump = (\<lambda>_. ''lease''), ls_load = (\<lambda>_. Inl (ValueError []))\<rparr>,
      lz_lease_policy = \<lparr>lp_enabled = leases, lp_ttl = 60000000, lp_recovery_action = OBSERVE_ONLY\<rparr>,
      lz_lease_owner_id = ''stage'', lz_beats = (\<lambda>w. 0),
      wc_stage = Some ''plan'', wc_queue_name = None, wc_prefetch = None,
      wc_topology = sample_workflow\<lparr>wt_stages := [dedup_stage]\<rparr>,
      wc_contract_store = Some sample_contract_store, wc_handler = (\<lambda>m context timeout w. (end, w)),
      wc_is_timeout = (\<lambda>e. False),
      wc_validate = (\<lambda>v. Inr \<lparr>we_task_id = ''t1'', we_message_id = ''m1'', we_correlation_id = None, we_stage = ''plan'',
        we_origin_stage = None, we_action = None, we_payload = [(''doc'', PInt 7)], we_meta = [], we_priority = None,
        we_spec_version = ''1.0'', we_extra = []\<rparr>),
      wc_dump = (\<lambda>m. [])\<rparr>"

definition sample_stage_message :: workflow_envelope where
  "sample_stage_message = \<lparr>we_task_id = ''t1'', we_message_id = ''m1'', we_correlation_id = None, we_stage = ''plan'',
     we_origin_stage = None, we_action = None, we_payload = [(''doc'', PInt 7)], we_meta = [], we_priority = None,
     we_spec_version = ''1.0'', we_extra = []\<rparr>"

definition stage_delivery :: amqp_message where
  "stage_delivery = \<lparr>am_body = ''t1'', am_headers = None, am_correlation_id = None, am_delivery_tag = None,
     am_redelivered = False, am_content_type = None\<rparr>"

definition stage_infra :: retry_infrastructure where
  "stage_infra = \<lparr>ri_retry_queue_name = ''plan.retry'', ri_dead_letter_queue_name = ''plan.dlq''\<rparr>"

definition workflow_run :: "unit res \<times> keyspace traced" where
  "workflow_run = handle_workflow_message (sample_workflow_consumer (Handler_failed (ValueError ''boom'')) False False) ''plan''
     stage_delivery (Some stage_infra) ''q'' (\<lambda>_. None, [])"

theorem workflow_message_settled_safely_witness:
  "fst workflow_run = Inr () \<and> (Msg_ack, True) \<in> set (snd (snd workflow_run)) \<and>
   (\<exists>how. settlements (snd (snd workflow_run)) = [(how, True)])"
proof -
  have r: "fst workflow_run = Inr ()" "(Msg_ack, True) \<in> set (snd (snd workflow_run))" by code_simp+
  have run: "handle_workflow_message (sample_workflow_consumer (Handler_failed (ValueError ''boom'')) False False) ''plan''
     stage_delivery (Some stage_infra) ''q'' (\<lambda>_. None, []) = (Inr (), (fst (snd workflow_run), snd (snd workflow_run)))"
    using r(1) unfolding workflow_run_def by (metis prod.collapse)
  show ?thesis using r workflow_message_settled_safely[OF run] by simp
qed

lemma sample_stage_config:
  "wt_stage (wc_topology (sample_workflow_consumer h leases broken)) ''plan'' = Inr dedup_stage"
  "ws_dedup_key_fields dedup_stage \<noteq> []" "wc_contract_store (sample_workflow_consumer h leases broken) = Some sample_contract_store"
  "\<not> cn_sink (sample_workflow_consumer h leases broken)"
  by (simp_all add: sample_workflow_consumer_def wt_stage_def dedup_stage_def sample_stage_def)

lemma sample_retry_policy: "cn_retry_policy (sample_workflow_consumer h leases broken) = Some default_retry_policy"
  by (simp add: sample_workflow_consumer_def)

abbreviation sample_entry :: "(int \<Rightarrow> string \<Rightarrow> string \<Rightarrow> string option \<Rightarrow> dict \<Rightarrow> string list \<Rightarrow> (keyspace, 'a) io) \<Rightarrow> (keyspace, 'a) io" where
  "sample_entry operation \<equiv> operation 0 ''plan'' (we_task_id sample_stage_message) (we_action sample_stage_message)
     (we_payload sample_stage_message) (ws_dedup_key_fields dedup_stage)"

definition entered_world :: keyspace where
  "entered_world = snd (sample_entry (acquire_dedup sample_contract_store) (\<lambda>_. None))"

definition duplicate_run :: "bool res \<times> keyspace traced" where
  "duplicate_run = handle_stage_message (sample_workflow_consumer (Handler_done None) False False) ''plan'' sample_stage_message
     stage_delivery (extract_message_metadata stage_delivery) (Some stage_infra) ''q'' (entered_world, [])"

theorem duplicate_stage_message_not_run_witness:
  "fst duplicate_run = Inr True \<and>
   (\<exists>copy. pb_queue copy = ''plan.dlq'' \<and> core (snd (snd duplicate_run)) = [(Publish_raw copy, True)])"
proof -
  let ?C = "sample_workflow_consumer (Handler_done None) False False"
  have r: "fst duplicate_run = Inr True" by code_simp
  have live: "live (cn_clock ?C entered_world) (id entered_world)
      (entry_key sample_contract_store ''plan'' sample_stage_message dedup_stage) \<noteq> None"
    by code_simp
  have run: "handle_stage_message ?C ''plan'' sample_stage_message stage_delivery (extract_message_metadata stage_delivery)
      (Some stage_infra) ''q'' (entered_world, []) = (Inr True, (fst (snd duplicate_run), snd (snd duplicate_run)))"
    using r by (simp add: duplicate_run_def prod_eq_iff)
  show ?thesis
    using duplicate_stage_message_not_run[OF sample_dedup_backend sample_stage_config(3,4,1,2) live run] r
    by (auto simp: sample_retry_policy stage_infra_def)
qed

definition retried_run :: "bool res \<times> keyspace traced" where
  "retried_run = handle_stage_message (sample_workflow_consumer (Handler_failed (ValueError ''boom'')) False False) ''plan''
     sample_stage_message stage_delivery (extract_message_metadata stage_delivery) (Some stage_infra) ''q'' (\<lambda>_. None, [])"

theorem retried_stage_message_admitted_again_witness:
  "fst retried_run = Inr True \<and> (\<exists>w. sample_entry (acquire_dedup sample_contract_store) (fst (snd retried_run)) = (Inr True, w))"
proof -
  let ?C = "sample_workflow_consumer (Handler_failed (ValueError ''boom'')) False False"
  have r: "fst retried_run = Inr True" by code_simp
  have ran: "(Run_handler ''t1'', False) \<in> set (snd (snd retried_run))" by code_simp
  have apart: "\<forall>L. lz_lease_store ?C = Some L \<longrightarrow> redis_server (ls_redis L) id \<and>
      lease_keys_apart L (entry_key sample_contract_store ''plan'' sample_stage_message dedup_stage)"
    by (simp add: sample_workflow_consumer_def mem_redis.redis_server_axioms lease_keys_apart_def lease_key_def owner_key_def
        expiries_key_def expired_claims_key_def dedup_key_def redis_key_def sample_contract_store_def)
  have answers: "\<forall>now w. returned (fst (release_dedup sample_contract_store now ''plan'' (we_task_id sample_stage_message)
      (we_action sample_stage_message) (we_payload sample_stage_message) (ws_dedup_key_fields dedup_stage) w))"
    by (simp add: release_dedup_def sample_contract_store_def mem_redis_def io_bind_def io_return_def)
  have run: "handle_stage_message ?C ''plan'' sample_stage_message stage_delivery (extract_message_metadata stage_delivery)
      (Some stage_infra) ''q'' (\<lambda>_. None, []) = (Inr True, (fst (snd retried_run), snd (snd retried_run)))"
    using r by (simp add: retried_run_def prod_eq_iff)
  have "returned (fst (sample_entry (acquire_dedup sample_contract_store) (fst (snd retried_run))))" by code_simp
  then obtain b w where acq: "sample_entry (acquire_dedup sample_contract_store) (fst (snd retried_run)) = (Inr b, w)"
    by (metis prod.collapse sum.collapse(2))
  have b by (rule retried_stage_message_admitted_again[OF sample_dedup_backend sample_stage_config(3,4,1,2) apart answers run ran acq])
  then show ?thesis using r acq by simp
qed

definition broken_run :: "bool res \<times> keyspace traced" where
  "broken_run = handle_stage_message (sample_workflow_consumer (Handler_done None) True True) ''plan''
     sample_stage_message stage_delivery (extract_message_metadata stage_delivery) (Some stage_infra) ''q'' (\<lambda>_. None, [])"

theorem failed_lease_blocks_redelivery_witness:
  "fst broken_run = Inl (ExternalError ''down'') \<and> snd (snd broken_run) = [] \<and>
   (\<forall>i ok. (Run_handler i, ok) \<notin> set (snd (snd (handle_stage_message (sample_workflow_consumer (Handler_done None) True True)
      ''plan'' sample_stage_message stage_delivery (extract_message_metadata stage_delivery) (Some stage_infra) ''q''
      (fst (snd broken_run), [])))))"
proof -
  let ?C = "sample_workflow_consumer (Handler_done None) True True"
  let ?L = "the (lz_lease_store ?C)" and ?w = "\<lambda>_. None :: (redis_value \<times> int option) option"
  let ?lease = "build_workflow_lease ?C sample_stage_message (make_workflow_context ?C ''plan'' sample_stage_message
      (extract_message_metadata stage_delivery) ''q'') ''plan'' 0"
  define a where "a = sample_entry (acquire_dedup sample_contract_store) ?w"
  define b where "b = sample_entry (mark_inflight sample_contract_store) (snd a)"
  have a: "fst a = Inr True" unfolding a_def by code_simp
  have b: "fst b = Inr ()" unfolding a_def b_def by code_simp
  have clock: "cn_clock ?C w = 0" for w by (simp add: sample_workflow_consumer_def)
  have 1: "lz_lease_store ?C = Some ?L" "lp_enabled (lz_lease_policy ?C)" by (simp_all add: sample_workflow_consumer_def)
  have 2: "sample_entry (acquire_dedup sample_contract_store) ?w = (Inr True, snd a)" using a by (simp add: a_def prod_eq_iff)
  have 3: "sample_entry (mark_inflight sample_contract_store) (snd a) = (Inr (), snd b)" using b by (simp add: b_def prod_eq_iff)
  have 4: "acquire ?L 0 ?lease (snd b) = (Inl (ExternalError ''down''), snd b)"
    by (simp add: acquire_def sample_workflow_consumer_def io_bind_def io_raise_def)
  have ttl: "\<forall>ttl. cs_ttl_seconds sample_contract_store = Some ttl \<longrightarrow> cn_clock ?C (snd b) \<le> cn_clock ?C ?w + seconds ttl"
    by (simp add: sample_contract_store_def clock seconds_def)
  note all = failed_lease_blocks_redelivery[OF sample_dedup_backend sample_stage_config(3,4,1,2) 1, unfolded clock,
      OF 2 3 4 refl, unfolded clock, OF ttl[unfolded clock], where message = stage_delivery and again = stage_delivery
      and metadata' = "extract_message_metadata stage_delivery" and infra = "Some stage_infra"]
  then have e: "broken_run = (Inl (ExternalError ''down''), (snd b, []))" by (simp add: broken_run_def)
  show ?thesis unfolding e fst_conv snd_conv using all by blast
qed

end
