(* ===== verification/Status_Stream.thy ===== *)
theory Status_Stream
  imports Status_Store "HOL-Library.Sublist"
begin

text \<open>
  \<^verbatim>\<open>status/stream.py\<close>: the server-sent event stream of a task's status events, history first and
  then what Redis publishes; and \<^verbatim>\<open>status/history.py\<close>: the replay of a RabbitMQ stream.  A run of
  the generator is the list of what it yields and observes, beside the world; what the pub/sub
  connection delivers, one result per call of \<^verbatim>\<open>_next_pubsub_message\<close>, is an argument: a message, None
  when the keep-alive interval passed, or an exception; the end of the list is the end of the
  iterator.
\<close>

subsection \<open>Frames\<close>

definition sse_event_id :: "dict \<Rightarrow> string option" where
  "sse_event_id data =
     (case map_of data ''event_id'' of
        Some (PStr value) \<Rightarrow> if strip value \<noteq> [] then Some (strip value) else None
      | _ \<Rightarrow> None)"

definition newline :: string where
  "newline = [CHR 0x0A]"

definition sse_event :: "dict \<Rightarrow> string \<Rightarrow> string" where
  "sse_event data event_type =
     join newline ((case sse_event_id data of Some i \<Rightarrow> [''id: '' @ i] | None \<Rightarrow> []) @
       [''event: '' @ event_type, ''data: '' @ json_dumps plain_json (PDict data)]) @ newline @ newline"

definition sse_comment :: "string \<Rightarrow> string" where
  "sse_comment comment = '': '' @ comment @ newline @ newline"

datatype sse_frame = Ready | Event dict | Comment string

definition frame_text :: "sse_frame \<Rightarrow> string" where
  "frame_text f =
     (case f of
        Ready \<Rightarrow> ''event: ready'' @ newline @ ''data: {}'' @ newline @ newline
      | Event data \<Rightarrow> sse_event data ''status''
      | Comment c \<Rightarrow> sse_comment c)"

subsection \<open>The stream\<close>

datatype sse_output = Yielded sse_frame | Observed string dict

type_synonym 'w streaming = "'w \<times> sse_output list"

type_synonym pubsub_result = "(string \<times> string) option res"

record 'w sse_stream =
  sm_store :: "'w status_store"
  sm_terminal_statuses :: "string list"
  sm_output_adapter :: "dict \<Rightarrow> dict res"
  sm_alias_config :: "alias_config option"
  sm_sink :: bool
  sm_subscribe :: "string \<Rightarrow> ('w, unit) io"
  sm_unsubscribe :: "string \<Rightarrow> ('w, unit) io"
  sm_aclose :: "('w, unit) io"

definition say :: "sse_output \<Rightarrow> ('w streaming, unit) io" where
  "say x s = (Inr (), (fst s, snd s @ [x]))"

definition sse_note :: "'w sse_stream \<Rightarrow> string \<Rightarrow> dict \<Rightarrow> ('w streaming, unit) io" where
  "sse_note S name kwargs = (if sm_sink S then say (Observed name kwargs) else io_return ())"

definition in_world :: "('w, 'a) io \<Rightarrow> ('w streaming, 'a) io" where
  "in_world m s = (case m (fst s) of (r, w) \<Rightarrow> (r, (w, snd s)))"

text \<open>
  \<^verbatim>\<open>dict(parsed)\<close> of a JSON value: an object, or a list whose items are pairs, a pair being a list of two, a
  string of two characters or an object of two keys.  Keys are strings in the model: a pair whose key
  is a number, a truth value or null raises here, as in Python one does whose key is a list or an object.
\<close>

fun pair_item :: "pyval \<Rightarrow> (string \<times> pyval) res" where
  "pair_item (PList [PStr k, v]) = Inr (k, v)"
| "pair_item (PList [k, v]) = Inl (TypeError ''key'')"
| "pair_item (PStr [k, v]) = Inr ([k], PStr [v])"
| "pair_item (PDict [(k, _), (v, _)]) = Inr (k, PStr v)"
| "pair_item (PList _) = Inl (ValueError ''dictionary update sequence element'')"
| "pair_item (PStr _) = Inl (ValueError ''dictionary update sequence element'')"
| "pair_item (PDict _) = Inl (ValueError ''dictionary update sequence element'')"
| "pair_item _ = Inl (TypeError ''cannot convert dictionary update sequence element'')"

fun as_dict :: "pyval \<Rightarrow> dict res" where
  "as_dict (PDict d) = Inr d"
| "as_dict (PList items) = bind_res (map_res pair_item items) (\<lambda>pairs. Inr (dict_update [] pairs))"
| "as_dict (PStr s) = (if s = [] then Inr [] else Inl (ValueError ''dictionary update sequence element''))"
| "as_dict _ = Inl (TypeError ''not iterable'')"

text \<open>\<^verbatim>\<open>item.get(...)\<close>: only an object has it.\<close>

definition the_mapping :: "pyval \<Rightarrow> dict res" where
  "the_mapping v = (case v of PDict d \<Rightarrow> Inr d | _ \<Rightarrow> Inl (TypeError ''no attribute get''))"

definition to_public_event :: "'w sse_stream \<Rightarrow> dict \<Rightarrow> dict res" where
  "to_public_event S data =
     bind_res (sm_output_adapter S data) (\<lambda>adapted. Inr (public_output_aliases adapted (sm_alias_config S) Payload))"

definition status_value :: "dict \<Rightarrow> pyval" where
  "status_value data =
     (case map_of data ''status'' of
        Some (PStr s) \<Rightarrow> PStr s
      | None \<Rightarrow> PNone
      | Some PNone \<Rightarrow> PNone
      | Some v \<Rightarrow> PStr (py_str v))"

text \<open>\<^verbatim>\<open>is_terminal\<close> of the value under \<^verbatim>\<open>status\<close>: a truthy value that is not a text has no \<^verbatim>\<open>lower\<close>.\<close>

definition terminal_event :: "'w sse_stream \<Rightarrow> dict \<Rightarrow> bool res" where
  "terminal_event S data =
     (case map_of data ''status'' of
        None \<Rightarrow> Inr False
      | Some (PStr s) \<Rightarrow> Inr (is_terminal (sm_terminal_statuses S) (Some s))
      | Some v \<Rightarrow> if truthy v then Inl (ExternalError ''AttributeError'') else Inr False)"

definition sent_fields :: "string \<Rightarrow> dict \<Rightarrow> string \<Rightarrow> dict" where
  "sent_fields task_id data source =
     [(''task_id'', PStr task_id), (''event_id'', opt_str (sse_event_id data)), (''status'', status_value data),
      (''source'', PStr source)]"

text \<open>
  The number of the first item after the one with the given identifier, None when there is none.
\<close>

fun resume_point :: "string \<Rightarrow> pyval list \<Rightarrow> nat option res" where
  "resume_point last_event_id [] = Inr None"
| "resume_point last_event_id (item # items) =
     bind_res (the_mapping item) (\<lambda>d.
       if sse_event_id d = Some last_event_id then Inr (Some 1)
       else bind_res (resume_point last_event_id items) (\<lambda>found. Inr (map_option Suc found)))"

definition resume_items ::
  "'w sse_stream \<Rightarrow> string \<Rightarrow> string option \<Rightarrow> pyval list \<Rightarrow> ('w streaming, pyval list) io" where
  "resume_items S task_id last_event_id items =
     (case last_event_id of
        None \<Rightarrow> io_return items
      | Some i \<Rightarrow>
          io_bind (io_lift (resume_point i items)) (\<lambda>found.
          io_bind (sse_note S ''SSEResumeRequested''
            [(''task_id'', PStr task_id), (''last_event_id'', PStr i), (''history_match_found'', PBool (found \<noteq> None))]) (\<lambda>_.
          io_return (case found of None \<Rightarrow> items | Some n \<Rightarrow> drop n items))))"

definition add_seen :: "string option \<Rightarrow> string list \<Rightarrow> string list" where
  "add_seen i seen = (case i of None \<Rightarrow> seen | Some x \<Rightarrow> List.insert x seen)"

definition send_event :: "'w sse_stream \<Rightarrow> string \<Rightarrow> string \<Rightarrow> dict \<Rightarrow> ('w streaming, bool) io" where
  "send_event S task_id source data =
     io_bind (say (Yielded (Event data))) (\<lambda>_.
     io_bind (sse_note S ''SSELiveEventSent'' (sent_fields task_id data source)) (\<lambda>_.
     io_lift (terminal_event S data)))"

text \<open>The status at which the replay ended the stream, if it did, and the identifiers sent.\<close>

fun replay_history ::
  "'w sse_stream \<Rightarrow> string \<Rightarrow> nat \<Rightarrow> string list \<Rightarrow> pyval list \<Rightarrow> ('w streaming, pyval option \<times> string list) io" where
  "replay_history S task_id replayed seen [] =
     io_bind (sse_note S ''SSEHistoryReplayed'' [(''task_id'', PStr task_id), (''replayed_count'', PInt (int replayed))])
       (\<lambda>_. io_return (None, seen))"
| "replay_history S task_id replayed seen (item # items) =
     io_bind (io_lift (bind_res (as_dict item) (to_public_event S))) (\<lambda>data.
     io_bind (send_event S task_id ''history'' data) (\<lambda>terminal.
     if terminal then
       io_bind (sse_note S ''SSEHistoryReplayed'' [(''task_id'', PStr task_id), (''replayed_count'', PInt (int (Suc replayed)))])
         (\<lambda>_. io_return (Some (status_value data), add_seen (sse_event_id data) seen))
     else replay_history S task_id (Suc replayed) (add_seen (sse_event_id data) seen) items))"

fun live_events ::
  "'w sse_stream \<Rightarrow> string \<Rightarrow> string list \<Rightarrow> pubsub_result list \<Rightarrow> ('w streaming, pyval) io" where
  "live_events S task_id seen [] = io_return PNone"
| "live_events S task_id seen (Inl e # messages) = io_raise e"
| "live_events S task_id seen (Inr None # messages) =
     io_bind (say (Yielded (Comment ''keepalive''))) (\<lambda>_.
     io_bind (sse_note S ''SSEKeepaliveSent'' [(''task_id'', PStr task_id)]) (\<lambda>_. live_events S task_id seen messages))"
| "live_events S task_id seen (Inr (Some (kind, raw)) # messages) =
     (if kind \<noteq> ''message'' \<or> raw = [] then live_events S task_id seen messages
      else case ss_loads (sm_store S) raw of
        Inl _ \<Rightarrow>
          io_bind (sse_note S ''SSEMalformedPubsubPayload'' [(''task_id'', PStr task_id)]) (\<lambda>_. live_events S task_id seen messages)
      | Inr parsed \<Rightarrow>
          io_bind (io_lift (bind_res (as_dict parsed) (to_public_event S))) (\<lambda>data.
          if (case sse_event_id data of None \<Rightarrow> False | Some i \<Rightarrow> i \<in> set seen) then live_events S task_id seen messages
          else
            io_bind (send_event S task_id ''pubsub'' data) (\<lambda>terminal.
            if terminal then io_return (status_value data)
            else live_events S task_id (add_seen (sse_event_id data) seen) messages)))"

fun is_event :: "sse_output \<Rightarrow> bool" where
  "is_event (Yielded (Event data)) = True"
| "is_event _ = False"

text \<open>
  The \<^verbatim>\<open>finally\<close> block; \<^verbatim>\<open>sent_count\<close> is raised with every event that is yielded, and \<^verbatim>\<open>terminal_status\<close> is
  only set by the statement before the body is left.
\<close>

definition closing_stream :: "'w sse_stream \<Rightarrow> string \<Rightarrow> string \<Rightarrow> ('w streaming, pyval) io \<Rightarrow> ('w streaming, pyval) io" where
  "closing_stream S task_id channel body s =
     (case body s of (r, t) \<Rightarrow>
       io_bind (in_world (sm_unsubscribe S channel)) (\<lambda>_.
       io_bind (in_world (sm_aclose S)) (\<lambda>_.
       io_bind (sse_note S ''SSEStreamEnded''
         [(''task_id'', PStr task_id), (''terminal_status'', (case r of Inl _ \<Rightarrow> PNone | Inr st \<Rightarrow> st)),
          (''sent_count'', PInt (int (length (filter is_event (snd t)))))]) (\<lambda>_. io_lift r))) t)"

definition stream_body ::
  "'w sse_stream \<Rightarrow> int \<Rightarrow> string \<Rightarrow> string option \<Rightarrow> pubsub_result list \<Rightarrow> ('w streaming, pyval) io" where
  "stream_body S now task_id last_event_id messages =
     io_bind (in_world (sm_subscribe S (channel_name (sm_store S) task_id))) (\<lambda>_.
     io_bind (in_world (get_history (sm_store S) now task_id None)) (\<lambda>history.
     io_bind (resume_items S task_id last_event_id (rev history)) (\<lambda>items.
     io_bind (replay_history S task_id 0 [] items) (\<lambda>(ended, seen).
     case ended of
       Some status \<Rightarrow> io_return status
     | None \<Rightarrow> live_events S task_id seen messages))))"

definition stream ::
  "'w sse_stream \<Rightarrow> int \<Rightarrow> string \<Rightarrow> string option \<Rightarrow> pubsub_result list \<Rightarrow> ('w streaming, pyval) io" where
  "stream S now task_id last_event_id messages =
     io_bind (say (Yielded Ready)) (\<lambda>_.
     io_bind (sse_note S ''SSEStreamStarted''
       [(''task_id'', PStr task_id), (''resume_requested'', PBool (last_event_id \<noteq> None))]) (\<lambda>_.
     closing_stream S task_id (channel_name (sm_store S) task_id) (stream_body S now task_id last_event_id messages)))"

definition document_output_adapter :: "dict \<Rightarrow> dict" where
  "document_output_adapter data = denormalize_document_aliases data"

subsection \<open>What a subscriber receives\<close>

definition events_of :: "sse_output list \<Rightarrow> dict list" where
  "events_of out = concat (map (\<lambda>x. case x of Yielded (Event d) \<Rightarrow> [d] | _ \<Rightarrow> []) out)"

lemma events_of_simps [simp]:
  "events_of [] = []" "events_of (a @ b) = events_of a @ events_of b"
  "events_of (Yielded (Event d) # out) = d # events_of out" "events_of (Observed n k # out) = events_of out"
  "events_of (Yielded (Comment c) # out) = events_of out" "events_of (Yielded Ready # out) = events_of out"
  by (simp_all add: events_of_def)

text \<open>The elements of a list up to and including the first that satisfies \<open>P\<close>.\<close>

fun through_first :: "('a \<Rightarrow> bool) \<Rightarrow> 'a list \<Rightarrow> 'a list" where
  "through_first P [] = []"
| "through_first P (x # xs) = x # (if P x then [] else through_first P xs)"

lemma through_first_append:
  "through_first P (xs @ ys) = (if \<exists>x \<in> set xs. P x then through_first P xs else xs @ through_first P ys)"
  by (induction xs) auto

lemma through_first_none: "\<not> (\<exists>x \<in> set xs. P x) \<Longrightarrow> through_first P xs = xs"
  by (induction xs) auto

text \<open>The status events the pub/sub messages carry.\<close>

definition heard :: "'w sse_stream \<Rightarrow> pubsub_result list \<Rightarrow> dict list" where
  "heard S messages = concat (map (\<lambda>x. case x of
     Inr (Some (kind, raw)) \<Rightarrow>
       if kind = ''message'' \<and> raw \<noteq> [] then (case ss_loads (sm_store S) raw of Inr (PDict d) \<Rightarrow> [d] | _ \<Rightarrow> []) else []
   | _ \<Rightarrow> []) messages)"

definition undisturbed :: "'w sse_stream \<Rightarrow> pubsub_result list \<Rightarrow> bool" where
  "undisturbed S messages \<longleftrightarrow> (\<forall>x \<in> set messages. case x of
     Inl _ \<Rightarrow> False
   | Inr None \<Rightarrow> True
   | Inr (Some (kind, raw)) \<Rightarrow> (case ss_loads (sm_store S) raw of Inr (PDict d) \<Rightarrow> True | Inr _ \<Rightarrow> False | Inl _ \<Rightarrow> True))"

lemma note_run: "\<exists>out. sse_note S name kwargs (w, pre) = (Inr (), (w, pre @ out)) \<and> events_of out = []"
  by (auto simp: sse_note_def say_def io_return_def)

lemma send_event_run:
  assumes "terminal_event S data = Inr b"
  shows "\<exists>out. send_event S task_id source data (w, pre) = (Inr b, (w, pre @ out)) \<and> events_of out = [data]"
  using assms by (auto simp: send_event_def say_def sse_note_def io_bind_def io_lift_def io_return_def)

text \<open>
  An event \<open>e\<close> of the task as the store has it; \<open>pub e\<close> is its public form, \<open>ident e\<close> the identifier
  and \<open>term e\<close> whether the status is terminal.
\<close>

definition publishable ::
  "'w sse_stream \<Rightarrow> (dict \<Rightarrow> dict) \<Rightarrow> (dict \<Rightarrow> string) \<Rightarrow> (dict \<Rightarrow> bool) \<Rightarrow> dict \<Rightarrow> bool" where
  "publishable S pub ident term e \<longleftrightarrow>
     to_public_event S e = Inr (pub e) \<and> sse_event_id (pub e) = Some (ident e) \<and> terminal_event S (pub e) = Inr (term e)"

lemma replay_history_run:
  assumes "\<forall>e \<in> set es. publishable S pub ident term e"
  shows "\<exists>ended seen' out. replay_history S task_id n seen (map PDict es) (w, pre) = (Inr (ended, seen'), (w, pre @ out)) \<and>
    events_of out = map pub (through_first term es) \<and>
    (if \<exists>e \<in> set es. term e then ended \<noteq> None else ended = None \<and> set seen' = set seen \<union> ident ` set es)"
  using assms
proof (induction es arbitrary: n seen pre)
  case Nil
  then show ?case
    by (auto simp: sse_note_def say_def io_bind_def io_return_def)
next
  case (Cons e es)
  have p: "to_public_event S e = Inr (pub e)" "sse_event_id (pub e) = Some (ident e)" "terminal_event S (pub e) = Inr (term e)"
    using Cons.prems by (auto simp: publishable_def)
  from send_event_run[OF p(3)] obtain out where
    out: "send_event S task_id ''history'' (pub e) (w, pre) = (Inr (term e), (w, pre @ out))" "events_of out = [pub e]" by blast
  have step: "replay_history S task_id n seen (map PDict (e # es)) (w, pre) =
    (if term e then io_bind (sse_note S ''SSEHistoryReplayed'' [(''task_id'', PStr task_id), (''replayed_count'', PInt (int (Suc n)))])
         (\<lambda>_. io_return (Some (status_value (pub e)), add_seen (Some (ident e)) seen))
     else replay_history S task_id (Suc n) (add_seen (Some (ident e)) seen) (map PDict es)) (w, pre @ out)"
    using out(1) p by (simp add: io_bind_def io_lift_def)
  show ?case
  proof (cases "term e")
    case True
    obtain o2 where "sse_note S ''SSEHistoryReplayed'' [(''task_id'', PStr task_id), (''replayed_count'', PInt (int (Suc n)))]
        (w, pre @ out) = (Inr (), (w, (pre @ out) @ o2))" "events_of o2 = []"
      using note_run[where S = S and w = w and pre = "pre @ out"] by blast
    then show ?thesis using True out(2) unfolding step
      by (auto simp: io_bind_def io_return_def intro!: exI[of _ "out @ o2"])
  next
    case False
    from Cons.IH[of "Suc n" "add_seen (Some (ident e)) seen" "pre @ out"] Cons.prems obtain ended seen' o2 where
      "replay_history S task_id (Suc n) (add_seen (Some (ident e)) seen) (map PDict es) (w, pre @ out) =
         (Inr (ended, seen'), (w, (pre @ out) @ o2))" "events_of o2 = map pub (through_first term es)"
      "if \<exists>e \<in> set es. term e then ended \<noteq> None
       else ended = None \<and> set seen' = set (add_seen (Some (ident e)) seen) \<union> ident ` set es"
      by auto
    then show ?thesis using False out(2) unfolding step
      by (auto simp: add_seen_def intro!: exI[of _ ended] exI[of _ seen'] exI[of _ "out @ o2"])
  qed
qed

lemma heard_simps [simp]:
  "heard S [] = []" "heard S (Inr None # messages) = heard S messages"
  "kind \<noteq> ''message'' \<or> raw = [] \<Longrightarrow> heard S (Inr (Some (kind, raw)) # messages) = heard S messages"
  "ss_loads (sm_store S) raw = Inl e \<Longrightarrow> heard S (Inr (Some (kind, raw)) # messages) = heard S messages"
  "ss_loads (sm_store S) raw = Inr (PDict d) \<Longrightarrow> raw \<noteq> [] \<Longrightarrow>
     heard S (Inr (Some (''message'', raw)) # messages) = d # heard S messages"
  unfolding heard_def list.map concat.simps sum.case option.case prod.case by auto

lemma live_events_run:
  assumes "undisturbed S messages" and "\<forall>e \<in> set (heard S messages). publishable S pub ident term e"
    and "distinct (map ident (heard S messages))"
  shows "\<exists>status out. live_events S task_id seen messages (w, pre) = (Inr status, (w, pre @ out)) \<and>
    events_of out = map pub (through_first term (filter (\<lambda>e. ident e \<notin> set seen) (heard S messages)))"
  using assms
proof (induction messages arbitrary: seen pre)
  case Nil
  then show ?case by (simp add: io_return_def)
next
  case (Cons x messages)
  have tail: "undisturbed S messages" using Cons.prems(1) by (simp add: undisturbed_def)
  have "\<exists>xs. heard S (x # messages) = xs @ heard S messages" unfolding heard_def list.map concat.simps by blast
  then have sub: "set (heard S messages) \<subseteq> set (heard S (x # messages))"
    and dist: "distinct (map ident (heard S messages))" using Cons.prems(3) by auto
  have IH: "\<exists>status out. live_events S task_id seen' messages (w, pre') = (Inr status, (w, pre' @ out)) \<and>
      events_of out = map pub (through_first term (filter (\<lambda>e. ident e \<notin> set seen') (heard S messages)))" for seen' pre'
    using Cons.IH[OF tail _ dist, of seen' pre'] Cons.prems(2) sub by blast
  consider (quiet) "x = Inr None"
    | (other) kind raw where "x = Inr (Some (kind, raw))" "kind \<noteq> ''message'' \<or> raw = []"
    | (malformed) raw e where "x = Inr (Some (''message'', raw))" "raw \<noteq> []" "ss_loads (sm_store S) raw = Inl e"
    | (event) raw d where "x = Inr (Some (''message'', raw))" "raw \<noteq> []" "ss_loads (sm_store S) raw = Inr (PDict d)"
  proof -
    have "case x of Inl _ \<Rightarrow> False | Inr None \<Rightarrow> True
      | Inr (Some (kind, raw)) \<Rightarrow> (case ss_loads (sm_store S) raw of Inr (PDict d) \<Rightarrow> True | Inr _ \<Rightarrow> False | Inl _ \<Rightarrow> True)"
      using Cons.prems(1) by (simp add: undisturbed_def)
    then obtain m where m: "x = Inr m" by (cases x) auto
    show thesis
    proof (cases m)
      case (Some kr)
      obtain kind raw where kr: "kr = (kind, raw)" by (rule prod.exhaust)
      show thesis
      proof (cases "kind = ''message'' \<and> raw \<noteq> []")
        case True
        have ok: "case ss_loads (sm_store S) raw of Inr (PDict d) \<Rightarrow> True | Inr _ \<Rightarrow> False | Inl _ \<Rightarrow> True"
          using \<open>case x of Inl _ \<Rightarrow> False | Inr None \<Rightarrow> True | Inr (Some (kind, raw)) \<Rightarrow> _ kind raw\<close> m Some kr by simp
        then show thesis using that(3,4) m Some kr True
          by (cases "ss_loads (sm_store S) raw") (auto split: pyval.splits)
      qed (use that(2) m Some kr in auto)
    qed (use that(1) m in auto)
  qed
  then show ?case
  proof cases
    case quiet
    let ?pre = "pre @ [Yielded (Comment ''keepalive'')]"
    obtain o1 where n: "sse_note S ''SSEKeepaliveSent'' [(''task_id'', PStr task_id)] (w, ?pre) = (Inr (), (w, ?pre @ o1))"
      "events_of o1 = []" using note_run[where S = S and w = w and pre = ?pre] by blast
    from IH[of seen "?pre @ o1"] n show ?thesis by (force simp: quiet io_bind_def say_def)
  next
    case other
    then have "live_events S task_id seen (x # messages) = live_events S task_id seen messages" by auto
    then show ?thesis using IH[of seen pre] other by (simp only: heard_simps)
  next
    case malformed
    obtain o1 where n: "sse_note S ''SSEMalformedPubsubPayload'' [(''task_id'', PStr task_id)] (w, pre) = (Inr (), (w, pre @ o1))"
      "events_of o1 = []" using note_run[where S = S and w = w and pre = pre] by blast
    from IH[of seen "pre @ o1"] n show ?thesis by (force simp: malformed io_bind_def)
  next
    case event
    have h: "heard S (x # messages) = d # heard S messages" unfolding event(1) using event(2,3) by simp
    then have p: "to_public_event S d = Inr (pub d)" "sse_event_id (pub d) = Some (ident d)" "terminal_event S (pub d) = Inr (term d)"
      using Cons.prems(2) by (auto simp: publishable_def)
    show ?thesis
    proof (cases "ident d \<in> set seen")
      case True
      then have "live_events S task_id seen (x # messages) (w, pre) = live_events S task_id seen messages (w, pre)"
        using p by (simp add: event io_bind_def io_lift_def)
      then show ?thesis using IH[of seen pre] True by (simp add: h)
    next
      case False
      from send_event_run[OF p(3)] obtain o1 where
        o1: "send_event S task_id ''pubsub'' (pub d) (w, pre) = (Inr (term d), (w, pre @ o1))" "events_of o1 = [pub d]" by blast
      have new: "filter (\<lambda>e. ident e \<notin> set (add_seen (Some (ident d)) seen)) (heard S messages) =
          filter (\<lambda>e. ident e \<notin> set seen) (heard S messages)"
      proof (rule filter_cong[OF refl])
        fix e assume "e \<in> set (heard S messages)"
        then have "ident e \<noteq> ident d" using Cons.prems(3) h by (metis distinct.simps(2) imageI list.simps(9) set_map)
        then show "ident e \<notin> set (add_seen (Some (ident d)) seen) \<longleftrightarrow> ident e \<notin> set seen" by (simp add: add_seen_def)
      qed
      have "live_events S task_id seen (x # messages) (w, pre) =
          (if term d then io_return (status_value (pub d))
           else live_events S task_id (add_seen (Some (ident d)) seen) messages) (w, pre @ o1)"
        using p o1 False by (simp add: event io_bind_def io_lift_def)
      then show ?thesis using IH[of "add_seen (Some (ident d)) seen" "pre @ o1"] o1(2) False
        unfolding new by (auto simp: h io_return_def)
    qed
  qed
qed

lemma resume_point_run:
  "resume_point i (map PDict es) = Inr (if \<exists>e \<in> set es. sse_event_id e = Some i
     then Some (Suc (length (takeWhile (\<lambda>e. sse_event_id e \<noteq> Some i) es))) else None)"
  by (induction es) (auto simp: the_mapping_def)

text \<open>Where the replay starts: after the event the client names, if the history has it.\<close>

definition replay_start :: "string option \<Rightarrow> dict list \<Rightarrow> nat" where
  "replay_start last_event_id es =
     (case last_event_id of
        None \<Rightarrow> 0
      | Some i \<Rightarrow> if \<exists>e \<in> set es. sse_event_id e = Some i then Suc (length (takeWhile (\<lambda>e. sse_event_id e \<noteq> Some i) es)) else 0)"

lemma resume_items_run:
  "\<exists>out. resume_items S task_id last_event_id (map PDict es) (w, pre) =
     (Inr (map PDict (drop (replay_start last_event_id es) es)), (w, pre @ out)) \<and> events_of out = []"
proof (cases last_event_id)
  case (Some i)
  show ?thesis
    by (auto simp: resume_items_def Some replay_start_def resume_point_run io_bind_def io_lift_def io_return_def drop_map
        sse_note_def say_def)
qed (simp add: resume_items_def replay_start_def io_return_def)

lemma filter_unseen:
  assumes "distinct (map ident es)" and "p \<le> j" and "start \<le> p"
  shows "filter (\<lambda>e. ident e \<notin> ident ` set (drop start (take j es))) (drop p es) = drop j es"
proof -
  have split: "drop p es = drop p (take j es) @ drop j es" using assms(2)
    by (metis append_take_drop_id drop_drop drop_take le_add_diff_inverse2)
  have "set (drop p (take j es)) \<subseteq> set (drop start (take j es))" using assms(3) by (rule set_drop_subset_set_drop)
  moreover have "ident e \<notin> ident ` set (take j es)" if "e \<in> set (drop j es)" for e
  proof -
    have "distinct (map ident (take j es) @ map ident (drop j es))"
      using assms(1) by (metis append_take_drop_id map_append)
    then show ?thesis using that by auto
  qed
  ultimately have "filter (\<lambda>e. ident e \<notin> ident ` set (drop start (take j es))) (drop p (take j es)) = []"
    and "filter (\<lambda>e. ident e \<notin> ident ` set (drop start (take j es))) (drop j es) = drop j es"
    by (auto simp: filter_empty_conv filter_id_conv dest: in_set_dropD)
  then show ?thesis unfolding split by simp
qed

lemma drop_split: "start \<le> j \<Longrightarrow> drop start es = drop start (take j es) @ drop j es"
  by (metis append_take_drop_id drop_drop drop_take le_add_diff_inverse2)

lemma stream_body_run:
  assumes "\<forall>e \<in> set es. publishable S pub ident term e" and "distinct (map ident es)"
    and "sm_subscribe S (channel_name (sm_store S) task_id) w = (Inr (), w1)"
    and "get_history (sm_store S) now task_id None w1 = (Inr (rev (map PDict (drop h (take j es)))), w2)"
    and "undisturbed S messages" and "heard S messages = drop p es"
    and "start = h + replay_start last_event_id (drop h (take j es))" and "start \<le> p" and "p \<le> j"
  shows "\<exists>status out. stream_body S now task_id last_event_id messages (w, pre) = (Inr status, (w2, pre @ out)) \<and>
    events_of out = map pub (through_first term (drop start es))"
proof -
  let ?xs = "drop start (take j es)"
  have xs: "drop (replay_start last_event_id (drop h (take j es))) (drop h (take j es)) = ?xs"
    by (simp add: assms(7) add.commute)
  obtain o1 where o1: "resume_items S task_id last_event_id (map PDict (drop h (take j es))) (w2, pre) =
      (Inr (map PDict ?xs), (w2, pre @ o1))" "events_of o1 = []"
    using resume_items_run[of S task_id last_event_id "drop h (take j es)" w2 pre] xs by auto
  have px: "\<forall>e \<in> set ?xs. publishable S pub ident term e"
    using assms(1) by (auto dest: in_set_dropD in_set_takeD)
  obtain ended seen o2 where o2: "replay_history S task_id 0 [] (map PDict ?xs) (w2, pre @ o1) =
      (Inr (ended, seen), (w2, (pre @ o1) @ o2))" "events_of o2 = map pub (through_first term ?xs)"
      "if \<exists>e \<in> set ?xs. term e then ended \<noteq> None else ended = None \<and> set seen = set [] \<union> ident ` set ?xs"
    using replay_history_run[OF px, of task_id 0 "[]" w2 "pre @ o1"] by blast
  have run: "stream_body S now task_id last_event_id messages (w, pre) =
      (case ended of Some status \<Rightarrow> io_return status | None \<Rightarrow> live_events S task_id seen messages) (w2, (pre @ o1) @ o2)"
    using assms(3,4) o1(1) o2(1) by (simp add: stream_body_def io_bind_def in_world_def)
  have split: "drop start es = ?xs @ drop j es" using assms(8,9) by (intro drop_split) simp
  show ?thesis
  proof (cases "\<exists>e \<in> set ?xs. term e")
    case True
    then obtain status where "ended = Some status" using o2(3) by auto
    then show ?thesis using run o1(2) o2(2) True unfolding split through_first_append by (auto simp: io_return_def)
  next
    case False
    then have e: "ended = None" "set seen = ident ` set ?xs" using o2(3) by auto
    have pm: "\<forall>e \<in> set (heard S messages). publishable S pub ident term e" "distinct (map ident (heard S messages))"
      using assms(1,2,6) by (auto dest: in_set_dropD simp: drop_map[symmetric])
    obtain status o3 where o3: "live_events S task_id seen messages (w2, (pre @ o1) @ o2) = (Inr status, (w2, ((pre @ o1) @ o2) @ o3))"
      "events_of o3 = map pub (through_first term (filter (\<lambda>e. ident e \<notin> set seen) (drop p es)))"
      using live_events_run[OF assms(5) pm, of task_id seen w2 "(pre @ o1) @ o2"] assms(6) by auto
    have "filter (\<lambda>e. ident e \<notin> set seen) (drop p es) = drop j es"
      unfolding e(2) using filter_unseen[OF assms(2,9,8)] .
    then show ?thesis using run e(1) o1(2) o2(2) o3 False unfolding split through_first_append
      by (auto simp: through_first_none)
  qed
qed

text \<open>
  C29. A subscriber receives every status event exactly once and in order, across the gap between
  reading the history and listening.  The task's events are \<open>es\<close>, each with an identifier of its own, stored and announced one after
  the other: when the stream subscribed the first \<open>p\<close> had been announced, when it read the history
  the first \<open>j\<close> had been stored (of which the first \<open>h\<close> are no longer kept), and the channel
  carries the rest among keep-alives, other messages and malformed payloads; the event the client saw last, if it
  names one that is kept, was announced before it subscribed.  Redis and the output adapter do not
  raise in this run.  The events sent are
  those from the start, or from the event after the one the client saw last, up to the first with
  a terminal status; what is both in the history and on the channel is sent once.  Then the stream
  unsubscribes from the task's channel and, unless that raises, closes its pub/sub connection.
\<close>

theorem stream_delivers_each_event_once:
  assumes "\<forall>e \<in> set es. publishable S pub ident term e" and "distinct (map ident es)"
    and "sm_subscribe S (channel_name (sm_store S) task_id) w = (Inr (), w1)"
    and "get_history (sm_store S) now task_id None w1 = (Inr (rev (map PDict (drop h (take j es)))), w2)"
    and "undisturbed S messages" and "heard S messages = drop p es"
    and "start = h + replay_start last_event_id (drop h (take j es))" and "start \<le> p" and "p \<le> j"
    and "stream S now task_id last_event_id messages (w, []) = (r, (w', out))"
  shows "events_of out = map pub (through_first term (drop start es)) \<and>
    (case sm_unsubscribe S (channel_name (sm_store S) task_id) w2 of
       (Inl e, w3) \<Rightarrow> r = Inl e \<and> w' = w3 | (Inr _, w3) \<Rightarrow> w' = snd (sm_aclose S w3))"
proof -
  obtain o1 where o1: "sse_note S ''SSEStreamStarted'' [(''task_id'', PStr task_id), (''resume_requested'', PBool (last_event_id \<noteq> None))]
      (w, [Yielded Ready]) = (Inr (), (w, [Yielded Ready] @ o1))" "events_of o1 = []"
    using note_run[where S = S and w = w and pre = "[Yielded Ready]"] by blast
  obtain status o2 where o2: "stream_body S now task_id last_event_id messages (w, [Yielded Ready] @ o1) =
      (Inr status, (w2, ([Yielded Ready] @ o1) @ o2))" "events_of o2 = map pub (through_first term (drop start es))"
    using stream_body_run[OF assms(1-9)] by blast
  have "closing_stream S task_id (channel_name (sm_store S) task_id) (stream_body S now task_id last_event_id messages)
      (w, [Yielded Ready] @ o1) = (r, (w', out))"
    using assms(10) o1(1) by (simp add: stream_def io_bind_def say_def)
  then have closing: "\<exists>o3. out = ([Yielded Ready] @ o1 @ o2) @ o3 \<and> events_of o3 = []"
    "case sm_unsubscribe S (channel_name (sm_store S) task_id) w2 of
       (Inl e, w3) \<Rightarrow> r = Inl e \<and> w' = w3 | (Inr _, w3) \<Rightarrow> w' = snd (sm_aclose S w3)"
    unfolding closing_stream_def o2(1)
    by (auto simp: io_bind_def in_world_def sse_note_def say_def io_return_def io_lift_def split: prod.splits sum.splits if_splits)
  then show ?thesis using o1(2) o2(2) by auto
qed

subsection \<open>What a client reads from a frame\<close>

text \<open>
  The fields of the first event block of a text, as the event stream format defines them: lines
  end with a newline, a blank line ends the block, a field's name ends at the first colon and one
  blank after it is dropped.
\<close>

definition client_field :: "string \<Rightarrow> string \<times> string" where
  "client_field line =
     (let rest = drop 1 (dropWhile (\<lambda>c. c \<noteq> CHR '':'') line)
      in (takeWhile (\<lambda>c. c \<noteq> CHR '':'') line, if take 1 rest = '' '' then drop 1 rest else rest))"

definition client_reads :: "string \<Rightarrow> string \<Rightarrow> string option" where
  "client_reads text name =
     map_of (map client_field (takeWhile (\<lambda>line. line \<noteq> []) (split_on (CHR 0x0A) text))) name"

lemma hex_digit_no_newline: "d < 16 \<Longrightarrow> hex_digit d \<noteq> CHR 0x0A"
proof
  assume "d < 16" "hex_digit d = CHR 0x0A"
  then have "of_char (hex_digit d) = (10 :: nat)" by simp
  then show False using \<open>d < 16\<close> by (auto simp: hex_digit_def split: if_splits)
qed

lemma json_char_no_newline: "CHR 0x0A \<notin> set (json_char asc c)"
proof (cases "of_char c = (10 :: nat)")
  case False
  then have "c \<noteq> CHR 0x0A" by auto
  moreover have "of_char c div 16 < (16 :: nat)" using nat_of_char_less_256[of c] by linarith
  ultimately show ?thesis
    using False hex_digit_no_newline[of "of_char c div 16"] hex_digit_no_newline[of "of_char c mod 16"]
    by (auto simp: json_char_def Let_def hex2_def)
qed (simp add: json_char_def)

lemma json_string_no_newline: "CHR 0x0A \<notin> set (json_string asc s)"
  by (auto simp: json_string_def quote2_def json_char_no_newline)

lemma join_chars: "c \<in> set (join sep ws) \<Longrightarrow> c \<in> set sep \<or> (\<exists>w \<in> set ws. c \<in> set w)"
  by (induction sep ws rule: join.induct) auto

lemma json_dumps_no_newline: "CHR 0x0A \<notin> set (json_dumps plain_json v)"
proof (induction plain_json v rule: json_dumps.induct)
  case (3 i)
  then show ?case using int_str_chars[of "CHR 0x0A" i] by (auto simp: is_digit_def)
next
  case (5 xs)
  then show ?case by (auto dest!: join_chars simp: plain_json_def)
next
  case (6 d)
  then show ?case by (fastforce dest!: join_chars simp: plain_json_def json_string_no_newline)
qed (auto simp: json_string_no_newline)

text \<open>
  A client reads from a frame what the stream put there: for an event whose identifier has no
  line break the fields \<^verbatim>\<open>id\<close>, \<^verbatim>\<open>event\<close> and \<^verbatim>\<open>data\<close> are the identifier, the type and the whole JSON
  text, whatever texts the event's own fields contain.
\<close>

theorem sse_frame_read_back:
  assumes "\<forall>i. sse_event_id data = Some i \<longrightarrow> CHR 0x0A \<notin> set i" and "CHR 0x0A \<notin> set event_type"
  shows "client_reads (sse_event data event_type) ''id'' = sse_event_id data \<and>
    client_reads (sse_event data event_type) ''event'' = Some event_type \<and>
    client_reads (sse_event data event_type) ''data'' = Some (json_dumps plain_json (PDict data))"
proof -
  let ?e = "''event: '' @ event_type" and ?d = "''data: '' @ json_dumps plain_json (PDict data)"
  have l: "CHR 0x0A \<notin> set ?e" "CHR 0x0A \<notin> set ?d"
    using assms(2) json_dumps_no_newline[of "PDict data"] by (simp_all del: json_dumps.simps)
  have ed: "split_on (CHR 0x0A) (?e @ CHR 0x0A # ?d @ CHR 0x0A # [CHR 0x0A]) = [?e, ?d, [], []]"
    unfolding split_on_append_sep[OF l(1)] split_on_append_sep[OF l(2)] by simp
  show ?thesis
  proof (cases "sse_event_id data")
    case None
    have t: "sse_event data event_type = ?e @ CHR 0x0A # ?d @ CHR 0x0A # [CHR 0x0A]"
      by (simp add: sse_event_def None newline_def)
    show ?thesis unfolding client_reads_def t ed by (simp add: client_field_def None)
  next
    case (Some i)
    then have "CHR 0x0A \<notin> set (''id: '' @ i)" using assms(1) by auto
    from split_on_append_sep[OF this] ed have t: "split_on (CHR 0x0A) (sse_event data event_type) = [''id: '' @ i, ?e, ?d, [], []]"
      by (simp add: sse_event_def Some newline_def)
    show ?thesis unfolding client_reads_def t by (simp add: client_field_def Some)
  qed
qed

subsection \<open>Replaying a RabbitMQ stream\<close>

text \<open>
  \<^verbatim>\<open>StreamHistoryReader.replay\<close>: the loop over the messages of the stream.  Each message is its body
  and whether the time limit has passed when it is taken; the end of the list is the idle timeout,
  which ends the replay with what was collected.  Acknowledging may raise.
\<close>

record history_reader =
  hr_output_adapter :: "(dict \<Rightarrow> dict res) option"
  hr_alias_config :: "alias_config option"

record replay_options =
  ro_task_id :: "string option"
  ro_terminal_statuses :: "string list"
  ro_stop_on_terminal :: bool
  ro_max_scan :: "int option"

definition wanted_task :: "replay_options \<Rightarrow> string option" where
  "wanted_task opt = (case ro_task_id opt of Some t \<Rightarrow> if t \<noteq> [] then Some t else None | None \<Rightarrow> None)"

text \<open>\<^verbatim>\<open>str(normalized.get(key, ""))\<close>\<close>

definition text_of :: "dict \<Rightarrow> string \<Rightarrow> string" where
  "text_of d key = (case map_of d key of None \<Rightarrow> [] | Some v \<Rightarrow> py_str v)"

definition other_task :: "replay_options \<Rightarrow> dict \<Rightarrow> bool" where
  "other_task opt normalized \<longleftrightarrow> (case wanted_task opt of Some t \<Rightarrow> text_of normalized ''task_id'' \<noteq> t | None \<Rightarrow> False)"

definition adapt_output :: "history_reader \<Rightarrow> dict \<Rightarrow> dict res" where
  "adapt_output R normalized = (case hr_output_adapter R of None \<Rightarrow> Inr normalized | Some f \<Rightarrow> f normalized)"

fun collect_events ::
  "history_reader \<Rightarrow> (string \<Rightarrow> pyval res) \<Rightarrow> (string \<Rightarrow> ('w, unit) io) \<Rightarrow> replay_options \<Rightarrow> dict list \<Rightarrow> (string \<times> bool) list \<Rightarrow>
   ('w, dict list) io" where
  "collect_events R parse ack opt events [] = io_return events"
| "collect_events R parse ack opt events ((body, late) # messages) =
     (if late then io_return events
      else case parse body of
        Inl _ \<Rightarrow> io_bind (ack body) (\<lambda>_. collect_events R parse ack opt events messages)
      | Inr payload \<Rightarrow>
          io_bind (ack body) (\<lambda>_.
          io_bind (io_lift (as_dict payload)) (\<lambda>d.
            let normalized = normalize_contract_aliases d (hr_alias_config R) Payload True in
            if other_task opt normalized
            then collect_events R parse ack opt events messages
            else
              io_bind (io_lift (adapt_output R normalized)) (\<lambda>adapted.
                let status = lower (text_of adapted ''status'');
                    collected = events @ [public_output_aliases adapted (hr_alias_config R) Payload]
                in if (case ro_max_scan opt of Some n \<Rightarrow> n \<le> int (length collected) | None \<Rightarrow> False) then io_return collected
                   else if wanted_task opt \<noteq> None \<and> ro_stop_on_terminal opt \<and> status \<in> set (ro_terminal_statuses opt)
                   then io_return collected
                   else collect_events R parse ack opt collected messages))))"

definition replay_stream ::
  "history_reader \<Rightarrow> (string \<Rightarrow> pyval res) \<Rightarrow> (string \<Rightarrow> ('w, unit) io) \<Rightarrow> dict \<Rightarrow> bool \<Rightarrow> replay_options \<Rightarrow> (string \<times> bool) list \<Rightarrow>
   ('w, dict list) io" where
  "replay_stream R parse ack queue_args require_stream opt messages =
     (if require_stream \<and> map_of queue_args ''x-queue-type'' \<noteq> Some (PStr ''stream'')
      then io_raise (RuntimeError ''History replay requires a stream queue'')
      else collect_events R parse ack opt [] messages)"

text \<open>The events of the messages a replay may return, in the order of the stream.\<close>

fun replayable :: "history_reader \<Rightarrow> (string \<Rightarrow> pyval res) \<Rightarrow> replay_options \<Rightarrow> (string \<times> bool) list \<Rightarrow> dict list" where
  "replayable R parse opt [] = []"
| "replayable R parse opt ((body, late) # messages) =
     (case bind_res (parse body) as_dict of
        Inl _ \<Rightarrow> []
      | Inr d \<Rightarrow>
          (let normalized = normalize_contract_aliases d (hr_alias_config R) Payload True in
           if other_task opt normalized then []
           else case adapt_output R normalized of
             Inl _ \<Rightarrow> []
           | Inr adapted \<Rightarrow> [public_output_aliases adapted (hr_alias_config R) Payload])) @
     replayable R parse opt messages"

lemma collect_events_prefix:
  assumes "collect_events R parse ack opt events messages w = (Inr result, w')"
    and "\<forall>n. ro_max_scan opt = Some n \<longrightarrow> int (length events) < max 1 n"
  shows "\<exists>new. result = events @ new \<and> prefix new (replayable R parse opt messages) \<and>
    (\<forall>n. ro_max_scan opt = Some n \<longrightarrow> int (length result) \<le> max 1 n)"
  using assms
proof (induction messages arbitrary: events w)
  case Nil
  then show ?case by (fastforce simp: io_return_def)
next
  case (Cons m messages)
  obtain body late where m: "m = (body, late)" by (rule prod.exhaust)
  show ?case
  proof (cases late)
    case True
    then show ?thesis using Cons.prems by (force simp: m io_return_def)
  next
    case False
    show ?thesis
    proof (cases "parse body")
      case (Inl e)
      then obtain w1 where "collect_events R parse ack opt events messages w1 = (Inr result, w')"
        using Cons.prems(1) False by (auto simp: m io_bind_def split: prod.splits sum.splits)
      from Cons.IH[OF this Cons.prems(2)] show ?thesis using Inl by (simp add: m)
    next
      case (Inr payload)
      from Cons.prems(1) False Inr obtain d w1 where d: "as_dict payload = Inr d"
        and run: "(let normalized = normalize_contract_aliases d (hr_alias_config R) Payload True in
            if other_task opt normalized then collect_events R parse ack opt events messages
            else io_bind (io_lift (adapt_output R normalized)) (\<lambda>adapted.
                let status = lower (text_of adapted ''status'');
                    collected = events @ [public_output_aliases adapted (hr_alias_config R) Payload]
                in if (case ro_max_scan opt of Some n \<Rightarrow> n \<le> int (length collected) | None \<Rightarrow> False) then io_return collected
                   else if wanted_task opt \<noteq> None \<and> ro_stop_on_terminal opt \<and> status \<in> set (ro_terminal_statuses opt)
                   then io_return collected
                   else collect_events R parse ack opt collected messages)) w1 = (Inr result, w')"
        by (auto simp: m io_bind_def[of "ack body"] io_bind_def[of "io_lift (as_dict payload)"] io_lift_def[of "as_dict payload"]
            split: prod.splits sum.splits)
      define n where "n = normalize_contract_aliases d (hr_alias_config R) Payload True"
      show ?thesis
      proof (cases "other_task opt n")
        case True
        then have "collect_events R parse ack opt events messages w1 = (Inr result, w')"
          using run by (simp add: n_def Let_def)
        from Cons.IH[OF this Cons.prems(2)] show ?thesis using Inr d True by (simp add: m n_def Let_def)
      next
        case False
        then obtain a where a: "adapt_output R n = Inr a"
          using run by (cases "adapt_output R n") (auto simp: n_def Let_def io_bind_def io_lift_def)
        define c where "c = events @ [public_output_aliases a (hr_alias_config R) Payload]"
        have rest: "replayable R parse opt (m # messages) = public_output_aliases a (hr_alias_config R) Payload # replayable R parse opt messages"
          using Inr d False a by (simp add: m n_def Let_def)
        consider (finished) "result = c"
          | (on) "\<forall>k. ro_max_scan opt = Some k \<longrightarrow> int (length c) < k" "collect_events R parse ack opt c messages w1 = (Inr result, w')"
          using run False a by (auto simp: n_def[symmetric] Let_def io_bind_def io_lift_def io_return_def c_def not_le
              split: if_splits option.splits)
        then show ?thesis
        proof cases
          case finished
          have "\<forall>k. ro_max_scan opt = Some k \<longrightarrow> int (length result) \<le> max 1 k"
            using Cons.prems(2) by (force simp: finished c_def)
          then show ?thesis unfolding rest by (auto simp: finished c_def)
        next
          case on
          have "\<forall>k. ro_max_scan opt = Some k \<longrightarrow> int (length c) < max 1 k" using on(1) by auto
          from Cons.IH[OF on(2) this] show ?thesis unfolding rest by (auto simp: c_def)
        qed
      qed
    qed
  qed
qed

text \<open>
  A replay of the status stream returns, in the order of the stream, a gapless prefix of the
  public events of the task asked for (of all tasks, when none is), and never more than
  \<^verbatim>\<open>max_scan\<close> of them, though always room for one.
\<close>

theorem stream_replay_prefix:
  assumes "replay_stream R parse ack queue_args require_stream opt messages w = (Inr events, w')"
  shows "prefix events (replayable R parse opt messages) \<and>
    (\<forall>n. ro_max_scan opt = Some n \<longrightarrow> int (length events) \<le> max 1 n)"
proof -
  have "collect_events R parse ack opt [] messages w = (Inr events, w')"
    using assms by (auto simp: replay_stream_def io_raise_def split: if_splits)
  from collect_events_prefix[OF this] show ?thesis by (auto simp: max_def)
qed

subsection \<open>Instances\<close>

text \<open>A store whose payloads are their identifiers; the event \<^verbatim>\<open>c\<close> completes the task.\<close>

definition letter_event :: "string \<Rightarrow> dict" where
  "letter_event t = [(''event_id'', PStr t), (''status'', PStr (if t = ''c'' then ''completed'' else ''running''))]"

definition sample_stream :: "keyspace sse_stream" where
  "sample_stream =
     \<lparr>sm_store = \<lparr>ss_redis = mem_redis, ss_prefix = ''relayna'', ss_ttl_seconds = None, ss_history_maxlen = 50,
        ss_sha = (\<lambda>s. take 40 s), ss_loads = (\<lambda>t. if t = ''?'' then Inl (ValueError []) else Inr (PDict (letter_event t))),
        ss_service_event = None\<rparr>,
      sm_terminal_statuses = [''completed'', ''failed''], sm_output_adapter = Inr, sm_alias_config = None, sm_sink = True,
      sm_subscribe = (\<lambda>channel. io_return ()), sm_unsubscribe = (\<lambda>channel. io_return ()), sm_aclose = io_return ()\<rparr>"

definition letters_world :: keyspace where
  "letters_world = [history_key (sm_store sample_stream) ''t1'' \<mapsto> (ListV [''b'', ''a''], None)]"

definition letters_heard :: "pubsub_result list" where
  "letters_heard = [Inr (Some (''subscribe'', ''1'')), Inr (Some (''message'', ''b'')), Inr None,
     Inr (Some (''message'', ''?'')), Inr (Some (''message'', ''c'')), Inr (Some (''message'', ''d''))]"

definition letters_run :: "pyval res \<times> keyspace streaming" where
  "letters_run = stream sample_stream 0 ''t1'' (Some ''a'') letters_heard (letters_world, [])"

theorem stream_delivers_each_event_once_witness:
  "events_of (snd (snd letters_run)) = map letter_event [''b'', ''c'']"
proof -
  let ?es = "map letter_event [''a'', ''b'', ''c'', ''d'']"
  let ?pub = "\<lambda>e :: dict. e" and ?ident = "\<lambda>e. case sse_event_id e of Some i \<Rightarrow> i | None \<Rightarrow> []"
    and ?ends = "\<lambda>e. map_of e ''status'' = Some (PStr ''completed'')"
  let ?hist = "get_history (sm_store sample_stream) 0 ''t1'' None letters_world"
  have 1: "\<forall>e \<in> set ?es. publishable sample_stream ?pub ?ident ?ends e" by code_simp
  have 2: "distinct (map ?ident ?es)" by code_simp
  have 3: "sm_subscribe sample_stream (channel_name (sm_store sample_stream) ''t1'') letters_world = (Inr (), letters_world)"
    by (simp add: sample_stream_def io_return_def)
  have "fst ?hist = Inr (rev (map PDict (drop 0 (take 2 ?es))))" by code_simp
  then have 4: "?hist = (Inr (rev (map PDict (drop 0 (take 2 ?es)))), snd ?hist)" by (metis prod.collapse)
  have 5: "undisturbed sample_stream letters_heard" by code_simp
  have 6: "heard sample_stream letters_heard = drop 1 ?es" by code_simp
  have 7: "1 = 0 + replay_start (Some ''a'') (drop 0 (take 2 ?es))" by code_simp
  have 8: "stream sample_stream 0 ''t1'' (Some ''a'') letters_heard (letters_world, []) =
      (fst letters_run, (fst (snd letters_run), snd (snd letters_run)))" by (simp add: letters_run_def)
  have "events_of (snd (snd letters_run)) = map ?pub (through_first ?ends (drop 1 ?es))"
    by (rule conjunct1, rule stream_delivers_each_event_once[OF 1 2 3 4 5 6 7 _ _ 8]) simp_all
  also have "\<dots> = map letter_event [''b'', ''c'']" by (simp add: letter_event_def)
  finally show ?thesis .
qed

theorem sse_frame_read_back_witness:
  "client_reads (sse_event (letter_event ''a'') ''status'') ''id'' = Some ''a''"
proof -
  have i: "sse_event_id (letter_event ''a'') = Some ''a''" by code_simp
  show ?thesis using sse_frame_read_back[of "letter_event ''a''" "''status''"] by (simp add: i)
qed

definition plain_reader :: history_reader where
  "plain_reader = \<lparr>hr_output_adapter = None, hr_alias_config = None\<rparr>"

definition first_two :: replay_options where
  "first_two = \<lparr>ro_task_id = None, ro_terminal_statuses = [''completed''], ro_stop_on_terminal = True, ro_max_scan = Some 2\<rparr>"

theorem stream_replay_prefix_witness:
  "\<exists>events. replay_stream plain_reader (\<lambda>t. Inr (PDict (letter_event t))) (\<lambda>b. io_return ())
       [(''x-queue-type'', PStr ''stream'')] True first_two (map (\<lambda>t. (t, False)) [''a'', ''b'', ''c'']) () = (Inr events, ()) \<and>
     length events = 2 \<and>
     prefix events (replayable plain_reader (\<lambda>t. Inr (PDict (letter_event t))) first_two (map (\<lambda>t. (t, False)) [''a'', ''b'', ''c'']))"
proof -
  let ?r = "replay_stream plain_reader (\<lambda>t. Inr (PDict (letter_event t))) (\<lambda>b. io_return ())
       [(''x-queue-type'', PStr ''stream'')] True first_two (map (\<lambda>t. (t, False)) [''a'', ''b'', ''c'']) ()"
  have "(case fst ?r of Inr events \<Rightarrow> length events = 2 | Inl _ \<Rightarrow> False)" by code_simp
  then obtain events where r: "?r = (Inr events, ())" "length events = 2"
    by (cases "fst ?r") (auto simp: prod_eq_iff)
  then show ?thesis using stream_replay_prefix[OF r(1)] by blast
qed

end
