(* ===== verification/Event_Feed.thy ===== *)
theory Event_Feed
  imports Status_Store
begin

text \<open>
  \<^verbatim>\<open>observability/feed.py\<close>: the service event feed in Redis, which Lua scripts write and page
  through, and the forwarder that batches observations to Studio.  A script is its effect on the
  keyspace; running it is an argument of the store (\<open>ef_eval\<close>), with the locale \<open>script_server\<close> as
  what the server promises: scripts are atomic.  Pydantic's JSON of an event, the digest and
  \<^verbatim>\<open>event_to_dict\<close> are arguments too.
\<close>

subsection \<open>Events\<close>

datatype source_kind = Status_source | Observation_source

record service_event =
  sv_cursor :: string
  sv_task_id :: string
  sv_event_type :: string
  sv_source_kind :: source_kind
  sv_component :: "string option"
  sv_timestamp :: "string option"
  sv_event_id :: "string option"
  sv_correlation_id :: "string option"
  sv_parent_task_id :: "string option"
  sv_payload :: dict

definition normalize_string :: "pyval \<Rightarrow> string option" where
  "normalize_string value =
     (if value = PNone then None
      else let normalized = strip (py_str value) in if normalized \<noteq> [] then Some normalized else None)"

definition canonical_hash :: "(string \<Rightarrow> string) \<Rightarrow> dict \<Rightarrow> string" where
  "canonical_hash sha payload = sha (json_dumps canonical_json (PDict payload))"

definition normalize_status_feed_event :: "(string \<Rightarrow> string) \<Rightarrow> dict \<Rightarrow> service_event option" where
  "normalize_status_feed_event sha event =
     (case normalize_string (dict_get event ''task_id'') of
        None \<Rightarrow> None
      | Some task_id \<Rightarrow>
          (let status = (case normalize_string (dict_get event ''status'') of Some s \<Rightarrow> s | None \<Rightarrow> ''unknown'');
               event_id = normalize_string (dict_get event ''event_id'')
           in Some
             \<lparr>sv_cursor = (case event_id of Some i \<Rightarrow> i | None \<Rightarrow> canonical_hash sha
                [(''source_kind'', PStr ''status''), (''task_id'', PStr task_id), (''event_id'', PNone), (''payload'', PDict event)]),
              sv_task_id = task_id, sv_event_type = ''status.'' @ lower status, sv_source_kind = Status_source,
              sv_component = Some ''status'', sv_timestamp = normalize_string (dict_get event ''timestamp''),
              sv_event_id = event_id, sv_correlation_id = normalize_string (dict_get event ''correlation_id''),
              sv_parent_task_id = (case dict_get event ''meta'' of
                 PDict meta \<Rightarrow> normalize_string (dict_get meta ''parent_task_id'') | _ \<Rightarrow> None),
              sv_payload = event\<rparr>))"

text \<open>An observation is its class name and what \<^verbatim>\<open>event_to_dict\<close> makes of it, None when that raises.\<close>

definition normalize_observation_feed_event ::
  "(string \<Rightarrow> string) \<Rightarrow> string \<times> dict option \<Rightarrow> service_event option" where
  "normalize_observation_feed_event sha event =
     (case event of (type_name, converted) \<Rightarrow>
        (case converted of
           None \<Rightarrow> None
         | Some payload \<Rightarrow>
             (case normalize_string (dict_get payload ''task_id'') of
                None \<Rightarrow> None
              | Some task_id \<Rightarrow>
                  (let event_id = normalize_string (dict_get payload ''event_id'') in Some
                   \<lparr>sv_cursor = (case event_id of Some i \<Rightarrow> i | None \<Rightarrow> canonical_hash sha
                      [(''source_kind'', PStr ''observation''), (''event_type'', PStr type_name), (''payload'', PDict payload)]),
                    sv_task_id = task_id, sv_event_type = type_name, sv_source_kind = Observation_source,
                    sv_component = normalize_string (dict_get payload ''component''),
                    sv_timestamp = normalize_string (dict_get payload ''timestamp''), sv_event_id = event_id,
                    sv_correlation_id = normalize_string (dict_get payload ''correlation_id''),
                    sv_parent_task_id = normalize_string (dict_get payload ''parent_task_id''), sv_payload = payload\<rparr>))))"

subsection \<open>The scripts\<close>

datatype script_value = ScriptInt int | ScriptText string

text \<open>A text is an integer when it is the decimal form of one of 64 bits.\<close>

definition redis_int :: "string \<Rightarrow> int option" where
  "redis_int s =
     (let n = (if take 1 s = ''-'' then - int (digits_value (drop 1 s)) else int (digits_value s))
      in if int_str n = s \<and> - (2 ^ 63) \<le> n \<and> n < 2 ^ 63 then Some n else None)"

definition db_incr :: "int \<Rightarrow> string \<Rightarrow> (keyspace, int) io" where
  "db_incr now k d =
     (case (case live now d k of None \<Rightarrow> Inr (0, None)
        | Some (StrV s, t) \<Rightarrow>
            (case redis_int s of Some n \<Rightarrow> Inr (n, t) | None \<Rightarrow> Inl (ExternalError ''value is not an integer or out of range''))
        | _ \<Rightarrow> wrong_type) of
        Inl e \<Rightarrow> (Inl e, d)
      | Inr (n, t) \<Rightarrow>
          if n + 1 < 2 ^ 63 then (Inr (n + 1), d(k \<mapsto> (StrV (int_str (n + 1)), t)))
          else (Inl (ExternalError ''increment or decrement would overflow''), d))"

text \<open>The members of a sorted set in ascending order, and the removal of the first of them.\<close>

definition db_zrange :: "int \<Rightarrow> string \<Rightarrow> (keyspace, (string \<times> int) list) io" where
  "db_zrange now k d = (bind_res (with_zset now d k) (\<lambda>(xs, _). Inr (by_score xs)), d)"

definition db_zremrangebyrank :: "int \<Rightarrow> string \<Rightarrow> nat \<Rightarrow> (keyspace, unit) io" where
  "db_zremrangebyrank now k n d =
     (case with_zset now d k of
        Inl e \<Rightarrow> (Inl e, d)
      | Inr (xs, t) \<Rightarrow> (Inr (), put_zset k (drop n (by_score xs)) t d))"

definition db_hget :: "int \<Rightarrow> string \<Rightarrow> string \<Rightarrow> (keyspace, string option) io" where
  "db_hget now k f d = (bind_res (with_hash now d k) (\<lambda>(xs, _). Inr (map_of xs f)), d)"

fun db_hdel_all :: "int \<Rightarrow> string \<Rightarrow> string list \<Rightarrow> (keyspace, unit) io" where
  "db_hdel_all now k [] = io_return ()"
| "db_hdel_all now k (f # fs) = io_bind (db_exec now (HDEL k f)) (\<lambda>_. db_hdel_all now k fs)"

record feed_keys =
  fk_event :: string
  fk_sequence :: string
  fk_index :: string
  fk_payloads :: string

text \<open>
  \<^verbatim>\<open>_STORE_SERVICE_EVENT_SCRIPT\<close>.  The numbers of Lua and the scores of a sorted set are doubles, here exact
  integers: they agree for the first 9007199254740992 events of a feed.
\<close>

definition store_script :: "int \<Rightarrow> feed_keys \<Rightarrow> string \<Rightarrow> string \<Rightarrow> int \<Rightarrow> int \<Rightarrow> (keyspace, script_value list) io" where
  "store_script now keys payload cursor maxlen ttl_seconds =
     io_bind (db_exec now (SET (fk_event keys) ''1'' (if ttl_seconds \<noteq> 0 then Some ttl_seconds else None) True)) (\<lambda>set_result.
     if \<not> reply_true set_result then io_return [ScriptInt 0]
     else
       io_bind (db_incr now (fk_sequence keys)) (\<lambda>sequence.
       io_bind (db_exec now (ZADD (fk_index keys) cursor sequence)) (\<lambda>_.
       io_bind (db_exec now (HSET (fk_payloads keys) cursor payload)) (\<lambda>_.
       io_bind (db_zrange now (fk_index keys)) (\<lambda>members.
       let excess = int (length members) - maxlen in
       io_bind (if 0 < excess
         then io_bind (db_hdel_all now (fk_payloads keys) (map fst (take (nat excess) members))) (\<lambda>_.
              db_zremrangebyrank now (fk_index keys) (nat excess))
         else io_return ()) (\<lambda>_.
       io_bind (if ttl_seconds \<noteq> 0
         then io_bind (db_exec now (EXPIRE (fk_sequence keys) ttl_seconds)) (\<lambda>_.
              io_bind (db_exec now (EXPIRE (fk_index keys) ttl_seconds)) (\<lambda>_.
              io_bind (db_exec now (EXPIRE (fk_payloads keys) ttl_seconds)) (\<lambda>_. io_return ())))
         else io_return ()) (\<lambda>_. io_return [ScriptInt 1])))))))"

fun gather_payloads :: "int \<Rightarrow> string \<Rightarrow> string list \<Rightarrow> script_value list \<Rightarrow> (keyspace, script_value list) io" where
  "gather_payloads now k [] result = io_return result"
| "gather_payloads now k (cursor # cursors) result =
     io_bind (db_hget now k cursor) (\<lambda>payload.
     case payload of
       None \<Rightarrow> io_return [ScriptInt 0, ScriptText cursor]
     | Some p \<Rightarrow> gather_payloads now k cursors (result @ [ScriptText cursor, ScriptText p]))"

text \<open>The cursors after the given one, newest first; a cursor the index does not have starts anew.\<close>

definition page_cursors :: "string \<Rightarrow> (string \<times> int) list \<Rightarrow> string list" where
  "page_cursors after members =
     (case (if after = [] then None else map_of members after) of
        None \<Rightarrow> map fst (rev members)
      | Some score \<Rightarrow> map fst (filter (\<lambda>(m, s). s < score) (rev members)))"

text \<open>\<^verbatim>\<open>_READ_SERVICE_EVENT_PAGE_SCRIPT\<close>\<close>

definition read_script :: "int \<Rightarrow> string \<Rightarrow> string \<Rightarrow> string \<Rightarrow> int \<Rightarrow> (keyspace, script_value list) io" where
  "read_script now index_key payloads_key after page_size =
     io_bind (db_zrange now index_key) (\<lambda>members.
     gather_payloads now payloads_key (take (nat (page_size + 1)) (page_cursors after members)) [ScriptInt 1])"

subsection \<open>The store\<close>

record 'r event_feed =
  ef_prefix :: string
  ef_ttl_seconds :: "int option"
  ef_feed_maxlen :: int
  ef_sha :: "string \<Rightarrow> string"
  ef_eval :: "(keyspace, script_value list) io \<Rightarrow> ('r, script_value list) io"
  ef_dump :: "service_event \<Rightarrow> string"
  ef_load :: "string \<Rightarrow> service_event res"

definition feed_key :: "'r event_feed \<Rightarrow> string" where
  "feed_key F = redis_key (ef_sha F) (ef_prefix F) ''service-event-feed'' [''feed'', ''index'']"

definition feed_payloads_key :: "'r event_feed \<Rightarrow> string" where
  "feed_payloads_key F = redis_key (ef_sha F) (ef_prefix F) ''service-event-feed'' [''feed'', ''payloads'']"

definition feed_sequence_key :: "'r event_feed \<Rightarrow> string" where
  "feed_sequence_key F = redis_key (ef_sha F) (ef_prefix F) ''service-event-feed'' [''feed'', ''sequence'']"

definition feed_event_key :: "'r event_feed \<Rightarrow> string \<Rightarrow> string" where
  "feed_event_key F cursor = redis_key (ef_sha F) (ef_prefix F) ''service-event-feed'' [''event'', cursor]"

definition keys_for :: "'r event_feed \<Rightarrow> string \<Rightarrow> feed_keys" where
  "keys_for F cursor =
     \<lparr>fk_event = feed_event_key F cursor, fk_sequence = feed_sequence_key F, fk_index = feed_key F,
      fk_payloads = feed_payloads_key F\<rparr>"

definition ttl_argument :: "'r event_feed \<Rightarrow> int" where
  "ttl_argument F = (case ef_ttl_seconds F of Some n \<Rightarrow> n | None \<Rightarrow> 0)"

definition store_event :: "'r event_feed \<Rightarrow> int \<Rightarrow> service_event \<Rightarrow> ('r, bool) io" where
  "store_event F now event =
     io_bind (ef_eval F (store_script now (keys_for F (sv_cursor event)) (ef_dump F event) (sv_cursor event)
       (ef_feed_maxlen F) (ttl_argument F))) (\<lambda>stored. io_return (stored \<noteq> [ScriptInt 0]))"

definition add_status_event :: "'r event_feed \<Rightarrow> int \<Rightarrow> dict \<Rightarrow> ('r, bool) io" where
  "add_status_event F now event =
     (case normalize_status_feed_event (ef_sha F) event of None \<Rightarrow> io_return False | Some e \<Rightarrow> store_event F now e)"

definition add_observation_event :: "'r event_feed \<Rightarrow> int \<Rightarrow> string \<times> dict option \<Rightarrow> ('r, bool) io" where
  "add_observation_event F now event =
     (case normalize_observation_feed_event (ef_sha F) event of None \<Rightarrow> io_return False | Some e \<Rightarrow> store_event F now e)"

fun parse_pairs :: "'r event_feed \<Rightarrow> script_value list \<Rightarrow> service_event list res" where
  "parse_pairs F [] = Inr []"
| "parse_pairs F [v] = Inl (RuntimeError ''Service event feed returned an incomplete cursor/payload pair.'')"
| "parse_pairs F (ScriptText cursor # ScriptText payload # rest) =
     bind_res (ef_load F payload) (\<lambda>item.
       if sv_cursor item \<noteq> cursor
       then Inl (RuntimeError (''Service event feed payload cursor mismatch for '' @ quoted cursor @ ''.''))
       else bind_res (parse_pairs F rest) (\<lambda>items. Inr (item # items)))"
| "parse_pairs F (_ # _ # rest) = Inl (RuntimeError ''Service event feed returned an invalid cursor/payload value.'')"

text \<open>The number of values is checked before the first pair is read.\<close>

definition parse_page :: "'r event_feed \<Rightarrow> script_value list \<Rightarrow> service_event list res" where
  "parse_page F raw_page =
     (case raw_page of
        [] \<Rightarrow> Inl (RuntimeError ''Service event feed returned an empty script response.'')
      | v # values \<Rightarrow>
          if v \<noteq> ScriptInt 1
          then Inl (RuntimeError (''Service event feed payload is missing for cursor '' @
            quoted (case values of ScriptText c # _ \<Rightarrow> c | ScriptInt i # _ \<Rightarrow> int_str i | [] \<Rightarrow> ''unknown'') @ ''.''))
          else if odd (length values)
          then Inl (RuntimeError ''Service event feed returned an incomplete cursor/payload pair.'')
          else parse_pairs F values)"

record feed_response =
  fr_count :: int
  fr_items :: "service_event list"
  fr_next_cursor :: "string option"

definition get_feed :: "'r event_feed \<Rightarrow> int \<Rightarrow> string option \<Rightarrow> int \<Rightarrow> ('r, feed_response) io" where
  "get_feed F now after limit =
     (let page_size = max 1 limit in
      io_bind (ef_eval F (read_script now (feed_key F) (feed_payloads_key F) (case after of Some a \<Rightarrow> a | None \<Rightarrow> []) page_size)) (\<lambda>raw.
      io_bind (io_lift (parse_page F raw)) (\<lambda>candidates.
        let page = take (nat page_size) candidates in
        io_return \<lparr>fr_count = int (length page), fr_items = page,
          fr_next_cursor = (if page_size < int (length candidates) \<and> page \<noteq> [] then Some (sv_cursor (last page)) else None)\<rparr>)))"

subsection \<open>Sorted members\<close>

text \<open>A sorted set with distinct scores: its ascending order is strict.\<close>

definition ranked :: "(string \<times> int) list \<Rightarrow> bool" where
  "ranked ms \<longleftrightarrow> distinct (map fst ms) \<and> distinct (map snd ms)"

lemma set_by_score [simp]: "set (by_score ms) = set ms"
  by (simp add: by_score_def)

lemma length_by_score [simp]: "length (by_score ms) = length ms"
  by (simp add: by_score_def)

lemma mset_by_score [simp]: "mset (by_score ms) = mset ms"
  by (simp add: by_score_def)

lemma ranked_mset: "mset xs = mset ys \<Longrightarrow> ranked xs \<longleftrightarrow> ranked ys"
  unfolding ranked_def by (metis mset_eq_imp_distinct_iff mset_map)

lemma sorted_by_score: "sorted (map snd (by_score ms))"
  by (simp add: by_score_def)

lemma by_score_unique:
  assumes "mset xs = mset ms" and "sorted (map snd xs)" and "distinct (map snd ms)"
  shows "by_score ms = xs"
proof (rule map_sorted_distinct_set_unique[where f = snd])
  have s: "set xs = set ms" using assms(1) by (rule mset_eq_setD)
  show "inj_on snd (set (by_score ms) \<union> set xs)" using assms(3) s by (simp add: distinct_map)
  have "distinct (map snd (by_score ms))" using assms(3) mset_eq_imp_distinct_iff[of "map snd (by_score ms)" "map snd ms"] by simp
  moreover have "distinct (map snd xs)" using assms(1,3) mset_eq_imp_distinct_iff[of "map snd xs" "map snd ms"] by simp
  ultimately show "sorted (map snd (by_score ms))" "distinct (map snd (by_score ms))" "sorted (map snd xs)" "distinct (map snd xs)"
    using assms(2) sorted_by_score by auto
  show "set (by_score ms) = set xs" by (simp add: s)
qed

lemma mset_update:
  assumes "distinct (map fst ms)"
  shows "mset (AList.update c n ms) = mset (filter (\<lambda>(m, s). m \<noteq> c) ms @ [(c, n)])"
  using assms
proof (induction ms)
  case (Cons x ms)
  obtain m s where x: "x = (m, s)" by (rule prod.exhaust)
  show ?case
  proof (cases "m = c")
    case True
    then have "filter (\<lambda>(m, s). m \<noteq> c) ms = ms" using Cons.prems x by (force simp: filter_id_conv)
    then show ?thesis using True by (simp add: x)
  qed (use Cons in \<open>simp add: x\<close>)
qed simp

text \<open>Adding a member with a score above all others puts it last.\<close>

lemma by_score_update:
  assumes "ranked ms" and "\<forall>(m, s) \<in> set ms. s < n"
  shows "by_score (AList.update c n ms) = filter (\<lambda>(m, s). m \<noteq> c) (by_score ms) @ [(c, n)]"
    and "ranked (AList.update c n ms)"
proof -
  let ?xs = "filter (\<lambda>(m, s). m \<noteq> c) (by_score ms) @ [(c, n)]"
  have m: "mset ?xs = mset (AList.update c n ms)"
    using assms(1) by (simp add: mset_update ranked_def mset_filter)
  have r: "ranked ?xs"
  proof -
    have "ranked (by_score ms)" using assms(1) ranked_mset[of "by_score ms" ms] by simp
    then show ?thesis using assms(2) unfolding ranked_def by (force simp: distinct_map inj_on_def)
  qed
  then show "ranked (AList.update c n ms)" using ranked_mset[OF m] by blast
  have "sorted (map snd ?xs)"
    using sorted_by_score[of ms] assms(2) by (auto simp: sorted_append sorted_map intro: sorted_wrt_filter less_imp_le)
  with m \<open>ranked (AList.update c n ms)\<close> show "by_score (AList.update c n ms) = ?xs"
    by (intro by_score_unique) (auto simp: ranked_def)
qed

lemma by_score_drop:
  assumes "ranked ms"
  shows "by_score (drop k (by_score ms)) = drop k (by_score ms)" and "ranked (drop k (by_score ms))"
proof -
  have "ranked (by_score ms)" using assms ranked_mset[of "by_score ms" ms] by simp
  then show r: "ranked (drop k (by_score ms))"
    unfolding ranked_def by (metis distinct_drop drop_map)
  show "by_score (drop k (by_score ms)) = drop k (by_score ms)"
  proof (rule by_score_unique)
    have "sorted (drop k (map snd (by_score ms)))" by (intro sorted_wrt_drop sorted_by_score)
    then show "sorted (map snd (drop k (by_score ms)))" by (simp add: drop_map)
  qed (use r in \<open>auto simp: ranked_def\<close>)
qed

subsection \<open>Storing an event\<close>

lemma redis_int_int_str: "- (2 ^ 63) \<le> n \<Longrightarrow> n < 2 ^ 63 \<Longrightarrow> redis_int (int_str n) = Some n"
proof (cases "n < 0")
  case False
  have "take 1 (nat_str (nat n)) \<noteq> ''-''"
    using nat_str_no_minus[of "nat n"] nat_str_neq_Nil[of "nat n"] by (cases "nat_str (nat n)") auto
  then show "- (2 ^ 63) \<le> n \<Longrightarrow> n < 2 ^ 63 \<Longrightarrow> redis_int (int_str n) = Some n"
    using False by (simp add: redis_int_def int_str_def)
qed (simp add: redis_int_def int_str_def)

lemma redis_int_Some: "redis_int s = Some n \<Longrightarrow> s = int_str n \<and> - (2 ^ 63) \<le> n \<and> n < 2 ^ 63"
  by (auto simp: redis_int_def Let_def split: if_splits)

text \<open>Deleting fields one after the other.\<close>

lemma db_hdel_all_run:
  assumes "d k = (if hs = [] then None else Some (HashV hs, t))" and "\<forall>b. t = Some b \<longrightarrow> now \<le> b"
  shows "db_hdel_all now k fs d = (Inr (), put_hash k (fold AList.delete fs hs) t d)"
  using assms(1)
proof (induction fs arbitrary: hs d)
  case Nil
  then show ?case by (auto simp: io_return_def put_hash_def fun_eq_iff)
next
  case (Cons f fs)
  let ?d = "put_hash k (AList.delete f hs) t d"
  have "with_hash now d k = Inr (hs, if hs = [] then None else t)"
    using Cons.prems assms(2) by (auto simp: with_hash_def live_def split: option.splits)
  then have "db_exec now (HDEL k f) d = (Inr (bool_reply (dict_has hs f)), ?d)"
    by (auto simp: reply_or_def put_hash_def)
  moreover have "?d k = (if AList.delete f hs = [] then None else Some (HashV (AList.delete f hs), t))"
    by (simp add: put_hash_def)
  then have "db_hdel_all now k fs ?d = (Inr (), put_hash k (fold AList.delete fs (AList.delete f hs)) t ?d)" by (rule Cons.IH)
  then have "db_hdel_all now k fs ?d = (Inr (), put_hash k (fold AList.delete (f # fs) hs) t d)" by (simp add: put_hash_def)
  ultimately show ?case by (simp add: io_bind_def)
qed

lemma update_neq_Nil [simp]: "AList.update c n ms \<noteq> []"
  by (cases ms) (auto split: if_splits)

lemma io_bind_step: "m s = (Inr x, t) \<Longrightarrow> f x t = r \<Longrightarrow> io_bind m f s = r"
  by (simp add: io_bind_def)

lemma reply_one: "reply_true (IntR 1) = True"
  by (simp add: reply_true_def)

lemma db_incr_Inr:
  assumes "db_incr now k d = (Inr n, d')"
  shows "\<exists>t. d' = d(k \<mapsto> (StrV (int_str n), t)) \<and> n < 2 ^ 63 \<and>
    (\<forall>s u. live now d k = Some (StrV s, u) \<longrightarrow> s = int_str (n - 1) \<and> t = u) \<and>
    (live now d k = None \<longrightarrow> t = None) \<and> (\<forall>b. t = Some b \<longrightarrow> now \<le> b) \<and> (live now d k = None \<or> (\<exists>s u. live now d k = Some (StrV s, u)))"
  using assms redis_int_Some live_Some[of now d k]
  by (auto simp: db_incr_def wrong_type_def split: option.splits redis_value.splits prod.splits sum.splits if_splits)

text \<open>
  The keys of the index and the payloads after a new event was stored: the member is added, the
  oldest beyond the limit are evicted from both, and all keys get the same lifetime.
\<close>

lemma expire_run:
  assumes "d k = (if v = None then None else Some (the v, t))" and "\<forall>b. t = Some b \<longrightarrow> now \<le> b" and "0 < ttl"
  shows "\<exists>x. db_exec now (EXPIRE k ttl) d = (Inr x, d(k := map_option (\<lambda>v. (v, Some (now + seconds ttl))) v))"
  using assms by (cases v) (auto simp: live_def fun_eq_iff split: option.splits)

definition stored_as ::
  "int \<Rightarrow> feed_keys \<Rightarrow> string \<Rightarrow> string \<Rightarrow> int \<Rightarrow> int \<Rightarrow> (string \<times> int) list \<Rightarrow> (string \<times> string) list \<Rightarrow> int option \<Rightarrow>
   int \<Rightarrow> int option \<Rightarrow> keyspace \<Rightarrow> bool" where
  "stored_as now keys c p maxlen ttl ms hs t n ts d' \<longleftrightarrow>
     (let k = nat (int (length (AList.update c n ms)) - maxlen);
          ms' = (if 0 < k then drop k (by_score (AList.update c n ms)) else AList.update c n ms);
          hs' = fold AList.delete (map fst (take k (by_score (AList.update c n ms)))) (AList.update c p hs);
          T = (\<lambda>x. if ttl \<noteq> 0 then Some (now + seconds ttl) else x)
      in d' (fk_index keys) = (if ms' = [] then None else Some (ZSetV ms', T t)) \<and>
         d' (fk_payloads keys) = (if hs' = [] then None else Some (HashV hs', T t)) \<and>
         d' (fk_sequence keys) = Some (StrV (int_str n), T ts))"

text \<open>The script stops at the marker of the event or at the sequence, or runs to its end.\<close>

definition marked :: "int \<Rightarrow> feed_keys \<Rightarrow> int \<Rightarrow> keyspace \<Rightarrow> keyspace" where
  "marked now keys ttl d = d(fk_event keys \<mapsto> (StrV ''1'', if ttl \<noteq> 0 then Some (now + seconds ttl) else None))"

lemma store_script_stop:
  assumes "store_script now keys p c maxlen ttl d = (x, d')"
  obtains "x = Inr [ScriptInt 0]" "d' = d" "live now d (fk_event keys) \<noteq> None"
  | "isl x" "d' = d \<or> d' = marked now keys ttl d"
  | n d1 where "ttl \<noteq> 0 \<Longrightarrow> 0 < ttl" "live now d (fk_event keys) = None" "db_incr now (fk_sequence keys) (marked now keys ttl d) = (Inr n, d1)"
proof (cases "ttl \<noteq> 0 \<and> ttl \<le> 0")
  case True
  then have "isl x" "d' = d" using assms by (auto simp: store_script_def io_bind_def)
  then show thesis using that(2) by blast
next
  case pos: False
  show thesis
  proof (cases "live now d (fk_event keys) = None")
    case True
    then have set: "db_exec now (SET (fk_event keys) ''1'' (if ttl \<noteq> 0 then Some ttl else None) True) d = (Inr (IntR 1), marked now keys ttl d)"
      using pos by (auto simp: marked_def)
    obtain y d1 where incr: "db_incr now (fk_sequence keys) (marked now keys ttl d) = (y, d1)" by (rule prod.exhaust)
    show thesis
    proof (cases y)
      case (Inl e)
      then have "d1 = marked now keys ttl d" using incr by (auto simp: db_incr_def split: sum.splits if_splits)
      moreover have "(x, d') = (Inl e, d1)"
        using assms set incr Inl by (simp add: store_script_def io_bind_def reply_one del: db_exec.simps)
      ultimately show thesis using that(2) by simp
    qed (use that(3) True pos incr in auto)
  next
    case False
    then have "x = Inr [ScriptInt 0]" "d' = d"
      using assms pos by (auto simp: store_script_def io_bind_def io_return_def reply_true_def)
    then show thesis using that(1) False by blast
  qed
qed

lemma store_script_run:
  assumes keys: "distinct [fk_event keys, fk_sequence keys, fk_index keys, fk_payloads keys]"
    and idx: "live now d (fk_index keys) = (if ms = [] then None else Some (ZSetV ms, t))"
    and pay: "live now d (fk_payloads keys) = (if hs = [] then None else Some (HashV hs, t))"
    and empty: "ms = [] \<longleftrightarrow> hs = []" "ms = [] \<Longrightarrow> t = None"
    and pos: "ttl \<noteq> 0 \<Longrightarrow> 0 < ttl" and free: "live now d (fk_event keys) = None"
    and incr: "db_incr now (fk_sequence keys) (marked now keys ttl d) = (Inr n, d1)"
  shows "\<exists>d' ts. store_script now keys p c maxlen ttl d = (Inr [ScriptInt 1], d') \<and>
     (live now d (fk_sequence keys) = None \<longrightarrow> ts = None) \<and>
     (\<forall>v u. live now d (fk_sequence keys) = Some (v, u) \<longrightarrow> v = StrV (int_str (n - 1)) \<and> ts = u) \<and>
     stored_as now keys c p maxlen ttl ms hs t n ts d'"
proof -
  let ?ev = "fk_event keys" and ?seq = "fk_sequence keys" and ?idx = "fk_index keys" and ?pay = "fk_payloads keys"
  let ?T = "\<lambda>x. if ttl \<noteq> 0 then Some (now + seconds ttl) else x"
  define d0 where "d0 = marked now keys ttl d"
  note d0_def = d0_def[unfolded marked_def]
  have alive: "\<forall>b. t = Some b \<longrightarrow> now \<le> b" using idx empty(2) live_Some by (metis option.distinct(1))
  have set: "db_exec now (SET ?ev ''1'' (if ttl \<noteq> 0 then Some ttl else None) True) d = (Inr (IntR 1), d0)"
    using pos free by (auto simp: d0_def)
  have incr: "db_incr now ?seq d0 = (Inr n, d1)" using incr by (simp add: d0_def marked_def)
  obtain ts where d1: "d1 = d0(?seq \<mapsto> (StrV (int_str n), ts))" and ts: "\<forall>b. ts = Some b \<longrightarrow> now \<le> b"
    and s0: "live now d0 ?seq = None \<longrightarrow> ts = None"
    "\<forall>v u. live now d0 ?seq = Some (v, u) \<longrightarrow> v = StrV (int_str (n - 1)) \<and> ts = u"
    using db_incr_Inr[OF incr] by auto
  have seq: "live now d0 ?seq = live now d ?seq" using keys by (intro live_frame) (auto simp: d0_def)
  define ms1 hs1 where "ms1 = AList.update c n ms" and "hs1 = AList.update c p hs"
  define d2 where "d2 = d1(?idx \<mapsto> (ZSetV ms1, t))"
  define d3 where "d3 = d2(?pay \<mapsto> (HashV hs1, t))"
  have "with_zset now d1 ?idx = Inr (ms, t)"
    using idx empty(2) keys by (auto simp: with_zset_def d1 d0_def live_def split: option.splits if_splits)
  then obtain x1 where zadd: "db_exec now (ZADD ?idx c n) d1 = (Inr x1, d2)"
    by (simp add: reply_or_def put_zset_def d2_def ms1_def)
  have "with_hash now d2 ?pay = Inr (hs, t)"
    using pay empty keys by (auto simp: with_hash_def d2_def d1 d0_def live_def split: option.splits if_splits)
  then obtain x2 where hset: "db_exec now (HSET ?pay c p) d2 = (Inr x2, d3)"
    by (simp add: reply_or_def put_hash_def d3_def hs1_def)
  have z3: "with_zset now d3 ?idx = Inr (ms1, t)"
    using keys alive by (auto simp: with_zset_def d3_def d2_def live_def split: option.splits)
  then have zr: "db_zrange now ?idx d3 = (Inr (by_score ms1), d3)" by (simp add: db_zrange_def)
  define k where "k = nat (int (length ms1) - maxlen)"
  define ms2 where "ms2 = (if 0 < k then drop k (by_score ms1) else ms1)"
  define hs2 where "hs2 = fold AList.delete (map fst (take k (by_score ms1))) hs1"
  define d4 where "d4 = put_zset ?idx ms2 t (put_hash ?pay hs2 t d3)"
  have evict: "(if 0 < int (length (by_score ms1)) - maxlen
         then io_bind (db_hdel_all now ?pay (map fst (take (nat (int (length (by_score ms1)) - maxlen)) (by_score ms1)))) (\<lambda>_.
              db_zremrangebyrank now ?idx (nat (int (length (by_score ms1)) - maxlen)))
         else io_return ()) d3 = (Inr (), d4)"
  proof (cases "0 < k")
    case True
    have "d3 ?pay = (if hs1 = [] then None else Some (HashV hs1, t))" by (simp add: d3_def hs1_def)
    from db_hdel_all_run[of d3 ?pay hs1 t now, OF this alive] have "db_hdel_all now ?pay (map fst (take k (by_score ms1))) d3 = (Inr (), put_hash ?pay hs2 t d3)"
      by (simp add: hs2_def)
    moreover have "live now (put_hash ?pay hs2 t d3) ?idx = live now d3 ?idx"
      using keys by (intro live_frame) (auto simp: put_hash_def)
    then have "with_zset now (put_hash ?pay hs2 t d3) ?idx = Inr (ms1, t)"
      using z3 by (simp add: with_zset_def)
    ultimately show ?thesis using True
      by (simp add: k_def[symmetric] io_bind_def db_zremrangebyrank_def d4_def ms2_def) (simp add: k_def)
  next
    case False
    then have "put_hash ?pay hs2 t d3 = d3" "put_zset ?idx ms2 t d3 = d3"
      using keys by (auto simp: put_hash_def put_zset_def hs2_def hs1_def ms2_def ms1_def d3_def d2_def fun_eq_iff)
    then show ?thesis using False by (simp add: io_return_def d4_def k_def)
  qed
  have q4: "d4 ?idx = (if ms2 = [] then None else Some (ZSetV ms2, t))" "d4 ?pay = (if hs2 = [] then None else Some (HashV hs2, t))"
    "d4 ?seq = Some (StrV (int_str n), ts)"
    using keys by (auto simp: d4_def put_zset_def put_hash_def d3_def d2_def d1)
  have expire: "\<exists>d5. (if ttl \<noteq> 0
         then io_bind (db_exec now (EXPIRE ?seq ttl)) (\<lambda>_.
              io_bind (db_exec now (EXPIRE ?idx ttl)) (\<lambda>_.
              io_bind (db_exec now (EXPIRE ?pay ttl)) (\<lambda>_. io_return ())))
         else io_return ()) d4 = (Inr (), d5) \<and>
      d5 ?idx = (if ms2 = [] then None else Some (ZSetV ms2, ?T t)) \<and> d5 ?pay = (if hs2 = [] then None else Some (HashV hs2, ?T t)) \<and>
      d5 ?seq = Some (StrV (int_str n), ?T ts)"
  proof (cases "ttl = 0")
    case False
    let ?d5 = "d4(?seq \<mapsto> (StrV (int_str n), Some (now + seconds ttl)))"
    let ?d6 = "?d5(?idx := map_option (\<lambda>v. (v, Some (now + seconds ttl))) (if ms2 = [] then None else Some (ZSetV ms2)))"
    have "\<exists>x. db_exec now (EXPIRE ?seq ttl) d4 = (Inr x, ?d5)"
      using expire_run[of d4 ?seq "Some (StrV (int_str n))" ts now ttl] q4(3) ts pos False by simp
    moreover have "\<exists>x. db_exec now (EXPIRE ?idx ttl) ?d5 = (Inr x, ?d6)"
      by (rule expire_run[where t = t]) (use q4(1) alive pos False keys in auto)
    moreover have "\<exists>x. db_exec now (EXPIRE ?pay ttl) ?d6 =
        (Inr x, ?d6(?pay := map_option (\<lambda>v. (v, Some (now + seconds ttl))) (if hs2 = [] then None else Some (HashV hs2))))"
      by (rule expire_run[where t = t]) (use q4(2) alive pos False keys in auto)
    ultimately show ?thesis using False keys by (auto simp: io_bind_def io_return_def simp del: db_exec.simps)
  qed (use q4 in \<open>simp add: io_return_def\<close>)
  have "\<exists>d5. store_script now keys p c maxlen ttl d = (Inr [ScriptInt 1], d5) \<and>
      d5 ?idx = (if ms2 = [] then None else Some (ZSetV ms2, ?T t)) \<and> d5 ?pay = (if hs2 = [] then None else Some (HashV hs2, ?T t)) \<and>
      d5 ?seq = Some (StrV (int_str n), ?T ts)"
  proof -
    obtain d5 where d5: "(if ttl \<noteq> 0
         then io_bind (db_exec now (EXPIRE ?seq ttl)) (\<lambda>_.
              io_bind (db_exec now (EXPIRE ?idx ttl)) (\<lambda>_.
              io_bind (db_exec now (EXPIRE ?pay ttl)) (\<lambda>_. io_return ())))
         else io_return ()) d4 = (Inr (), d5)"
      and q5: "d5 ?idx = (if ms2 = [] then None else Some (ZSetV ms2, ?T t))"
      "d5 ?pay = (if hs2 = [] then None else Some (HashV hs2, ?T t))" "d5 ?seq = Some (StrV (int_str n), ?T ts)"
      using expire by blast
    have "store_script now keys p c maxlen ttl d = (Inr [ScriptInt 1], d5)"
      unfolding store_script_def Let_def
      apply (rule io_bind_step, rule set)
      apply (simp only: reply_one if_False not_True_eq_False)
      apply (rule io_bind_step, rule incr)
      apply (rule io_bind_step, rule zadd)
      apply (rule io_bind_step, rule hset)
      apply (rule io_bind_step, rule zr)
      apply (rule io_bind_step, rule evict)
      apply (rule io_bind_step, rule d5)
      apply (simp add: io_return_def)
      done
    then show ?thesis using q5 by blast
  qed
  then obtain d5 where d5: "store_script now keys p c maxlen ttl d = (Inr [ScriptInt 1], d5)"
    "d5 ?idx = (if ms2 = [] then None else Some (ZSetV ms2, ?T t))" "d5 ?pay = (if hs2 = [] then None else Some (HashV hs2, ?T t))"
    "d5 ?seq = Some (StrV (int_str n), ?T ts)" by (elim exE conjE)
  have "stored_as now keys c p maxlen ttl ms hs t n ts d5"
    using d5(2-4) unfolding stored_as_def Let_def ms2_def hs2_def k_def ms1_def hs1_def by simp
  then show ?thesis using d5(1) s0[unfolded seq] by (intro exI[of _ d5] exI[of _ ts] conjI)
qed

subsection \<open>The feed as a bounded queue\<close>

text \<open>
  The invariant of the keys: index, payloads and sequence live and die together, every cursor of
  the index has a payload that reads back as an event with that cursor, and no score exceeds the sequence.
\<close>

definition feed_ok :: "'r event_feed \<Rightarrow> keyspace \<Rightarrow> bool" where
  "feed_ok F d \<longleftrightarrow>
     (ttl_argument F = 0 \<longrightarrow> (\<forall>v t. d (feed_sequence_key F) = Some (v, t) \<longrightarrow> t = None)) \<and>
     ((d (feed_key F) = None \<and> d (feed_payloads_key F) = None) \<or>
      (\<exists>ms hs n t. ms \<noteq> [] \<and> d (feed_key F) = Some (ZSetV ms, t) \<and> d (feed_payloads_key F) = Some (HashV hs, t) \<and>
         d (feed_sequence_key F) = Some (StrV (int_str n), t) \<and> ranked ms \<and> (\<forall>(m, s) \<in> set ms. s \<le> n) \<and>
         (\<forall>c. dict_has hs c \<longleftrightarrow> c \<in> fst ` set ms) \<and>
         (\<forall>c p. map_of hs c = Some p \<longrightarrow> (\<exists>e. ef_load F p = Inr e \<and> sv_cursor e = c))))"

text \<open>The cursors of the feed, oldest first, and the payload stored for one.\<close>

definition feed_cursors :: "'r event_feed \<Rightarrow> int \<Rightarrow> keyspace \<Rightarrow> string list" where
  "feed_cursors F now d = (case live now d (feed_key F) of Some (ZSetV ms, _) \<Rightarrow> map fst (by_score ms) | _ \<Rightarrow> [])"

definition feed_payload :: "'r event_feed \<Rightarrow> int \<Rightarrow> keyspace \<Rightarrow> string \<Rightarrow> string option" where
  "feed_payload F now d c = (case live now d (feed_payloads_key F) of Some (HashV hs, _) \<Rightarrow> map_of hs c | _ \<Rightarrow> None)"

text \<open>Pushing a cursor to a queue of at most \<open>maxlen\<close> cursors.\<close>

definition push_bounded :: "int \<Rightarrow> string \<Rightarrow> string list \<Rightarrow> string list" where
  "push_bounded maxlen c cs = (let cs' = filter (\<lambda>x. x \<noteq> c) cs @ [c] in drop (nat (int (length cs') - maxlen)) cs')"

lemma keys_for_distinct:
  "distinct [fk_event (keys_for F c), fk_sequence (keys_for F c), fk_index (keys_for F c), fk_payloads (keys_for F c)]"
  by (simp add: keys_for_def feed_event_key_def feed_sequence_key_def feed_key_def feed_payloads_key_def redis_key_def)

lemma keys_for_sel [simp]:
  "fk_event (keys_for F c) = feed_event_key F c" "fk_sequence (keys_for F c) = feed_sequence_key F"
  "fk_index (keys_for F c) = feed_key F" "fk_payloads (keys_for F c) = feed_payloads_key F"
  by (simp_all add: keys_for_def)

text \<open>What a well-formed feed shows at an instant.\<close>

lemma feed_ok_live:
  assumes "feed_ok F d"
  obtains ms hs t where
    "live now d (feed_key F) = (if ms = [] then None else Some (ZSetV ms, t))"
    "live now d (feed_payloads_key F) = (if hs = [] then None else Some (HashV hs, t))"
    "ms = [] \<longleftrightarrow> hs = []" "ms = [] \<Longrightarrow> t = None" "ranked ms"
    "\<And>c. dict_has hs c \<longleftrightarrow> c \<in> fst ` set ms"
    "\<And>c p. map_of hs c = Some p \<Longrightarrow> \<exists>e. ef_load F p = Inr e \<and> sv_cursor e = c"
    "ms \<noteq> [] \<Longrightarrow> \<exists>n. live now d (feed_sequence_key F) = Some (StrV (int_str n), t) \<and> (\<forall>(m, s) \<in> set ms. s \<le> n)"
proof (cases "live now d (feed_key F) = None")
  case True
  then have "live now d (feed_payloads_key F) = None"
    using assms unfolding feed_ok_def by (auto simp: live_def split: option.splits if_splits)
  then show thesis using that[of "[]" None "[]"] True by (simp add: ranked_def)
next
  case False
  then obtain ms hs n t where f: "ms \<noteq> []" "d (feed_key F) = Some (ZSetV ms, t)" "d (feed_payloads_key F) = Some (HashV hs, t)"
    "d (feed_sequence_key F) = Some (StrV (int_str n), t)" "ranked ms" "\<forall>(m, s) \<in> set ms. s \<le> n"
    "\<forall>c. dict_has hs c \<longleftrightarrow> c \<in> fst ` set ms" "\<forall>c p. map_of hs c = Some p \<longrightarrow> (\<exists>e. ef_load F p = Inr e \<and> sv_cursor e = c)"
    using assms unfolding feed_ok_def by (auto simp: live_def split: option.splits if_splits)
  have alive: "\<not> (\<exists>b. t = Some b \<and> b < now)" using False f(2) by (auto simp: live_def split: option.splits if_splits)
  have "hs \<noteq> []" using f(1,7) by (cases ms) force+
  then show thesis using that[of ms t hs] f alive by (auto simp: live_def split: option.splits)
qed

lemma fold_delete_fields: "map_of (fold AList.delete fs hs) c = (if c \<in> set fs then None else map_of hs c)"
  by (induction fs arbitrary: hs) (auto simp: AList.delete_conv')

lemma set_take_drop_disjoint: "distinct xs \<Longrightarrow> x \<in> set xs \<Longrightarrow> x \<in> set (drop k xs) \<longleftrightarrow> x \<notin> set (take k xs)"
  by (metis Un_iff append_take_drop_id disjoint_iff distinct_append set_append)

lemma store_script_refines:
  assumes ok: "feed_ok F d" and c: "c = sv_cursor e" and load: "ef_load F (ef_dump F e) = Inr e"
    and pos: "ttl_argument F \<noteq> 0 \<Longrightarrow> 0 < ttl_argument F" and free: "live now d (feed_event_key F c) = None"
    and incr: "db_incr now (feed_sequence_key F) (marked now (keys_for F c) (ttl_argument F) d) = (Inr n, d1)"
  shows "\<exists>d'. store_script now (keys_for F c) (ef_dump F e) c (ef_feed_maxlen F) (ttl_argument F) d = (Inr [ScriptInt 1], d') \<and>
    feed_ok F d' \<and> feed_cursors F now d' = push_bounded (ef_feed_maxlen F) c (feed_cursors F now d) \<and>
    (\<forall>x \<in> set (feed_cursors F now d'). feed_payload F now d' x = (if x = c then Some (ef_dump F e) else feed_payload F now d x))"
proof -
  show ?thesis
  proof (rule feed_ok_live[OF ok, where now = now], goal_cases)
    case (1 ms hs t)
    note f = 1
    have "\<exists>d' ts. store_script now (keys_for F c) (ef_dump F e) c (ef_feed_maxlen F) (ttl_argument F) d = (Inr [ScriptInt 1], d') \<and>
       (live now d (fk_sequence (keys_for F c)) = None \<longrightarrow> ts = None) \<and>
       (\<forall>v u. live now d (fk_sequence (keys_for F c)) = Some (v, u) \<longrightarrow> v = StrV (int_str (n - 1)) \<and> ts = u) \<and>
       stored_as now (keys_for F c) c (ef_dump F e) (ef_feed_maxlen F) (ttl_argument F) ms hs t n ts d'"
      by (rule store_script_run[OF keys_for_distinct _ _ f(3) f(4) pos, where ?d1.0 = d1]) (use f(1,2) free incr in simp_all)
    then obtain d' ts where run: "store_script now (keys_for F c) (ef_dump F e) c (ef_feed_maxlen F) (ttl_argument F) d = (Inr [ScriptInt 1], d')"
      and seq: "live now d (feed_sequence_key F) = None \<longrightarrow> ts = None"
        "\<forall>v u. live now d (feed_sequence_key F) = Some (v, u) \<longrightarrow> v = StrV (int_str (n - 1)) \<and> ts = u"
      and d': "stored_as now (keys_for F c) c (ef_dump F e) (ef_feed_maxlen F) (ttl_argument F) ms hs t n ts d'"
      unfolding keys_for_sel by (elim exE conjE)
    define ms1 k M where "ms1 = AList.update c n ms" and "k = nat (int (length ms1) - ef_feed_maxlen F)" and "M = by_score ms1"
    define ms2 where "ms2 = (if 0 < k then drop k M else ms1)"
    define hs2 where "hs2 = fold AList.delete (map fst (take k M)) (AList.update c (ef_dump F e) hs)"
    let ?T = "\<lambda>x. if ttl_argument F \<noteq> 0 then Some (now + seconds (ttl_argument F)) else x"
    have q: "d' (feed_key F) = (if ms2 = [] then None else Some (ZSetV ms2, ?T t))"
      "d' (feed_payloads_key F) = (if hs2 = [] then None else Some (HashV hs2, ?T t))"
      "d' (feed_sequence_key F) = Some (StrV (int_str n), ?T ts)"
      using d' unfolding stored_as_def Let_def keys_for_sel ms2_def hs2_def M_def k_def ms1_def by simp_all
    have live_seq: "\<exists>m. m = n - 1 \<and> ts = t \<and> (\<forall>(x, s) \<in> set ms. s \<le> m)" if "ms \<noteq> []"
      using f(8)[OF that] seq(2) by auto
    have below: "\<forall>(x, s) \<in> set ms. s < n" using live_seq by (cases "ms = []") force+
    have none: "ts = None \<and> t = None" if "ttl_argument F = 0"
    proof -
      have "ts = None"
      proof (cases "live now d (feed_sequence_key F)")
        case (Some vu)
        then obtain v u where vu: "live now d (feed_sequence_key F) = Some (v, u)" by (cases vu) auto
        then have "d (feed_sequence_key F) = Some (v, u)" by (auto simp: live_def split: option.splits if_splits)
        then show ?thesis using ok that seq(2) vu unfolding feed_ok_def by fastforce
      qed (use seq(1) in simp)
      then show ?thesis using live_seq f(4) by (cases "ms = []") auto
    qed
    have M: "M = filter (\<lambda>(m, s). m \<noteq> c) (by_score ms) @ [(c, n)]" and ranked1: "ranked ms1"
      unfolding M_def ms1_def using by_score_update[OF f(5) below] by auto
    have rM: "ranked M" unfolding M_def using ranked1 ranked_mset[of "by_score ms1" ms1] by simp
    have ms2: "by_score ms2 = drop k M" "ranked ms2" "set ms2 = set (drop k M)"
      using by_score_drop[OF ranked1, of k] ranked1 by (auto simp: ms2_def M_def)
    have memM: "x \<in> fst ` set M \<longleftrightarrow> x = c \<or> x \<in> fst ` set ms" for x by (force simp: M)
    have mem2: "x \<in> fst ` set ms2 \<longleftrightarrow> (x = c \<or> x \<in> fst ` set ms) \<and> x \<notin> fst ` set (take k M)" for x
      using set_take_drop_disjoint[of "map fst M" x k] rM memM[of x] unfolding ms2(3) ranked_def
      by (auto simp: take_map drop_map dest: in_set_dropD)
    have map2: "map_of hs2 x = (if x \<in> fst ` set (take k M) then None else if x = c then Some (ef_dump F e) else map_of hs x)" for x
      by (simp add: hs2_def fold_delete_fields AList.update_conv')
    have dom2: "dict_has hs2 x \<longleftrightarrow> x \<in> fst ` set ms2" for x using f(6)[of x] by (auto simp: map2 mem2)
    have emp: "ms2 = [] \<longleftrightarrow> hs2 = []"
    proof
      assume "ms2 = []"
      then show "hs2 = []" using dom2[of "fst (hd hs2)"] by (cases hs2) auto
    next
      assume "hs2 = []"
      then show "ms2 = []" using dom2[of "fst (hd ms2)"] by (cases ms2) auto
    qed
    have alive: "live now d' (feed_key F) = d' (feed_key F)" "live now d' (feed_payloads_key F) = d' (feed_payloads_key F)"
      using none pos by (auto simp: live_def q seconds_def)
    have "\<forall>(x, s) \<in> set ms2. s \<le> n" using below unfolding ms2(3) by (force simp: M dest: in_set_dropD)
    moreover have "?T ts = ?T t" using none by auto
    ultimately have ok': "feed_ok F d'"
      unfolding feed_ok_def using q emp ms2(2) dom2 none f(7) c load by (auto simp: map2 split: if_splits)
    have "feed_cursors F now d' = map fst (by_score ms2)" unfolding feed_cursors_def alive q by (simp add: by_score_def)
    then have cur': "feed_cursors F now d' = drop k (map fst M)" by (simp add: ms2(1) drop_map)
    have "feed_cursors F now d = map fst (by_score ms)" by (simp add: feed_cursors_def f(1) by_score_def)
    moreover have "filter (\<lambda>(m, s). m \<noteq> c) (by_score ms) = filter (\<lambda>x. fst x \<noteq> c) (by_score ms)"
      by (rule filter_cong) auto
    ultimately have cur: "map fst M = filter (\<lambda>x. x \<noteq> c) (feed_cursors F now d) @ [c]" by (simp add: M filter_map comp_def)
    have "length (map fst M) = length ms1" by (simp add: M_def)
    then have "feed_cursors F now d' = push_bounded (ef_feed_maxlen F) c (feed_cursors F now d)"
      using cur' cur by (simp only: push_bounded_def Let_def k_def)
    moreover have "feed_payload F now d' x = (if x = c then Some (ef_dump F e) else feed_payload F now d x)"
      if "x \<in> set (feed_cursors F now d')" for x
    proof -
      have "x \<in> fst ` set ms2" using that unfolding cur' ms2(3) by (simp add: drop_map)
      then have "map_of hs2 x = (if x = c then Some (ef_dump F e) else map_of hs x)" using mem2 map2 by simp
      moreover have "feed_payload F now d' x = map_of hs2 x" unfolding feed_payload_def alive q by simp
      moreover have "feed_payload F now d x = map_of hs x" by (simp add: feed_payload_def f(2))
      ultimately show ?thesis by simp
    qed
    ultimately show ?case using ok' run by blast
  qed
qed

subsection \<open>Reading a page\<close>

text \<open>What follows a cursor in a listing; a cursor that is not there starts anew.\<close>

definition feed_after :: "string \<Rightarrow> string list \<Rightarrow> string list" where
  "feed_after after cursors = (if after \<noteq> [] \<and> after \<in> set cursors then tl (dropWhile (\<lambda>x. x \<noteq> after) cursors) else cursors)"

lemma ranked_strict: "ranked ms \<Longrightarrow> sorted_wrt (\<lambda>x y. snd x < snd y) (by_score ms)"
proof -
  assume "ranked ms"
  then have "distinct (map snd (by_score ms))"
    using mset_eq_imp_distinct_iff[of "map snd (by_score ms)" "map snd ms"] by (simp add: ranked_def)
  then have "sorted_wrt (<) (map snd (by_score ms))" using sorted_by_score by (simp add: strict_sorted_iff)
  then show ?thesis by (simp add: sorted_wrt_map)
qed

lemma page_cursors_after:
  assumes "ranked ms"
  shows "page_cursors after (by_score ms) = feed_after after (rev (map fst (by_score ms)))"
proof (cases "after \<noteq> [] \<and> after \<in> fst ` set ms")
  case True
  then obtain sc where mem: "(after, sc) \<in> set (by_score ms)" by force
  have d: "distinct (map fst (by_score ms))"
    using assms ranked_mset[of "by_score ms" ms] by (simp add: ranked_def)
  obtain pre post where sp: "by_score ms = pre @ (after, sc) # post" using mem by (meson split_list)
  have pre: "\<forall>x \<in> set pre. snd x < sc" and post: "\<forall>x \<in> set post. sc < snd x"
    using ranked_strict[OF assms] by (auto simp: sp sorted_wrt_append)
  have "filter (\<lambda>(m, s). s < sc) (rev (by_score ms)) = rev pre"
  proof -
    have "filter (\<lambda>(m, s). s < sc) pre = pre" using pre by (intro filter_True) auto
    moreover have "filter (\<lambda>(m, s). s < sc) post = []" using post by (intro filter_False) fastforce
    ultimately show ?thesis by (simp add: sp rev_filter[symmetric])
  qed
  moreover have "after \<notin> fst ` set post" using d by (simp add: sp)
  then have "dropWhile (\<lambda>x. x \<noteq> after) (rev (map fst post) @ after # rev (map fst pre)) = after # rev (map fst pre)"
    by (subst dropWhile_append2) auto
  then have "dropWhile (\<lambda>x. x \<noteq> after) (rev (map fst (by_score ms))) = after # rev (map fst pre)" by (simp add: sp)
  moreover have "map_of (by_score ms) after = Some sc" using mem d by simp
  ultimately show ?thesis using True by (auto simp: page_cursors_def feed_after_def rev_map)
next
  case False
  then have "(if after = [] then None else map_of (by_score ms) after) = None" by (auto simp: map_of_eq_None_iff)
  then show ?thesis using False by (auto simp: page_cursors_def feed_after_def rev_map)
qed

lemma gather_payloads_run:
  assumes "with_hash now d k = Inr (hs, t)" and "\<forall>c \<in> set cs. map_of hs c = Some (P c)"
  shows "gather_payloads now k cs res d = (Inr (res @ concat (map (\<lambda>c. [ScriptText c, ScriptText (P c)]) cs)), d)"
  using assms(2) by (induction cs arbitrary: res) (simp_all add: io_return_def io_bind_def db_hget_def assms(1))

lemma parse_pairs_run:
  assumes "\<forall>c \<in> set cs. ef_load F (P c) = Inr (ev c) \<and> sv_cursor (ev c) = c"
  shows "parse_pairs F (concat (map (\<lambda>c. [ScriptText c, ScriptText (P c)]) cs)) = Inr (map ev cs)"
  using assms by (induction cs) auto

lemma even_pairs: "even (length (concat (map (\<lambda>c. [x c, y c]) cs)))"
  by (induction cs) auto

text \<open>The event stored for a cursor.\<close>

definition feed_item :: "'r event_feed \<Rightarrow> int \<Rightarrow> keyspace \<Rightarrow> string \<Rightarrow> service_event res" where
  "feed_item F now d c =
     (case feed_payload F now d c of None \<Rightarrow> Inl (KeyError c) | Some p \<Rightarrow> ef_load F p)"

lemma read_script_run:
  assumes ok: "feed_ok F d"
  shows "\<exists>raw ev. read_script now (feed_key F) (feed_payloads_key F) after page_size d = (Inr raw, d) \<and>
    parse_page F raw = Inr (map ev (take (nat (page_size + 1)) (feed_after after (rev (feed_cursors F now d))))) \<and>
    (\<forall>c \<in> set (feed_cursors F now d). feed_item F now d c = Inr (ev c) \<and> sv_cursor (ev c) = c)"
proof (rule feed_ok_live[OF ok, where now = now], goal_cases)
  case (1 ms hs t)
  note f = 1
  define P where "P = (\<lambda>c. the (map_of hs c))"
  have "\<exists>e. map_of hs c = Some (P c) \<and> ef_load F (P c) = Inr e \<and> sv_cursor e = c" if mem: "c \<in> fst ` set ms" for c
  proof -
    obtain p where p: "map_of hs c = Some p" using f(6)[of c] mem by auto
    from f(7)[OF this] p show ?thesis by (auto simp: P_def)
  qed
  then obtain ev where ev: "map_of hs c = Some (P c) \<and> ef_load F (P c) = Inr (ev c) \<and> sv_cursor (ev c) = c"
    if "c \<in> fst ` set ms" for c by metis
  let ?cs = "take (nat (page_size + 1)) (feed_after after (rev (map fst (by_score ms))))"
  have tl: "set (tl ys) \<subseteq> set ys" for ys :: "string list" by (cases ys) auto
  have fa: "set (feed_after a xs) \<subseteq> set xs" for a xs
    using tl[of "dropWhile (\<lambda>x. x \<noteq> a) xs"] by (auto simp: feed_after_def dest: set_dropWhileD)
  have cs: "set ?cs \<subseteq> fst ` set ms" using fa[of after "rev (map fst (by_score ms))"] by (auto dest: in_set_takeD)
  have cur: "feed_cursors F now d = map fst (by_score ms)" by (simp add: feed_cursors_def f(1) by_score_def)
  have z: "db_zrange now (feed_key F) d = (Inr (by_score ms), d)"
    using f(4) by (simp add: db_zrange_def with_zset_def f(1) by_score_def)
  have h: "with_hash now d (feed_payloads_key F) = Inr (hs, t)" using f(3,4) by (auto simp: with_hash_def f(2))
  have g: "gather_payloads now (feed_payloads_key F) ?cs [ScriptInt 1] d =
      (Inr ([ScriptInt 1] @ concat (map (\<lambda>c. [ScriptText c, ScriptText (P c)]) ?cs)), d)"
    by (rule gather_payloads_run[OF h]) (use cs ev in blast)
  have "read_script now (feed_key F) (feed_payloads_key F) after page_size d =
      (Inr ([ScriptInt 1] @ concat (map (\<lambda>c. [ScriptText c, ScriptText (P c)]) ?cs)), d)"
    unfolding read_script_def by (rule io_bind_step, rule z) (use g in \<open>simp add: page_cursors_after[OF f(5)]\<close>)
  moreover have "parse_page F ([ScriptInt 1] @ concat (map (\<lambda>c. [ScriptText c, ScriptText (P c)]) ?cs)) = Inr (map ev ?cs)"
    using parse_pairs_run[of ?cs F P ev] even_pairs[of ScriptText "\<lambda>c. ScriptText (P c)" ?cs] cs ev
    by (auto simp: parse_page_def)
  moreover have "feed_item F now d c = Inr (ev c) \<and> sv_cursor (ev c) = c" if "c \<in> fst ` set ms" for c
    using ev[OF that] by (cases hs) (simp_all add: feed_item_def feed_payload_def f(2))
  ultimately show ?case unfolding cur by (intro exI[of _ ev] exI conjI) auto
qed

subsection \<open>The server's promise\<close>

text \<open>A script runs atomically; a call that raises has run it or has not.\<close>

locale script_server =
  fixes E :: "(keyspace, script_value list) io \<Rightarrow> ('r, script_value list) io" and \<alpha> :: "'r \<Rightarrow> keyspace"
  assumes eval_law: "E script r = (x, r') \<Longrightarrow>
      (x, \<alpha> r') = script (\<alpha> r) \<or> (isl x \<and> (\<alpha> r' = \<alpha> r \<or> \<alpha> r' = snd (script (\<alpha> r))))"

interpretation mem_scripts: script_server id id
  by unfold_locales auto

text \<open>The feed shows the same events, or one more.\<close>

definition feed_same :: "'r event_feed \<Rightarrow> int \<Rightarrow> keyspace \<Rightarrow> keyspace \<Rightarrow> bool" where
  "feed_same F now d d' \<longleftrightarrow> feed_cursors F now d' = feed_cursors F now d \<and> feed_payload F now d' = feed_payload F now d"

definition feed_pushed :: "'r event_feed \<Rightarrow> int \<Rightarrow> service_event \<Rightarrow> keyspace \<Rightarrow> keyspace \<Rightarrow> bool" where
  "feed_pushed F now e d d' \<longleftrightarrow>
     feed_cursors F now d' = push_bounded (ef_feed_maxlen F) (sv_cursor e) (feed_cursors F now d) \<and>
     (\<forall>x \<in> set (feed_cursors F now d').
        feed_payload F now d' x = (if x = sv_cursor e then Some (ef_dump F e) else feed_payload F now d x))"

lemma marked_same:
  assumes "feed_ok F d"
  shows "feed_ok F (marked now (keys_for F c) ttl d)" and "feed_same F now d (marked now (keys_for F c) ttl d)"
proof -
  let ?d = "marked now (keys_for F c) ttl d"
  have eq: "?d (feed_key F) = d (feed_key F)" "?d (feed_payloads_key F) = d (feed_payloads_key F)" "?d (feed_sequence_key F) = d (feed_sequence_key F)"
    using keys_for_distinct[of F c] by (auto simp: marked_def)
  show "feed_ok F ?d" using assms unfolding feed_ok_def eq .
  have "live now ?d (feed_key F) = live now d (feed_key F)" "live now ?d (feed_payloads_key F) = live now d (feed_payloads_key F)"
    by (intro live_frame eq)+
  then show "feed_same F now d ?d" by (simp add: feed_same_def feed_cursors_def feed_payload_def fun_eq_iff)
qed

lemma store_script_outcome:
  assumes ok: "feed_ok F d" and load: "ef_load F (ef_dump F e) = Inr e" and run: "store_script now (keys_for F (sv_cursor e)) (ef_dump F e) (sv_cursor e) (ef_feed_maxlen F) (ttl_argument F) d = (x, d')"
  shows "feed_ok F d' \<and> (x = Inr [ScriptInt 0] \<longrightarrow> d' = d \<and> live now d (feed_event_key F (sv_cursor e)) \<noteq> None) \<and>
    (isl x \<longrightarrow> feed_same F now d d') \<and> (\<not> isl x \<and> x \<noteq> Inr [ScriptInt 0] \<longrightarrow> feed_pushed F now e d d')"
proof (rule store_script_stop[OF run], goal_cases)
  case 1
  then show ?case using ok by simp
next
  case 2
  then show ?case using ok marked_same[OF ok] by (auto simp: feed_same_def)
next
  case (3 n d1)
  have "db_incr now (feed_sequence_key F) (marked now (keys_for F (sv_cursor e)) (ttl_argument F) d) = (Inr n, d1)"
    and "live now d (feed_event_key F (sv_cursor e)) = None" using 3 by simp_all
  then show ?case using store_script_refines[OF ok refl load 3(1), of now n d1] run
    by (auto simp: feed_pushed_def)
qed

context script_server
begin

lemma store_event_outcome:
  assumes "ef_eval F = E" and ok: "feed_ok F (\<alpha> r)" and load: "ef_load F (ef_dump F e) = Inr e" and run: "store_event F now e r = (x, r')"
  shows "feed_ok F (\<alpha> r') \<and> (x = Inr False \<longrightarrow> \<alpha> r' = \<alpha> r \<and> live now (\<alpha> r) (feed_event_key F (sv_cursor e)) \<noteq> None) \<and>
    (x = Inr True \<longrightarrow> feed_pushed F now e (\<alpha> r) (\<alpha> r')) \<and>
    (isl x \<longrightarrow> feed_same F now (\<alpha> r) (\<alpha> r') \<or> feed_pushed F now e (\<alpha> r) (\<alpha> r'))"
proof -
  let ?s = "store_script now (keys_for F (sv_cursor e)) (ef_dump F e) (sv_cursor e) (ef_feed_maxlen F) (ttl_argument F)"
  obtain y where ev: "E ?s r = (y, r')" and x: "x = (case y of Inl er \<Rightarrow> Inl er | Inr v \<Rightarrow> Inr (v \<noteq> [ScriptInt 0]))"
    using run assms(1) by (auto simp: store_event_def io_bind_def io_return_def split: prod.splits sum.splits)
  obtain z d' where z: "?s (\<alpha> r) = (z, d')" by (rule prod.exhaust)
  note out = store_script_outcome[OF ok load z]
  have refl: "feed_same F now (\<alpha> r) (\<alpha> r)" by (simp add: feed_same_def)
  from eval_law[OF ev] consider "y = z" "\<alpha> r' = d'" | "isl y" "\<alpha> r' = \<alpha> r" | "isl y" "\<alpha> r' = d'"
    using z by auto
  then show ?thesis
    by cases (use out x refl ok in \<open>auto split: sum.splits\<close>)
qed

end

lemma length_push_bounded: "int (length (push_bounded m c cs)) \<le> max 0 m"
  by (simp add: push_bounded_def Let_def)

text \<open> C30. RedisServiceEventFeedStore._store (observability/feed.py) refines a bounded queue of
  events: on a feed whose keys are consistent, an accepted event is appended to the listing, an
  older entry with its cursor gives way, and the oldest entries above feed_maxlen are dropped from
  the index and the payloads alike; a refused event, one whose cursor was accepted within its
  lifetime, changes no key; a call that raises leaves either of the two, and the keys are
  consistent after every outcome. \<close>

theorem feed_store_bounded_queue:
  assumes "script_server (ef_eval F) \<alpha>" and "feed_ok F (\<alpha> r)" and "ef_load F (ef_dump F e) = Inr e"
    and "store_event F now e r = (x, r')"
  shows "feed_ok F (\<alpha> r') \<and>
    (x = Inr False \<longrightarrow> \<alpha> r' = \<alpha> r \<and> live now (\<alpha> r) (feed_event_key F (sv_cursor e)) \<noteq> None) \<and>
    (x = Inr True \<longrightarrow> feed_pushed F now e (\<alpha> r) (\<alpha> r') \<and> int (length (feed_cursors F now (\<alpha> r'))) \<le> max 0 (ef_feed_maxlen F)) \<and>
    (isl x \<longrightarrow> feed_same F now (\<alpha> r) (\<alpha> r') \<or> feed_pushed F now e (\<alpha> r) (\<alpha> r'))"
  using script_server.store_event_outcome[OF assms(1) refl assms(2-4)] length_push_bounded
  by (auto simp: feed_pushed_def)


subsection \<open>Pages\<close>

lemma feed_cursors_distinct: "feed_ok F d \<Longrightarrow> distinct (feed_cursors F now d)"
proof (rule feed_ok_live[of F d now], goal_cases)
  case (2 ms hs t)
  have "ranked (by_score ms)" using 2(6) ranked_mset[of "by_score ms" ms] by simp
  then show ?case by (simp add: feed_cursors_def 2(2) ranked_def)
qed

lemma feed_after_suffix:
  obtains pre where "xs = pre @ feed_after a xs"
proof (cases "a \<noteq> [] \<and> a \<in> set xs")
  case True
  then have "dropWhile (\<lambda>x. x \<noteq> a) xs \<noteq> []" by (auto simp: dropWhile_eq_Nil_conv)
  then have "xs = (takeWhile (\<lambda>x. x \<noteq> a) xs @ [hd (dropWhile (\<lambda>x. x \<noteq> a) xs)]) @ tl (dropWhile (\<lambda>x. x \<noteq> a) xs)" by simp
  moreover have "tl (dropWhile (\<lambda>x. x \<noteq> a) xs) = feed_after a xs" using True by (simp add: feed_after_def)
  ultimately show thesis by (metis that)
qed (use that[of "[]"] in \<open>auto simp: feed_after_def\<close>)

text \<open>The page after the last cursor of a page starts where that page ended.\<close>

lemma feed_after_last:
  assumes "distinct xs" and "take n (feed_after a xs) \<noteq> []" and c: "c = last (take n (feed_after a xs))" and "c \<noteq> []"
  shows "feed_after c xs = drop n (feed_after a xs)"
proof -
  obtain pre where pre: "xs = pre @ feed_after a xs" by (rule feed_after_suffix)
  obtain ys where ys: "take n (feed_after a xs) = ys @ [c]" using assms(2) c by (metis append_butlast_last_id)
  have xs: "xs = (pre @ ys) @ c # drop n (feed_after a xs)"
    using pre ys append_take_drop_id[of n "feed_after a xs"] by (metis append_Cons append_Nil append_assoc)
  have "c \<notin> set (pre @ ys)" using assms(1) xs by (metis disjoint_insert(1) distinct_append insert_is_Un list.simps(15))
  then have "dropWhile (\<lambda>x. x \<noteq> c) xs = c # drop n (feed_after a xs)"
    by (subst xs, subst dropWhile_append2) auto
  moreover have "c \<in> set xs" by (subst xs) simp
  ultimately show ?thesis using assms(4) by (simp add: feed_after_def)
qed

text \<open>A page as the queue has it: the entries after the cursor, newest first.\<close>

definition feed_listing :: "'r event_feed \<Rightarrow> int \<Rightarrow> keyspace \<Rightarrow> string option \<Rightarrow> string list" where
  "feed_listing F now d after = feed_after (case after of Some a \<Rightarrow> a | None \<Rightarrow> []) (rev (feed_cursors F now d))"

definition page_of :: "'r event_feed \<Rightarrow> int \<Rightarrow> keyspace \<Rightarrow> string option \<Rightarrow> int \<Rightarrow> feed_response \<Rightarrow> bool" where
  "page_of F now d after limit resp \<longleftrightarrow>
     (let cs = feed_listing F now d after; n = nat (max 1 limit) in
      fr_count resp = int (length (fr_items resp)) \<and>
      map sv_cursor (fr_items resp) = take n cs \<and>
      map Inr (fr_items resp) = map (feed_item F now d) (take n cs) \<and>
      fr_next_cursor resp = (if n < length cs then Some (last (take n cs)) else None))"

context script_server
begin

lemma get_feed_page:
  assumes "ef_eval F = E" and ok: "feed_ok F (\<alpha> r)"
    and run: "get_feed F now after limit r = (x, r')"
  shows "\<alpha> r' = \<alpha> r \<and> (case x of Inr resp \<Rightarrow> page_of F now (\<alpha> r) after limit resp
    | Inl err \<Rightarrow> fst (ef_eval F (read_script now (feed_key F) (feed_payloads_key F) (case after of Some a \<Rightarrow> a | None \<Rightarrow> []) (max 1 limit)) r) = Inl err)"
proof -
  let ?a = "case after of Some a \<Rightarrow> a | None \<Rightarrow> []" and ?n = "max 1 limit"
  let ?s = "read_script now (feed_key F) (feed_payloads_key F) ?a ?n" and ?cs = "feed_listing F now (\<alpha> r) after"
  obtain raw ev where raw: "?s (\<alpha> r) = (Inr raw, \<alpha> r)"
    and parse: "parse_page F raw = Inr (map ev (take (nat (?n + 1)) ?cs))"
    and item: "\<forall>c \<in> set (feed_cursors F now (\<alpha> r)). feed_item F now (\<alpha> r) c = Inr (ev c) \<and> sv_cursor (ev c) = c"
    using read_script_run[OF ok, of now ?a ?n] unfolding feed_listing_def by blast
  obtain y r1 where ev: "E ?s r = (y, r1)" by (rule prod.exhaust)
  from eval_law[OF ev] raw have y: "(y = Inr raw \<or> isl y) \<and> \<alpha> r1 = \<alpha> r" by auto
  show ?thesis
  proof (cases y)
    case (Inl err)
    then show ?thesis using run ev y assms(1) by (auto simp: get_feed_def io_bind_def Let_def)
  next
    case (Inr v)
    then have v: "v = raw" using y by auto
    define page where "page = take (nat ?n) (map ev (take (nat (?n + 1)) ?cs))"
    have page: "page = map ev (take (nat ?n) ?cs)" by (simp add: page_def take_map nat_add_distrib)
    have len: "?n < int (length (take (nat (?n + 1)) ?cs)) \<longleftrightarrow> nat ?n < length ?cs" by auto
    have r': "r' = r1" and x: "x = Inr \<lparr>fr_count = int (length page), fr_items = page,
        fr_next_cursor = (if ?n < int (length (take (nat (?n + 1)) ?cs)) \<and> page \<noteq> [] then Some (sv_cursor (last page)) else None)\<rparr>"
      using run ev Inr v parse assms(1) by (auto simp: get_feed_def io_bind_def io_lift_def io_return_def Let_def page_def)
    have sub: "\<forall>c \<in> set (take (nat ?n) ?cs). feed_item F now (\<alpha> r) c = Inr (ev c) \<and> sv_cursor (ev c) = c"
    proof
      fix c
      assume "c \<in> set (take (nat ?n) ?cs)"
      then have "c \<in> set ?cs" by (rule in_set_takeD)
      moreover obtain pre where "rev (feed_cursors F now (\<alpha> r)) = pre @ ?cs" unfolding feed_listing_def by (rule feed_after_suffix)
      then have "set ?cs \<subseteq> set (feed_cursors F now (\<alpha> r))" by (metis Un_upper2 set_append set_rev)
      ultimately show "feed_item F now (\<alpha> r) c = Inr (ev c) \<and> sv_cursor (ev c) = c" using item by blast
    qed
    have ne: "page \<noteq> [] \<and> sv_cursor (last page) = last (take (nat ?n) ?cs)" if "nat ?n < length ?cs"
    proof -
      have "take (nat ?n) ?cs \<noteq> []" using that by auto
      then show ?thesis using sub by (simp add: page last_map)
    qed
    have "page_of F now (\<alpha> r) after limit \<lparr>fr_count = int (length page), fr_items = page,
        fr_next_cursor = (if ?n < int (length (take (nat (?n + 1)) ?cs)) \<and> page \<noteq> [] then Some (sv_cursor (last page)) else None)\<rparr>"
      unfolding page_of_def Let_def len using ne sub by (auto simp: page intro: map_idI)
    then show ?thesis using r' x y by simp
  qed
qed

end

text \<open> RedisServiceEventFeedStore.get_feed (observability/feed.py) pages the feed exactly: on
  consistent keys it changes nothing and either raises what the script call raised, never a
  missing or mismatched payload, or returns the first max(1, limit) entries after the cursor in
  newest-first order with their stored events, a next cursor exactly when entries remain, and the
  page after that cursor begins where this one ended, so following the cursors visits every entry
  once; a page is never empty while entries remain. \<close>

theorem feed_page_exact:
  assumes "script_server (ef_eval F) \<alpha>" and "feed_ok F (\<alpha> r)"
    and "get_feed F now after limit r = (x, r')"
  shows "\<alpha> r' = \<alpha> r \<and>
    (case x of
       Inl err \<Rightarrow> fst (ef_eval F (read_script now (feed_key F) (feed_payloads_key F)
         (case after of Some a \<Rightarrow> a | None \<Rightarrow> []) (max 1 limit)) r) = Inl err
     | Inr resp \<Rightarrow> page_of F now (\<alpha> r) after limit resp \<and>
         (feed_listing F now (\<alpha> r) after \<noteq> [] \<longrightarrow> fr_items resp \<noteq> []) \<and>
         (\<forall>c. fr_next_cursor resp = Some c \<and> c \<noteq> [] \<longrightarrow>
            feed_listing F now (\<alpha> r) (Some c) = drop (nat (max 1 limit)) (feed_listing F now (\<alpha> r) after)))"
proof (cases x)
  case (Inl err)
  then show ?thesis using script_server.get_feed_page[OF assms(1) refl assms(2,3)] by simp
next
  case (Inr resp)
  let ?cs = "feed_listing F now (\<alpha> r) after" and ?n = "nat (max 1 limit)"
  have p: "\<alpha> r' = \<alpha> r" "page_of F now (\<alpha> r) after limit resp"
    using script_server.get_feed_page[OF assms(1) refl assms(2,3)] Inr by simp_all
  then have "map sv_cursor (fr_items resp) = take ?n ?cs" by (simp add: page_of_def Let_def)
  then have "?cs \<noteq> [] \<longrightarrow> fr_items resp \<noteq> []" by (cases ?cs) auto
  moreover have "feed_listing F now (\<alpha> r) (Some c) = drop ?n ?cs" if c: "fr_next_cursor resp = Some c" "c \<noteq> []" for c
  proof -
    have n: "?n < length ?cs" "c = last (take ?n ?cs)" using c p(2) by (auto simp: page_of_def Let_def split: if_splits)
    moreover have "distinct (rev (feed_cursors F now (\<alpha> r)))" using feed_cursors_distinct[OF assms(2)] by simp
    moreover have "take ?n ?cs \<noteq> []" using n(1) by auto
    ultimately show ?thesis using c(2)
      feed_after_last[of "rev (feed_cursors F now (\<alpha> r))" ?n "case after of Some a \<Rightarrow> a | None \<Rightarrow> []" c]
      by (simp add: feed_listing_def)
  qed
  ultimately show ?thesis using p Inr by simp
qed

subsection \<open>Concrete runs\<close>

text \<open>A feed of two entries on the in-memory scripts, with the cursor as the text of an event.\<close>

definition sample_event :: "string \<Rightarrow> service_event" where
  "sample_event c = \<lparr>sv_cursor = c, sv_task_id = ''t'', sv_event_type = ''status.queued'', sv_source_kind = Status_source,
     sv_component = None, sv_timestamp = None, sv_event_id = Some c, sv_correlation_id = None, sv_parent_task_id = None,
     sv_payload = []\<rparr>"

definition sample_feed :: "keyspace event_feed" where
  "sample_feed = \<lparr>ef_prefix = ''p'', ef_ttl_seconds = Some 60, ef_feed_maxlen = 2, ef_sha = id, ef_eval = id,
     ef_dump = sv_cursor, ef_load = (\<lambda>s. Inr (sample_event s))\<rparr>"

definition sample_feed_state :: keyspace where
  "sample_feed_state = snd (store_event sample_feed 0 (sample_event ''b'') (snd (store_event sample_feed 0 (sample_event ''a'') Map.empty)))"

lemma sample_server: "script_server (ef_eval sample_feed) id"
  by (simp add: sample_feed_def mem_scripts.script_server_axioms)

lemma sample_load: "ef_load sample_feed (ef_dump sample_feed (sample_event c)) = Inr (sample_event c)"
  by (simp add: sample_feed_def sample_event_def)

lemma feed_ok_empty: "feed_ok F Map.empty"
  by (simp add: feed_ok_def)

lemma sample_feed_ok: "feed_ok sample_feed sample_feed_state"
  unfolding sample_feed_state_def
  using script_server.store_event_outcome[OF sample_server refl _ sample_load] feed_ok_empty[of sample_feed]
  by (metis id_apply prod.collapse)

theorem feed_store_bounded_queue_witness:
  "fst (store_event sample_feed 0 (sample_event ''c'') sample_feed_state) = Inr True \<and>
   feed_pushed sample_feed 0 (sample_event ''c'') sample_feed_state (snd (store_event sample_feed 0 (sample_event ''c'') sample_feed_state)) \<and>
   feed_cursors sample_feed 0 (snd (store_event sample_feed 0 (sample_event ''c'') sample_feed_state)) = [''b'', ''c'']"
proof -
  have r: "fst (store_event sample_feed 0 (sample_event ''c'') sample_feed_state) = Inr True"
    "feed_cursors sample_feed 0 (snd (store_event sample_feed 0 (sample_event ''c'') sample_feed_state)) = [''b'', ''c'']"
    by code_simp+
  then show ?thesis
    using feed_store_bounded_queue[OF sample_server, of sample_feed_state "sample_event ''c''" 0] sample_feed_ok sample_load
    by (metis id_apply prod.collapse)
qed

theorem feed_page_exact_witness:
  "\<exists>resp. get_feed sample_feed 0 None 1 sample_feed_state = (Inr resp, sample_feed_state) \<and>
     page_of sample_feed 0 sample_feed_state None 1 resp \<and> fr_next_cursor resp = Some ''b'' \<and>
     feed_listing sample_feed 0 sample_feed_state (Some ''b'') = [''a'']"
proof -
  let ?g = "get_feed sample_feed 0 None 1 sample_feed_state"
  have r: "map_sum (\<lambda>_. ()) fr_next_cursor (fst ?g) = Inr (Some ''b'')" "feed_listing sample_feed 0 sample_feed_state (Some ''b'') = [''a'']"
    by code_simp+
  obtain resp where g: "?g = (Inr resp, snd ?g)" "fr_next_cursor resp = Some ''b''"
    using r(1) by (cases ?g, cases "fst ?g") auto
  show ?thesis
    using feed_page_exact[OF sample_server, of sample_feed_state 0 None 1 "Inr resp" "snd ?g"] sample_feed_ok g r(2)
    by (intro exI[of _ resp]) (auto simp: prod_eq_iff)
qed

subsection \<open>The forwarder\<close>

record forwarder =
  fw_studio_base_url :: string
  fw_service_id :: string
  fw_batch_size :: int
  fw_pending :: "service_event list"

definition make_forwarder :: "string \<Rightarrow> string \<Rightarrow> int \<Rightarrow> forwarder" where
  "make_forwarder studio_base_url service_id batch_size =
     \<lparr>fw_studio_base_url = rev (dropWhile (\<lambda>c. c = CHR ''/'') (rev studio_base_url)), fw_service_id = strip service_id,
      fw_batch_size = max 1 batch_size, fw_pending = []\<rparr>"

text \<open>The address and the body of the request for a batch.\<close>

definition event_json :: "service_event \<Rightarrow> dict" where
  "event_json e =
     [(''cursor'', PStr (sv_cursor e)), (''task_id'', PStr (sv_task_id e)), (''event_type'', PStr (sv_event_type e)),
      (''source_kind'', PStr (case sv_source_kind e of Status_source \<Rightarrow> ''status'' | Observation_source \<Rightarrow> ''observation'')),
      (''component'', opt_str (sv_component e)), (''timestamp'', opt_str (sv_timestamp e)), (''event_id'', opt_str (sv_event_id e)),
      (''correlation_id'', opt_str (sv_correlation_id e)), (''parent_task_id'', opt_str (sv_parent_task_id e)),
      (''payload'', PDict (sv_payload e))]"

definition flush_request :: "forwarder \<Rightarrow> service_event list \<Rightarrow> string \<times> dict" where
  "flush_request w batch =
     (fw_studio_base_url w @ ''/studio/ingest/events'',
      [(''events'', PList (map (\<lambda>item. PDict [(''service_id'', PStr (fw_service_id w)), (''ingest_method'', PStr ''push''),
         (''event'', PDict (event_json item))]) batch))])"

text \<open>\<^verbatim>\<open>flush\<close> up to its request, the batch it posts, and from its answer on: whether the post succeeded.\<close>

definition flush_batch :: "forwarder \<Rightarrow> service_event list option" where
  "flush_batch w = (if fw_pending w = [] then None else Some (fw_pending w))"

definition flush_answer :: "service_event list \<Rightarrow> bool \<Rightarrow> forwarder \<Rightarrow> forwarder" where
  "flush_answer batch ok w = (if ok then w\<lparr>fw_pending := drop (length batch) (fw_pending w)\<rparr> else w)"

definition forward :: "(string \<Rightarrow> string) \<Rightarrow> string \<times> dict option \<Rightarrow> forwarder \<Rightarrow> forwarder \<times> service_event list option" where
  "forward sha event w =
     (case normalize_observation_feed_event sha event of
        None \<Rightarrow> (w, None)
      | Some e \<Rightarrow>
          let w' = w\<lparr>fw_pending := fw_pending w @ [e]\<rparr>
          in (w', if fw_batch_size w' \<le> int (length (fw_pending w')) then flush_batch w' else None))"

text \<open>
  Calls interleave at the request: a call or a flush may put a batch in flight, and the answers
  come in any order.  \<open>fx_accepted\<close>, \<open>fx_posted\<close> and \<open>fx_confirmed\<close> record what was taken in, the batches
  posted and what was confirmed.
\<close>

record forwarding =
  fx_forwarder :: forwarder
  fx_flights :: "service_event list list"
  fx_accepted :: "service_event list"
  fx_confirmed :: "service_event list"
  fx_posted :: "service_event list list"

definition forwarding_start :: "string \<Rightarrow> string \<Rightarrow> int \<Rightarrow> forwarding" where
  "forwarding_start url service_id n = \<lparr>fx_forwarder = make_forwarder url service_id n, fx_flights = [],
     fx_accepted = [], fx_confirmed = [], fx_posted = []\<rparr>"

definition option_list :: "'a option \<Rightarrow> 'a list" where
  "option_list x = (case x of None \<Rightarrow> [] | Some y \<Rightarrow> [y])"

inductive fw_step :: "(string \<Rightarrow> string) \<Rightarrow> forwarding \<Rightarrow> forwarding \<Rightarrow> bool" for sha where
  observed: "forward sha event (fx_forwarder x) = (w, b) \<Longrightarrow>
    fw_step sha x (x\<lparr>fx_forwarder := w, fx_flights := fx_flights x @ option_list b, fx_posted := fx_posted x @ option_list b,
      fx_accepted := fx_accepted x @ option_list (normalize_observation_feed_event sha event)\<rparr>)"
| flushed: "fw_step sha x (x\<lparr>fx_flights := fx_flights x @ option_list (flush_batch (fx_forwarder x)),
      fx_posted := fx_posted x @ option_list (flush_batch (fx_forwarder x))\<rparr>)"
| answered: "fx_flights x = bs @ b # cs \<Longrightarrow>
    fw_step sha x (x\<lparr>fx_forwarder := flush_answer b ok (fx_forwarder x), fx_flights := bs @ cs,
      fx_confirmed := fx_confirmed x @ (if ok then b else [])\<rparr>)"

definition one_flight_step :: "(string \<Rightarrow> string) \<Rightarrow> forwarding \<Rightarrow> forwarding \<Rightarrow> bool" where
  "one_flight_step sha x y \<longleftrightarrow> fw_step sha x y \<and> length (fx_flights y) \<le> 1"

text \<open>With one batch in flight at most, it is the beginning of what is pending.\<close>

definition forwarding_ok :: "forwarding \<Rightarrow> bool" where
  "forwarding_ok x \<longleftrightarrow> fx_confirmed x @ fw_pending (fx_forwarder x) = fx_accepted x \<and> length (fx_flights x) \<le> 1 \<and>
     (\<forall>b \<in> set (fx_flights x). \<exists>zs. fw_pending (fx_forwarder x) = b @ zs)"

lemma fw_step_ok:
  assumes "fw_step sha x y" and "length (fx_flights y) \<le> 1" and "forwarding_ok x"
  shows "forwarding_ok y"
  using assms
proof cases
  case (observed event w b)
  then show ?thesis using assms(2,3)
    by (auto simp: forwarding_ok_def forward_def flush_batch_def option_list_def Let_def
      split: option.splits if_splits)
next
  case flushed
  then show ?thesis using assms(2,3) by (auto simp: forwarding_ok_def flush_batch_def option_list_def split: if_splits)
next
  case (answered bs b cs ok)
  then have "bs = []" "cs = []" using assms(3) by (auto simp: forwarding_ok_def)
  then show ?thesis using answered assms(3) by (auto simp: forwarding_ok_def flush_answer_def)
qed

text \<open> C33. StudioObservationForwarder (observability/feed.py) with at most one batch in flight: after
  any sequence of calls, flushes and answers, failed posts included, the events confirmed by Studio
  followed by the pending ones are exactly the events taken in, in order, so none is lost, doubled
  or reordered. \<close>

theorem forwarder_loses_nothing:
  assumes "(one_flight_step sha)\<^sup>*\<^sup>* (forwarding_start url service_id n) x"
  shows "fx_confirmed x @ fw_pending (fx_forwarder x) = fx_accepted x"
proof -
  from assms have "forwarding_ok x"
    by (induction rule: rtranclp_induct)
      (auto simp: forwarding_start_def make_forwarder_def forwarding_ok_def one_flight_step_def dest!: fw_step_ok)
  then show ?thesis by (simp add: forwarding_ok_def)
qed

definition sample_observation :: "string \<Rightarrow> string \<times> dict option" where
  "sample_observation c = (''TaskObserved'', Some [(''task_id'', PStr ''t''), (''event_id'', PStr c)])"

definition sample_observed :: "string \<Rightarrow> service_event" where
  "sample_observed c = the (normalize_observation_feed_event id (sample_observation c))"

lemma steps_into_rtranclp: "r a b \<Longrightarrow> r b c \<Longrightarrow> r\<^sup>*\<^sup>* c d \<Longrightarrow> r\<^sup>*\<^sup>* a d"
  by (rule converse_rtranclp_into_rtranclp, assumption, rule converse_rtranclp_into_rtranclp)

text \<open>One event is taken in, posted and confirmed; the next waits.\<close>

theorem forwarder_loses_nothing_witness:
  "\<exists>x. (one_flight_step id)\<^sup>*\<^sup>* (forwarding_start [] [] 3) x \<and> fx_accepted x = [sample_observed ''a'', sample_observed ''b''] \<and>
     fx_confirmed x = [sample_observed ''a''] \<and> fx_confirmed x @ fw_pending (fx_forwarder x) = fx_accepted x"
proof -
  let ?a = "sample_observed ''a''" and ?b = "sample_observed ''b''"
  let ?s = "\<lambda>p fl ac co po. \<lparr>fx_forwarder = \<lparr>fw_studio_base_url = [], fw_service_id = [], fw_batch_size = 3, fw_pending = p\<rparr>, fx_flights = fl, fx_accepted = ac, fx_confirmed = co, fx_posted = po\<rparr>"
  have n: "normalize_observation_feed_event id (sample_observation ''a'') = Some ?a"
    "normalize_observation_feed_event id (sample_observation ''b'') = Some ?b" by code_simp+
  have 1: "one_flight_step id (forwarding_start [] [] 3) (?s [?a] [] [?a] [] [])"
    using fw_step.observed[of id "sample_observation ''a''" "forwarding_start [] [] 3"]
    by (simp add: one_flight_step_def forward_def n forwarding_start_def make_forwarder_def strip_def strip_with_def option_list_def flush_batch_def)
  have 2: "one_flight_step id (?s [?a] [] [?a] [] []) (?s [?a] [[?a]] [?a] [] [[?a]])"
    using fw_step.flushed[of id "?s [?a] [] [?a] [] []"] by (simp add: one_flight_step_def option_list_def flush_batch_def)
  have 3: "one_flight_step id (?s [?a] [[?a]] [?a] [] [[?a]]) (?s [?a, ?b] [[?a]] [?a, ?b] [] [[?a]])"
    using fw_step.observed[of id "sample_observation ''b''" "?s [?a] [[?a]] [?a] [] [[?a]]"]
    by (simp add: one_flight_step_def forward_def n option_list_def flush_batch_def)
  have 4: "one_flight_step id (?s [?a, ?b] [[?a]] [?a, ?b] [] [[?a]]) (?s [?b] [] [?a, ?b] [?a] [[?a]])"
    using fw_step.answered[of "?s [?a, ?b] [[?a]] [?a, ?b] [] [[?a]]" "[]" "[?a]" "[]" id True]
    by (simp add: one_flight_step_def flush_answer_def)
  have "(one_flight_step id)\<^sup>*\<^sup>* (forwarding_start [] [] 3) (?s [?b] [] [?a, ?b] [?a] [[?a]])"
    by (intro steps_into_rtranclp[where r = "one_flight_step id", OF 1 2] steps_into_rtranclp[where r = "one_flight_step id", OF 3 4]
      rtranclp.rtrancl_refl)
  then show ?thesis using forwarder_loses_nothing[of id "[]" "[]" 3] by (intro exI[of _ "?s [?b] [] [?a, ?b] [?a] [[?a]]"]) auto
qed

text \<open>The steps of one run as functions: an observation, a flush, and the answer to the oldest request in flight.\<close>

definition take_in :: "(string \<Rightarrow> string) \<Rightarrow> string \<times> dict option \<Rightarrow> forwarding \<Rightarrow> forwarding" where
  "take_in sha event x = (case forward sha event (fx_forwarder x) of (w, b) \<Rightarrow>
     x\<lparr>fx_forwarder := w, fx_flights := fx_flights x @ option_list b, fx_posted := fx_posted x @ option_list b,
       fx_accepted := fx_accepted x @ option_list (normalize_observation_feed_event sha event)\<rparr>)"

definition start_flush :: "forwarding \<Rightarrow> forwarding" where
  "start_flush x = x\<lparr>fx_flights := fx_flights x @ option_list (flush_batch (fx_forwarder x)),
     fx_posted := fx_posted x @ option_list (flush_batch (fx_forwarder x))\<rparr>"

definition answer_oldest :: "bool \<Rightarrow> forwarding \<Rightarrow> forwarding" where
  "answer_oldest ok x = (case fx_flights x of [] \<Rightarrow> x | b # cs \<Rightarrow>
     x\<lparr>fx_forwarder := flush_answer b ok (fx_forwarder x), fx_flights := cs, fx_confirmed := fx_confirmed x @ (if ok then b else [])\<rparr>)"

lemma run_steps:
  "fw_step sha x (take_in sha event x)" "fw_step sha x (start_flush x)" "fx_flights x \<noteq> [] \<Longrightarrow> fw_step sha x (answer_oldest ok x)"
proof -
  show "fw_step sha x (take_in sha event x)"
    using fw_step.observed[of sha event x] unfolding take_in_def by (cases "forward sha event (fx_forwarder x)") simp
  show "fw_step sha x (start_flush x)" unfolding start_flush_def by (rule fw_step.flushed)
  assume "fx_flights x \<noteq> []"
  then obtain b cs where f: "fx_flights x = b # cs" by (cases "fx_flights x") auto
  show "fw_step sha x (answer_oldest ok x)"
    using fw_step.answered[of x "[]" b cs sha ok] unfolding answer_oldest_def by (simp add: f)
qed

lemma take_in_many_steps: "(fw_step sha)\<^sup>*\<^sup>* x (fold (take_in sha) events x)"
  by (induction events arbitrary: x) (auto intro: converse_rtranclp_into_rtranclp run_steps(1))

lemma take_in_many:
  assumes "map (normalize_observation_feed_event sha) events = map Some es"
    and "int (length (fw_pending (fx_forwarder x)) + length es) < fw_batch_size (fx_forwarder x)"
  shows "fold (take_in sha) events x = x\<lparr>fx_forwarder := (fx_forwarder x)\<lparr>fw_pending := fw_pending (fx_forwarder x) @ es\<rparr>,
    fx_accepted := fx_accepted x @ es\<rparr>"
  using assms
proof (induction events arbitrary: x es)
  case (Cons event events)
  then obtain e es' where es: "es = e # es'" "normalize_observation_feed_event sha event = Some e"
    "map (normalize_observation_feed_event sha) events = map Some es'" by (cases es) auto
  have "take_in sha event x = x\<lparr>fx_forwarder := (fx_forwarder x)\<lparr>fw_pending := fw_pending (fx_forwarder x) @ [e]\<rparr>,
      fx_accepted := fx_accepted x @ [e]\<rparr>" (is "_ = ?y")
    using Cons.prems(2) by (simp add: take_in_def forward_def es(1,2) option_list_def)
  moreover have "fold (take_in sha) events ?y = ?y\<lparr>fx_forwarder := (fx_forwarder ?y)\<lparr>fw_pending := fw_pending (fx_forwarder ?y) @ es'\<rparr>,
      fx_accepted := fx_accepted ?y @ es'\<rparr>"
    using Cons.prems(2) by (intro Cons.IH es(3)) (simp add: es(1))
  ultimately show ?case by (simp add: es(1))
qed simp

text \<open> C36. Without that restriction StudioObservationForwarder.flush loses events.  Let the events \<open>ps\<close> be
  pending and no request be under way.  Two flushes post \<open>ps\<close> twice, and while both requests are in flight
  the events \<open>es\<close> come in, fewer than fill a batch.  Nothing else is posted.  If neither post succeeds, all events stay pending, and if
  one does, \<open>es\<close> stay; but if both succeed, each of them deletes as many events as \<open>ps\<close> has, and as many of
  \<open>es\<close> are gone, without being part of any batch posted. \<close>

theorem overlapping_flushes_lose_events:
  assumes "fx_flights x = []" and "fw_pending (fx_forwarder x) = ps" and "ps \<noteq> []"
    and "map (normalize_observation_feed_event sha) events = map Some es"
    and "int (length ps + length es) < fw_batch_size (fx_forwarder x)"
    and "m = fold (take_in sha) events (start_flush (start_flush x))" and "y = answer_oldest ok2 (answer_oldest ok1 m)"
  shows "(fw_step sha)\<^sup>*\<^sup>* x m \<and> fx_flights m = [ps, ps] \<and> (fw_step sha)\<^sup>*\<^sup>* m y \<and> fx_flights y = [] \<and>
    fx_posted y = fx_posted x @ [ps, ps] \<and> fx_accepted y = fx_accepted x @ es \<and>
    fw_pending (fx_forwarder y) = (if ok1 \<and> ok2 then drop (length ps) es else if ok1 \<or> ok2 then es else ps @ es)"
proof -
  have flush: "start_flush (start_flush x) = x\<lparr>fx_flights := [ps, ps], fx_posted := fx_posted x @ [ps, ps]\<rparr>"
    using assms(1-3) by (simp add: start_flush_def flush_batch_def option_list_def)
  have m: "m = x\<lparr>fx_forwarder := (fx_forwarder x)\<lparr>fw_pending := ps @ es\<rparr>, fx_flights := [ps, ps],
      fx_accepted := fx_accepted x @ es, fx_posted := fx_posted x @ [ps, ps]\<rparr>"
    unfolding assms(6) flush by (subst take_in_many[OF assms(4)]) (use assms(2,5) in simp_all)
  have "(fw_step sha)\<^sup>*\<^sup>* x (start_flush (start_flush x))"
    by (rule steps_into_rtranclp[where r = "fw_step sha"], rule run_steps(2), rule run_steps(2), rule rtranclp.rtrancl_refl)
  then have to_m: "(fw_step sha)\<^sup>*\<^sup>* x m" unfolding assms(6) using take_in_many_steps by (rule rtranclp_trans)
  have first: "fx_flights (answer_oldest ok1 m) = [ps]" by (simp add: answer_oldest_def m)
  have to_y: "(fw_step sha)\<^sup>*\<^sup>* m y" unfolding assms(7)
    by (rule steps_into_rtranclp[where r = "fw_step sha", OF run_steps(3) run_steps(3) rtranclp.rtrancl_refl]) (simp_all add: first, simp add: m)
  show ?thesis using to_m to_y by (auto simp: assms(7) m answer_oldest_def flush_answer_def)
qed

text \<open>One event is pending, another comes in between the two flushes and their answers.\<close>

theorem overlapping_flushes_lose_events_witness:
  "\<exists>x y. (fw_step id)\<^sup>*\<^sup>* (forwarding_start [] [] 3) x \<and> (fw_step id)\<^sup>*\<^sup>* x y \<and> fx_flights y = [] \<and>
     fx_accepted y = [sample_observed ''a'', sample_observed ''b''] \<and> fx_posted y = [[sample_observed ''a''], [sample_observed ''a'']] \<and>
     fw_pending (fx_forwarder y) = [] \<and> sample_observed ''a'' \<noteq> sample_observed ''b''"
proof -
  let ?a = "sample_observed ''a''" and ?b = "sample_observed ''b''"
  define x where "x = take_in id (sample_observation ''a'') (forwarding_start [] [] 3)"
  have n: "normalize_observation_feed_event id (sample_observation ''a'') = Some ?a"
    "normalize_observation_feed_event id (sample_observation ''b'') = Some ?b" "?a \<noteq> ?b" by code_simp+
  have x: "fx_flights x = []" "fw_pending (fx_forwarder x) = [?a]" "fw_batch_size (fx_forwarder x) = 3" "fx_accepted x = [?a]" "fx_posted x = []"
    by (simp_all add: x_def take_in_def forward_def n forwarding_start_def make_forwarder_def option_list_def)
  have start: "(fw_step id)\<^sup>*\<^sup>* (forwarding_start [] [] 3) x" unfolding x_def by (rule r_into_rtranclp, rule run_steps(1))
  have "map (normalize_observation_feed_event id) [sample_observation ''b''] = map Some [?b]" by (simp add: n)
  note run = overlapping_flushes_lose_events[OF x(1,2) _ this _ refl refl, of True True]
  let ?y = "answer_oldest True (answer_oldest True (fold (take_in id) [sample_observation ''b''] (start_flush (start_flush x))))"
  have "(fw_step id)\<^sup>*\<^sup>* x ?y" "fx_flights ?y = []" "fx_accepted ?y = [?a, ?b]" "fx_posted ?y = [[?a], [?a]]" "fw_pending (fx_forwarder ?y) = []"
    using run x(3-5) by (auto intro: rtranclp_trans)
  then show ?thesis using start n(3) by blast
qed

end
