(* ===== verification/Execution_Graph.thy ===== *)
theory Execution_Graph
  imports Workflow_Graph "HOL-Library.Multiset" "HOL-Library.Product_Lexorder"
begin

text \<open>
  \<^verbatim>\<open>observability/execution_graph.py\<close>: the graph of a task built from its status history, its
  observations and its dead letters, the live state projected on it, its summary and its Mermaid
  text.  The builder's local variables are the record \<open>building\<close>; the lists of attempts hold the
  ids of nodes, as the nodes they refer to are shared with the node table and may be amended there.
  What \<^verbatim>\<open>datetime.fromisoformat\<close> reads and the milliseconds between two instants are arguments.
\<close>

subsection \<open>Nodes, edges and the graph\<close>

record gnode =
  gn_id :: string
  gn_kind :: string
  gn_task_id :: "string option"
  gn_label :: "string option"
  gn_timestamp :: "string option"
  gn_state :: "string option"
  gn_state_reason :: "string option"
  gn_updated_at :: "string option"
  gn_annotations :: dict

record gedge =
  xe_source :: string
  xe_target :: string
  xe_kind :: string
  xe_timestamp :: "string option"
  xe_state :: "string option"
  xe_state_reason :: "string option"
  xe_updated_at :: "string option"
  xe_annotations :: dict

record graph_summary =
  gy_status :: "string option"
  gy_started_at :: "string option"
  gy_ended_at :: "string option"
  gy_duration_ms :: "int option"
  gy_graph_completeness :: string
  gy_live_state_counts :: "(string \<times> int) list"

record execution_graph =
  xg_task_id :: string
  xg_topology_kind :: string
  xg_summary :: graph_summary
  xg_nodes :: "gnode list"
  xg_edges :: "gedge list"
  xg_annotations :: dict
  xg_related_task_ids :: "string list"

definition new_node :: "string \<Rightarrow> string \<Rightarrow> string \<Rightarrow> string \<Rightarrow> string option \<Rightarrow> dict \<Rightarrow> gnode" where
  "new_node i kind tid label ts annotations =
     \<lparr>gn_id = i, gn_kind = kind, gn_task_id = Some tid, gn_label = Some label, gn_timestamp = ts, gn_state = None,
      gn_state_reason = None, gn_updated_at = None, gn_annotations = annotations\<rparr>"

definition new_edge :: "string \<Rightarrow> string \<Rightarrow> string \<Rightarrow> string option \<Rightarrow> dict \<Rightarrow> gedge" where
  "new_edge source target kind ts annotations =
     \<lparr>xe_source = source, xe_target = target, xe_kind = kind, xe_timestamp = ts, xe_state = None,
      xe_state_reason = None, xe_updated_at = None, xe_annotations = annotations\<rparr>"

subsection \<open>Timestamps and attempts\<close>

definition coerce_timestamp :: "pyval \<Rightarrow> string" where
  "coerce_timestamp value = (if value = PNone then [] else py_str value)"

abbreviation coerce_text :: "string option \<Rightarrow> string" where
  "coerce_text ts \<equiv> coerce_timestamp (opt_str ts)"

definition none_if_empty :: "string \<Rightarrow> string option" where
  "none_if_empty s = (if s = [] then None else Some s)"

text \<open>\<^verbatim>\<open>str(d.get(k) or default)\<close> and \<^verbatim>\<open>d.get(k, default)\<close>\<close>

definition text_or :: "dict \<Rightarrow> string \<Rightarrow> string \<Rightarrow> string" where
  "text_or d k alt = (if truthy (dict_get d k) then py_str (dict_get d k) else alt)"

definition get_or :: "dict \<Rightarrow> string \<Rightarrow> pyval \<Rightarrow> pyval" where
  "get_or d k alt = (case map_of d k of Some v \<Rightarrow> v | None \<Rightarrow> alt)"

definition pick :: "dict \<Rightarrow> string list \<Rightarrow> dict" where
  "pick d ks = map (\<lambda>k. (k, dict_get d k)) ks"

definition sort_by_timestamp :: "dict list \<Rightarrow> dict list" where
  "sort_by_timestamp items =
     sort_key (\<lambda>item. (coerce_timestamp (dict_get item ''timestamp''), py_str (get_or item ''event_id'' (PStr [])))) items"

definition latest_attempt :: "gnode list \<Rightarrow> string option \<Rightarrow> gnode option" where
  "latest_attempt attempts ts =
     (if attempts = [] then None
      else case ts of
        None \<Rightarrow> Some (last attempts)
      | Some t \<Rightarrow>
          (let eligible = filter (\<lambda>n. coerce_text (gn_timestamp n) \<le> t) attempts
           in Some (if eligible \<noteq> [] then last eligible else hd attempts)))"

definition next_attempt :: "gnode list \<Rightarrow> string option \<Rightarrow> gnode option" where
  "next_attempt attempts ts =
     (case ts of
        None \<Rightarrow> None
      | Some t \<Rightarrow>
          (let eligible = filter (\<lambda>n. t < coerce_text (gn_timestamp n)) attempts
           in if eligible \<noteq> [] then Some (hd eligible) else None))"

definition latest_stage_attempt :: "gnode list \<Rightarrow> string option \<Rightarrow> string option \<Rightarrow> gnode option" where
  "latest_stage_attempt attempts stage ts =
     (let eligible = filter (\<lambda>n. (case stage of None \<Rightarrow> True | Some s \<Rightarrow> dict_get (gn_annotations n) ''stage'' = PStr s) \<and>
            (case ts of None \<Rightarrow> True | Some t \<Rightarrow> coerce_text (gn_timestamp n) \<le> t)) attempts
      in if eligible \<noteq> [] then Some (last eligible) else None)"

subsection \<open>The builder\<close>

record pending_retry =
  pr_task_id :: string
  pr_retry_node_id :: string
  pr_retry_timestamp :: "string option"

record building =
  bd_nodes :: "(string \<times> gnode) list"
  bd_edges :: "gedge list"
  bd_timestamps :: "string list"
  bd_task_nodes :: "(string \<times> string) list"
  bd_attempts :: "(string \<times> string list) list"
  bd_stage_attempts :: "string list"
  bd_messages :: "(string \<times> string) list"
  bd_task_types :: "string list"
  bd_retries :: "pending_retry list"

definition building_start :: building where
  "building_start = \<lparr>bd_nodes = [], bd_edges = [], bd_timestamps = [], bd_task_nodes = [], bd_attempts = [],
     bd_stage_attempts = [], bd_messages = [], bd_task_types = [], bd_retries = []\<rparr>"

definition merge_node :: "gnode \<Rightarrow> gnode \<Rightarrow> gnode" where
  "merge_node existing node = existing\<lparr>gn_annotations := dict_update (gn_annotations existing) (gn_annotations node),
     gn_label := (if gn_label existing = None then gn_label node else gn_label existing),
     gn_timestamp := (if gn_timestamp existing = None then gn_timestamp node else gn_timestamp existing),
     gn_task_id := (if gn_task_id existing = None then gn_task_id node else gn_task_id existing)\<rparr>"

definition noted_timestamp :: "string option \<Rightarrow> string list \<Rightarrow> string list" where
  "noted_timestamp ts xs = (case ts of Some t \<Rightarrow> if t \<noteq> [] then xs @ [t] else xs | None \<Rightarrow> xs)"

definition add_node :: "gnode \<Rightarrow> building \<Rightarrow> building" where
  "add_node node b =
     (case map_of (bd_nodes b) (gn_id node) of
        Some existing \<Rightarrow> b\<lparr>bd_nodes := AList.update (gn_id node) (merge_node existing node) (bd_nodes b)\<rparr>
      | None \<Rightarrow> b\<lparr>bd_nodes := AList.update (gn_id node) node (bd_nodes b),
          bd_timestamps := noted_timestamp (gn_timestamp node) (bd_timestamps b),
          bd_task_types := (case dict_get (gn_annotations node) ''task_type'' of
             PStr t \<Rightarrow> if strip t \<noteq> [] then List.insert (strip t) (bd_task_types b) else bd_task_types b
           | _ \<Rightarrow> bd_task_types b)\<rparr>)"

definition add_edge :: "gedge \<Rightarrow> building \<Rightarrow> building" where
  "add_edge edge b = b\<lparr>bd_timestamps := noted_timestamp (xe_timestamp edge) (bd_timestamps b), bd_edges := bd_edges b @ [edge]\<rparr>"

definition add_task_node :: "string \<Rightarrow> string \<Rightarrow> building \<Rightarrow> building" where
  "add_task_node task_id current b =
     (if dict_has (bd_task_nodes b) current then b
      else let kind = (if current = task_id then ''task'' else ''aggregation_child''); i = kind @ '':'' @ current
           in (add_node (new_node i kind current current None []) b)\<lparr>bd_task_nodes := AList.update current i (bd_task_nodes b)\<rparr>)"

definition task_node :: "building \<Rightarrow> string \<Rightarrow> string res" where
  "task_node b tid = (case map_of (bd_task_nodes b) tid of Some i \<Rightarrow> Inr i | None \<Rightarrow> Inl (KeyError (repr_string tid)))"

definition nodes_of :: "building \<Rightarrow> string list \<Rightarrow> gnode list" where
  "nodes_of b ids = List.map_filter (map_of (bd_nodes b)) ids"

definition task_attempts :: "building \<Rightarrow> string \<Rightarrow> gnode list" where
  "task_attempts b tid = nodes_of b (case map_of (bd_attempts b) tid of Some ids \<Rightarrow> ids | None \<Rightarrow> [])"

fun add_related :: "string \<Rightarrow> string list \<Rightarrow> building \<Rightarrow> building res" where
  "add_related task_id [] b = Inr b"
| "add_related task_id (r # rs) b =
     (let b' = add_task_node task_id r b in
      bind_res (task_node b' r) (\<lambda>source.
      bind_res (task_node b' task_id) (\<lambda>target.
        add_related task_id rs (add_edge (new_edge source target ''aggregated_into'' None []) b'))))"

subsection \<open>Observations\<close>

definition attempt_node :: "string \<Rightarrow> nat \<Rightarrow> dict \<Rightarrow> string \<Rightarrow> gnode" where
  "attempt_node tid n item ts =
     new_node (''task-attempt:'' @ tid @ '':'' @ nat_str n) ''task_attempt'' tid (tid @ '' attempt '' @ nat_str n) (Some ts)
       (pick item [''queue_name'', ''correlation_id''] @ [(''retry_attempt'', get_or item ''retry_attempt'' (PInt 0))] @
        pick item [''task_type'', ''parent_task_id'', ''consumer_name''])"

definition observe_attempt :: "string \<Rightarrow> dict \<Rightarrow> string \<Rightarrow> building \<Rightarrow> building res" where
  "observe_attempt tid item ts b =
     (let attempt_ids = (case map_of (bd_attempts b) tid of Some ids \<Rightarrow> ids | None \<Rightarrow> []);
          node = attempt_node tid (length attempt_ids + 1) item ts;
          b1 = add_node node b;
          b2 = b1\<lparr>bd_attempts := AList.update tid (attempt_ids @ [gn_id node]) (bd_attempts b1)\<rparr>
      in bind_res (task_node b2 tid) (\<lambda>source. Inr (add_edge (new_edge source (gn_id node) ''received_by'' (Some ts) []) b2)))"

definition observe_sample :: "string \<Rightarrow> dict \<Rightarrow> string \<Rightarrow> building \<Rightarrow> building" where
  "observe_sample tid item ts b =
     (let stripped = strip (text_or item ''sample_kind'' []); sample_kind = (if stripped \<noteq> [] then stripped else ''sample'')
      in add_node (new_node
           (''resource-sample:'' @ tid @ '':'' @ sample_kind @ '':'' @ (if ts \<noteq> [] then ts else nat_str (length (bd_nodes b))))
           ''resource_sample'' tid (sample_kind @ '' resource sample'') (Some ts)
           ((''sample_kind'', PStr sample_kind) # pick item [''cpu_process_seconds'', ''memory_rss_bytes'', ''queue_name'',
              ''correlation_id'', ''task_type'', ''consumer_name''])) b)"

definition message_node :: "string \<Rightarrow> string \<Rightarrow> dict \<Rightarrow> string \<Rightarrow> gnode" where
  "message_node message_id tid item ts =
     new_node (''workflow-message:'' @ message_id) ''workflow_message'' tid (text_or item ''stage'' message_id) (Some ts)
       ((''message_id'', PStr message_id) # pick item [''stage'', ''origin_stage'', ''routing_key'', ''queue_name'', ''correlation_id''])"

definition observe_published :: "string \<Rightarrow> dict \<Rightarrow> string \<Rightarrow> building \<Rightarrow> building" where
  "observe_published tid item ts b =
     (let message_id = strip (text_or item ''message_id'' []) in
      if message_id = [] then b
      else
        let node = message_node message_id tid item ts;
            b1 = (add_node node b)\<lparr>bd_messages := AList.update message_id (gn_id node) (bd_messages b)\<rparr>;
            source_stage = strip (text_or item ''origin_stage'' [])
        in if source_stage \<noteq> []
           then case latest_stage_attempt (nodes_of b1 (bd_stage_attempts b1)) (Some source_stage) (Some ts) of
                  None \<Rightarrow> b1
                | Some a \<Rightarrow> add_edge (new_edge (gn_id a) (gn_id node) ''stage_transitioned_to'' (Some ts) []) b1
           else case map_of (bd_task_nodes b1) tid of
                  None \<Rightarrow> b1
                | Some t \<Rightarrow> add_edge (new_edge t (gn_id node) ''received_by'' (Some ts) []) b1)"

text \<open>The message of a received workflow message: known from its publication, or added here.\<close>

definition received_message :: "string \<Rightarrow> string \<Rightarrow> dict \<Rightarrow> string \<Rightarrow> building \<Rightarrow> (string option \<times> building) res" where
  "received_message message_id tid item ts b =
     (if message_id = [] then Inr (None, b)
      else case map_of (bd_messages b) message_id of
        Some i \<Rightarrow> Inr (Some i, b)
      | None \<Rightarrow>
          (let node = message_node message_id tid item ts;
               b1 = (add_node node b)\<lparr>bd_messages := AList.update message_id (gn_id node) (bd_messages b)\<rparr>
           in bind_res (task_node b1 tid) (\<lambda>source.
                Inr (Some (gn_id node), add_edge (new_edge source (gn_id node) ''received_by'' (Some ts) []) b1))))"

definition stage_attempt_node :: "string \<Rightarrow> string \<Rightarrow> nat \<Rightarrow> string \<Rightarrow> dict \<Rightarrow> string \<Rightarrow> gnode" where
  "stage_attempt_node tid stage_name n message_id item ts =
     new_node (''stage-attempt:'' @ tid @ '':'' @ stage_name @ '':'' @ nat_str n) ''stage_attempt'' tid
       (stage_name @ '' attempt '' @ nat_str n) (Some ts)
       ([(''stage'', PStr stage_name), (''message_id'', opt_str (none_if_empty message_id))] @
        pick item [''origin_stage'', ''queue_name'', ''correlation_id''] @
        [(''retry_attempt'', get_or item ''retry_attempt'' (PInt 0))] @ pick item [''consumer_name''])"

definition observe_received :: "string \<Rightarrow> dict \<Rightarrow> string \<Rightarrow> building \<Rightarrow> building res" where
  "observe_received tid item ts b =
     (let message_id = strip (text_or item ''message_id'' []) in
      bind_res (received_message message_id tid item ts b) (\<lambda>(message, b1).
        let stage_name = text_or item ''stage'' ''unknown'';
            attempt_index = length (filter (\<lambda>n. dict_get (gn_annotations n) ''stage'' = PStr stage_name)
              (nodes_of b1 (bd_stage_attempts b1))) + 1;
            node = stage_attempt_node tid stage_name attempt_index message_id item ts;
            b2 = add_node node b1;
            b3 = b2\<lparr>bd_stage_attempts := bd_stage_attempts b2 @ [gn_id node]\<rparr>
        in Inr (case message of
             None \<Rightarrow> b3
           | Some m \<Rightarrow> add_edge (new_edge m (gn_id node) ''entered_stage'' (Some ts) []) b3)))"

definition retry_node :: "string \<Rightarrow> nat \<Rightarrow> dict \<Rightarrow> string \<Rightarrow> gnode" where
  "retry_node tid n item ts =
     new_node (''retry:'' @ tid @ '':'' @ nat_str n) ''retry'' tid (''retry '' @ py_str (get_or item ''retry_attempt'' (PInt 0))) (Some ts)
       (pick item [''queue_name'', ''source_queue_name'', ''retry_attempt'', ''max_retries'', ''reason''] @ [(''task_id'', PStr tid)])"

definition observe_retry :: "string \<Rightarrow> dict \<Rightarrow> string \<Rightarrow> building \<Rightarrow> building" where
  "observe_retry tid item ts b =
     (let retry_count = length (filter (\<lambda>e. xe_kind e = ''retried_as'' \<and> dict_get (xe_annotations e) ''task_id'' = PStr tid) (bd_edges b));
          node = retry_node tid (retry_count + 1) item ts;
          b1 = add_node node b;
          b2 = (case latest_attempt (task_attempts b1 tid) (Some ts) of
             None \<Rightarrow> b1
           | Some a \<Rightarrow> add_edge (new_edge (gn_id a) (gn_id node) ''retried_as'' (Some ts) [(''task_id'', PStr tid)]) b1)
      in b2\<lparr>bd_retries := bd_retries b2 @ [\<lparr>pr_task_id = tid, pr_retry_node_id = gn_id node, pr_retry_timestamp = Some ts\<rparr>]\<rparr>)"

definition dead_letter_node :: "string \<Rightarrow> nat \<Rightarrow> dict \<Rightarrow> string \<Rightarrow> gnode" where
  "dead_letter_node tid n item ts =
     new_node (''dlq:'' @ tid @ '':'' @ nat_str n) ''dlq_record'' tid (text_or item ''reason'' ''dlq'') (Some ts)
       (pick item [''queue_name'', ''source_queue_name'', ''retry_attempt'', ''max_retries'', ''reason''])"

definition observe_dead_letter :: "string \<Rightarrow> dict \<Rightarrow> string \<Rightarrow> building \<Rightarrow> building" where
  "observe_dead_letter tid item ts b =
     (let dlq_count = length (filter (\<lambda>(_, n). gn_kind n = ''dlq_record'' \<and> gn_task_id n = Some tid) (bd_nodes b));
          node = dead_letter_node tid (dlq_count + 1) item ts;
          b1 = add_node node b
      in case latest_attempt (task_attempts b1 tid) (Some ts) of
           None \<Rightarrow> b1
         | Some a \<Rightarrow> add_edge (new_edge (gn_id a) (gn_id node) ''dead_lettered_to'' (Some ts) []) b1)"

definition observe_item :: "string \<Rightarrow> dict \<Rightarrow> building \<Rightarrow> building res" where
  "observe_item tid item b =
     (let event_type = text_or item ''event_type'' []; ts = coerce_timestamp (dict_get item ''timestamp'') in
      if event_type = ''TaskMessageReceived'' \<or> event_type = ''AggregationMessageReceived'' then observe_attempt tid item ts b
      else if event_type = ''TaskResourceSampled'' then Inr (observe_sample tid item ts b)
      else if event_type = ''WorkflowMessagePublished'' then Inr (observe_published tid item ts b)
      else if event_type = ''WorkflowMessageReceived'' then observe_received tid item ts b
      else if event_type = ''ConsumerRetryScheduled'' \<or> event_type = ''AggregationRetryScheduled'' then Inr (observe_retry tid item ts b)
      else if event_type = ''ConsumerDeadLetterPublished'' \<or> event_type = ''AggregationDeadLetterPublished''
        then Inr (observe_dead_letter tid item ts b)
      else Inr b)"

text \<open>A loop that raises or goes on with the next state.\<close>

fun fold_res :: "('a \<Rightarrow> 's \<Rightarrow> 's res) \<Rightarrow> 'a list \<Rightarrow> 's \<Rightarrow> 's res" where
  "fold_res f [] s = Inr s"
| "fold_res f (x # xs) s = bind_res (f x s) (fold_res f xs)"

definition observe_all :: "(string \<times> dict list) list \<Rightarrow> building \<Rightarrow> building res" where
  "observe_all histories =
     fold_res (\<lambda>(tid, observations). fold_res (observe_item tid) (sort_by_timestamp observations)) histories"

subsection \<open>Statuses, retries and dead letters\<close>

text \<open>\<^verbatim>\<open>dict(value)\<close> of a mapping or of pairs.\<close>

fun dict_of_pairs :: "pyval list \<Rightarrow> dict \<Rightarrow> dict res" where
  "dict_of_pairs [] d = Inr d"
| "dict_of_pairs (PList [PStr k, v] # rest) d = dict_of_pairs rest (AList.update k v d)"
| "dict_of_pairs (PStr [k, v] # rest) d = dict_of_pairs rest (AList.update [k] (PStr [v]) d)"
| "dict_of_pairs (_ # rest) d = Inl (ValueError ''dictionary update sequence element has the wrong length'')"

definition py_dict :: "pyval \<Rightarrow> dict res" where
  "py_dict v =
     (case v of
        PDict d \<Rightarrow> Inr d
      | PList xs \<Rightarrow> dict_of_pairs xs []
      | PStr s \<Rightarrow> dict_of_pairs (map (\<lambda>c. PStr [c]) s) []
      | _ \<Rightarrow> Inl (TypeError ''object is not iterable''))"

definition status_node :: "string \<Rightarrow> nat \<Rightarrow> dict \<Rightarrow> gnode res" where
  "status_node tid index event =
     bind_res (if truthy (dict_get event ''meta'') then py_dict (dict_get event ''meta'') else Inr []) (\<lambda>meta.
       Inr (new_node (''status:'' @ tid @ '':'' @ nat_str index) ''status_event'' tid (text_or event ''status'' ''status'')
         (Some (coerce_timestamp (dict_get event ''timestamp'')))
         (pick event [''status'', ''message''] @ [(''meta'', PDict meta)])))"

definition status_source :: "bool \<Rightarrow> string \<Rightarrow> string \<Rightarrow> building \<Rightarrow> string res" where
  "status_source workflow tid ts b =
     (case (if workflow then latest_stage_attempt (nodes_of b (bd_stage_attempts b)) None (Some ts)
            else latest_attempt (task_attempts b tid) (Some ts)) of
        Some a \<Rightarrow> Inr (gn_id a)
      | None \<Rightarrow> task_node b tid)"

definition add_status :: "bool \<Rightarrow> string \<Rightarrow> nat \<times> dict \<Rightarrow> building \<Rightarrow> building res" where
  "add_status workflow tid indexed b =
     (case indexed of (index, event) \<Rightarrow>
      let ts = coerce_timestamp (dict_get event ''timestamp'') in
      bind_res (status_node tid index event) (\<lambda>node.
      let b1 = add_node node b in
      bind_res (status_source workflow tid ts b1) (\<lambda>source.
      let b2 = add_edge (new_edge source (gn_id node) ''published_status'' (Some ts) []) b1
      in Inr (if lower (text_or event ''status'' []) = ''manual_retrying''
         then case (latest_attempt (task_attempts b2 tid) (Some ts), next_attempt (task_attempts b2 tid) (Some ts)) of
                (Some a, Some c) \<Rightarrow> add_edge (new_edge (gn_id a) (gn_id c) ''manual_retry_to'' (Some ts) []) b2
              | _ \<Rightarrow> b2
         else b2))))"

definition add_statuses :: "bool \<Rightarrow> (string \<times> dict list) list \<Rightarrow> string list \<Rightarrow> building \<Rightarrow> building res" where
  "add_statuses workflow histories =
     fold_res (\<lambda>tid. fold_res (add_status workflow tid)
       (enumerate 1 (sort_by_timestamp (case map_of histories tid of Some h \<Rightarrow> h | None \<Rightarrow> []))))"

definition link_retry :: "pending_retry \<Rightarrow> building \<Rightarrow> building" where
  "link_retry r b =
     (case next_attempt (task_attempts b (pr_task_id r)) (pr_retry_timestamp r) of
        None \<Rightarrow> b
      | Some a \<Rightarrow> add_edge (new_edge (pr_retry_node_id r) (gn_id a) ''received_by'' (gn_timestamp a) []) b)"

definition record_node :: "string \<Rightarrow> nat \<Rightarrow> dict \<Rightarrow> gnode" where
  "record_node tid index rec =
     new_node (''dlq:'' @ tid @ '':record:'' @ nat_str index) ''dlq_record'' tid
       (text_or rec ''reason'' (text_or rec ''queue_name'' ''dlq'')) (Some (coerce_timestamp (dict_get rec ''dead_lettered_at''))) rec"

definition add_record :: "string \<Rightarrow> nat \<times> dict \<Rightarrow> building \<Rightarrow> building res" where
  "add_record tid indexed b =
     (case indexed of (index, rec) \<Rightarrow>
      let node = record_node tid index rec; ts = coerce_timestamp (dict_get rec ''dead_lettered_at'') in
      if dict_has (bd_nodes b) (gn_id node) then Inr b
      else
        let b1 = add_node node b
        in bind_res (case latest_attempt (task_attempts b1 tid) (Some ts) of
             Some a \<Rightarrow> Inr (gn_id a) | None \<Rightarrow> task_node b1 tid) (\<lambda>source.
           Inr (add_edge (new_edge source (gn_id node) ''dead_lettered_to'' (Some ts) []) b1)))"

definition add_records :: "(string \<times> dict list) list \<Rightarrow> building \<Rightarrow> building res" where
  "add_records = fold_res (\<lambda>(tid, records). fold_res (add_record tid) (enumerate 1 records))"

subsection \<open>The live state\<close>

definition state_from_status :: "string \<Rightarrow> string" where
  "state_from_status status =
     (let normalized = lower (strip status) in
      if normalized \<in> {''processing'', ''running'', ''started'', ''planning''} then ''running''
      else if normalized \<in> {''retrying'', ''manual_retrying''} then ''retrying''
      else if normalized \<in> {''completed'', ''complete'', ''succeeded'', ''success''} then ''succeeded''
      else if normalized \<in> {''dead_lettered'', ''dlq'', ''dead-lettered''} then ''dead_lettered''
      else if normalized \<in> {''failed'', ''failure'', ''error''} then ''failed''
      else if normalized \<in> {''expired'', ''lease_expired''} then ''expired''
      else if normalized \<in> {''queued'', ''pending'', ''waiting''} then ''queued''
      else if normalized \<in> {''blocked''} then ''blocked''
      else ''unknown'')"

definition later_timestamp :: "string option \<Rightarrow> string option \<Rightarrow> string option" where
  "later_timestamp current candidate =
     (case (none_if_empty (coerce_text current), none_if_empty (coerce_text candidate)) of
        (None, c) \<Rightarrow> c
      | (Some t, None) \<Rightarrow> Some t
      | (Some t, Some c) \<Rightarrow> Some (max t c))"

definition set_node_state :: "string \<Rightarrow> string option \<Rightarrow> string option \<Rightarrow> gnode \<Rightarrow> gnode" where
  "set_node_state state reason updated_at n =
     n\<lparr>gn_state := Some state, gn_state_reason := reason, gn_updated_at := later_timestamp (gn_updated_at n) updated_at\<rparr>"

definition set_edge_state :: "string \<Rightarrow> string option \<Rightarrow> string option \<Rightarrow> gedge \<Rightarrow> gedge" where
  "set_edge_state state reason updated_at e =
     e\<lparr>xe_state := Some state, xe_state_reason := reason, xe_updated_at := later_timestamp (xe_updated_at e) updated_at\<rparr>"

definition labelled :: "string \<Rightarrow> string \<Rightarrow> string \<Rightarrow> string" where
  "labelled prefix status alt = (if status \<noteq> [] then prefix @ status else alt)"

definition initial_node_state :: "(string \<times> dict) list \<Rightarrow> gnode \<Rightarrow> string \<times> string \<times> string option" where
  "initial_node_state latest n =
     (let ts = none_if_empty (coerce_text (gn_timestamp n)) in
      if gn_kind n = ''status_event''
      then let status = strip (text_or (gn_annotations n) ''status'' (case gn_label n of Some l \<Rightarrow> l | None \<Rightarrow> []))
           in (state_from_status status, labelled ''status:'' status ''status_event'', ts)
      else if gn_kind n = ''retry'' then (''retrying'', ''retry_scheduled'', ts)
      else if gn_kind n = ''dlq_record''
      then if lower (strip (text_or (gn_annotations n) ''state'' [])) = ''replayed''
           then (''replayed'', ''dlq_replayed'',
             case none_if_empty (coerce_timestamp (dict_get (gn_annotations n) ''replayed_at'')) of Some t \<Rightarrow> Some t | None \<Rightarrow> ts)
           else (''dead_lettered'', ''dlq_recorded'', ts)
      else if gn_kind n = ''task_attempt'' \<or> gn_kind n = ''stage_attempt'' then (''running'', ''message_received'', ts)
      else if gn_kind n = ''workflow_message'' then (''queued'', ''workflow_message_created'', ts)
      else case (if gn_kind n = ''task'' \<or> gn_kind n = ''aggregation_child'' then Option.bind (gn_task_id n) (map_of latest) else None) of
        Some event \<Rightarrow>
          (let status = strip (text_or event ''status'' [])
           in (state_from_status status, labelled ''latest_status:'' status ''latest_status'',
               case none_if_empty (coerce_timestamp (dict_get event ''timestamp'')) of Some t \<Rightarrow> Some t | None \<Rightarrow> ts))
      | None \<Rightarrow> (''unknown'', ''insufficient_evidence'', ts))"

definition edge_state :: "gedge \<Rightarrow> string \<times> string" where
  "edge_state e =
     (if xe_kind e = ''retried_as'' \<or> xe_kind e = ''manual_retry_to'' then (''retry_path'', xe_kind e)
      else if xe_kind e = ''dead_lettered_to'' then (''blocked'', xe_kind e)
      else if xe_kind e = ''replayed_as'' then (''replay_path'', xe_kind e)
      else if xe_kind e \<in> {''received_by'', ''entered_stage'', ''stage_transitioned_to'', ''published_status'', ''aggregated_into''}
        then (''traversed'', xe_kind e)
      else (''unknown'', if xe_kind e \<noteq> [] then xe_kind e else ''unknown''))"

text \<open>The nodes by their ids, in order; \<open>on_node\<close> changes the node of an id when there is one.\<close>

definition node_named :: "string \<Rightarrow> gnode list \<Rightarrow> gnode option" where
  "node_named i nodes = find (\<lambda>n. gn_id n = i) nodes"

definition on_node :: "string \<Rightarrow> (gnode \<Rightarrow> gnode) \<Rightarrow> gnode list \<Rightarrow> gnode list" where
  "on_node i f nodes = map (\<lambda>n. if gn_id n = i then f n else n) nodes"

definition state_in :: "string list \<Rightarrow> gnode \<Rightarrow> bool" where
  "state_in states n = (case gn_state n of Some s \<Rightarrow> s \<in> set states | None \<Rightarrow> False)"

definition project_edge :: "gedge \<Rightarrow> gnode list \<Rightarrow> gnode list" where
  "project_edge e nodes =
     (if xe_kind e = ''dead_lettered_to''
      then on_node (xe_target e) (\<lambda>n. set_node_state
             (case gn_state n of Some s \<Rightarrow> if s \<noteq> [] then s else ''dead_lettered'' | None \<Rightarrow> ''dead_lettered'')
             (gn_state_reason n) (gn_updated_at n) n)
           (on_node (xe_source e) (set_node_state ''dead_lettered'' (Some ''dead_lettered_to'') (xe_timestamp e)) nodes)
      else if xe_kind e = ''retried_as'' \<or> xe_kind e = ''manual_retry_to''
      then on_node (xe_source e) (\<lambda>n. if state_in [''dead_lettered'', ''replayed'', ''succeeded'', ''failed''] n then n
             else set_node_state ''retrying'' (Some (xe_kind e)) (xe_timestamp e) n) nodes
      else if xe_kind e = ''published_status''
      then case node_named (xe_target e) nodes of
             None \<Rightarrow> nodes
           | Some target \<Rightarrow>
               if state_in [''succeeded'', ''failed'', ''retrying''] target
               then on_node (xe_source e) (\<lambda>n. if state_in [''dead_lettered'', ''replayed''] n then n
                      else set_node_state (case gn_state target of Some s \<Rightarrow> s | None \<Rightarrow> []) (Some ''latest_status'') (gn_updated_at target) n) nodes
               else nodes
      else nodes)"

definition latest_statuses :: "(string \<times> dict list) list \<Rightarrow> (string \<times> dict) list" where
  "latest_statuses histories =
     List.map_filter (\<lambda>(tid, h). if h = [] then None else Some (tid, last (sort_by_timestamp h))) histories"

definition project_live_state ::
  "gnode list \<Rightarrow> gedge list \<Rightarrow> (string \<times> dict list) list \<Rightarrow> gnode list \<times> gedge list" where
  "project_live_state nodes edges histories =
     (let nodes1 = map (\<lambda>n. case initial_node_state (latest_statuses histories) n of (state, reason, updated) \<Rightarrow>
            set_node_state state (Some reason) updated n) nodes;
          edges1 = map (\<lambda>e. case edge_state e of (state, reason) \<Rightarrow>
            set_edge_state state (Some reason) (none_if_empty (coerce_text (xe_timestamp e))) e) edges
      in (fold project_edge edges1 nodes1, edges1))"

definition live_state_counts :: "gnode list \<Rightarrow> (string \<times> int) list" where
  "live_state_counts nodes =
     sort_key fst (fold (\<lambda>n counts.
       let state = (case gn_state n of Some s \<Rightarrow> if s \<noteq> [] then s else ''unknown'' | None \<Rightarrow> ''unknown'')
       in AList.update state ((case map_of counts state of Some c \<Rightarrow> c | None \<Rightarrow> 0) + 1) counts) nodes [])"

subsection \<open>Summary and graph\<close>

text \<open>The clock of the language: what \<^verbatim>\<open>fromisoformat\<close> reads, and the milliseconds from one instant to another.\<close>

record 't date_reader =
  dr_fromisoformat :: "string \<Rightarrow> 't res"
  dr_milliseconds :: "'t \<Rightarrow> 't \<Rightarrow> int res"

definition parse_timestamp :: "'t date_reader \<Rightarrow> string \<Rightarrow> 't res" where
  "parse_timestamp D value = dr_fromisoformat D (concat (map (\<lambda>c. if c = CHR ''Z'' then ''+00:00'' else [c]) value))"

definition build_summary ::
  "'t date_reader \<Rightarrow> dict list \<Rightarrow> string list \<Rightarrow> bool \<Rightarrow> gnode list \<Rightarrow> graph_summary res" where
  "build_summary D status_history all_timestamps has_observations nodes =
     (let ordered = sort_by_timestamp status_history;
          latest_root_status = (if status_history = [] then None else none_if_empty (strip (text_or (last ordered) ''status'' [])));
          ended = (if status_history = [] then None else Some (coerce_timestamp (dict_get (last ordered) ''timestamp'')));
          timestamps = sort (filter (\<lambda>t. t \<noteq> []) all_timestamps);
          started_at = (if timestamps \<noteq> [] then Some (hd timestamps) else None);
          ended_at = (if ended = None \<and> timestamps \<noteq> [] then Some (last timestamps) else ended)
      in bind_res (case (Option.bind started_at none_if_empty, Option.bind ended_at none_if_empty) of
             (Some s, Some e) \<Rightarrow>
               bind_res (parse_timestamp D e) (\<lambda>te. bind_res (parse_timestamp D s) (\<lambda>ts.
               bind_res (dr_milliseconds D te ts) (\<lambda>ms. Inr (Some ms))))
           | _ \<Rightarrow> Inr None) (\<lambda>duration_ms.
         Inr \<lparr>gy_status = latest_root_status, gy_started_at = started_at, gy_ended_at = ended_at, gy_duration_ms = duration_ms,
           gy_graph_completeness = (if has_observations then ''full'' else ''partial''),
           gy_live_state_counts = live_state_counts nodes\<rparr>))"

definition build_nodes_and_edges ::
  "topology \<Rightarrow> string \<Rightarrow> (string \<times> dict list) list \<Rightarrow> (string \<times> dict list) list \<Rightarrow> (string \<times> dict list) list \<Rightarrow>
   string list \<Rightarrow> building res" where
  "build_nodes_and_edges topo task_id statuses observations records related =
     bind_res (add_related task_id related (add_task_node task_id task_id building_start)) (\<lambda>b1.
     bind_res (observe_all observations b1) (\<lambda>b2.
     bind_res (add_statuses (topology_kind topo = ''shared_status_workflow'') statuses
       (sorted_set (task_id # related @ map fst statuses @ map fst observations)) b2) (\<lambda>b3.
     add_records records (fold link_retry (bd_retries b3) b3))))"

definition build_execution_graph ::
  "'t date_reader \<Rightarrow> topology \<Rightarrow> string \<Rightarrow> (string \<times> dict list) list \<Rightarrow> (string \<times> dict list) list \<Rightarrow>
   (string \<times> dict list) list \<Rightarrow> string list \<Rightarrow> execution_graph res" where
  "build_execution_graph D topo task_id statuses observations records related_task_ids =
     (let related = sorted_set (filter (\<lambda>r. r \<noteq> [] \<and> r \<noteq> task_id) related_task_ids) in
      bind_res (build_nodes_and_edges topo task_id statuses observations records related) (\<lambda>b.
      let nodes = sort_key (\<lambda>n. (coerce_text (gn_timestamp n), gn_id n)) (map snd (bd_nodes b));
          edges = sort_key (\<lambda>e. (coerce_text (xe_timestamp e), xe_kind e, xe_source e, xe_target e)) (bd_edges b);
          (nodes1, edges1) = project_live_state nodes edges statuses
      in bind_res (build_summary D (case map_of statuses task_id of Some h \<Rightarrow> h | None \<Rightarrow> []) (bd_timestamps b)
           (observations \<noteq> []) nodes1) (\<lambda>summary.
         Inr \<lparr>xg_task_id = task_id, xg_topology_kind = topology_kind topo, xg_summary = summary, xg_nodes = nodes1, xg_edges = edges1,
           xg_annotations = (if bd_task_types b \<noteq> [] then [(''task_types'', PList (map PStr (sort (bd_task_types b))))] else []),
           xg_related_task_ids = related\<rparr>)))"

subsection \<open>Mermaid text and the service\<close>

definition escape_mermaid_label :: "string \<Rightarrow> string" where
  "escape_mermaid_label value = concat (map (\<lambda>c. if c = CHR 0x22 then [CHR 0x5C, CHR 0x22] else [c]) value)"

definition mermaid_node_line :: "(string \<times> string) list \<Rightarrow> gnode \<Rightarrow> string res" where
  "mermaid_node_line ids n =
     bind_res (node_id ids (gn_id n)) (\<lambda>i.
       let label = (case gn_label n of Some l \<Rightarrow> if l \<noteq> [] then l else gn_id n | None \<Rightarrow> gn_id n);
           parts = filter (\<lambda>p. p \<noteq> []) [label, strip (gn_kind n), coerce_text (gn_timestamp n)]
       in Inr (''    '' @ i @ ''['' @ quote2 @ join ([CHR 0x5C] @ ''n'') (map escape_mermaid_label parts) @ quote2 @ '']''))"

definition mermaid_edge_line :: "(string \<times> string) list \<Rightarrow> gedge \<Rightarrow> string option" where
  "mermaid_edge_line ids e =
     (case (map_of ids (xe_source e), map_of ids (xe_target e)) of
        (Some s, Some t) \<Rightarrow> Some (''    '' @ s @ '' -->|'' @ escape_mermaid_label (xe_kind e) @ ''| '' @ t)
      | _ \<Rightarrow> None)"

definition mermaid_lines :: "execution_graph \<Rightarrow> string list res" where
  "mermaid_lines g =
     (let ids = build_mermaid_node_ids (map gn_id (xg_nodes g)) ''node'' in
      bind_res (map_res (mermaid_node_line ids) (xg_nodes g)) (\<lambda>nodes.
      Inr (''flowchart LR'' # nodes @ List.map_filter (mermaid_edge_line ids) (xg_edges g))))"

definition execution_graph_mermaid :: "execution_graph \<Rightarrow> string res" where
  "execution_graph_mermaid g = bind_res (mermaid_lines g) (\<lambda>lines. Inr (join [CHR 0x0A] lines))"

text \<open>What the stores answer for a task.\<close>

record 't graph_service =
  gx_topology :: topology
  gx_children :: "string \<Rightarrow> string list res"
  gx_history :: "string \<Rightarrow> dict list res"
  gx_observations :: "(string \<Rightarrow> dict list res) option"
  gx_dead_letters :: "(string \<Rightarrow> dict list res) option"
  gx_dates :: "'t date_reader"

definition load_task_history :: "'t graph_service \<Rightarrow> string \<Rightarrow> (string \<times> dict list \<times> dict list) res" where
  "load_task_history G tid =
     bind_res (gx_history G tid) (\<lambda>history.
     bind_res (case gx_observations G of None \<Rightarrow> Inr [] | Some obs \<Rightarrow> obs tid) (\<lambda>observations.
       Inr (tid, history, observations)))"

definition get_graph :: "'t graph_service \<Rightarrow> string \<Rightarrow> execution_graph option res" where
  "get_graph G task_id =
     bind_res (gx_children G task_id) (\<lambda>related_task_ids.
     let targets = task_id # filter (\<lambda>i. i \<noteq> task_id) related_task_ids in
     bind_res (map_res (load_task_history G) targets) (\<lambda>loaded.
     bind_res (case gx_dead_letters G of None \<Rightarrow> Inr []
       | Some dlq \<Rightarrow> map_res (\<lambda>tid. bind_res (dlq tid) (\<lambda>rs. Inr (tid, rs))) targets) (\<lambda>task_records.
     let statuses = fold (\<lambda>(tid, h, obs) d. if h \<noteq> [] then AList.update tid h d else d) loaded [];
         observations = fold (\<lambda>(tid, h, obs) d. if obs \<noteq> [] then AList.update tid obs d else d) loaded [];
         records = dict_update [] (filter (\<lambda>(tid, rs). rs \<noteq> []) task_records)
     in if statuses = [] \<and> observations = [] \<and> records = [] then Inr None
        else bind_res (build_execution_graph (gx_dates G) (gx_topology G) task_id statuses observations records related_task_ids)
          (\<lambda>g. Inr (Some g)))))"

subsection \<open>The builder keeps the graph closed\<close>

declare map_of_eq_Some_iff [simp del] Some_eq_map_of_iff [simp del]

definition known_ids :: "building \<Rightarrow> string set" where
  "known_ids b = dom (map_of (bd_nodes b))"

definition nodes_ok :: "building \<Rightarrow> bool" where
  "nodes_ok b \<longleftrightarrow> dict_wf (bd_nodes b) \<and> (\<forall>i n. map_of (bd_nodes b) i = Some n \<longrightarrow> gn_id n = i)"

definition refs_ok :: "string set \<Rightarrow> string set \<Rightarrow> building \<Rightarrow> bool" where
  "refs_ok K T b \<longleftrightarrow>
     (\<forall>e \<in> set (bd_edges b). xe_source e \<in> K \<and> xe_target e \<in> K \<and> (\<forall>t. xe_timestamp e = Some t \<and> t \<noteq> [] \<longrightarrow> t \<in> T)) \<and>
     (\<forall>t i. map_of (bd_task_nodes b) t = Some i \<longrightarrow> i \<in> K) \<and>
     (\<forall>t is. map_of (bd_attempts b) t = Some is \<longrightarrow> set is \<subseteq> K) \<and>
     set (bd_stage_attempts b) \<subseteq> K \<and>
     (\<forall>m i. map_of (bd_messages b) m = Some i \<longrightarrow> i \<in> K) \<and>
     (\<forall>r \<in> set (bd_retries b). pr_retry_node_id r \<in> K)"

definition building_ok :: "building \<Rightarrow> bool" where
  "building_ok b \<longleftrightarrow> nodes_ok b \<and> refs_ok (known_ids b) (set (bd_timestamps b)) b"

lemma refs_ok_mono: "refs_ok K T b \<Longrightarrow> K \<subseteq> K' \<Longrightarrow> T \<subseteq> T' \<Longrightarrow> refs_ok K' T' b"
  unfolding refs_ok_def by (intro conjI; blast)

text \<open>A step of the builder keeps the invariant, all edges and nodes, and the table of tasks.\<close>

definition extends :: "building \<Rightarrow> building \<Rightarrow> bool" where
  "extends b b' \<longleftrightarrow> (building_ok b \<longrightarrow> building_ok b') \<and> set (bd_edges b) \<subseteq> set (bd_edges b') \<and>
     known_ids b \<subseteq> known_ids b' \<and> bd_task_nodes b' = bd_task_nodes b"

lemma extends_refl [simp]: "extends b b"
  by (simp add: extends_def)

lemma extends_trans: "extends a b \<Longrightarrow> extends b c \<Longrightarrow> extends a c"
  by (auto simp: extends_def)

lemma fold_res_extends:
  "(\<And>x s s'. x \<in> set xs \<Longrightarrow> f x s = Inr s' \<Longrightarrow> extends s s') \<Longrightarrow> fold_res f xs s = Inr s' \<Longrightarrow> extends s s'"
proof (induction xs arbitrary: s)
  case (Cons x xs)
  from Cons.prems(2) obtain t where t: "f x s = Inr t" "fold_res f xs t = Inr s'" by auto
  have "extends s t" by (rule Cons.prems(1)[OF _ t(1)]) simp
  moreover have "extends t s'" by (rule Cons.IH[OF _ t(2)]) (rule Cons.prems(1), auto)
  ultimately show ?case by (rule extends_trans)
qed simp

lemma add_node_fields [simp]:
  "bd_edges (add_node n b) = bd_edges b" "bd_task_nodes (add_node n b) = bd_task_nodes b"
  "bd_attempts (add_node n b) = bd_attempts b" "bd_stage_attempts (add_node n b) = bd_stage_attempts b"
  "bd_messages (add_node n b) = bd_messages b" "bd_retries (add_node n b) = bd_retries b"
  by (simp_all add: add_node_def split: option.splits)

lemma add_edge_fields [simp]:
  "bd_nodes (add_edge e b) = bd_nodes b" "bd_edges (add_edge e b) = bd_edges b @ [e]" "bd_task_nodes (add_edge e b) = bd_task_nodes b"
  "bd_attempts (add_edge e b) = bd_attempts b" "bd_stage_attempts (add_edge e b) = bd_stage_attempts b"
  "bd_messages (add_edge e b) = bd_messages b" "bd_retries (add_edge e b) = bd_retries b"
  "bd_timestamps (add_edge e b) = noted_timestamp (xe_timestamp e) (bd_timestamps b)"
  by (simp_all add: add_edge_def)

lemma known_ids_add_node [simp]: "known_ids (add_node n b) = insert (gn_id n) (known_ids b)"
  by (auto simp: known_ids_def add_node_def split: option.splits)

lemma known_ids_add_edge [simp]: "known_ids (add_edge e b) = known_ids b"
  by (simp add: known_ids_def)

lemma known_ids_frame [simp]:
  "known_ids (b\<lparr>bd_attempts := a\<rparr>) = known_ids b" "known_ids (b\<lparr>bd_stage_attempts := sa\<rparr>) = known_ids b"
  "known_ids (b\<lparr>bd_messages := m\<rparr>) = known_ids b" "known_ids (b\<lparr>bd_retries := r\<rparr>) = known_ids b"
  "known_ids (b\<lparr>bd_task_nodes := t\<rparr>) = known_ids b"
  by (simp_all add: known_ids_def)

lemma new_node_id [simp]: "gn_id (new_node i k t l ts a) = i"
  by (simp add: new_node_def)

lemma new_edge_sel [simp]:
  "xe_source (new_edge s t k ts a) = s" "xe_target (new_edge s t k ts a) = t" "xe_kind (new_edge s t k ts a) = k"
  "xe_timestamp (new_edge s t k ts a) = ts" "xe_annotations (new_edge s t k ts a) = a"
  by (simp_all add: new_edge_def)

lemma set_noted [simp]: "set (noted_timestamp ts xs) = set xs \<union> {t. ts = Some t \<and> t \<noteq> []}"
  by (auto simp: noted_timestamp_def split: option.splits)

lemma refs_ok_add_node [simp]: "refs_ok K T (add_node n b) \<longleftrightarrow> refs_ok K T b"
  by (simp add: refs_ok_def)

lemma nodes_ok_add_node: "nodes_ok b \<Longrightarrow> nodes_ok (add_node n b)"
  by (auto simp: nodes_ok_def add_node_def merge_node_def split: option.splits)

lemma add_node_extends: "extends b (add_node n b)"
proof -
  have t: "set (bd_timestamps b) \<subseteq> set (bd_timestamps (add_node n b))" by (auto simp: add_node_def split: option.splits)
  have "building_ok (add_node n b)" if "building_ok b"
    using that nodes_ok_add_node refs_ok_mono[OF _ subset_insertI t] unfolding building_ok_def by simp
  then show ?thesis by (auto simp: extends_def)
qed

lemma add_edge_extends: "xe_source e \<in> known_ids b \<Longrightarrow> xe_target e \<in> known_ids b \<Longrightarrow> extends b (add_edge e b)"
  by (auto simp: extends_def building_ok_def nodes_ok_def refs_ok_def)

text \<open>What the searches for attempts return is one of the attempts.\<close>

lemma latest_attempt_mem: "latest_attempt ns ts = Some n \<Longrightarrow> n \<in> set ns"
  by (auto simp: latest_attempt_def Let_def split: if_splits option.splits dest: last_in_set)

lemma next_attempt_mem: "next_attempt ns ts = Some n \<Longrightarrow> n \<in> set ns"
  by (auto simp: next_attempt_def Let_def split: if_splits option.splits)
    (metis (no_types, lifting) filter_is_subset hd_in_set subsetD)

lemma latest_stage_attempt_mem: "latest_stage_attempt ns st ts = Some n \<Longrightarrow> n \<in> set ns"
  unfolding latest_stage_attempt_def Let_def by (metis (no_types, lifting) filter_is_subset last_in_set option.distinct(1) option.inject subsetD)

lemma nodes_of_mem: "nodes_ok b \<Longrightarrow> n \<in> set (nodes_of b ids) \<Longrightarrow> gn_id n \<in> known_ids b"
  by (auto simp: nodes_of_def map_filter_def nodes_ok_def known_ids_def)

lemma attempt_known:
  "nodes_ok b \<Longrightarrow> latest_attempt (task_attempts b tid) ts = Some n \<Longrightarrow> gn_id n \<in> known_ids b"
  "nodes_ok b \<Longrightarrow> next_attempt (task_attempts b tid) ts = Some n \<Longrightarrow> gn_id n \<in> known_ids b"
  "nodes_ok b \<Longrightarrow> latest_stage_attempt (nodes_of b ids) st ts = Some n \<Longrightarrow> gn_id n \<in> known_ids b"
  unfolding task_attempts_def
  by (blast dest: latest_attempt_mem next_attempt_mem latest_stage_attempt_mem intro: nodes_of_mem)+

lemma task_node_known: "building_ok b \<Longrightarrow> task_node b tid = Inr i \<Longrightarrow> i \<in> known_ids b"
  by (auto simp: task_node_def building_ok_def refs_ok_def split: option.splits)

text \<open>An edge between known ids, and the tables of the builder, may be added under the invariant.\<close>

lemma extendsI:
  assumes "building_ok b \<Longrightarrow> extends b b'" and "\<not> building_ok b \<Longrightarrow> set (bd_edges b) \<subseteq> set (bd_edges b') \<and> known_ids b \<subseteq> known_ids b' \<and> bd_task_nodes b' = bd_task_nodes b"
  shows "extends b b'"
  using assms unfolding extends_def by blast

lemma add_edge_under:
  "(building_ok b \<Longrightarrow> xe_source e \<in> known_ids b \<and> xe_target e \<in> known_ids b) \<Longrightarrow> extends b (add_edge e b)"
  by (rule extendsI) (auto intro: add_edge_extends)

lemma attempt_edge_extends:
  "latest_attempt (task_attempts b tid) ts = Some a \<Longrightarrow> i \<in> known_ids b \<Longrightarrow> extends b (add_edge (new_edge (gn_id a) i k t an) b)"
  by (rule add_edge_under) (simp add: attempt_known(1) building_ok_def)

lemma table_extends:
  "i \<in> known_ids b \<Longrightarrow> extends b (b\<lparr>bd_messages := AList.update m i (bd_messages b)\<rparr>)"
  "i \<in> known_ids b \<Longrightarrow> extends b (b\<lparr>bd_stage_attempts := bd_stage_attempts b @ [i]\<rparr>)"
  "pr_retry_node_id r \<in> known_ids b \<Longrightarrow> extends b (b\<lparr>bd_retries := bd_retries b @ [r]\<rparr>)"
  by (auto simp: extends_def building_ok_def nodes_ok_def refs_ok_def)

lemma attempts_extend:
  "i \<in> known_ids b \<Longrightarrow> extends b (b\<lparr>bd_attempts := AList.update tid
     ((case map_of (bd_attempts b) tid of Some ids \<Rightarrow> ids | None \<Rightarrow> []) @ [i]) (bd_attempts b)\<rparr>)"
  by (cases "map_of (bd_attempts b) tid") (auto simp: extends_def building_ok_def nodes_ok_def refs_ok_def)

subsection \<open>Every step extends the graph\<close>

lemma observe_attempt_extends: "observe_attempt tid item ts b = Inr b' \<Longrightarrow> extends b b'"
proof -
  assume run: "observe_attempt tid item ts b = Inr b'"
  define ids where "ids = (case map_of (bd_attempts b) tid of Some ids \<Rightarrow> ids | None \<Rightarrow> [])"
  define node where "node = attempt_node tid (length ids + 1) item ts"
  define b2 where "b2 = (add_node node b)\<lparr>bd_attempts := AList.update tid (ids @ [gn_id node]) (bd_attempts (add_node node b))\<rparr>"
  obtain source where b': "b' = add_edge (new_edge source (gn_id node) ''received_by'' (Some ts) []) b2"
    and source: "task_node b2 tid = Inr source"
    using run unfolding observe_attempt_def Let_def ids_def[symmetric] node_def[symmetric] b2_def[symmetric] by auto
  have 1: "extends b (add_node node b)" by (rule add_node_extends)
  have 2: "extends (add_node node b) b2" unfolding b2_def using attempts_extend[of "gn_id node" "add_node node b" tid] by (simp add: ids_def)
  have 3: "extends b2 b'" unfolding b' by (rule add_edge_under) (use task_node_known[OF _ source] in \<open>auto simp: b2_def\<close>)
  show ?thesis using 1 2 3 extends_trans by blast
qed

lemma add_message_extends:
  "extends b ((add_node n b)\<lparr>bd_messages := AList.update m (gn_id n) (bd_messages b)\<rparr>)"
  using extends_trans[OF add_node_extends table_extends(1)[of "gn_id n" "add_node n b" m]] by simp

lemma observe_published_extends: "extends b (observe_published tid item ts b)"
proof (cases "strip (text_or item ''message_id'' []) = []")
  case False
  define n where "n = message_node (strip (text_or item ''message_id'' [])) tid item ts"
  define b1 where "b1 = (add_node n b)\<lparr>bd_messages := AList.update (strip (text_or item ''message_id'' [])) (gn_id n) (bd_messages b)\<rparr>"
  have 1: "extends b b1" unfolding b1_def by (rule add_message_extends)
  have k: "gn_id n \<in> known_ids b1" by (simp add: b1_def)
  have "extends b1 (observe_published tid item ts b)"
    using False k unfolding observe_published_def Let_def n_def[symmetric] b1_def[symmetric]
    by (auto split: option.splits intro!: add_edge_under dest: attempt_known(3) simp: building_ok_def refs_ok_def)
  with 1 show ?thesis by (rule extends_trans)
qed (simp add: observe_published_def)

lemma received_message_extends:
  assumes "received_message m tid item ts b = Inr (x, b')"
  shows "extends b b' \<and> (building_ok b \<longrightarrow> (\<forall>i. x = Some i \<longrightarrow> i \<in> known_ids b'))"
proof (cases "m = [] \<or> map_of (bd_messages b) m \<noteq> None")
  case True
  then show ?thesis using assms by (auto simp: received_message_def building_ok_def refs_ok_def split: if_splits option.splits)
next
  case False
  define n where "n = message_node m tid item ts"
  define b1 where "b1 = (add_node n b)\<lparr>bd_messages := AList.update m (gn_id n) (bd_messages b)\<rparr>"
  obtain source where s: "task_node b1 tid = Inr source" and b': "b' = add_edge (new_edge source (gn_id n) ''received_by'' (Some ts) []) b1" and x: "x = Some (gn_id n)"
    using assms False unfolding received_message_def Let_def n_def[symmetric] b1_def[symmetric] by auto
  have 1: "extends b b1" unfolding b1_def by (rule add_message_extends)
  have k: "gn_id n \<in> known_ids b1" by (simp add: b1_def)
  have "extends b1 b'" unfolding b' by (rule add_edge_under) (use task_node_known[OF _ s] k in auto)
  then show ?thesis using extends_trans[OF 1] k by (auto simp: x b')
qed

lemma observe_received_extends: "observe_received tid item ts b = Inr b' \<Longrightarrow> extends b b'"
proof -
  assume run: "observe_received tid item ts b = Inr b'"
  then obtain message b1 where m: "received_message (strip (text_or item ''message_id'' [])) tid item ts b = Inr (message, b1)"
    unfolding observe_received_def Let_def by auto
  define stage where "stage = text_or item ''stage'' ''unknown''"
  define node where "node = stage_attempt_node tid stage (length (filter (\<lambda>n. dict_get (gn_annotations n) ''stage'' = PStr stage)
    (nodes_of b1 (bd_stage_attempts b1))) + 1) (strip (text_or item ''message_id'' [])) item ts"
  define i where "i = gn_id node"
  have node: "gn_id node = i" by (simp add: i_def)
  have b': "b' = (case message of None \<Rightarrow> (add_node node b1)\<lparr>bd_stage_attempts := bd_stage_attempts (add_node node b1) @ [i]\<rparr>
      | Some m \<Rightarrow> add_edge (new_edge m i ''entered_stage'' (Some ts) []) ((add_node node b1)\<lparr>bd_stage_attempts := bd_stage_attempts (add_node node b1) @ [i]\<rparr>))"
    using run m by (cases message) (simp_all add: observe_received_def Let_def stage_def node_def i_def)
  let ?b3 = "(add_node node b1)\<lparr>bd_stage_attempts := bd_stage_attempts (add_node node b1) @ [i]\<rparr>"
  note r = received_message_extends[OF m]
  have "extends b1 (add_node node b1)" by (rule add_node_extends)
  moreover have "extends (add_node node b1) ?b3" by (rule table_extends(2)) (simp add: node)
  ultimately have b3: "extends b ?b3" using r extends_trans by blast
  show ?thesis
  proof (cases message)
    case (Some m)
    have "extends b (add_edge (new_edge m i ''entered_stage'' (Some ts) []) ?b3)"
    proof (rule extendsI)
      assume "building_ok b"
      then have "m \<in> known_ids b1" using r Some by simp
      then have "extends ?b3 (add_edge (new_edge m i ''entered_stage'' (Some ts) []) ?b3)" by (intro add_edge_under) (simp add: node)
      with b3 show "extends b (add_edge (new_edge m i ''entered_stage'' (Some ts) []) ?b3)" by (rule extends_trans)
    qed (use b3 in \<open>auto simp: extends_def\<close>)
    then show ?thesis by (simp add: b' Some)
  qed (use b3 in \<open>simp add: b'\<close>)
qed

lemma observe_retry_extends: "extends b (observe_retry tid item ts b)"
proof -
  define node where "node = retry_node tid (length (filter (\<lambda>e. xe_kind e = ''retried_as'' \<and>
    dict_get (xe_annotations e) ''task_id'' = PStr tid) (bd_edges b)) + 1) item ts"
  define b2 where "b2 = (case latest_attempt (task_attempts (add_node node b) tid) (Some ts) of
      None \<Rightarrow> add_node node b
    | Some a \<Rightarrow> add_edge (new_edge (gn_id a) (gn_id node) ''retried_as'' (Some ts) [(''task_id'', PStr tid)]) (add_node node b))"
  have "extends (add_node node b) b2" unfolding b2_def
    by (auto split: option.splits intro: attempt_edge_extends)
  then have "extends b b2" by (rule extends_trans[OF add_node_extends])
  moreover have "gn_id node \<in> known_ids b2" by (simp add: b2_def split: option.splits)
  then have "extends b2 (observe_retry tid item ts b)"
    unfolding observe_retry_def Let_def node_def[symmetric] b2_def[symmetric] by (intro table_extends(3)) simp
  ultimately show ?thesis by (rule extends_trans)
qed

lemma observe_dead_letter_extends: "extends b (observe_dead_letter tid item ts b)"
proof -
  define node where "node = dead_letter_node tid (length (filter (\<lambda>(_, n). gn_kind n = ''dlq_record'' \<and> gn_task_id n = Some tid) (bd_nodes b)) + 1) item ts"
  have "extends (add_node node b) (observe_dead_letter tid item ts b)"
    unfolding observe_dead_letter_def Let_def node_def[symmetric]
    by (auto split: option.splits intro: attempt_edge_extends)
  then show ?thesis by (rule extends_trans[OF add_node_extends])
qed

lemma observe_item_extends: "observe_item tid item b = Inr b' \<Longrightarrow> extends b b'"
  by (auto simp: observe_item_def Let_def observe_sample_def split: if_splits
    intro: observe_attempt_extends observe_received_extends observe_published_extends observe_retry_extends
      observe_dead_letter_extends add_node_extends)

lemma observe_all_extends: "observe_all hs b = Inr b' \<Longrightarrow> extends b b'"
  unfolding observe_all_def
  by (erule fold_res_extends[rotated]) (auto elim!: fold_res_extends[rotated] intro: observe_item_extends)

lemma status_source_known: "building_ok b \<Longrightarrow> status_source w tid ts b = Inr i \<Longrightarrow> i \<in> known_ids b"
  using attempt_known(1,3)[of b] task_node_known[of b]
  by (auto simp: status_source_def building_ok_def split: option.splits if_splits)

text \<open>A status event is connected by an edge that carries its timestamp.\<close>

lemma add_status_extends:
  assumes "add_status w tid (index, event) b = Inr b'"
  shows "extends b b' \<and> (\<exists>e \<in> set (bd_edges b'). xe_kind e = ''published_status'' \<and>
    xe_target e = ''status:'' @ tid @ '':'' @ nat_str index \<and> xe_timestamp e = Some (coerce_timestamp (dict_get event ''timestamp'')))"
proof -
  let ?ts = "coerce_timestamp (dict_get event ''timestamp'')"
  obtain node source where node: "status_node tid index event = Inr node" and source: "status_source w tid ?ts (add_node node b) = Inr source"
    and b': "b' = (let b2 = add_edge (new_edge source (gn_id node) ''published_status'' (Some ?ts) []) (add_node node b)
       in if lower (text_or event ''status'' []) = ''manual_retrying''
         then case (latest_attempt (task_attempts b2 tid) (Some ?ts), next_attempt (task_attempts b2 tid) (Some ?ts)) of
                (Some a, Some c) \<Rightarrow> add_edge (new_edge (gn_id a) (gn_id c) ''manual_retry_to'' (Some ?ts) []) b2
              | _ \<Rightarrow> b2
         else b2)"
    using assms by (auto simp: add_status_def Let_def)
  define b2 where "b2 = add_edge (new_edge source (gn_id node) ''published_status'' (Some ?ts) []) (add_node node b)"
  have i: "gn_id node = ''status:'' @ tid @ '':'' @ nat_str index" using node by (auto simp: status_node_def)
  have "extends (add_node node b) b2" unfolding b2_def by (rule add_edge_under) (use status_source_known[OF _ source] in auto)
  then have 2: "extends b b2" by (rule extends_trans[OF add_node_extends])
  have 3: "extends b2 b'" unfolding b' b2_def[symmetric] Let_def
    by (auto split: option.splits intro!: add_edge_under dest: attempt_known simp: building_ok_def)
  have "new_edge source (gn_id node) ''published_status'' (Some ?ts) [] \<in> set (bd_edges b2)" by (simp add: b2_def)
  then have "new_edge source (gn_id node) ''published_status'' (Some ?ts) [] \<in> set (bd_edges b')" using 3 by (auto simp: extends_def)
  then show ?thesis using extends_trans[OF 2 3] i by (intro conjI) (auto intro!: bexI)
qed

lemma link_retry_extends: "(building_ok b \<longrightarrow> pr_retry_node_id r \<in> known_ids b) \<Longrightarrow> extends b (link_retry r b)"
  unfolding link_retry_def
  by (auto split: option.splits intro!: add_edge_under dest: attempt_known(2) simp: building_ok_def)

lemma link_retry_mono:
  "set (bd_edges b) \<subseteq> set (bd_edges (link_retry r b)) \<and> known_ids (link_retry r b) = known_ids b \<and> bd_task_nodes (link_retry r b) = bd_task_nodes b"
  by (auto simp: link_retry_def split: option.splits)

lemma link_retries_mono:
  "set (bd_edges b) \<subseteq> set (bd_edges (fold link_retry rs b)) \<and> known_ids (fold link_retry rs b) = known_ids b \<and>
   bd_task_nodes (fold link_retry rs b) = bd_task_nodes b"
proof (induction rs arbitrary: b)
  case (Cons r rs)
  show ?case using Cons.IH[of "link_retry r b"] link_retry_mono[of b r] by auto
qed simp

lemma link_retries_extend: "(building_ok b \<longrightarrow> (\<forall>r \<in> set rs. pr_retry_node_id r \<in> known_ids b)) \<Longrightarrow> extends b (fold link_retry rs b)"
proof (induction rs arbitrary: b)
  case (Cons r rs)
  have 1: "extends b (link_retry r b)" using Cons.prems by (intro link_retry_extends) auto
  have "extends b (fold link_retry rs (link_retry r b))"
  proof (rule extendsI)
    assume ok: "building_ok b"
    then have "extends (link_retry r b) (fold link_retry rs (link_retry r b))"
      using Cons.prems 1 by (intro Cons.IH) (auto simp: extends_def)
    with 1 show "extends b (fold link_retry rs (link_retry r b))" by (rule extends_trans)
  next
    show "set (bd_edges b) \<subseteq> set (bd_edges (fold link_retry rs (link_retry r b))) \<and> known_ids b \<subseteq> known_ids (fold link_retry rs (link_retry r b)) \<and>
        bd_task_nodes (fold link_retry rs (link_retry r b)) = bd_task_nodes b" using link_retries_mono[of b "r # rs"] by simp
  qed
  then show ?case by simp
qed simp

lemma add_record_extends: "add_record tid x b = Inr b' \<Longrightarrow> extends b b'"
proof -
  assume run: "add_record tid x b = Inr b'"
  obtain index rec where x: "x = (index, rec)" by (rule prod.exhaust)
  define node where "node = record_node tid index rec"
  define ts where "ts = coerce_timestamp (dict_get rec ''dead_lettered_at'')"
  show ?thesis
  proof (cases "dict_has (bd_nodes b) (gn_id node)")
    case False
    then obtain source where s: "(case latest_attempt (task_attempts (add_node node b) tid) (Some ts) of
        Some a \<Rightarrow> Inr (gn_id a) | None \<Rightarrow> task_node (add_node node b) tid) = Inr source"
      and b': "b' = add_edge (new_edge source (gn_id node) ''dead_lettered_to'' (Some ts) []) (add_node node b)"
      using run unfolding add_record_def x Let_def prod.case node_def[symmetric] ts_def[symmetric] by auto
    have "source \<in> known_ids (add_node node b)" if "building_ok (add_node node b)"
      using s attempt_known(1)[of "add_node node b" tid] task_node_known[OF that] that
      by (auto split: option.splits simp del: known_ids_add_node simp: building_ok_def)
    then have "extends (add_node node b) b'" unfolding b' by (intro add_edge_under) simp
    then show ?thesis by (rule extends_trans[OF add_node_extends])
  qed (use run in \<open>auto simp: add_record_def x Let_def node_def\<close>)
qed

subsection \<open>The whole build\<close>

lemma building_ok_start [simp]: "building_ok building_start"
  by (simp add: building_ok_def nodes_ok_def refs_ok_def building_start_def known_ids_def)

lemma add_task_node_ok:
  assumes "building_ok b"
  shows "building_ok (add_task_node t c b)" and "dom (map_of (bd_task_nodes (add_task_node t c b))) = insert c (dom (map_of (bd_task_nodes b)))"
    and "bd_edges (add_task_node t c b) = bd_edges b"
proof -
  define i where "i = (if c = t then ''task'' else ''aggregation_child'') @ '':'' @ c"
  define n where "n = new_node i (if c = t then ''task'' else ''aggregation_child'') c c None []"
  have eq: "add_task_node t c b = (if dict_has (bd_task_nodes b) c then b else (add_node n b)\<lparr>bd_task_nodes := AList.update c i (bd_task_nodes b)\<rparr>)"
    by (simp add: add_task_node_def Let_def n_def i_def)
  have "building_ok (add_node n b)" using add_node_extends[of b n] assms by (simp add: extends_def)
  then have "building_ok ((add_node n b)\<lparr>bd_task_nodes := AList.update c i (bd_task_nodes b)\<rparr>)"
    by (auto simp: building_ok_def nodes_ok_def refs_ok_def n_def)
  then show "building_ok (add_task_node t c b)" using assms by (simp add: eq)
  show "dom (map_of (bd_task_nodes (add_task_node t c b))) = insert c (dom (map_of (bd_task_nodes b)))"
    "bd_edges (add_task_node t c b) = bd_edges b" by (auto simp: eq)
qed

lemma add_related_ok:
  assumes "building_ok b" and "t \<in> dom (map_of (bd_task_nodes b))"
  shows "\<exists>b'. add_related t rs b = Inr b' \<and> building_ok b' \<and>
    dom (map_of (bd_task_nodes b')) = dom (map_of (bd_task_nodes b)) \<union> set rs"
  using assms
proof (induction rs arbitrary: b)
  case (Cons r rs)
  let ?b1 = "add_task_node t r b"
  have dom: "dom (map_of (bd_task_nodes ?b1)) = insert r (dom (map_of (bd_task_nodes b)))" and ok: "building_ok ?b1"
    using add_task_node_ok[OF Cons.prems(1)] by auto
  obtain s where s: "map_of (bd_task_nodes ?b1) r = Some s" using dom by blast
  obtain u where u: "map_of (bd_task_nodes ?b1) t = Some u" using dom Cons.prems(2) by blast
  have "building_ok (add_edge (new_edge s u ''aggregated_into'' None []) ?b1)"
    using add_edge_extends[of "new_edge s u ''aggregated_into'' None []" ?b1] ok s u by (auto simp: extends_def building_ok_def refs_ok_def)
  from Cons.IH[OF this] show ?case using dom u s Cons.prems(2) by (auto simp: task_node_def)
qed auto

lemma add_statuses_extends: "add_statuses w hs tids b = Inr b' \<Longrightarrow> extends b b'"
  unfolding add_statuses_def
  by (erule fold_res_extends[rotated], erule fold_res_extends[rotated]) (metis add_status_extends surj_pair)

lemma add_records_extends: "add_records rs b = Inr b' \<Longrightarrow> extends b b'"
  unfolding add_records_def
  by (erule fold_res_extends[rotated]) (auto elim!: fold_res_extends[rotated] intro: add_record_extends)

text \<open>What a step establishes for good holds for every step of a loop.\<close>

lemma fold_res_each:
  assumes "\<And>x s s'. x \<in> set xs \<Longrightarrow> f x s = Inr s' \<Longrightarrow> extends s s' \<and> Q x s'" and "\<And>x s s'. extends s s' \<Longrightarrow> Q x s \<Longrightarrow> Q x s'"
    and "fold_res f xs s = Inr s'" and "x \<in> set xs"
  shows "Q x s'"
  using assms(1,3,4)
proof (induction xs arbitrary: s)
  case (Cons y xs)
  from Cons.prems(2) obtain t where t: "f y s = Inr t" "fold_res f xs t = Inr s'" by auto
  have step: "extends u u' \<and> Q z u'" if "z \<in> set xs" "f z u = Inr u'" for z u u'
    by (rule Cons.prems(1)[OF _ that(2)]) (use that(1) in simp)
  show ?case
  proof (cases "x \<in> set xs")
    case False
    then have "Q x t" using Cons.prems(1)[OF _ t(1)] Cons.prems(3) by simp
    moreover have "extends t s'" using fold_res_extends[OF _ t(2)] step by blast
    ultimately show ?thesis using assms(2) by blast
  qed (use Cons.IH[OF step t(2)] in blast)
qed simp

definition shown_status :: "string \<Rightarrow> nat \<times> dict \<Rightarrow> building \<Rightarrow> bool" where
  "shown_status tid x b \<longleftrightarrow> (\<exists>e \<in> set (bd_edges b). xe_kind e = ''published_status'' \<and>
     xe_target e = ''status:'' @ tid @ '':'' @ nat_str (fst x) \<and> xe_timestamp e = Some (coerce_timestamp (dict_get (snd x) ''timestamp'')))"

lemma shown_status_mono: "extends b b' \<Longrightarrow> shown_status tid x b \<Longrightarrow> shown_status tid x b'"
  by (auto simp: shown_status_def extends_def)

lemma add_statuses_shown:
  assumes "add_statuses w hs tids b = Inr b'" and "tid \<in> set tids"
    and "x \<in> set (enumerate 1 (sort_by_timestamp (case map_of hs tid of Some h \<Rightarrow> h | None \<Rightarrow> [])))"
  shows "shown_status tid x b'"
proof -
  let ?es = "\<lambda>tid. enumerate 1 (sort_by_timestamp (case map_of hs tid of Some h \<Rightarrow> h | None \<Rightarrow> []))"
  have step: "extends s s' \<and> shown_status tid x s'" if "add_status w tid x s = Inr s'" for tid x s s'
    using add_status_extends[of w tid "fst x" "snd x" s s'] that by (simp add: shown_status_def)
  have inner: "extends s s' \<and> (\<forall>x \<in> set (?es tid). shown_status tid x s')" if r: "fold_res (add_status w tid) (?es tid) s = Inr s'" for tid s s'
  proof
    show "extends s s'" by (rule fold_res_extends[OF _ r]) (use step in blast)
    show "\<forall>x \<in> set (?es tid). shown_status tid x s'"
      by (intro ballI, rule fold_res_each[OF _ _ r, where Q = "shown_status tid"]) (use step shown_status_mono in blast)+
  qed
  have "\<forall>x \<in> set (?es tid). shown_status tid x b'"
    by (rule fold_res_each[OF _ _ assms(1)[unfolded add_statuses_def] assms(2), where Q = "\<lambda>tid s. \<forall>x \<in> set (?es tid). shown_status tid x s"])
      (use inner shown_status_mono in blast)+
  then show ?thesis using assms(3) by blast
qed

lemma build_ok:
  assumes "build_nodes_and_edges topo t statuses observations records related = Inr b"
  shows "building_ok b" and "\<lbrakk>tid \<in> set (t # related @ map fst statuses @ map fst observations);
    x \<in> set (enumerate 1 (sort_by_timestamp (case map_of statuses tid of Some h \<Rightarrow> h | None \<Rightarrow> [])))\<rbrakk> \<Longrightarrow> shown_status tid x b"
proof -
  let ?b0 = "add_task_node t t building_start" and ?tids = "sorted_set (t # related @ map fst statuses @ map fst observations)"
  have b0: "building_ok ?b0" "t \<in> dom (map_of (bd_task_nodes ?b0))" using add_task_node_ok[OF building_ok_start, of t t] by auto
  obtain b1 b2 b3 where b1: "add_related t related ?b0 = Inr b1" and b2: "observe_all observations b1 = Inr b2"
    and b3: "add_statuses (topology_kind topo = ''shared_status_workflow'') statuses ?tids b2 = Inr b3"
    and b: "add_records records (fold link_retry (bd_retries b3) b3) = Inr b"
    using assms by (auto simp: build_nodes_and_edges_def)
  have ok1: "building_ok b1" using add_related_ok[OF b0, of related] b1 by auto
  then have ok3: "building_ok b3" using observe_all_extends[OF b2] add_statuses_extends[OF b3] by (simp add: extends_def)
  have "extends b3 (fold link_retry (bd_retries b3) b3)" by (rule link_retries_extend) (simp add: building_ok_def refs_ok_def)
  then have e: "extends b3 b" by (rule extends_trans) (rule add_records_extends[OF b])
  then show "building_ok b" using ok3 by (simp add: extends_def)
  assume "tid \<in> set (t # related @ map fst statuses @ map fst observations)"
    and x: "x \<in> set (enumerate 1 (sort_by_timestamp (case map_of statuses tid of Some h \<Rightarrow> h | None \<Rightarrow> [])))"
  then have "tid \<in> set ?tids" by simp
  from shown_status_mono[OF e add_statuses_shown[OF b3 this x]] show "shown_status tid x b" .
qed

subsection \<open>The projected state\<close>

lemma on_node_ids [simp]: "(\<And>n. gn_id (f n) = gn_id n) \<Longrightarrow> map gn_id (on_node i f ns) = map gn_id ns"
  by (simp add: on_node_def)

lemma set_node_state_sel [simp]:
  "gn_id (set_node_state s r u n) = gn_id n" "gn_timestamp (set_node_state s r u n) = gn_timestamp n"
  "gn_kind (set_node_state s r u n) = gn_kind n" "gn_state (set_node_state s r u n) = Some s"
  by (simp_all add: set_node_state_def)

lemma set_edge_state_sel [simp]:
  "xe_source (set_edge_state s r u e) = xe_source e" "xe_target (set_edge_state s r u e) = xe_target e"
  "xe_kind (set_edge_state s r u e) = xe_kind e" "xe_timestamp (set_edge_state s r u e) = xe_timestamp e"
  by (simp_all add: set_edge_state_def)

text \<open>Projecting an edge changes states only: the key of each node stays.\<close>

abbreviation node_key :: "gnode \<Rightarrow> string \<times> string" where
  "node_key n \<equiv> (coerce_text (gn_timestamp n), gn_id n)"

lemma on_node_keys: "(\<And>n. node_key (f n) = node_key n) \<Longrightarrow> map node_key (on_node i f ns) = map node_key ns"
  by (simp add: on_node_def)

lemma project_edge_keys: "map node_key (project_edge e ns) = map node_key ns"
  unfolding project_edge_def by (auto simp: on_node_keys split: option.splits)

lemma fold_project_keys: "map node_key (fold project_edge es ns) = map node_key ns"
  by (induction es arbitrary: ns) (simp_all add: project_edge_keys)

lemma ids_of_keys: "map node_key ms = map node_key ns \<Longrightarrow> map gn_id ms = map gn_id ns"
  by (metis (no_types, lifting) list.map_comp map_eq_conv o_apply snd_conv)

definition live_states :: "string set" where
  "live_states = {''running'', ''retrying'', ''succeeded'', ''dead_lettered'', ''failed'', ''expired'', ''queued'', ''blocked'', ''unknown'', ''replayed''}"

definition stated :: "gnode \<Rightarrow> bool" where
  "stated n \<longleftrightarrow> (\<exists>s \<in> live_states. gn_state n = Some s)"

lemma state_from_status_live: "state_from_status s \<in> live_states"
  unfolding state_from_status_def live_states_def Let_def by (simp split: if_splits)

lemma initial_state_live: "fst (initial_node_state latest n) \<in> live_states"
  unfolding initial_node_state_def Let_def
  by (simp add: state_from_status_live split: option.splits) (simp add: live_states_def)

text \<open>A projection gives a node another live state and never takes a dead letter back.\<close>

definition moves :: "gnode \<Rightarrow> gnode \<Rightarrow> bool" where
  "moves n m \<longleftrightarrow> (stated n \<longrightarrow> stated m) \<and> (gn_state n = Some ''dead_lettered'' \<longrightarrow> gn_state m = Some ''dead_lettered'') \<and> gn_id m = gn_id n"

lemma moves_refl [simp]: "moves n n"
  by (simp add: moves_def)

lemma moves_trans: "moves a b \<Longrightarrow> moves b c \<Longrightarrow> moves a c"
  by (simp add: moves_def)

lemma on_node_moves: "(\<And>n. moves n (f n)) \<Longrightarrow> list_all2 moves ns (on_node i f ns)"
  by (induction ns) (simp_all add: on_node_def)

lemma list_all2_moves_trans: "list_all2 moves xs ys \<Longrightarrow> list_all2 moves ys zs \<Longrightarrow> list_all2 moves xs zs"
  by (rule list_all2_trans[OF moves_trans])

lemma moves_dead: "moves n (set_node_state ''dead_lettered'' r u n)"
  by (simp add: moves_def stated_def live_states_def)

lemma moves_kept: "moves n (set_node_state (case gn_state n of Some s \<Rightarrow> if s \<noteq> [] then s else ''dead_lettered'' | None \<Rightarrow> ''dead_lettered'') r u n)"
  by (auto simp: moves_def stated_def live_states_def split: option.splits)

lemma moves_to:
  "state_in [''succeeded'', ''failed'', ''retrying''] m \<Longrightarrow>
   moves n (if state_in [''dead_lettered'', ''replayed''] n then n
     else set_node_state (case gn_state m of Some s \<Rightarrow> s | None \<Rightarrow> []) r u n)"
  "moves n (if state_in [''dead_lettered'', ''replayed'', ''succeeded'', ''failed''] n then n else set_node_state ''retrying'' r u n)"
  by (auto simp: moves_def stated_def live_states_def state_in_def split: option.splits)

lemma project_edge_moves: "list_all2 moves ns (project_edge e ns)"
proof -
  have d: "list_all2 moves ns (on_node j (\<lambda>n. set_node_state (case gn_state n of Some s \<Rightarrow> if s \<noteq> [] then s else ''dead_lettered'' | None \<Rightarrow> ''dead_lettered'')
      (gn_state_reason n) (gn_updated_at n) n) (on_node i (set_node_state ''dead_lettered'' r u) ns))" for i j r u
    by (rule list_all2_moves_trans[OF on_node_moves[OF moves_dead] on_node_moves[OF moves_kept]])
  show ?thesis unfolding project_edge_def
    using d on_node_moves[OF moves_to(1)] on_node_moves[OF moves_to(2)]
    by (simp add: list_all2_refl split: option.split)
qed

lemma fold_project_moves: "list_all2 moves ns (fold project_edge es ns)"
proof (induction es arbitrary: ns)
  case (Cons e es)
  show ?case using list_all2_moves_trans[OF project_edge_moves Cons.IH[of "project_edge e ns"]] by simp
qed (simp add: list_all2_refl)

lemma moves_all:
  "list_all2 moves ns ms \<Longrightarrow> \<forall>n \<in> set ns. stated n \<Longrightarrow> \<forall>m \<in> set ms. stated m"
  "list_all2 moves ns ms \<Longrightarrow> \<forall>n \<in> set ns. gn_id n = i \<longrightarrow> gn_state n = Some ''dead_lettered'' \<Longrightarrow>
   \<forall>m \<in> set ms. gn_id m = i \<longrightarrow> gn_state m = Some ''dead_lettered''"
  by (induction rule: list_all2_induct) (auto simp: moves_def)

text \<open>The source of a dead-letter edge ends dead-lettered.\<close>

lemma dead_letter_source:
  assumes "e \<in> set es" and "xe_kind e = ''dead_lettered_to''"
  shows "\<forall>n \<in> set (fold project_edge es ns). gn_id n = xe_source e \<longrightarrow> gn_state n = Some ''dead_lettered''"
  using assms(1)
proof (induction es arbitrary: ns)
  case (Cons e' es)
  show ?case
  proof (cases "e' = e")
    case True
    have "\<forall>n \<in> set (project_edge e ns). gn_id n = xe_source e \<longrightarrow> gn_state n = Some ''dead_lettered''"
      using assms(2) by (auto simp: project_edge_def on_node_def split: if_splits)
    then show ?thesis using moves_all(2)[OF fold_project_moves] True by simp
  qed (use Cons in simp)
qed simp

text \<open>The counts of the states add up to the number of nodes.\<close>

lemma sum_update:
  "dict_wf d \<Longrightarrow> sum_list (map snd (AList.update k ((case map_of d k of Some c \<Rightarrow> c | None \<Rightarrow> 0) + 1) d)) = sum_list (map snd d) + (1 :: int)"
proof (induction d)
  case (Cons p d)
  obtain a c where p: "p = (a, c)" by (rule prod.exhaust)
  show ?case
  proof (cases "a = k")
    case True
    then show ?thesis by (simp add: p)
  qed (use Cons in \<open>simp add: p\<close>)
qed simp

lemma live_state_counts_sum:
  "sum_list (map snd (live_state_counts ns)) = int (length ns)" "sorted (map fst (live_state_counts ns))" "dict_wf (live_state_counts ns)"
proof -
  define st :: "gnode \<Rightarrow> string" where "st = (\<lambda>n. case gn_state n of Some s \<Rightarrow> if s \<noteq> [] then s else ''unknown'' | None \<Rightarrow> ''unknown'')"
  define F where "F = (\<lambda>n counts. AList.update (st n) ((case map_of counts (st n) of Some c \<Rightarrow> c | None \<Rightarrow> 0) + 1) counts :: (string \<times> int) list)"
  have lc: "live_state_counts ns = sort_key fst (fold F ns [])" by (simp add: live_state_counts_def F_def st_def Let_def)
  have *: "dict_wf d \<Longrightarrow> dict_wf (fold F ns d) \<and> sum_list (map snd (fold F ns d)) = sum_list (map snd d) + int (length ns)" for d
    by (induction ns arbitrary: d) (simp_all add: F_def sum_update)
  have m: "mset (live_state_counts ns) = mset (fold F ns [])" by (simp add: lc)
  have "sum_list (map snd (live_state_counts ns)) = sum_list (map snd (fold F ns []))"
    using m by (metis mset_map sum_mset_sum_list)
  then show "sum_list (map snd (live_state_counts ns)) = int (length ns)" using *[of "[]"] by simp
  show "sorted (map fst (live_state_counts ns))" by (simp add: lc)
  show "dict_wf (live_state_counts ns)" using *[of "[]"] m by (metis distinct.simps(1) list.simps(8) mset_eq_imp_distinct_iff mset_map)
qed

subsection \<open>The graph\<close>

lemma sort_Nil_iff [simp]: "sort xs = [] \<longleftrightarrow> xs = []" for xs :: "'a :: linorder list"
  by (metis set_empty set_sort)

lemma hd_sort_Min: "xs \<noteq> [] \<Longrightarrow> hd (sort xs) = Min (set xs)" for xs :: "'a :: linorder list"
proof -
  assume "xs \<noteq> []"
  then have "sort xs \<noteq> []" by (metis set_empty set_sort)
  then obtain y ys where y: "sort xs = y # ys" by (cases "sort xs") auto
  have "sorted (y # ys)" using sorted_sort[of xs] y by simp
  moreover have "set xs = set (y # ys)" using y by (metis set_sort)
  ultimately show ?thesis by (simp add: y) (metis List.finite_set Min_eqI insert_iff order_refl finite_insert)
qed

lemma summary_parts:
  assumes "build_summary D h ts ob ns = Inr y"
  shows "gy_live_state_counts y = live_state_counts ns"
    and "gy_started_at y = (if filter (\<lambda>t. t \<noteq> []) ts \<noteq> [] then Some (Min (set (filter (\<lambda>t. t \<noteq> []) ts))) else None)"
    and "h \<noteq> [] \<Longrightarrow> gy_ended_at y = Some (coerce_timestamp (dict_get (last (sort_by_timestamp h)) ''timestamp''))"
proof -
  let ?ts = "filter (\<lambda>t. t \<noteq> []) ts"
  have min: "?ts \<noteq> [] \<Longrightarrow> hd (sort ?ts) = Min (set ?ts)"
    by (rule hd_sort_Min)
  show "gy_live_state_counts y = live_state_counts ns" using assms by (auto simp: build_summary_def Let_def)
  show "gy_started_at y = (if ?ts \<noteq> [] then Some (Min (set ?ts)) else None)"
    using assms min by (auto simp: build_summary_def Let_def)
  show "h \<noteq> [] \<Longrightarrow> gy_ended_at y = Some (coerce_timestamp (dict_get (last (sort_by_timestamp h)) ''timestamp''))"
    using assms by (auto simp: build_summary_def Let_def)
qed

lemma build_parts:
  assumes "build_execution_graph D topo t statuses observations records rel = Inr g"
  obtains b where
    "build_nodes_and_edges topo t statuses observations records (sorted_set (filter (\<lambda>r. r \<noteq> [] \<and> r \<noteq> t) rel)) = Inr b"
    "(xg_nodes g, xg_edges g) = project_live_state (sort_key node_key (map snd (bd_nodes b)))
       (sort_key (\<lambda>e. (coerce_text (xe_timestamp e), xe_kind e, xe_source e, xe_target e)) (bd_edges b)) statuses"
    "build_summary D (case map_of statuses t of Some h \<Rightarrow> h | None \<Rightarrow> []) (bd_timestamps b) (observations \<noteq> []) (xg_nodes g) = Inr (xg_summary g)"
proof -
  let ?p = "\<lambda>b. project_live_state (sort_key node_key (map snd (bd_nodes b)))
       (sort_key (\<lambda>e. (coerce_text (xe_timestamp e), xe_kind e, xe_source e, xe_target e)) (bd_edges b)) statuses"
  from assms obtain b where b: "build_nodes_and_edges topo t statuses observations records (sorted_set (filter (\<lambda>r. r \<noteq> [] \<and> r \<noteq> t) rel)) = Inr b"
    unfolding build_execution_graph_def Let_def by auto
  obtain ns es where p: "?p b = (ns, es)" by (rule prod.exhaust)
  have "xg_nodes g = ns \<and> xg_edges g = es \<and>
      build_summary D (case map_of statuses t of Some h \<Rightarrow> h | None \<Rightarrow> []) (bd_timestamps b) (observations \<noteq> []) ns = Inr (xg_summary g)"
    using assms b p unfolding build_execution_graph_def Let_def by auto
  then show thesis using that[OF b] p by simp
qed

lemma project_parts:
  assumes "(ns', es') = project_live_state ns es hs"
  shows "map node_key ns' = map node_key ns" and "\<forall>n \<in> set ns'. stated n"
    and "map (\<lambda>e. (xe_source e, xe_target e, xe_kind e, xe_timestamp e)) es' = map (\<lambda>e. (xe_source e, xe_target e, xe_kind e, xe_timestamp e)) es"
    and "\<forall>e \<in> set es'. xe_state e = Some (fst (edge_state e))"
    and "\<forall>e \<in> set es'. xe_kind e = ''dead_lettered_to'' \<longrightarrow> (\<forall>n \<in> set ns'. gn_id n = xe_source e \<longrightarrow> gn_state n = Some ''dead_lettered'')"
proof -
  define ns1 where "ns1 = map (\<lambda>n. case initial_node_state (latest_statuses hs) n of (state, reason, updated) \<Rightarrow> set_node_state state (Some reason) updated n) ns"
  have ns': "ns' = fold project_edge es' ns1" and es': "es' = map (\<lambda>e. case edge_state e of (state, reason) \<Rightarrow>
      set_edge_state state (Some reason) (none_if_empty (coerce_text (xe_timestamp e))) e) es"
    using assms by (simp_all add: project_live_state_def Let_def ns1_def)
  have "map node_key ns1 = map node_key ns" by (simp add: ns1_def split: prod.splits)
  then show "map node_key ns' = map node_key ns" by (simp add: ns' fold_project_keys)
  have "\<forall>n \<in> set ns1. stated n"
  proof
    fix n assume "n \<in> set ns1"
    then obtain m where "n = (case initial_node_state (latest_statuses hs) m of (state, reason, updated) \<Rightarrow> set_node_state state (Some reason) updated m)"
      by (auto simp: ns1_def)
    then show "stated n" using initial_state_live[of "latest_statuses hs" m] by (simp add: stated_def split: prod.splits)
  qed
  then show "\<forall>n \<in> set ns'. stated n" unfolding ns' using moves_all(1)[OF fold_project_moves] by blast
  show "map (\<lambda>e. (xe_source e, xe_target e, xe_kind e, xe_timestamp e)) es' = map (\<lambda>e. (xe_source e, xe_target e, xe_kind e, xe_timestamp e)) es"
    by (simp add: es' split: prod.splits)
  have "edge_state (set_edge_state s r u e) = edge_state e" for s r u e by (simp add: edge_state_def)
  then show "\<forall>e \<in> set es'. xe_state e = Some (fst (edge_state e))" by (auto simp: es' split: prod.splits) (auto simp: set_edge_state_def)
  show "\<forall>e \<in> set es'. xe_kind e = ''dead_lettered_to'' \<longrightarrow> (\<forall>n \<in> set ns'. gn_id n = xe_source e \<longrightarrow> gn_state n = Some ''dead_lettered'')"
    unfolding ns' using dead_letter_source by blast
qed

lemma building_node_ids: "nodes_ok b \<Longrightarrow> map gn_id (map snd (bd_nodes b)) = map fst (bd_nodes b)"
  by (auto simp: nodes_ok_def)

lemma graph_edge_shape:
  assumes "map (\<lambda>e. (xe_source e, xe_target e, xe_kind e, xe_timestamp e)) es' = map (\<lambda>e. (xe_source e, xe_target e, xe_kind e, xe_timestamp e)) es"
  shows "e \<in> set es' \<Longrightarrow> \<exists>e0 \<in> set es. xe_source e0 = xe_source e \<and> xe_target e0 = xe_target e \<and> xe_kind e0 = xe_kind e \<and> xe_timestamp e0 = xe_timestamp e"
    and "e0 \<in> set es \<Longrightarrow> \<exists>e \<in> set es'. xe_source e = xe_source e0 \<and> xe_target e = xe_target e0 \<and> xe_kind e = xe_kind e0 \<and> xe_timestamp e = xe_timestamp e0"
proof -
  let ?f = "\<lambda>e. (xe_source e, xe_target e, xe_kind e, xe_timestamp e)"
  have eq: "?f ` set es' = ?f ` set es" using arg_cong[OF assms, of set] by simp
  have m: "\<exists>y \<in> B. xe_source y = xe_source x \<and> xe_target y = xe_target x \<and> xe_kind y = xe_kind x \<and> xe_timestamp y = xe_timestamp x"
    if "?f ` A = ?f ` B" "x \<in> A" for x A B
  proof -
    have "?f x \<in> ?f ` B" using that by blast
    then obtain y where "y \<in> B" "?f x = ?f y" by (rule imageE)
    then show ?thesis by (intro bexI[of _ y]) simp_all
  qed
  show "e \<in> set es' \<Longrightarrow> \<exists>e0 \<in> set es. xe_source e0 = xe_source e \<and> xe_target e0 = xe_target e \<and> xe_kind e0 = xe_kind e \<and> xe_timestamp e0 = xe_timestamp e"
    by (rule m[OF eq])
  show "e0 \<in> set es \<Longrightarrow> \<exists>e \<in> set es'. xe_source e = xe_source e0 \<and> xe_target e = xe_target e0 \<and> xe_kind e = xe_kind e0 \<and> xe_timestamp e = xe_timestamp e0"
    by (rule m[OF eq[symmetric]])
qed

lemma graph_closed:
  assumes "build_execution_graph D topo t statuses observations records rel = Inr g"
  shows "distinct (map gn_id (xg_nodes g))" and "sorted (map node_key (xg_nodes g))"
    and "\<forall>e \<in> set (xg_edges g). {xe_source e, xe_target e} \<subseteq> set (map gn_id (xg_nodes g))"
proof -
  obtain b where b: "build_nodes_and_edges topo t statuses observations records (sorted_set (filter (\<lambda>r. r \<noteq> [] \<and> r \<noteq> t) rel)) = Inr b"
    and live: "(xg_nodes g, xg_edges g) = project_live_state (sort_key node_key (map snd (bd_nodes b)))
       (sort_key (\<lambda>e. (coerce_text (xe_timestamp e), xe_kind e, xe_source e, xe_target e)) (bd_edges b)) statuses"
    and summary: "build_summary D (case map_of statuses t of Some h \<Rightarrow> h | None \<Rightarrow> []) (bd_timestamps b) (observations \<noteq> []) (xg_nodes g) = Inr (xg_summary g)"
    by (rule build_parts[OF assms])
  note ok = build_ok(1)[OF b] note p = project_parts[OF live]
  have ids: "mset (map gn_id (xg_nodes g)) = mset (map fst (bd_nodes b))"
  proof -
    have "mset (map gn_id (xg_nodes g)) = mset (map gn_id (sort_key node_key (map snd (bd_nodes b))))" by (simp only: ids_of_keys[OF p(1)])
    also have "\<dots> = mset (map gn_id (map snd (bd_nodes b)))" by (simp only: mset_map mset_sort)
    also have "\<dots> = mset (map fst (bd_nodes b))" using building_node_ids[of b] ok by (simp only: building_ok_def)
    finally show ?thesis .
  qed
  then show "distinct (map gn_id (xg_nodes g))" using ok by (metis building_ok_def mset_eq_imp_distinct_iff nodes_ok_def)
  show "sorted (map node_key (xg_nodes g))" unfolding p(1) by (rule sorted_sort_key)
  have "set (map gn_id (xg_nodes g)) = known_ids b" using ids by (metis dom_map_of_conv_image_fst known_ids_def mset_eq_setD set_map)
  then show "\<forall>e \<in> set (xg_edges g). {xe_source e, xe_target e} \<subseteq> set (map gn_id (xg_nodes g))"
  proof (intro ballI)
    fix e assume e: "e \<in> set (xg_edges g)"
    obtain e0 where e0: "e0 \<in> set (bd_edges b)" "xe_source e0 = xe_source e" "xe_target e0 = xe_target e"
      using graph_edge_shape(1)[OF p(3) e] by auto
    then have "xe_source e \<in> known_ids b" "xe_target e \<in> known_ids b" using ok by (auto simp: building_ok_def refs_ok_def)
    then show "{xe_source e, xe_target e} \<subseteq> set (map gn_id (xg_nodes g))" using \<open>set (map gn_id (xg_nodes g)) = known_ids b\<close> by simp
  qed
qed

text \<open> C26. build_execution_graph (observability/execution_graph.py) returns a well-formed graph from
  any histories: the node ids are pairwise different, every edge joins two nodes of the graph, and
  the nodes are in the order of their timestamps and ids. \<close>

theorem execution_graph_closed:
  assumes "build_execution_graph D topo t statuses observations records related = Inr g"
  shows "distinct (map gn_id (xg_nodes g)) \<and> sorted (map (\<lambda>n. (coerce_text (gn_timestamp n), gn_id n)) (xg_nodes g)) \<and>
    (\<forall>e \<in> set (xg_edges g). xe_source e \<in> gn_id ` set (xg_nodes g) \<and> xe_target e \<in> gn_id ` set (xg_nodes g))"
  using graph_closed[OF assms] by simp

text \<open> _project_live_state and _live_state_counts (observability/execution_graph.py) classify the
  whole graph: every node ends with one of the ten live states, the source of every dead-letter
  edge ends dead-lettered whatever retries and statuses it also has, every edge has the state of
  its kind, and the counts of the summary, one per state in order, add up to the number of nodes. \<close>

theorem execution_graph_states:
  assumes "build_execution_graph D topo t statuses observations records related = Inr g"
  shows "(\<forall>n \<in> set (xg_nodes g). \<exists>s \<in> live_states. gn_state n = Some s) \<and>
    (\<forall>e \<in> set (xg_edges g). xe_kind e = ''dead_lettered_to'' \<longrightarrow>
       (\<forall>n \<in> set (xg_nodes g). gn_id n = xe_source e \<longrightarrow> gn_state n = Some ''dead_lettered'')) \<and>
    (\<forall>e \<in> set (xg_edges g). xe_state e = Some (fst (edge_state e))) \<and>
    sum_list (map snd (gy_live_state_counts (xg_summary g))) = int (length (xg_nodes g)) \<and>
    sorted (map fst (gy_live_state_counts (xg_summary g))) \<and> distinct (map fst (gy_live_state_counts (xg_summary g)))"
proof -
  obtain b where b: "build_nodes_and_edges topo t statuses observations records (sorted_set (filter (\<lambda>r. r \<noteq> [] \<and> r \<noteq> t) related)) = Inr b"
    and live: "(xg_nodes g, xg_edges g) = project_live_state (sort_key node_key (map snd (bd_nodes b)))
       (sort_key (\<lambda>e. (coerce_text (xe_timestamp e), xe_kind e, xe_source e, xe_target e)) (bd_edges b)) statuses"
    and summary: "build_summary D (case map_of statuses t of Some h \<Rightarrow> h | None \<Rightarrow> []) (bd_timestamps b) (observations \<noteq> []) (xg_nodes g) = Inr (xg_summary g)"
    by (rule build_parts[OF assms])
  have "gy_live_state_counts (xg_summary g) = live_state_counts (xg_nodes g)"
    by (rule summary_parts(1)[OF summary])
  then show ?thesis using project_parts(2,4,5)[OF live] live_state_counts_sum[of "xg_nodes g"] unfolding stated_def by auto
qed

text \<open> build_execution_graph shows every status event of the task: the k-th of its history in the
  order of timestamps is the target of a published_status edge with its timestamp, and the summary
  starts no later than it ends: started_at is at most ended_at, the timestamp of the last status,
  when that is known. \<close>

theorem execution_graph_shows_statuses:
  assumes "build_execution_graph D topo t statuses observations records related = Inr g" and "map_of statuses t = Some h"
    and "k < length h"
  shows "(\<exists>e \<in> set (xg_edges g). xe_kind e = ''published_status'' \<and> xe_target e = ''status:'' @ t @ '':'' @ nat_str (k + 1) \<and>
      xe_timestamp e = Some (coerce_timestamp (dict_get (sort_by_timestamp h ! k) ''timestamp''))) \<and>
    gy_ended_at (xg_summary g) = Some (coerce_timestamp (dict_get (last (sort_by_timestamp h)) ''timestamp'')) \<and>
    (gy_ended_at (xg_summary g) = Some [] \<or>
      (\<exists>a b. gy_started_at (xg_summary g) = Some a \<and> gy_ended_at (xg_summary g) = Some b \<and> a \<le> b))"
proof -
  obtain b where b: "build_nodes_and_edges topo t statuses observations records (sorted_set (filter (\<lambda>r. r \<noteq> [] \<and> r \<noteq> t) related)) = Inr b"
    and live: "(xg_nodes g, xg_edges g) = project_live_state (sort_key node_key (map snd (bd_nodes b)))
       (sort_key (\<lambda>e. (coerce_text (xe_timestamp e), xe_kind e, xe_source e, xe_target e)) (bd_edges b)) statuses"
    and summary: "build_summary D (case map_of statuses t of Some h \<Rightarrow> h | None \<Rightarrow> []) (bd_timestamps b) (observations \<noteq> []) (xg_nodes g) = Inr (xg_summary g)"
    by (rule build_parts[OF assms(1)])
  have len: "length (sort_by_timestamp h) = length h" by (simp add: sort_by_timestamp_def)
  have shown: "\<exists>e \<in> set (bd_edges b). xe_kind e = ''published_status'' \<and> xe_target e = ''status:'' @ t @ '':'' @ nat_str (j + 1) \<and>
      xe_timestamp e = Some (coerce_timestamp (dict_get (sort_by_timestamp h ! j) ''timestamp''))" if "j < length h" for j
  proof -
    have "enumerate 1 (sort_by_timestamp h) ! j = (1 + j, sort_by_timestamp h ! j)" by (rule nth_enumerate_eq) (simp add: len that)
    then have "(1 + j, sort_by_timestamp h ! j) \<in> set (enumerate 1 (sort_by_timestamp h))" using that len by (metis length_enumerate nth_mem)
    then have "shown_status t (1 + j, sort_by_timestamp h ! j) b" using build_ok(2)[OF b, of t] assms(2) by simp
    then show ?thesis by (simp add: shown_status_def add.commute)
  qed
  obtain e0 where "e0 \<in> set (bd_edges b)" "xe_kind e0 = ''published_status''" "xe_target e0 = ''status:'' @ t @ '':'' @ nat_str (k + 1)"
    "xe_timestamp e0 = Some (coerce_timestamp (dict_get (sort_by_timestamp h ! k) ''timestamp''))" using shown[OF assms(3)] by blast
  then have 1: "\<exists>e \<in> set (xg_edges g). xe_kind e = ''published_status'' \<and> xe_target e = ''status:'' @ t @ '':'' @ nat_str (k + 1) \<and>
      xe_timestamp e = Some (coerce_timestamp (dict_get (sort_by_timestamp h ! k) ''timestamp''))"
    using graph_edge_shape(2)[OF project_parts(3)[OF live], of e0] by auto
  let ?last = "coerce_timestamp (dict_get (last (sort_by_timestamp h)) ''timestamp'')"
  have ne: "h \<noteq> []" using assms(3) by auto
  have 2: "gy_ended_at (xg_summary g) = Some ?last" using summary_parts(3)[OF summary] assms(2) ne by simp
  have "?last \<in> set (bd_timestamps b)" if "?last \<noteq> []"
  proof -
    have "last (sort_by_timestamp h) = sort_by_timestamp h ! (length h - 1)" using ne len by (metis last_conv_nth length_0_conv)
    then obtain e1 where "e1 \<in> set (bd_edges b)" "xe_timestamp e1 = Some ?last" using shown[of "length h - 1"] ne by auto
    then show ?thesis using build_ok(1)[OF b] that by (auto simp: building_ok_def refs_ok_def)
  qed
  then have "?last \<noteq> [] \<Longrightarrow> \<exists>a. gy_started_at (xg_summary g) = Some a \<and> a \<le> ?last"
    using summary_parts(2)[OF summary] by (auto simp: filter_empty_conv)
  then show ?thesis using 1 2 by auto
qed

subsection \<open>The service answers\<close>

lemma fold_res_total:
  "(\<And>x s. x \<in> set xs \<Longrightarrow> R s \<Longrightarrow> \<exists>s'. f x s = Inr s' \<and> R s') \<Longrightarrow> R s \<Longrightarrow> \<exists>s'. fold_res f xs s = Inr s' \<and> R s'"
proof (induction xs arbitrary: s)
  case (Cons x xs)
  obtain t where t: "f x s = Inr t" "R t" using Cons.prems(1)[of x s] Cons.prems(2) by auto
  have "\<exists>s'. fold_res f xs t = Inr s' \<and> R s'" by (rule Cons.IH[OF _ t(2)]) (rule Cons.prems(1), simp_all)
  then show ?case using t by simp
qed simp

definition tasks_known :: "string set \<Rightarrow> building \<Rightarrow> bool" where
  "tasks_known T b \<longleftrightarrow> T \<subseteq> dom (map_of (bd_task_nodes b))"

lemma tasks_known_extends: "extends b b' \<Longrightarrow> tasks_known T b \<Longrightarrow> tasks_known T b'"
  by (simp add: extends_def tasks_known_def)

lemma task_node_total: "tid \<in> T \<Longrightarrow> tasks_known T b \<Longrightarrow> \<exists>i. task_node b tid = Inr i"
  by (auto simp: tasks_known_def task_node_def split: option.splits)

lemma tasks_known_frame [simp]:
  "tasks_known T (add_node n b) = tasks_known T b" "tasks_known T (b\<lparr>bd_attempts := a\<rparr>) = tasks_known T b"
  "tasks_known T (b\<lparr>bd_messages := m\<rparr>) = tasks_known T b" "tasks_known T (add_edge e b) = tasks_known T b"
  by (simp_all add: tasks_known_def)

lemma received_message_total:
  assumes "tid \<in> T" and "tasks_known T b"
  shows "\<exists>x b1. received_message m tid item ts b = Inr (x, b1)"
proof -
  let ?n = "message_node m tid item ts"
  have "\<exists>i. task_node ((add_node ?n b)\<lparr>bd_messages := AList.update m (gn_id ?n) (bd_messages b)\<rparr>) tid = Inr i"
    by (rule task_node_total[OF assms(1)]) (simp add: assms(2))
  then show ?thesis by (auto simp: received_message_def Let_def split: option.splits)
qed

lemma observe_attempt_total:
  assumes "tid \<in> T" and "tasks_known T b"
  shows "\<exists>b'. observe_attempt tid item ts b = Inr b'"
proof -
  have "\<exists>i. task_node ((add_node n b)\<lparr>bd_attempts := a\<rparr>) tid = Inr i" for n a
    by (rule task_node_total[OF assms(1)]) (simp add: assms(2))
  then show ?thesis unfolding observe_attempt_def Let_def by (metis bind_res_simps(2))
qed

lemma observe_item_total:
  assumes "tid \<in> T" and "tasks_known T b"
  shows "\<exists>b'. observe_item tid item b = Inr b'"
  using observe_attempt_total[OF assms] received_message_total[OF assms]
  by (auto simp: observe_item_def Let_def observe_received_def)

lemma observe_all_total:
  assumes "fst ` set hs \<subseteq> T" and "tasks_known T b"
  shows "\<exists>b'. observe_all hs b = Inr b' \<and> tasks_known T b'"
  unfolding observe_all_def
proof (rule fold_res_total[where R = "tasks_known T", OF _ assms(2)])
  fix x s assume x: "x \<in> set hs" and s: "tasks_known T s"
  obtain tid obs where [simp]: "x = (tid, obs)" by (rule prod.exhaust)
  have tid: "tid \<in> T" using assms(1) x by force
  show "\<exists>s'. (case x of (tid, observations) \<Rightarrow> fold_res (observe_item tid) (sort_by_timestamp observations)) s = Inr s' \<and> tasks_known T s'"
    unfolding \<open>x = (tid, obs)\<close> prod.case
    by (rule fold_res_total[where R = "tasks_known T", OF _ s]) (metis observe_item_extends observe_item_total tasks_known_extends tid)
qed

text \<open>A status event whose meta can be copied as a mapping.\<close>

definition status_ok :: "dict \<Rightarrow> bool" where
  "status_ok event \<longleftrightarrow> truthy (dict_get event ''meta'') \<longrightarrow> \<not> isl (py_dict (dict_get event ''meta''))"

lemma status_node_total: "status_ok e \<Longrightarrow> \<exists>n. status_node tid k e = Inr n"
  by (cases "py_dict (dict_get e ''meta'')") (auto simp: status_ok_def status_node_def)

lemma add_status_total:
  assumes "tid \<in> T" and "tasks_known T b" and "status_ok e"
  shows "\<exists>b'. add_status w tid (k, e) b = Inr b'"
proof -
  obtain n where n: "status_node tid k e = Inr n" using status_node_total[OF assms(3)] by blast
  obtain i where "task_node (add_node n b) tid = Inr i" using task_node_total[OF assms(1), of "add_node n b"] assms(2) by auto
  then have "\<exists>i. status_source w tid ts (add_node n b) = Inr i" for ts by (auto simp: status_source_def split: option.splits)
  then show ?thesis unfolding add_status_def prod.case Let_def n bind_res_simps by (metis bind_res_simps(2))
qed

lemma add_statuses_total:
  assumes "set tids \<subseteq> T" and "tasks_known T b" and "\<forall>(tid, h) \<in> set hs. \<forall>e \<in> set h. status_ok e"
  shows "\<exists>b'. add_statuses w hs tids b = Inr b' \<and> tasks_known T b'"
  unfolding add_statuses_def
proof (rule fold_res_total[where R = "tasks_known T", OF _ assms(2)])
  fix tid s assume tid: "tid \<in> set tids" and s: "tasks_known T s"
  let ?h = "case map_of hs tid of Some h \<Rightarrow> h | None \<Rightarrow> []"
  have ok: "status_ok (snd x)" if "x \<in> set (enumerate 1 (sort_by_timestamp ?h))" for x
  proof -
    have "snd x \<in> set (map snd (enumerate 1 (sort_by_timestamp ?h)))" using that by (simp only: set_map imageI)
    then have "snd x \<in> set ?h" by (simp add: sort_by_timestamp_def)
    then show ?thesis using assms(3) by (cases "map_of hs tid") (auto dest!: map_of_SomeD)
  qed
  show "\<exists>s'. fold_res (add_status w tid) (enumerate 1 (sort_by_timestamp ?h)) s = Inr s' \<and> tasks_known T s'"
  proof (rule fold_res_total[where R = "tasks_known T", OF _ s])
    fix x s assume x: "x \<in> set (enumerate 1 (sort_by_timestamp ?h))" and s: "tasks_known T s"
    have "tid \<in> T" using tid assms(1) by blast
    from add_status_total[OF this s ok[OF x], of w "fst x"] obtain b' where b': "add_status w tid x s = Inr b'" by auto
    then show "\<exists>s'. add_status w tid x s = Inr s' \<and> tasks_known T s'"
      using add_status_extends[of w tid "fst x" "snd x" s b'] tasks_known_extends[OF _ s] by auto
  qed
qed

lemma add_records_total:
  assumes "fst ` set rs \<subseteq> T" and "tasks_known T b"
  shows "\<exists>b'. add_records rs b = Inr b' \<and> tasks_known T b'"
  unfolding add_records_def
proof (rule fold_res_total[where R = "tasks_known T", OF _ assms(2)])
  fix x s assume x: "x \<in> set rs" and s: "tasks_known T s"
  obtain tid recs where [simp]: "x = (tid, recs)" by (rule prod.exhaust)
  have tid: "tid \<in> T" using assms(1) x by force
  have step: "\<exists>b'. add_record tid r b = Inr b'" if known: "tasks_known T b" for r b
  proof -
    obtain k rec where [simp]: "r = (k, rec)" by (rule prod.exhaust)
    obtain i where "task_node (add_node (record_node tid k rec) b) tid = Inr i"
      using task_node_total[OF tid, of "add_node (record_node tid k rec) b"] known by auto
    then show ?thesis by (auto simp: add_record_def Let_def split: option.splits)
  qed
  show "\<exists>s'. (case x of (tid, records) \<Rightarrow> fold_res (add_record tid) (enumerate 1 records)) s = Inr s' \<and> tasks_known T s'"
    unfolding \<open>x = (tid, recs)\<close> prod.case
    by (rule fold_res_total[where R = "tasks_known T", OF _ s]) (metis add_record_extends step tasks_known_extends)
qed

lemma build_total:
  assumes "fst ` set statuses \<union> fst ` set observations \<union> fst ` set records \<subseteq> insert t (set related)"
    and "\<forall>(tid, h) \<in> set statuses. \<forall>e \<in> set h. status_ok e"
  shows "\<exists>b. build_nodes_and_edges topo t statuses observations records related = Inr b"
proof -
  let ?T = "insert t (set related)" and ?b0 = "add_task_node t t building_start"
  let ?w = "topology_kind topo = ''shared_status_workflow''"
  have b0: "building_ok ?b0" "t \<in> dom (map_of (bd_task_nodes ?b0))" using add_task_node_ok[OF building_ok_start, of t t] by auto
  obtain b1 where b1: "add_related t related ?b0 = Inr b1" "tasks_known ?T b1"
    using add_related_ok[OF b0, of related] b0(2) unfolding tasks_known_def by blast
  obtain b2 where b2: "observe_all observations b1 = Inr b2" "tasks_known ?T b2"
    using observe_all_total[OF _ b1(2), of observations] assms(1) by auto
  obtain b3 where b3: "add_statuses ?w statuses (sorted_set (t # related @ map fst statuses @ map fst observations)) b2 = Inr b3" "tasks_known ?T b3"
    using add_statuses_total[OF _ b2(2) assms(2), of "sorted_set (t # related @ map fst statuses @ map fst observations)" ?w] assms(1) by auto
  have "tasks_known ?T (fold link_retry (bd_retries b3) b3)" using b3(2) link_retries_mono by (simp add: tasks_known_def)
  then obtain b where "add_records records (fold link_retry (bd_retries b3) b3) = Inr b"
    using add_records_total[of records ?T "fold link_retry (bd_retries b3) b3"] assms(1) by blast
  then show ?thesis using b1 b2 b3 by (simp add: build_nodes_and_edges_def)
qed

lemma not_isl_ex: "\<not> isl x \<Longrightarrow> \<exists>y. x = Inr y"
  by (cases x) auto

lemma graph_total:
  assumes "fst ` set statuses \<union> fst ` set observations \<union> fst ` set records \<subseteq> insert t (set related)"
    and "[] \<notin> set related" and "\<forall>(tid, h) \<in> set statuses. \<forall>e \<in> set h. status_ok e"
    and "\<forall>s. \<not> isl (dr_fromisoformat D s)" and "\<forall>a b. \<not> isl (dr_milliseconds D a b)"
  shows "\<exists>g. build_execution_graph D topo t statuses observations records related = Inr g"
proof -
  let ?r = "sorted_set (filter (\<lambda>r. r \<noteq> [] \<and> r \<noteq> t) related)"
  obtain b where b: "build_nodes_and_edges topo t statuses observations records ?r = Inr b"
  proof -
    have "insert t (set related) \<subseteq> insert t (set ?r)" using assms(2) by auto
    then have "fst ` set statuses \<union> fst ` set observations \<union> fst ` set records \<subseteq> insert t (set ?r)" using assms(1) by (rule order_trans[rotated])
    from build_total[OF this assms(3)] show thesis using that by blast
  qed
  have parse: "\<exists>x. parse_timestamp D s = Inr x" for s unfolding parse_timestamp_def
    by (rule not_isl_ex) (use assms(4) in blast)
  have ms: "\<exists>m. dr_milliseconds D x y = Inr m" for x y
    by (rule not_isl_ex) (use assms(5) in blast)
  have "\<exists>m. bind_res (parse_timestamp D e) (\<lambda>te. bind_res (parse_timestamp D s) (\<lambda>ts. bind_res (dr_milliseconds D te ts) (\<lambda>ms. Inr (Some ms)))) = Inr m" for s e
  proof -
    obtain te ts where "parse_timestamp D e = Inr te" "parse_timestamp D s = Inr ts" using parse[of e] parse[of s] by blast
    moreover obtain m where "dr_milliseconds D te ts = Inr m" using ms by blast
    ultimately show ?thesis by simp
  qed
  then have summary: "\<exists>y. build_summary D h ts ob ns = Inr y" for h ts ob ns
    unfolding build_summary_def Let_def by (auto split: option.splits)
  show ?thesis unfolding build_execution_graph_def Let_def b bind_res_simps
    using summary by (auto split: prod.splits)
qed

text \<open>The tables that the loaded histories give.\<close>

lemma fold_tables:
  "set (fold (\<lambda>x d. if g x \<noteq> [] then AList.update (k x) (g x) d else d) xs d) \<subseteq> set d \<union> (\<lambda>x. (k x, g x)) ` set xs"
proof (induction xs arbitrary: d)
  case (Cons x xs)
  have "set (AList.update (k x) (g x) d) \<subseteq> insert (k x, g x) (set d)" by (induction d) auto
  then show ?case using Cons.IH[of "if g x \<noteq> [] then AList.update (k x) (g x) d else d"]
    by (cases "g x \<noteq> []") (simp_all, blast+)
qed simp

lemma fold_tables_Nil:
  "fold (\<lambda>x d. if g x \<noteq> [] then AList.update (k x) (g x) d else d) xs d = [] \<longleftrightarrow> d = [] \<and> (\<forall>x \<in> set xs. g x = [])"
proof (induction xs arbitrary: d)
  case (Cons x xs)
  have "AList.update (k x) (g x) d \<noteq> []" by (cases d) (auto split: if_splits)
  then show ?case using Cons.IH by auto
qed simp

lemma dict_update_tables:
  "dict_update [] (filter (\<lambda>(k, v). v \<noteq> []) xs) = fold (\<lambda>x d. if snd x \<noteq> [] then AList.update (fst x) (snd x) d else d) xs []"
proof -
  have "dict_update d (filter (\<lambda>(k, v). v \<noteq> []) xs) = fold (\<lambda>x d. if snd x \<noteq> [] then AList.update (fst x) (snd x) d else d) xs d" for d
    by (induction xs arbitrary: d) (auto split: prod.splits)
  then show ?thesis .
qed

text \<open> ExecutionGraphService.get_graph (observability/execution_graph.py) answers: when the stores
  answer, no child has an empty id, every meta is a mapping and the timestamps are readable, the
  lookups by task of the builder never fail, and the result is absent exactly when there is no
  status, observation or dead letter of the task and its children. \<close>

theorem execution_graph_answers:
  assumes "gx_children G t = Inr cs" and "[] \<notin> set cs"
    and "\<forall>tid. gx_history G tid = Inr (H tid)" and "\<forall>tid. \<forall>e \<in> set (H tid). status_ok e"
    and "gx_observations G = Some (\<lambda>tid. Inr (P tid))" and "gx_dead_letters G = Some (\<lambda>tid. Inr (L tid))"
    and "\<forall>s. \<not> isl (dr_fromisoformat (gx_dates G) s)" and "\<forall>a b. \<not> isl (dr_milliseconds (gx_dates G) a b)"
  shows "\<exists>r. get_graph G t = Inr r \<and> (r = None \<longleftrightarrow> (\<forall>tid \<in> set (t # cs). H tid = [] \<and> P tid = [] \<and> L tid = []))"
proof -
  let ?T = "t # filter (\<lambda>i. i \<noteq> t) cs"
  have loaded: "map_res (load_task_history G) ?T = Inr (map (\<lambda>tid. (tid, H tid, P tid)) ?T)"
    by (rule map_res_all) (simp add: load_task_history_def assms(3,5))
  have records: "map_res (\<lambda>tid. bind_res (Inr (L tid)) (\<lambda>rs. Inr (tid, rs))) ?T = Inr (map (\<lambda>tid. (tid, L tid)) ?T)"
    by (rule map_res_all) simp
  define S where "S = fold (\<lambda>x d. if fst (snd x) \<noteq> [] then AList.update (fst x) (fst (snd x)) d else d) (map (\<lambda>tid. (tid, H tid, P tid)) ?T) []"
  define O' where "O' = fold (\<lambda>x d. if snd (snd x) \<noteq> [] then AList.update (fst x) (snd (snd x)) d else d) (map (\<lambda>tid. (tid, H tid, P tid)) ?T) []"
  define R where "R = fold (\<lambda>x d. if snd x \<noteq> [] then AList.update (fst x) (snd x) d else d) (map (\<lambda>tid. (tid, L tid)) ?T) []"
  have run: "get_graph G t = (if S = [] \<and> O' = [] \<and> R = [] then Inr None
      else bind_res (build_execution_graph (gx_dates G) (gx_topology G) t S O' R cs) (\<lambda>g. Inr (Some g)))"
    using assms(1,6) loaded records
    by (simp only: get_graph_def Let_def bind_res_simps option.case S_def O'_def R_def dict_update_tables[unfolded case_prod_unfold] case_prod_unfold)
  have S: "set S \<subseteq> (\<lambda>tid. (tid, H tid)) ` set ?T" unfolding S_def using fold_tables[of "\<lambda>x. fst (snd x)" fst "map (\<lambda>tid. (tid, H tid, P tid)) ?T" "[]"] by auto
  have O': "set O' \<subseteq> (\<lambda>tid. (tid, P tid)) ` set ?T" unfolding O'_def using fold_tables[of "\<lambda>x. snd (snd x)" fst "map (\<lambda>tid. (tid, H tid, P tid)) ?T" "[]"] by auto
  have R: "set R \<subseteq> (\<lambda>tid. (tid, L tid)) ` set ?T" unfolding R_def using fold_tables[of snd fst "map (\<lambda>tid. (tid, L tid)) ?T" "[]"] by auto
  have "fst ` set S \<union> fst ` set O' \<union> fst ` set R \<subseteq> insert t (set cs)" using S O' R by fastforce
  moreover have "\<forall>(tid, h) \<in> set S. \<forall>e \<in> set h. status_ok e" using S assms(4) by auto
  ultimately obtain g where g: "build_execution_graph (gx_dates G) (gx_topology G) t S O' R cs = Inr g"
    using graph_total[of S O' R t cs "gx_dates G" "gx_topology G"] assms(2,7,8) by auto
  have "S = [] \<and> O' = [] \<and> R = [] \<longleftrightarrow> (\<forall>tid \<in> set (t # cs). H tid = [] \<and> P tid = [] \<and> L tid = [])"
    unfolding S_def O'_def R_def fold_tables_Nil by auto
  then show ?thesis using run g by auto
qed

text \<open> execution_graph_mermaid (observability/execution_graph.py) draws the whole graph: on a built
  graph it succeeds, with the header, one line per node and one per edge, since no edge is without
  its nodes, under pairwise different identifiers. \<close>

theorem execution_graph_mermaid_complete:
  assumes "build_execution_graph D topo t statuses observations records related = Inr g"
  shows "\<exists>lines. mermaid_lines g = Inr lines \<and> execution_graph_mermaid g = Inr (join [CHR 0x0A] lines) \<and>
    length lines = 1 + length (xg_nodes g) + length (xg_edges g) \<and>
    distinct (map snd (build_mermaid_node_ids (map gn_id (xg_nodes g)) ''node''))"
proof -
  let ?names = "map gn_id (xg_nodes g)" and ?ids = "build_mermaid_node_ids (map gn_id (xg_nodes g)) ''node''"
  note closed = graph_closed[OF assms]
  have ids: "map fst ?ids = ?names" "distinct (map snd ?ids)"
    using build_node_ids_spec[of "[]" ?names "[]" "''node''"] closed(1) by (simp_all add: build_mermaid_node_ids_def)
  have dom: "\<exists>j. map_of ?ids i = Some j" if "i \<in> set ?names" for i
    using that ids(1) by (metis map_of_eq_None_iff not_None_eq set_map)
  have "\<exists>l. mermaid_node_line ?ids n = Inr l" if "n \<in> set (xg_nodes g)" for n
    using dom[of "gn_id n"] that by (auto simp: mermaid_node_line_def node_id_def Let_def)
  then obtain l where l: "mermaid_node_line ?ids n = Inr (l n)" if "n \<in> set (xg_nodes g)" for n by metis
  have "map_res (mermaid_node_line ?ids) (xg_nodes g) = Inr (map l (xg_nodes g))" by (rule map_res_all) (rule l)
  moreover have "length (List.map_filter (mermaid_edge_line ?ids) es) = length es" if "set es \<subseteq> set (xg_edges g)" for es
    using that
  proof (induction es)
    case (Cons e es)
    have "{xe_source e, xe_target e} \<subseteq> set ?names" using closed(3) Cons.prems by simp
    then obtain i j where "map_of ?ids (xe_source e) = Some i" "map_of ?ids (xe_target e) = Some j"
      using dom[of "xe_source e"] dom[of "xe_target e"] by auto
    then show ?case using Cons by (simp add: map_filter_simps mermaid_edge_line_def)
  qed (simp add: map_filter_simps)
  ultimately show ?thesis using ids(2) by (simp add: mermaid_lines_def execution_graph_mermaid_def Let_def)
qed

subsection \<open>Concrete graphs\<close>

text \<open>Instants counted by the length of their text; a task that was received, retried, dead-lettered and marked failed.\<close>

definition sample_dates :: "nat date_reader" where
  "sample_dates = \<lparr>dr_fromisoformat = (\<lambda>s. Inr (length s)), dr_milliseconds = (\<lambda>a b. Inr (int a - int b))\<rparr>"

definition sample_seen :: "string \<Rightarrow> string \<Rightarrow> dict" where
  "sample_seen kind ts = [(''event_type'', PStr kind), (''timestamp'', PStr ts)]"

definition sample_observations :: "(string \<times> dict list) list" where
  "sample_observations = [(''t'', [sample_seen ''ConsumerDeadLetterPublished'' ''3'', sample_seen ''ConsumerRetryScheduled'' ''2'',
     sample_seen ''TaskMessageReceived'' ''1''])]"

definition sample_statuses :: "(string \<times> dict list) list" where
  "sample_statuses = [(''t'', [[(''status'', PStr ''failed''), (''timestamp'', PStr ''4'')], [(''status'', PStr ''queued''), (''timestamp'', PStr ''0'')]])]"

definition sample_graph :: "execution_graph res" where
  "sample_graph = build_execution_graph sample_dates (TasksTopology (sample_topology None None)) ''t''
     sample_statuses sample_observations [] []"

definition graph_values :: "execution_graph \<Rightarrow> nat \<times> nat \<times> (string \<times> int) list \<times> string option \<times> string option" where
  "graph_values g = (length (xg_nodes g), length (xg_edges g), gy_live_state_counts (xg_summary g), gy_started_at (xg_summary g),
     gy_ended_at (xg_summary g))"

lemma sample_graph_values: "map_sum (\<lambda>_. ()) graph_values sample_graph =
    Inr (6, 5, [(''dead_lettered'', 2), (''failed'', 2), (''queued'', 1), (''retrying'', 1)], Some ''0'', Some ''4'')"
  by code_simp

lemma sample_graph_built:
  obtains g where "build_execution_graph sample_dates (TasksTopology (sample_topology None None)) ''t''
     sample_statuses sample_observations [] [] = Inr g" "sample_graph = Inr g"
    "length (xg_nodes g) = 6" "length (xg_edges g) = 5"
    "gy_live_state_counts (xg_summary g) = [(''dead_lettered'', 2), (''failed'', 2), (''queued'', 1), (''retrying'', 1)]"
    "gy_started_at (xg_summary g) = Some ''0''" "gy_ended_at (xg_summary g) = Some ''4''"
  using sample_graph_values by (cases sample_graph) (auto simp: graph_values_def sample_graph_def)

theorem execution_graph_closed_witness:
  "\<exists>g. sample_graph = Inr g \<and> length (xg_edges g) = 5 \<and> distinct (map gn_id (xg_nodes g)) \<and>
     (\<forall>e \<in> set (xg_edges g). xe_source e \<in> gn_id ` set (xg_nodes g) \<and> xe_target e \<in> gn_id ` set (xg_nodes g))"
  by (rule sample_graph_built) (use execution_graph_closed in blast)

theorem execution_graph_states_witness:
  "\<exists>g. sample_graph = Inr g \<and> gy_live_state_counts (xg_summary g) = [(''dead_lettered'', 2), (''failed'', 2), (''queued'', 1), (''retrying'', 1)] \<and>
     sum_list (map snd (gy_live_state_counts (xg_summary g))) = int (length (xg_nodes g))"
  by (rule sample_graph_built) (use execution_graph_states in blast)

theorem execution_graph_shows_statuses_witness:
  "\<exists>g. sample_graph = Inr g \<and> gy_started_at (xg_summary g) = Some ''0'' \<and> gy_ended_at (xg_summary g) = Some ''4'' \<and>
     (\<exists>e \<in> set (xg_edges g). xe_target e = ''status:t:2'' \<and> xe_timestamp e = Some ''4'')"
proof (rule sample_graph_built)
  fix g
  assume g: "build_execution_graph sample_dates (TasksTopology (sample_topology None None)) ''t''
     sample_statuses sample_observations [] [] = Inr g" "sample_graph = Inr g"
    "gy_started_at (xg_summary g) = Some ''0''" "gy_ended_at (xg_summary g) = Some ''4''"
  let ?h = "[[(''status'', PStr ''failed''), (''timestamp'', PStr ''4'')], [(''status'', PStr ''queued''), (''timestamp'', PStr ''0'')]]"
  have h: "map_of sample_statuses ''t'' = Some ?h" "(1 :: nat) < length ?h" by (simp_all add: sample_statuses_def)
  have v: "coerce_timestamp (dict_get (sort_by_timestamp ?h ! 1) ''timestamp'') = ''4''" "''status:'' @ ''t'' @ '':'' @ nat_str (1 + 1) = ''status:t:2''"
    by code_simp+
  have "\<exists>e \<in> set (xg_edges g). xe_target e = ''status:t:2'' \<and> xe_timestamp e = Some ''4''"
    using execution_graph_shows_statuses[OF g(1) h] unfolding v by blast
  then show ?thesis using g by blast
qed

definition sample_service :: "nat graph_service" where
  "sample_service = \<lparr>gx_topology = TasksTopology (sample_topology None None), gx_children = (\<lambda>_. Inr [''c'']),
     gx_history = (\<lambda>tid. Inr (if tid = ''t'' then snd (hd sample_statuses) else [])),
     gx_observations = Some (\<lambda>tid. Inr (if tid = ''c'' then snd (hd sample_observations) else [])),
     gx_dead_letters = Some (\<lambda>tid. Inr []), gx_dates = sample_dates\<rparr>"

theorem execution_graph_answers_witness: "\<exists>g. get_graph sample_service ''t'' = Inr (Some g)"
proof -
  have "\<forall>e \<in> set (snd (hd sample_statuses)). status_ok e" by code_simp
  then have "\<exists>r. get_graph sample_service ''t'' = Inr r \<and> (r = None \<longleftrightarrow>
      (\<forall>tid \<in> set [''t'', ''c'']. (if tid = ''t'' then snd (hd sample_statuses) else []) = [] \<and>
        (if tid = ''c'' then snd (hd sample_observations) else []) = [] \<and> ([] :: dict list) = []))"
    by (intro execution_graph_answers) (auto simp: sample_service_def sample_dates_def)
  moreover have "snd (hd sample_statuses) \<noteq> []" by (simp add: sample_statuses_def)
  ultimately show ?thesis by auto
qed

theorem execution_graph_mermaid_complete_witness:
  "\<exists>g lines. sample_graph = Inr g \<and> mermaid_lines g = Inr lines \<and> length lines = 12"
proof (rule sample_graph_built)
  fix g
  assume g: "build_execution_graph sample_dates (TasksTopology (sample_topology None None)) ''t''
     sample_statuses sample_observations [] [] = Inr g" "sample_graph = Inr g" "length (xg_nodes g) = 6" "length (xg_edges g) = 5"
  show ?thesis using execution_graph_mermaid_complete[OF g(1)] g(2-4) by auto
qed

lemma retry_without_attempt:
  assumes "map_of (bd_attempts b) tid = None"
  shows "bd_edges (observe_retry tid item ts b) = bd_edges b" and "bd_attempts (observe_retry tid item ts b) = bd_attempts b"
    and "known_ids (observe_retry tid item ts b) = insert (''retry:'' @ tid @ '':'' @ nat_str (length (filter (\<lambda>e. xe_kind e = ''retried_as'' \<and>
      dict_get (xe_annotations e) ''task_id'' = PStr tid) (bd_edges b)) + 1)) (known_ids b)"
proof -
  have "latest_attempt (task_attempts (add_node n b) tid) (Some ts) = None" for n
    by (simp add: task_attempts_def assms nodes_of_def map_filter_simps latest_attempt_def)
  then show "bd_edges (observe_retry tid item ts b) = bd_edges b" "bd_attempts (observe_retry tid item ts b) = bd_attempts b"
    "known_ids (observe_retry tid item ts b) = insert (''retry:'' @ tid @ '':'' @ nat_str (length (filter (\<lambda>e. xe_kind e = ''retried_as'' \<and>
      dict_get (xe_annotations e) ''task_id'' = PStr tid) (bd_edges b)) + 1)) (known_ids b)"
    by (simp_all add: observe_retry_def Let_def retry_node_def)
qed

text \<open> Retries of a task without task attempts collapse: a retry is numbered by the retried_as edges
  of its task, which are only drawn from task attempts, and a workflow has stage attempts instead,
  so after a first retry is shown every further one is merged into the same node. \<close>

theorem workflow_retries_collapse:
  assumes "map_of (bd_attempts b) tid = None"
  shows "known_ids (observe_retry tid item2 ts2 (observe_retry tid item1 ts1 b)) = known_ids (observe_retry tid item1 ts1 b)"
  using retry_without_attempt[OF assms, of item1 ts1] retry_without_attempt[of "observe_retry tid item1 ts1 b" tid item2 ts2] assms by simp

theorem workflow_retries_collapse_witness:
  "known_ids (observe_retry ''t'' (sample_seen ''ConsumerRetryScheduled'' ''4'') ''4'' (observe_retry ''t'' (sample_seen ''ConsumerRetryScheduled'' ''2'') ''2'' building_start)) =
   {''retry:t:1''}"
proof -
  have n: "map_of (bd_attempts building_start) ''t'' = None" "known_ids building_start = {}" "bd_edges building_start = []"
    by (simp_all add: building_start_def known_ids_def)
  have "''retry:'' @ ''t'' @ '':'' @ nat_str (0 + 1) = ''retry:t:1''" by code_simp
  then show ?thesis unfolding workflow_retries_collapse[OF n(1)] retry_without_attempt(3)[OF n(1)] n by simp
qed

end
