(* ===== verification/Observation_Store.thy ===== *)
theory Observation_Store
  imports Event_Feed "HOL-Library.Product_Lexorder"
begin

text \<open>
  \<^verbatim>\<open>observability/store.py\<close>, the history of observations per task in Redis, and the readers of
  observations: \<^verbatim>\<open>stage_metrics.py\<close>, \<^verbatim>\<open>alerts.py\<close>, \<^verbatim>\<open>task_timeline.py\<close>, \<^verbatim>\<open>collectors.py\<close> and
  \<^verbatim>\<open>log_contract.py\<close>.  An observation is its class name and its fields, absent when
  \<^verbatim>\<open>event_to_dict\<close> raises; times are their ISO texts (in the log records with the Z suffix).  The metrics counter has no effect here.
\<close>

type_synonym observation = "string \<times> dict option"

record 'r observation_store =
  os_redis :: "'r redis"
  os_prefix :: string
  os_ttl_seconds :: "int option"
  os_history_maxlen :: int
  os_sha :: "string \<Rightarrow> string"
  os_loads :: "string \<Rightarrow> pyval res"
  os_feed :: "(observation \<Rightarrow> ('r, bool) io) option"

definition observation_history_key :: "'r observation_store \<Rightarrow> string \<Rightarrow> string" where
  "observation_history_key S task_id = redis_key (os_sha S) (os_prefix S) (''observation:'' @ task_id) [''history'', task_id]"

definition observation_event_key :: "'r observation_store \<Rightarrow> string \<Rightarrow> dict \<Rightarrow> string" where
  "observation_event_key S task_id event =
     redis_key (os_sha S) (os_prefix S) (''observation:'' @ task_id)
       [''event'', task_id, os_sha S (json_dumps canonical_json (PDict event))]"

definition normalize_observation :: "observation \<Rightarrow> dict" where
  "normalize_observation event =
     AList.update ''event_type'' (PStr (fst event)) (case snd event of Some payload \<Rightarrow> payload | None \<Rightarrow> [])"

definition observation_ttl :: "'r observation_store \<Rightarrow> int option" where
  "observation_ttl S = (case os_ttl_seconds S of Some n \<Rightarrow> if n \<noteq> 0 then Some n else None | None \<Rightarrow> None)"

definition observation_commands :: "'r observation_store \<Rightarrow> string \<Rightarrow> string \<Rightarrow> redis_command list" where
  "observation_commands S key serialized =
     [LPUSH key serialized, LTRIM key 0 (os_history_maxlen S - 1)] @
     (case observation_ttl S of Some n \<Rightarrow> [EXPIRE key n] | None \<Rightarrow> [])"

definition set_event :: "'r observation_store \<Rightarrow> int \<Rightarrow> observation \<Rightarrow> ('r, bool) io" where
  "set_event S now event =
     (let payload = normalize_observation event; task_id = strip (dict_text_or_blank payload ''task_id'') in
      if task_id = [] then io_return False
      else
        io_bind (exec (os_redis S) now (SET (observation_event_key S task_id payload) ''1'' (observation_ttl S) True)) (\<lambda>inserted.
        if \<not> reply_true inserted then io_return False
        else
          io_bind (pipeline (os_redis S) now (observation_commands S (observation_history_key S task_id)
            (json_dumps plain_json (PDict payload)))) (\<lambda>_.
          io_bind (case os_feed S of None \<Rightarrow> io_return False | Some add \<Rightarrow> add event) (\<lambda>_. io_return True))))"

definition get_observations :: "'r observation_store \<Rightarrow> int \<Rightarrow> string \<Rightarrow> int option \<Rightarrow> ('r, pyval list) io" where
  "get_observations S now task_id limit =
     (let limit = (case limit of Some n \<Rightarrow> n | None \<Rightarrow> os_history_maxlen S) in
      io_bind (exec (os_redis S) now (LRANGE (observation_history_key S task_id) 0 (max 0 (limit - 1)))) (\<lambda>reply.
      io_bind (io_lift (reply_texts reply)) (\<lambda>items. io_lift (map_res (os_loads S) (present items)))))"

subsection \<open>Readers of observations\<close>

record stage_health =
  sh_stage :: string
  sh_received :: int
  sh_published :: int
  sh_failed :: int

definition contains_text :: "string \<Rightarrow> string \<Rightarrow> bool" where
  "contains_text needle text = list_ex (\<lambda>i. take (length needle) (drop i text) = needle) [0..<length text + 1]"

text \<open>A field of an observation, \<^verbatim>\<open>getattr(event, name, None)\<close>.\<close>

definition field_of :: "observation \<Rightarrow> string \<Rightarrow> pyval" where
  "field_of event name = (case snd event of Some fs \<Rightarrow> dict_get fs name | None \<Rightarrow> PNone)"

definition count_event :: "string \<Rightarrow> stage_health \<Rightarrow> stage_health" where
  "count_event event_type h =
     h\<lparr>sh_received := sh_received h + (if contains_text ''Received'' event_type \<or> contains_text ''Started'' event_type then 1 else 0),
       sh_published := sh_published h + (if contains_text ''Published'' event_type \<or> contains_text ''Acked'' event_type then 1 else 0),
       sh_failed := sh_failed h + (if contains_text ''Failed'' event_type then 1 else 0)\<rparr>"

definition stage_step :: "observation \<Rightarrow> (string \<times> stage_health) list \<Rightarrow> (string \<times> stage_health) list" where
  "stage_step event snapshots =
     (case field_of event ''stage'' of
        PStr stage \<Rightarrow>
          if stage = [] then snapshots
          else let h = (case map_of snapshots stage of Some h \<Rightarrow> h
                 | None \<Rightarrow> \<lparr>sh_stage = stage, sh_received = 0, sh_published = 0, sh_failed = 0\<rparr>)
               in AList.update stage (count_event (fst event) h) snapshots
      | _ \<Rightarrow> snapshots)"

definition compute_stage_health :: "observation list \<Rightarrow> (string \<times> stage_health) list" where
  "compute_stage_health events = fold stage_step events []"

definition detect_stage_alerts :: "observation list \<Rightarrow> int \<Rightarrow> string list" where
  "detect_stage_alerts events failure_threshold =
     List.map_filter (\<lambda>(stage, snapshot). if failure_threshold \<le> sh_failed snapshot
       then Some (''stage '' @ quoted stage @ '' has '' @ int_str (sh_failed snapshot) @ '' failures'') else None)
       (compute_stage_health events)"

record timeline_entry =
  tl_event_type :: string
  tl_task_id :: string
  tl_stage :: pyval
  tl_timestamp :: pyval

definition build_task_timeline :: "observation list \<Rightarrow> string \<Rightarrow> timeline_entry list" where
  "build_task_timeline events task_id =
     sort_key (\<lambda>e. (py_str (tl_timestamp e), tl_event_type e))
       (map (\<lambda>event. \<lparr>tl_event_type = fst event, tl_task_id = task_id, tl_stage = field_of event ''stage'',
          tl_timestamp = field_of event ''timestamp''\<rparr>)
        (filter (\<lambda>event. field_of event ''task_id'' = PStr task_id) events))"

text \<open>The collector on an asyncio queue: \<^verbatim>\<open>put\<close> waits while the queue is full, \<^verbatim>\<open>drain\<close> empties it.\<close>

record observation_queue =
  oq_maxsize :: int
  oq_items :: "observation list"

definition queue_put :: "observation \<Rightarrow> observation_queue \<Rightarrow> observation_queue option" where
  "queue_put event q =
     (if 0 < oq_maxsize q \<and> oq_maxsize q \<le> int (length (oq_items q)) then None
      else Some (q\<lparr>oq_items := oq_items q @ [event]\<rparr>))"

function drain_queue :: "observation_queue \<Rightarrow> observation list \<Rightarrow> observation list \<times> observation_queue" where
  "drain_queue q items =
     (case oq_items q of [] \<Rightarrow> (items, q) | x # xs \<Rightarrow> drain_queue (q\<lparr>oq_items := xs\<rparr>) (items @ [x]))"
  by pat_completeness auto
termination
  by (relation "measure (\<lambda>(q, _). length (oq_items q))") (auto split: list.splits)

subsection \<open>Structured logs\<close>

definition required_log_fields :: "string list" where
  "required_log_fields = [''service'', ''app'', ''event'', ''level'', ''timestamp'']"

definition task_log_fields :: "string list" where
  "task_log_fields = [''task_id'', ''correlation_id'', ''stage'', ''attempt'']"

definition drop_none :: "dict \<Rightarrow> dict" where
  "drop_none d = filter (\<lambda>(k, v). v \<noteq> PNone) d"

definition drop_normalized_log_keys :: "dict \<Rightarrow> dict" where
  "drop_normalized_log_keys d = filter (\<lambda>(k, v). k \<notin> {''event'', ''level'', ''timestamp''}) d"

definition level_for_event :: "string \<Rightarrow> string" where
  "level_for_event event_name =
     (if contains_text ''failed'' event_name \<or> contains_text ''error'' event_name then ''error''
      else if list_ex (\<lambda>marker. contains_text marker event_name) [''rejected'', ''retry'', ''dead_letter'', ''dlq'', ''malformed'']
      then ''warning'' else ''info'')"

definition is_upper_char :: "char \<Rightarrow> bool" where
  "is_upper_char c = (let n = of_char c :: nat in 65 \<le> n \<and> n \<le> 90)"

definition is_lower_char :: "char \<Rightarrow> bool" where
  "is_lower_char c = (let n = of_char c :: nat in 97 \<le> n \<and> n \<le> 122)"

definition is_alnum_char :: "char \<Rightarrow> bool" where
  "is_alnum_char c = (is_digit c \<or> is_upper_char c \<or> is_lower_char c)"

text \<open>\<^verbatim>\<open>re.sub(r"[^0-9A-Za-z]+", "_", value)\<close>\<close>

fun separate_words :: "bool \<Rightarrow> string \<Rightarrow> string" where
  "separate_words inside [] = []"
| "separate_words inside (c # s) =
     (if is_alnum_char c then c # separate_words False s
      else if inside then separate_words True s else CHR ''_'' # separate_words True s)"

text \<open>
  \<^verbatim>\<open>re.sub(r"(.)([A-Z][a-z]+)", r"\1_\2", s)\<close>: a character followed by a capitalised word is kept
  apart from it; the search goes on after the word.
\<close>

function split_capitalised :: "string \<Rightarrow> string" where
  "split_capitalised (a # b # c # s) =
     (if a \<noteq> CHR 0x0A \<and> is_upper_char b \<and> is_lower_char c
      then a # CHR ''_'' # b # c # takeWhile is_lower_char s @ split_capitalised (dropWhile is_lower_char s)
      else a # split_capitalised (b # c # s))"
| "split_capitalised [] = []"
| "split_capitalised [a] = [a]"
| "split_capitalised [a, b] = [a, b]"
  by pat_completeness auto
termination
proof (relation "measure length")
  show "(dropWhile is_lower_char s, a # b # c # s) \<in> measure length" for a b c s
    using length_dropWhile_le[of is_lower_char s] by simp
qed simp_all

text \<open>\<^verbatim>\<open>re.sub(r"([a-z0-9])([A-Z])", r"\1_\2", s)\<close>\<close>

fun split_lower_upper :: "string \<Rightarrow> string" where
  "split_lower_upper (a # b # s) =
     (if (is_lower_char a \<or> is_digit a) \<and> is_upper_char b then a # CHR ''_'' # b # split_lower_upper s
      else a # split_lower_upper (b # s))"
| "split_lower_upper s = s"

definition snake_case :: "string \<Rightarrow> string" where
  "snake_case value =
     lower (split_lower_upper (split_capitalised (strip_with (\<lambda>c. c = CHR ''_'') (separate_words False value))))"

text \<open>An event is an object of a class or a mapping.\<close>

datatype log_event = LoggedObject string dict | LoggedMapping dict

definition logged_fields :: "log_event \<Rightarrow> dict" where
  "logged_fields event = (case event of LoggedObject _ d \<Rightarrow> d | LoggedMapping d \<Rightarrow> d)"

definition event_name :: "log_event \<Rightarrow> string" where
  "event_name event =
     (case event of
        LoggedObject type_name _ \<Rightarrow> snake_case type_name
      | LoggedMapping d \<Rightarrow>
          (let raw = (if truthy (dict_get d ''event'') then dict_get d ''event''
             else if truthy (dict_get d ''event_type'') then dict_get d ''event_type'' else PStr ''relayna_event'')
           in snake_case (py_str raw)))"

record log_context =
  lc_service :: string
  lc_app :: string
  lc_env :: "string option"
  lc_runtime :: "string option"
  lc_fields :: dict

definition studio_log_context :: "log_context \<Rightarrow> dict" where
  "studio_log_context c = drop_none (dict_update
     [(''service'', PStr (lc_service c)), (''app'', PStr (lc_app c)), (''env'', opt_str (lc_env c)), (''runtime'', opt_str (lc_runtime c))]
     (lc_fields c))"

definition log_attempt :: "dict \<Rightarrow> dict" where
  "log_attempt d =
     (let retry_attempt = dict_get d ''retry_attempt''; rest = AList.delete ''retry_attempt'' d
      in if retry_attempt \<noteq> PNone \<and> \<not> dict_has rest ''attempt'' then rest @ [(''attempt'', retry_attempt)] else rest)"

text \<open>\<open>trace\<close> are the active trace fields, \<open>now\<close> the text of the current time.\<close>

definition observation_to_studio_log_fields :: "dict \<Rightarrow> string \<Rightarrow> log_context \<Rightarrow> log_event \<Rightarrow> dict" where
  "observation_to_studio_log_fields trace now c event =
     (let fields1 = logged_fields event; name = event_name event; timestamp = dict_get fields1 ''timestamp'';
          timestamp_value = (if timestamp = PNone then now else py_str timestamp);
          event_fields = drop_normalized_log_keys (log_attempt (AList.delete ''timestamp'' fields1));
          context_fields = drop_normalized_log_keys (lc_fields c)
      in drop_none (dict_update (dict_update (dict_update
           [(''service'', PStr (lc_service c)), (''app'', PStr (lc_app c)), (''env'', opt_str (lc_env c)),
            (''runtime'', opt_str (lc_runtime c)), (''event'', PStr name), (''level'', PStr (level_for_event name)),
            (''timestamp'', PStr timestamp_value)] event_fields) trace) context_fields))"

definition validate_studio_log_fields :: "dict \<Rightarrow> bool \<Rightarrow> string list" where
  "validate_studio_log_fields d require_task_context =
     filter (\<lambda>k. dict_get d k = PNone \<or> dict_get d k = PStr [])
       (required_log_fields @ (if require_task_context then task_log_fields else []))"

text \<open>The log call of the sink: the method, the event name and the fields.\<close>

definition structlog_call :: "dict \<Rightarrow> string \<Rightarrow> log_context \<Rightarrow> log_event \<Rightarrow> string \<times> string \<times> dict" where
  "structlog_call trace now c event =
     (let payload = observation_to_studio_log_fields trace now c event;
          rest = AList.delete ''event'' payload; level = dict_get rest ''level''
      in (if truthy level then py_str level else ''info'', py_str (dict_get payload ''event''), rest))"

subsection \<open>An observation is stored once\<close>

lemma observation_keys_apart [simp]:
  "observation_history_key S t \<noteq> observation_event_key S t e" "observation_event_key S t e \<noteq> observation_history_key S t"
  by (simp_all add: observation_history_key_def observation_event_key_def)

text \<open>What the store relies on: its Redis server and a feed that keeps out of its keys.\<close>

locale observation_backend = redis_server "os_redis S" \<alpha> for S :: "'r observation_store" and \<alpha> :: "'r \<Rightarrow> keyspace" +
  assumes feed: "os_feed S = Some add \<Longrightarrow> add e r = (x, r') \<Longrightarrow>
      \<alpha> r' (observation_history_key S t) = \<alpha> r (observation_history_key S t) \<and>
      \<alpha> r' (observation_event_key S t p) = \<alpha> r (observation_event_key S t p)"
begin

lemma set_event_fresh:
  assumes t: "t = strip (dict_text_or_blank (normalize_observation e) ''task_id'')" "t \<noteq> []"
    and fresh: "live now (\<alpha> r) (observation_event_key S t (normalize_observation e)) = None"
    and hist: "with_list now (\<alpha> r) (observation_history_key S t) = Inr (xs, d)" and "1 \<le> os_history_maxlen S"
    and run: "set_event S now e r = (Inr b, r')"
  shows "b \<and> (\<exists>d'. with_list now (\<alpha> r') (observation_history_key S t) =
       Inr (take (nat (os_history_maxlen S)) (json_dumps plain_json (PDict (normalize_observation e)) # xs), d')) \<and>
     \<alpha> r' (observation_event_key S t (normalize_observation e)) = Some (StrV ''1'', map_option (\<lambda>n. now + seconds n) (observation_ttl S))"
proof -
  let ?p = "normalize_observation e" and ?h = "observation_history_key S t"
  let ?k = "observation_event_key S t ?p" and ?j = "json_dumps plain_json (PDict (normalize_observation e))"
  let ?cs = "observation_commands S ?h ?j"
  obtain x r1 where 1: "exec (os_redis S) now (SET ?k ''1'' (observation_ttl S) True) r = (Inr x, r1)"
    using run t by (cases "exec (os_redis S) now (SET ?k ''1'' (observation_ttl S) True) r", cases "fst (exec (os_redis S) now (SET ?k ''1'' (observation_ttl S) True) r)")
      (auto simp: set_event_def Let_def io_bind_def)
  have x: "x = IntR 1" "\<alpha> r1 = (\<alpha> r)(?k \<mapsto> (StrV ''1'', map_option (\<lambda>n. now + seconds n) (observation_ttl S)))"
    using exec_set [OF 1] fresh by auto
  have ttl: "\<not> (case observation_ttl S of Some n \<Rightarrow> n \<le> 0 | None \<Rightarrow> False)" using exec_Inr [OF 1] by (auto split: if_splits)
  obtain ys r2 y where pipe: "pipeline (os_redis S) now ?cs r1 = (Inr ys, r2)"
    and last: "(case os_feed S of None \<Rightarrow> io_return False | Some add \<Rightarrow> add e) r2 = (Inr y, r')" and b
    using run t 1 x(1) by (auto simp: set_event_def Let_def io_simps reply_true_def)
  have h1: "with_list now (\<alpha> r1) ?h = Inr (xs, d)" using hist with_list_frame [of "\<alpha> r1" ?h "\<alpha> r" now] by (simp add: x(2))
  have slice: "list_slice 0 (os_history_maxlen S - 1) (?j # xs) = take (nat (os_history_maxlen S)) (?j # xs)"
    using assms(5) by (simp add: list_slice_def list_index_def Let_def)
  have "\<alpha> r2 = snd (db_run now ?cs (\<alpha> r1))" using pipeline_Inr [OF pipe] by (auto simp: db_pipe_def split: prod.splits)
  moreover have "\<exists>d'. with_list now (snd (db_run now ?cs (\<alpha> r1))) ?h = Inr (take (nat (os_history_maxlen S)) (?j # xs), d')"
    unfolding slice [symmetric] observation_commands_def
  proof (rule push_trim_expire [OF h1])
    show "list_slice 0 (os_history_maxlen S - 1) (?j # xs) \<noteq> []" unfolding slice using assms(5) by simp
    show "(case observation_ttl S of None \<Rightarrow> [] | Some n \<Rightarrow> [EXPIRE ?h n]) = [] \<or>
        (\<exists>n > 0. (case observation_ttl S of None \<Rightarrow> [] | Some n \<Rightarrow> [EXPIRE ?h n]) = [EXPIRE ?h n])"
      using ttl by (auto split: option.splits)
  qed
  moreover have "\<alpha> r2 ?k = \<alpha> r1 ?k"
    by (rule pipeline_frame [OF pipe]) (auto simp: observation_commands_def split: option.splits)
  moreover have "\<alpha> r' ?h = \<alpha> r2 ?h \<and> \<alpha> r' ?k = \<alpha> r2 ?k"
  proof (cases "os_feed S")
    case (Some add)
    then show ?thesis using last feed [OF Some, of e r2 "Inr y" r' t ?p] by simp
  qed (use last in \<open>simp add: io_simps\<close>)
  ultimately show ?thesis using \<open>b\<close> x(2) with_list_frame [of "\<alpha> r'" ?h "\<alpha> r2" now] by simp
qed

lemma set_event_known:
  assumes t: "t = strip (dict_text_or_blank (normalize_observation e) ''task_id'')" "t \<noteq> []"
    and "live now (\<alpha> r) (observation_event_key S t (normalize_observation e)) \<noteq> None" and run: "set_event S now e r = (Inr b, r')"
  shows "\<not> b \<and> \<alpha> r' = \<alpha> r"
proof -
  let ?k = "observation_event_key S t (normalize_observation e)"
  obtain x r1 where 1: "exec (os_redis S) now (SET ?k ''1'' (observation_ttl S) True) r = (Inr x, r1)"
    using run t by (cases "exec (os_redis S) now (SET ?k ''1'' (observation_ttl S) True) r", cases "fst (exec (os_redis S) now (SET ?k ''1'' (observation_ttl S) True) r)")
      (auto simp: set_event_def Let_def io_bind_def)
  have "x = NilR" "\<alpha> r1 = \<alpha> r" using exec_set [OF 1] assms(3) by auto
  then show ?thesis using run t 1 by (auto simp: set_event_def Let_def io_simps reply_true_def)
qed

end

text \<open>The feed of this development keeps out of the store's keys: its script changes its own four.\<close>

definition keeps :: "string \<Rightarrow> (keyspace, 'a) io \<Rightarrow> bool" where
  "keeps k m \<longleftrightarrow> (\<forall>d x d'. m d = (x, d') \<longrightarrow> d' k = d k)"

lemma keeps_bind: "keeps k m \<Longrightarrow> (\<And>x. keeps k (f x)) \<Longrightarrow> keeps k (io_bind m f)"
  unfolding keeps_def io_bind_def by (auto split: prod.splits sum.splits) (metis)+

lemma keeps_return [simp]: "keeps k (io_return x)"
  by (simp add: keeps_def io_return_def)

lemma keeps_exec: "k \<notin> keys_of c \<Longrightarrow> keeps k (db_exec now c)"
  unfolding keeps_def using db_exec_frame by (metis snd_conv)

lemma keeps_ops: "k \<noteq> j \<Longrightarrow> keeps k (db_incr now j)" "keeps k (db_zrange now j)" "k \<noteq> j \<Longrightarrow> keeps k (db_zremrangebyrank now j n)"
  by (auto simp: keeps_def db_incr_def db_zrange_def db_zremrangebyrank_def put_zset_def split: sum.splits if_splits)

lemma keeps_hdel: "k \<noteq> j \<Longrightarrow> keeps k (db_hdel_all now j fs)"
  by (induction fs) (auto intro!: keeps_bind keeps_exec)

lemma keeps_store_script:
  assumes "k \<notin> {fk_event ks, fk_sequence ks, fk_index ks, fk_payloads ks}"
  shows "keeps k (store_script now ks p c m ttl)"
proof -
  have ne: "k \<noteq> fk_event ks" "k \<noteq> fk_sequence ks" "k \<noteq> fk_index ks" "k \<noteq> fk_payloads ks" using assms by auto
  show ?thesis unfolding store_script_def Let_def
    by (auto simp: ne intro!: keeps_bind keeps_exec keeps_ops keeps_hdel)
qed

lemma add_observation_frame:
  assumes "script_server (ef_eval F) \<alpha>" and "add_observation_event F now e r = (x, r')"
    and "\<forall>c. k \<notin> {feed_event_key F c, feed_sequence_key F, feed_key F, feed_payloads_key F}"
  shows "\<alpha> r' k = \<alpha> r k"
proof (cases "normalize_observation_feed_event (ef_sha F) e")
  case (Some ev)
  let ?s = "store_script now (keys_for F (sv_cursor ev)) (ef_dump F ev) (sv_cursor ev) (ef_feed_maxlen F) (ttl_argument F)"
  obtain y where y: "ef_eval F ?s r = (y, r')"
    using assms(2) Some by (auto simp: add_observation_event_def store_event_def io_bind_def io_return_def split: prod.splits sum.splits)
  obtain z d' where z: "?s (\<alpha> r) = (z, d')" by (rule prod.exhaust)
  have "keeps k ?s" by (rule keeps_store_script) (use assms(3) in auto)
  then have "d' k = \<alpha> r k" using z by (auto simp: keeps_def)
  then show ?thesis using script_server.eval_law[OF assms(1) y] z by auto
qed (use assms(2) in \<open>simp add: add_observation_event_def io_return_def\<close>)

definition sample_observation_store :: "(observation \<Rightarrow> (keyspace, bool) io) option \<Rightarrow> keyspace observation_store" where
  "sample_observation_store feed = \<lparr>os_redis = mem_redis, os_prefix = ''o'', os_ttl_seconds = Some 60, os_history_maxlen = 2,
     os_sha = id, os_loads = (\<lambda>_. Inr PNone), os_feed = feed\<rparr>"

lemma sample_feed_keys_apart:
  "k = observation_history_key (sample_observation_store f) t \<or> k = observation_event_key (sample_observation_store f) t p \<Longrightarrow>
   k \<notin> {feed_event_key sample_feed c, feed_sequence_key sample_feed, feed_key sample_feed, feed_payloads_key sample_feed}"
  by (auto simp: observation_history_key_def observation_event_key_def feed_event_key_def feed_sequence_key_def feed_key_def
    feed_payloads_key_def redis_key_def sample_feed_def sample_observation_store_def)

interpretation mem_observations: observation_backend "sample_observation_store (Some (add_observation_event sample_feed 0))" id
proof (intro observation_backend.intro)
  show "redis_server (os_redis (sample_observation_store (Some (add_observation_event sample_feed 0)))) id"
    by (simp add: sample_observation_store_def mem_redis.redis_server_axioms)
  show "observation_backend_axioms (sample_observation_store (Some (add_observation_event sample_feed 0))) id"
  proof
    fix add e r x r' t p
    let ?S = "sample_observation_store (Some (add_observation_event sample_feed 0))"
    assume "os_feed ?S = Some add" and "add e r = (x, r')"
    then have run: "add_observation_event sample_feed 0 e r = (x, r')" by (simp add: sample_observation_store_def)
    have "id r' k = id r k" if "k = observation_history_key ?S t \<or> k = observation_event_key ?S t p" for k
      by (rule add_observation_frame[OF sample_server run]) (use sample_feed_keys_apart[OF that] in blast)
    then show "id r' (observation_history_key ?S t) = id r (observation_history_key ?S t) \<and>
        id r' (observation_event_key ?S t p) = id r (observation_event_key ?S t p)" by blast
  qed
qed

text \<open> RedisObservationStore.set_event (observability/store.py) stores an observation once: a new one
  goes to the head of the history of its task, at most history_maxlen entries are kept, and the
  same observation again within the lifetime of its marker, also with its fields in another order,
  is refused and changes nothing. \<close>

theorem observation_stored_once:
  assumes "observation_backend S \<alpha>" and "t = strip (dict_text_or_blank (normalize_observation e) ''task_id'')" "t \<noteq> []"
    and "live t0 (\<alpha> r) (observation_event_key S t (normalize_observation e)) = None"
    and "with_list t0 (\<alpha> r) (observation_history_key S t) = Inr (xs, d)" "1 \<le> os_history_maxlen S"
    and "set_event S t0 e r = (Inr b, r1)"
    and "dict_wf (normalize_observation e)" "dict_wf (normalize_observation e2)" "map_of (normalize_observation e2) = map_of (normalize_observation e)"
    and "\<forall>ttl. observation_ttl S = Some ttl \<longrightarrow> t1 \<le> t0 + seconds ttl" and "set_event S t1 e2 r1 = (Inr b2, r2)"
  shows "b \<and> (\<exists>d'. with_list t0 (\<alpha> r1) (observation_history_key S t) =
       Inr (take (nat (os_history_maxlen S)) (json_dumps plain_json (PDict (normalize_observation e)) # xs), d')) \<and> \<not> b2 \<and> \<alpha> r2 = \<alpha> r1"
proof -
  note fresh = observation_backend.set_event_fresh[OF assms(1-7)]
  have j: "json_dumps canonical_json (PDict (normalize_observation e2)) = json_dumps canonical_json (PDict (normalize_observation e))"
    by (rule json_dumps_order_independent) (use assms(8-10) in \<open>simp_all add: canonical_json_def\<close>)
  then have k: "observation_event_key S t (normalize_observation e2) = observation_event_key S t (normalize_observation e)"
    by (simp add: observation_event_key_def)
  have t: "t = strip (dict_text_or_blank (normalize_observation e2) ''task_id'')" using assms(2,10) by (simp add: dict_text_or_blank_def)
  have "live t1 (\<alpha> r1) (observation_event_key S t (normalize_observation e2)) \<noteq> None"
    using fresh assms(11) unfolding k by (cases "observation_ttl S") (auto simp: live_def)
  from observation_backend.set_event_known[OF assms(1) t assms(3) this assms(12)] fresh show ?thesis by blast
qed

text \<open> C37. RedisObservationStore.set_event loses an observation whose history write fails: the marker is
  set first and stays, so the next attempt within its lifetime is refused as a duplicate and the
  history never gets the observation. \<close>

theorem failed_observation_is_dropped:
  assumes "observation_backend S \<alpha>" and "t = strip (dict_text_or_blank (normalize_observation e) ''task_id'')" "t \<noteq> []"
    and "exec (os_redis S) t0 (SET (observation_event_key S t (normalize_observation e)) ''1'' (observation_ttl S) True) r = (Inr (IntR 1), r1)"
    and "pipeline (os_redis S) t0 (observation_commands S (observation_history_key S t) (json_dumps plain_json (PDict (normalize_observation e)))) r1 = (Inl err, r2)"
    and "\<alpha> r2 = \<alpha> r1" and "\<forall>ttl. observation_ttl S = Some ttl \<longrightarrow> t1 \<le> t0 + seconds ttl" and "set_event S t1 e r2 = (Inr b, r3)"
  shows "set_event S t0 e r = (Inl err, r2) \<and> \<not> b \<and> \<alpha> r3 (observation_history_key S t) = \<alpha> r (observation_history_key S t)"
proof -
  have server: "redis_server (os_redis S) \<alpha>" by (rule observation_backend.axioms(1)[OF assms(1)])
  have 1: "set_event S t0 e r = (Inl err, r2)"
    using assms(2-5) by (simp add: set_event_def Let_def io_bind_def reply_true_def)
  have s: "\<alpha> r1 = (\<alpha> r)(observation_event_key S t (normalize_observation e) \<mapsto> (StrV ''1'', map_option (\<lambda>n. t0 + seconds n) (observation_ttl S)))"
    using redis_server.exec_set[OF server assms(4)] by (auto split: if_splits)
  have "live t1 (\<alpha> r2) (observation_event_key S t (normalize_observation e)) \<noteq> None"
    using assms(6,7) s by (cases "observation_ttl S") (auto simp: live_def)
  from observation_backend.set_event_known[OF assms(1-3) this assms(8)] have "\<not> b" "\<alpha> r3 = \<alpha> r2" by auto
  then show ?thesis using 1 assms(6) s by simp
qed

subsection \<open>Concrete stores\<close>

abbreviation feeding_store :: "keyspace observation_store" where
  "feeding_store \<equiv> sample_observation_store (Some (add_observation_event sample_feed 0))"

definition seen_twice :: "observation \<times> observation" where
  "seen_twice = ((''TaskStarted'', Some [(''task_id'', PStr ''t''), (''event_id'', PStr ''e'')]),
     (''TaskStarted'', Some [(''event_id'', PStr ''e''), (''task_id'', PStr ''t'')]))"

theorem observation_stored_once_witness:
  "\<exists>r1 r2. set_event feeding_store 0 (fst seen_twice) Map.empty = (Inr True, r1) \<and>
     set_event feeding_store 1000000 (snd seen_twice) r1 = (Inr False, r2) \<and> r2 = r1"
proof -
  define r1 where "r1 = snd (set_event feeding_store 0 (fst seen_twice) Map.empty)"
  have 1: "set_event feeding_store 0 (fst seen_twice) Map.empty = (Inr True, r1)"
  proof -
    have "fst (set_event feeding_store 0 (fst seen_twice) Map.empty) = Inr True" by code_simp
    then show ?thesis by (simp add: r1_def prod_eq_iff)
  qed
  have "fst (set_event feeding_store 1000000 (snd seen_twice) (snd (set_event feeding_store 0 (fst seen_twice) Map.empty))) = Inr False" by code_simp
  then obtain r2 where 2: "set_event feeding_store 1000000 (snd seen_twice) r1 = (Inr False, r2)"
    unfolding r1_def by (metis prod.collapse)
  have t: "''t'' = strip (dict_text_or_blank (normalize_observation (fst seen_twice)) ''task_id'')" by code_simp
  have m: "map_of (normalize_observation (snd seen_twice)) = map_of (normalize_observation (fst seen_twice))"
    by (auto simp: normalize_observation_def seen_twice_def fun_eq_iff)
  have w: "dict_wf (normalize_observation (fst seen_twice))" "dict_wf (normalize_observation (snd seen_twice))" by code_simp+
  have ttl: "\<forall>ttl. observation_ttl feeding_store = Some ttl \<longrightarrow> 1000000 \<le> 0 + seconds ttl"
    by (simp add: observation_ttl_def sample_observation_store_def seconds_def)
  have h: "1 \<le> os_history_maxlen feeding_store" by (simp add: sample_observation_store_def)
  have l: "live 0 (id Map.empty) k = None" "with_list 0 (id Map.empty) k = Inr ([], None)" for k by (simp_all add: live_def with_list_def)
  show ?thesis
    using observation_stored_once[OF mem_observations.observation_backend_axioms t _ l h 1 w m ttl 2] 1 2 by simp
qed

text \<open>A server whose pipelines fail.\<close>

definition failing_pipeline :: "keyspace redis" where
  "failing_pipeline = \<lparr>exec = db_exec, pipeline = (\<lambda>now cs d. (Inl (ExternalError ''connection lost''), d))\<rparr>"

definition failing_store :: "keyspace observation_store" where
  "failing_store = (sample_observation_store None)\<lparr>os_redis := failing_pipeline\<rparr>"

interpretation failing_observations: observation_backend failing_store id
proof (intro observation_backend.intro)
  show "redis_server (os_redis failing_store) id"
    by unfold_locales (auto simp: failing_store_def failing_pipeline_def)
  show "observation_backend_axioms failing_store id"
    by unfold_locales (simp_all add: failing_store_def sample_observation_store_def)
qed

theorem failed_observation_is_dropped_witness:
  "\<exists>r2 r3. set_event failing_store 0 (fst seen_twice) Map.empty = (Inl (ExternalError ''connection lost''), r2) \<and>
     set_event failing_store 1000000 (fst seen_twice) r2 = (Inr False, r3) \<and> r3 (observation_history_key failing_store ''t'') = None"
proof -
  let ?e = "fst seen_twice"
  let ?k = "observation_event_key failing_store ''t'' (normalize_observation ?e)"
  define r1 where "r1 = snd (db_exec 0 (SET ?k ''1'' (observation_ttl failing_store) True) Map.empty)"
  have t: "''t'' = strip (dict_text_or_blank (normalize_observation ?e) ''task_id'')" by code_simp
  have ttl: "observation_ttl failing_store = Some 60"
    by (simp add: observation_ttl_def failing_store_def sample_observation_store_def)
  have ex: "exec (os_redis failing_store) = db_exec" by (simp add: failing_store_def failing_pipeline_def)
  have 1: "exec (os_redis failing_store) 0 (SET ?k ''1'' (observation_ttl failing_store) True) Map.empty = (Inr (IntR 1), r1)"
    by (simp add: ex r1_def ttl live_def)
  have 2: "pipeline (os_redis failing_store) 0 cs r1 = (Inl (ExternalError ''connection lost''), r1)" for cs
    by (simp add: failing_store_def failing_pipeline_def)
  have known: "live 1000000 (id r1) ?k \<noteq> None" by (simp add: r1_def ttl live_def seconds_def)
  have "exec (os_redis failing_store) 1000000 (SET ?k ''1'' (observation_ttl failing_store) True) r1 = (Inr NilR, r1)"
    using known by (simp add: ex ttl)
  then have 3: "set_event failing_store 1000000 ?e r1 = (Inr False, r1)"
    using t by (simp add: set_event_def Let_def io_bind_def io_return_def reply_true_def)
  have "\<forall>s. observation_ttl failing_store = Some s \<longrightarrow> 1000000 \<le> 0 + seconds s" by (simp add: ttl seconds_def)
  from failed_observation_is_dropped[OF failing_observations.observation_backend_axioms t _ 1 2 refl this 3] 3 show ?thesis by auto
qed

subsection \<open>Logs keep their contract\<close>

lemma map_of_drop_none: "dict_wf d \<Longrightarrow> map_of (drop_none d) k = (case map_of d k of Some v \<Rightarrow> if v = PNone then None else Some v | None \<Rightarrow> None)"
proof (induction d)
  case (Cons p d)
  obtain a v where p: "p = (a, v)" by (rule prod.exhaust)
  show ?case
  proof (cases "a = k")
    case True
    then have "map_of d k = None" using Cons.prems by (simp add: p map_of_eq_None_iff)
    then have "map_of (drop_none d) k = None" using Cons by simp
    then show ?thesis using True by (simp add: p drop_none_def)
  qed (use Cons in \<open>simp add: p drop_none_def\<close>)
qed (simp add: drop_none_def)

lemma map_of_dict_update_other: "k \<notin> fst ` set e \<Longrightarrow> map_of (dict_update d e) k = map_of d k"
  by (induction e arbitrary: d) auto

lemma normalized_keys_dropped: "k \<in> {''event'', ''level'', ''timestamp''} \<Longrightarrow> k \<notin> fst ` set (drop_normalized_log_keys d)"
  by (auto simp: drop_normalized_log_keys_def)

text \<open> observation_to_studio_log_fields (observability/log_contract.py) keeps the log contract: no
  field of the event or of the context overrides the event name, the level or the timestamp, the
  level is error, warning or info, no value is None, and make_structlog_observation_sink calls the
  method of that level with the event name once. \<close>

theorem log_contract_kept:
  assumes "fst ` set trace \<inter> {''event'', ''level'', ''timestamp''} = {}"
  shows "let d = observation_to_studio_log_fields trace now c ev in
     dict_get d ''event'' = PStr (event_name ev) \<and> dict_get d ''level'' = PStr (level_for_event (event_name ev)) \<and>
     dict_get d ''timestamp'' \<noteq> PNone \<and> PNone \<notin> snd ` set d \<and>
     level_for_event (event_name ev) \<in> {''error'', ''warning'', ''info''} \<and>
     fst (structlog_call trace now c ev) = level_for_event (event_name ev) \<and>
     fst (snd (structlog_call trace now c ev)) = event_name ev \<and>
     \<not> dict_has (snd (snd (structlog_call trace now c ev))) ''event''"
proof -
  define ef where "ef = drop_normalized_log_keys (log_attempt (AList.delete ''timestamp'' (logged_fields ev)))"
  define tv where "tv = (if dict_get (logged_fields ev) ''timestamp'' = PNone then now else py_str (dict_get (logged_fields ev) ''timestamp''))"
  define base where "base = [(''service'', PStr (lc_service c)), (''app'', PStr (lc_app c)), (''env'', opt_str (lc_env c)),
    (''runtime'', opt_str (lc_runtime c)), (''event'', PStr (event_name ev)), (''level'', PStr (level_for_event (event_name ev))), (''timestamp'', PStr tv)]"
  define d where "d = observation_to_studio_log_fields trace now c ev"
  have d: "d = drop_none (dict_update (dict_update (dict_update base ef) trace) (drop_normalized_log_keys (lc_fields c)))"
    by (simp add: d_def observation_to_studio_log_fields_def Let_def ef_def tv_def base_def)
  have wf: "dict_wf base" by (simp add: base_def)
  have get: "map_of d k = (case map_of base k of Some v \<Rightarrow> if v = PNone then None else Some v | None \<Rightarrow> None)"
    if k: "k \<in> {''event'', ''level'', ''timestamp''}" for k
  proof -
    have "k \<notin> fst ` set trace" using assms k by blast
    then show ?thesis using wf k normalized_keys_dropped[OF k]
      by (simp add: d ef_def map_of_drop_none map_of_dict_update_other)
  qed
  have e: "map_of d ''event'' = Some (PStr (event_name ev))" and l: "map_of d ''level'' = Some (PStr (level_for_event (event_name ev)))"
    and t: "map_of d ''timestamp'' = Some (PStr tv)" using get by (simp_all add: base_def)
  have level: "level_for_event (event_name ev) \<in> {''error'', ''warning'', ''info''}" by (simp add: level_for_event_def)
  then have ne: "level_for_event (event_name ev) \<noteq> []" by auto
  have call: "structlog_call trace now c ev = (level_for_event (event_name ev), event_name ev, AList.delete ''event'' d)"
    using ne by (simp add: structlog_call_def Let_def d_def[symmetric] dict_get_def e l py_str_def)
  have "PNone \<notin> snd ` set d" by (auto simp: d drop_none_def)
  then show ?thesis unfolding Let_def d_def[symmetric] call using level by (simp add: dict_get_def e l t)
qed

theorem log_contract_kept_witness:
  "structlog_call [] ''now'' \<lparr>lc_service = ''s'', lc_app = ''a'', lc_env = None, lc_runtime = None, lc_fields = [(''level'', PStr ''x'')]\<rparr>
     (LoggedObject ''TaskRetryScheduled'' [(''event'', PStr ''y''), (''retry_attempt'', PInt 2)]) =
   (''warning'', ''task_retry_scheduled'', [(''service'', PStr ''s''), (''app'', PStr ''a''), (''level'', PStr ''warning''),
      (''timestamp'', PStr ''now''), (''attempt'', PInt 2)])"
proof -
  let ?c = "\<lparr>lc_service = ''s'', lc_app = ''a'', lc_env = None, lc_runtime = None, lc_fields = [(''level'', PStr ''x'')]\<rparr>"
  let ?e = "LoggedObject ''TaskRetryScheduled'' [(''event'', PStr ''y''), (''retry_attempt'', PInt 2)]"
  have "snd (snd (structlog_call [] ''now'' ?c ?e)) = [(''service'', PStr ''s''), (''app'', PStr ''a''), (''level'', PStr ''warning''),
      (''timestamp'', PStr ''now''), (''attempt'', PInt 2)]" by code_simp
  moreover have "level_for_event (event_name ?e) = ''warning''" "event_name ?e = ''task_retry_scheduled''" by code_simp+
  moreover have "fst (structlog_call [] ''now'' ?c ?e) = level_for_event (event_name ?e) \<and> fst (snd (structlog_call [] ''now'' ?c ?e)) = event_name ?e"
    using log_contract_kept[of "[]" "''now''" ?c ?e] by (simp add: Let_def)
  ultimately show ?thesis by (simp add: prod_eq_iff)
qed

end
