(* ===== verification/Rabbit_Client.thy ===== *)
theory Rabbit_Client
  imports Consumer_Context
begin

text \<open>
  \<^verbatim>\<open>rabbitmq/client.py\<close>: the client that connects, declares the topology and publishes, and the
  \<^verbatim>\<open>DirectQueuePublisher\<close>.  aio-pika is the argument \<open>B\<close>, a record of the calls the code makes, which
  may do anything to the world \<open>'w\<close> and may raise.  The client object is the record \<open>client\<close>; beside
  the fields of the object it keeps the world and the log of the calls made.  \<^verbatim>\<open>initialize\<close> and
  \<^verbatim>\<open>close\<close> run under the client's lock, so each is one step.  Tracing is an argument: the active
  trace fields and the headers that are injected.  Metrics have no effect here.
\<close>

subsection \<open>Either kind of topology\<close>

datatype relayna_topology = Shared_Status shared_topology | Workflow_Status workflow_topology

fun tp_connection_string :: "relayna_topology \<Rightarrow> string option \<Rightarrow> string" where
  "tp_connection_string (Shared_Status t) name = connection_string (st_rabbitmq_url t) name"
| "tp_connection_string (Workflow_Status t) name = wt_connection_string t name"

fun tp_prefetch_count :: "relayna_topology \<Rightarrow> int" where
  "tp_prefetch_count (Shared_Status t) = st_prefetch_count t"
| "tp_prefetch_count (Workflow_Status t) = wt_prefetch_count t"

fun tp_workflow_exchange_name :: "relayna_topology \<Rightarrow> string option" where
  "tp_workflow_exchange_name (Shared_Status t) = workflow_exchange_name t"
| "tp_workflow_exchange_name (Workflow_Status t) = wt_workflow_exchange_name t"

fun tp_declare_exchanges :: "relayna_topology \<Rightarrow> (string \<times> string) chan" where
  "tp_declare_exchanges (Shared_Status t) = declare_exchanges t"
| "tp_declare_exchanges (Workflow_Status t) = wt_declare_exchanges t"

fun tp_declare_queues :: "relayna_topology \<Rightarrow> string \<Rightarrow> string \<Rightarrow> unit chan" where
  "tp_declare_queues (Shared_Status t) tasks status = declare_queues t tasks status"
| "tp_declare_queues (Workflow_Status t) tasks status = wt_declare_queues t tasks status"

fun tp_ensure_status_queue :: "relayna_topology \<Rightarrow> string \<Rightarrow> string chan" where
  "tp_ensure_status_queue (Shared_Status t) status = ensure_status_queue t status"
| "tp_ensure_status_queue (Workflow_Status t) status = wt_ensure_status_queue t status"

fun tp_ensure_tasks_queue :: "relayna_topology \<Rightarrow> string \<Rightarrow> string chan" where
  "tp_ensure_tasks_queue (Shared_Status t) tasks = ensure_tasks_queue t tasks"
| "tp_ensure_tasks_queue (Workflow_Status t) tasks = wt_ensure_tasks_queue t tasks"

fun tp_ensure_workflow_queue :: "relayna_topology \<Rightarrow> string \<Rightarrow> string \<Rightarrow> string chan" where
  "tp_ensure_workflow_queue (Shared_Status t) ex stage = ensure_workflow_queue t ex stage"
| "tp_ensure_workflow_queue (Workflow_Status t) ex stage = wt_ensure_workflow_queue t ex stage"

fun tp_ensure_aggregation_queue :: "relayna_topology \<Rightarrow> string \<Rightarrow> int list \<Rightarrow> string option \<Rightarrow> string chan" where
  "tp_ensure_aggregation_queue (Shared_Status t) status shards name = ensure_aggregation_queue t status shards name"
| "tp_ensure_aggregation_queue (Workflow_Status t) status shards name = chan_of no_aggregation"

fun tp_task_queue_arguments :: "relayna_topology \<Rightarrow> dict res" where
  "tp_task_queue_arguments (Shared_Status t) = task_queue_arguments t"
| "tp_task_queue_arguments (Workflow_Status t) = wt_task_queue_arguments t"

fun tp_workflow_queue_arguments :: "relayna_topology \<Rightarrow> string \<Rightarrow> dict res" where
  "tp_workflow_queue_arguments (Shared_Status t) stage = workflow_queue_arguments t stage"
| "tp_workflow_queue_arguments (Workflow_Status t) stage = wt_workflow_queue_arguments t stage"

fun tp_workflow_publish_routing_key :: "relayna_topology \<Rightarrow> string \<Rightarrow> string res" where
  "tp_workflow_publish_routing_key (Shared_Status t) stage = workflow_publish_routing_key t stage"
| "tp_workflow_publish_routing_key (Workflow_Status t) stage = wt_workflow_publish_routing_key t stage"

fun tp_task_routing_key :: "relayna_topology \<Rightarrow> dict \<Rightarrow> string res" where
  "tp_task_routing_key (Shared_Status t) task = task_routing_key t task"
| "tp_task_routing_key (Workflow_Status t) task = wt_task_routing_key task"

fun tp_status_routing_key :: "(string \<Rightarrow> string) \<Rightarrow> relayna_topology \<Rightarrow> dict \<Rightarrow> string res" where
  "tp_status_routing_key sha (Shared_Status t) event = status_routing_key sha t event"
| "tp_status_routing_key sha (Workflow_Status t) event = wt_status_routing_key event"

fun tp_aggregation_status_routing_key :: "(string \<Rightarrow> string) \<Rightarrow> relayna_topology \<Rightarrow> dict \<Rightarrow> string res" where
  "tp_aggregation_status_routing_key sha (Shared_Status t) event = aggregation_status_routing_key sha t event"
| "tp_aggregation_status_routing_key sha (Workflow_Status t) event = no_aggregation"

fun tp_aggregation_shard :: "(string \<Rightarrow> string) \<Rightarrow> relayna_topology \<Rightarrow> dict \<Rightarrow> int res" where
  "tp_aggregation_shard sha (Shared_Status t) event = aggregation_shard sha t event"
| "tp_aggregation_shard sha (Workflow_Status t) event = no_aggregation"

subsection \<open>The broker and the client object\<close>

record outgoing =
  om_body :: string
  om_content_type :: "string option"
  om_persistent :: bool
  om_correlation_id :: "string option"
  om_priority :: "int option"
  om_headers :: dict

text \<open>
  The calls of aio-pika; connections and channels are numbers, an exchange is its name,
  the default exchange the empty name.  \<open>om_priority\<close> is the priority given, absent when none was.
\<close>

record 'w amqp =
  aq_connect :: "string \<Rightarrow> ('w, nat) io"
  aq_channel :: "nat \<Rightarrow> ('w, nat) io"
  aq_set_qos :: "nat \<Rightarrow> int \<Rightarrow> ('w, unit) io"
  aq_declare :: "nat \<Rightarrow> broker_command \<Rightarrow> ('w, unit) io"
  aq_passive :: "nat \<Rightarrow> string \<Rightarrow> ('w, (int option \<times> int option) option) io"
  aq_publish :: "string \<Rightarrow> string \<Rightarrow> outgoing \<Rightarrow> ('w, unit) io"
  aq_close_connection :: "nat \<Rightarrow> ('w, unit) io"
  aq_close_channel :: "nat \<Rightarrow> ('w, unit) io"
  aq_connection_closed :: "'w \<Rightarrow> nat \<Rightarrow> bool"
  aq_channel_closed :: "'w \<Rightarrow> nat \<Rightarrow> bool"

datatype client_event =
    Connected nat
  | Opened nat nat
  | Qos_set nat int bool
  | Declared nat broker_command bool
  | Sent string string outgoing bool
  | Connection_closed nat bool
  | Channel_closed nat bool

record 'w client =
  cl_connection :: "nat option"
  cl_channel :: "nat option"
  cl_tasks_exchange :: "string option"
  cl_workflow_exchange :: "string option"
  cl_status_exchange :: "string option"
  cl_initialized :: bool
  cl_world :: 'w
  cl_log :: "client_event list"

text \<open>What the client is configured with, and the models and codecs it uses.\<close>

record client_config =
  cc_topology :: relayna_topology
  cc_connection_name :: string
  cc_alias_config :: "alias_config option"
  cc_sha :: "string \<Rightarrow> string"
  cc_encode :: "pyval \<Rightarrow> string res"
  cc_trace_fields :: dict
  cc_inject :: "dict \<Rightarrow> dict"
  cc_tasks :: task_model
  cc_workflow_validate :: "pyval \<Rightarrow> workflow_envelope res"
  cc_workflow_dump :: "workflow_envelope \<Rightarrow> dict"
  cc_status_dump :: "status_event \<Rightarrow> dict"
  cc_batch :: "string \<Rightarrow> task_envelope list \<Rightarrow> dict \<Rightarrow> batch_task_envelope res"
  cc_batch_dump :: "batch_task_envelope \<Rightarrow> dict"

definition new_client :: "'w \<Rightarrow> 'w client" where
  "new_client w = \<lparr>cl_connection = None, cl_channel = None, cl_tasks_exchange = None, cl_workflow_exchange = None,
     cl_status_exchange = None, cl_initialized = False, cl_world = w, cl_log = []\<rparr>"

definition io_get :: "('s \<Rightarrow> 'a) \<Rightarrow> ('s, 'a) io" where
  "io_get f s = (Inr (f s), s)"

definition io_modify :: "('s \<Rightarrow> 's) \<Rightarrow> ('s, unit) io" where
  "io_modify f s = (Inr (), f s)"

definition on_broker :: "('a res \<Rightarrow> client_event list) \<Rightarrow> ('w, 'a) io \<Rightarrow> ('w client, 'a) io" where
  "on_broker note m s = (case m (cl_world s) of (r, w) \<Rightarrow> (r, s\<lparr>cl_world := w, cl_log := cl_log s @ note r\<rparr>))"

definition connect :: "'w amqp \<Rightarrow> string \<Rightarrow> ('w client, nat) io" where
  "connect B url = on_broker (\<lambda>r. case r of Inr h \<Rightarrow> [Connected h] | Inl _ \<Rightarrow> []) (aq_connect B url)"

definition open_channel :: "'w amqp \<Rightarrow> nat \<Rightarrow> ('w client, nat) io" where
  "open_channel B h = on_broker (\<lambda>r. case r of Inr ch \<Rightarrow> [Opened h ch] | Inl _ \<Rightarrow> []) (aq_channel B h)"

definition set_qos :: "'w amqp \<Rightarrow> nat \<Rightarrow> int \<Rightarrow> ('w client, unit) io" where
  "set_qos B ch n = on_broker (\<lambda>r. [Qos_set ch n (\<not> isl r)]) (aq_set_qos B ch n)"

definition declare_one :: "'w amqp \<Rightarrow> nat \<Rightarrow> broker_command \<Rightarrow> ('w client, unit) io" where
  "declare_one B ch c = on_broker (\<lambda>r. [Declared ch c (\<not> isl r)]) (aq_declare B ch c)"

definition send_message :: "'w amqp \<Rightarrow> string \<Rightarrow> string \<Rightarrow> outgoing \<Rightarrow> ('w client, unit) io" where
  "send_message B exchange key m = on_broker (\<lambda>r. [Sent exchange key m (\<not> isl r)]) (aq_publish B exchange key m)"

definition close_connection :: "'w amqp \<Rightarrow> nat \<Rightarrow> ('w client, unit) io" where
  "close_connection B h = on_broker (\<lambda>r. [Connection_closed h (\<not> isl r)]) (aq_close_connection B h)"

definition close_channel :: "'w amqp \<Rightarrow> nat \<Rightarrow> ('w client, unit) io" where
  "close_channel B ch = on_broker (\<lambda>r. [Channel_closed ch (\<not> isl r)]) (aq_close_channel B ch)"

text \<open>A declaration of the topology sends its commands in turn and ends as computed.\<close>

definition declare_on :: "'w amqp \<Rightarrow> nat \<Rightarrow> 'a chan \<Rightarrow> ('w client, 'a) io" where
  "declare_on B ch m = io_bind (io_map (declare_one B ch) (fst m)) (\<lambda>_. io_lift (snd m))"

subsection \<open>Connecting and closing\<close>

definition initialize :: "'w amqp \<Rightarrow> client_config \<Rightarrow> ('w client, unit) io" where
  "initialize B C =
     io_bind (io_get cl_initialized) (\<lambda>initialized.
     if initialized then io_return ()
     else
       io_bind (connect B (tp_connection_string (cc_topology C) (Some (cc_connection_name C)))) (\<lambda>connection.
       io_bind (io_modify (\<lambda>s. s\<lparr>cl_connection := Some connection\<rparr>)) (\<lambda>_.
       io_bind (open_channel B connection) (\<lambda>channel.
       io_bind (io_modify (\<lambda>s. s\<lparr>cl_channel := Some channel\<rparr>)) (\<lambda>_.
       io_bind (set_qos B channel (tp_prefetch_count (cc_topology C))) (\<lambda>_.
       io_bind (declare_on B channel (tp_declare_exchanges (cc_topology C))) (\<lambda>(tasks, status).
       io_bind (io_modify (\<lambda>s. s\<lparr>cl_tasks_exchange := Some tasks, cl_status_exchange := Some status,
         cl_workflow_exchange := (if tp_workflow_exchange_name (cc_topology C) \<noteq> None then Some tasks else None)\<rparr>)) (\<lambda>_.
       io_bind (declare_on B channel (tp_declare_queues (cc_topology C) tasks status)) (\<lambda>_.
       io_modify (\<lambda>s. s\<lparr>cl_initialized := True\<rparr>))))))))))"

definition ensure_ready :: "'w amqp \<Rightarrow> client_config \<Rightarrow> ('w client, unit) io" where
  "ensure_ready B C =
     io_bind (io_get cl_initialized) (\<lambda>initialized. if \<not> initialized then initialize B C else io_return ())"

definition close :: "'w amqp \<Rightarrow> ('w client, unit) io" where
  "close B =
     io_bind (io_modify (\<lambda>s. s\<lparr>cl_initialized := False\<rparr>)) (\<lambda>_.
     io_bind (io_get (\<lambda>s. (cl_connection s, cl_world s))) (\<lambda>(connection, w).
     io_bind (case connection of
         Some h \<Rightarrow> if \<not> aq_connection_closed B w h then close_connection B h else io_return ()
       | None \<Rightarrow> io_return ()) (\<lambda>_.
     io_modify (\<lambda>s. s\<lparr>cl_connection := None, cl_channel := None, cl_tasks_exchange := None,
       cl_workflow_exchange := None, cl_status_exchange := None\<rparr>))))"

subsection \<open>Queues\<close>

definition not_initialized :: py_error where
  "not_initialized = RuntimeError ''RabbitMQ connection is not initialized''"

definition declare_with :: "'w amqp \<Rightarrow> client_config \<Rightarrow> ('w client \<Rightarrow> string option) \<Rightarrow> py_error \<Rightarrow> (string \<Rightarrow> 'a chan) \<Rightarrow> ('w client, 'a) io" where
  "declare_with B C exchange_of err m =
     io_bind (ensure_ready B C) (\<lambda>_.
     io_bind (io_get (\<lambda>s. (cl_channel s, exchange_of s))) (\<lambda>(channel, exchange).
       case (channel, exchange) of (Some ch, Some ex) \<Rightarrow> declare_on B ch (m ex) | _ \<Rightarrow> io_raise err))"

definition client_ensure_status_queue :: "'w amqp \<Rightarrow> client_config \<Rightarrow> ('w client, string) io" where
  "client_ensure_status_queue B C =
     declare_with B C cl_status_exchange not_initialized (tp_ensure_status_queue (cc_topology C))"

definition client_ensure_tasks_queue :: "'w amqp \<Rightarrow> client_config \<Rightarrow> ('w client, string) io" where
  "client_ensure_tasks_queue B C =
     declare_with B C cl_tasks_exchange not_initialized (tp_ensure_tasks_queue (cc_topology C))"

definition client_ensure_workflow_queue :: "'w amqp \<Rightarrow> client_config \<Rightarrow> string \<Rightarrow> ('w client, string) io" where
  "client_ensure_workflow_queue B C stage =
     declare_with B C cl_workflow_exchange (RuntimeError ''Workflow exchange is not initialized'')
       (\<lambda>ex. tp_ensure_workflow_queue (cc_topology C) ex stage)"

definition client_ensure_aggregation_queue ::
  "'w amqp \<Rightarrow> client_config \<Rightarrow> int list \<Rightarrow> string option \<Rightarrow> ('w client, string) io" where
  "client_ensure_aggregation_queue B C shards queue_name =
     declare_with B C cl_status_exchange not_initialized
       (\<lambda>ex. tp_ensure_aggregation_queue (cc_topology C) ex shards queue_name)"

record retry_queues =
  rq_source_queue_name :: string
  rq_retry_queue_name :: string
  rq_dead_letter_queue_name :: string

definition retry_queue_arguments :: "string \<Rightarrow> int \<Rightarrow> dict" where
  "retry_queue_arguments source_queue_name delay_ms =
     [(''x-message-ttl'', PInt delay_ms), (''x-dead-letter-exchange'', PStr []),
      (''x-dead-letter-routing-key'', PStr source_queue_name)]"

definition ensure_retry_infrastructure ::
  "'w amqp \<Rightarrow> client_config \<Rightarrow> string \<Rightarrow> int \<Rightarrow> string \<Rightarrow> string \<Rightarrow> ('w client, retry_queues) io" where
  "ensure_retry_infrastructure B C source_queue_name delay_ms retry_queue_suffix dead_letter_queue_suffix =
     io_bind (ensure_ready B C) (\<lambda>_.
     io_bind (io_get cl_channel) (\<lambda>channel. case channel of
        None \<Rightarrow> io_raise not_initialized
      | Some ch \<Rightarrow>
          if strip source_queue_name = [] then io_raise (ValueError ''source_queue_name must not be empty'')
          else if delay_ms \<le> 0 then io_raise (ValueError ''delay_ms must be greater than zero'')
          else
            let retry = source_queue_name @ retry_queue_suffix; dead_letter = source_queue_name @ dead_letter_queue_suffix in
            io_bind (declare_one B ch (DeclareQueue retry (Some (retry_queue_arguments source_queue_name delay_ms)))) (\<lambda>_.
            io_bind (declare_one B ch (DeclareQueue dead_letter None)) (\<lambda>_.
            io_return \<lparr>rq_source_queue_name = source_queue_name, rq_retry_queue_name = retry,
              rq_dead_letter_queue_name = dead_letter\<rparr>))))"

subsection \<open>Preparing payloads\<close>

text \<open>\<^verbatim>\<open>priority\<close> of a dumped envelope: the models let an integer or nothing through.\<close>

definition dict_priority :: "dict \<Rightarrow> int option" where
  "dict_priority d = (case dict_get d ''priority'' of PInt n \<Rightarrow> Some n | _ \<Rightarrow> None)"

definition coerce_queue_max_priority :: "dict \<Rightarrow> int option res" where
  "coerce_queue_max_priority arguments =
     (case dict_get arguments ''x-max-priority'' of PNone \<Rightarrow> Inr None | v \<Rightarrow> bind_res (py_int v) (\<lambda>n. Inr (Some n)))"

definition resolved_task_max_priority :: "client_config \<Rightarrow> int option res" where
  "resolved_task_max_priority C = bind_res (tp_task_queue_arguments (cc_topology C)) coerce_queue_max_priority"

definition resolved_workflow_max_priority :: "client_config \<Rightarrow> string \<Rightarrow> int option res" where
  "resolved_workflow_max_priority C stage =
     (if stage = [] then Inr None
      else bind_res (tp_workflow_queue_arguments (cc_topology C) stage) coerce_queue_max_priority)"

definition validate_priority_against_limit :: "int option \<Rightarrow> int option \<Rightarrow> string \<Rightarrow> unit res" where
  "validate_priority_against_limit priority max_priority kind =
     (case (priority, max_priority) of
        (Some p, Some m) \<Rightarrow> guard_res (m < p) (ValueError
          (kind @ '' priority '' @ int_str p @ '' exceeds configured '' @ kind @ ''_max_priority '' @ int_str m))
      | _ \<Rightarrow> Inr ())"

definition validate_task_priority :: "client_config \<Rightarrow> dict \<Rightarrow> unit res" where
  "validate_task_priority C task =
     bind_res (resolved_task_max_priority C) (\<lambda>m. validate_priority_against_limit (dict_priority task) m ''task'')"

definition validate_workflow_priority :: "client_config \<Rightarrow> dict \<Rightarrow> unit res" where
  "validate_workflow_priority C workflow =
     bind_res (resolved_workflow_max_priority C (strip (dict_text_or_blank workflow ''stage''))) (\<lambda>m.
       validate_priority_against_limit (dict_priority workflow) m ''workflow'')"

definition dict_action :: "dict \<Rightarrow> string option" where
  "dict_action d = (case dict_get d ''action'' of PStr a \<Rightarrow> Some a | _ \<Rightarrow> None)"

definition dict_payload :: "dict \<Rightarrow> dict" where
  "dict_payload d = (case dict_get d ''payload'' of PDict p \<Rightarrow> p | _ \<Rightarrow> [])"

definition validate_workflow_contract :: "client_config \<Rightarrow> dict \<Rightarrow> unit res" where
  "validate_workflow_contract C workflow =
     (case cc_topology C of
        Shared_Status _ \<Rightarrow> Inr ()
      | Workflow_Status t \<Rightarrow>
          (let target_stage = strip (dict_text_or_blank workflow ''stage'') in
           if target_stage = [] then Inr ()
           else validate_publish_contract t target_stage (dict_action workflow) (dict_payload workflow)
                  (nonempty (Some (strip (dict_text_or_blank workflow ''origin_stage''))))))"

definition prepare_task_envelope :: "client_config \<Rightarrow> dict \<Rightarrow> task_envelope res" where
  "prepare_task_envelope C task =
     tm_validate (cc_tasks C) (PDict (normalize_contract_aliases task (cc_alias_config C) Payload True))"

definition prepare_task_payload :: "client_config \<Rightarrow> dict \<Rightarrow> dict res" where
  "prepare_task_payload C task = bind_res (prepare_task_envelope C task) (\<lambda>envelope. Inr (tm_dump (cc_tasks C) envelope))"

text \<open>
  What the caller passes: an envelope of the library, another model (its dump) or a mapping.
\<close>

datatype 'e given = Envelope 'e | Model dict | Mapping dict

definition prepare_workflow_payload :: "client_config \<Rightarrow> workflow_envelope given \<Rightarrow> string option \<Rightarrow> dict res" where
  "prepare_workflow_payload C payload stage =
     (let workflow_dict = (case payload of
            Envelope e \<Rightarrow> workflow_transport_dict (cc_workflow_dump C) e
          | Model d \<Rightarrow> d
          | Mapping d \<Rightarrow> normalize_contract_aliases d (cc_alias_config C) Payload True);
          workflow_dict = (case stage of Some st \<Rightarrow> AList.update ''stage'' (PStr st) workflow_dict | None \<Rightarrow> workflow_dict)
      in bind_res (cc_workflow_validate C (PDict workflow_dict)) (\<lambda>envelope.
           Inr (workflow_transport_dict (cc_workflow_dump C) envelope)))"

definition status_as_text :: "dict \<Rightarrow> dict" where
  "status_as_text event =
     (case dict_get event ''status'' of PStr _ \<Rightarrow> event | PNone \<Rightarrow> event
      | v \<Rightarrow> AList.update ''status'' (PStr (py_str v)) event)"

definition with_correlation_id :: "dict \<Rightarrow> dict" where
  "with_correlation_id event =
     (let correlation_id = (if truthy (dict_get event ''correlation_id'') then dict_get event ''correlation_id''
            else PStr (dict_text event ''task_id''))
      in if truthy correlation_id then AList.update ''correlation_id'' (PStr (py_str correlation_id)) event else event)"

definition prepare_status_payload :: "client_config \<Rightarrow> status_event given \<Rightarrow> dict" where
  "prepare_status_payload C event =
     (let event_dict = (case event of
            Envelope e \<Rightarrow> status_transport_dict (cc_sha C) (cc_status_dump C) e
          | Model d \<Rightarrow> d
          | Mapping d \<Rightarrow> normalize_contract_aliases d (cc_alias_config C) Payload True)
      in ensure_status_event_id (cc_sha C)
           (dict_update (with_correlation_id (status_as_text event_dict)) (cc_trace_fields C)))"

subsection \<open>Publishing tasks\<close>

definition persistent_message :: "client_config \<Rightarrow> dict \<Rightarrow> string option \<Rightarrow> int option \<Rightarrow> dict \<Rightarrow> outgoing res" where
  "persistent_message C payload correlation_id priority headers =
     bind_res (cc_encode C (PDict payload)) (\<lambda>body.
       Inr \<lparr>om_body = body, om_content_type = Some ''application/json'', om_persistent = True,
            om_correlation_id = correlation_id, om_priority = priority, om_headers = cc_inject C headers\<rparr>)"

text \<open>\<^verbatim>\<open>str(d.get("correlation_id") or d.get("task_id", "")) or None\<close>\<close>

definition correlation_of :: "dict \<Rightarrow> string option" where
  "correlation_of d = nonempty (Some
     (if truthy (dict_get d ''correlation_id'') then py_str (dict_get d ''correlation_id'') else dict_text d ''task_id''))"

definition task_message :: "client_config \<Rightarrow> dict \<Rightarrow> dict \<Rightarrow> outgoing res" where
  "task_message C task_dict headers =
     persistent_message C task_dict (correlation_of task_dict) (dict_priority task_dict)
       (dict_update [(''task_id'', PStr (dict_text task_dict ''task_id''))] headers)"

definition no_tasks_exchange :: py_error where
  "no_tasks_exchange = RuntimeError ''Tasks exchange is not initialized''"

definition publish_prepared_task :: "'w amqp \<Rightarrow> client_config \<Rightarrow> dict \<Rightarrow> dict \<Rightarrow> ('w client, unit) io" where
  "publish_prepared_task B C task_dict headers =
     io_bind (io_get cl_tasks_exchange) (\<lambda>exchange. case exchange of
        None \<Rightarrow> io_raise no_tasks_exchange
      | Some ex \<Rightarrow>
          io_bind (io_lift (validate_task_priority C task_dict)) (\<lambda>_.
          io_bind (io_lift (tp_task_routing_key (cc_topology C) task_dict)) (\<lambda>routing_key.
          io_bind (io_lift (task_message C task_dict headers)) (\<lambda>message.
            send_message B ex routing_key message))))"

definition require_task_topology :: "client_config \<Rightarrow> unit res" where
  "require_task_topology C =
     (case cc_topology C of
        Workflow_Status _ \<Rightarrow>
          Inl (RuntimeError ''SharedStatusWorkflowTopology requires publish_to_stage(...) or publish_to_entry(...)'')
      | Shared_Status _ \<Rightarrow> Inr ())"

definition require_tasks_exchange :: "('w client, unit) io" where
  "require_tasks_exchange =
     io_bind (io_get cl_tasks_exchange) (\<lambda>ex. if ex = None then io_raise no_tasks_exchange else io_return ())"

definition publish_task :: "'w amqp \<Rightarrow> client_config \<Rightarrow> dict \<Rightarrow> dict \<Rightarrow> ('w client, unit) io" where
  "publish_task B C task headers =
     io_bind (io_lift (require_task_topology C)) (\<lambda>_.
     io_bind (ensure_ready B C) (\<lambda>_.
     io_bind require_tasks_exchange (\<lambda>_.
     io_bind (io_lift (prepare_task_payload C task)) (\<lambda>task_dict.
       publish_prepared_task B C task_dict headers))))"

definition publish_prepared_task_item :: "'w amqp \<Rightarrow> client_config \<Rightarrow> dict \<Rightarrow> ('w client, unit) io" where
  "publish_prepared_task_item B C task =
     io_bind (io_lift (require_task_topology C)) (\<lambda>_.
     io_bind (ensure_ready B C) (\<lambda>_.
     io_bind require_tasks_exchange (\<lambda>_. publish_prepared_task B C task [])))"

subsection \<open>Publishing many tasks\<close>

datatype publish_mode = Individual | Batch_envelope | Other_mode string

definition resolve_batch_priority :: "client_config \<Rightarrow> dict list \<Rightarrow> int option res" where
  "resolve_batch_priority C tasks =
     (let priorities = remdups (map dict_priority tasks) in
      if 1 < length priorities
      then Inl (ValueError ''batch_envelope tasks must all share the same priority when priority is provided'')
      else let priority = (case priorities of [] \<Rightarrow> None | p # _ \<Rightarrow> p) in
        bind_res (resolved_task_max_priority C) (\<lambda>m.
        bind_res (validate_priority_against_limit priority m ''task'') (\<lambda>_. Inr priority)))"

definition batch_message :: "client_config \<Rightarrow> dict \<Rightarrow> int option \<Rightarrow> outgoing res" where
  "batch_message C payload priority =
     (let batch_id = dict_text payload ''batch_id'';
          size = (case dict_get payload ''tasks'' of PList ts \<Rightarrow> int (length ts) | _ \<Rightarrow> 0)
      in persistent_message C payload (nonempty (Some batch_id)) priority
           [(''batch_id'', PStr batch_id), (''batch_size'', PInt size)])"

definition batch_first_task :: "dict \<Rightarrow> dict" where
  "batch_first_task payload = (case dict_get payload ''tasks'' of PList (PDict d # _) \<Rightarrow> d | _ \<Rightarrow> payload)"

definition publish_batch_envelope :: "'w amqp \<Rightarrow> client_config \<Rightarrow> dict \<Rightarrow> int option \<Rightarrow> ('w client, unit) io" where
  "publish_batch_envelope B C payload priority =
     io_bind (ensure_ready B C) (\<lambda>_.
     io_bind (io_get cl_tasks_exchange) (\<lambda>exchange. case exchange of
        None \<Rightarrow> io_raise no_tasks_exchange
      | Some ex \<Rightarrow>
          io_bind (io_lift (tp_task_routing_key (cc_topology C) (batch_first_task payload))) (\<lambda>routing_key.
          io_bind (io_lift (batch_message C payload priority)) (\<lambda>message.
            send_message B ex routing_key message))))"

text \<open>
  \<^verbatim>\<open>publish_tasks\<close> prepares every task before anything is sent.  Then it runs \<^verbatim>\<open>map_bounded\<close> over the
  prepared tasks, or publishes one batch: the plan.
\<close>

datatype publish_plan = Each_task "dict list" | One_batch dict "int option"

definition publish_tasks_plan ::
  "client_config \<Rightarrow> dict list \<Rightarrow> publish_mode \<Rightarrow> string option \<Rightarrow> dict \<Rightarrow> publish_plan res" where
  "publish_tasks_plan C tasks mode batch_id meta =
     bind_res (map_res (prepare_task_envelope C) tasks) (\<lambda>envelopes.
       let prepared = map (tm_dump (cc_tasks C)) envelopes in
       case mode of
         Individual \<Rightarrow> Inr (Each_task prepared)
       | Other_mode m \<Rightarrow> Inl (ValueError (''Unsupported publish mode '' @ quoted m @ ''.''))
       | Batch_envelope \<Rightarrow>
           (case batch_id of
              None \<Rightarrow> Inl (ValueError (''batch_id is required when mode='' @ quoted ''batch_envelope'' @ ''.''))
            | Some b \<Rightarrow>
                if strip b = [] then Inl (ValueError (''batch_id is required when mode='' @ quoted ''batch_envelope'' @ ''.''))
                else bind_res (cc_batch C b envelopes meta) (\<lambda>envelope.
                     bind_res (resolve_batch_priority C prepared) (\<lambda>priority.
                       Inr (One_batch (cc_batch_dump C envelope) priority)))))"

subsection \<open>Publishing statuses\<close>

definition status_message :: "client_config \<Rightarrow> dict \<Rightarrow> outgoing res" where
  "status_message C payload =
     (let sent = dict_update payload (cc_trace_fields C) in
      persistent_message C sent (nonempty (Some (py_str (dict_get payload ''correlation_id'')))) None
        [(''task_id'', PStr (dict_text payload ''task_id'')), (''status'', PStr (dict_text sent ''status''))])"

definition publish_status_payload :: "'w amqp \<Rightarrow> client_config \<Rightarrow> dict \<Rightarrow> string \<Rightarrow> ('w client, unit) io" where
  "publish_status_payload B C payload routing_key =
     io_bind (ensure_ready B C) (\<lambda>_.
     io_bind (io_get cl_status_exchange) (\<lambda>exchange. case exchange of
        None \<Rightarrow> io_raise (RuntimeError ''Status exchange is not initialized'')
      | Some ex \<Rightarrow> io_bind (io_lift (status_message C payload)) (\<lambda>message. send_message B ex routing_key message)))"

definition publish_status :: "'w amqp \<Rightarrow> client_config \<Rightarrow> status_event given \<Rightarrow> ('w client, unit) io" where
  "publish_status B C event =
     (let payload = prepare_status_payload C event in
      io_bind (io_lift (tp_status_routing_key (cc_sha C) (cc_topology C) payload)) (\<lambda>routing_key.
        publish_status_payload B C payload routing_key))"

definition aggregation_payload :: "client_config \<Rightarrow> dict \<Rightarrow> dict res" where
  "aggregation_payload C payload =
     (case dict_get payload ''meta'' of
        PDict meta \<Rightarrow>
          if strip (dict_text_or_blank meta ''parent_task_id'') = []
          then Inl (ValueError ''aggregation status event requires meta.parent_task_id'')
          else bind_res (tp_aggregation_shard (cc_sha C) (cc_topology C) payload) (\<lambda>shard.
            Inr (AList.update ''meta'' (PDict (AList.update ''aggregation_role'' (PStr ''aggregation'')
              (AList.update ''aggregation_shard'' (PInt shard) meta))) payload))
      | _ \<Rightarrow> Inl (ValueError ''aggregation status event requires meta.parent_task_id''))"

definition publish_aggregation_status :: "'w amqp \<Rightarrow> client_config \<Rightarrow> status_event given \<Rightarrow> ('w client, unit) io" where
  "publish_aggregation_status B C event =
     io_bind (io_lift (aggregation_payload C (prepare_status_payload C event))) (\<lambda>payload.
     io_bind (io_lift (tp_aggregation_status_routing_key (cc_sha C) (cc_topology C) payload)) (\<lambda>routing_key.
       publish_status_payload B C payload routing_key))"

subsection \<open>Publishing workflow messages\<close>

definition workflow_headers :: "dict \<Rightarrow> dict \<Rightarrow> dict" where
  "workflow_headers workflow headers =
     (let base = [(''task_id'', PStr (dict_text workflow ''task_id'')), (''message_id'', PStr (dict_text workflow ''message_id'')),
                  (''stage'', PStr (dict_text workflow ''stage''))];
          origin_stage = dict_get workflow ''origin_stage''
      in dict_update (if truthy origin_stage then AList.update ''origin_stage'' (PStr (py_str origin_stage)) base else base) headers)"

definition workflow_message :: "client_config \<Rightarrow> dict \<Rightarrow> dict \<Rightarrow> outgoing res" where
  "workflow_message C workflow headers =
     persistent_message C workflow (correlation_of workflow) (dict_priority workflow) (workflow_headers workflow headers)"

definition client_publish_workflow_message ::
  "'w amqp \<Rightarrow> client_config \<Rightarrow> workflow_envelope given \<Rightarrow> string \<Rightarrow> dict \<Rightarrow> ('w client, unit) io" where
  "client_publish_workflow_message B C payload routing_key headers =
     io_bind (ensure_ready B C) (\<lambda>_.
     io_bind (io_get cl_workflow_exchange) (\<lambda>exchange. case exchange of
        None \<Rightarrow> io_raise (RuntimeError ''Workflow exchange is not initialized'')
      | Some ex \<Rightarrow>
          io_bind (io_lift (prepare_workflow_payload C payload None)) (\<lambda>workflow.
          io_bind (io_lift (validate_workflow_contract C workflow)) (\<lambda>_.
          io_bind (io_lift (validate_workflow_priority C workflow)) (\<lambda>_.
          io_bind (io_lift (workflow_message C workflow headers)) (\<lambda>message.
            send_message B ex routing_key message))))))"

definition publish_workflow :: "'w amqp \<Rightarrow> client_config \<Rightarrow> workflow_envelope given \<Rightarrow> dict \<Rightarrow> ('w client, unit) io" where
  "publish_workflow B C payload headers =
     io_bind (io_lift (prepare_workflow_payload C payload None)) (\<lambda>workflow.
     io_bind (io_lift (tp_workflow_publish_routing_key (cc_topology C) (dict_text workflow ''stage''))) (\<lambda>routing_key.
       client_publish_workflow_message B C (Mapping workflow) routing_key headers))"

definition client_publish_to_stage ::
  "'w amqp \<Rightarrow> client_config \<Rightarrow> workflow_envelope given \<Rightarrow> string \<Rightarrow> dict \<Rightarrow> ('w client, unit) io" where
  "client_publish_to_stage B C payload stage headers =
     io_bind (io_lift (prepare_workflow_payload C payload (Some stage))) (\<lambda>workflow.
     io_bind (io_lift (tp_workflow_publish_routing_key (cc_topology C) stage)) (\<lambda>routing_key.
       client_publish_workflow_message B C (Mapping workflow) routing_key headers))"

definition publish_to_entry ::
  "'w amqp \<Rightarrow> client_config \<Rightarrow> workflow_envelope given \<Rightarrow> string \<Rightarrow> dict \<Rightarrow> ('w client, unit) io" where
  "publish_to_entry B C payload route headers =
     (case cc_topology C of
        Shared_Status _ \<Rightarrow> io_raise (RuntimeError ''publish_to_entry(...) requires SharedStatusWorkflowTopology'')
      | Workflow_Status t \<Rightarrow>
          io_bind (io_lift (wt_workflow_entry_target_stage t route)) (\<lambda>stage.
          io_bind (io_lift (prepare_workflow_payload C payload (Some stage))) (\<lambda>workflow.
          io_bind (io_lift (wt_workflow_entry_routing_key t route)) (\<lambda>routing_key.
            client_publish_workflow_message B C (Mapping workflow) routing_key headers))))"

subsection \<open>Raw messages, channels and inspection\<close>

definition publish_raw_to_queue ::
  "'w amqp \<Rightarrow> client_config \<Rightarrow> string \<Rightarrow> string \<Rightarrow> string option \<Rightarrow> dict \<Rightarrow> int option \<Rightarrow> string option \<Rightarrow> bool \<Rightarrow> ('w client, unit) io" where
  "publish_raw_to_queue B C queue_name body correlation_id headers priority content_type persistent =
     io_bind (ensure_ready B C) (\<lambda>_.
     io_bind (io_get cl_channel) (\<lambda>channel. case channel of
        None \<Rightarrow> io_raise not_initialized
      | Some _ \<Rightarrow> send_message B [] queue_name
          \<lparr>om_body = body, om_content_type = content_type, om_persistent = persistent, om_correlation_id = correlation_id,
           om_priority = priority, om_headers = cc_inject C headers\<rparr>))"

definition acquire_channel :: "'w amqp \<Rightarrow> client_config \<Rightarrow> int \<Rightarrow> ('w client, nat) io" where
  "acquire_channel B C prefetch =
     io_bind (ensure_ready B C) (\<lambda>_.
     io_bind (io_get cl_connection) (\<lambda>connection. case connection of
        None \<Rightarrow> io_raise (RuntimeError ''RabbitMQ robust connection is not available'')
      | Some h \<Rightarrow> io_bind (open_channel B h) (\<lambda>ch. io_bind (set_qos B ch prefetch) (\<lambda>_. io_return ch))))"

record queue_counts =
  qc_queue_name :: string
  qc_message_count :: int
  qc_consumer_count :: int

definition declaration_counts :: "string \<Rightarrow> (int option \<times> int option) option \<Rightarrow> queue_counts option" where
  "declaration_counts queue_name result =
     (case result of
        Some (Some messages, Some consumers) \<Rightarrow>
          Some \<lparr>qc_queue_name = queue_name, qc_message_count = messages, qc_consumer_count = consumers\<rparr>
      | _ \<Rightarrow> None)"

definition client_inspect_queue :: "'w amqp \<Rightarrow> client_config \<Rightarrow> string \<Rightarrow> ('w client, queue_counts option) io" where
  "client_inspect_queue B C queue_name =
     io_bind (ensure_ready B C) (\<lambda>_.
     io_bind (io_catch (io_bind (acquire_channel B C 1) (\<lambda>ch. io_return (Some ch))) (\<lambda>_. io_return None)) (\<lambda>channel.
       case channel of
         None \<Rightarrow> io_return None
       | Some ch \<Rightarrow>
           io_finally
             (io_catch (io_bind (on_broker (\<lambda>_. []) (aq_passive B ch queue_name)) (\<lambda>result.
                io_return (declaration_counts queue_name result))) (\<lambda>_. io_return None))
             (io_catch (close_channel B ch) (\<lambda>_. io_return ()))))"

definition ping :: "'w amqp \<Rightarrow> client_config \<Rightarrow> ('w client, unit) io" where
  "ping B C = io_bind (acquire_channel B C (tp_prefetch_count (cc_topology C))) (\<lambda>ch. close_channel B ch)"

subsection \<open>The publisher of one queue\<close>

text \<open>\<^verbatim>\<open>DirectQueuePublisher\<close> has the connection and the channel of the same record and no exchanges.\<close>

record queue_publisher =
  qp_url :: string
  qp_queue_name :: string
  qp_queue_arguments :: dict
  qp_connection_name :: string
  qp_encode :: "pyval \<Rightarrow> string res"

definition publisher_initialize :: "'w amqp \<Rightarrow> queue_publisher \<Rightarrow> ('w client, unit) io" where
  "publisher_initialize B P =
     io_bind (io_get (\<lambda>s. case (cl_connection s, cl_channel s) of
         (Some h, Some ch) \<Rightarrow> \<not> aq_connection_closed B (cl_world s) h \<and> \<not> aq_channel_closed B (cl_world s) ch
       | _ \<Rightarrow> False)) (\<lambda>ready.
     if ready then io_return ()
     else
       io_bind (connect B (connection_string (qp_url P) (Some (qp_connection_name P)))) (\<lambda>h.
       io_bind (io_modify (\<lambda>s. s\<lparr>cl_connection := Some h\<rparr>)) (\<lambda>_.
       io_bind (open_channel B h) (\<lambda>ch.
       io_bind (io_modify (\<lambda>s. s\<lparr>cl_channel := Some ch\<rparr>)) (\<lambda>_.
       declare_one B ch (DeclareQueue (qp_queue_name P) (args_or_none (qp_queue_arguments P))))))))"

definition publisher_publish :: "'w amqp \<Rightarrow> queue_publisher \<Rightarrow> dict \<Rightarrow> string option \<Rightarrow> ('w client, unit) io" where
  "publisher_publish B P payload correlation_id =
     io_bind (publisher_initialize B P) (\<lambda>_.
     io_bind (io_get cl_channel) (\<lambda>channel. case channel of
        None \<Rightarrow> io_raise (RuntimeError ''Publisher channel is not initialized'')
      | Some _ \<Rightarrow>
          io_bind (io_lift (qp_encode P (PDict payload))) (\<lambda>body.
          send_message B [] (qp_queue_name P)
            \<lparr>om_body = body, om_content_type = Some ''application/json'', om_persistent = True,
             om_correlation_id = correlation_id, om_priority = None, om_headers = []\<rparr>)))"

definition publisher_close :: "'w amqp \<Rightarrow> ('w client, unit) io" where
  "publisher_close B =
     io_bind (io_get (\<lambda>s. (cl_connection s, cl_world s))) (\<lambda>(connection, w).
     io_bind (case connection of
         Some h \<Rightarrow> if \<not> aq_connection_closed B w h then close_connection B h else io_return ()
       | None \<Rightarrow> io_return ()) (\<lambda>_.
     io_modify (\<lambda>s. s\<lparr>cl_connection := None, cl_channel := None\<rparr>)))"

subsection \<open>What a call does to the log\<close>

text \<open>
  \<open>runs m Q\<close>: however \<open>m\<close> runs from a state of the client, it only extends the log, and \<open>Q\<close> relates
  the state before, the events it adds, its result and the state after.
\<close>

definition runs :: "('w client, 'a) io \<Rightarrow> ('w client \<Rightarrow> client_event list \<Rightarrow> 'a res \<Rightarrow> 'w client \<Rightarrow> bool) \<Rightarrow> bool" where
  "runs m Q \<longleftrightarrow> (\<forall>s r t. m s = (r, t) \<longrightarrow> (\<exists>ext. cl_log t = cl_log s @ ext \<and> Q s ext r t))"

lemma runsI: "(\<And>s r t. m s = (r, t) \<Longrightarrow> \<exists>ext. cl_log t = cl_log s @ ext \<and> Q s ext r t) \<Longrightarrow> runs m Q"
  by (simp add: runs_def)

lemma runsE:
  assumes "runs m Q" "m s = (r, t)"
  obtains ext where "cl_log t = cl_log s @ ext" "Q s ext r t"
  using assms unfolding runs_def by blast

lemma runs_weaken: "runs m Q \<Longrightarrow> (\<And>s ext r t. Q s ext r t \<Longrightarrow> P s ext r t) \<Longrightarrow> runs m P"
  unfolding runs_def by blast

named_theorems runs_rules \<open>rules for the log of the client\<close>

lemma runs_bind:
  assumes m: "runs m P" and f: "\<And>x. runs (f x) (Q x)"
    and raise: "\<And>s a e t. P s a (Inl e) t \<Longrightarrow> R s a (Inl e) t"
    and seq: "\<And>s a x s' b r t. P s a (Inr x) s' \<Longrightarrow> Q x s' b r t \<Longrightarrow> R s (a @ b) r t"
  shows "runs (io_bind m f) R"
proof (rule runsI)
  fix s r t assume run: "io_bind m f s = (r, t)"
  obtain r1 s1 where 1: "m s = (r1, s1)" by (rule prod.exhaust)
  obtain a where a: "cl_log s1 = cl_log s @ a" "P s a r1 s1" using m 1 by (rule runsE)
  show "\<exists>ext. cl_log t = cl_log s @ ext \<and> R s ext r t"
  proof (cases r1)
    case (Inl e)
    then show ?thesis using run 1 a raise by (auto simp: io_bind_def)
  next
    case (Inr x)
    then have "f x s1 = (r, t)" using run 1 by (simp add: io_bind_def)
    with f obtain b where "cl_log t = cl_log s1 @ b" "Q x s1 b r t" by (rule runsE)
    then show ?thesis using a Inr seq by auto
  qed
qed

lemma runs_on_broker:
  assumes "\<And>s r w. Q s (note r) r (s\<lparr>cl_world := w, cl_log := cl_log s @ note r\<rparr>)"
  shows "runs (on_broker note m) Q"
  using assms by (auto intro!: runsI simp: on_broker_def split: prod.splits)

subsection \<open>Readiness\<close>

text \<open>
  The fields that readiness is about; a call that does not connect or close leaves them.
\<close>

definition same_object :: "'w client \<Rightarrow> 'w client \<Rightarrow> bool" where
  "same_object s t \<longleftrightarrow> cl_connection t = cl_connection s \<and> cl_channel t = cl_channel s \<and>
     cl_tasks_exchange t = cl_tasks_exchange s \<and> cl_workflow_exchange t = cl_workflow_exchange s \<and>
     cl_status_exchange t = cl_status_exchange s \<and> cl_initialized t = cl_initialized s"

definition exchanges_of :: "relayna_topology \<Rightarrow> string \<times> string" where
  "exchanges_of T = (case T of Shared_Status t \<Rightarrow> (st_tasks_exchange t, st_status_exchange t)
     | Workflow_Status t \<Rightarrow> (wt_workflow_exchange t, wt_status_exchange t))"

definition client_ok :: "client_config \<Rightarrow> 'w client \<Rightarrow> bool" where
  "client_ok C s \<longleftrightarrow> (cl_initialized s \<longrightarrow>
     cl_connection s \<noteq> None \<and> cl_channel s \<noteq> None \<and>
     cl_tasks_exchange s = Some (fst (exchanges_of (cc_topology C))) \<and>
     cl_status_exchange s = Some (snd (exchanges_of (cc_topology C))) \<and>
     cl_workflow_exchange s = Some (fst (exchanges_of (cc_topology C))))"

lemma same_object_simps [simp]: "same_object s s" "same_object s (s\<lparr>cl_world := w, cl_log := l\<rparr>)"
  by (simp_all add: same_object_def)

lemma same_object_trans: "same_object s t \<Longrightarrow> same_object t u \<Longrightarrow> same_object s u"
  by (simp add: same_object_def)

lemma client_ok_same: "same_object s t \<Longrightarrow> client_ok C s \<Longrightarrow> client_ok C t"
  by (simp add: same_object_def client_ok_def)

lemma declared_exchanges: "snd (tp_declare_exchanges T) = Inr (exchanges_of T)"
  by (cases T) (simp_all add: exchanges_of_def declare_exchanges_def wt_declare_exchanges_def chan_of_def)

lemma workflow_exchange_known: "tp_workflow_exchange_name T \<noteq> None"
  by (cases T) (simp_all add: workflow_exchange_name_def wt_workflow_exchange_name_def)

fun is_sent :: "client_event \<Rightarrow> bool" where
  "is_sent (Sent _ _ _ _) = True"
| "is_sent _ = False"

definition sents :: "client_event list \<Rightarrow> client_event list" where
  "sents ext = filter is_sent ext"

lemma sents_simps [simp]: "sents [] = []" "sents (a @ b) = sents a @ sents b"
  "sents (e # ext) = (if is_sent e then e # sents ext else sents ext)"
  by (simp_all add: sents_def)

fun opens_only :: "client_event \<Rightarrow> bool" where
  "opens_only (Sent _ _ _ _) = False"
| "opens_only (Connection_closed _ _) = False"
| "opens_only (Channel_closed _ _) = False"
| "opens_only _ = True"

lemma opens_unsent: "list_all opens_only ext \<Longrightarrow> sents ext = []"
proof (induction ext)
  case (Cons e ext)
  then show ?case by (cases e) auto
qed simp

text \<open>Steps of \<^verbatim>\<open>initialize\<close>: they send no message, close nothing and do not set the flag.\<close>

definition plain :: "('w client, 'a) io \<Rightarrow> bool" where
  "plain m \<longleftrightarrow> runs m (\<lambda>s ext r t. list_all opens_only ext \<and> cl_initialized t = cl_initialized s)"

definition plain_until_end :: "('w client, 'a) io \<Rightarrow> bool" where
  "plain_until_end m \<longleftrightarrow> runs m (\<lambda>s ext r t. list_all opens_only ext \<and> (isl r \<longrightarrow> cl_initialized t = cl_initialized s))"

lemma plain_bind:
  assumes "plain m" "\<And>x. plain (f x)"
  shows "plain (io_bind m f)"
  unfolding plain_def by (rule runs_bind[OF assms(1)[unfolded plain_def] assms(2)[unfolded plain_def]]) auto

lemma plain_bind_end:
  assumes "plain m" "\<And>x. plain_until_end (f x)"
  shows "plain_until_end (io_bind m f)"
  unfolding plain_until_end_def
  by (rule runs_bind[OF assms(1)[unfolded plain_def] assms(2)[unfolded plain_until_end_def]]) auto

lemma plain_end_if: "plain_until_end m \<Longrightarrow> plain_until_end n \<Longrightarrow> plain_until_end (if c then m else n)"
  by simp

lemma plain_end_prod: "(\<And>a b. plain_until_end (f a b)) \<Longrightarrow> plain_until_end (case p of (a, b) \<Rightarrow> f a b)"
  by (simp split: prod.splits)

lemma plain_get: "plain (io_get f)" and plain_return: "plain (io_return x)" and plain_lift: "plain (io_lift v)"
  by (auto simp: plain_def runs_def io_get_def io_return_def io_lift_def)

lemma plain_modify: "(\<And>s. cl_initialized (f s) = cl_initialized s \<and> cl_log (f s) = cl_log s) \<Longrightarrow> plain (io_modify f)"
  by (auto simp: plain_def runs_def io_modify_def)

lemma plain_end: "plain m \<Longrightarrow> plain_until_end m"
  by (auto simp: plain_def plain_until_end_def elim!: runs_weaken)

lemma plain_flag: "plain_until_end (io_modify (\<lambda>s. s\<lparr>cl_initialized := True\<rparr>))"
  by (auto simp: plain_until_end_def runs_def io_modify_def)

lemma plain_calls:
  "plain (connect B url)" "plain (open_channel B h)" "plain (set_qos B ch n)" "plain (declare_one B ch c)"
  unfolding plain_def connect_def open_channel_def set_qos_def declare_one_def
  by (rule runs_on_broker; simp split: sum.splits)+

lemma plain_io_map: "(\<And>x. plain (f x)) \<Longrightarrow> plain (io_map f xs)"
  by (induction xs) (auto intro!: plain_bind plain_return)

lemma plain_declare_on: "plain (declare_on B ch m)"
  unfolding declare_on_def by (intro plain_bind plain_io_map plain_calls plain_lift)

lemma initialize_plain: "plain_until_end (initialize B C)"
  unfolding initialize_def
  by (intro plain_bind_end plain_end_if plain_end_prod plain_flag plain_get plain_modify plain_calls plain_declare_on
      plain_end[OF plain_return]) simp_all

text \<open>The calls of aio-pika leave the object as it is.\<close>

lemma on_broker_same: "on_broker note m s = (r, t) \<Longrightarrow> same_object s t"
  by (auto simp: on_broker_def split: prod.splits)

lemma io_map_declare_same: "io_map (declare_one B ch) cs s = (r, t) \<Longrightarrow> same_object s t"
proof (induction cs arbitrary: s r t)
  case (Cons c cs)
  obtain r1 s1 where 1: "declare_one B ch c s = (r1, s1)" by (rule prod.exhaust)
  then have same: "same_object s s1" by (auto simp: declare_one_def intro: on_broker_same)
  obtain r2 s2 where 2: "io_map (declare_one B ch) cs s1 = (r2, s2)" by (rule prod.exhaust)
  have "t = s1 \<or> t = s2"
    using Cons.prems 1 2 by (cases r1; cases r2; simp add: io_bind_def io_return_def)
  then show ?case using same Cons.IH[OF 2] same_object_trans by blast
qed (simp add: io_return_def)

lemma declare_on_same: "declare_on B ch m s = (r, t) \<Longrightarrow> same_object s t"
proof -
  assume run: "declare_on B ch m s = (r, t)"
  obtain r1 s1 where 1: "io_map (declare_one B ch) (fst m) s = (r1, s1)" by (rule prod.exhaust)
  then have "t = s1" using run by (cases r1; simp add: declare_on_def io_bind_def io_lift_def)
  then show ?thesis using io_map_declare_same[OF 1] by simp
qed

lemma declare_on_result: "declare_on B ch m s = (Inr x, t) \<Longrightarrow> snd m = Inr x"
  by (auto simp: declare_on_def io_simps)

lemma plain_grows: "plain m \<Longrightarrow> m s = (r, t) \<Longrightarrow> \<exists>b. cl_log t = cl_log s @ b"
  unfolding plain_def runs_def by blast

lemma initialize_ready:
  assumes "initialize B C s = (Inr (), t)" "\<not> cl_initialized s"
  shows "cl_initialized t \<and> client_ok C t" "\<exists>h ext. cl_connection t = Some h \<and> cl_log t = cl_log s @ Connected h # ext"
proof -
  from assms obtain h s1 where s1: "connect B (tp_connection_string (cc_topology C) (Some (cc_connection_name C))) s = (Inr h, s1)"
    and r1: "io_bind (open_channel B h) (\<lambda>channel.
       io_bind (io_modify (\<lambda>s. s\<lparr>cl_channel := Some channel\<rparr>)) (\<lambda>_.
       io_bind (set_qos B channel (tp_prefetch_count (cc_topology C))) (\<lambda>_.
       io_bind (declare_on B channel (tp_declare_exchanges (cc_topology C))) (\<lambda>(tasks, status).
       io_bind (io_modify (\<lambda>s. s\<lparr>cl_tasks_exchange := Some tasks, cl_status_exchange := Some status,
         cl_workflow_exchange := (if tp_workflow_exchange_name (cc_topology C) \<noteq> None then Some tasks else None)\<rparr>)) (\<lambda>_.
       io_bind (declare_on B channel (tp_declare_queues (cc_topology C) tasks status)) (\<lambda>_.
       io_modify (\<lambda>s. s\<lparr>cl_initialized := True\<rparr>)))))))
     (s1\<lparr>cl_connection := Some h\<rparr>) = (Inr (), t)"
    by (auto simp: initialize_def io_simps io_get_def io_modify_def)
  from r1 obtain ch s2 where s2: "open_channel B h (s1\<lparr>cl_connection := Some h\<rparr>) = (Inr ch, s2)"
    and r2: "io_bind (set_qos B ch (tp_prefetch_count (cc_topology C))) (\<lambda>_.
       io_bind (declare_on B ch (tp_declare_exchanges (cc_topology C))) (\<lambda>(tasks, status).
       io_bind (io_modify (\<lambda>s. s\<lparr>cl_tasks_exchange := Some tasks, cl_status_exchange := Some status,
         cl_workflow_exchange := (if tp_workflow_exchange_name (cc_topology C) \<noteq> None then Some tasks else None)\<rparr>)) (\<lambda>_.
       io_bind (declare_on B ch (tp_declare_queues (cc_topology C) tasks status)) (\<lambda>_.
       io_modify (\<lambda>s. s\<lparr>cl_initialized := True\<rparr>)))))
     (s2\<lparr>cl_channel := Some ch\<rparr>) = (Inr (), t)"
    by (auto simp: io_simps io_modify_def)
  let ?set = "\<lambda>tasks status s. s\<lparr>cl_tasks_exchange := Some tasks, cl_status_exchange := Some status,
         cl_workflow_exchange := (if tp_workflow_exchange_name (cc_topology C) \<noteq> None then Some tasks else None)\<rparr>"
  from r2 obtain s3 s4 tasks status s5 where s3: "set_qos B ch (tp_prefetch_count (cc_topology C)) (s2\<lparr>cl_channel := Some ch\<rparr>) = (Inr (), s3)"
    and s4: "declare_on B ch (tp_declare_exchanges (cc_topology C)) s3 = (Inr (tasks, status), s4)"
    and s5: "declare_on B ch (tp_declare_queues (cc_topology C) tasks status) (?set tasks status s4) = (Inr (), s5)"
    and t: "t = s5\<lparr>cl_initialized := True\<rparr>"
    by (auto simp: io_simps io_modify_def)
  have ex: "(tasks, status) = exchanges_of (cc_topology C)"
    using declare_on_result[OF s4] by (simp add: declared_exchanges)
  have "same_object (s1\<lparr>cl_connection := Some h\<rparr>) s2" "same_object (s2\<lparr>cl_channel := Some ch\<rparr>) s3"
    "same_object s3 s4" "same_object (?set tasks status s4) s5"
    using s2 s3 declare_on_same[OF s4] declare_on_same[OF s5]
    by (auto simp: open_channel_def set_qos_def intro: on_broker_same)
  note same = this
  then show "cl_initialized t \<and> client_ok C t" using ex workflow_exchange_known[of "cc_topology C"]
    by (auto simp: t same_object_def client_ok_def prod_eq_iff)
  have "cl_log s1 = cl_log s @ [Connected h]" using s1 by (auto simp: connect_def on_broker_def split: prod.splits)
  moreover obtain a b c e where "cl_log s2 = cl_log s1 @ a" "cl_log s3 = cl_log s2 @ b" "cl_log s4 = cl_log s3 @ c" "cl_log s5 = cl_log s4 @ e"
    using plain_grows[OF plain_calls(2) s2] plain_grows[OF plain_calls(3) s3] plain_grows[OF plain_declare_on s4]
      plain_grows[OF plain_declare_on s5] by auto
  ultimately have "cl_log t = cl_log s @ Connected h # (a @ b @ c @ e)" by (simp add: t)
  moreover have "cl_connection t = Some h" using same by (simp add: t same_object_def)
  ultimately show "\<exists>h ext. cl_connection t = Some h \<and> cl_log t = cl_log s @ Connected h # ext" by blast
qed

definition ready :: "client_config \<Rightarrow> 'w client \<Rightarrow> bool" where
  "ready C s \<longleftrightarrow> client_ok C s \<and> cl_initialized s"

lemma ensure_ready_runs:
  assumes "client_ok C s" "ensure_ready B C s = (r, t)"
  obtains ext where "cl_log t = cl_log s @ ext" "sents ext = []" "client_ok C t" "\<not> isl r \<Longrightarrow> ready C t"
proof (cases "cl_initialized s")
  case True
  then show ?thesis using assms that[of "[]"] by (auto simp: ensure_ready_def io_simps io_get_def ready_def io_bind_def io_return_def)
next
  case False
  then have init: "initialize B C s = (r, t)" using assms(2) by (simp add: ensure_ready_def io_bind_def io_get_def)
  obtain ext where ext: "cl_log t = cl_log s @ ext" "sents ext = []" "isl r \<longrightarrow> cl_initialized t = cl_initialized s"
    using initialize_plain[unfolded plain_until_end_def] init by (rule runsE) (auto intro: opens_unsent)
  show ?thesis
  proof (cases r)
    case (Inl e)
    then show ?thesis using that[OF ext(1,2)] ext(3) False by (simp add: client_ok_def)
  next
    case (Inr u)
    then show ?thesis using that[OF ext(1,2)] initialize_ready[of B C s t] init False by (simp add: ready_def)
  qed
qed

text \<open>
  \<open>sends C I m P\<close>: from a state with \<open>I\<close>, \<open>m\<close> sends nothing and raises, or sends one message, one that
  \<open>P\<close> allows, and raises only if that call did.
\<close>

definition sends :: "client_config \<Rightarrow> ('w client \<Rightarrow> bool) \<Rightarrow> ('w client, unit) io \<Rightarrow> (string \<Rightarrow> string \<Rightarrow> outgoing \<Rightarrow> bool) \<Rightarrow> bool" where
  "sends C I m P \<longleftrightarrow> (\<forall>s r t. I s \<longrightarrow> m s = (r, t) \<longrightarrow>
     (\<exists>ext. cl_log t = cl_log s @ ext \<and> client_ok C t \<and>
       (sents ext = [] \<and> isl r \<or> (\<exists>ex key msg. P ex key msg \<and> sents ext = [Sent ex key msg (\<not> isl r)]))))"

named_theorems sends_rules \<open>rules for what a publishing call sends\<close>

lemma sends_raise [sends_rules]: "(\<And>s. I s \<Longrightarrow> client_ok C s) \<Longrightarrow> sends C I (io_raise e) P"
  by (auto simp: sends_def io_raise_def)

lemma sends_lift [sends_rules]:
  "(\<And>s. I s \<Longrightarrow> client_ok C s) \<Longrightarrow> (\<And>x. v = Inr x \<Longrightarrow> sends C I (f x) P) \<Longrightarrow> sends C I (io_bind (io_lift v) f) P"
  by (cases v) (auto simp: sends_def io_bind_def io_lift_def)

lemma sends_get: "(\<And>s. I s \<Longrightarrow> g s = v) \<Longrightarrow> sends C I (f v) P \<Longrightarrow> sends C I (io_bind (io_get g) f) P"
  by (auto simp: sends_def io_bind_def io_get_def)

lemma sends_send [sends_rules]:
  assumes "\<And>s. I s \<Longrightarrow> client_ok C s" "P ex key msg"
  shows "sends C I (send_message B ex key msg) P"
  unfolding sends_def
proof (intro allI impI)
  fix s :: "'a client" and r t assume "I s" and run: "send_message B ex key msg s = (r, t)"
  then have "client_ok C t" "cl_log t = cl_log s @ [Sent ex key msg (\<not> isl r)]"
    using assms(1) client_ok_same[OF on_broker_same] by (fastforce simp: send_message_def on_broker_def split: prod.splits)+
  then show "\<exists>ext. cl_log t = cl_log s @ ext \<and> client_ok C t \<and>
       (sents ext = [] \<and> isl r \<or> (\<exists>ex key msg. P ex key msg \<and> sents ext = [Sent ex key msg (\<not> isl r)]))"
    using assms(2) by (intro exI[of _ "[Sent ex key msg (\<not> isl r)]"]) auto
qed

lemma sends_ensure [sends_rules]:
  assumes "sends C (ready C) (f ()) P"
  shows "sends C (client_ok C) (io_bind (ensure_ready B C) f) P"
  unfolding sends_def
proof (intro allI impI)
  fix s :: "'a client" and r t assume ok: "client_ok C s" and run: "io_bind (ensure_ready B C) f s = (r, t)"
  obtain r1 s1 where 1: "ensure_ready B C s = (r1, s1)" by (rule prod.exhaust)
  obtain a where a: "cl_log s1 = cl_log s @ a" "sents a = []" "client_ok C s1" "\<not> isl r1 \<Longrightarrow> ready C s1"
    using ok 1 by (rule ensure_ready_runs) blast
  show "\<exists>ext. cl_log t = cl_log s @ ext \<and> client_ok C t \<and>
       (sents ext = [] \<and> isl r \<or> (\<exists>ex key msg. P ex key msg \<and> sents ext = [Sent ex key msg (\<not> isl r)]))"
  proof (cases r1)
    case (Inl e)
    then show ?thesis using run 1 a by (auto simp: io_bind_def)
  next
    case (Inr u)
    then have "f () s1 = (r, t)" "ready C s1" using run 1 a by (auto simp: io_bind_def)
    with assms obtain b where "cl_log t = cl_log s1 @ b" "client_ok C t"
      "sents b = [] \<and> isl r \<or> (\<exists>ex key msg. P ex key msg \<and> sents b = [Sent ex key msg (\<not> isl r)])"
      unfolding sends_def by blast
    then show ?thesis using a by (intro exI[of _ "a @ b"]) simp
  qed
qed

lemma sends_weaken: "sends C I m P \<Longrightarrow> (\<And>ex key msg. P ex key msg \<Longrightarrow> Q ex key msg) \<Longrightarrow> sends C I m Q"
  unfolding sends_def by blast

lemma ready_fields: "ready C s \<Longrightarrow> client_ok C s"
  "ready C s \<Longrightarrow> cl_tasks_exchange s = Some (fst (exchanges_of (cc_topology C)))"
  "ready C s \<Longrightarrow> cl_status_exchange s = Some (snd (exchanges_of (cc_topology C)))"
  "ready C s \<Longrightarrow> cl_workflow_exchange s = Some (fst (exchanges_of (cc_topology C)))"
  by (auto simp: ready_def client_ok_def)

subsection \<open>Every operation keeps the client in order\<close>

datatype client_op =
    Op_initialize
  | Op_close
  | Op_status_queue
  | Op_tasks_queue
  | Op_workflow_queue string
  | Op_aggregation_queue "int list" "string option"
  | Op_retry_infrastructure string int string string
  | Op_task dict dict
  | Op_task_item dict
  | Op_batch dict "int option"
  | Op_status "status_event given"
  | Op_aggregation_status "status_event given"
  | Op_workflow "workflow_envelope given" dict
  | Op_to_stage "workflow_envelope given" string dict
  | Op_to_entry "workflow_envelope given" string dict
  | Op_workflow_message "workflow_envelope given" string dict
  | Op_raw string string "string option" dict "int option" "string option" bool
  | Op_channel int
  | Op_inspect string
  | Op_ping

definition discard :: "('s, 'a) io \<Rightarrow> ('s, unit) io" where
  "discard m = io_bind m (\<lambda>_. io_return ())"

fun run_op :: "'w amqp \<Rightarrow> client_config \<Rightarrow> client_op \<Rightarrow> ('w client, unit) io" where
  "run_op B C Op_initialize = initialize B C"
| "run_op B C Op_close = close B"
| "run_op B C Op_status_queue = discard (client_ensure_status_queue B C)"
| "run_op B C Op_tasks_queue = discard (client_ensure_tasks_queue B C)"
| "run_op B C (Op_workflow_queue stage) = discard (client_ensure_workflow_queue B C stage)"
| "run_op B C (Op_aggregation_queue shards name) = discard (client_ensure_aggregation_queue B C shards name)"
| "run_op B C (Op_retry_infrastructure q n a b) = discard (ensure_retry_infrastructure B C q n a b)"
| "run_op B C (Op_task task headers) = publish_task B C task headers"
| "run_op B C (Op_task_item task) = publish_prepared_task_item B C task"
| "run_op B C (Op_batch payload priority) = publish_batch_envelope B C payload priority"
| "run_op B C (Op_status event) = publish_status B C event"
| "run_op B C (Op_aggregation_status event) = publish_aggregation_status B C event"
| "run_op B C (Op_workflow payload headers) = publish_workflow B C payload headers"
| "run_op B C (Op_to_stage payload stage headers) = client_publish_to_stage B C payload stage headers"
| "run_op B C (Op_to_entry payload route headers) = publish_to_entry B C payload route headers"
| "run_op B C (Op_workflow_message payload key headers) = client_publish_workflow_message B C payload key headers"
| "run_op B C (Op_raw q body cid headers priority ct persistent) = publish_raw_to_queue B C q body cid headers priority ct persistent"
| "run_op B C (Op_channel n) = discard (acquire_channel B C n)"
| "run_op B C (Op_inspect q) = discard (client_inspect_queue B C q)"
| "run_op B C Op_ping = ping B C"

inductive client_reach :: "'w amqp \<Rightarrow> client_config \<Rightarrow> 'w client \<Rightarrow> bool"
  for B :: "'w amqp" and C :: client_config where
  reach_new: "client_reach B C (new_client w)"
| reach_op: "client_reach B C s \<Longrightarrow> run_op B C op s = (r, t) \<Longrightarrow> client_reach B C t"

subsubsection \<open>Publishing\<close>

lemma sends_require [sends_rules]:
  "sends C (ready C) (f ()) P \<Longrightarrow> sends C (ready C) (io_bind require_tasks_exchange f) P"
  by (auto simp: sends_def require_tasks_exchange_def io_bind_def io_get_def io_return_def ready_fields)

lemma sends_exchange [sends_rules]:
  "sends C (ready C) (f (Some (fst (exchanges_of (cc_topology C))))) P \<Longrightarrow> sends C (ready C) (io_bind (io_get cl_tasks_exchange) f) P"
  "sends C (ready C) (f (Some (snd (exchanges_of (cc_topology C))))) P \<Longrightarrow> sends C (ready C) (io_bind (io_get cl_status_exchange) f) P"
  "sends C (ready C) (f (Some (fst (exchanges_of (cc_topology C))))) P \<Longrightarrow> sends C (ready C) (io_bind (io_get cl_workflow_exchange) f) P"
  by (rule sends_get; simp add: ready_fields)+

lemma sends_channel [sends_rules]:
  assumes "\<And>ch. sends C (ready C) (f (Some ch)) P"
  shows "sends C (ready C) (io_bind (io_get cl_channel) f) P"
  unfolding sends_def
proof (intro allI impI)
  fix s :: "'a client" and r t assume "ready C s" and run: "io_bind (io_get cl_channel) f s = (r, t)"
  then obtain ch where "cl_channel s = Some ch" by (auto simp: ready_def client_ok_def)
  then have "f (Some ch) s = (r, t)" using run by (simp add: io_bind_def io_get_def)
  then show "\<exists>ext. cl_log t = cl_log s @ ext \<and> client_ok C t \<and>
      (sents ext = [] \<and> isl r \<or> (\<exists>ex key msg. P ex key msg \<and> sents ext = [Sent ex key msg (\<not> isl r)]))"
    using assms[of ch] \<open>ready C s\<close> unfolding sends_def by blast
qed

definition task_allowed :: "client_config \<Rightarrow> dict \<Rightarrow> dict \<Rightarrow> string \<Rightarrow> string \<Rightarrow> outgoing \<Rightarrow> bool" where
  "task_allowed C d headers ex key msg \<longleftrightarrow> ex = fst (exchanges_of (cc_topology C)) \<and>
     validate_task_priority C d = Inr () \<and> tp_task_routing_key (cc_topology C) d = Inr key \<and> task_message C d headers = Inr msg"

lemma publish_prepared_task_sends [sends_rules]:
  "sends C (ready C) (publish_prepared_task B C d headers) (task_allowed C d headers)"
  unfolding publish_prepared_task_def
  by (intro sends_rules) (simp_all add: ready_fields task_allowed_def sends_rules)

lemma publish_task_sends:
  "sends C (client_ok C) (publish_task B C task headers) (\<lambda>ex key msg. \<exists>d. prepare_task_payload C task = Inr d \<and> task_allowed C d headers ex key msg)"
  unfolding publish_task_def
  by (intro sends_rules) (auto simp: ready_fields intro: sends_weaken[OF publish_prepared_task_sends])

lemma publish_item_sends: "sends C (client_ok C) (publish_prepared_task_item B C d) (task_allowed C d [])"
  unfolding publish_prepared_task_item_def by (intro sends_rules) (auto simp: ready_fields)

definition batch_allowed :: "client_config \<Rightarrow> dict \<Rightarrow> int option \<Rightarrow> string \<Rightarrow> string \<Rightarrow> outgoing \<Rightarrow> bool" where
  "batch_allowed C payload priority ex key msg \<longleftrightarrow> ex = fst (exchanges_of (cc_topology C)) \<and>
     tp_task_routing_key (cc_topology C) (batch_first_task payload) = Inr key \<and> batch_message C payload priority = Inr msg"

lemma publish_batch_sends: "sends C (client_ok C) (publish_batch_envelope B C payload priority) (batch_allowed C payload priority)"
  unfolding publish_batch_envelope_def
  by (intro sends_rules) (simp_all add: ready_fields batch_allowed_def sends_rules)

lemma publish_status_payload_sends:
  "sends C (client_ok C) (publish_status_payload B C payload routing_key)
     (\<lambda>ex key msg. ex = snd (exchanges_of (cc_topology C)) \<and> key = routing_key \<and> status_message C payload = Inr msg)"
  unfolding publish_status_payload_def
  by (intro sends_rules) (simp_all add: ready_fields sends_rules)

lemma publish_status_sends:
  "sends C (client_ok C) (publish_status B C event) (\<lambda>ex key msg. ex = snd (exchanges_of (cc_topology C)) \<and>
     tp_status_routing_key (cc_sha C) (cc_topology C) (prepare_status_payload C event) = Inr key \<and>
     status_message C (prepare_status_payload C event) = Inr msg)"
  unfolding publish_status_def Let_def
  by (intro sends_rules) (auto intro: sends_weaken[OF publish_status_payload_sends])

lemma publish_aggregation_status_sends:
  "sends C (client_ok C) (publish_aggregation_status B C event) (\<lambda>ex key msg. ex = snd (exchanges_of (cc_topology C)) \<and>
     (\<exists>payload. aggregation_payload C (prepare_status_payload C event) = Inr payload \<and>
     tp_aggregation_status_routing_key (cc_sha C) (cc_topology C) payload = Inr key \<and> status_message C payload = Inr msg))"
  unfolding publish_aggregation_status_def
  by (intro sends_rules) (auto intro: sends_weaken[OF publish_status_payload_sends])

definition workflow_allowed :: "client_config \<Rightarrow> workflow_envelope given \<Rightarrow> dict \<Rightarrow> string \<Rightarrow> outgoing \<Rightarrow> bool" where
  "workflow_allowed C payload headers ex msg \<longleftrightarrow> ex = fst (exchanges_of (cc_topology C)) \<and>
     (\<exists>workflow. prepare_workflow_payload C payload None = Inr workflow \<and> validate_workflow_contract C workflow = Inr () \<and>
       validate_workflow_priority C workflow = Inr () \<and> workflow_message C workflow headers = Inr msg)"

lemma publish_workflow_message_sends:
  "sends C (client_ok C) (client_publish_workflow_message B C payload routing_key headers)
     (\<lambda>ex key msg. key = routing_key \<and> workflow_allowed C payload headers ex msg)"
  unfolding client_publish_workflow_message_def
  by (intro sends_rules) (auto simp: ready_fields workflow_allowed_def intro!: sends_rules)

lemma publish_workflow_sends:
  "sends C (client_ok C) (publish_workflow B C payload headers) (\<lambda>ex key msg. \<exists>d. prepare_workflow_payload C payload None = Inr d \<and>
     tp_workflow_publish_routing_key (cc_topology C) (dict_text d ''stage'') = Inr key \<and> workflow_allowed C (Mapping d) headers ex msg)"
  unfolding publish_workflow_def
  by (intro sends_rules) (auto intro: sends_weaken[OF publish_workflow_message_sends])

lemma publish_to_stage_sends:
  "sends C (client_ok C) (client_publish_to_stage B C payload stage headers) (\<lambda>ex key msg. \<exists>d. prepare_workflow_payload C payload (Some stage) = Inr d \<and>
     tp_workflow_publish_routing_key (cc_topology C) stage = Inr key \<and> workflow_allowed C (Mapping d) headers ex msg)"
  unfolding client_publish_to_stage_def
  by (intro sends_rules) (auto intro: sends_weaken[OF publish_workflow_message_sends])

lemma publish_to_entry_sends:
  "sends C (client_ok C) (publish_to_entry B C payload route headers) (\<lambda>ex key msg. \<exists>w stage d. cc_topology C = Workflow_Status w \<and>
     wt_workflow_entry_target_stage w route = Inr stage \<and> prepare_workflow_payload C payload (Some stage) = Inr d \<and>
     wt_workflow_entry_routing_key w route = Inr key \<and> workflow_allowed C (Mapping d) headers ex msg)"
proof (cases "cc_topology C")
  case (Shared_Status st)
  then show ?thesis by (simp add: publish_to_entry_def sends_raise)
next
  case (Workflow_Status w)
  then show ?thesis
    unfolding publish_to_entry_def Workflow_Status relayna_topology.case
    by (intro sends_rules) (auto intro: sends_weaken[OF publish_workflow_message_sends])
qed

lemma publish_raw_sends:
  "sends C (client_ok C) (publish_raw_to_queue B C q body cid headers priority ct persistent) (\<lambda>ex key msg. ex = [] \<and> key = q \<and>
     msg = \<lparr>om_body = body, om_content_type = ct, om_persistent = persistent, om_correlation_id = cid,
            om_priority = priority, om_headers = cc_inject C headers\<rparr>)"
  unfolding publish_raw_to_queue_def
  by (intro sends_rules) (simp add: ready_fields sends_rules)

subsubsection \<open>Everything else\<close>

text \<open>\<open>silent C I m\<close>: from a state with \<open>I\<close>, \<open>m\<close> sends nothing and keeps the client in order.\<close>

definition silent :: "client_config \<Rightarrow> ('w client \<Rightarrow> bool) \<Rightarrow> ('w client, 'a) io \<Rightarrow> bool" where
  "silent C I m \<longleftrightarrow> (\<forall>s r t. I s \<longrightarrow> m s = (r, t) \<longrightarrow> (\<exists>ext. cl_log t = cl_log s @ ext \<and> sents ext = [] \<and> client_ok C t))"

definition inert :: "('w client, 'a) io \<Rightarrow> bool" where
  "inert m \<longleftrightarrow> runs m (\<lambda>s ext r t. same_object s t \<and> sents ext = [])"

named_theorems inert_rules \<open>calls that send nothing and leave the object\<close>

lemma inert_broker: "(\<And>r. sents (note r) = []) \<Longrightarrow> inert (on_broker note m)"
  unfolding inert_def by (rule runs_on_broker) simp

lemma inert_calls [inert_rules]:
  "inert (open_channel B h)" "inert (set_qos B ch n)" "inert (declare_one B ch c)" "inert (close_channel B ch)"
  "inert (close_connection B h)" "inert (on_broker (\<lambda>_. []) m)"
  unfolding open_channel_def set_qos_def declare_one_def close_channel_def close_connection_def
  by (rule inert_broker; simp split: sum.splits)+

lemma inert_pure [inert_rules]: "inert (io_return x)" "inert (io_raise e)" "inert (io_lift v)" "inert (io_get g)"
  by (auto simp: inert_def runs_def io_return_def io_raise_def io_lift_def io_get_def)

lemma inert_bind [inert_rules]:
  assumes "inert m" "\<And>x. inert (f x)"
  shows "inert (io_bind m f)"
  unfolding inert_def
  by (rule runs_bind[OF assms(1)[unfolded inert_def] assms(2)[unfolded inert_def]]) (auto intro: same_object_trans)

lemma inert_map [inert_rules]: "(\<And>x. inert (f x)) \<Longrightarrow> inert (io_map f xs)"
  by (induction xs) (auto intro!: inert_rules)

lemma inert_declare_on [inert_rules]: "inert (declare_on B ch m)"
  unfolding declare_on_def by (intro inert_rules)

lemma inert_catch [inert_rules]:
  assumes "inert m" "\<And>e. inert (h e)"
  shows "inert (io_catch m h)"
  unfolding inert_def
proof (rule runsI)
  fix s r t assume run: "io_catch m h s = (r, t)"
  obtain r1 s1 where 1: "m s = (r1, s1)" by (rule prod.exhaust)
  obtain a where a: "cl_log s1 = cl_log s @ a" "same_object s s1 \<and> sents a = []"
    using assms(1)[unfolded inert_def] 1 by (rule runsE)
  show "\<exists>ext. cl_log t = cl_log s @ ext \<and> same_object s t \<and> sents ext = []"
  proof (cases r1)
    case (Inl e)
    then have "h e s1 = (r, t)" using run 1 by (simp add: io_catch_def)
    with assms(2)[unfolded inert_def] obtain b where "cl_log t = cl_log s1 @ b" "same_object s1 t \<and> sents b = []" by (rule runsE)
    then show ?thesis using a same_object_trans by (intro exI[of _ "a @ b"]) auto
  qed (use run 1 a in \<open>auto simp: io_catch_def\<close>)
qed

lemma inert_finally [inert_rules]:
  assumes "inert m" "inert f"
  shows "inert (io_finally m f)"
  unfolding inert_def
proof (rule runsI)
  fix s r t assume run: "io_finally m f s = (r, t)"
  obtain r1 s1 where 1: "m s = (r1, s1)" by (rule prod.exhaust)
  obtain r2 s2 where 2: "f s1 = (r2, s2)" by (rule prod.exhaust)
  obtain a where a: "cl_log s1 = cl_log s @ a" "same_object s s1 \<and> sents a = []"
    using assms(1)[unfolded inert_def] 1 by (rule runsE)
  obtain b where b: "cl_log s2 = cl_log s1 @ b" "same_object s1 s2 \<and> sents b = []"
    using assms(2)[unfolded inert_def] 2 by (rule runsE)
  have "t = s2" using run 1 2 by (cases r2; simp add: io_finally_def)
  then show "\<exists>ext. cl_log t = cl_log s @ ext \<and> same_object s t \<and> sents ext = []"
    using a b same_object_trans by (intro exI[of _ "a @ b"]) auto
qed

lemma inert_silent: "inert m \<Longrightarrow> (\<And>s. I s \<Longrightarrow> client_ok C s) \<Longrightarrow> silent C I m"
  unfolding inert_def silent_def runs_def using client_ok_same by blast

lemma silent_ensure:
  assumes "inert (f ())"
  shows "silent C (client_ok C) (io_bind (ensure_ready B C) f)"
  unfolding silent_def
proof (intro allI impI)
  fix s :: "'a client" and r t assume ok: "client_ok C s" and run: "io_bind (ensure_ready B C) f s = (r, t)"
  obtain r1 s1 where 1: "ensure_ready B C s = (r1, s1)" by (rule prod.exhaust)
  obtain a where a: "cl_log s1 = cl_log s @ a" "sents a = []" "client_ok C s1"
    using ok 1 by (rule ensure_ready_runs) blast
  show "\<exists>ext. cl_log t = cl_log s @ ext \<and> sents ext = [] \<and> client_ok C t"
  proof (cases r1)
    case (Inl e)
    then show ?thesis using run 1 a by (auto simp: io_bind_def)
  next
    case (Inr u)
    then have "f () s1 = (r, t)" using run 1 by (simp add: io_bind_def)
    with assms[unfolded inert_def] obtain b where "cl_log t = cl_log s1 @ b" "same_object s1 t \<and> sents b = []" by (rule runsE)
    then show ?thesis using a client_ok_same by (intro exI[of _ "a @ b"]) auto
  qed
qed

abbreviation quiet_op :: "client_config \<Rightarrow> ('w client, 'a) io \<Rightarrow> bool" where
  "quiet_op C \<equiv> silent C (client_ok C)"

lemma quiet_op_bind:
  assumes "quiet_op C m" "\<And>x. quiet_op C (f x)"
  shows "quiet_op C (io_bind m f)"
  unfolding silent_def
proof (intro allI impI)
  fix s :: "'a client" and r t assume ok: "client_ok C s" and run: "io_bind m f s = (r, t)"
  obtain r1 s1 where 1: "m s = (r1, s1)" by (rule prod.exhaust)
  with assms(1) ok obtain a where a: "cl_log s1 = cl_log s @ a" "sents a = []" "client_ok C s1" unfolding silent_def by blast
  show "\<exists>ext. cl_log t = cl_log s @ ext \<and> sents ext = [] \<and> client_ok C t"
  proof (cases r1)
    case (Inl e)
    then show ?thesis using run 1 a by (auto simp: io_bind_def)
  next
    case (Inr x)
    then have "f x s1 = (r, t)" using run 1 by (simp add: io_bind_def)
    with assms(2)[of x] a(3) obtain b where "cl_log t = cl_log s1 @ b" "sents b = []" "client_ok C t" unfolding silent_def by blast
    then show ?thesis using a by (intro exI[of _ "a @ b"]) simp
  qed
qed

lemma silent_default:
  assumes "quiet_op C m"
  shows "quiet_op C (io_catch m (\<lambda>_. io_return x))"
  unfolding silent_def
proof (intro allI impI)
  fix s :: "'a client" and r t assume ok: "client_ok C s" and run: "io_catch m (\<lambda>_. io_return x) s = (r, t)"
  obtain r1 s1 where 1: "m s = (r1, s1)" by (rule prod.exhaust)
  then have "t = s1" using run by (cases r1; simp add: io_catch_def io_return_def)
  then show "\<exists>ext. cl_log t = cl_log s @ ext \<and> sents ext = [] \<and> client_ok C t"
    using assms ok 1 unfolding silent_def by blast
qed

lemma acquire_channel_silent: "quiet_op C (acquire_channel B C n)"
  unfolding acquire_channel_def by (rule silent_ensure) (auto intro!: inert_rules split: option.splits)

lemma ensure_ready_silent: "quiet_op C (ensure_ready B C)"
  unfolding silent_def using ensure_ready_runs by metis

lemma inert_quiet: "inert m \<Longrightarrow> quiet_op C m"
  by (rule inert_silent)

lemma inspect_silent: "quiet_op C (client_inspect_queue B C q)"
  unfolding client_inspect_queue_def
  by (intro quiet_op_bind ensure_ready_silent silent_default acquire_channel_silent inert_quiet)
    (auto intro!: inert_rules split: option.splits)

lemma declare_with_silent: "quiet_op C (declare_with B C g err m)"
  unfolding declare_with_def by (rule silent_ensure) (auto intro!: inert_rules split: option.splits prod.splits)

lemma retry_infrastructure_silent: "quiet_op C (ensure_retry_infrastructure B C q n a b)"
  unfolding ensure_retry_infrastructure_def Let_def
  by (rule silent_ensure) (auto intro!: inert_rules split: option.splits)

lemma discard_silent: "quiet_op C m \<Longrightarrow> quiet_op C (discard m)"
  unfolding discard_def by (rule quiet_op_bind) (auto intro!: inert_quiet inert_rules)

lemma ping_silent: "quiet_op C (ping B C)"
  unfolding ping_def by (intro quiet_op_bind acquire_channel_silent inert_quiet inert_rules)

lemma initialize_silent: "quiet_op C (initialize B C)"
  unfolding silent_def
proof (intro allI impI)
  fix s :: "'a client" and r t assume ok: "client_ok C s" and run: "initialize B C s = (r, t)"
  show "\<exists>ext. cl_log t = cl_log s @ ext \<and> sents ext = [] \<and> client_ok C t"
  proof (cases "cl_initialized s")
    case True
    then show ?thesis using ok run by (simp add: initialize_def io_bind_def io_get_def io_return_def)
  next
    case False
    then have "ensure_ready B C s = (r, t)" using run by (simp add: ensure_ready_def io_bind_def io_get_def)
    with ok show ?thesis by (rule ensure_ready_runs) blast
  qed
qed

lemma close_silent: "quiet_op C (close B)"
  unfolding silent_def
proof (intro allI impI)
  fix s :: "'a client" and r t assume "client_ok C s" and run: "close B s = (r, t)"
  define s0 where "s0 = s\<lparr>cl_initialized := False\<rparr>"
  define m where "m = (case cl_connection s0 of
      Some h \<Rightarrow> if \<not> aq_connection_closed B (cl_world s0) h then close_connection B h else io_return ()
    | None \<Rightarrow> io_return ())"
  let ?clear = "\<lambda>s. s\<lparr>cl_connection := None, cl_channel := None, cl_tasks_exchange := None,
       cl_workflow_exchange := None, cl_status_exchange := None\<rparr>"
  have eq: "close B s = io_bind m (\<lambda>_. io_modify ?clear) s0"
    by (simp only: close_def io_bind_def io_get_def io_modify_def s0_def[symmetric] m_def prod.case sum.case)
  obtain r1 s1 where 1: "m s0 = (r1, s1)" by (rule prod.exhaust)
  have "inert m" by (auto simp: m_def intro!: inert_rules split: option.splits)
  from this[unfolded inert_def] 1 obtain a where a: "cl_log s1 = cl_log s @ a" "same_object s0 s1 \<and> sents a = []"
    by (rule runsE) (auto simp: s0_def)
  have "t = s1 \<or> t = ?clear s1" using run 1 by (cases r1; auto simp: eq io_bind_def io_modify_def)
  then show "\<exists>ext. cl_log t = cl_log s @ ext \<and> sents ext = [] \<and> client_ok C t"
    using a by (intro exI[of _ a]) (auto simp: s0_def same_object_def client_ok_def)
qed

definition one_message :: "client_config \<Rightarrow> ('w client, unit) io \<Rightarrow> bool" where
  "one_message C m \<longleftrightarrow> (\<forall>s r t. client_ok C s \<longrightarrow> m s = (r, t) \<longrightarrow>
     (\<exists>ext. cl_log t = cl_log s @ ext \<and> client_ok C t \<and> length (sents ext) \<le> 1))"

lemma sends_one: "sends C (client_ok C) m P \<Longrightarrow> one_message C m"
  unfolding sends_def one_message_def by fastforce

lemma silent_one: "quiet_op C m \<Longrightarrow> one_message C m"
  unfolding silent_def one_message_def by fastforce

lemma run_op_keeps: "one_message C (run_op B C op)"
  by (cases op)
    (simp_all add: sends_one[OF publish_task_sends] sends_one[OF publish_item_sends] sends_one[OF publish_batch_sends]
      sends_one[OF publish_status_sends] sends_one[OF publish_aggregation_status_sends] sends_one[OF publish_workflow_sends]
      sends_one[OF publish_to_stage_sends] sends_one[OF publish_to_entry_sends] sends_one[OF publish_workflow_message_sends]
      sends_one[OF publish_raw_sends] silent_one[OF initialize_silent] silent_one[OF close_silent] silent_one[OF ping_silent]
      silent_one[OF discard_silent[OF declare_with_silent]] silent_one[OF discard_silent[OF retry_infrastructure_silent]]
      silent_one[OF discard_silent[OF acquire_channel_silent]] silent_one[OF discard_silent[OF inspect_silent]]
      client_ensure_status_queue_def client_ensure_tasks_queue_def client_ensure_workflow_queue_def client_ensure_aggregation_queue_def)

lemma reach_ok: "client_reach B C s \<Longrightarrow> client_ok C s"
proof (induction rule: client_reach.induct)
  case (reach_new w)
  then show ?case by (simp add: client_ok_def new_client_def)
next
  case (reach_op s op r t)
  then show ?case using run_op_keeps unfolding one_message_def by blast
qed

subsection \<open>What is published\<close>

lemma persistent_messageD:
  assumes "persistent_message C payload cid priority headers = Inr msg"
  shows "cc_encode C (PDict payload) = Inr (om_body msg)" "om_persistent msg" "om_priority msg = priority"
    "om_correlation_id msg = cid" "om_headers msg = cc_inject C headers"
  using assms by (auto simp: persistent_message_def bind_res_def split: sum.splits)

lemma priority_limit:
  assumes "bind_res limit (\<lambda>m. validate_priority_against_limit priority m kind) = Inr ()" "priority = Some p" "limit = Inr (Some m)"
  shows "p \<le> m"
  using assms by (auto simp: validate_priority_against_limit_def guard_res_def split: if_splits)

text \<open> RelaynaRabbitClient.publish_task (rabbitmq/client.py), from any state the client can be in: it
  raises without sending, or it sends one message to the tasks exchange under the routing key of the
  validated task.  The message is persistent, its body is the encoded task, and its priority
  is within the limit of the queue.  A connected client sends a valid task, and the
  call ends as the broker's publish does. \<close>

theorem publish_task_sends_validated_task:
  assumes "client_reach B C s" and "publish_task B C task headers s = (r, t)"
  shows "(\<exists>ext. cl_log t = cl_log s @ ext \<and> (sents ext = [] \<and> isl r \<or>
      (\<exists>d key msg. prepare_task_payload C task = Inr d \<and> tp_task_routing_key (cc_topology C) d = Inr key \<and>
         sents ext = [Sent (fst (exchanges_of (cc_topology C))) key msg (\<not> isl r)] \<and>
         cc_encode C (PDict d) = Inr (om_body msg) \<and> om_persistent msg \<and> om_priority msg = dict_priority d \<and>
         (\<forall>p limit. dict_priority d = Some p \<longrightarrow> resolved_task_max_priority C = Inr (Some limit) \<longrightarrow> p \<le> limit)))) \<and>
    (\<forall>d key msg. cl_initialized s \<longrightarrow> require_task_topology C = Inr () \<longrightarrow> prepare_task_payload C task = Inr d \<longrightarrow>
       validate_task_priority C d = Inr () \<longrightarrow> tp_task_routing_key (cc_topology C) d = Inr key \<longrightarrow>
       task_message C d headers = Inr msg \<longrightarrow>
       r = fst (aq_publish B (fst (exchanges_of (cc_topology C))) key msg (cl_world s)))"
proof
  have ok: "client_ok C s" by (rule reach_ok[OF assms(1)])
  let ?ex = "fst (exchanges_of (cc_topology C))"
  obtain ext where log: "cl_log t = cl_log s @ ext" and ext: "sents ext = [] \<and> isl r \<or>
      (\<exists>ex key msg. (\<exists>d. prepare_task_payload C task = Inr d \<and> task_allowed C d headers ex key msg) \<and> sents ext = [Sent ex key msg (\<not> isl r)])"
    using publish_task_sends[of C B task headers] ok assms(2) unfolding sends_def by blast
  from ext show "\<exists>ext. cl_log t = cl_log s @ ext \<and> (sents ext = [] \<and> isl r \<or>
      (\<exists>d key msg. prepare_task_payload C task = Inr d \<and> tp_task_routing_key (cc_topology C) d = Inr key \<and>
         sents ext = [Sent ?ex key msg (\<not> isl r)] \<and>
         cc_encode C (PDict d) = Inr (om_body msg) \<and> om_persistent msg \<and> om_priority msg = dict_priority d \<and>
         (\<forall>p limit. dict_priority d = Some p \<longrightarrow> resolved_task_max_priority C = Inr (Some limit) \<longrightarrow> p \<le> limit)))"
  proof
    assume "\<exists>ex key msg. (\<exists>d. prepare_task_payload C task = Inr d \<and> task_allowed C d headers ex key msg) \<and> sents ext = [Sent ex key msg (\<not> isl r)]"
    then obtain d key msg where d: "prepare_task_payload C task = Inr d" "task_allowed C d headers ?ex key msg" "sents ext = [Sent ?ex key msg (\<not> isl r)]"
      by (auto simp: task_allowed_def)
    from d(2) have v: "validate_task_priority C d = Inr ()" "tp_task_routing_key (cc_topology C) d = Inr key" "task_message C d headers = Inr msg"
      by (simp_all add: task_allowed_def)
    have "p \<le> limit" if "dict_priority d = Some p" "resolved_task_max_priority C = Inr (Some limit)" for p limit
      using priority_limit[OF v(1)[unfolded validate_task_priority_def] that] .
    then show ?thesis using log d(1,3) v(2) persistent_messageD[OF v(3)[unfolded task_message_def]] by blast
  qed (use log in blast)
  show "\<forall>d key msg. cl_initialized s \<longrightarrow> require_task_topology C = Inr () \<longrightarrow> prepare_task_payload C task = Inr d \<longrightarrow>
       validate_task_priority C d = Inr () \<longrightarrow> tp_task_routing_key (cc_topology C) d = Inr key \<longrightarrow>
       task_message C d headers = Inr msg \<longrightarrow> r = fst (aq_publish B ?ex key msg (cl_world s))"
  proof (intro allI impI)
    fix d key msg assume i: "cl_initialized s" and v: "require_task_topology C = Inr ()" "prepare_task_payload C task = Inr d"
      "validate_task_priority C d = Inr ()" "tp_task_routing_key (cc_topology C) d = Inr key" "task_message C d headers = Inr msg"
    have ex: "cl_tasks_exchange s = Some ?ex" using ok i by (simp add: client_ok_def)
    have "send_message B ?ex key msg s = (r, t)"
      using assms(2) i v ex by (simp add: publish_task_def publish_prepared_task_def ensure_ready_def require_tasks_exchange_def
          io_bind_def io_lift_def io_get_def io_return_def)
    then show "r = fst (aq_publish B ?ex key msg (cl_world s))" by (auto simp: send_message_def on_broker_def split: prod.splits)
  qed
qed

text \<open> In every state reached by any calls of the client, in any order and with any answers of the
  broker, a client marked initialized has a connection, a channel and its exchanges, and every
  call sends at most one message and never rewrites what was sent. \<close>

theorem client_stays_in_order:
  assumes "client_reach B C s" and "run_op B C op s = (r, t)"
  shows "client_ok C t \<and> (\<exists>ext. cl_log t = cl_log s @ ext \<and> length (sents ext) \<le> 1)"
  using run_op_keeps[of C B op] reach_ok[OF assms(1)] assms(2) unfolding one_message_def by blast

text \<open> RelaynaRabbitClient.inspect_queue (rabbitmq/client.py) of a connected client never raises: it
  opens one channel at most and closes it again, unless setting the prefetch on it
  failed, and it answers with the counts the broker gave or with nothing. \<close>

theorem inspect_queue_answers:
  assumes "client_reach B C s" "cl_initialized s" and "client_inspect_queue B C q s = (r, t)"
  shows "\<exists>v ext. r = Inr v \<and> cl_log t = cl_log s @ ext \<and>
    (ext = [] \<and> v = None \<or> (\<exists>h ch. ext = [Opened h ch, Qos_set ch 1 False] \<and> v = None) \<or>
     (\<exists>h ch closed. ext = [Opened h ch, Qos_set ch 1 True, Channel_closed ch closed] \<and> (\<forall>c. v = Some c \<longrightarrow> qc_queue_name c = q)))"
proof -
  obtain h where h: "cl_connection s = Some h" using reach_ok[OF assms(1)] assms(2) by (auto simp: client_ok_def)
  have ready: "ensure_ready B C u = (Inr (), u)" if "cl_initialized u" for u
    using that by (simp add: ensure_ready_def io_bind_def io_get_def io_return_def)
  obtain r1 s1 where 1: "open_channel B h s = (r1, s1)" by (rule prod.exhaust)
  have s1: "cl_log s1 = cl_log s @ (case r1 of Inr ch \<Rightarrow> [Opened h ch] | Inl _ \<Rightarrow> [])"
    using 1 by (auto simp: open_channel_def on_broker_def split: prod.splits)
  show ?thesis
  proof (cases r1)
    case (Inl e)
    then have "r = Inr None" "t = s1" using assms(2,3) 1 h
      by (simp_all add: client_inspect_queue_def acquire_channel_def ready io_bind_def io_catch_def io_get_def io_return_def)
    then show ?thesis using s1 Inl by simp
  next
    case (Inr ch)
    obtain r2 s2 where 2: "set_qos B ch 1 s1 = (r2, s2)" by (rule prod.exhaust)
    have s2: "cl_log s2 = cl_log s1 @ [Qos_set ch 1 (\<not> isl r2)]"
      using 2 by (auto simp: set_qos_def on_broker_def split: prod.splits)
    show ?thesis
    proof (cases r2)
      case (Inl e)
      then have "r = Inr None" "t = s2" using assms(2,3) 1 2 h Inr
        by (simp_all add: client_inspect_queue_def acquire_channel_def ready io_bind_def io_catch_def io_get_def io_return_def)
      then show ?thesis using s1 s2 Inl Inr by simp
    next
      case ok: (Inr u)
      obtain r3 s3 where 3: "on_broker (\<lambda>_. []) (aq_passive B ch q) s2 = (r3, s3)" by (rule prod.exhaust)
      obtain r4 s4 where 4: "close_channel B ch s3 = (r4, s4)" by (rule prod.exhaust)
      have "cl_log s3 = cl_log s2" "cl_log s4 = cl_log s3 @ [Channel_closed ch (\<not> isl r4)]"
        using 3 4 by (auto simp: close_channel_def on_broker_def split: prod.splits)
      moreover have "t = s4" "r = (case r3 of Inr x \<Rightarrow> Inr (declaration_counts q x) | Inl _ \<Rightarrow> Inr None)"
        using assms(2,3) 1 2 3 4 h Inr ok
        by (cases r3; cases r4; simp add: client_inspect_queue_def acquire_channel_def ready io_bind_def io_catch_def io_finally_def
            io_get_def io_return_def)+
      ultimately show ?thesis using s1 s2 Inr ok
        by (cases r3) (auto simp: declaration_counts_def split: option.splits prod.splits)
    qed
  qed
qed

text \<open> C38. RelaynaRabbitClient.initialize (rabbitmq/client.py) leaks connections: when it raises after it connected,
  the next initialize connects again, and neither it nor a later close ever closes
  the first connection. \<close>

theorem failed_initialize_leaks_connection:
  assumes "\<not> cl_initialized s" and "initialize B C s = (Inl e, s1)" "cl_log s1 = cl_log s @ ext1" "Connected h \<in> set ext1"
    and "initialize B C s1 = (Inr (), s2)" and "close B s2 = (r, s3)" and "cl_log s3 = cl_log s1 @ ext2"
    and "Connected h \<notin> set ext2"
  shows "(\<exists>h'. h' \<noteq> h \<and> Connected h' \<in> set ext2) \<and> (\<forall>ok. Connection_closed h ok \<notin> set (ext1 @ ext2))"
proof -
  obtain a where a: "cl_log s1 = cl_log s @ a" "list_all opens_only a" "cl_initialized s1 = cl_initialized s"
    using initialize_plain[unfolded plain_until_end_def] assms(2) by (rule runsE) auto
  have not_closed: "Connection_closed x ok \<notin> set l" if "list_all opens_only l" for x ok l
    using that by (auto simp: list_all_iff)
  obtain b where b: "cl_log s2 = cl_log s1 @ b" "list_all opens_only b"
    using initialize_plain[unfolded plain_until_end_def] assms(5) by (rule runsE) auto
  have "\<not> cl_initialized s1" using a assms(1) by simp
  from initialize_ready(2)[OF assms(5) this] obtain h' b' where h': "cl_connection s2 = Some h'" "cl_log s2 = cl_log s1 @ Connected h' # b'"
    by blast
  obtain c where c: "cl_log s3 = cl_log s2 @ c" "c = [] \<or> (\<exists>ok. c = [Connection_closed h' ok])"
  proof -
    define s0 where "s0 = s2\<lparr>cl_initialized := False\<rparr>"
    obtain r1 u where u: "close_connection B h' s0 = (r1, u)" by (rule prod.exhaust)
    then have "cl_log u = cl_log s2 @ [Connection_closed h' (\<not> isl r1)]"
      by (auto simp: close_connection_def on_broker_def s0_def split: prod.splits)
    moreover have "cl_log s3 = cl_log s2 \<or> cl_log s3 = cl_log u"
      using assms(6) u h'(1) by (cases r1) (auto simp: close_def io_bind_def io_get_def io_modify_def io_return_def s0_def split: if_splits)
    ultimately show ?thesis using that by auto
  qed
  have ext: "ext1 = a" "ext2 = b @ c" using a b c assms(3,7) by auto
  have "Connected h' \<in> set ext2" using b h' ext by auto
  then have "h' \<noteq> h" using assms(8) by auto
  then have "Connection_closed h ok \<notin> set (ext1 @ ext2)" for ok
    using c(2) not_closed[OF a(2), of h ok] not_closed[OF b(2), of h ok] unfolding ext by auto
  then show ?thesis using \<open>Connected h' \<in> set ext2\<close> \<open>h' \<noteq> h\<close> by blast
qed

subsection \<open>What the target stage accepts\<close>

lemma adopt_alias_other: "fst p \<noteq> k \<Longrightarrow> snd p \<noteq> k \<Longrightarrow> map_of (adopt_alias p d) k = map_of d k"
  by (auto simp: adopt_alias_def split: prod.splits option.splits)

lemma drop_alias_other: "fst p \<noteq> k \<Longrightarrow> snd p \<noteq> k \<Longrightarrow> map_of (drop_alias p d) k = map_of d k"
  by (auto simp: drop_alias_def split: prod.splits option.splits)

lemma normalize_other:
  assumes "\<forall>p \<in> set (alias_map cfg source). fst p \<noteq> k \<and> snd p \<noteq> k" "k \<noteq> ''task_id''"
  shows "map_of (normalize_contract_aliases d cfg source b) k = map_of d k"
proof -
  have "map_of (fold adopt_alias ps d) k = map_of d k" "map_of (fold drop_alias ps d) k = map_of d k"
    if "\<forall>p \<in> set ps. fst p \<noteq> k \<and> snd p \<noteq> k" for ps d
    using that by (induction ps arbitrary: d) (auto simp: adopt_alias_other drop_alias_other)
  then show ?thesis using assms
    by (auto simp: normalize_contract_aliases_def stringify_task_id_def Let_def split: option.splits)
qed

definition keeps_stage :: "client_config \<Rightarrow> bool" where
  "keeps_stage C \<longleftrightarrow> (\<forall>v env. cc_workflow_validate C (PDict v) = Inr env \<longrightarrow>
     dict_get (cc_workflow_dump C env) ''stage'' = dict_get v ''stage'')"

lemma prepared_stage:
  assumes "keeps_stage C" "prepare_workflow_payload C payload stage = Inr d"
    and "\<forall>p \<in> set (alias_map (cc_alias_config C) Payload). fst p \<noteq> ''stage'' \<and> snd p \<noteq> ''stage''"
  shows "stage = Some st \<Longrightarrow> dict_get d ''stage'' = PStr st"
    and "payload = Mapping v \<Longrightarrow> stage = None \<Longrightarrow> dict_get d ''stage'' = dict_get v ''stage''"
proof -
  define v0 where "v0 = (case payload of Envelope e \<Rightarrow> workflow_transport_dict (cc_workflow_dump C) e | Model d \<Rightarrow> d
    | Mapping d \<Rightarrow> normalize_contract_aliases d (cc_alias_config C) Payload True)"
  define v1 where "v1 = (case stage of Some st \<Rightarrow> AList.update ''stage'' (PStr st) v0 | None \<Rightarrow> v0)"
  obtain env where env: "cc_workflow_validate C (PDict v1) = Inr env" "d = workflow_transport_dict (cc_workflow_dump C) env"
    using assms(2) unfolding prepare_workflow_payload_def Let_def v0_def[symmetric] v1_def[symmetric]
    by (auto simp: bind_res_def split: sum.splits)
  have "dict_get d ''stage'' = dict_get (cc_workflow_dump C env) ''stage''"
    by (simp add: env(2) workflow_transport_dict_def dict_setdefault_def dict_get_def)
  also have "\<dots> = dict_get v1 ''stage''" using assms(1) env(1) by (simp add: keeps_stage_def)
  finally have d: "dict_get d ''stage'' = dict_get v1 ''stage''" .
  show "stage = Some st \<Longrightarrow> dict_get d ''stage'' = PStr st" using d by (simp add: v1_def dict_get_def)
  show "payload = Mapping v \<Longrightarrow> stage = None \<Longrightarrow> dict_get d ''stage'' = dict_get v ''stage''"
    using d by (simp add: v1_def v0_def dict_get_def normalize_other[OF assms(3)])
qed

text \<open> C11. RelaynaRabbitClient.publish_to_stage (rabbitmq/client.py) and the worker agree: when it returns, one
  message went to the workflow exchange under the stage's publish key, it carries that stage,
  the inbound contract of the stage accepts its action and payload, and its priority is
  within the limit of the stage's queue. \<close>

theorem published_stage_message_accepted:
  assumes "client_reach B C s" and "cc_topology C = Workflow_Status w" and "client_publish_to_stage B C payload stage headers s = (Inr (), t)"
    and "strip stage = stage" "stage \<noteq> []" and "keeps_stage C"
    and "\<forall>p \<in> set (alias_map (cc_alias_config C) Payload). fst p \<noteq> ''stage'' \<and> snd p \<noteq> ''stage''"
  shows "\<exists>ext d key msg. cl_log t = cl_log s @ ext \<and> sents ext = [Sent (wt_workflow_exchange w) key msg True] \<and>
    wt_workflow_publish_routing_key w stage = Inr key \<and> cc_encode C (PDict d) = Inr (om_body msg) \<and>
    dict_get d ''stage'' = PStr stage \<and> validate_inbound_message_contract w stage (dict_action d) (dict_payload d) = Inr () \<and>
    (\<forall>p limit. om_priority msg = Some p \<longrightarrow> resolved_workflow_max_priority C stage = Inr (Some limit) \<longrightarrow> p \<le> limit)"
proof -
  obtain ext key msg d1 where log: "cl_log t = cl_log s @ ext" "sents ext = [Sent (wt_workflow_exchange w) key msg True]"
    and d1: "prepare_workflow_payload C payload (Some stage) = Inr d1" and key: "wt_workflow_publish_routing_key w stage = Inr key"
    and al: "workflow_allowed C (Mapping d1) headers (wt_workflow_exchange w) msg"
    using publish_to_stage_sends[of C B payload stage headers] reach_ok[OF assms(1)] assms(2,3)
    unfolding sends_def by (fastforce simp: exchanges_of_def workflow_allowed_def)
  from al obtain d where d: "prepare_workflow_payload C (Mapping d1) None = Inr d" "validate_workflow_contract C d = Inr ()"
    "validate_workflow_priority C d = Inr ()" "workflow_message C d headers = Inr msg"
    unfolding workflow_allowed_def by blast
  have st: "dict_get d ''stage'' = PStr stage"
    using prepared_stage(1)[OF assms(6) d1 assms(7) refl] prepared_stage(2)[OF assms(6) d(1) assms(7) refl refl] by simp
  then have tgt: "strip (dict_text_or_blank d ''stage'') = stage"
    using assms(4,5) by (auto simp: dict_text_or_blank_def dict_get_def py_str_def split: option.splits)
  have "validate_inbound_message_contract w stage (dict_action d) (dict_payload d) = Inr ()"
    using d(2) assms(2,5) tgt
    by (auto simp: validate_workflow_contract_def Let_def validate_publish_contract_def validate_inbound_message_contract_def)
  moreover have "p \<le> limit" if "om_priority msg = Some p" "resolved_workflow_max_priority C stage = Inr (Some limit)" for p limit
    using priority_limit[OF d(3)[unfolded validate_workflow_priority_def tgt] _ that(2), of p] that(1)
      persistent_messageD(3)[OF d(4)[unfolded workflow_message_def]] by simp
  ultimately show ?thesis using log key st persistent_messageD(1)[OF d(4)[unfolded workflow_message_def]] by blast
qed

subsection \<open>Concrete clients\<close>

text \<open>A broker that numbers connections and channels, and refuses the prefetch of channels below \<open>n\<close>.\<close>

definition counting_broker :: "nat \<Rightarrow> nat amqp" where
  "counting_broker n = \<lparr>aq_connect = (\<lambda>url w. (Inr w, Suc w)), aq_channel = (\<lambda>h w. (Inr w, Suc w)),
     aq_set_qos = (\<lambda>ch k w. (if ch < n then Inl (ExternalError ''channel closed'') else Inr (), w)),
     aq_declare = (\<lambda>ch c w. (Inr (), w)), aq_passive = (\<lambda>ch q w. (Inr (Some (Some 3, Some 1)), w)),
     aq_publish = (\<lambda>ex key m w. (Inr (), w)), aq_close_connection = (\<lambda>h w. (Inr (), w)),
     aq_close_channel = (\<lambda>ch w. (Inr (), w)), aq_connection_closed = (\<lambda>w h. False), aq_channel_closed = (\<lambda>w ch. False)\<rparr>"

definition sample_workflow_validate :: "pyval \<Rightarrow> workflow_envelope res" where
  "sample_workflow_validate v =
     (case v of
        PDict d \<Rightarrow>
          (case dict_get d ''stage'' of
             PStr st \<Rightarrow> Inr \<lparr>we_task_id = dict_text d ''task_id'', we_message_id = dict_text d ''message_id'', we_correlation_id = None,
               we_stage = st, we_origin_stage = None, we_action = dict_action d, we_payload = dict_payload d, we_meta = [],
               we_priority = dict_priority d, we_spec_version = ''1.0'', we_extra = []\<rparr>
           | _ \<Rightarrow> Inl (ValueError ''stage''))
      | _ \<Rightarrow> Inl (ValueError ''not a mapping''))"

definition sample_workflow_dump :: "workflow_envelope \<Rightarrow> dict" where
  "sample_workflow_dump e =
     [(''task_id'', PStr (we_task_id e)), (''message_id'', PStr (we_message_id e)), (''stage'', PStr (we_stage e)),
      (''payload'', PDict (we_payload e))] @
     (case we_action e of Some a \<Rightarrow> [(''action'', PStr a)] | None \<Rightarrow> []) @
     (case we_priority e of Some p \<Rightarrow> [(''priority'', PInt p)] | None \<Rightarrow> [])"

definition sample_priority_model :: task_model where
  "sample_priority_model =
     \<lparr>tm_validate = (\<lambda>v. case v of
        PDict d \<Rightarrow> Inr \<lparr>te_task_id = dict_text d ''task_id'', te_payload = [], te_created_at = [], te_service = None,
          te_task_type = None, te_correlation_id = None, te_priority = dict_priority d, te_spec_version = ''1.0'', te_extra = []\<rparr>
      | _ \<Rightarrow> Inl (ValueError ''not a mapping'')),
      tm_dump = (\<lambda>t. (''task_id'', PStr (te_task_id t)) # (case te_priority t of Some p \<Rightarrow> [(''priority'', PInt p)] | None \<Rightarrow> []))\<rparr>"

definition sample_client :: "relayna_topology \<Rightarrow> client_config" where
  "sample_client T = \<lparr>cc_topology = T, cc_connection_name = ''relayna'', cc_alias_config = None, cc_sha = (\<lambda>s. ''0''),
     cc_encode = (\<lambda>v. Inr (json_dumps plain_json v)), cc_trace_fields = [], cc_inject = (\<lambda>h. h), cc_tasks = sample_priority_model,
     cc_workflow_validate = sample_workflow_validate, cc_workflow_dump = sample_workflow_dump,
     cc_status_dump = (\<lambda>e. [(''task_id'', PStr (se_task_id e)), (''status'', PStr (se_status e))]),
     cc_batch = (\<lambda>b ts meta. Inl (ValueError ''batch'')), cc_batch_dump = (\<lambda>b. [])\<rparr>"

abbreviation task_client :: client_config where
  "task_client \<equiv> sample_client (Shared_Status (sample_topology None None))"

abbreviation stage_client :: client_config where
  "stage_client \<equiv> sample_client (Workflow_Status sample_workflow)"

lemma sample_keeps_stage: "keeps_stage (sample_client T)"
  by (auto simp: keeps_stage_def sample_client_def sample_workflow_validate_def sample_workflow_dump_def dict_get_def
      split: option.splits pyval.splits if_splits)

abbreviation sample_task :: dict where
  "sample_task \<equiv> [(''task_id'', PStr ''t''), (''priority'', PInt 4)]"

lemma io_run: "fst (m s) = r \<Longrightarrow> m s = (r, snd (m s))"
  by (metis prod.collapse)

theorem publish_task_sends_validated_task_witness:
  "\<exists>t msg. publish_task (counting_broker 0) task_client sample_task [] (new_client 0) = (Inr (), t) \<and>
     sents (cl_log t) = [Sent ''tasks'' ''task.request'' msg True] \<and> om_persistent msg \<and> om_priority msg = Some 4"
proof -
  let ?m = "publish_task (counting_broker 0) task_client sample_task []"
  have "fst (?m (new_client 0)) = Inr ()" by code_simp
  then have run: "?m (new_client 0) = (Inr (), snd (?m (new_client 0)))" by (rule io_run)
  have d: "prepare_task_payload task_client sample_task = Inr sample_task" by code_simp
  have k: "tp_task_routing_key (cc_topology task_client) sample_task = Inr ''task.request''" by code_simp
  have e: "fst (exchanges_of (cc_topology task_client)) = ''tasks''" by code_simp
  have p: "dict_priority sample_task = Some 4" by code_simp
  have n: "cl_log (new_client (0::nat)) = []" by (simp add: new_client_def)
  obtain ext msg where "cl_log (snd (?m (new_client 0))) = ext" "sents ext = [Sent ''tasks'' ''task.request'' msg True]"
    "om_persistent msg" "om_priority msg = Some 4"
    using publish_task_sends_validated_task[OF reach_new run, THEN conjunct1] d k e p n by auto
  then show ?thesis using run by blast
qed

theorem client_stays_in_order_witness:
  "\<exists>t. run_op (counting_broker 0) task_client (Op_task sample_task []) (new_client 0) = (Inr (), t) \<and> client_ok task_client t \<and>
     cl_initialized t"
proof -
  let ?m = "run_op (counting_broker 0) task_client (Op_task sample_task [])"
  have "fst (?m (new_client 0)) = Inr ()" "cl_initialized (snd (?m (new_client 0)))" unfolding run_op.simps by code_simp+
  moreover from this(1) have run: "?m (new_client 0) = (Inr (), snd (?m (new_client 0)))" by (rule io_run)
  ultimately show ?thesis using client_stays_in_order[OF reach_new run] by blast
qed

theorem inspect_queue_answers_witness:
  "\<exists>s t v. client_inspect_queue (counting_broker 0) task_client ''tasks.queue'' s = (Inr (Some v), t) \<and> qc_queue_name v = ''tasks.queue''"
proof -
  let ?s = "snd (run_op (counting_broker 0) task_client Op_initialize (new_client 0))"
  let ?m = "client_inspect_queue (counting_broker 0) task_client ''tasks.queue''"
  have r: "client_reach (counting_broker 0) task_client ?s" by (rule reach_op[OF reach_new]) (rule prod.collapse[symmetric])
  have i: "cl_initialized ?s" by code_simp
  define v where "v = \<lparr>qc_queue_name = ''tasks.queue'', qc_message_count = 3, qc_consumer_count = 1\<rparr>"
  have "fst (?m ?s) = Inr (Some \<lparr>qc_queue_name = ''tasks.queue'', qc_message_count = 3, qc_consumer_count = 1\<rparr>)" by code_simp
  then have run: "?m ?s = (Inr (Some v), snd (?m ?s))" unfolding v_def by (rule io_run)
  from inspect_queue_answers[OF r i run] run show ?thesis by (intro exI[of _ ?s] exI[of _ "snd (?m ?s)"] exI[of _ v]) auto
qed

theorem failed_initialize_leaks_connection_witness:
  "\<exists>e s1 s2 s3 ext2. initialize (counting_broker 2) task_client (new_client 0) = (Inl e, s1) \<and> Connected 0 \<in> set (cl_log s1) \<and>
     initialize (counting_broker 2) task_client s1 = (Inr (), s2) \<and> close (counting_broker 2) s2 = (Inr (), s3) \<and>
     cl_log s3 = cl_log s1 @ ext2 \<and> (\<forall>ok. Connection_closed 0 ok \<notin> set (cl_log s1 @ ext2))"
proof -
  let ?B = "counting_broker 2"
  define s1 where "s1 = snd (initialize ?B task_client (new_client 0))"
  define s2 where "s2 = snd (initialize ?B task_client s1)"
  define s3 where "s3 = snd (close ?B s2)"
  define ext2 where "ext2 = drop (length (cl_log s1)) (cl_log s3)"
  have "fst (initialize ?B task_client (new_client 0)) = Inl (ExternalError ''channel closed'')" by code_simp
  then have 1: "initialize ?B task_client (new_client 0) = (Inl (ExternalError ''channel closed''), s1)" unfolding s1_def by (rule io_run)
  have "fst (initialize ?B task_client (snd (initialize ?B task_client (new_client 0)))) = Inr ()" by code_simp
  then have 2: "initialize ?B task_client s1 = (Inr (), s2)" unfolding s2_def s1_def by (rule io_run)
  have "fst (close ?B (snd (initialize ?B task_client (snd (initialize ?B task_client (new_client 0)))))) = Inr ()" by code_simp
  then have 3: "close ?B s2 = (Inr (), s3)" unfolding s3_def s2_def s1_def by (rule io_run)
  have log1: "cl_log s1 = [Connected 0, Opened 0 1, Qos_set 1 1 False]" unfolding s1_def by code_simp
  have log3: "cl_log s3 = cl_log s1 @ ext2" "Connected 0 \<notin> set ext2"
    unfolding ext2_def s3_def s2_def s1_def by code_simp+
  have new: "\<not> cl_initialized (new_client 0)" "cl_log s1 = cl_log (new_client 0) @ cl_log s1" "Connected 0 \<in> set (cl_log s1)"
    by (simp_all add: new_client_def log1)
  from failed_initialize_leaks_connection[OF new(1) 1 new(2,3) 2 3 log3] 1 2 3 log3 new(3) show ?thesis by blast
qed

lemma publish_to_stage_ready:
  assumes "ready C s" "cc_topology C = Workflow_Status w" "prepare_workflow_payload C payload (Some stage) = Inr d1"
    and "wt_workflow_publish_routing_key w stage = Inr key" "prepare_workflow_payload C (Mapping d1) None = Inr d"
    and "validate_workflow_contract C d = Inr ()" "validate_workflow_priority C d = Inr ()" "workflow_message C d headers = Inr msg"
  shows "client_publish_to_stage B C payload stage headers s = send_message B (wt_workflow_exchange w) key msg s"
proof -
  have "ensure_ready B C s = (Inr (), s)" using assms(1) by (simp add: ready_def ensure_ready_def io_bind_def io_get_def io_return_def)
  moreover have "cl_workflow_exchange s = Some (wt_workflow_exchange w)" using ready_fields(4)[OF assms(1)] assms(2) by (simp add: exchanges_of_def)
  ultimately show ?thesis using assms(2-)
    by (simp add: client_publish_to_stage_def client_publish_workflow_message_def io_bind_def io_lift_def io_get_def)
qed

lemma counting_map: "\<exists>ys t. io_map (declare_one (counting_broker n) ch) cs s = (Inr ys, t)"
proof (induction cs arbitrary: s)
  case (Cons c cs)
  have "\<exists>t. declare_one (counting_broker n) ch c s = (Inr (), t)"
    by (simp add: declare_one_def on_broker_def counting_broker_def)
  then obtain u where "declare_one (counting_broker n) ch c s = (Inr (), u)" by blast
  moreover obtain ys t where "io_map (declare_one (counting_broker n) ch) cs u = (Inr ys, t)" using Cons by blast
  ultimately show ?case by (simp add: io_bind_def io_return_def)
qed (simp add: io_return_def)

lemma counting_declare_on: "\<exists>t. declare_on (counting_broker n) ch m s = (snd m, t)"
proof -
  obtain ys t where "io_map (declare_one (counting_broker n) ch) (fst m) s = (Inr ys, t)" using counting_map by blast
  then show ?thesis by (simp add: declare_on_def io_bind_def io_lift_def)
qed

lemma counting_initialize:
  assumes "snd (tp_declare_queues (cc_topology C) (fst (exchanges_of (cc_topology C))) (snd (exchanges_of (cc_topology C)))) = Inr ()"
    and "\<not> cl_initialized s"
  obtains t where "initialize (counting_broker 0) C s = (Inr (), t)"
proof -
  let ?B = "counting_broker 0"
  obtain h s1 where 1: "connect ?B (tp_connection_string (cc_topology C) (Some (cc_connection_name C))) s = (Inr h, s1)"
    by (simp add: connect_def on_broker_def counting_broker_def)
  obtain ch s2 where 2: "open_channel ?B h (s1\<lparr>cl_connection := Some h\<rparr>) = (Inr ch, s2)"
    by (simp add: open_channel_def on_broker_def counting_broker_def)
  obtain s3 where 3: "set_qos ?B ch (tp_prefetch_count (cc_topology C)) (s2\<lparr>cl_channel := Some ch\<rparr>) = (Inr (), s3)"
    by (simp add: set_qos_def on_broker_def counting_broker_def)
  obtain s4 where 4: "declare_on ?B ch (tp_declare_exchanges (cc_topology C)) s3 = (Inr (exchanges_of (cc_topology C)), s4)"
    using counting_declare_on[of 0 ch "tp_declare_exchanges (cc_topology C)" s3] by (auto simp: declared_exchanges)
  obtain tasks status where ex: "exchanges_of (cc_topology C) = (tasks, status)" by (rule prod.exhaust)
  have 5: "\<exists>t. declare_on ?B ch (tp_declare_queues (cc_topology C) tasks status) u = (Inr (), t)" for u
    using counting_declare_on[of 0 ch "tp_declare_queues (cc_topology C) tasks status" u] assms(1) ex by simp
  have "\<exists>t. initialize ?B C s = (Inr (), t)"
    using assms(2) 1 2 3 4 ex 5 by (auto simp: initialize_def io_bind_def io_get_def io_modify_def split: prod.splits sum.splits)
       (metis (no_types, lifting) Inr_not_Inl prod.inject)+
  then show ?thesis using that by blast
qed

abbreviation sample_stage_message :: dict where
  "sample_stage_message \<equiv> [(''task_id'', PStr ''t''), (''action'', PStr ''draft''), (''payload'', PDict [(''outline'', PStr ''o'')])]"

theorem published_stage_message_accepted_witness:
  "\<exists>s t ext msg. client_publish_to_stage (counting_broker 0) stage_client (Mapping sample_stage_message) ''write'' [] s = (Inr (), t) \<and>
     cl_log t = cl_log s @ ext \<and> sents ext = [Sent ''wf'' ''write.in'' msg True]"
proof -
  let ?B = "counting_broker 0"
  let ?m = "client_publish_to_stage ?B stage_client (Mapping sample_stage_message) ''write'' []"
  have "snd (tp_declare_queues (cc_topology stage_client) (fst (exchanges_of (cc_topology stage_client))) (snd (exchanges_of (cc_topology stage_client)))) = Inr ()"
    by code_simp
  moreover have new: "\<not> cl_initialized (new_client (0::nat))" by (simp add: new_client_def)
  ultimately obtain s where init: "initialize ?B stage_client (new_client 0) = (Inr (), s)" by (rule counting_initialize)
  from initialize_ready(1)[OF init new] have ready: "ready stage_client s" by (simp add: ready_def)
  have r: "client_reach ?B stage_client s"
    by (rule reach_op[where op = Op_initialize, OF reach_new]) (unfold run_op.simps, rule init)
  define d1 where "d1 = [(''task_id'', PStr ''t''), (''message_id'', PStr []), (''stage'', PStr ''write''),
      (''payload'', PDict [(''outline'', PStr ''o'')]), (''action'', PStr ''draft''), (''correlation_id'', PStr ''t'')]"
  have t: "cc_topology stage_client = Workflow_Status sample_workflow" by (simp add: sample_client_def)
  have k: "wt_workflow_publish_routing_key sample_workflow ''write'' = Inr ''write.in''" by code_simp
  have p1: "prepare_workflow_payload stage_client (Mapping sample_stage_message) (Some ''write'') = Inr d1" unfolding d1_def by code_simp
  have p2: "prepare_workflow_payload stage_client (Mapping d1) None = Inr d1" unfolding d1_def by code_simp
  have v: "validate_workflow_contract stage_client d1 = Inr ()" "validate_workflow_priority stage_client d1 = Inr ()"
    unfolding d1_def by code_simp+
  obtain msg where m: "workflow_message stage_client d1 [] = Inr msg"
    by (simp add: workflow_message_def persistent_message_def sample_client_def)
  have "fst (?m s) = Inr ()" unfolding publish_to_stage_ready[OF ready t p1 k p2 v m]
    by (simp add: send_message_def on_broker_def counting_broker_def)
  then have run: "?m s = (Inr (), snd (?m s))" by (rule io_run)
  have st: "strip ''write'' = ''write''" "''write'' \<noteq> []" by code_simp+
  have a: "\<forall>p \<in> set (alias_map (cc_alias_config stage_client) Payload). fst p \<noteq> ''stage'' \<and> snd p \<noteq> ''stage''" by code_simp
  have e: "wt_workflow_exchange sample_workflow = ''wf''" by (simp add: sample_workflow_def)
  obtain ext msg where "cl_log (snd (?m s)) = cl_log s @ ext" "sents ext = [Sent ''wf'' ''write.in'' msg True]"
    using published_stage_message_accepted[OF r t run st sample_keeps_stage a] k e by auto
  then show ?thesis using run by blast
qed

end
