(* ===== verification/Rabbit_Publish.thy ===== *)
theory Rabbit_Publish
  imports Rabbit_Client Bounded_Async
begin

text \<open>
  \<^verbatim>\<open>publish_tasks\<close> of \<^verbatim>\<open>rabbitmq/client.py\<close> in individual mode: the client of \<open>Rabbit_Client\<close> under
  the schedules of \<^verbatim>\<open>map_bounded\<close> of \<open>Bounded_Async\<close>.
\<close>

subsection \<open>The calls under a schedule\<close>

text \<open>
  The tasks are published under the bounded schedule: a worker's call for a task runs when it ends
  (\<open>pt_run\<close>), every other step is one of \<^verbatim>\<open>map_bounded\<close> itself.
\<close>

inductive pt_step :: "'w amqp \<Rightarrow> client_config \<Rightarrow> dict list \<Rightarrow> unit mb_state \<times> 'w client \<Rightarrow> unit mb_state \<times> 'w client \<Rightarrow> bool"
  for B :: "'w amqp" and C :: client_config and items :: "dict list" where
  pt_run: "k < length (mb_workers s) \<Longrightarrow> mb_workers s ! k = Awaiting i \<Longrightarrow>
    publish_prepared_task_item B C (items ! i) c = (r, d) \<Longrightarrow>
    t = (case r of
       Inr v \<Rightarrow> s\<lparr>mb_results := (mb_results s)[i := Some v], mb_workers := (mb_workers s)[k := At_head]\<rparr>
     | Inl e \<Rightarrow> s\<lparr>mb_workers := (mb_workers s)[k := Failed (Other_Error e)]\<rparr>) \<Longrightarrow>
    pt_step B C items (s, c) (t, d)"
| pt_schedule: "mb_step (\<lambda>_ _. False) items s t \<or> mb_cancelled s t \<Longrightarrow> pt_step B C items (s, c) (t, c)"

inductive pt_reach :: "'w amqp \<Rightarrow> client_config \<Rightarrow> dict list \<Rightarrow> int \<Rightarrow> 'w client \<Rightarrow> unit mb_state \<times> 'w client \<Rightarrow> bool"
  for B :: "'w amqp" and C :: client_config and items :: "dict list" and concurrency :: int and c :: "'w client" where
  pt_start: "pt_reach B C items concurrency c (map_bounded items concurrency, c)"
| pt_next: "pt_reach B C items concurrency c x \<Longrightarrow> pt_step B C items x y \<Longrightarrow> pt_reach B C items concurrency c y"

subsection \<open>Each task is sent once\<close>

text \<open>The message of a prepared task, when it may be sent.\<close>

definition task_event :: "client_config \<Rightarrow> dict \<Rightarrow> client_event option" where
  "task_event C d =
     (case (tp_task_routing_key (cc_topology C) d, task_message C d []) of
        (Inr key, Inr msg) \<Rightarrow> Some (Sent (fst (exchanges_of (cc_topology C))) key msg True)
      | _ \<Rightarrow> None)"

lemma item_returns:
  assumes "client_ok C c" "publish_prepared_task_item B C d c = (Inr u, c')"
  obtains ext e where "cl_log c' = cl_log c @ ext" "client_ok C c'" "sents ext = [e]" "task_event C d = Some e"
proof -
  from publish_item_sends[of C B d] assms obtain ext where ext: "cl_log c' = cl_log c @ ext" "client_ok C c'"
    "\<exists>ex key msg. task_allowed C d [] ex key msg \<and> sents ext = [Sent ex key msg True]"
    unfolding sends_def by fastforce
  then show ?thesis using that by (auto simp: task_allowed_def task_event_def)
qed

lemma item_keeps:
  assumes "client_ok C c" "publish_prepared_task_item B C d c = (r, c')"
  obtains ext where "cl_log c' = cl_log c @ ext" "client_ok C c'"
  using publish_item_sends[of C B d] assms unfolding sends_def by blast

definition done_set :: "unit mb_state \<Rightarrow> nat set" where
  "done_set s = {i. i < length (mb_results s) \<and> mb_results s ! i \<noteq> None}"

definition awaits :: "mb_worker list \<Rightarrow> nat \<Rightarrow> unit option list \<Rightarrow> bool" where
  "awaits ws n rs \<longleftrightarrow> (\<forall>j i. j < length ws \<longrightarrow> ws ! j = Awaiting i \<longrightarrow>
     i < n \<and> rs ! i = None \<and> (\<forall>k < length ws. ws ! k = Awaiting i \<longrightarrow> k = j))"

definition pt_shape :: "'a list \<Rightarrow> unit mb_state \<Rightarrow> bool" where
  "pt_shape items s \<longleftrightarrow> awaits (mb_workers s) (mb_next s) (mb_results s) \<and> mb_next s \<le> length items \<and>
     (if mb_workers s = [] then mb_results s = [] \<and> mb_next s = 0 else length (mb_results s) = length items) \<and>
     (\<forall>i < length (mb_results s). mb_next s \<le> i \<longrightarrow> mb_results s ! i = None) \<and>
     (\<forall>rs. mb_main s = Returned rs \<longrightarrow> (\<forall>w \<in> set (mb_workers s). w = Ended))"

definition pt_log :: "client_config \<Rightarrow> dict list \<Rightarrow> 'w client \<Rightarrow> unit mb_state \<Rightarrow> 'w client \<Rightarrow> bool" where
  "pt_log C items c s d \<longleftrightarrow> client_ok C d \<and> (\<exists>ext. cl_log d = cl_log c @ ext \<and>
     ((\<exists>e. Failed e \<in> set (mb_workers s)) \<or>
      mset (map Some (sents ext)) = image_mset (\<lambda>i. task_event C (items ! i)) (mset_set (done_set s))))"

lemma mb_step_mono: "mb_step V items s t \<Longrightarrow> (\<And>x r. V x r \<Longrightarrow> W x r) \<Longrightarrow> mb_step W items s t"
proof (induction rule: mb_step.induct)
  case (mb_take k s)
  then show ?case using mb_step.mb_take by blast
qed (auto intro: mb_step.intros)

lemma awaiting_update:
  "j < length ws \<Longrightarrow> ws[k := w] ! j = Awaiting i \<Longrightarrow> w \<noteq> Awaiting i \<Longrightarrow> ws ! j = Awaiting i \<and> j \<noteq> k"
  by (metis nth_list_update_eq nth_list_update_neq)

lemma awaitsD:
  assumes "awaits ws n rs" "j < length ws" "ws ! j = Awaiting i"
  shows "i < n" "rs ! i = None" "k < length ws \<Longrightarrow> ws ! k = Awaiting i \<Longrightarrow> k = j"
  using assms unfolding awaits_def by blast+

lemma awaitsI:
  assumes "\<And>j i. j < length ws \<Longrightarrow> ws ! j = Awaiting i \<Longrightarrow> i < n \<and> rs ! i = None"
    and "\<And>j k i. j < length ws \<Longrightarrow> ws ! j = Awaiting i \<Longrightarrow> k < length ws \<Longrightarrow> ws ! k = Awaiting i \<Longrightarrow> k = j"
  shows "awaits ws n rs"
  using assms unfolding awaits_def by blast

lemma awaits_update:
  assumes a: "awaits ws n rs" and w: "\<And>i. w \<noteq> Awaiting i"
  shows "awaits (ws[k := w]) n rs"
proof (rule awaitsI; simp only: length_list_update)
  fix j i assume "j < length ws" "ws[k := w] ! j = Awaiting i"
  then show "i < n \<and> rs ! i = None" using awaiting_update w awaitsD[OF a] by metis
next
  fix j l i assume "j < length ws" "ws[k := w] ! j = Awaiting i" "l < length ws" "ws[k := w] ! l = Awaiting i"
  then show "l = j" using awaiting_update w awaitsD[OF a] by metis
qed

lemma awaits_take:
  assumes a: "awaits ws n rs" and n: "rs ! n = None"
  shows "awaits (ws[k := Awaiting n]) (Suc n) rs"
proof (rule awaitsI; simp only: length_list_update)
  fix j i assume "j < length ws" "ws[k := Awaiting n] ! j = Awaiting i"
  then show "i < Suc n \<and> rs ! i = None" using awaiting_update[of j ws k "Awaiting n" i] awaitsD[OF a] n less_Suc_eq by blast
next
  fix j l i assume j: "j < length ws" "ws[k := Awaiting n] ! j = Awaiting i" and l: "l < length ws" "ws[k := Awaiting n] ! l = Awaiting i"
  show "l = j"
  proof (cases "i = n")
    case True
    then have "m = k" if "m < length ws" "ws[k := Awaiting n] ! m = Awaiting i" for m
      using that awaitsD(1)[OF a, of m n] by (cases "m = k") auto
    then show ?thesis using j l by blast
  next
    case False
    then show ?thesis using j l awaiting_update[of _ ws k "Awaiting n" i] awaitsD(3)[OF a] by blast
  qed
qed

lemma awaits_return:
  assumes a: "awaits ws n rs" and k: "k < length ws" "ws ! k = Awaiting i"
  shows "awaits (ws[k := At_head]) n (rs[i := Some v])"
proof (rule awaitsI; simp only: length_list_update)
  fix j i' assume j: "j < length ws" "ws[k := At_head] ! j = Awaiting i'"
  then have "ws ! j = Awaiting i'" "j \<noteq> k" using awaiting_update[of j ws k At_head i'] by auto
  moreover from this have "i' \<noteq> i" using awaitsD(3)[OF a k j(1)] by blast
  ultimately show "i' < n \<and> rs[i := Some v] ! i' = None" using awaitsD[OF a j(1)] by simp
next
  fix j l i' assume "j < length ws" "ws[k := At_head] ! j = Awaiting i'" "l < length ws" "ws[k := At_head] ! l = Awaiting i'"
  then show "l = j" using awaiting_update[of _ ws k At_head i'] awaitsD(3)[OF a] by blast
qed

lemma pt_shape_start: "pt_shape items (map_bounded items n)"
  by (auto simp: pt_shape_def awaits_def map_bounded_def)

lemma pt_shape_step:
  assumes "mb_step W items s t" and p: "pt_shape items s"
  shows "pt_shape items t"
  using assms(1)
proof (cases rule: mb_step.cases)
  case (mb_take k)
  then have "mb_results s ! mb_next s = None" using p by (auto simp: pt_shape_def split: if_splits)
  then have "awaits ((mb_workers s)[k := Awaiting (mb_next s)]) (Suc (mb_next s)) (mb_results s)"
    using p by (intro awaits_take) (auto simp: pt_shape_def)
  moreover have "At_head \<in> set (mb_workers s)" using mb_take by (metis nth_mem)
  ultimately show ?thesis using p mb_take by (auto simp: pt_shape_def split: if_splits)
next
  case (mb_exit k)
  moreover have "At_head \<in> set (mb_workers s)" using mb_exit by (metis nth_mem)
  ultimately show ?thesis using p by (auto simp: pt_shape_def intro!: awaits_update split: if_splits)
next
  case (mb_return k i v)
  moreover have "Awaiting i \<in> set (mb_workers s)" using mb_return by (metis nth_mem)
  moreover have "i < mb_next s" using mb_return p by (auto simp: pt_shape_def dest: awaitsD)
  ultimately show ?thesis using p by (auto simp: pt_shape_def nth_list_update intro!: awaits_return split: if_splits)
next
  case (mb_raise k i e)
  moreover have "Awaiting i \<in> set (mb_workers s)" using mb_raise by (metis nth_mem)
  ultimately show ?thesis using p by (auto simp: pt_shape_def intro!: awaits_update split: if_splits)
next
  case (mb_cancel_task e k)
  then show ?thesis using p by (auto simp: pt_shape_def intro!: awaits_update split: if_splits)
qed (use p in \<open>auto simp: pt_shape_def\<close>)

lemma failed_stays:
  "Failed e \<in> set ws \<Longrightarrow> ws ! k \<noteq> Failed e \<Longrightarrow> Failed e \<in> set (ws[k := w])"
  by (rule mem_update_other)

lemma schedule_step:
  assumes "mb_step (\<lambda>_ _. False) items s t"
  shows "done_set t = done_set s \<and> (\<forall>e. Failed e \<in> set (mb_workers s) \<longrightarrow> Failed e \<in> set (mb_workers t))"
  using assms
proof (cases rule: mb_step.cases)
  case (mb_cancel_task e k)
  have "\<not> mb_over (mb_workers s ! k) \<Longrightarrow> mb_workers s ! k \<noteq> Failed e'" for e' by (cases "mb_workers s ! k") auto
  then show ?thesis using mb_cancel_task by (auto simp: done_set_def intro: failed_stays)
qed (auto simp: done_set_def intro: failed_stays)

definition pt_inv :: "client_config \<Rightarrow> dict list \<Rightarrow> int \<Rightarrow> 'w client \<Rightarrow> unit mb_state \<times> 'w client \<Rightarrow> bool" where
  "pt_inv C items n c x \<longleftrightarrow> pt_shape items (fst x) \<and> pt_log C items c (fst x) (snd x) \<and>
     mb_reach (\<lambda>_ _. True) items n (fst x)"

lemma pt_log_run:
  assumes p: "pt_shape items s" and l: "pt_log C items c s d" and k: "k < length (mb_workers s)" "mb_workers s ! k = Awaiting i"
    and run: "publish_prepared_task_item B C (items ! i) d = (Inr v, d')"
  shows "pt_log C items c (s\<lparr>mb_results := (mb_results s)[i := Some v], mb_workers := (mb_workers s)[k := At_head]\<rparr>) d'"
proof -
  obtain ext where ext: "cl_log d = cl_log c @ ext" "(\<exists>e. Failed e \<in> set (mb_workers s)) \<or>
      mset (map Some (sents ext)) = image_mset (\<lambda>i. task_event C (items ! i)) (mset_set (done_set s))" and ok: "client_ok C d"
    using l unfolding pt_log_def by blast
  obtain b e where b: "cl_log d' = cl_log d @ b" "client_ok C d'" "sents b = [e]" "task_event C (items ! i) = Some e"
    using item_returns[OF ok run] .
  have aw: "i < mb_next s" "mb_results s ! i = None" using awaitsD[of "mb_workers s" "mb_next s" "mb_results s", OF _ k] p
    by (auto simp: pt_shape_def)
  have len: "i < length (mb_results s)" using aw p k by (auto simp: pt_shape_def split: if_splits)
  let ?t = "s\<lparr>mb_results := (mb_results s)[i := Some v], mb_workers := (mb_workers s)[k := At_head]\<rparr>"
  have ds: "done_set ?t = insert i (done_set s)" "i \<notin> done_set s"
    using aw len by (auto simp: done_set_def nth_list_update)
  have fin: "finite (done_set s)" by (simp add: done_set_def)
  have "(\<exists>e. Failed e \<in> set (mb_workers ?t)) \<or>
      mset (map Some (sents (ext @ b))) = image_mset (\<lambda>i. task_event C (items ! i)) (mset_set (done_set ?t))"
    using ext(2)
  proof
    assume "\<exists>e. Failed e \<in> set (mb_workers s)"
    then obtain f where "Failed f \<in> set (mb_workers s)" by blast
    then have "Failed f \<in> set ((mb_workers s)[k := At_head])" by (rule failed_stays) (simp add: k)
    then show ?thesis by auto
  next
    assume "mset (map Some (sents ext)) = image_mset (\<lambda>i. task_event C (items ! i)) (mset_set (done_set s))"
    then show ?thesis using b ds fin by simp
  qed
  then show ?thesis unfolding pt_log_def using ext(1) b(1,2) by (metis append.assoc)
qed

lemma pt_log_raise:
  assumes l: "pt_log C items c s d" and k: "k < length (mb_workers s)"
    and run: "publish_prepared_task_item B C x d = (Inl e, d')"
  shows "pt_log C items c (s\<lparr>mb_workers := (mb_workers s)[k := Failed f]\<rparr>) d'"
proof -
  obtain ext where ext: "cl_log d = cl_log c @ ext" and ok: "client_ok C d" using l unfolding pt_log_def by blast
  obtain b where "cl_log d' = cl_log d @ b" "client_ok C d'" using item_keeps[OF ok run] .
  moreover have "Failed f \<in> set ((mb_workers s)[k := Failed f])" using k by (simp add: set_update_memI)
  ultimately show ?thesis using ext unfolding pt_log_def by (metis append.assoc mb_state.select_convs(3) mb_state.surjective mb_state.update_convs(3))
qed

lemma pt_step_inv:
  assumes "pt_step B C items x y" "pt_inv C items n c x"
  shows "pt_inv C items n c y"
  using assms
proof (induction rule: pt_step.induct)
  case (pt_run k s i d r d' t)
  have p: "pt_shape items s" and l: "pt_log C items c s d" and m: "mb_reach (\<lambda>_ _. True) items n s"
    using pt_run.prems by (simp_all add: pt_inv_def)
  show ?case
  proof (cases r)
    case (Inr v)
    then have step: "mb_step (\<lambda>_ _. True) items s t" using pt_run by (auto intro: mb_step.mb_return)
    then show ?thesis unfolding pt_inv_def
      using pt_shape_step[OF step p] mb_next_state[OF m] pt_log_run[OF p l pt_run(1,2)] pt_run(3,4) Inr by simp
  next
    case (Inl e)
    then have step: "mb_step (\<lambda>_ _. True) items s t" using pt_run by (auto intro: mb_step.mb_raise)
    then show ?thesis unfolding pt_inv_def
      using pt_shape_step[OF step p] mb_next_state[OF m] pt_log_raise[OF l pt_run(1)] pt_run(3,4) Inl by simp
  qed
next
  case (pt_schedule s t d)
  have p: "pt_shape items s" and l: "pt_log C items c s d" and m: "mb_reach (\<lambda>_ _. True) items n s"
    using pt_schedule.prems by (simp_all add: pt_inv_def)
  show ?case
    using pt_schedule.hyps
  proof
    assume step: "mb_step (\<lambda>_ _. False) items s t"
    have "mb_step (\<lambda>_ _. True) items s t" by (rule mb_step_mono[OF step]) simp
    moreover have "pt_log C items c t d" using l schedule_step[OF step] unfolding pt_log_def by (simp, blast)
    ultimately show ?thesis unfolding pt_inv_def using pt_shape_step[OF step p] mb_next_state[OF m] by simp
  next
    assume can: "mb_cancelled s t"
    then have "mb_workers t = mb_workers s" "mb_results t = mb_results s" "mb_next t = mb_next s" "\<forall>rs. mb_main t \<noteq> Returned rs"
      by (auto elim!: mb_cancelled.cases)
    then show ?thesis unfolding pt_inv_def using p l mb_next_state[OF m] can
      by (auto simp: pt_shape_def pt_log_def done_set_def)
  qed
qed

lemma pt_reach_inv: "pt_reach B C items n c x \<Longrightarrow> client_ok C c \<Longrightarrow> pt_inv C items n c x"
proof (induction rule: pt_reach.induct)
  case pt_start
  have "done_set (map_bounded items n) = {}" by (auto simp: done_set_def map_bounded_def)
  then show ?case using pt_start by (simp add: pt_inv_def pt_shape_start mb_start pt_log_def)
next
  case (pt_next x y)
  then show ?case using pt_step_inv by blast
qed

text \<open> C6. RelaynaRabbitClient.publish_tasks in individual mode (rabbitmq/client.py): whatever the schedule of
  the bounded workers and whatever the broker answers, when the call returns every task was
  prepared before the first was sent, and the messages sent are exactly the messages of the
  prepared tasks, one each, all accepted by the broker. \<close>

theorem publish_tasks_sends_each_once:
  assumes "client_reach B C c" and "publish_tasks_plan C tasks Individual batch_id meta = Inr (Each_task items)"
    and "pt_reach B C items concurrency c (s, d)" and "mb_main s = Returned rs"
  shows "list_all2 (\<lambda>task item. prepare_task_payload C task = Inr item) tasks items \<and>
    (\<exists>ext. cl_log d = cl_log c @ ext \<and> mset (map Some (sents ext)) = mset (map (task_event C) items))"
proof
  show "list_all2 (\<lambda>task item. prepare_task_payload C task = Inr item) tasks items"
  proof -
    have "list_all2 (\<lambda>x y. f x = Inr y) xs ys" if "map_res f xs = Inr ys" for f :: "dict \<Rightarrow> task_envelope res" and xs ys
      using that by (induction xs arbitrary: ys) (auto simp: bind_res_def split: sum.splits)
    then show ?thesis using assms(2)
      by (fastforce simp: publish_tasks_plan_def prepare_task_payload_def bind_res_def list_all2_map2 split: sum.splits
          elim: list_all2_mono)
  qed
  have inv: "pt_inv C items concurrency c (s, d)" by (rule pt_reach_inv[OF assms(3) reach_ok[OF assms(1)]])
  then have p: "pt_shape items s" and l: "pt_log C items c s d" and m: "mb_inv (\<lambda>_ _. True) items concurrency s"
    by (simp_all add: pt_inv_def mb_reach_inv)
  have ended: "\<forall>w \<in> set (mb_workers s). w = Ended" using p assms(4) by (simp add: pt_shape_def)
  have nx: "mb_next s = length items" using m assms(4) by (simp add: mb_inv_def)
  have len: "length (mb_results s) = length items" using p nx by (auto simp: pt_shape_def split: if_splits)
  have "mb_results s ! i \<noteq> None" if "i < length items" for i
    using mb_inv_cov[OF m, of i] that nx ended by fastforce
  then have ds: "done_set s = {0..<length items}" using len by (auto simp: done_set_def)
  obtain ext where "cl_log d = cl_log c @ ext"
    "mset (map Some (sents ext)) = image_mset (\<lambda>i. task_event C (items ! i)) (mset_set {0..<length items})"
    using l ended ds unfolding pt_log_def by fastforce
  moreover have "image_mset (\<lambda>i. task_event C (items ! i)) (mset_set {0..<length items}) = mset (map (task_event C) items)"
  proof -
    have "map (\<lambda>i. task_event C (items ! i)) [0..<length items] = map (task_event C) items" by (rule nth_equalityI) auto
    then show ?thesis by (metis mset_map mset_upt)
  qed
  ultimately show "\<exists>ext. cl_log d = cl_log c @ ext \<and> mset (map Some (sents ext)) = mset (map (task_event C) items)" by auto
qed

lemma pt_scheduled: "pt_reach B C items n c (s, d) \<Longrightarrow> mb_step (\<lambda>_ _. False) items s t \<Longrightarrow> pt_reach B C items n c (t, d)"
  by (rule pt_next, assumption, rule pt_schedule, rule disjI1)

lemma pt_run_example:
  assumes "publish_prepared_task_item B C d c = (Inr (), c')"
  shows "pt_reach B C [d] 1 c
     (\<lparr>mb_next = 1, mb_results = [Some ()], mb_workers = [Ended], mb_main = Returned [()], mb_calls = [0]\<rparr>, c')"
proof -
  let ?R = "pt_reach B C [d] 1 c"
  let ?s = "\<lambda>n r w m cs. \<lparr>mb_next = n, mb_results = [r], mb_workers = [w], mb_main = m, mb_calls = cs\<rparr>"
  have "?R (?s 0 None At_head Gathering [], c)"
    using pt_start[of B C "[d]" 1 c] by (simp add: map_bounded_def)
  moreover have "mb_step (\<lambda>_ _. False) [d] (?s 0 None At_head Gathering []) (?s 1 None (Awaiting 0) Gathering [0])"
    using mb_take[of 0 "?s 0 None At_head Gathering []" "[d]" "\<lambda>_ _. False"] by simp
  ultimately have "?R (?s 1 None (Awaiting 0) Gathering [0], c)" by (rule pt_scheduled)
  moreover have "pt_step B C [d] (?s 1 None (Awaiting 0) Gathering [0], c) (?s 1 (Some ()) At_head Gathering [0], c')"
    by (rule pt_run[where k = 0 and i = 0 and r = "Inr ()"]) (simp_all add: assms)
  ultimately have "?R (?s 1 (Some ()) At_head Gathering [0], c')" by (rule pt_next)
  moreover have "mb_step (\<lambda>_ _. False) [d] (?s 1 (Some ()) At_head Gathering [0]) (?s 1 (Some ()) Ended Gathering [0])"
    using mb_exit[of 0 "?s 1 (Some ()) At_head Gathering [0]" "[d]" "\<lambda>_ _. False"] by simp
  ultimately have "?R (?s 1 (Some ()) Ended Gathering [0], c')" by (rule pt_scheduled)
  moreover have "mb_step (\<lambda>_ _. False) [d] (?s 1 (Some ()) Ended Gathering [0]) (?s 1 (Some ()) Ended (Returned [()]) [0])"
    using mb_gather_done[of "?s 1 (Some ()) Ended Gathering [0]" "\<lambda>_ _. False" "[d]"] by simp
  ultimately show ?thesis by (rule pt_scheduled)
qed

theorem publish_tasks_sends_each_once_witness:
  "\<exists>d ext. pt_reach (counting_broker 0) task_client [sample_task] 1 (new_client 0)
       (\<lparr>mb_next = 1, mb_results = [Some ()], mb_workers = [Ended], mb_main = Returned [()], mb_calls = [0]\<rparr>, d) \<and>
     cl_log d = ext \<and> mset (map Some (sents ext)) = {#task_event task_client sample_task#}"
proof -
  let ?m = "publish_prepared_task_item (counting_broker 0) task_client sample_task"
  have "fst (?m (new_client 0)) = Inr ()" by code_simp
  then have "?m (new_client 0) = (Inr (), snd (?m (new_client 0)))" by (rule io_run)
  note reach = pt_run_example[OF this]
  have plan: "publish_tasks_plan task_client [sample_task] Individual None [] = Inr (Each_task [sample_task])" by code_simp
  have "cl_log (new_client (0::nat)) = []" by (simp add: new_client_def)
  then show ?thesis using publish_tasks_sends_each_once[OF reach_new plan reach] reach by auto
qed

end
