(* ===== verification/Consumer_Loop.thy ===== *)
theory Consumer_Loop
  imports Bounded_Async
begin

text \<open>
  The reconnecting loops: \<^verbatim>\<open>run_forever\<close> of the task, aggregation and workflow consumers
  (\<^verbatim>\<open>consumer/task_consumer.py\<close>, \<^verbatim>\<open>consumer/workflow_consumer.py\<close>), of the status hub (\<^verbatim>\<open>status/hub.py\<close>)
  and of the lease scanner (\<^verbatim>\<open>storage/task_lease_store.py\<close>).  The calls they await are arguments: the
  client's, asyncio's sleep, and consuming the queue, which handles the messages as the
  consumer theories say.  A call may do anything to the world and may raise, the three kinds of
  exception being told apart as the code does.  The local variables of the loop are the record
  \<open>loop_vars\<close>, which also keeps the log of the calls, and a turn of the loop is one function; the
  laws every turn obeys are the locale \<open>reconnecting_loop\<close>, and what follows for the loop is proved there once.
\<close>

subsection \<open>Calls, exceptions and variables\<close>

type_synonym ('s, 'a) aio = "'s \<Rightarrow> (async_exc + 'a) \<times> 's"

definition a_return :: "'a \<Rightarrow> ('s, 'a) aio" where
  "a_return x s = (Inr x, s)"

definition a_bind :: "('s, 'a) aio \<Rightarrow> ('a \<Rightarrow> ('s, 'b) aio) \<Rightarrow> ('s, 'b) aio" where
  "a_bind m f s = (case m s of (Inl e, t) \<Rightarrow> (Inl e, t) | (Inr x, t) \<Rightarrow> f x t)"

definition a_get :: "('s \<Rightarrow> 'a) \<Rightarrow> ('s, 'a) aio" where
  "a_get f s = (Inr (f s), s)"

definition a_set :: "('s \<Rightarrow> 's) \<Rightarrow> ('s, unit) aio" where
  "a_set f s = (Inr (), f s)"

datatype loop_event =
    Opened nat
  | Prefetch_failed nat
  | Closed nat
  | Consuming nat string bool
  | Observed string
  | Slept bool

record 'w loop_vars =
  lv_queue_name :: "string option"
  lv_retry :: bool
  lv_started :: bool
  lv_channel :: "nat option"
  lv_world :: 'w
  lv_log :: "loop_event list"

text \<open>
  \<open>lp_ensure_queue\<close> and \<open>lp_ensure_retry\<close> declare through the client; \<open>lp_has_retry\<close> says whether a retry policy
  is set; \<open>lp_open\<close> makes the client ready and opens a channel, \<open>lp_set_qos\<close> sets its prefetch; \<open>lp_subscribe\<close> enters the queue's iterator and \<open>lp_consume\<close> runs it with the message handler; \<open>lp_sleep\<close> of True is the
  idle delay, of False a bare yield.
\<close>

record 'w loop_calls =
  lp_ensure_queue :: "string option \<Rightarrow> ('w, string) aio"
  lp_has_retry :: bool
  lp_ensure_retry :: "string \<Rightarrow> ('w, unit) aio"
  lp_open :: "('w, nat) aio"
  lp_set_qos :: "nat \<Rightarrow> ('w, unit) aio"
  lp_declare :: "nat \<Rightarrow> string \<Rightarrow> ('w, unit) aio"
  lp_subscribe :: "nat \<Rightarrow> string \<Rightarrow> ('w, unit) aio"
  lp_consume :: "nat \<Rightarrow> string \<Rightarrow> bool \<Rightarrow> ('w, unit) aio"
  lp_observe :: "string \<Rightarrow> ('w, unit) aio"
  lp_sleep :: "bool \<Rightarrow> ('w, unit) aio"
  lp_close :: "nat \<Rightarrow> ('w, unit) aio"
  lp_stop :: "'w \<Rightarrow> bool"

definition awaiting :: "('a \<Rightarrow> loop_event list) \<Rightarrow> loop_event list \<Rightarrow> ('w, 'a) aio \<Rightarrow> ('w loop_vars, 'a) aio" where
  "awaiting returned raised m s =
     (case m (lv_world s) of
        (Inr x, w) \<Rightarrow> (Inr x, s\<lparr>lv_world := w, lv_log := lv_log s @ returned x\<rparr>)
      | (Inl e, w) \<Rightarrow> (Inl e, s\<lparr>lv_world := w, lv_log := lv_log s @ raised\<rparr>))"

definition quiet_call :: "('w, 'a) aio \<Rightarrow> ('w loop_vars, 'a) aio" where
  "quiet_call m = awaiting (\<lambda>_. []) [] m"

text \<open>\<^verbatim>\<open>emit_observation\<close>: an exception of the sink is dropped, a cancellation is not.\<close>

definition observe :: "'w loop_calls \<Rightarrow> string \<Rightarrow> ('w loop_vars, unit) aio" where
  "observe P name s =
     (case awaiting (\<lambda>_. [Observed name]) [Observed name] (lp_observe P name) s of
        (Inl Cancelled_Error, t) \<Rightarrow> (Inl Cancelled_Error, t) | (_, t) \<Rightarrow> (Inr (), t))"

text \<open>\<^verbatim>\<open>finally: if channel is not None: try: await channel.close() except Exception: pass\<close>\<close>

definition finally_close :: "'w loop_calls \<Rightarrow> ('w loop_vars, 'a) aio \<Rightarrow> ('w loop_vars, 'a) aio" where
  "finally_close P m s =
     (case m s of (r, t) \<Rightarrow>
       (case lv_channel t of
          None \<Rightarrow> (r, t)
        | Some ch \<Rightarrow>
            (case awaiting (\<lambda>_. [Closed ch]) [Closed ch] (lp_close P ch) t of
               (Inl Cancelled_Error, u) \<Rightarrow> (Inl Cancelled_Error, u) | (_, u) \<Rightarrow> (r, u))))"

datatype turn_end = Go_on | Loop_returned

text \<open>The handlers of a turn that ended in \<open>e\<close>; \<open>on_error\<close> reports the error.\<close>

definition after_exception :: "'w loop_calls \<Rightarrow> ('w loop_vars, unit) aio \<Rightarrow> async_exc \<Rightarrow> ('w loop_vars, turn_end) aio" where
  "after_exception P on_error e s =
     (case e of
        Cancelled_Error \<Rightarrow> (Inl Cancelled_Error, s)
      | Timeout_Error \<Rightarrow>
          if lp_stop P (lv_world s) then (Inr Loop_returned, s)
          else a_bind (awaiting (\<lambda>_. [Slept False]) [Slept False] (lp_sleep P False)) (\<lambda>_. a_return Go_on) s
      | Other_Error _ \<Rightarrow>
          if lp_stop P (lv_world s) then (Inr Loop_returned, s)
          else a_bind on_error (\<lambda>_. a_bind (awaiting (\<lambda>_. [Slept True]) [Slept True] (lp_sleep P True)) (\<lambda>_. a_return Go_on)) s)"

text \<open>A turn of the loop: the body, the handlers of its exceptions and the closing of the channel.\<close>

definition turn_of :: "'w loop_calls \<Rightarrow> ('w loop_vars, unit) aio \<Rightarrow> (async_exc \<Rightarrow> ('w loop_vars, turn_end) aio) \<Rightarrow> ('w loop_vars, turn_end) aio" where
  "turn_of P body handler s =
     finally_close P (\<lambda>s. case body s of (Inr _, t) \<Rightarrow> (Inr Go_on, t) | (Inl e, t) \<Rightarrow> handler e t) (s\<lparr>lv_channel := None\<rparr>)"

definition loop_turn :: "'w loop_calls \<Rightarrow> ('w loop_vars, unit) aio \<Rightarrow> ('w loop_vars, unit) aio \<Rightarrow> ('w loop_vars, turn_end) aio" where
  "loop_turn P on_error body = turn_of P body (after_exception P on_error)"

subsection \<open>The turns of the consumers\<close>

definition ensure_retry_once :: "'w loop_calls \<Rightarrow> string \<Rightarrow> ('w loop_vars, unit) aio" where
  "ensure_retry_once P queue_name =
     a_bind (a_get lv_retry) (\<lambda>declared.
     if \<not> declared \<and> lp_has_retry P
     then a_bind (quiet_call (lp_ensure_retry P queue_name)) (\<lambda>_. a_set (\<lambda>s. s\<lparr>lv_retry := True\<rparr>))
     else a_return ())"

text \<open>
  \<^verbatim>\<open>acquire_channel\<close> of the client: a channel is opened and then its prefetch is set.  When that raises,
  the channel stays open and the loop does not get it.
\<close>

definition loop_acquire_channel :: "'w loop_calls \<Rightarrow> ('w loop_vars, nat) aio" where
  "loop_acquire_channel P =
     a_bind (awaiting (\<lambda>ch. [Opened ch]) [] (lp_open P)) (\<lambda>ch.
     a_bind (awaiting (\<lambda>_. []) [Prefetch_failed ch] (lp_set_qos P ch)) (\<lambda>_. a_return ch))"

definition on_channel :: "'w loop_calls \<Rightarrow> string \<Rightarrow> (nat \<Rightarrow> ('w loop_vars, unit) aio) \<Rightarrow> ('w loop_vars, unit) aio" where
  "on_channel P queue_name consume =
     a_bind (loop_acquire_channel P) (\<lambda>ch.
     a_bind (a_set (\<lambda>s. s\<lparr>lv_channel := Some ch\<rparr>)) (\<lambda>_.
     a_bind (quiet_call (lp_declare P ch queue_name)) (\<lambda>_.
     a_bind (quiet_call (lp_subscribe P ch queue_name)) (\<lambda>_. consume ch))))"

definition consume_on_channel :: "'w loop_calls \<Rightarrow> string \<Rightarrow> ('w loop_vars, unit) aio" where
  "consume_on_channel P queue_name =
     on_channel P queue_name (\<lambda>ch.
       a_bind (a_get lv_retry) (\<lambda>retry.
       a_bind (a_set (\<lambda>s. s\<lparr>lv_log := lv_log s @ [Consuming ch queue_name retry]\<rparr>)) (\<lambda>_.
         quiet_call (lp_consume P ch queue_name retry))))"

definition queue_once :: "'w loop_calls \<Rightarrow> ('w loop_vars, string) aio" where
  "queue_once P =
     a_bind (a_get lv_queue_name) (\<lambda>known. case known of
        Some queue_name \<Rightarrow> a_return queue_name
      | None \<Rightarrow> a_bind (quiet_call (lp_ensure_queue P None)) (\<lambda>queue_name.
          a_bind (a_set (\<lambda>s. s\<lparr>lv_queue_name := Some queue_name\<rparr>)) (\<lambda>_. a_return queue_name)))"

definition announce_start :: "'w loop_calls \<Rightarrow> bool \<Rightarrow> string \<Rightarrow> ('w loop_vars, unit) aio" where
  "announce_start P sink name =
     a_bind (a_get lv_started) (\<lambda>started.
     if started then a_return ()
     else a_bind (if sink then observe P name else a_return ()) (\<lambda>_. a_set (\<lambda>s. s\<lparr>lv_started := True\<rparr>)))"

definition queue_again :: "'w loop_calls \<Rightarrow> ('w loop_vars, string) aio" where
  "queue_again P =
     a_bind (a_get lv_queue_name) (\<lambda>known.
     a_bind (quiet_call (lp_ensure_queue P known)) (\<lambda>queue_name.
     a_bind (a_set (\<lambda>s. s\<lparr>lv_queue_name := Some queue_name\<rparr>)) (\<lambda>_. a_return queue_name)))"

definition consumer_body :: "'w loop_calls \<Rightarrow> ('w loop_vars, string) aio \<Rightarrow> ('w loop_vars, unit) aio \<Rightarrow> ('w loop_vars, unit) aio" where
  "consumer_body P queue started =
     a_bind queue (\<lambda>queue_name.
     a_bind (ensure_retry_once P queue_name) (\<lambda>_.
     a_bind started (\<lambda>_. consume_on_channel P queue_name)))"

definition task_consumer_turn :: "'w loop_calls \<Rightarrow> bool \<Rightarrow> ('w loop_vars, turn_end) aio" where
  "task_consumer_turn P sink =
     loop_turn P (if sink then observe P ''TaskConsumerLoopError'' else a_return ())
       (consumer_body P (queue_once P) (announce_start P sink ''TaskConsumerStarted''))"

definition aggregation_consumer_turn :: "'w loop_calls \<Rightarrow> ('w loop_vars, turn_end) aio" where
  "aggregation_consumer_turn P = loop_turn P (a_return ()) (consumer_body P (queue_again P) (a_return ()))"

definition workflow_consumer_turn :: "'w loop_calls \<Rightarrow> bool \<Rightarrow> ('w loop_vars, turn_end) aio" where
  "workflow_consumer_turn P sink =
     loop_turn P (if sink then observe P ''WorkflowStageFailed'' else a_return ())
       (consumer_body P (queue_once P) (announce_start P sink ''WorkflowStageStarted''))"

subsection \<open>The turn of the status hub\<close>

text \<open>
  The hub declares its queue before the loop; \<open>lv_started\<close> is \<^verbatim>\<open>started_consuming\<close>.  A timeout is an
  exception like any other here, and before the first consumption an exception of the kinds
  \<open>fail_fast\<close> ends the loop with an error.
\<close>

definition hub_consume_arguments :: "dict \<Rightarrow> dict \<Rightarrow> dict" where
  "hub_consume_arguments consume_arguments default_stream_args =
     (if \<not> dict_has consume_arguments ''x-stream-offset'' \<and> dict_has default_stream_args ''x-stream-offset''
      then dict_update consume_arguments default_stream_args else consume_arguments)"

definition hub_setup :: "'w loop_calls \<Rightarrow> bool \<Rightarrow> ('w loop_vars, string) aio" where
  "hub_setup P sink =
     a_bind (quiet_call (lp_ensure_queue P None)) (\<lambda>queue_name.
     a_bind (if sink then observe P ''StatusHubStarted'' else a_return ()) (\<lambda>_. a_return queue_name))"

definition hub_exception :: "'w loop_calls \<Rightarrow> bool \<Rightarrow> (async_exc \<Rightarrow> bool) \<Rightarrow> async_exc \<Rightarrow> ('w loop_vars, turn_end) aio" where
  "hub_exception P sink fail_fast e s =
     (if e = Cancelled_Error then (Inl Cancelled_Error, s)
      else if lp_stop P (lv_world s) then (Inr Loop_returned, s)
      else if \<not> lv_started s \<and> fail_fast e
      then (Inl (Other_Error (RuntimeError ''StatusHub failed to start consuming queue'')), s)
      else a_bind (if sink then observe P ''StatusHubLoopError'' else a_return ()) (\<lambda>_.
           a_bind (awaiting (\<lambda>_. [Slept True]) [Slept True] (lp_sleep P True)) (\<lambda>_. a_return Go_on)) s)"

definition hub_body :: "'w loop_calls \<Rightarrow> string \<Rightarrow> ('w loop_vars, unit) aio" where
  "hub_body P queue_name =
     on_channel P queue_name (\<lambda>ch.
       a_bind (a_set (\<lambda>s. s\<lparr>lv_started := True, lv_log := lv_log s @ [Consuming ch queue_name False]\<rparr>)) (\<lambda>_.
         quiet_call (lp_consume P ch queue_name False)))"

definition hub_turn :: "'w loop_calls \<Rightarrow> bool \<Rightarrow> (async_exc \<Rightarrow> bool) \<Rightarrow> string \<Rightarrow> ('w loop_vars, turn_end) aio" where
  "hub_turn P sink fail_fast queue_name = turn_of P (hub_body P queue_name) (hub_exception P sink fail_fast)"

subsection \<open>The loop\<close>

text \<open>\<^verbatim>\<open>while not self._stop.is_set()\<close>: the states at the head of the loop, and its ends.\<close>

inductive loop_head :: "('w \<Rightarrow> bool) \<Rightarrow> ('w loop_vars, turn_end) aio \<Rightarrow> 'w loop_vars \<Rightarrow> 'w loop_vars \<Rightarrow> bool"
  for stop :: "'w \<Rightarrow> bool" and turn :: "('w loop_vars, turn_end) aio" and s0 :: "'w loop_vars" where
  head_first: "loop_head stop turn s0 s0"
| head_next: "loop_head stop turn s0 s \<Longrightarrow> \<not> stop (lv_world s) \<Longrightarrow> turn s = (Inr Go_on, t) \<Longrightarrow> loop_head stop turn s0 t"

inductive loop_ends :: "('w \<Rightarrow> bool) \<Rightarrow> ('w loop_vars, turn_end) aio \<Rightarrow> 'w loop_vars \<Rightarrow> async_exc option \<Rightarrow> 'w loop_vars \<Rightarrow> bool"
  for stop :: "'w \<Rightarrow> bool" and turn :: "('w loop_vars, turn_end) aio" and s0 :: "'w loop_vars" where
  end_stopped: "loop_head stop turn s0 s \<Longrightarrow> stop (lv_world s) \<Longrightarrow> loop_ends stop turn s0 None s"
| end_returned: "loop_head stop turn s0 s \<Longrightarrow> \<not> stop (lv_world s) \<Longrightarrow> turn s = (Inr Loop_returned, t) \<Longrightarrow> loop_ends stop turn s0 None t"
| end_raised: "loop_head stop turn s0 s \<Longrightarrow> \<not> stop (lv_world s) \<Longrightarrow> turn s = (Inl e, t) \<Longrightarrow> loop_ends stop turn s0 (Some e) t"

subsection \<open>Channels are opened and closed in turn\<close>

text \<open>
  \<open>bracket c es\<close>: starting with the channel \<open>c\<close> in the hands of the loop, the events open one channel at a time, close the
  one the loop has and consume on it; a channel whose prefetch could not be set is lost.  The result is
  the channel the loop has at the end.
\<close>

fun bracket :: "nat option \<Rightarrow> loop_event list \<Rightarrow> nat option option" where
  "bracket c [] = Some c"
| "bracket c (Opened ch # es) = (if c = None then bracket (Some ch) es else None)"
| "bracket c (Prefetch_failed ch # es) = (if c = Some ch then bracket None es else None)"
| "bracket c (Closed ch # es) = (if c = Some ch then bracket None es else None)"
| "bracket c (Consuming ch q b # es) = (if c = Some ch then bracket c es else None)"
| "bracket c (Observed n # es) = bracket c es"
| "bracket c (Slept b # es) = bracket c es"

lemma bracket_append: "bracket c (a @ b) = (case bracket c a of Some d \<Rightarrow> bracket d b | None \<Rightarrow> None)"
  by (induction c a rule: bracket.induct) auto

fun opened_channels :: "loop_event list \<Rightarrow> nat list" where
  "opened_channels [] = []"
| "opened_channels (Opened ch # es) = ch # opened_channels es"
| "opened_channels (_ # es) = opened_channels es"

fun closed_channels :: "loop_event list \<Rightarrow> nat list" where
  "closed_channels [] = []"
| "closed_channels (Closed ch # es) = ch # closed_channels es"
| "closed_channels (_ # es) = closed_channels es"

fun lost_channels :: "loop_event list \<Rightarrow> nat list" where
  "lost_channels [] = []"
| "lost_channels (Prefetch_failed ch # es) = ch # lost_channels es"
| "lost_channels (_ # es) = lost_channels es"

lemma bracket_balance:
  "bracket c es = Some d \<Longrightarrow> mset_set (set_option c) + mset (opened_channels es) =
     mset (closed_channels es) + mset (lost_channels es) + mset_set (set_option d)"
  by (induction c es rule: bracket.induct) (auto split: if_splits)

text \<open>\<open>calm\<close>: a call that leaves the channel and adds no event about channels or consumption.\<close>

definition calm_event :: "loop_event \<Rightarrow> bool" where
  "calm_event e \<longleftrightarrow> (case e of Observed _ \<Rightarrow> True | Slept _ \<Rightarrow> True | _ \<Rightarrow> False)"

definition calm :: "('w loop_vars, 'a) aio \<Rightarrow> bool" where
  "calm m \<longleftrightarrow> (\<forall>s r t. m s = (r, t) \<longrightarrow> lv_channel t = lv_channel s \<and> (lv_retry s \<longrightarrow> lv_retry t) \<and>
     (\<exists>ext. lv_log t = lv_log s @ ext \<and> list_all calm_event ext))"

lemma calm_bracket: "list_all calm_event ext \<Longrightarrow> bracket c ext = Some c"
proof (induction ext)
  case (Cons e ext)
  then show ?case by (cases e) (auto simp: calm_event_def)
qed simp

named_theorems calm_rules \<open>calls that leave the channel\<close>

lemma calm_bind [calm_rules]:
  assumes "calm m" "\<And>x. calm (f x)"
  shows "calm (a_bind m f)"
  unfolding calm_def
proof (intro allI impI)
  fix s r t assume run: "a_bind m f s = (r, t)"
  obtain r1 s1 where 1: "m s = (r1, s1)" by (rule prod.exhaust)
  with assms(1) obtain a where a: "lv_channel s1 = lv_channel s" "lv_retry s \<longrightarrow> lv_retry s1" "lv_log s1 = lv_log s @ a" "list_all calm_event a"
    unfolding calm_def by blast
  show "lv_channel t = lv_channel s \<and> (lv_retry s \<longrightarrow> lv_retry t) \<and> (\<exists>ext. lv_log t = lv_log s @ ext \<and> list_all calm_event ext)"
  proof (cases r1)
    case (Inl e)
    then show ?thesis using run 1 a by (auto simp: a_bind_def)
  next
    case (Inr x)
    then have "f x s1 = (r, t)" using run 1 by (simp add: a_bind_def)
    with assms(2)[of x] obtain b where "lv_channel t = lv_channel s1" "lv_retry s1 \<longrightarrow> lv_retry t" "lv_log t = lv_log s1 @ b" "list_all calm_event b"
      unfolding calm_def by blast
    then show ?thesis using a by (intro conjI exI[of _ "a @ b"]) simp_all
  qed
qed

lemma calm_awaiting: "(\<And>x. list_all calm_event (f x)) \<Longrightarrow> list_all calm_event g \<Longrightarrow> calm (awaiting f g m)"
  by (auto simp: calm_def awaiting_def split: prod.splits sum.splits)

lemma calm_calls [calm_rules]:
  "calm (quiet_call m)" "calm (awaiting (\<lambda>_. [Slept b]) [Slept b] n)" "calm (a_return x)" "calm (a_get g)"
  by (auto simp: quiet_call_def a_return_def a_get_def calm_event_def intro!: calm_awaiting) (auto simp: calm_def a_return_def a_get_def)

lemma calm_set [calm_rules]: "(\<And>s. lv_channel (f s) = lv_channel s \<and> lv_log (f s) = lv_log s \<and> (lv_retry s \<longrightarrow> lv_retry (f s))) \<Longrightarrow> calm (a_set f)"
  by (auto simp: calm_def a_set_def)

lemma calm_observe [calm_rules]: "calm (observe P name)"
proof -
  have "calm (awaiting (\<lambda>_. [Observed name]) [Observed name] (lp_observe P name))"
    by (rule calm_awaiting) (simp_all add: calm_event_def)
  then show ?thesis unfolding calm_def observe_def by (fastforce split: prod.splits sum.splits async_exc.splits)
qed

lemma calm_if [calm_rules]: "calm m \<Longrightarrow> calm n \<Longrightarrow> calm (if b then m else n)"
  by simp

lemma calm_after_exception: "calm on_error \<Longrightarrow> calm (after_exception P on_error e)"
proof -
  assume on: "calm on_error"
  have k: "calm (\<lambda>s. if lp_stop P (lv_world s) then (Inr Loop_returned, s) else m s)" if "calm m" for m
    using that unfolding calm_def by (auto split: if_splits)
  have "calm (\<lambda>s. (Inl Cancelled_Error, s))" by (simp add: calm_def)
  then show ?thesis unfolding after_exception_def
    by (cases e) (auto intro!: k calm_rules on)
qed

text \<open>
  \<open>tracked A J m\<close>: from a state with \<open>J\<close>, which has no channel, the log's bracket is the variable
  \<open>channel\<close>, and every consumption has a flag that \<open>A\<close> allows.
\<close>

definition consumes :: "(bool \<Rightarrow> bool) \<Rightarrow> loop_event list \<Rightarrow> bool" where
  "consumes A ext \<longleftrightarrow> (\<forall>ch q b. Consuming ch q b \<in> set ext \<longrightarrow> A b)"

definition tracked :: "(bool \<Rightarrow> bool) \<Rightarrow> ('w loop_vars \<Rightarrow> bool) \<Rightarrow> ('w loop_vars, 'a) aio \<Rightarrow> bool" where
  "tracked A J m \<longleftrightarrow> (\<forall>s r t. lv_channel s = None \<longrightarrow> J s \<longrightarrow> m s = (r, t) \<longrightarrow>
     (\<exists>ext. lv_log t = lv_log s @ ext \<and> bracket None ext = Some (lv_channel t) \<and> consumes A ext))"

lemma calm_consumes: "list_all calm_event ext \<Longrightarrow> consumes A ext"
  by (auto simp: consumes_def list_all_iff calm_event_def)

lemma consumes_append [simp]: "consumes A (a @ b) \<longleftrightarrow> consumes A a \<and> consumes A b"
  by (auto simp: consumes_def)

lemma tracked_bind:
  assumes "calm m" "\<And>s x t. J s \<Longrightarrow> m s = (Inr x, t) \<Longrightarrow> K t" "\<And>x. tracked A K (f x)"
  shows "tracked A J (a_bind m f)"
  unfolding tracked_def
proof (intro allI impI)
  fix s r t assume none: "lv_channel s = None" and j: "J s" and run: "a_bind m f s = (r, t)"
  obtain r1 s1 where 1: "m s = (r1, s1)" by (rule prod.exhaust)
  with assms(1) obtain a where a: "lv_channel s1 = None" "lv_log s1 = lv_log s @ a" "list_all calm_event a"
    unfolding calm_def using none by metis
  show "\<exists>ext. lv_log t = lv_log s @ ext \<and> bracket None ext = Some (lv_channel t) \<and> consumes A ext"
  proof (cases r1)
    case (Inl e)
    then show ?thesis using run 1 a calm_bracket calm_consumes by (auto simp: a_bind_def)
  next
    case (Inr x)
    then have "f x s1 = (r, t)" "K s1" using run 1 assms(2)[OF j] by (auto simp: a_bind_def)
    with assms(3)[of x] a(1) obtain b where "lv_log t = lv_log s1 @ b" "bracket None b = Some (lv_channel t)" "consumes A b"
      unfolding tracked_def by blast
    then show ?thesis using a calm_bracket[OF a(3)] calm_consumes[OF a(3)]
      by (intro exI[of _ "a @ b"]) (simp add: bracket_append)
  qed
qed

lemma loop_acquire_log:
  assumes "loop_acquire_channel P s = (r, t)"
  obtains ext where "lv_log t = lv_log s @ ext" "lv_channel t = lv_channel s" "lv_retry t = lv_retry s" "consumes A ext"
    "bracket None ext = Some (case r of Inr ch \<Rightarrow> Some ch | Inl _ \<Rightarrow> None)"
  using assms by (auto simp: loop_acquire_channel_def a_bind_def a_return_def awaiting_def consumes_def split: prod.splits sum.splits)

lemma tracked_channel:
  assumes consume: "\<And>ch s r t. lv_channel s = Some ch \<Longrightarrow> J s \<Longrightarrow> f ch s = (r, t) \<Longrightarrow>
      \<exists>b. lv_log t = lv_log s @ [Consuming ch q b] \<and> lv_channel t = Some ch \<and> A b"
    and J: "\<And>s t. J s \<Longrightarrow> (lv_retry s \<longrightarrow> lv_retry t) \<Longrightarrow> J t"
  shows "tracked A J (on_channel P q f)"
  unfolding tracked_def
proof (intro allI impI)
  fix s :: "'a loop_vars" and r t assume none: "lv_channel s = None" and j: "J s" and run: "on_channel P q f s = (r, t)"
  obtain r1 s1 where 1: "loop_acquire_channel P s = (r1, s1)" by (rule prod.exhaust)
  obtain a where l1: "lv_log s1 = lv_log s @ a" "lv_channel s1 = None" "lv_retry s1 = lv_retry s" "consumes A a"
      "bracket None a = Some (case r1 of Inr ch \<Rightarrow> Some ch | Inl _ \<Rightarrow> None)"
    using loop_acquire_log[OF 1, of A thesis] none by simp
  show "\<exists>ext. lv_log t = lv_log s @ ext \<and> bracket None ext = Some (lv_channel t) \<and> consumes A ext"
  proof (cases r1)
    case (Inl e)
    then show ?thesis using run 1 l1 by (simp add: on_channel_def a_bind_def)
  next
    case (Inr ch)
    let ?m = "a_bind (quiet_call (lp_declare P ch q)) (\<lambda>_. quiet_call (lp_subscribe P ch q))"
    obtain r2 s2 where 2: "?m (s1\<lparr>lv_channel := Some ch\<rparr>) = (r2, s2)" by (rule prod.exhaust)
    have "calm ?m" by (intro calm_rules)
    with 2 obtain b where b: "lv_log s2 = lv_log s1 @ b" "list_all calm_event b" "lv_channel s2 = Some ch" "lv_retry s1 \<longrightarrow> lv_retry s2"
      unfolding calm_def by fastforce
    have rest: "on_channel P q f s = (case r2 of Inl e \<Rightarrow> (Inl e, s2) | Inr _ \<Rightarrow> f ch s2)"
      using 1 2 Inr by (auto simp: on_channel_def a_bind_def a_set_def split: prod.splits sum.splits)
    show ?thesis
    proof (cases r2)
      case (Inl e)
      then show ?thesis using run rest l1 b calm_bracket[OF b(2)] calm_consumes[OF b(2), of A] Inr
        by (intro exI[of _ "a @ b"]) (auto simp: bracket_append)
    next
      case ok: (Inr u)
      then have "f ch s2 = (r, t)" "J s2" using run rest J[OF j] l1 b by auto
      from consume[OF b(3) this(2,1)] obtain c where "lv_log t = lv_log s2 @ [Consuming ch q c]" "lv_channel t = Some ch" "A c" by blast
      then show ?thesis using l1 b calm_bracket[OF b(2)] calm_consumes[OF b(2), of A] Inr
        by (intro exI[of _ "a @ b @ [Consuming ch q c]"]) (auto simp: bracket_append consumes_def)
    qed
  qed
qed

lemma quiet_call_frame: "quiet_call m s = (r, t) \<Longrightarrow> lv_log t = lv_log s \<and> lv_channel t = lv_channel s"
  by (auto simp: quiet_call_def awaiting_def split: prod.splits sum.splits)

text \<open>With a retry policy, messages are consumed only once the retry queues are declared.\<close>

definition armed :: "'w loop_calls \<Rightarrow> 'w loop_vars \<Rightarrow> bool" where
  "armed P s \<longleftrightarrow> (lp_has_retry P \<longrightarrow> lv_retry s)"

lemma tracked_consume: "tracked (\<lambda>b. lp_has_retry P \<longrightarrow> b) (armed P) (consume_on_channel P q)"
  unfolding consume_on_channel_def
  by (rule tracked_channel) (auto simp: armed_def a_bind_def a_get_def a_set_def dest!: quiet_call_frame)

lemma tracked_hub: "tracked (\<lambda>_. True) (\<lambda>_. True) (hub_body P q)"
  unfolding hub_body_def by (rule tracked_channel) (auto simp: a_bind_def a_set_def dest!: quiet_call_frame)

lemma calm_parts [calm_rules]:
  "calm (queue_once P)" "calm (queue_again P)" "calm (ensure_retry_once P q)" "calm (announce_start P sink name)"
  unfolding queue_once_def queue_again_def ensure_retry_once_def announce_start_def
  by (auto intro!: calm_rules split: option.splits)

lemma ensure_retry_arms: "ensure_retry_once P q s = (Inr x, t) \<Longrightarrow> armed P t"
  by (auto simp: ensure_retry_once_def armed_def a_bind_def a_get_def a_set_def a_return_def split: prod.splits sum.splits if_splits)

lemma calm_armed: "calm m \<Longrightarrow> armed P s \<Longrightarrow> m s = (r, t) \<Longrightarrow> armed P t"
  by (auto simp: calm_def armed_def)

lemma tracked_consumer:
  assumes "calm queue" "calm started"
  shows "tracked (\<lambda>b. lp_has_retry P \<longrightarrow> b) (\<lambda>_. True) (consumer_body P queue started)"
  unfolding consumer_body_def
proof (rule tracked_bind[OF assms(1), where K = "\<lambda>_. True"])
  show "tracked (\<lambda>b. lp_has_retry P \<longrightarrow> b) (\<lambda>_. True) (a_bind (ensure_retry_once P q) (\<lambda>_. a_bind started (\<lambda>_. consume_on_channel P q)))" for q
  proof (rule tracked_bind[where K = "armed P"])
    show "tracked (\<lambda>b. lp_has_retry P \<longrightarrow> b) (armed P) (a_bind started (\<lambda>_. consume_on_channel P q))"
      by (rule tracked_bind[OF assms(2) calm_armed[OF assms(2)] tracked_consume])
  qed (auto intro: calm_rules ensure_retry_arms)
qed simp

lemma turn_brackets:
  assumes body: "tracked A (\<lambda>_. True) body" and handler: "\<And>e. calm (handler e)" and run: "turn_of P body handler s = (r, t)"
  obtains ext where "lv_log t = lv_log s @ ext" "bracket None ext = Some None" "consumes A ext"
proof -
  let ?s = "s\<lparr>lv_channel := None\<rparr>"
  obtain r1 s1 where 1: "body ?s = (r1, s1)" by (rule prod.exhaust)
  then obtain a where a: "lv_log s1 = lv_log s @ a" "bracket None a = Some (lv_channel s1)" "consumes A a"
    using body[unfolded tracked_def, rule_format, of ?s r1 s1] by auto
  obtain r2 s2 where 2: "(case body ?s of (Inr _, t) \<Rightarrow> (Inr Go_on, t) | (Inl e, t) \<Rightarrow> handler e t) = (r2, s2)" by (rule prod.exhaust)
  obtain b where b: "lv_log s2 = lv_log s1 @ b" "list_all calm_event b" "lv_channel s2 = lv_channel s1"
  proof (cases r1)
    case (Inl e)
    then have "handler e s1 = (r2, s2)" using 1 2 by simp
    with handler[of e] show ?thesis using that unfolding calm_def by blast
  next
    case (Inr u)
    then show ?thesis using 1 2 that[of "[]"] by simp
  qed
  have ab: "bracket None (a @ b) = Some (lv_channel s2)" "consumes A (a @ b)"
    using a b calm_bracket[OF b(2)] calm_consumes[OF b(2)] by (simp_all add: bracket_append)
  show ?thesis
  proof (cases "lv_channel s2")
    case None
    then have "t = s2" using run 2 by (simp add: turn_of_def finally_close_def)
    then show ?thesis using that[of "a @ b"] a b ab None by simp
  next
    case (Some ch)
    obtain r3 s3 where 3: "awaiting (\<lambda>_. [Closed ch]) [Closed ch] (lp_close P ch) s2 = (r3, s3)" by (rule prod.exhaust)
    then have l3: "lv_log s3 = lv_log s2 @ [Closed ch]" by (auto simp: awaiting_def split: prod.splits sum.splits)
    have "t = s3" using run 2 3 Some
      by (auto simp: turn_of_def finally_close_def split: sum.splits async_exc.splits)
    moreover have "consumes A [Closed ch]" by (simp add: consumes_def)
    ultimately show ?thesis using that[of "a @ b @ [Closed ch]"] a b l3 ab Some by (simp add: bracket_append split: option.splits)
  qed
qed

subsection \<open>How a turn ends\<close>

text \<open>
  What the loops rely on: \<^verbatim>\<open>asyncio.sleep\<close> raises only a cancellation, and closing a channel does not
  clear the stop event.
\<close>

definition loop_calls_ok :: "'w loop_calls \<Rightarrow> bool" where
  "loop_calls_ok P \<longleftrightarrow> (\<forall>b w e w'. lp_sleep P b w = (Inl e, w') \<longrightarrow> e = Cancelled_Error) \<and>
     (\<forall>ch w r w'. lp_close P ch w = (r, w') \<longrightarrow> lp_stop P w \<longrightarrow> lp_stop P w')"

lemma observe_raises: "observe P name s = (Inl e, t) \<Longrightarrow> e = Cancelled_Error"
  by (auto simp: observe_def split: prod.splits sum.splits async_exc.splits)

lemma sleep_raises: "loop_calls_ok P \<Longrightarrow> awaiting f g (lp_sleep P b) s = (Inl e, t) \<Longrightarrow> e = Cancelled_Error"
  by (auto simp: loop_calls_ok_def awaiting_def split: prod.splits sum.splits)

lemma a_bind_Inl: "a_bind m f s = (Inl e, t) \<longleftrightarrow> m s = (Inl e, t) \<or> (\<exists>x u. m s = (Inr x, u) \<and> f x u = (Inl e, t))"
  by (auto simp: a_bind_def split: prod.splits sum.splits)

lemma a_bind_Inr: "a_bind m f s = (Inr y, t) \<longleftrightarrow> (\<exists>x u. m s = (Inr x, u) \<and> f x u = (Inr y, t))"
  by (auto simp: a_bind_def split: prod.splits sum.splits)

lemma a_return_eq: "a_return x s = (r, t) \<longleftrightarrow> r = Inr x \<and> t = s"
  by (auto simp: a_return_def)

lemmas a_simps = a_bind_Inl a_bind_Inr a_return_eq

lemma after_exception_ends:
  assumes "loop_calls_ok P" and on: "\<And>s e t. on_error s = (Inl e, t) \<Longrightarrow> e = Cancelled_Error"
  shows "after_exception P on_error e s = (Inr Loop_returned, t) \<Longrightarrow> lp_stop P (lv_world t)"
    and "after_exception P on_error e s = (Inl x, t) \<Longrightarrow> x = Cancelled_Error"
  by (cases e; auto simp: after_exception_def a_simps split: if_splits dest: on sleep_raises[OF assms(1)])+

lemma turn_ends:
  assumes ok: "loop_calls_ok P"
    and handler: "\<And>e u v. handler e u = (Inr Loop_returned, v) \<Longrightarrow> lp_stop P (lv_world v)"
  shows "turn_of P body handler s = (Inr Loop_returned, t) \<Longrightarrow> lp_stop P (lv_world t)"
    and "turn_of P body handler s = (Inl x, t) \<Longrightarrow> x = Cancelled_Error \<or>
      (\<exists>e u v. body (s\<lparr>lv_channel := None\<rparr>) = (Inl e, u) \<and> handler e u = (Inl x, v) \<and> lv_started t = lv_started v)"
proof -
  obtain r1 s1 where 1: "body (s\<lparr>lv_channel := None\<rparr>) = (r1, s1)" by (rule prod.exhaust)
  obtain r2 s2 where 2: "(case (r1, s1) of (Inr _, t) \<Rightarrow> (Inr Go_on, t) | (Inl e, t) \<Rightarrow> handler e t) = (r2, s2)" by (rule prod.exhaust)
  have turn: "turn_of P body handler s = (case lv_channel s2 of None \<Rightarrow> (r2, s2) | Some ch \<Rightarrow>
      (case awaiting (\<lambda>_. [Closed ch]) [Closed ch] (lp_close P ch) s2 of
         (Inl Cancelled_Error, u) \<Rightarrow> (Inl Cancelled_Error, u) | (_, u) \<Rightarrow> (r2, u)))"
    using 1 2 by (simp add: turn_of_def finally_close_def)
  have stop: "lp_stop P (lv_world u)" if "awaiting f g (lp_close P ch) s2 = (r, u)" "lp_stop P (lv_world s2)" for f g ch r u
    using that ok by (auto simp: awaiting_def loop_calls_ok_def split: prod.splits sum.splits)
  have started: "lv_started u = lv_started s2" if "awaiting f g (lp_close P ch) s2 = (r, u)" for f g ch r u
    using that by (auto simp: awaiting_def split: prod.splits sum.splits)
  show "lp_stop P (lv_world t)" if "turn_of P body handler s = (Inr Loop_returned, t)"
  proof -
    have "r2 = Inr Loop_returned" using that turn by (auto split: option.splits prod.splits sum.splits async_exc.splits)
    then have "lp_stop P (lv_world s2)" using 2 handler by (auto split: sum.splits)
    then show ?thesis using that turn stop by (auto split: option.splits prod.splits sum.splits async_exc.splits)
  qed
  show "x = Cancelled_Error \<or> (\<exists>e u v. body (s\<lparr>lv_channel := None\<rparr>) = (Inl e, u) \<and> handler e u = (Inl x, v) \<and> lv_started t = lv_started v)"
    if "turn_of P body handler s = (Inl x, t)"
  proof (cases "x = Cancelled_Error")
    case False
    then have "r2 = Inl x" "lv_started t = lv_started s2"
      using that turn started by (auto split: option.splits prod.splits sum.splits async_exc.splits)
    then show ?thesis using 1 2 by (auto split: sum.splits)
  qed simp
qed

subsection \<open>The contract of a reconnecting loop\<close>

locale reconnecting_loop =
  fixes stop :: "'w \<Rightarrow> bool" and turn :: "('w loop_vars, turn_end) aio"
    and flags :: "bool \<Rightarrow> bool" and raises :: "async_exc \<Rightarrow> 'w loop_vars \<Rightarrow> bool"
  assumes turn_log: "turn s = (r, t) \<Longrightarrow> \<exists>ext. lv_log t = lv_log s @ ext \<and> bracket None ext = Some None \<and> consumes flags ext"
    and turn_returned: "turn s = (Inr Loop_returned, t) \<Longrightarrow> stop (lv_world t)"
    and turn_raised: "turn s = (Inl e, t) \<Longrightarrow> raises e t"
begin

lemma log_then:
  assumes "lv_log s = lv_log s0 @ a" "bracket None a = Some None" "consumes flags a" "turn s = (r, t)"
  shows "\<exists>ext. lv_log t = lv_log s0 @ ext \<and> bracket None ext = Some None \<and> consumes flags ext"
proof -
  obtain b where "lv_log t = lv_log s @ b" "bracket None b = Some None" "consumes flags b" using turn_log[OF assms(4)] by blast
  then show ?thesis using assms(1-3) by (intro exI[of _ "a @ b"]) (simp add: bracket_append)
qed

lemma head_log:
  "loop_head stop turn s0 s \<Longrightarrow> \<exists>ext. lv_log s = lv_log s0 @ ext \<and> bracket None ext = Some None \<and> consumes flags ext"
proof (induction rule: loop_head.induct)
  case head_first
  show ?case by (simp add: consumes_def)
next
  case (head_next s t)
  then show ?case using log_then by blast
qed

lemma loop_ends_in_order:
  assumes "loop_ends stop turn s0 r t"
  shows "(case r of None \<Rightarrow> stop (lv_world t) | Some e \<Rightarrow> raises e t) \<and>
    (\<exists>ext. lv_log t = lv_log s0 @ ext \<and> bracket None ext = Some None \<and> consumes flags ext)"
  using assms
proof (cases rule: loop_ends.cases)
  case end_stopped
  then show ?thesis using head_log by auto
next
  case (end_returned s)
  then show ?thesis using head_log[OF end_returned(2)] log_then turn_returned by fastforce
next
  case (end_raised s e)
  then show ?thesis using head_log[OF end_raised(2)] log_then turn_raised by fastforce
qed

end

subsection \<open>The loops keep the contract\<close>

definition only_cancelled :: "async_exc \<Rightarrow> 'w loop_vars \<Rightarrow> bool" where
  "only_cancelled e t \<longleftrightarrow> e = Cancelled_Error"

lemma loop_turn_contract:
  assumes ok: "loop_calls_ok P" and on: "calm on_error" "\<And>s e t. on_error s = (Inl e, t) \<Longrightarrow> e = Cancelled_Error"
    and body: "tracked A (\<lambda>_. True) body"
  shows "reconnecting_loop (lp_stop P) (loop_turn P on_error body) A only_cancelled"
proof -
  have returns: "lp_stop P (lv_world v)" if "after_exception P on_error e u = (Inr Loop_returned, v)" for e u v
    using ok on(2) that by (rule after_exception_ends(1))
  have raised: "x = Cancelled_Error" if "after_exception P on_error e u = (Inl x, v)" for e u v x
    using ok on(2) that by (rule after_exception_ends(2))
  show ?thesis
    unfolding loop_turn_def
  proof
    fix s r t assume "turn_of P body (after_exception P on_error) s = (r, t)"
    then show "\<exists>ext. lv_log t = lv_log s @ ext \<and> bracket None ext = Some None \<and> consumes A ext"
      by (rule turn_brackets[OF body calm_after_exception[OF on(1)]]) blast
  next
    fix s t assume "turn_of P body (after_exception P on_error) s = (Inr Loop_returned, t)"
    with ok returns show "lp_stop P (lv_world t)" by (rule turn_ends(1))
  next
    fix s e t assume "turn_of P body (after_exception P on_error) s = (Inl e, t)"
    with ok returns have "e = Cancelled_Error \<or> (\<exists>e' u v. body (s\<lparr>lv_channel := None\<rparr>) = (Inl e', u) \<and>
        after_exception P on_error e' u = (Inl e, v) \<and> lv_started t = lv_started v)" by (rule turn_ends(2))
    then show "only_cancelled e t" unfolding only_cancelled_def using raised by blast
  qed
qed

lemma report_ok: "calm (if sink then observe P name else a_return ())"
  "(if sink then observe P name else a_return ()) s = (Inl e, t) \<Longrightarrow> e = Cancelled_Error"
  by (auto intro!: calm_rules simp: a_return_def split: if_splits dest: observe_raises)

text \<open>The turns of the three consumers.\<close>

definition consumer_turns :: "'w loop_calls \<Rightarrow> bool \<Rightarrow> ('w loop_vars, turn_end) aio set" where
  "consumer_turns P sink = {task_consumer_turn P sink, aggregation_consumer_turn P, workflow_consumer_turn P sink}"

lemma consumer_contract:
  assumes "loop_calls_ok P" "turn \<in> consumer_turns P sink"
  shows "reconnecting_loop (lp_stop P) turn (\<lambda>b. lp_has_retry P \<longrightarrow> b) only_cancelled"
proof -
  have "reconnecting_loop (lp_stop P) (task_consumer_turn P sink) (\<lambda>b. lp_has_retry P \<longrightarrow> b) only_cancelled"
    "reconnecting_loop (lp_stop P) (workflow_consumer_turn P sink) (\<lambda>b. lp_has_retry P \<longrightarrow> b) only_cancelled"
    unfolding task_consumer_turn_def workflow_consumer_turn_def
    by (rule loop_turn_contract[OF assms(1)], rule report_ok(1), erule report_ok(2), rule tracked_consumer; rule calm_rules)+
  moreover have "reconnecting_loop (lp_stop P) (aggregation_consumer_turn P) (\<lambda>b. lp_has_retry P \<longrightarrow> b) only_cancelled"
    unfolding aggregation_consumer_turn_def
    by (rule loop_turn_contract[OF assms(1)], rule calm_rules, simp add: a_return_def, rule tracked_consumer; rule calm_rules)
  ultimately show ?thesis using assms(2) by (auto simp: consumer_turns_def)
qed

text \<open>The hub: \<^verbatim>\<open>started_consuming\<close> is set before the first consumption and never cleared.\<close>

definition starts :: "('w loop_vars, 'a) aio \<Rightarrow> bool" where
  "starts m \<longleftrightarrow> (\<forall>s r t. m s = (r, t) \<longrightarrow> (lv_started s \<longrightarrow> lv_started t) \<and>
     (\<exists>ext. lv_log t = lv_log s @ ext \<and> (consumes (\<lambda>_. False) ext \<or> lv_started t)))"

lemma starts_bind:
  assumes "starts m" "\<And>x. starts (f x)"
  shows "starts (a_bind m f)"
  unfolding starts_def
proof (intro allI impI)
  fix s r t assume run: "a_bind m f s = (r, t)"
  obtain r1 s1 where 1: "m s = (r1, s1)" by (rule prod.exhaust)
  with assms(1) obtain a where a: "lv_started s \<longrightarrow> lv_started s1" "lv_log s1 = lv_log s @ a" "consumes (\<lambda>_. False) a \<or> lv_started s1"
    unfolding starts_def by blast
  show "(lv_started s \<longrightarrow> lv_started t) \<and> (\<exists>ext. lv_log t = lv_log s @ ext \<and> (consumes (\<lambda>_. False) ext \<or> lv_started t))"
  proof (cases r1)
    case (Inl e)
    then show ?thesis using run 1 a by (auto simp: a_bind_def)
  next
    case (Inr x)
    then have "f x s1 = (r, t)" using run 1 by (simp add: a_bind_def)
    with assms(2)[of x] obtain b where "lv_started s1 \<longrightarrow> lv_started t" "lv_log t = lv_log s1 @ b" "consumes (\<lambda>_. False) b \<or> lv_started t"
      unfolding starts_def by blast
    then show ?thesis using a by (intro conjI exI[of _ "a @ b"]) auto
  qed
qed

lemma starts_calls:
  "(\<And>x. consumes (\<lambda>_. False) (f x)) \<Longrightarrow> consumes (\<lambda>_. False) g \<Longrightarrow> starts (awaiting f g m)" "starts (quiet_call m)" "starts (a_return x)"
  "starts (observe P name)" "starts (a_set (\<lambda>s. s\<lparr>lv_channel := c\<rparr>))"
  "starts (a_set (\<lambda>s. s\<lparr>lv_started := True, lv_log := lv_log s @ es\<rparr>))"
  by (auto simp: starts_def awaiting_def quiet_call_def a_return_def a_set_def observe_def consumes_def
      split: prod.splits sum.splits async_exc.splits)

lemma starts_hub_body: "starts (hub_body P q)"
  unfolding hub_body_def on_channel_def loop_acquire_channel_def by (intro starts_bind starts_calls) (simp_all add: consumes_def)

lemma hub_exception_starts: "starts (hub_exception P sink fail_fast e)"
proof -
  have "starts (a_bind (if sink then observe P n else a_return ()) (\<lambda>_. a_bind (awaiting (\<lambda>_. [Slept True]) [Slept True] (lp_sleep P True)) (\<lambda>_. a_return Go_on)))" for n
    by (intro starts_bind) (auto intro!: starts_calls simp: consumes_def)
  then show ?thesis unfolding starts_def hub_exception_def by (auto simp: consumes_def split: if_splits)
qed

lemma hub_turn_starts: "starts (hub_turn P sink fail_fast q)"
  unfolding starts_def
proof (intro allI impI)
  fix s r t assume run: "hub_turn P sink fail_fast q s = (r, t)"
  define m where "m = (\<lambda>u. case hub_body P q u of (Inr _, t) \<Rightarrow> (Inr Go_on, t) | (Inl e, t) \<Rightarrow> hub_exception P sink fail_fast e t)"
  have m: "starts m"
    unfolding starts_def
  proof (intro allI impI)
    fix u x v assume mu: "m u = (x, v)"
    obtain r1 s1 where 1: "hub_body P q u = (r1, s1)" by (rule prod.exhaust)
    with starts_hub_body obtain a where a: "lv_started u \<longrightarrow> lv_started s1" "lv_log s1 = lv_log u @ a" "consumes (\<lambda>_. False) a \<or> lv_started s1"
      unfolding starts_def by metis
    show "(lv_started u \<longrightarrow> lv_started v) \<and> (\<exists>ext. lv_log v = lv_log u @ ext \<and> (consumes (\<lambda>_. False) ext \<or> lv_started v))"
    proof (cases r1)
      case (Inl e)
      then have "hub_exception P sink fail_fast e s1 = (x, v)" using mu 1 by (simp add: m_def)
      with hub_exception_starts obtain b where "lv_started s1 \<longrightarrow> lv_started v" "lv_log v = lv_log s1 @ b" "consumes (\<lambda>_. False) b \<or> lv_started v"
        unfolding starts_def by metis
      then show ?thesis using a by (intro conjI exI[of _ "a @ b"]) auto
    next
      case (Inr u')
      then show ?thesis using mu 1 a by (auto simp: m_def)
    qed
  qed
  obtain x v where v: "m (s\<lparr>lv_channel := None\<rparr>) = (x, v)" by (rule prod.exhaust)
  from m[unfolded starts_def, rule_format, OF v] obtain a where a: "lv_started s \<longrightarrow> lv_started v" "lv_log v = lv_log s @ a"
    "consumes (\<lambda>_. False) a \<or> lv_started v" by auto
  have "lv_started t = lv_started v \<and> (\<exists>c. lv_log t = lv_log v @ c \<and> consumes (\<lambda>_. False) c)"
    using run v by (auto simp: hub_turn_def turn_of_def finally_close_def m_def[symmetric] awaiting_def consumes_def
        split: option.splits prod.splits sum.splits async_exc.splits)
  then show "(lv_started s \<longrightarrow> lv_started t) \<and> (\<exists>ext. lv_log t = lv_log s @ ext \<and> (consumes (\<lambda>_. False) ext \<or> lv_started t))"
    using a by auto
qed

definition hub_failed :: "async_exc \<Rightarrow> 'w loop_vars \<Rightarrow> bool" where
  "hub_failed e t \<longleftrightarrow> e = Cancelled_Error \<or>
     e = Other_Error (RuntimeError ''StatusHub failed to start consuming queue'') \<and> \<not> lv_started t"

lemma calm_hub_exception: "calm (hub_exception P sink fail_fast e)"
proof -
  have "calm (a_bind (if sink then observe P n else a_return ()) (\<lambda>_. a_bind (awaiting (\<lambda>_. [Slept True]) [Slept True] (lp_sleep P True)) (\<lambda>_. a_return Go_on)))" for n
    by (intro calm_rules)
  then show ?thesis unfolding calm_def hub_exception_def by (auto split: if_splits)
qed

lemma hub_exception_ends:
  assumes "loop_calls_ok P"
  shows "hub_exception P sink fail_fast e s = (Inr Loop_returned, t) \<Longrightarrow> lp_stop P (lv_world t)"
    and "hub_exception P sink fail_fast e s = (Inl x, t) \<Longrightarrow> hub_failed x t"
proof -
  show "hub_exception P sink fail_fast e s = (Inr Loop_returned, t) \<Longrightarrow> lp_stop P (lv_world t)"
    by (auto simp: hub_exception_def a_simps split: if_splits)
  have "x = Cancelled_Error" if "a_bind (if sink then observe P n else a_return ()) (\<lambda>_. a_bind (awaiting f g (lp_sleep P True)) (\<lambda>_. a_return Go_on)) s = (Inl x, t)" for n f g
    using that report_ok(2)[of sink P n s x t] sleep_raises[OF assms] by (auto simp: a_simps)
  then show "hub_exception P sink fail_fast e s = (Inl x, t) \<Longrightarrow> hub_failed x t"
    by (auto simp: hub_exception_def hub_failed_def split: if_splits)
qed

lemma hub_contract:
  assumes ok: "loop_calls_ok P"
  shows "reconnecting_loop (lp_stop P) (hub_turn P sink fail_fast q) (\<lambda>_. True) hub_failed"
proof -
  have returns: "lp_stop P (lv_world v)" if "hub_exception P sink fail_fast e u = (Inr Loop_returned, v)" for e u v
    using that by (rule hub_exception_ends(1)[OF ok])
  show ?thesis
    unfolding hub_turn_def
  proof
    fix s r t assume "turn_of P (hub_body P q) (hub_exception P sink fail_fast) s = (r, t)"
    then show "\<exists>ext. lv_log t = lv_log s @ ext \<and> bracket None ext = Some None \<and> consumes (\<lambda>_. True) ext"
      by (rule turn_brackets[OF tracked_hub calm_hub_exception]) blast
  next
    fix s t assume "turn_of P (hub_body P q) (hub_exception P sink fail_fast) s = (Inr Loop_returned, t)"
    with ok returns show "lp_stop P (lv_world t)" by (rule turn_ends(1))
  next
    fix s e t assume "turn_of P (hub_body P q) (hub_exception P sink fail_fast) s = (Inl e, t)"
    with ok returns have "e = Cancelled_Error \<or> (\<exists>e' u v. hub_body P q (s\<lparr>lv_channel := None\<rparr>) = (Inl e', u) \<and>
        hub_exception P sink fail_fast e' u = (Inl e, v) \<and> lv_started t = lv_started v)" by (rule turn_ends(2))
    then show "hub_failed e t"
    proof
      assume "\<exists>e' u v. hub_body P q (s\<lparr>lv_channel := None\<rparr>) = (Inl e', u) \<and> hub_exception P sink fail_fast e' u = (Inl e, v) \<and> lv_started t = lv_started v"
      then obtain e' u v where "hub_exception P sink fail_fast e' u = (Inl e, v)" "lv_started t = lv_started v" by blast
      then show ?thesis using hub_exception_ends(2)[OF ok, of sink fail_fast e' u e v] by (simp add: hub_failed_def)
    qed (simp add: hub_failed_def)
  qed
qed

lemma hub_head_starts:
  "loop_head stop (hub_turn P sink fail_fast q) s0 s \<Longrightarrow> (lv_started s0 \<longrightarrow> lv_started s) \<and>
     (\<exists>ext. lv_log s = lv_log s0 @ ext \<and> (consumes (\<lambda>_. False) ext \<or> lv_started s))"
proof (induction rule: loop_head.induct)
  case head_first
  show ?case by (simp add: consumes_def)
next
  case (head_next s t)
  then obtain a where a: "lv_started s0 \<longrightarrow> lv_started s" "lv_log s = lv_log s0 @ a" "consumes (\<lambda>_. False) a \<or> lv_started s" by blast
  obtain b where "lv_started s \<longrightarrow> lv_started t" "lv_log t = lv_log s @ b" "consumes (\<lambda>_. False) b \<or> lv_started t"
    using hub_turn_starts[of P sink fail_fast q, unfolded starts_def, rule_format, OF head_next.hyps(3)] by blast
  then show ?case using a by (intro conjI exI[of _ "a @ b"]) auto
qed

text \<open> C18. The run_forever loops of the task, aggregation and workflow consumers (consumer/task_consumer.py,
  consumer/workflow_consumer.py) end only when they were stopped or cancelled, whatever the client, the
  broker, the handlers and the observers do: any other exception leads to another turn.  Over the
  whole run the loop holds one channel at a time, and every channel that was opened for it is closed again, the last one
  included, with one exception: a channel whose prefetch acquire_channel (rabbitmq/client.py) could not set
  is lost, and it is never closed.  Messages are consumed only on the channel held, and with
  a retry policy only after the retry queues are declared. \<close>

theorem consumer_loop_recovers:
  assumes "loop_calls_ok P" and "turn \<in> consumer_turns P sink" and "loop_ends (lp_stop P) turn s0 r t"
  shows "(r = None \<and> lp_stop P (lv_world t) \<or> r = Some Cancelled_Error) \<and>
    (\<exists>ext. lv_log t = lv_log s0 @ ext \<and> bracket None ext = Some None \<and>
      mset (opened_channels ext) = mset (closed_channels ext) + mset (lost_channels ext) \<and>
      consumes (\<lambda>declared. lp_has_retry P \<longrightarrow> declared) ext)"
proof -
  obtain ext where "lv_log t = lv_log s0 @ ext" "bracket None ext = Some None" "consumes (\<lambda>declared. lp_has_retry P \<longrightarrow> declared) ext"
    "case r of None \<Rightarrow> lp_stop P (lv_world t) | Some e \<Rightarrow> only_cancelled e t"
    using reconnecting_loop.loop_ends_in_order[OF consumer_contract[OF assms(1,2)] assms(3)] by blast
  then show ?thesis using bracket_balance[of None ext None] by (auto simp: only_cancelled_def split: option.splits)
qed

text \<open> StatusHub.run_forever (status/hub.py) ends only when it was stopped or cancelled, or with the
  fail-fast error before it ever consumed; its channels are opened and closed in turn, or lost, as well. \<close>

theorem hub_loop_recovers:
  assumes "loop_calls_ok P" and "loop_ends (lp_stop P) (hub_turn P sink fail_fast q) s0 r t"
  shows "(r = None \<and> lp_stop P (lv_world t) \<or> r = Some Cancelled_Error \<or>
      r = Some (Other_Error (RuntimeError ''StatusHub failed to start consuming queue'')) \<and>
        (\<exists>ext. lv_log t = lv_log s0 @ ext \<and> consumes (\<lambda>_. False) ext)) \<and>
    (\<exists>ext. lv_log t = lv_log s0 @ ext \<and> bracket None ext = Some None)"
proof -
  have *: "(case r of None \<Rightarrow> lp_stop P (lv_world t) | Some e \<Rightarrow> hub_failed e t)"
    "\<exists>ext. lv_log t = lv_log s0 @ ext \<and> bracket None ext = Some None"
    using reconnecting_loop.loop_ends_in_order[OF hub_contract[OF assms(1)] assms(2)] by auto
  have unconsumed: "\<exists>ext. lv_log t = lv_log s0 @ ext \<and> consumes (\<lambda>_. False) ext" if "r = Some e" "\<not> lv_started t" for e
    using assms(2)
  proof (cases rule: loop_ends.cases)
    case (end_raised s e')
    obtain a where a: "lv_log s = lv_log s0 @ a" "consumes (\<lambda>_. False) a \<or> lv_started s" using hub_head_starts[OF end_raised(2)] by blast
    obtain b where "lv_started s \<longrightarrow> lv_started t" "lv_log t = lv_log s @ b" "consumes (\<lambda>_. False) b \<or> lv_started t"
      using hub_turn_starts[of P sink fail_fast q, unfolded starts_def, rule_format, OF end_raised(4)] by blast
    then show ?thesis using a that(2) by (intro exI[of _ "a @ b"]) auto
  qed (use that in auto)
  show ?thesis using * unconsumed by (cases r) (auto simp: hub_failed_def)
qed

subsection \<open>The lease scanner\<close>

text \<open>
  \<^verbatim>\<open>TaskLeaseExpiryScanner.run_forever\<close>: a scan, then a wait for the stop event that may time out.
  Nothing catches the exceptions of a scan.
\<close>

definition scanner_turn :: "('w, unit) aio \<Rightarrow> ('w, unit) aio \<Rightarrow> ('w loop_vars, turn_end) aio" where
  "scanner_turn scan wait =
     a_bind (quiet_call scan) (\<lambda>_ s.
       case quiet_call wait s of
         (Inl Timeout_Error, t) \<Rightarrow> (Inr Go_on, t) | (Inl e, t) \<Rightarrow> (Inl e, t) | (Inr _, t) \<Rightarrow> (Inr Go_on, t))"

lemma scanner_ends_on_error:
  assumes "loop_head stop (scanner_turn scan wait) s0 s" "\<not> stop (lv_world s)" "scan (lv_world s) = (Inl e, w)"
  shows "\<exists>t. loop_ends stop (scanner_turn scan wait) s0 (Some e) t"
proof -
  have "\<exists>t. scanner_turn scan wait s = (Inl e, t)"
    using assms(3) by (simp add: scanner_turn_def a_bind_def quiet_call_def awaiting_def)
  then show ?thesis using end_raised[OF assms(1,2)] by blast
qed

subsection \<open>Concrete loops\<close>

text \<open>The world counts the channels opened; the prefetch of the first channel cannot be set, the second
  channel cannot be used, and at the third the loop is stopped.\<close>

definition sample_calls :: "nat loop_calls" where
  "sample_calls = \<lparr>lp_ensure_queue = (\<lambda>known w. (Inr ''q'', w)), lp_has_retry = True, lp_ensure_retry = (\<lambda>q w. (Inr (), w)),
     lp_open = (\<lambda>w. (Inr w, Suc w)), lp_set_qos = (\<lambda>ch w. (if ch = 0 then Inl (Other_Error (ExternalError ''closed'')) else Inr (), w)),
     lp_declare = (\<lambda>ch q w. (if ch = 1 then Inl (Other_Error (ExternalError ''closed'')) else Inr (), w)),
     lp_subscribe = (\<lambda>ch q w. (Inr (), w)), lp_consume = (\<lambda>ch q retry w. (Inr (), w)), lp_observe = (\<lambda>name w. (Inr (), w)),
     lp_sleep = (\<lambda>idle w. (Inr (), w)), lp_close = (\<lambda>ch w. (Inr (), w)), lp_stop = (\<lambda>w. 3 \<le> w)\<rparr>"

definition first_vars :: "nat loop_vars" where
  "first_vars = \<lparr>lv_queue_name = None, lv_retry = False, lv_started = False, lv_channel = None, lv_world = 0, lv_log = []\<rparr>"

lemma sample_calls_ok: "loop_calls_ok sample_calls"
  by (simp add: loop_calls_ok_def sample_calls_def)

interpretation task_loop: reconnecting_loop "lp_stop sample_calls" "task_consumer_turn sample_calls True"
  "\<lambda>b. lp_has_retry sample_calls \<longrightarrow> b" only_cancelled
  by (rule consumer_contract[OF sample_calls_ok, where sink = True]) (simp add: consumer_turns_def)

interpretation hub_loop: reconnecting_loop "lp_stop sample_calls" "hub_turn sample_calls True (\<lambda>_. False) ''status''" "\<lambda>_. True" hub_failed
  by (rule hub_contract[OF sample_calls_ok])

lemma loop_thrice:
  assumes "fst (turn s0) = Inr Go_on" "fst (turn (snd (turn s0))) = Inr Go_on" "fst (turn (snd (turn (snd (turn s0))))) = Inr Go_on"
    and "\<not> stop (lv_world s0)" "\<not> stop (lv_world (snd (turn s0)))" "\<not> stop (lv_world (snd (turn (snd (turn s0)))))"
    and "stop (lv_world (snd (turn (snd (turn (snd (turn s0)))))))"
  shows "loop_ends stop turn s0 None (snd (turn (snd (turn (snd (turn s0))))))"
proof -
  have next_head: "loop_head stop turn s0 (snd (turn s))" if "loop_head stop turn s0 s" "\<not> stop (lv_world s)" "fst (turn s) = Inr Go_on" for s
    using that(1,2) by (rule head_next) (use that(3) in \<open>metis prod.collapse\<close>)
  show ?thesis using next_head[OF next_head[OF next_head[OF head_first assms(4,1)] assms(5,2)] assms(6,3)] assms(7) by (rule end_stopped)
qed

theorem consumer_loop_recovers_witness:
  "\<exists>t. loop_ends (lp_stop sample_calls) (task_consumer_turn sample_calls True) first_vars None t \<and> lp_stop sample_calls (lv_world t) \<and>
     lv_log t = [Observed ''TaskConsumerStarted'', Opened 0, Prefetch_failed 0, Observed ''TaskConsumerLoopError'', Slept True,
       Opened 1, Observed ''TaskConsumerLoopError'', Slept True, Closed 1, Opened 2, Consuming 2 ''q'' True, Closed 2]"
proof -
  let ?turn = "task_consumer_turn sample_calls True"
  let ?t = "snd (?turn (snd (?turn (snd (?turn first_vars)))))"
  have ends: "loop_ends (lp_stop sample_calls) ?turn first_vars None ?t" by (rule loop_thrice; code_simp)
  moreover have "lv_log ?t = [Observed ''TaskConsumerStarted'', Opened 0, Prefetch_failed 0, Observed ''TaskConsumerLoopError'', Slept True,
       Opened 1, Observed ''TaskConsumerLoopError'', Slept True, Closed 1, Opened 2, Consuming 2 ''q'' True, Closed 2]" by code_simp
  moreover have "lp_stop sample_calls (lv_world ?t)"
    using consumer_loop_recovers[OF sample_calls_ok _ ends, of True] by (simp add: consumer_turns_def)
  ultimately show ?thesis by blast
qed

theorem hub_loop_recovers_witness:
  "\<exists>t. loop_ends (lp_stop sample_calls) (hub_turn sample_calls True (\<lambda>_. False) ''status'') first_vars None t \<and>
     lp_stop sample_calls (lv_world t)"
proof -
  let ?turn = "hub_turn sample_calls True (\<lambda>_. False) ''status''"
  have "loop_ends (lp_stop sample_calls) ?turn first_vars None (snd (?turn (snd (?turn (snd (?turn first_vars))))))" by (rule loop_thrice; code_simp)
  from hub_loop_recovers[OF sample_calls_ok this] this show ?thesis by blast
qed

end
