(* ===== verification/Backpressure.thy ===== *)
theory Backpressure
  imports Shared_Topology Bounded_Async
begin

text \<open>
  \<^verbatim>\<open>observability/backpressure.py\<close>: the pressure signals of a runtime.  What a collector, an inspection
  or a provider answers is an argument, a raise included; the calls run under \<^verbatim>\<open>map_bounded\<close>
  (\<open>Bounded_Async\<close>).  Depths, counts and thresholds are integers, as the collectors pass them; the
  times at which signals are made are left out, a heartbeat and now are microseconds.  Of an
  observation of a queue the fields that the queue collector fills are kept.
\<close>

subsection \<open>Signals and severities\<close>

datatype pressure_severity = NORMAL | WARNING | CRITICAL | UNKNOWN

record pressure_signal =
  ps_scope :: string
  ps_scope_id :: "string option"
  ps_kind :: string
  ps_severity :: pressure_severity
  ps_value :: "int option"
  ps_threshold :: "int option"
  ps_reason :: "string option"
  ps_recommended_action :: "string option"

record queue_observation =
  qo_queue_name :: string
  qo_source :: string
  qo_ready :: "int option"
  qo_consumers :: "int option"

record pressure_snapshot =
  sn_signals :: "pressure_signal list"
  sn_queues :: "queue_observation list"

definition severity_for_thresholds :: "int option \<Rightarrow> int option \<Rightarrow> int option \<Rightarrow> pressure_severity" where
  "severity_for_thresholds value warning_threshold critical_threshold =
     (case value of
        None \<Rightarrow> UNKNOWN
      | Some v \<Rightarrow>
          if (case critical_threshold of Some c \<Rightarrow> c \<le> v | None \<Rightarrow> False) then CRITICAL
          else if (case warning_threshold of Some w \<Rightarrow> w \<le> v | None \<Rightarrow> False) then WARNING
          else NORMAL)"

definition join_snapshots :: "pressure_snapshot list \<Rightarrow> pressure_snapshot" where
  "join_snapshots batches = \<lparr>sn_signals = concat (map sn_signals batches), sn_queues = concat (map sn_queues batches)\<rparr>"

subsection \<open>The service\<close>

text \<open>A collector is the name of its class and what its collection answers.\<close>

type_synonym collector = "string \<times> pressure_snapshot res"

definition unavailable_collector :: "string \<Rightarrow> string \<Rightarrow> pressure_signal" where
  "unavailable_collector type_name exc =
     \<lparr>ps_scope = ''collector'', ps_scope_id = Some type_name, ps_kind = ''pressure_collector_unavailable'', ps_severity = UNKNOWN,
      ps_value = None, ps_threshold = None, ps_reason = Some exc,
      ps_recommended_action = Some ''Inspect the pressure signal collector configuration.''\<rparr>"

text \<open>\<open>exc_text\<close> is \<^verbatim>\<open>str(exc)\<close>.\<close>

definition collect_one :: "(py_error \<Rightarrow> string) \<Rightarrow> collector \<Rightarrow> pressure_snapshot" where
  "collect_one exc_text c =
     (case snd c of Inr snapshot \<Rightarrow> snapshot
      | Inl e \<Rightarrow> \<lparr>sn_signals = [unavailable_collector (fst c) (exc_text e)], sn_queues = []\<rparr>)"

definition collecting :: "(py_error \<Rightarrow> string) \<Rightarrow> collector \<Rightarrow> async_exc + pressure_snapshot \<Rightarrow> bool" where
  "collecting exc_text c out \<longleftrightarrow> out = Inr (collect_one exc_text c)"

definition pressure_service :: "collector list \<Rightarrow> int \<Rightarrow> (collector list \<times> int) res" where
  "pressure_service collectors max_concurrency =
     (if max_concurrency < 1 then Inl (ValueError ''max_concurrency must be at least 1'') else Inr (collectors, max_concurrency))"

text \<open>The snapshot of the service when \<^verbatim>\<open>map_bounded\<close> returned \<open>batches\<close>, and the signals it records in order.\<close>

definition snapshot_of :: "pressure_snapshot list \<Rightarrow> pressure_snapshot \<times> pressure_signal list" where
  "snapshot_of batches = (let snapshot = join_snapshots batches in (snapshot, sn_signals snapshot))"

subsection \<open>Queues\<close>

record pressure_inspection =
  pi_message_count :: int
  pi_consumer_count :: int

record queue_collector =
  kc_source_id :: string
  kc_queue_names :: "string list"
  kc_warning_depth :: int
  kc_critical_depth :: int
  kc_max_concurrency :: int

definition make_queue_collector :: "string \<Rightarrow> string list \<Rightarrow> int \<Rightarrow> int \<Rightarrow> int \<Rightarrow> string option \<Rightarrow> queue_collector res" where
  "make_queue_collector fresh queue_names warning_depth critical_depth max_concurrency source_id =
     (let source = (case source_id of Some s \<Rightarrow> strip s | None \<Rightarrow> ''amqp_passive_declare:'' @ fresh) in
      if source = [] then Inl (ValueError ''source_id must not be empty'')
      else if max_concurrency < 1 then Inl (ValueError ''max_concurrency must be at least 1'')
      else Inr \<lparr>kc_source_id = source, kc_queue_names = normalize_task_types queue_names, kc_warning_depth = warning_depth,
        kc_critical_depth = critical_depth, kc_max_concurrency = max_concurrency\<rparr>)"

definition queue_signal :: "string \<Rightarrow> string \<Rightarrow> pressure_severity \<Rightarrow> int option \<Rightarrow> int option \<Rightarrow> string \<Rightarrow> string option \<Rightarrow> pressure_signal" where
  "queue_signal queue_name kind severity value threshold reason action =
     \<lparr>ps_scope = ''queue'', ps_scope_id = Some queue_name, ps_kind = kind, ps_severity = severity, ps_value = value,
      ps_threshold = threshold, ps_reason = Some reason, ps_recommended_action = action\<rparr>"

text \<open>The model of an observation refuses negative counts: that raises out of the inspection.\<close>

definition observed_queue :: "queue_collector \<Rightarrow> string \<Rightarrow> pressure_inspection \<Rightarrow> queue_observation res" where
  "observed_queue K queue_name inspection =
     (if pi_message_count inspection < 0 \<or> pi_consumer_count inspection < 0 then Inl (ValueError ''greater_than_equal'')
      else Inr \<lparr>qo_queue_name = queue_name, qo_source = kc_source_id K, qo_ready = Some (pi_message_count inspection),
        qo_consumers = Some (pi_consumer_count inspection)\<rparr>)"

definition depth_signals :: "queue_collector \<Rightarrow> string \<Rightarrow> pressure_inspection \<Rightarrow> pressure_signal list" where
  "depth_signals K queue_name inspection =
     (let n = pi_message_count inspection;
          severity = severity_for_thresholds (Some n) (Some (kc_warning_depth K)) (Some (kc_critical_depth K))
      in queue_signal queue_name ''queue_depth_high'' severity (Some n)
           (Some (if severity = CRITICAL then kc_critical_depth K else kc_warning_depth K))
           (''Queue has '' @ int_str n @ '' ready messages.'')
           (if severity \<noteq> NORMAL then Some ''Add consumers or slow publishers.'' else None) #
         (if pi_consumer_count inspection = 0
          then [queue_signal queue_name ''consumer_count_zero'' CRITICAL (Some 0) (Some 1) ''Queue has no active consumers.''
                  (Some ''Start at least one worker for this queue.'')]
          else []))"

definition inspect_pressure :: "queue_collector \<Rightarrow> (string \<Rightarrow> pressure_inspection option res) \<Rightarrow> string \<Rightarrow> pressure_snapshot res" where
  "inspect_pressure K inspect queue_name =
     (case (case inspect queue_name of Inr inspection \<Rightarrow> inspection | Inl _ \<Rightarrow> None) of
        None \<Rightarrow> Inr \<lparr>sn_signals = [queue_signal queue_name ''queue_inspection_unavailable'' UNKNOWN None None
            ''Queue inspection returned no data.'' (Some ''Verify RabbitMQ management inspection is configured.'')], sn_queues = []\<rparr>
      | Some inspection \<Rightarrow>
          bind_res (observed_queue K queue_name inspection) (\<lambda>observation.
            Inr \<lparr>sn_signals = depth_signals K queue_name inspection, sn_queues = [observation]\<rparr>))"

definition inspecting :: "queue_collector \<Rightarrow> (string \<Rightarrow> pressure_inspection option res) \<Rightarrow> string \<Rightarrow> async_exc + pressure_snapshot \<Rightarrow> bool" where
  "inspecting K inspect queue_name out \<longleftrightarrow>
     out = (case inspect_pressure K inspect queue_name of Inl e \<Rightarrow> Inl (Other_Error e) | Inr snapshot \<Rightarrow> Inr snapshot)"

subsection \<open>Workers and dead letters\<close>

record worker_health =
  wh_worker_name :: string
  wh_running :: bool
  wh_last_heartbeat_at :: "int option"
  wh_expired_leases :: "bool list"

definition worker_signal :: "string option \<Rightarrow> string \<Rightarrow> string \<Rightarrow> string \<Rightarrow> pressure_severity \<Rightarrow> int option \<Rightarrow> int option \<Rightarrow> string \<Rightarrow> pressure_signal" where
  "worker_signal scope_id scope kind reason severity value threshold action =
     \<lparr>ps_scope = scope, ps_scope_id = scope_id, ps_kind = kind, ps_severity = severity, ps_value = value,
      ps_threshold = threshold, ps_reason = Some reason, ps_recommended_action = Some action\<rparr>"

definition stale_worker :: "int \<Rightarrow> int \<Rightarrow> worker_health \<Rightarrow> bool" where
  "stale_worker now stale_after_seconds w =
     (case wh_last_heartbeat_at w of None \<Rightarrow> True | Some h \<Rightarrow> stale_after_seconds * 1000000 < now - h)"

definition signals_of_worker :: "int \<Rightarrow> int \<Rightarrow> worker_health \<Rightarrow> pressure_signal list" where
  "signals_of_worker now stale_after_seconds w =
     (let stale = stale_worker now stale_after_seconds w; expired = filter id (wh_expired_leases w) in
      (if stale \<or> \<not> wh_running w
       then [worker_signal (Some (wh_worker_name w)) ''worker'' (if stale then ''worker_heartbeat_stale'' else ''worker_not_running'')
               (if stale then ''Worker heartbeat is stale.'' else ''Worker reports it is not running.'') WARNING None None
               ''Inspect worker process health and logs.'']
       else []) @
      (if expired \<noteq> []
       then [worker_signal (Some (wh_worker_name w)) ''worker'' ''lease_expiry_rate_high'' ''Worker has expired active task leases.''
               WARNING (Some (int (length expired))) (Some 1) ''Inspect stuck tasks and worker ownership.'']
       else []))"

definition collect_workers :: "int \<Rightarrow> int \<Rightarrow> worker_health list \<Rightarrow> pressure_signal list" where
  "collect_workers now stale_after_seconds workers =
     (if workers = []
      then [worker_signal None ''workers'' ''worker_count_zero'' ''No worker heartbeat records are available.'' UNKNOWN (Some 0) (Some 1)
              ''Verify worker heartbeat reporting is configured.'']
      else concat (map (signals_of_worker now stale_after_seconds) workers))"

record dlq_pressure =
  dp_queue_name :: string
  dp_message_count :: "int option"
  dp_indexed_count :: int

definition signal_of_dlq :: "int \<Rightarrow> int \<Rightarrow> dlq_pressure \<Rightarrow> pressure_signal" where
  "signal_of_dlq warning_count critical_count summary =
     (let value = (case dp_message_count summary of Some n \<Rightarrow> n | None \<Rightarrow> dp_indexed_count summary);
          severity = severity_for_thresholds (Some value) (Some warning_count) (Some critical_count)
      in \<lparr>ps_scope = ''dlq'', ps_scope_id = Some (dp_queue_name summary), ps_kind = ''dlq_growth_high'', ps_severity = severity,
          ps_value = Some value, ps_threshold = Some (if severity = CRITICAL then critical_count else warning_count),
          ps_reason = Some (''DLQ queue has '' @ int_str value @ '' indexed or broker-visible messages.''),
          ps_recommended_action = (if severity \<noteq> NORMAL then Some ''Inspect DLQ causes and replay or resolve messages.'' else None)\<rparr>)"

definition collect_dlq :: "int \<Rightarrow> int \<Rightarrow> dlq_pressure list \<Rightarrow> pressure_signal list" where
  "collect_dlq warning_count critical_count summaries = map (signal_of_dlq warning_count critical_count) summaries"

subsection \<open>Calls that never fail come back in order\<close>

lemma total_worker_reach:
  assumes "(mb_step W items)\<^sup>*\<^sup>* (map_bounded items n) s" "1 \<le> n" "\<And>x e. \<not> W x (Inl e)"
  shows "mb_reach W items n s" "\<forall>e. Failed e \<notin> set (mb_workers s)" "mb_main s = Gathering \<or> (\<exists>rs. mb_main s = Returned rs)"
proof -
  have "mb_reach W items n s \<and> (\<forall>e. Failed e \<notin> set (mb_workers s)) \<and> (mb_main s = Gathering \<or> (\<exists>rs. mb_main s = Returned rs))"
    using assms(1)
  proof (induction rule: rtranclp_induct)
    case base
    show ?case using assms(2) mb_start[of W items n] by (auto simp: map_bounded_def)
  next
    case (step s t)
    then have r: "mb_reach W items n t" by (blast intro: mb_next_state)
    have upd: "Failed e \<notin> set ((mb_workers s)[k := w])" if "w \<in> {At_head, Ended} \<union> range Awaiting" for e k w
      using step.IH that set_update_subset_insert[of "mb_workers s" k w] by auto
    from step.hyps(2) have "(\<forall>e. Failed e \<notin> set (mb_workers t)) \<and> (mb_main t = Gathering \<or> (\<exists>rs. mb_main t = Returned rs))"
      by (cases rule: mb_step.cases) (use step.IH assms(3) in \<open>auto simp: upd\<close>)
    then show ?case using r by blast
  qed
  then show "mb_reach W items n s" "\<forall>e. Failed e \<notin> set (mb_workers s)" "mb_main s = Gathering \<or> (\<exists>rs. mb_main s = Returned rs)" by auto
qed

lemma total_worker_result:
  assumes "(mb_step W items)\<^sup>*\<^sup>* (map_bounded items n) s" "1 \<le> n" and W: "\<And>x out. W x out \<longleftrightarrow> out = Inr (f x)"
  shows "mb_main s = Gathering \<or> mb_main s = Returned (map f items)"
proof -
  have W': "\<not> W x (Inl e)" for x e by (simp add: W)
  note r = total_worker_reach[OF assms(1,2) W']
  show ?thesis
  proof (cases "mb_main s = Gathering")
    case False
    then obtain rs where rs: "mb_main s = Returned rs" using r(3) by blast
    have "list_all2 (\<lambda>x r. W x (Inr r)) items rs" using mb_reach_inv[OF r(1)] rs by (simp add: mb_inv_def)
    then have "rs = map f items" by (simp add: W list_all2_conv_all_nth nth_equalityI)
    then show ?thesis using rs by simp
  qed simp
qed

lemma total_worker_returns:
  assumes s: "(mb_step W items)\<^sup>*\<^sup>* (map_bounded items n) s" "1 \<le> n" and W: "\<And>x out. W x out \<longleftrightarrow> out = Inr (f x)"
  shows "\<exists>t. (mb_step W items)\<^sup>*\<^sup>* s t \<and> mb_main t = Returned (map f items)"
proof -
  have "mb_reach W items n s" by (rule total_worker_reach(1)[OF s]) (simp add: W)
  then obtain t where t: "(mb_step W items)\<^sup>*\<^sup>* s t" "mb_final t" using mb_runs_to_end[OF mb_reach_inv] W by blast
  then have "mb_main t = Returned (map f items)"
    using total_worker_result[OF rtranclp_trans[OF s(1) t(1)] s(2) W] by (auto simp: mb_final_def)
  then show ?thesis using t(1) by blast
qed

text \<open> C25. RuntimePressureService.snapshot (observability/backpressure.py): whatever its collectors do, raise
  included, and however the bounded calls are scheduled, a collection that is not cancelled never raises, can
  always be completed, and is the collectors' signals and queues in the order of the collectors, with
  one signal of unknown severity in the place of a collector that failed. \<close>

theorem pressure_snapshot_complete:
  assumes "pressure_service collectors n = Inr (cs, m)"
    and "(mb_step (collecting exc_text) cs)\<^sup>*\<^sup>* (map_bounded cs m) s"
  shows "(mb_main s = Gathering \<or> mb_main s = Returned (map (collect_one exc_text) collectors)) \<and>
    (\<exists>t. (mb_step (collecting exc_text) cs)\<^sup>*\<^sup>* s t \<and> mb_main t = Returned (map (collect_one exc_text) collectors)) \<and>
    sn_signals (fst (snapshot_of (map (collect_one exc_text) collectors))) =
      concat (map (\<lambda>c. case snd c of Inr snap \<Rightarrow> sn_signals snap | Inl e \<Rightarrow> [unavailable_collector (fst c) (exc_text e)]) collectors)"
proof -
  have c: "cs = collectors" "1 \<le> m" using assms(1) by (auto simp: pressure_service_def split: if_splits)
  have W: "collecting exc_text x out \<longleftrightarrow> out = Inr (collect_one exc_text x)" for x out by (simp add: collecting_def)
  obtain t where t: "(mb_step (collecting exc_text) cs)\<^sup>*\<^sup>* s t" "mb_main t = Returned (map (collect_one exc_text) cs)"
    using total_worker_returns[OF assms(2) c(2) W] by blast
  have "mb_main s = Gathering \<or> mb_main s = Returned (map (collect_one exc_text) cs)"
    by (rule total_worker_result[OF assms(2) c(2) W])
  moreover have "sn_signals (collect_one exc_text x) = (case snd x of Inr snap \<Rightarrow> sn_signals snap | Inl e \<Rightarrow> [unavailable_collector (fst x) (exc_text e)])" for x
    by (simp add: collect_one_def split: sum.splits)
  ultimately show ?thesis using t c by (auto simp: snapshot_of_def join_snapshots_def comp_def)
qed

subsection \<open>Severities and queues\<close>

text \<open>The severities in order of urgency, those that were measured.\<close>

fun urgency :: "pressure_severity \<Rightarrow> nat" where
  "urgency UNKNOWN = 0"
| "urgency NORMAL = 1"
| "urgency WARNING = 2"
| "urgency CRITICAL = 3"

text \<open> severity_for_thresholds (observability/backpressure.py) with ordered thresholds: critical from the critical
  threshold on, warning between the two, normal below, unknown without a value, and never less
  urgent for a larger value. \<close>

theorem severity_exact:
  assumes "w \<le> c"
  shows "(severity_for_thresholds (Some v) (Some w) (Some c) = CRITICAL \<longleftrightarrow> c \<le> v) \<and>
    (severity_for_thresholds (Some v) (Some w) (Some c) = WARNING \<longleftrightarrow> w \<le> v \<and> v < c) \<and>
    (severity_for_thresholds (Some v) (Some w) (Some c) = NORMAL \<longleftrightarrow> v < w) \<and>
    (severity_for_thresholds value (Some w) (Some c) = UNKNOWN \<longleftrightarrow> value = None) \<and>
    (v \<le> v' \<longrightarrow> urgency (severity_for_thresholds (Some v) (Some w) (Some c)) \<le> urgency (severity_for_thresholds (Some v') (Some w) (Some c)))"
  using assms by (auto simp: severity_for_thresholds_def split: option.splits)

lemma inspect_pressure_cases:
  assumes "inspect_pressure K inspect q = Inr b"
  shows "(\<nexists>i. inspect q = Inr (Some i)) \<and> sn_queues b = [] \<and> (\<exists>sig. sn_signals b = [sig] \<and> ps_scope_id sig = Some q) \<or>
    (\<exists>i obs. inspect q = Inr (Some i) \<and> qo_queue_name obs = q \<and> b = \<lparr>sn_signals = depth_signals K q i, sn_queues = [obs]\<rparr>)"
proof (cases "case inspect q of Inr inspection \<Rightarrow> inspection | Inl _ \<Rightarrow> None")
  case None
  then have "\<nexists>i. inspect q = Inr (Some i)" by auto
  then show ?thesis using assms None by (auto simp: inspect_pressure_def queue_signal_def)
next
  case (Some i)
  then have i: "inspect q = Inr (Some i)" by (cases "inspect q") auto
  then show ?thesis using assms by (auto simp: inspect_pressure_def observed_queue_def bind_res_def split: if_splits)
qed

lemma depth_signals_head: "\<exists>sig rest. depth_signals K q i = sig # rest \<and> ps_scope_id sig = Some q"
  by (simp add: depth_signals_def queue_signal_def Let_def)

lemma depth_signals_idle:
  assumes "pi_consumer_count i = 0"
  shows "\<exists>sig \<in> set (depth_signals K q i). ps_scope_id sig = Some q \<and> ps_kind sig = ''consumer_count_zero'' \<and> ps_severity sig = CRITICAL"
  using assms by (simp add: depth_signals_def queue_signal_def Let_def)

lemma inspect_pressure_result:
  assumes "inspect_pressure K inspect q = Inr b"
  shows "ps_scope_id (hd (sn_signals b)) = Some q"
    and "map qo_queue_name (sn_queues b) = (if \<exists>i. inspect q = Inr (Some i) then [q] else [])"
    and "inspect q = Inr (Some i) \<Longrightarrow> sn_signals b = depth_signals K q i"
proof -
  note shape = inspect_pressure_cases[OF assms]
  show "ps_scope_id (hd (sn_signals b)) = Some q" using shape
  proof (elim disjE exE conjE)
    fix i obs
    assume "b = \<lparr>sn_signals = depth_signals K q i, sn_queues = [obs]\<rparr>"
    then show ?thesis using depth_signals_head[of K q i] by auto
  qed simp
  show "map qo_queue_name (sn_queues b) = (if \<exists>i. inspect q = Inr (Some i) then [q] else [])" using shape by auto
  show "inspect q = Inr (Some i) \<Longrightarrow> sn_signals b = depth_signals K q i" using shape by auto
qed

lemma inspect_pressures_result:
  assumes "list_all2 (\<lambda>q b. inspect_pressure K inspect q = Inr b) qs bs"
  shows "map (\<lambda>b. ps_scope_id (hd (sn_signals b))) bs = map Some qs"
    and "map qo_queue_name (concat (map sn_queues bs)) = filter (\<lambda>q. \<exists>i. inspect q = Inr (Some i)) qs"
  using assms by (induction rule: list_all2_induct) (simp_all add: inspect_pressure_result(1,2))

lemma joined_signals: "b \<in> set bs \<Longrightarrow> set (sn_signals b) \<subseteq> set (sn_signals (join_snapshots bs))"
  by (auto simp: join_snapshots_def)

text \<open> QueuePressureCollector (observability/backpressure.py) reports every configured queue once: the queue names
  are the stripped ones without blanks and repetitions, and when the bounded inspections return, the
  first signal of each queue is its depth or that it could not be inspected, in the order of
  the names; a queue is observed exactly when its inspection answered, and an empty consumer count
  is a critical signal. \<close>

theorem queue_pressure_reports_every_queue:
  assumes "make_queue_collector fresh names warn crit n source = Inr K"
    and "mb_reach (inspecting K inspect) (kc_queue_names K) (kc_max_concurrency K) s" and "mb_main s = Returned batches"
  shows "distinct (kc_queue_names K) \<and> set (kc_queue_names K) = {strip v | v. v \<in> set names} - {[]} \<and>
    map (\<lambda>b. ps_scope_id (hd (sn_signals b))) batches = map Some (kc_queue_names K) \<and>
    map qo_queue_name (sn_queues (join_snapshots batches)) =
      filter (\<lambda>q. \<exists>i. inspect q = Inr (Some i)) (kc_queue_names K) \<and>
    (\<forall>q i. q \<in> set (kc_queue_names K) \<longrightarrow> inspect q = Inr (Some i) \<longrightarrow> pi_consumer_count i = 0 \<longrightarrow>
       (\<exists>sig \<in> set (sn_signals (join_snapshots batches)). ps_scope_id sig = Some q \<and> ps_kind sig = ''consumer_count_zero'' \<and> ps_severity sig = CRITICAL))"
proof -
  have K: "kc_queue_names K = normalize_task_types names"
    using assms(1) by (auto simp: make_queue_collector_def Let_def split: if_splits)
  have batches: "list_all2 (\<lambda>q b. inspect_pressure K inspect q = Inr b) (kc_queue_names K) batches"
    using mb_reach_inv[OF assms(2)] assms(3) unfolding mb_inv_def
    by (auto simp: inspecting_def elim!: list_all2_mono split: sum.splits)
  have "\<exists>sig \<in> set (sn_signals (join_snapshots batches)). ps_scope_id sig = Some q \<and> ps_kind sig = ''consumer_count_zero'' \<and> ps_severity sig = CRITICAL"
    if q: "q \<in> set (kc_queue_names K)" "inspect q = Inr (Some i)" "pi_consumer_count i = 0" for q i
  proof -
    obtain j where "j < length (kc_queue_names K)" "kc_queue_names K ! j = q" using q(1) by (auto simp: in_set_conv_nth)
    then have "batches ! j \<in> set batches" "inspect_pressure K inspect q = Inr (batches ! j)"
      using list_all2_lengthD[OF batches] list_all2_nthD[OF batches, of j] by auto
    then have b: "batches ! j \<in> set batches" and "sn_signals (batches ! j) = depth_signals K q i"
      using inspect_pressure_result(3)[of K inspect q "batches ! j" i] q(2) by auto
    then have "set (depth_signals K q i) \<subseteq> set (sn_signals (join_snapshots batches))"
      using joined_signals[OF b] by simp
    then show ?thesis using depth_signals_idle[OF q(3), of K q] by blast
  qed
  then show ?thesis using inspect_pressures_result[OF batches] K by (auto simp: distinct_normalize_task_types set_normalize_task_types join_snapshots_def)
qed

subsection \<open>Witnesses\<close>

definition sample_inspect :: "string \<Rightarrow> pressure_inspection option res" where
  "sample_inspect q = (if q = ''jobs'' then Inr (Some \<lparr>pi_message_count = 150, pi_consumer_count = 0\<rparr>) else Inl (RuntimeError ''down''))"

definition sample_queue_collector :: queue_collector where
  "sample_queue_collector = \<lparr>kc_source_id = ''src'', kc_queue_names = [''jobs'', ''mail''], kc_warning_depth = 100,
     kc_critical_depth = 1000, kc_max_concurrency = 16\<rparr>"

lemma sample_queue_collector_made:
  "make_queue_collector ''f'' ['' jobs'', ''mail'', ''jobs'', '' ''] 100 1000 16 (Some ''src'') = Inr sample_queue_collector"
  by code_simp

definition sample_collectors :: "collector list" where
  "sample_collectors = [(''Q'', Inl (RuntimeError ''x''))]"

theorem pressure_snapshot_complete_witness:
  "\<exists>t. (mb_step (collecting (\<lambda>e. ''down'')) sample_collectors)\<^sup>*\<^sup>* (map_bounded sample_collectors 8) t \<and>
     mb_main t = Returned [\<lparr>sn_signals = [unavailable_collector ''Q'' ''down''], sn_queues = []\<rparr>]"
proof -
  have "pressure_service sample_collectors 8 = Inr (sample_collectors, 8)" by (simp add: pressure_service_def)
  note complete = pressure_snapshot_complete[OF this rtranclp.rtrancl_refl, of "\<lambda>e. ''down''"]
  have "map (collect_one (\<lambda>e. ''down'')) sample_collectors = [\<lparr>sn_signals = [unavailable_collector ''Q'' ''down''], sn_queues = []\<rparr>]"
    by (simp add: collect_one_def sample_collectors_def)
  then show ?thesis using complete[THEN conjunct2, THEN conjunct1] by simp
qed

theorem severity_exact_witness:
  "(100::int) \<le> 1000 \<and> severity_for_thresholds (Some 150) (Some 100) (Some 1000) = WARNING"
  using severity_exact[of 100 1000 150] by simp

theorem queue_pressure_reports_every_queue_witness:
  "\<exists>s batches. mb_reach (inspecting sample_queue_collector sample_inspect) [''jobs'', ''mail''] 16 s \<and> mb_main s = Returned batches \<and>
     map (\<lambda>b. ps_scope_id (hd (sn_signals b))) batches = [Some ''jobs'', Some ''mail''] \<and>
     map qo_queue_name (sn_queues (join_snapshots batches)) = [''jobs'']"
proof -
  define f where "f q = projr (inspect_pressure sample_queue_collector sample_inspect q)" for q
  have W: "inspecting sample_queue_collector sample_inspect q out \<longleftrightarrow> out = Inr (f q)" for q out
    by (simp add: f_def inspecting_def inspect_pressure_def sample_inspect_def observed_queue_def bind_res_def)
  obtain t where t: "(mb_step (inspecting sample_queue_collector sample_inspect) [''jobs'', ''mail''])\<^sup>*\<^sup>* (map_bounded [''jobs'', ''mail''] 16) t"
      "mb_main t = Returned (map f [''jobs'', ''mail''])"
    using total_worker_returns[OF rtranclp.rtrancl_refl, of 16 "inspecting sample_queue_collector sample_inspect" f "[''jobs'', ''mail'']", OF _ W] by auto
  then have r: "mb_reach (inspecting sample_queue_collector sample_inspect) [''jobs'', ''mail''] 16 t"
    using total_worker_reach(1)[OF t(1)] W by simp
  have K: "kc_queue_names sample_queue_collector = [''jobs'', ''mail'']" "kc_max_concurrency sample_queue_collector = 16"
    by (simp_all add: sample_queue_collector_def)
  have "sample_inspect ''jobs'' = Inr (Some \<lparr>pi_message_count = 150, pi_consumer_count = 0\<rparr>)" "\<nexists>i. sample_inspect ''mail'' = Inr (Some i)"
    by (simp_all add: sample_inspect_def)
  then show ?thesis
    using queue_pressure_reports_every_queue[OF sample_queue_collector_made, of sample_inspect t] r t(2) K by auto
qed

end
