(* ===== verification/Recovery.thy ===== *)
theory Recovery
  imports Relayna_Prelude "HOL-Library.Option_ord"
begin

text \<open>
  \<^verbatim>\<open>studio/backend/src/relayna_studio/_recovery.py\<close>: Studio's recovery plans.  A plan retries the selected
  failures of a service, one request per failure, in batches an operator authorises.  Several backend
  instances work on the same database, so the workers are a step relation: a transaction of the
  database is one step (the code takes the row lock of the plan, and the reservations of failures are
  a primary key), everything between two transactions is a step of its own, and a process may stop at
  any point.  What the services answer, exceptions included, is an argument of the steps; \<open>rv_date\<close> reads a
  date and the hashes are SHA-256 over canonical JSON.  Instants are microseconds; an instant Studio wrote
  itself is kept as such, an instant of a service as the value it sent.
\<close>

subsection \<open>Plans\<close>

datatype dispatch_state = Not_Dispatched | Dispatching | Acceptance_Unknown | Accepted | Blocked

datatype outcome = Not_Requested | Outcome_Unknown | Outcome_Pending | Succeeded | Failure_Observed

datatype plan_state = Ready | Running_Plan | Paused | Stopped | Completed

record observed_event =
  oe_task_id :: string
  oe_status :: string
  oe_timestamp :: int
  oe_event_id :: pyval

record recovery_item =
  ri_failure_id :: string
  ri_target_queue :: pyval
  ri_override_payload :: pyval
  ri_fingerprint :: string
  ri_baseline_event :: dict
  ri_receipt_marker :: string
  ri_dispatch_state :: dispatch_state
  ri_outcome :: outcome
  ri_requested_at :: "int option"
  ri_accepted_at :: pyval
  ri_replacement_task_id :: pyval
  ri_observed_at :: "int option"
  ri_observed_event :: "observed_event option"
  ri_last_checked_at :: "int option"
  ri_message :: "string option"

record recovery_plan =
  rp_plan_id :: string
  rp_request_hash :: string
  rp_service_id :: string
  rp_environment :: string
  rp_base_url :: string
  rp_items :: "recovery_item list"
  rp_interval_seconds :: int
  rp_note :: string
  rp_state :: plan_state
  rp_version :: int
  rp_updated_at :: int
  rp_execution_actor :: "string option"
  rp_execution_email :: "string option"
  rp_started_at :: "int option"
  rp_dispatch_finished_at :: "int option"
  rp_allowance :: int
  rp_next_dispatch_at :: int

text \<open>The exceptions the code tells apart: of the federation (with its retryable flag), HTTP, and any other.\<close>

datatype recovery_error = Federation_Error string bool | Http_Error int string | Service_Missing string | Unforeseen string

type_synonym 'a answer = "recovery_error + 'a"

fun error_text :: "recovery_error \<Rightarrow> string" where
  "error_text (Federation_Error m _) = m"
| "error_text (Http_Error _ m) = m"
| "error_text (Service_Missing m) = m"
| "error_text (Unforeseen m) = m"

definition used :: "recovery_plan \<Rightarrow> nat" where
  "used p = length (filter (\<lambda>i. ri_dispatch_state i \<noteq> Not_Dispatched) (rp_items p))"

definition find_item :: "string \<Rightarrow> recovery_item list \<Rightarrow> recovery_item option" where
  "find_item fid items = find (\<lambda>i. ri_failure_id i = fid) items"

fun update_item :: "string \<Rightarrow> (recovery_item \<Rightarrow> recovery_item) \<Rightarrow> recovery_item list \<Rightarrow> recovery_item list" where
  "update_item fid f [] = []"
| "update_item fid f (i # rest) = (if ri_failure_id i = fid then f i # rest else i # update_item fid f rest)"

subsection \<open>The database\<close>

record audit_entry =
  ae_action :: string
  ae_plan :: string
  ae_actor :: "string option"
  ae_states :: "(string \<times> dispatch_state \<times> outcome) list"

record recovery_db =
  rd_plans :: "string \<Rightarrow> (recovery_plan \<times> int) option"
  rd_claims :: "string \<times> string \<times> string \<Rightarrow> string option"
  rd_audit :: "audit_entry list"

text \<open>An edit of a plan raises, leaves it alone (None), or changes it.\<close>

type_synonym plan_edit = "recovery_plan \<Rightarrow> int \<Rightarrow> recovery_plan option answer"

definition moved_items :: "recovery_plan \<Rightarrow> recovery_plan \<Rightarrow> (string \<times> dispatch_state \<times> outcome) list" where
  "moved_items before doc =
     map (\<lambda>(b, i). (ri_failure_id i, ri_dispatch_state i, ri_outcome i))
       (filter (\<lambda>(b, i). (ri_dispatch_state b, ri_outcome b) \<noteq> (ri_dispatch_state i, ri_outcome i)) (zip (rp_items before) (rp_items doc)))"

definition change_plan :: "string \<Rightarrow> plan_edit \<Rightarrow> string \<Rightarrow> string option \<Rightarrow> int \<Rightarrow> recovery_db \<Rightarrow> recovery_plan answer \<times> recovery_db" where
  "change_plan pid edit action actor now db =
     (case rd_plans db pid of
        None \<Rightarrow> (Inl (Http_Error 404 ''Recovery plan not found.''), db)
      | Some (before, poll) \<Rightarrow>
          (case edit before now of
             Inl e \<Rightarrow> (Inl e, db)
           | Inr None \<Rightarrow> (Inr before, db)
           | Inr (Some doc) \<Rightarrow>
               let doc = doc\<lparr>rp_updated_at := now\<rparr>;
                   poll = (if action \<in> {''recovery.batch'', ''recovery.resume''} then now else poll);
                   changed = moved_items before doc;
                   entry = \<lparr>ae_action = action, ae_plan = pid,
                     ae_actor = (case actor of Some a \<Rightarrow> Some a | None \<Rightarrow> rp_execution_actor doc), ae_states = changed\<rparr>
               in (Inr doc, db\<lparr>rd_plans := (rd_plans db)(pid \<mapsto> (doc, poll)),
                     rd_audit := rd_audit db @ (if action = ''recovery.observed'' \<and> changed = [] then [] else [entry])\<rparr>)))"

definition get_plan :: "string \<Rightarrow> recovery_db \<Rightarrow> recovery_plan answer" where
  "get_plan pid db =
     (case rd_plans db pid of None \<Rightarrow> Inl (Http_Error 404 ''Recovery plan not found.'') | Some (doc, _) \<Rightarrow> Inr doc)"

definition claim_keys :: "recovery_plan \<Rightarrow> (string \<times> string \<times> string) list" where
  "claim_keys p = map (\<lambda>i. (rp_service_id p, rp_environment p, ri_failure_id i)) (rp_items p)"

text \<open>Inserting the plan and its reservations is one transaction; a primary key that exists refuses it.\<close>

definition store_create :: "string option \<Rightarrow> int \<Rightarrow> recovery_plan \<Rightarrow> recovery_db \<Rightarrow> recovery_plan answer \<times> recovery_db" where
  "store_create actor now doc db =
     (if rd_plans db (rp_plan_id doc) = None \<and> list_all (\<lambda>k. rd_claims db k = None) (claim_keys doc) \<and> distinct (claim_keys doc)
      then (Inr doc, db\<lparr>rd_plans := (rd_plans db)(rp_plan_id doc \<mapsto> (doc, now)),
              rd_claims := (\<lambda>k. if k \<in> set (claim_keys doc) then Some (rp_plan_id doc) else rd_claims db k),
              rd_audit := rd_audit db @ [\<lparr>ae_action = ''recovery.created'', ae_plan = rp_plan_id doc, ae_actor = actor, ae_states = []\<rparr>]\<rparr>)
      else (case get_plan (rp_plan_id doc) db of
              Inl _ \<Rightarrow> (Inl (Http_Error 409 ''A selected failure is already reserved by another recovery plan.''), db)
            | Inr existing \<Rightarrow>
                if rp_request_hash existing \<noteq> rp_request_hash doc
                then (Inl (Http_Error 409 ''Request ID already belongs to a different recovery plan.''), db)
                else (Inr existing, db)))"

text \<open>The plan whose poll is due is given to the worker and its next poll is set; the worker gets any due row that no other transaction holds.\<close>

definition active_plan :: "recovery_plan \<Rightarrow> bool" where
  "active_plan doc \<longleftrightarrow> rp_state doc = Running_Plan \<or>
     (\<exists>i \<in> set (rp_items doc). ri_dispatch_state i \<in> {Dispatching, Acceptance_Unknown, Accepted} \<and> ri_outcome i \<notin> {Succeeded, Failure_Observed})"

definition take_due :: "string \<Rightarrow> int \<Rightarrow> recovery_db \<Rightarrow> (recovery_plan \<times> recovery_db) option" where
  "take_due pid now db =
     (case rd_plans db pid of
        None \<Rightarrow> None
      | Some (doc, poll) \<Rightarrow>
          if poll \<le> now
          then Some (doc, db\<lparr>rd_plans := (rd_plans db)(pid \<mapsto> (doc, now + (if active_plan doc then 2 else 86400) * 1000000))\<rparr>)
          else None)"

subsection \<open>The edits of a plan\<close>

datatype control_action = Batch | Pause | Resume | Stop

record control =
  ct_action :: control_action
  ct_count :: int
  ct_version :: int

record operator =
  op_user_id :: string
  op_email :: string

definition conflict :: "string \<Rightarrow> 'a answer" where
  "conflict detail = Inl (Http_Error 409 detail)"

definition control_state :: "control \<Rightarrow> recovery_plan \<Rightarrow> int \<Rightarrow> recovery_plan answer" where
  "control_state c plan now =
     (let state = rp_state plan in
      case ct_action c of
        Stop \<Rightarrow> if state \<in> {Stopped, Completed} then conflict ''Dispatch has already finished.''
                else Inr (plan\<lparr>rp_state := Stopped, rp_dispatch_finished_at := Some now\<rparr>)
      | Pause \<Rightarrow> if state = Running_Plan then Inr (plan\<lparr>rp_state := Paused\<rparr>)
                 else conflict ''Control is not available in the current plan state.''
      | Resume \<Rightarrow> if state \<noteq> Paused then conflict ''Control is not available in the current plan state.''
                  else if rp_allowance plan \<le> int (used plan) then conflict ''Batch allowance is exhausted. Authorize another batch.''
                  else Inr (plan\<lparr>rp_state := Running_Plan\<rparr>)
      | Batch \<Rightarrow> if state \<notin> {Ready, Paused} then conflict ''Control is not available in the current plan state.''
                 else if used plan = length (rp_items plan) then conflict ''No pending items remain.''
                 else Inr (plan\<lparr>rp_allowance := min (int (length (rp_items plan))) (int (used plan) + ct_count c), rp_state := Running_Plan\<rparr>))"

definition control_edit :: "control \<Rightarrow> operator option \<Rightarrow> plan_edit" where
  "control_edit c actor plan now =
     (if rp_version plan \<noteq> ct_version c then conflict ''Plan changed. Refresh before issuing another control.''
      else (case control_state c plan now of
              Inl e \<Rightarrow> Inl e
            | Inr plan \<Rightarrow>
                let plan = (if rp_state plan = Running_Plan
                            then plan\<lparr>rp_execution_actor := map_option op_user_id actor,
                                   rp_execution_email := Some (case actor of Some a \<Rightarrow> op_email a | None \<Rightarrow> ''operator''),
                                   rp_started_at := (case rp_started_at plan of Some t \<Rightarrow> Some t | None \<Rightarrow> Some now)\<rparr>
                            else plan)
                in Inr (Some (plan\<lparr>rp_version := rp_version plan + 1\<rparr>))))"

fun control_name :: "control_action \<Rightarrow> string" where
  "control_name Batch = ''batch''"
| "control_name Pause = ''pause''"
| "control_name Resume = ''resume''"
| "control_name Stop = ''stop''"

definition control_plan :: "string \<Rightarrow> control \<Rightarrow> operator option \<Rightarrow> int \<Rightarrow> recovery_db \<Rightarrow> recovery_plan answer \<times> recovery_db" where
  "control_plan pid c actor now db =
     change_plan pid (control_edit c actor) (''recovery.'' @ control_name (ct_action c)) (map_option op_user_id actor) now db"

text \<open>\<^verbatim>\<open>next(i for i in items if ...)\<close> raises when no item has the id.\<close>

definition with_item :: "string \<Rightarrow> recovery_plan \<Rightarrow> (recovery_item \<Rightarrow> recovery_plan option answer) \<Rightarrow> recovery_plan option answer" where
  "with_item fid doc f = (case find_item fid (rp_items doc) of None \<Rightarrow> Inl (Unforeseen ''StopIteration'') | Some i \<Rightarrow> f i)"

definition block_edit :: "string \<Rightarrow> bool \<Rightarrow> string \<Rightarrow> plan_edit" where
  "block_edit fid retryable message doc now = with_item fid doc (\<lambda>target.
     if rp_state doc \<noteq> Running_Plan \<or> ri_dispatch_state target \<noteq> Not_Dispatched then Inr None
     else Inr (Some (doc\<lparr>rp_items := update_item fid (\<lambda>i. i\<lparr>ri_dispatch_state := (if retryable then Not_Dispatched else Blocked),
            ri_message := Some message\<rparr>) (rp_items doc), rp_state := Paused, rp_version := rp_version doc + 1\<rparr>)))"

definition claim_edit :: "string \<Rightarrow> int \<Rightarrow> dict \<Rightarrow> plan_edit" where
  "claim_edit fid version baseline doc now = with_item fid doc (\<lambda>target.
     if rp_state doc \<noteq> Running_Plan \<or> rp_version doc \<noteq> version \<or> ri_dispatch_state target \<noteq> Not_Dispatched \<or>
        rp_allowance doc \<le> int (used doc) \<or> now < rp_next_dispatch_at doc then Inr None
     else Inr (Some (doc\<lparr>rp_items := update_item fid (\<lambda>i. i\<lparr>ri_dispatch_state := Dispatching, ri_requested_at := Some now,
            ri_outcome := Outcome_Unknown, ri_baseline_event := baseline\<rparr>) (rp_items doc),
            rp_next_dispatch_at := now + rp_interval_seconds doc * 1000000\<rparr>)))"

text \<open>The updates of one item: absent fields stay.\<close>

record item_changes =
  ic_dispatch_state :: "dispatch_state option"
  ic_outcome :: "outcome option"
  ic_accepted_at :: "pyval option"
  ic_replacement_task_id :: "pyval option"
  ic_message :: "string option option"
  ic_observed :: "(int \<times> observed_event) option"
  ic_last_checked_at :: "int option"

definition no_changes :: item_changes where
  "no_changes = \<lparr>ic_dispatch_state = None, ic_outcome = None, ic_accepted_at = None, ic_replacement_task_id = None,
     ic_message = None, ic_observed = None, ic_last_checked_at = None\<rparr>"

definition or_else :: "'a option \<Rightarrow> 'a \<Rightarrow> 'a" where
  "or_else x d = (case x of Some v \<Rightarrow> v | None \<Rightarrow> d)"

definition apply_changes :: "item_changes \<Rightarrow> recovery_item \<Rightarrow> recovery_item" where
  "apply_changes ch i = i\<lparr>
     ri_dispatch_state := or_else (ic_dispatch_state ch) (ri_dispatch_state i),
     ri_outcome := or_else (ic_outcome ch) (ri_outcome i),
     ri_accepted_at := or_else (ic_accepted_at ch) (ri_accepted_at i),
     ri_replacement_task_id := or_else (ic_replacement_task_id ch) (ri_replacement_task_id i),
     ri_message := or_else (ic_message ch) (ri_message i),
     ri_observed_at := or_else (map_option (Some \<circ> fst) (ic_observed ch)) (ri_observed_at i),
     ri_observed_event := or_else (map_option (Some \<circ> snd) (ic_observed ch)) (ri_observed_event i),
     ri_last_checked_at := or_else (map_option Some (ic_last_checked_at ch)) (ri_last_checked_at i)\<rparr>"

definition item_change_edit :: "string \<Rightarrow> item_changes \<Rightarrow> plan_edit" where
  "item_change_edit fid ch plan now = with_item fid plan (\<lambda>item.
     if ri_outcome item \<in> {Succeeded, Failure_Observed} then Inr None
     else if ic_dispatch_state ch = Some Acceptance_Unknown \<and> ri_dispatch_state item = Accepted then Inr None
     else Inr (Some (plan\<lparr>rp_items := update_item fid (apply_changes ch) (rp_items plan)\<rparr>)))"

definition settle_edit :: plan_edit where
  "settle_edit doc now =
     (if rp_state doc = Running_Plan \<and> rp_allowance doc \<le> int (used doc)
      then Inr (Some (if used doc = length (rp_items doc)
             then doc\<lparr>rp_state := Completed, rp_dispatch_finished_at := Some now, rp_version := rp_version doc + 1\<rparr>
             else doc\<lparr>rp_state := Paused, rp_version := rp_version doc + 1\<rparr>))
      else Inr None)"

subsection \<open>Services, inspection and creation\<close>

record pinned_service =
  pv_service_id :: string
  pv_name :: string
  pv_environment :: string
  pv_base_url :: string
  pv_supported_routes :: pyval
  pv_payload_aliases :: "(string \<times> string) list"

record selection =
  sl_failure_id :: string
  sl_target_queue :: "string option"
  sl_override_payload :: pyval

record preview_request =
  pq_service_id :: string
  pq_environment :: string
  pq_items :: "selection list"
  pq_interval_seconds :: int
  pq_note :: string

text \<open>What the inspection of a selection found; an inspection that raised has no fingerprint and no baseline.\<close>

record inspection =
  in_failure_id :: string
  in_original_task_id :: pyval
  in_target_queue :: pyval
  in_payload_available :: bool
  in_override_payload :: pyval
  in_errors :: "string list"
  in_fingerprint :: string
  in_baseline_event :: dict
  in_failed_at :: pyval

record recovery_preview =
  pr_service_id :: string
  pr_service_name :: string
  pr_environment :: string
  pr_base_url :: string
  pr_items :: "inspection list"
  pr_interval_seconds :: int
  pr_note :: string

text \<open>The reading of dates and the SHA-256 digests of details, previews and requests.\<close>

record recovery_env =
  rv_date :: "pyval \<Rightarrow> int option"
  rv_hash :: "pyval \<Rightarrow> string"
  rv_preview_digest :: "recovery_preview \<Rightarrow> string"
  rv_request_hash :: "preview_request \<times> string \<times> string \<Rightarrow> string"
  rv_request_bytes :: "preview_request \<Rightarrow> nat"

definition alias_name :: "pinned_service \<Rightarrow> string \<Rightarrow> string" where
  "alias_name service field = (case map_of (pv_payload_aliases service) field of Some v \<Rightarrow> v | None \<Rightarrow> field)"

definition pinned :: "string \<Rightarrow> string option \<Rightarrow> pinned_service answer \<Rightarrow> pinned_service answer" where
  "pinned environment base_url found =
     (case found of
        Inl e \<Rightarrow> Inl e
      | Inr service \<Rightarrow>
          if pv_environment service \<noteq> environment \<or> (case base_url of Some u \<Rightarrow> pv_base_url service \<noteq> u | None \<Rightarrow> False)
          then conflict ''Pinned service environment or base URL changed; new dispatch is blocked.''
          else (case pv_supported_routes service of
                  PList routes \<Rightarrow>
                    if PStr ''failed_tasks.detail'' \<in> set routes \<and> PStr ''failed_tasks.retry'' \<in> set routes then Inr service
                    else conflict ''Service must advertise failed-task detail and retry support.''
                | _ \<Rightarrow> conflict ''Service must advertise failed-task detail and retry support.''))"

definition fingerprint_fields :: "string list" where
  "fingerprint_fields = [''failure_id'', ''task_id'', ''failed_at'', ''status'', ''source_queue_name'', ''payload_available'', ''raw_body_b64'',
     ''body'', ''headers'', ''content_type'', ''retry_status'', ''retried_at'', ''retry_note'', ''retried_task_id'', ''retry_target_queue'']"

definition fingerprint :: "recovery_env \<Rightarrow> dict \<Rightarrow> string" where
  "fingerprint E detail = rv_hash E (PDict (map (\<lambda>k. (k, dict_get detail k)) fingerprint_fields))"

definition stage_queues :: "dict \<Rightarrow> pyval list answer" where
  "stage_queues topology =
     (case (case map_of topology ''graph'' of Some g \<Rightarrow> g | None \<Rightarrow> PDict topology) of
        PDict graph \<Rightarrow>
          (case map_of graph ''stages'' of
             None \<Rightarrow> Inr []
           | Some (PList stages) \<Rightarrow> Inr (concat (map (\<lambda>s. case s of PDict d \<Rightarrow> [dict_get d ''queue''] | _ \<Rightarrow> []) stages))
           | Some (PStr _) \<Rightarrow> Inr []
           | Some (PDict _) \<Rightarrow> Inr []
           | Some _ \<Rightarrow> Inl (Unforeseen ''TypeError''))
      | _ \<Rightarrow> Inl (Unforeseen ''AttributeError''))"

definition selected_target :: "selection \<Rightarrow> dict \<Rightarrow> pyval" where
  "selected_target sel detail =
     (case sl_target_queue sel of Some q \<Rightarrow> if q \<noteq> [] then PStr q else dict_get detail ''source_queue_name''
      | None \<Rightarrow> dict_get detail ''source_queue_name'')"

definition latest_event :: "dict \<Rightarrow> dict option" where
  "latest_event detail =
     (let latest = dict_get detail ''latest_status'' in
      if \<not> truthy latest then Some []
      else case latest of PDict b \<Rightarrow> (case map_of b ''event'' of Some (PDict e) \<Rightarrow> Some e | Some _ \<Rightarrow> None | None \<Rightarrow> Some b) | _ \<Rightarrow> Some [])"

definition detail_errors :: "selection \<Rightarrow> dict \<Rightarrow> string list" where
  "detail_errors sel detail =
     (if dict_get detail ''failure_id'' \<noteq> PStr (sl_failure_id sel) then [''Service returned a different failure ID.''] else []) @
     (if dict_get detail ''status'' \<notin> {PStr ''DLQ'', PStr ''retry_exhausted'', PStr ''terminal_failed''}
      then [''Failure is no longer eligible for manual retry.''] else []) @
     (if \<not> truthy (dict_get detail ''payload_available'') \<or> \<not> truthy (dict_get detail ''raw_body_b64'')
      then [''Retained payload is missing; an override cannot restore eligibility.''] else []) @
     (if dict_get detail ''retry_status'' \<noteq> PStr ''not_retried'' then [''This failure snapshot has already been retried.''] else [])"

definition inspect_selection :: "recovery_env \<Rightarrow> pinned_service \<Rightarrow> selection \<Rightarrow> dict answer \<Rightarrow> dict answer \<Rightarrow> inspection answer" where
  "inspect_selection E service sel fetched topology =
     (case fetched of
        Inl e \<Rightarrow> Inl e
      | Inr detail \<Rightarrow>
          let target = selected_target sel detail; key = alias_name service ''timestamp'';
              answer = (\<lambda>errors. Inr \<lparr>in_failure_id = sl_failure_id sel, in_original_task_id = dict_get detail ''task_id'', in_target_queue = target,
                in_payload_available = truthy (dict_get detail ''payload_available''), in_override_payload = sl_override_payload sel,
                in_errors = errors, in_fingerprint = fingerprint E detail,
                in_baseline_event = (case latest_event detail of Some b \<Rightarrow> [(key, dict_get b key)] | None \<Rightarrow> []),
                in_failed_at = dict_get detail ''failed_at''\<rparr>) in
          if \<not> truthy target then answer (detail_errors sel detail @ [''No target queue is available.''])
          else if target = dict_get detail ''source_queue_name'' then answer (detail_errors sel detail)
          else (case (case topology of Inl e \<Rightarrow> Inl e | Inr t \<Rightarrow> stage_queues t) of
                  Inl e \<Rightarrow> Inl e
                | Inr queues \<Rightarrow> answer (detail_errors sel detail @
                    (if target \<in> set queues then [] else [''Target queue is not a current workflow stage queue of this service.'']))))"

definition eligible :: "inspection \<Rightarrow> bool" where
  "eligible x \<longleftrightarrow> in_errors x = []"

definition valid_preview :: "recovery_env \<Rightarrow> preview_request \<Rightarrow> bool" where
  "valid_preview E payload \<longleftrightarrow>
     pq_service_id payload \<noteq> [] \<and> length (pq_service_id payload) \<le> 512 \<and>
     pq_environment payload \<noteq> [] \<and> length (pq_environment payload) \<le> 128 \<and>
     1 \<le> length (pq_items payload) \<and> length (pq_items payload) \<le> 200 \<and>
     1 \<le> pq_interval_seconds payload \<and> pq_interval_seconds payload \<le> 60 \<and> length (pq_note payload) \<le> 1000 \<and>
     list_all (\<lambda>s. sl_failure_id s \<noteq> [] \<and> length (sl_failure_id s) \<le> 512 \<and>
       (case sl_target_queue s of None \<Rightarrow> True | Some q \<Rightarrow> q \<noteq> [] \<and> length q \<le> 512)) (pq_items payload) \<and>
     distinct (map sl_failure_id (pq_items payload)) \<and> rv_request_bytes E payload \<le> 512000"

text \<open>The inspection of the preview keeps what the federation and HTTP raised as the item's error.\<close>

definition preview_item :: "selection \<Rightarrow> inspection answer \<Rightarrow> inspection answer" where
  "preview_item sel inspected =
     (let refused = (\<lambda>m. Inr \<lparr>in_failure_id = sl_failure_id sel, in_original_task_id = PNone, in_target_queue = opt_str (sl_target_queue sel),
        in_payload_available = False, in_override_payload = sl_override_payload sel, in_errors = [m], in_fingerprint = [],
        in_baseline_event = [], in_failed_at = PNone\<rparr>) in
      case inspected of
        Inl (Federation_Error m r) \<Rightarrow> refused m
      | Inl (Http_Error c m) \<Rightarrow> refused m
      | _ \<Rightarrow> inspected)"

fun gather :: "'a answer list \<Rightarrow> 'a list answer" where
  "gather [] = Inr []"
| "gather (Inl e # xs) = Inl e"
| "gather (Inr x # xs) = (case gather xs of Inl e \<Rightarrow> Inl e | Inr ys \<Rightarrow> Inr (x # ys))"

definition preview_plan :: "recovery_env \<Rightarrow> preview_request \<Rightarrow> pinned_service answer \<Rightarrow> (string \<Rightarrow> dict answer \<times> dict answer) \<Rightarrow> recovery_preview answer" where
  "preview_plan E payload found answers =
     (case pinned (pq_environment payload) None found of
        Inl e \<Rightarrow> Inl e
      | Inr service \<Rightarrow>
          (case gather (map (\<lambda>sel. preview_item sel
                  (inspect_selection E service sel (fst (answers (sl_failure_id sel))) (snd (answers (sl_failure_id sel))))) (pq_items payload)) of
             Inl e \<Rightarrow> Inl e
           | Inr items \<Rightarrow> Inr \<lparr>pr_service_id = pv_service_id service, pr_service_name = pv_name service, pr_environment = pv_environment service,
               pr_base_url = pv_base_url service, pr_items = items, pr_interval_seconds = pq_interval_seconds payload, pr_note = pq_note payload\<rparr>))"

definition plan_item :: "string \<Rightarrow> nat \<Rightarrow> inspection \<Rightarrow> recovery_item" where
  "plan_item request_id index x =
     \<lparr>ri_failure_id = in_failure_id x, ri_target_queue = in_target_queue x, ri_override_payload = in_override_payload x,
      ri_fingerprint = in_fingerprint x, ri_baseline_event = in_baseline_event x,
      ri_receipt_marker = ''[studio-recovery:'' @ request_id @ '':'' @ nat_str index @ '']'',
      ri_dispatch_state = Not_Dispatched, ri_outcome = Not_Requested, ri_requested_at = None, ri_accepted_at = PNone,
      ri_replacement_task_id = PNone, ri_observed_at = None, ri_observed_event = None, ri_last_checked_at = None, ri_message = None\<rparr>"

definition new_plan :: "string \<Rightarrow> string \<Rightarrow> int \<Rightarrow> recovery_preview \<Rightarrow> recovery_plan" where
  "new_plan request_id request_hash now preview =
     \<lparr>rp_plan_id = request_id, rp_request_hash = request_hash, rp_service_id = pr_service_id preview, rp_environment = pr_environment preview,
      rp_base_url = pr_base_url preview, rp_items = map (\<lambda>(k, x). plan_item request_id k x) (enumerate 0 (pr_items preview)),
      rp_interval_seconds = pr_interval_seconds preview, rp_note = pr_note preview, rp_state = Ready, rp_version = 0, rp_updated_at = now,
      rp_execution_actor = None, rp_execution_email = None, rp_started_at = None, rp_dispatch_finished_at = None, rp_allowance = 0,
      rp_next_dispatch_at = now\<rparr>"

definition create_plan ::
  "recovery_env \<Rightarrow> preview_request \<Rightarrow> string \<Rightarrow> string \<Rightarrow> operator option \<Rightarrow> pinned_service answer \<Rightarrow> (string \<Rightarrow> dict answer \<times> dict answer) \<Rightarrow>
   int \<Rightarrow> recovery_db \<Rightarrow> recovery_plan answer \<times> recovery_db" where
  "create_plan E payload request_id digest actor found answers now db =
     (let request_hash = rv_request_hash E (payload, request_id, digest) in
      case get_plan request_id db of
        Inr existing \<Rightarrow>
          if rp_request_hash existing \<noteq> request_hash then (conflict ''Request ID already belongs to a different recovery plan.'', db)
          else (Inr existing, db)
      | Inl _ \<Rightarrow>
          (case preview_plan E payload found answers of
             Inl e \<Rightarrow> (Inl e, db)
           | Inr preview \<Rightarrow>
               if \<not> list_all eligible (pr_items preview) \<or> rv_preview_digest E preview \<noteq> digest
               then (conflict ''Eligibility or preview changed. Preview the cohort again before saving.'', db)
               else store_create (map_option op_user_id actor) now (new_plan request_id request_hash now preview) db))"

subsection \<open>Dispatching and observing\<close>

definition next_item :: "recovery_plan \<Rightarrow> recovery_item option" where
  "next_item plan =
     (if rp_state plan \<noteq> Running_Plan \<or> rp_allowance plan \<le> int (used plan) then None
      else find (\<lambda>i. ri_dispatch_state i = Not_Dispatched) (rp_items plan))"

text \<open>What precedes a dispatch: the service, the executing operator, and the failure must be as they were
  planned.  \<open>admin\<close> is whether the operator is an active administrator.\<close>

definition actor_allowed :: "recovery_plan \<Rightarrow> bool \<Rightarrow> bool" where
  "actor_allowed plan admin \<longleftrightarrow>
     (case rp_execution_actor plan of None \<Rightarrow> True | Some a \<Rightarrow> a = ''shared-operator'' \<or> admin)"

definition item_selection :: "recovery_item \<Rightarrow> selection" where
  "item_selection item = \<lparr>sl_failure_id = ri_failure_id item,
     sl_target_queue = (case ri_target_queue item of PStr q \<Rightarrow> Some q | _ \<Rightarrow> None), sl_override_payload = ri_override_payload item\<rparr>"

definition preflight ::
  "recovery_env \<Rightarrow> recovery_plan \<Rightarrow> recovery_item \<Rightarrow> pinned_service answer \<Rightarrow> bool \<Rightarrow> dict answer \<Rightarrow> dict answer \<Rightarrow> inspection answer" where
  "preflight E plan item found admin fetched topology =
     (case pinned (rp_environment plan) (Some (rp_base_url plan)) found of
        Inl e \<Rightarrow> Inl e
      | Inr service \<Rightarrow>
          if \<not> actor_allowed plan admin then Inl (Http_Error 403 ''The executing operator is no longer an active administrator.'')
          else (case inspect_selection E service (item_selection item) fetched topology of
                  Inl e \<Rightarrow> Inl e
                | Inr current \<Rightarrow>
                    if \<not> eligible current \<or> in_fingerprint current \<noteq> ri_fingerprint item
                    then conflict (if join ''; '' (in_errors current) \<noteq> [] then join ''; '' (in_errors current)
                                   else ''Failure snapshot changed after preview.'')
                    else Inr current))"

fun caught :: "recovery_error \<Rightarrow> bool" where
  "caught (Unforeseen _) = False"
| "caught _ = True"

fun retryable_preflight :: "recovery_error \<Rightarrow> bool" where
  "retryable_preflight (Federation_Error _ r) = r"
| "retryable_preflight (Http_Error code _) = (code = 403)"
| "retryable_preflight _ = False"

text \<open>The request that is sent for a claimed item, and what its answer says about the item.\<close>

record retry_request =
  rq_plan_id :: string
  rq_service_id :: string
  rq_environment :: string
  rq_failure_id :: string
  rq_target_queue :: pyval
  rq_override_payload :: pyval
  rq_retried_by :: "string option"
  rq_note :: string

definition retry_request_of :: "recovery_plan \<Rightarrow> recovery_item \<Rightarrow> string \<Rightarrow> retry_request" where
  "retry_request_of latest item note =
     \<lparr>rq_plan_id = rp_plan_id latest, rq_service_id = rp_service_id latest, rq_environment = rp_environment latest,
      rq_failure_id = ri_failure_id item, rq_target_queue = ri_target_queue item, rq_override_payload = ri_override_payload item,
      rq_retried_by = rp_execution_email latest, rq_note = ri_receipt_marker item @ '' '' @ note\<rparr>"

definition accepted_changes :: "pyval \<Rightarrow> pyval \<Rightarrow> item_changes" where
  "accepted_changes accepted_at replacement = no_changes\<lparr>ic_dispatch_state := Some Accepted, ic_accepted_at := Some accepted_at,
     ic_replacement_task_id := Some replacement, ic_outcome := Some Outcome_Pending, ic_message := Some None\<rparr>"

definition response_changes :: "recovery_env \<Rightarrow> string \<Rightarrow> dict answer \<Rightarrow> item_changes" where
  "response_changes E fid answer =
     (let unknown = (\<lambda>m. no_changes\<lparr>ic_dispatch_state := Some Acceptance_Unknown, ic_outcome := Some Outcome_Unknown, ic_message := Some (Some m)\<rparr>) in
      case answer of
        Inl e \<Rightarrow> unknown (error_text e)
      | Inr response \<Rightarrow>
          if dict_get response ''failure_id'' \<noteq> PStr fid \<or> dict_get response ''retry_status'' \<noteq> PStr ''retried'' \<or>
             rv_date E (dict_get response ''retried_at'') = None
          then unknown ''Retry response did not contain a valid acceptance receipt.''
          else accepted_changes (dict_get response ''retried_at'') (dict_get response ''retried_task_id''))"

definition observable :: "recovery_item \<Rightarrow> bool" where
  "observable i \<longleftrightarrow> ri_dispatch_state i \<in> {Dispatching, Acceptance_Unknown, Accepted} \<and> ri_outcome i \<notin> {Succeeded, Failure_Observed}"

definition observe_now :: "recovery_item \<Rightarrow> int \<Rightarrow> bool" where
  "observe_now i now \<longleftrightarrow> observable i \<and>
     \<not> (ri_dispatch_state i = Dispatching \<and> now - or_else (ri_requested_at i) now < 60 * 1000000)"

definition first_changes :: "recovery_item \<Rightarrow> int \<Rightarrow> item_changes" where
  "first_changes i now = (if ri_dispatch_state i = Accepted then no_changes\<lparr>ic_last_checked_at := Some now\<rparr>
     else no_changes\<lparr>ic_last_checked_at := Some now, ic_dispatch_state := Some Acceptance_Unknown, ic_outcome := Some Outcome_Unknown\<rparr>)"

text \<open>The retained receipt of an item whose acceptance is not known.  A retry note that is no text raises.\<close>

definition marker_of :: "pyval \<Rightarrow> string option" where
  "marker_of note = (if \<not> truthy note then Some [] else case note of PStr s \<Rightarrow> Some (hd (split_on (CHR '' '') s)) | _ \<Rightarrow> None)"

definition receipt_changes :: "recovery_env \<Rightarrow> recovery_item \<Rightarrow> dict \<Rightarrow> item_changes \<Rightarrow> item_changes option answer" where
  "receipt_changes E i receipt ch =
     (case marker_of (dict_get receipt ''retry_note'') of
        None \<Rightarrow> if dict_get receipt ''failure_id'' = PStr (ri_failure_id i) \<and> dict_get receipt ''retry_status'' = PStr ''retried''
                then Inl (Unforeseen ''AttributeError'') else Inr None
      | Some marker \<Rightarrow>
          if dict_get receipt ''failure_id'' \<noteq> PStr (ri_failure_id i) \<or> dict_get receipt ''retry_status'' \<noteq> PStr ''retried'' \<or>
             marker \<noteq> ri_receipt_marker i \<or> rv_date E (dict_get receipt ''retried_at'') = None
          then Inr None
          else Inr (Some (ch\<lparr>ic_dispatch_state := Some Accepted, ic_accepted_at := Some (dict_get receipt ''retried_at''),
            ic_replacement_task_id := Some (dict_get receipt ''retried_task_id''), ic_outcome := Some Outcome_Pending, ic_message := Some None\<rparr>)))"

definition baseline_of :: "recovery_item \<Rightarrow> dict answer" where
  "baseline_of i = (case map_of (ri_baseline_event i) ''event'' of None \<Rightarrow> Inr (ri_baseline_event i) | Some (PDict b) \<Rightarrow> Inr b
     | Some _ \<Rightarrow> Inl (Unforeseen ''AttributeError''))"

definition terminal_labels :: "string list" where
  "terminal_labels = [''completed'', ''failed'', ''dlq'', ''retry_exhausted'', ''terminal_failed'']"

text \<open>The status of the replacement task: terminal evidence counts when it is not older than the receipt and
  newer than the baseline.\<close>

definition status_changes :: "recovery_env \<Rightarrow> pinned_service \<Rightarrow> recovery_item \<Rightarrow> string \<Rightarrow> dict \<Rightarrow> item_changes \<Rightarrow> item_changes answer" where
  "status_changes E service i replacement status ch =
     (case (if truthy (dict_get status ''event'') then dict_get status ''event'' else PDict []) of
        PDict event \<Rightarrow>
          if dict_get status ''task_id'' \<noteq> PStr replacement then Inl (Http_Error 502 ''Status response did not identify the replacement task.'')
          else let owner = dict_get event (alias_name service ''task_id'') in
          if owner \<noteq> PNone \<and> owner \<noteq> PStr replacement then Inl (Http_Error 502 ''Status event belongs to a different task.'')
          else (case baseline_of i of
                  Inl e \<Rightarrow> Inl e
                | Inr baseline \<Rightarrow>
                    let key = alias_name service ''timestamp'';
                        label = lower (case map_of event (alias_name service ''status'') of Some v \<Rightarrow> py_str v | None \<Rightarrow> [])
                    in case (rv_date E (dict_get event key), rv_date E (or_else (ic_accepted_at ch) (ri_accepted_at i))) of
                         (Some timestamp, Some boundary) \<Rightarrow>
                           if boundary \<le> timestamp \<and> (case rv_date E (dict_get baseline key) of None \<Rightarrow> True | Some b \<Rightarrow> b < timestamp) \<and>
                              label \<in> set terminal_labels
                           then Inr (ch\<lparr>ic_outcome := Some (if label = ''completed'' then Succeeded else Failure_Observed),
                                  ic_observed := Some (timestamp, \<lparr>oe_task_id = replacement, oe_status = label, oe_timestamp = timestamp,
                                    oe_event_id = dict_get event (alias_name service ''event_id'')\<rparr>), ic_message := Some None\<rparr>)
                           else Inr ch
                       | _ \<Rightarrow> Inr ch)
      | _ \<Rightarrow> Inl (Http_Error 502 ''Status response did not identify the replacement task.''))"

definition replacement_changes :: "recovery_env \<Rightarrow> pinned_service \<Rightarrow> recovery_item \<Rightarrow> dict answer \<Rightarrow> item_changes \<Rightarrow> item_changes answer" where
  "replacement_changes E service i status ch =
     (case or_else (ic_replacement_task_id ch) (ri_replacement_task_id i) of
        PStr replacement \<Rightarrow>
          if strip replacement = [] then Inr (ch\<lparr>ic_outcome := Some Outcome_Unknown,
            ic_message := Some (Some ''Accepted without a replacement task ID; outcome is unknown.'')\<rparr>)
          else (case status of Inl e \<Rightarrow> Inl e | Inr st \<Rightarrow> status_changes E service i replacement st ch)
      | _ \<Rightarrow> Inr (ch\<lparr>ic_outcome := Some Outcome_Unknown,
            ic_message := Some (Some ''Accepted without a replacement task ID; outcome is unknown.'')\<rparr>))"

text \<open>The changes at the end of the try block and whether an exception goes on: those of the federation, of
  HTTP and of a missing service become the item's message, what was changed before stays.\<close>

definition observe_outcome :: "recovery_env \<Rightarrow> recovery_plan \<Rightarrow> recovery_item \<Rightarrow> int \<Rightarrow> pinned_service answer \<Rightarrow> dict answer \<Rightarrow> dict answer \<Rightarrow> item_changes \<times> bool" where
  "observe_outcome E plan i now found receipt status =
     (let ch = first_changes i now;
          raised = (\<lambda>e ch. if caught e then (ch\<lparr>ic_message := Some (Some (error_text e))\<rparr>, False) else (ch, True)) in
      case pinned (rp_environment plan) (Some (rp_base_url plan)) found of
        Inl e \<Rightarrow> raised e ch
      | Inr service \<Rightarrow>
          let go_on = (\<lambda>ch. case replacement_changes E service i status ch of Inl e \<Rightarrow> raised e ch | Inr ch' \<Rightarrow> (ch', False)) in
          if ri_dispatch_state i = Accepted then go_on ch
          else (case receipt of
                  Inl e \<Rightarrow> raised e ch
                | Inr r \<Rightarrow>
                    (case receipt_changes E i r ch of
                       Inl e \<Rightarrow> raised e ch
                     | Inr None \<Rightarrow> (ch\<lparr>ic_message := Some (Some ''Acceptance unknown; no matching retained retry receipt. Never resent automatically.'')\<rparr>, False)
                     | Inr (Some ch') \<Rightarrow> go_on ch')))"

definition late_changes :: "recovery_env \<Rightarrow> recovery_item \<Rightarrow> int \<Rightarrow> item_changes \<Rightarrow> item_changes" where
  "late_changes E i now ch =
     (case rv_date E (or_else (ic_accepted_at ch) (ri_accepted_at i)) of
        Some accepted \<Rightarrow>
          if or_else (ic_outcome ch) (ri_outcome i) \<notin> {Succeeded, Failure_Observed} \<and> 24 * 3600 * 1000000 < now - accepted
          then ch\<lparr>ic_outcome := Some Outcome_Unknown, ic_message := Some (Some ''No fresh terminal evidence within 24 hours; observation continues.'')\<rparr>
          else ch
      | None \<Rightarrow> ch)"

definition candidates :: "recovery_plan \<Rightarrow> recovery_item list" where
  "candidates plan = take 5 (sort_key ri_last_checked_at (filter observable (rp_items plan)))"

subsection \<open>Workers and operators\<close>

datatype worker =
    Idle
  | Polled recovery_plan
  | Checking recovery_plan recovery_item
  | Claiming recovery_plan recovery_item inspection
  | Sending recovery_plan recovery_item string
  | Answered string string item_changes
  | Dispatched string
  | Observing recovery_plan "recovery_item list"
  | Settling string

record recovery_state =
  st_db :: recovery_db
  st_workers :: "nat \<Rightarrow> worker"
  st_sent :: "retry_request list"

definition put_worker :: "nat \<Rightarrow> worker \<Rightarrow> recovery_state \<Rightarrow> recovery_state" where
  "put_worker w pc s = s\<lparr>st_workers := (st_workers s)(w := pc)\<rparr>"

text \<open>\<open>claimed\<close> of the code: the transaction changed the plan.\<close>

definition was_claimed :: "string \<Rightarrow> plan_edit \<Rightarrow> int \<Rightarrow> recovery_db \<Rightarrow> bool" where
  "was_claimed pid edit now db = (case rd_plans db pid of Some (doc, _) \<Rightarrow> (case edit doc now of Inr (Some _) \<Rightarrow> True | _ \<Rightarrow> False) | None \<Rightarrow> False)"

inductive recovery_step :: "recovery_env \<Rightarrow> recovery_state \<Rightarrow> recovery_state \<Rightarrow> bool" for E where
  operator_creates: "valid_preview E payload \<Longrightarrow> create_plan E payload request_id digest actor found answers now (st_db s) = (r, db) \<Longrightarrow>
    recovery_step E s (s\<lparr>st_db := db\<rparr>)"
| operator_controls: "1 \<le> ct_count c \<Longrightarrow> ct_count c \<le> 200 \<Longrightarrow> control_plan pid c actor now (st_db s) = (r, db) \<Longrightarrow>
    recovery_step E s (s\<lparr>st_db := db\<rparr>)"
| worker_polls: "st_workers s w = Idle \<Longrightarrow> take_due pid now (st_db s) = Some (plan, db) \<Longrightarrow>
    recovery_step E s (put_worker w (Polled plan) (s\<lparr>st_db := db\<rparr>))"
| worker_skips: "st_workers s w = Polled plan \<Longrightarrow> next_item plan = None \<Longrightarrow>
    recovery_step E s (put_worker w (Dispatched (rp_plan_id plan)) s)"
| worker_picks: "st_workers s w = Polled plan \<Longrightarrow> next_item plan = Some item \<Longrightarrow>
    recovery_step E s (put_worker w (Checking plan item) s)"
| worker_blocks: "st_workers s w = Checking plan item \<Longrightarrow> preflight E plan item found admin fetched topology = Inl e \<Longrightarrow> caught e \<Longrightarrow>
    change_plan (rp_plan_id plan) (block_edit (ri_failure_id item) (retryable_preflight e) (error_text e)) ''recovery.dispatch.blocked'' None now (st_db s) = (r, db) \<Longrightarrow>
    recovery_step E s (put_worker w (Dispatched (rp_plan_id plan)) (s\<lparr>st_db := db\<rparr>))"
| worker_passes: "st_workers s w = Checking plan item \<Longrightarrow> preflight E plan item found admin fetched topology = Inr current \<Longrightarrow>
    recovery_step E s (put_worker w (Claiming plan item current) s)"
| worker_claims: "st_workers s w = Claiming plan item current \<Longrightarrow>
    edit = claim_edit (ri_failure_id item) (rp_version plan) (in_baseline_event current) \<Longrightarrow>
    change_plan (rp_plan_id plan) edit ''recovery.dispatch.requested'' None now (st_db s) = (Inr latest, db) \<Longrightarrow>
    was_claimed (rp_plan_id plan) edit now (st_db s) \<Longrightarrow> find_item (ri_failure_id item) (rp_items latest) = Some claimed \<Longrightarrow>
    recovery_step E s (put_worker w (Sending latest claimed (rp_note plan)) (s\<lparr>st_db := db\<rparr>))"
| worker_loses_claim: "st_workers s w = Claiming plan item current \<Longrightarrow>
    edit = claim_edit (ri_failure_id item) (rp_version plan) (in_baseline_event current) \<Longrightarrow>
    change_plan (rp_plan_id plan) edit ''recovery.dispatch.requested'' None now (st_db s) = (r, db) \<Longrightarrow>
    \<not> was_claimed (rp_plan_id plan) edit now (st_db s) \<Longrightarrow>
    recovery_step E s (put_worker w (Dispatched (rp_plan_id plan)) (s\<lparr>st_db := db\<rparr>))"
| worker_sends: "st_workers s w = Sending latest item note \<Longrightarrow>
    recovery_step E s (put_worker w (Answered (rp_plan_id latest) (ri_failure_id item) (response_changes E (ri_failure_id item) answer))
      (s\<lparr>st_sent := st_sent s @ [retry_request_of latest item note]\<rparr>))"
| worker_records: "st_workers s w = Answered pid fid ch \<Longrightarrow>
    change_plan pid (item_change_edit fid ch) ''recovery.dispatch.recorded'' None now (st_db s) = (r, db) \<Longrightarrow>
    recovery_step E s (put_worker w (Dispatched pid) (s\<lparr>st_db := db\<rparr>))"
| worker_reads: "st_workers s w = Dispatched pid \<Longrightarrow> get_plan pid (st_db s) = Inr plan \<Longrightarrow>
    recovery_step E s (put_worker w (Observing plan (candidates plan)) s)"
| worker_waits: "st_workers s w = Observing plan (item # items) \<Longrightarrow> \<not> observe_now item now \<Longrightarrow>
    recovery_step E s (put_worker w (Observing plan items) s)"
| worker_observes: "st_workers s w = Observing plan (item # items) \<Longrightarrow> observe_now item now \<Longrightarrow>
    observe_outcome E plan item now found receipt status = (ch, raised) \<Longrightarrow>
    change_plan (rp_plan_id plan) (item_change_edit (ri_failure_id item) (late_changes E item now ch)) ''recovery.observed'' None now' (st_db s) = (r, db) \<Longrightarrow>
    recovery_step E s (put_worker w (if raised then Idle else Observing plan items) (s\<lparr>st_db := db\<rparr>))"
| worker_observed: "st_workers s w = Observing plan [] \<Longrightarrow> recovery_step E s (put_worker w (Settling (rp_plan_id plan)) s)"
| worker_settles: "st_workers s w = Settling pid \<Longrightarrow>
    change_plan pid settle_edit ''recovery.batch.finished'' None now (st_db s) = (r, db) \<Longrightarrow>
    recovery_step E s (put_worker w Idle (s\<lparr>st_db := db\<rparr>))"
| worker_stops: "recovery_step E s (put_worker w Idle s)"

definition recovery_start :: recovery_state where
  "recovery_start = \<lparr>st_db = \<lparr>rd_plans = Map.empty, rd_claims = Map.empty, rd_audit = []\<rparr>, st_workers = (\<lambda>_. Idle), st_sent = []\<rparr>"

inductive recovery_reach :: "recovery_env \<Rightarrow> recovery_state \<Rightarrow> bool" for E where
  reach_start: "recovery_reach E recovery_start"
| reach_step: "recovery_reach E s \<Longrightarrow> recovery_step E s t \<Longrightarrow> recovery_reach E t"

subsection \<open>The report\<close>

record recovery_report =
  rr_selected :: nat
  rr_requested :: nat
  rr_accepted :: nat
  rr_observed_success :: nat
  rr_observed_failure :: nat
  rr_unknown_acceptance :: nat
  rr_unknown_outcome :: nat
  rr_awaiting_outcome :: nat
  rr_not_dispatched :: nat
  rr_cohort_recovery :: "int option"

definition count_items :: "(recovery_item \<Rightarrow> bool) \<Rightarrow> recovery_plan \<Rightarrow> nat" where
  "count_items P p = length (filter P (rp_items p))"

definition report :: "int \<Rightarrow> recovery_plan \<Rightarrow> recovery_report" where
  "report now p =
     \<lparr>rr_selected = length (rp_items p),
      rr_requested = count_items (\<lambda>i. ri_requested_at i \<noteq> None) p,
      rr_accepted = count_items (\<lambda>i. truthy (ri_accepted_at i)) p,
      rr_observed_success = count_items (\<lambda>i. ri_outcome i = Succeeded) p,
      rr_observed_failure = count_items (\<lambda>i. ri_outcome i = Failure_Observed) p,
      rr_unknown_acceptance = count_items (\<lambda>i. ri_dispatch_state i \<in> {Acceptance_Unknown, Dispatching}) p,
      rr_unknown_outcome = count_items (\<lambda>i. ri_outcome i = Outcome_Unknown) p,
      rr_awaiting_outcome = count_items (\<lambda>i. ri_outcome i = Outcome_Pending) p,
      rr_not_dispatched = count_items (\<lambda>i. ri_requested_at i = None) p,
      rr_cohort_recovery =
        (case rp_started_at p of
           Some started \<Rightarrow> if count_items (\<lambda>i. ri_outcome i = Succeeded) p = length (rp_items p) \<and> rp_items p \<noteq> []
                           then Some (max 0 (Max (set (map (\<lambda>i. or_else (ri_observed_at i) now) (rp_items p))) - started)) else None
         | None \<Rightarrow> None)\<rparr>"

subsection \<open>One plan: the invariant and how it may evolve\<close>

text \<open>Dispatch goes through the items in order: those no longer waiting are a prefix.  The requests of a plan are
  the configured interval apart.\<close>

definition in_order :: "recovery_plan \<Rightarrow> bool" where
  "in_order p \<longleftrightarrow> (\<forall>j < length (rp_items p). ri_dispatch_state (rp_items p ! j) \<noteq> Not_Dispatched \<longleftrightarrow> j < used p)"

definition spaced :: "recovery_plan \<Rightarrow> bool" where
  "spaced p \<longleftrightarrow> 0 \<le> rp_interval_seconds p \<and>
     (\<forall>b < length (rp_items p). \<forall>t. ri_requested_at (rp_items p ! b) = Some t \<longrightarrow>
        t + rp_interval_seconds p * 1000000 \<le> rp_next_dispatch_at p \<and>
        (\<forall>a < b. \<forall>u. ri_requested_at (rp_items p ! a) = Some u \<longrightarrow> u + rp_interval_seconds p * 1000000 \<le> t))"

definition plan_ok :: "recovery_plan \<Rightarrow> bool" where
  "plan_ok p \<longleftrightarrow> distinct (map ri_failure_id (rp_items p)) \<and> in_order p \<and>
     int (used p) \<le> rp_allowance p \<and> rp_allowance p \<le> int (length (rp_items p)) \<and>
     (\<forall>i \<in> set (rp_items p). ri_dispatch_state i = Not_Dispatched \<longrightarrow> ri_outcome i = Not_Requested \<and> ri_requested_at i = None) \<and>
     spaced p"

definition terminal :: "outcome \<Rightarrow> bool" where
  "terminal out \<longleftrightarrow> out \<in> {Succeeded, Failure_Observed}"

definition finished :: "recovery_plan \<Rightarrow> bool" where
  "finished p \<longleftrightarrow> rp_state p \<in> {Stopped, Completed}"

definition evolves :: "recovery_plan \<Rightarrow> recovery_plan \<Rightarrow> bool" where
  "evolves p q \<longleftrightarrow> rp_plan_id q = rp_plan_id p \<and> claim_keys q = claim_keys p \<and> used p \<le> used q \<and>
     (\<forall>j < length (rp_items p). ri_dispatch_state (rp_items p ! j) \<noteq> Not_Dispatched \<longrightarrow> ri_dispatch_state (rp_items q ! j) \<noteq> Not_Dispatched) \<and>
     (\<forall>j < length (rp_items p). terminal (ri_outcome (rp_items p ! j)) \<longrightarrow> ri_outcome (rp_items q ! j) = ri_outcome (rp_items p ! j)) \<and>
     (used q = used p \<longrightarrow> int (used p) < rp_allowance p \<longrightarrow> int (used q) < rp_allowance q) \<and>
     (finished p \<longrightarrow> rp_state q = rp_state p \<and> used q = used p)"

lemma evolves_refl [simp]: "evolves p p"
  by (simp add: evolves_def)

lemma evolvesD:
  assumes "evolves p q"
  shows "rp_plan_id q = rp_plan_id p" "claim_keys q = claim_keys p" "used p \<le> used q"
    "\<And>j. j < length (rp_items p) \<Longrightarrow> ri_dispatch_state (rp_items p ! j) \<noteq> Not_Dispatched \<Longrightarrow> ri_dispatch_state (rp_items q ! j) \<noteq> Not_Dispatched"
    "\<And>j. j < length (rp_items p) \<Longrightarrow> terminal (ri_outcome (rp_items p ! j)) \<Longrightarrow> ri_outcome (rp_items q ! j) = ri_outcome (rp_items p ! j)"
    "used q = used p \<Longrightarrow> int (used p) < rp_allowance p \<Longrightarrow> int (used q) < rp_allowance q"
    "finished p \<Longrightarrow> rp_state q = rp_state p" "finished p \<Longrightarrow> used q = used p"
  using assms unfolding evolves_def by blast+

lemma evolves_length: "evolves p q \<Longrightarrow> length (rp_items q) = length (rp_items p)"
  using evolvesD(2)[of p q] by (metis claim_keys_def length_map)

lemma evolves_ids: "evolves p q \<Longrightarrow> map ri_failure_id (rp_items q) = map ri_failure_id (rp_items p)"
proof -
  assume "evolves p q"
  then have "map (snd \<circ> snd) (claim_keys q) = map (snd \<circ> snd) (claim_keys p)" by (simp add: evolvesD(2))
  then show ?thesis by (simp add: claim_keys_def comp_def)
qed

lemma evolves_trans:
  assumes "evolves p q" "evolves q r"
  shows "evolves p r"
  unfolding evolves_def
proof (intro conjI allI impI)
  note p = evolvesD[OF assms(1)] and q = evolvesD[OF assms(2)] and len = evolves_length[OF assms(1)]
  show "rp_plan_id r = rp_plan_id p" "claim_keys r = claim_keys p" "used p \<le> used r" using p(1-3) q(1-3) by auto
  show "ri_dispatch_state (rp_items r ! j) \<noteq> Not_Dispatched" if "j < length (rp_items p)" "ri_dispatch_state (rp_items p ! j) \<noteq> Not_Dispatched" for j
    using q(4)[OF _ p(4)[OF that]] that(1) len by simp
  show "ri_outcome (rp_items r ! j) = ri_outcome (rp_items p ! j)" if "j < length (rp_items p)" "terminal (ri_outcome (rp_items p ! j))" for j
    using q(5)[of j] p(5)[OF that] that len by simp
  show "int (used r) < rp_allowance r" if "used r = used p" "int (used p) < rp_allowance p"
    using that p(3,6) q(3,6) by simp
  have "finished q" if "finished p" using p(7)[OF that] that by (simp add: finished_def)
  then show "rp_state r = rp_state p" "used r = used p" if "finished p" using that p(7,8) q(7,8) by auto
qed

lemma evolves_updated [simp]: "evolves p (q\<lparr>rp_updated_at := t\<rparr>) = evolves p q" "plan_ok (q\<lparr>rp_updated_at := t\<rparr>) = plan_ok q"
  by (simp_all add: evolves_def plan_ok_def in_order_def spaced_def used_def claim_keys_def finished_def)

lemma item_at:
  assumes "distinct (map ri_failure_id items)" "j < length items"
  shows "find_item (ri_failure_id (items ! j)) items = Some (items ! j)"
    and "update_item (ri_failure_id (items ! j)) f items = items[j := f (items ! j)]"
proof -
  have "find_item (ri_failure_id (items ! j)) items = Some (items ! j) \<and>
      update_item (ri_failure_id (items ! j)) f items = items[j := f (items ! j)]"
    using assms
  proof (induction items arbitrary: j)
    case (Cons i rest)
    have other: "k < length rest \<Longrightarrow> ri_failure_id i \<noteq> ri_failure_id (rest ! k)" for k
      using Cons.prems(1) by (metis distinct.simps(2) length_map list.simps(9) nth_map nth_mem)
    show ?case using Cons.IH Cons.prems other by (cases j) (auto simp: find_item_def)
  qed simp
  then show "find_item (ri_failure_id (items ! j)) items = Some (items ! j)"
    and "update_item (ri_failure_id (items ! j)) f items = items[j := f (items ! j)]" by auto
qed

lemma find_item_index:
  assumes "find_item fid items = Some i"
  obtains j where "j < length items" "items ! j = i" "ri_failure_id i = fid"
  using assms unfolding find_item_def by (auto simp: find_Some_iff)

lemma used_update:
  assumes "j < length (rp_items p)"
  shows "used (p\<lparr>rp_items := (rp_items p)[j := i]\<rparr>) =
    used p + (if ri_dispatch_state i \<noteq> Not_Dispatched then 1 else 0) - (if ri_dispatch_state (rp_items p ! j) \<noteq> Not_Dispatched then 1 else 0)"
proof -
  define P where "P = (\<lambda>i::recovery_item. ri_dispatch_state i \<noteq> Not_Dispatched)"
  define xs where "xs = rp_items p"
  have split: "xs = take j xs @ xs ! j # drop (Suc j) xs" using assms xs_def by (simp add: id_take_nth_drop)
  have "length (filter P (xs[j := i])) = length (filter P (take j xs @ i # drop (Suc j) xs))" using assms xs_def by (simp add: upd_conv_take_nth_drop)
  moreover have "length (filter P xs) = length (filter P (take j xs)) + (if P (xs ! j) then 1 else 0) + length (filter P (drop (Suc j) xs))"
    by (subst split) simp
  ultimately show ?thesis unfolding used_def by (simp add: P_def xs_def)
qed

lemma used_le: "used p \<le> length (rp_items p)"
  by (simp add: used_def)

text \<open>Changing an item that is on its way already, or the first one that waits.\<close>

lemma later_change:
  assumes ok: "plan_ok p" and j: "j < length (rp_items p)" "j < used p"
    and i: "ri_failure_id i = ri_failure_id (rp_items p ! j)" "ri_dispatch_state i \<noteq> Not_Dispatched" "ri_requested_at i = ri_requested_at (rp_items p ! j)"
    and out: "terminal (ri_outcome (rp_items p ! j)) \<Longrightarrow> ri_outcome i = ri_outcome (rp_items p ! j)"
  shows "plan_ok (p\<lparr>rp_items := (rp_items p)[j := i]\<rparr>)" "evolves p (p\<lparr>rp_items := (rp_items p)[j := i]\<rparr>)"
proof -
  let ?q = "p\<lparr>rp_items := (rp_items p)[j := i]\<rparr>"
  have old: "ri_dispatch_state (rp_items p ! j) \<noteq> Not_Dispatched" using ok j by (auto simp: plan_ok_def in_order_def)
  have same: "used ?q = used p" using used_update[OF j(1), of i] i(2) old by simp
  have ids: "map ri_failure_id (rp_items ?q) = map ri_failure_id (rp_items p)" using i(1) by (simp add: map_update list_update_same_conv j(1))
  have keys: "claim_keys ?q = claim_keys p"
    unfolding claim_keys_def using i(1) by (simp add: map_update list_update_same_conv j(1))
  have "in_order ?q" using ok same i(2) j(2) by (auto simp: plan_ok_def in_order_def nth_list_update)
  moreover have "ri_requested_at ((rp_items p)[j := i] ! b) = ri_requested_at (rp_items p ! b)" for b
    using i(3) j(1) by (cases "b = j") auto
  then have "spaced ?q" using ok unfolding plan_ok_def spaced_def by simp
  moreover have "\<forall>x \<in> set (rp_items ?q). ri_dispatch_state x = Not_Dispatched \<longrightarrow> ri_outcome x = Not_Requested \<and> ri_requested_at x = None"
    using ok i(2) set_update_subset_insert[of "rp_items p" j i] unfolding plan_ok_def by auto
  ultimately show "plan_ok ?q" using ok same ids unfolding plan_ok_def by simp
  have "ri_dispatch_state (rp_items ?q ! k) \<noteq> Not_Dispatched" if "ri_dispatch_state (rp_items p ! k) \<noteq> Not_Dispatched" for k
    using that i(2) j(1) by (cases "k = j") auto
  moreover have "ri_outcome (rp_items ?q ! k) = ri_outcome (rp_items p ! k)" if "terminal (ri_outcome (rp_items p ! k))" for k
    using that out j(1) by (cases "k = j") auto
  ultimately show "evolves p ?q" using same keys unfolding evolves_def by simp
qed

lemma first_change:
  assumes ok: "plan_ok p" and j: "j < length (rp_items p)" "j = used p" and room: "int (used p) < rp_allowance p"
    and i: "ri_failure_id i = ri_failure_id (rp_items p ! j)" "ri_dispatch_state i \<noteq> Not_Dispatched"
    and nxt: "\<And>t. ri_requested_at i = Some t \<Longrightarrow> rp_next_dispatch_at p \<le> t \<and> t + rp_interval_seconds p * 1000000 = next_at"
      "ri_requested_at i = None \<Longrightarrow> next_at = rp_next_dispatch_at p"
    and q: "q = p\<lparr>rp_items := (rp_items p)[j := i], rp_next_dispatch_at := next_at\<rparr>" and running: "\<not> finished p"
  shows "plan_ok q" "evolves p q"
proof -
  have old: "ri_dispatch_state (rp_items p ! j) = Not_Dispatched" using ok j by (auto simp: plan_ok_def in_order_def)
  then have waits: "ri_outcome (rp_items p ! j) = Not_Requested" "ri_requested_at (rp_items p ! j) = None" using ok j(1) by (auto simp: plan_ok_def)
  have "used q = used (p\<lparr>rp_items := (rp_items p)[j := i]\<rparr>)" by (simp add: q used_def)
  then have more: "used q = Suc (used p)" using used_update[OF j(1), of i] i(2) old by simp
  have ids: "map ri_failure_id (rp_items q) = map ri_failure_id (rp_items p)" using i(1) by (simp add: q map_update list_update_same_conv j(1))
  have keys: "claim_keys q = claim_keys p"
    unfolding claim_keys_def using i(1) by (simp add: q map_update list_update_same_conv j(1))
  have order: "in_order q" using ok more i(2) j(2) by (auto simp: plan_ok_def in_order_def nth_list_update q less_Suc_eq)
  have none: "ri_requested_at (rp_items p ! b) = None" if "b < length (rp_items p)" "j \<le> b" for b
    using ok that j(2) by (auto simp: plan_ok_def in_order_def)
  have gap: "0 \<le> rp_interval_seconds p" "\<And>b t. b < length (rp_items p) \<Longrightarrow> ri_requested_at (rp_items p ! b) = Some t \<Longrightarrow> t + rp_interval_seconds p * 1000000 \<le> rp_next_dispatch_at p"
    "\<And>a b t u. b < length (rp_items p) \<Longrightarrow> ri_requested_at (rp_items p ! b) = Some t \<Longrightarrow> a < b \<Longrightarrow> ri_requested_at (rp_items p ! a) = Some u \<Longrightarrow> u + rp_interval_seconds p * 1000000 \<le> t"
    using ok unfolding plan_ok_def spaced_def by blast+
  have later: "rp_next_dispatch_at p \<le> next_at" using nxt gap(1) by (cases "ri_requested_at i") fastforce+
  have "spaced q" unfolding spaced_def
  proof (intro conjI allI impI)
    show "0 \<le> rp_interval_seconds q" using gap(1) by (simp add: q)
    fix b t assume b: "b < length (rp_items q)" "ri_requested_at (rp_items q ! b) = Some t"
    show "t + rp_interval_seconds q * 1000000 \<le> rp_next_dispatch_at q"
      using b gap(2)[of b t] nxt(1)[of t] later by (cases "b = j") (auto simp: q j(1))
    fix a u assume a: "a < b" "ri_requested_at (rp_items q ! a) = Some u"
    show "u + rp_interval_seconds q * 1000000 \<le> t"
    proof (cases "b = j")
      case True
      then have "a < length (rp_items p)" "ri_requested_at (rp_items p ! a) = Some u" "ri_requested_at i = Some t" using a b j(1) by (auto simp: q)
      then show ?thesis using gap(2)[of a u] nxt(1)[of t] by (simp add: q)
    next
      case False
      then have b': "b < length (rp_items p)" "ri_requested_at (rp_items p ! b) = Some t" using b by (simp_all add: q)
      then have "b < j" using none[of b] False by (cases "j \<le> b") auto
      then have "ri_requested_at (rp_items p ! a) = Some u" using a by (simp add: q)
      then show ?thesis using gap(3)[OF b' a(1)] by (simp add: q)
    qed
  qed
  moreover have "\<forall>x \<in> set (rp_items q). ri_dispatch_state x = Not_Dispatched \<longrightarrow> ri_outcome x = Not_Requested \<and> ri_requested_at x = None"
    using ok i(2) set_update_subset_insert[of "rp_items p" j i] unfolding plan_ok_def by (auto simp: q)
  moreover have "int (used q) \<le> rp_allowance q" "rp_allowance q \<le> int (length (rp_items q))" using ok room more by (auto simp: plan_ok_def q)
  ultimately show "plan_ok q" using ok ids order unfolding plan_ok_def by simp
  have "ri_dispatch_state (rp_items q ! k) \<noteq> Not_Dispatched" if "ri_dispatch_state (rp_items p ! k) \<noteq> Not_Dispatched" for k
    using that i(2) j(1) by (cases "k = j") (auto simp: q)
  moreover have "ri_outcome (rp_items q ! k) = ri_outcome (rp_items p ! k)" if "terminal (ri_outcome (rp_items p ! k))" for k
    using that waits j(1) by (cases "k = j") (auto simp: q terminal_def)
  moreover have "rp_plan_id q = rp_plan_id p" by (simp add: q)
  ultimately show "evolves p q" using more keys running unfolding evolves_def by simp
qed

subsection \<open>The edits keep the invariant\<close>

lemma with_item_Inr: "with_item fid doc f = Inr x \<longleftrightarrow> (\<exists>i. find_item fid (rp_items doc) = Some i \<and> f i = Inr x)"
  by (simp add: with_item_def split: option.splits)

lemma control_edit_keeps:
  assumes ok: "plan_ok p" and c: "1 \<le> ct_count c" and edit: "control_edit c actor p now = Inr (Some q)"
  shows "plan_ok q \<and> evolves p q"
proof -
  obtain r where r: "control_state c p now = Inr r" and items: "rp_items q = rp_items r" "rp_allowance q = rp_allowance r"
      "rp_plan_id q = rp_plan_id r" "rp_service_id q = rp_service_id r" "rp_environment q = rp_environment r" "rp_state q = rp_state r"
      "rp_interval_seconds q = rp_interval_seconds r" "rp_next_dispatch_at q = rp_next_dispatch_at r"
    using edit by (auto simp: control_edit_def conflict_def Let_def split: if_splits sum.splits)
  have state: "\<not> finished p" and same: "rp_items r = rp_items p" "rp_plan_id r = rp_plan_id p" "rp_service_id r = rp_service_id p"
      "rp_environment r = rp_environment p" "rp_interval_seconds r = rp_interval_seconds p" "rp_next_dispatch_at r = rp_next_dispatch_at p"
    using r by (auto simp: control_state_def conflict_def Let_def finished_def split: if_splits control_action.splits)
  have allowance: "int (used p) \<le> rp_allowance r" "rp_allowance r \<le> int (length (rp_items p))"
      "int (used p) < rp_allowance p \<Longrightarrow> int (used p) < rp_allowance r"
    using r ok c used_le[of p] by (auto simp: control_state_def conflict_def Let_def plan_ok_def split: if_splits control_action.splits)
  have u: "used q = used p" using items same by (simp add: used_def)
  have "plan_ok q" using ok allowance items same u unfolding plan_ok_def in_order_def spaced_def by simp
  moreover have "evolves p q" using allowance items same state u unfolding evolves_def claim_keys_def by simp
  ultimately show ?thesis by blast
qed

lemma settle_edit_keeps:
  assumes ok: "plan_ok p" and edit: "settle_edit p now = Inr (Some q)"
  shows "plan_ok q \<and> evolves p q"
proof -
  have same: "rp_items q = rp_items p" "rp_allowance q = rp_allowance p" "rp_plan_id q = rp_plan_id p" "rp_service_id q = rp_service_id p"
      "rp_environment q = rp_environment p" "rp_interval_seconds q = rp_interval_seconds p" "rp_next_dispatch_at q = rp_next_dispatch_at p"
    and state: "\<not> finished p"
    using edit by (auto simp: settle_edit_def finished_def split: if_splits)
  have u: "used q = used p" using same by (simp add: used_def)
  have "plan_ok q" using ok same u unfolding plan_ok_def in_order_def spaced_def by simp
  moreover have "evolves p q" using same state u unfolding evolves_def claim_keys_def by simp
  ultimately show ?thesis by blast
qed

text \<open>The item a worker aims at: the first one that waited in the plan it has read.\<close>

definition aimed :: "recovery_plan \<Rightarrow> recovery_item \<Rightarrow> bool" where
  "aimed p i \<longleftrightarrow> used p < length (rp_items p) \<and> i = rp_items p ! used p \<and> int (used p) < rp_allowance p"

lemma next_item_aimed: "plan_ok p \<Longrightarrow> next_item p = Some i \<Longrightarrow> aimed p i"
proof -
  assume ok: "plan_ok p" and n: "next_item p = Some i"
  then obtain j where j: "j < length (rp_items p)" "rp_items p ! j = i" "ri_dispatch_state i = Not_Dispatched" "int (used p) < rp_allowance p"
      "\<forall>k < j. ri_dispatch_state (rp_items p ! k) \<noteq> Not_Dispatched"
    by (auto simp: next_item_def find_Some_iff split: if_splits)
  then have "\<not> j < used p" "\<forall>k < j. k < used p" using ok by (auto simp: plan_ok_def in_order_def)
  then have "j = used p" by (meson linorder_neqE_nat less_irrefl)
  then show ?thesis using j by (simp add: aimed_def)
qed

lemma aimed_now:
  assumes "aimed p i" "evolves p d" "plan_ok d" "find_item (ri_failure_id i) (rp_items d) = Some t" "ri_dispatch_state t = Not_Dispatched"
  shows "used d < length (rp_items d)" "t = rp_items d ! used d" "ri_failure_id i = ri_failure_id t" "int (used d) < rp_allowance d"
proof -
  have len: "length (rp_items d) = length (rp_items p)" and u: "used p < length (rp_items d)"
    using assms(1) evolves_length[OF assms(2)] by (simp_all add: aimed_def)
  have "map ri_failure_id (rp_items d) ! used p = map ri_failure_id (rp_items p) ! used p" using evolves_ids[OF assms(2)] by simp
  then have id: "ri_failure_id i = ri_failure_id (rp_items d ! used p)" using assms(1) u len by (simp add: aimed_def)
  then have t: "t = rp_items d ! used p" using item_at(1)[OF _ u] assms(3,4) by (simp add: plan_ok_def)
  then have "used d \<le> used p" using assms(3,5) u by (auto simp: plan_ok_def in_order_def)
  then have "used d = used p" using evolvesD(3)[OF assms(2)] by simp
  then show "used d < length (rp_items d)" "t = rp_items d ! used d" "ri_failure_id i = ri_failure_id t" "int (used d) < rp_allowance d"
    using u t id evolvesD(6)[OF assms(2)] assms(1) by (simp_all add: aimed_def)
qed

lemma claim_edit_keeps:
  assumes ok: "plan_ok d" and aim: "aimed p i" "evolves p d" and edit: "claim_edit (ri_failure_id i) v base d now = Inr (Some q)"
  shows "plan_ok q \<and> evolves d q \<and> used d < length (rp_items d) \<and> ri_failure_id i = ri_failure_id (rp_items d ! used d) \<and>
    ri_dispatch_state (rp_items q ! used d) = Dispatching \<and> ri_failure_id (rp_items q ! used d) = ri_failure_id i"
proof -
  define f where "f = (\<lambda>x::recovery_item. x\<lparr>ri_dispatch_state := Dispatching, ri_requested_at := Some now, ri_outcome := Outcome_Unknown, ri_baseline_event := base\<rparr>)"
  obtain t where t: "find_item (ri_failure_id i) (rp_items d) = Some t" "ri_dispatch_state t = Not_Dispatched" "rp_state d = Running_Plan"
      "rp_next_dispatch_at d \<le> now"
    and q: "q = d\<lparr>rp_items := update_item (ri_failure_id i) f (rp_items d), rp_next_dispatch_at := now + rp_interval_seconds d * 1000000\<rparr>"
    using edit by (auto simp: claim_edit_def with_item_Inr f_def split: if_splits)
  note at = aimed_now[OF aim ok t(1,2)]
  have upd: "update_item (ri_failure_id i) f (rp_items d) = (rp_items d)[used d := f t]"
    using item_at(2)[OF _ at(1), of f] ok at(2,3) by (simp add: plan_ok_def)
  have "plan_ok q" "evolves d q"
    by (rule first_change[where j = "used d" and i = "f t" and next_at = "now + rp_interval_seconds d * 1000000", OF ok at(1) refl at(4)];
        use t at q upd in \<open>simp add: f_def finished_def\<close>)+
  then show ?thesis using at q upd by (simp add: f_def)
qed

lemma block_edit_keeps:
  assumes ok: "plan_ok d" and aim: "aimed p i" "evolves p d" and edit: "block_edit (ri_failure_id i) retryable m d now = Inr (Some q)"
  shows "plan_ok q \<and> evolves d q"
proof -
  define f where "f = (\<lambda>x::recovery_item. x\<lparr>ri_dispatch_state := (if retryable then Not_Dispatched else Blocked), ri_message := Some m\<rparr>)"
  obtain t where t: "find_item (ri_failure_id i) (rp_items d) = Some t" "ri_dispatch_state t = Not_Dispatched" "rp_state d = Running_Plan"
    and q: "q = d\<lparr>rp_items := update_item (ri_failure_id i) f (rp_items d), rp_state := Paused, rp_version := rp_version d + 1\<rparr>"
    using edit by (auto simp: block_edit_def with_item_Inr f_def split: if_splits)
  note at = aimed_now[OF aim ok t(1,2)]
  have upd: "update_item (ri_failure_id i) f (rp_items d) = (rp_items d)[used d := f t]"
    using item_at(2)[OF _ at(1), of f] ok at(2,3) by (simp add: plan_ok_def)
  define r where "r = d\<lparr>rp_items := (rp_items d)[used d := f t]\<rparr>"
  have idle: "ri_outcome t = Not_Requested" "ri_requested_at t = None" using ok at(1,2) t(2) by (auto simp: plan_ok_def)
  have "plan_ok r \<and> evolves d r"
  proof (cases retryable)
    case True
    have same: "used r = used d" using used_update[OF at(1), of "f t"] True t(2) at(2) by (simp add: r_def f_def)
    have field: "ri_dispatch_state (rp_items r ! k) = ri_dispatch_state (rp_items d ! k)" "ri_outcome (rp_items r ! k) = ri_outcome (rp_items d ! k)"
        "ri_requested_at (rp_items r ! k) = ri_requested_at (rp_items d ! k)" for k
      using at(1,2) t(2) True by (cases "k = used d"; simp add: r_def f_def)+
    have ids: "map ri_failure_id (rp_items r) = map ri_failure_id (rp_items d)" "claim_keys r = claim_keys d"
      using at(1,2) unfolding claim_keys_def by (simp_all add: r_def f_def map_update list_update_same_conv)
    have len: "length (rp_items r) = length (rp_items d)" by (simp add: r_def)
    have "\<forall>x \<in> set (rp_items r). ri_dispatch_state x = Not_Dispatched \<longrightarrow> ri_outcome x = Not_Requested \<and> ri_requested_at x = None"
      using ok len unfolding plan_ok_def all_set_conv_all_nth by (simp add: field)
    then have "plan_ok r" using ok same ids len unfolding plan_ok_def in_order_def spaced_def by (simp add: field) (simp add: r_def)
    moreover have "evolves d r" using same ids by (simp add: evolves_def field) (simp add: r_def)
    ultimately show ?thesis by blast
  next
    case False
    have "r = d\<lparr>rp_items := (rp_items d)[used d := f t], rp_next_dispatch_at := rp_next_dispatch_at d\<rparr>" by (simp add: r_def)
    then have "plan_ok r" "evolves d r"
      by (rule first_change[where j = "used d" and i = "f t" and next_at = "rp_next_dispatch_at d", OF ok at(1) refl at(4), rotated 4];
          use False t at idle in \<open>simp add: f_def finished_def\<close>)+
    then show ?thesis by blast
  qed
  then show ?thesis using t(3) unfolding q upd r_def plan_ok_def evolves_def in_order_def spaced_def used_def claim_keys_def finished_def by simp
qed

definition on_its_way :: "recovery_plan \<Rightarrow> string \<Rightarrow> bool" where
  "on_its_way d fid \<longleftrightarrow> (\<exists>j < length (rp_items d). ri_failure_id (rp_items d ! j) = fid \<and> ri_dispatch_state (rp_items d ! j) \<noteq> Not_Dispatched)"

lemma on_its_way_evolves: "on_its_way p fid \<Longrightarrow> evolves p q \<Longrightarrow> on_its_way q fid"
proof -
  assume way: "on_its_way p fid" and e: "evolves p q"
  then obtain j where j: "j < length (rp_items p)" "ri_failure_id (rp_items p ! j) = fid" "ri_dispatch_state (rp_items p ! j) \<noteq> Not_Dispatched"
    by (auto simp: on_its_way_def)
  have "map ri_failure_id (rp_items q) ! j = map ri_failure_id (rp_items p) ! j" using evolves_ids[OF e] by simp
  then have "ri_failure_id (rp_items q ! j) = fid" using j evolves_length[OF e] by simp
  then show ?thesis using j evolves_length[OF e] evolvesD(4)[OF e j(1,3)] by (auto simp: on_its_way_def)
qed

lemma item_change_keeps:
  assumes ok: "plan_ok d" and way: "on_its_way d fid" and ch: "ic_dispatch_state ch \<noteq> Some Not_Dispatched"
    and edit: "item_change_edit fid ch d now = Inr (Some q)"
  shows "plan_ok q \<and> evolves d q"
proof -
  obtain j where j: "j < length (rp_items d)" "ri_failure_id (rp_items d ! j) = fid" "ri_dispatch_state (rp_items d ! j) \<noteq> Not_Dispatched"
    using way by (auto simp: on_its_way_def)
  have find: "find_item fid (rp_items d) = Some (rp_items d ! j)" and upd: "update_item fid f (rp_items d) = (rp_items d)[j := f (rp_items d ! j)]" for f
    using item_at[OF _ j(1)] ok j(2) by (auto simp: plan_ok_def)
  have open_item: "\<not> terminal (ri_outcome (rp_items d ! j))" and q: "q = d\<lparr>rp_items := (rp_items d)[j := apply_changes ch (rp_items d ! j)]\<rparr>"
    using edit by (auto simp: item_change_edit_def with_item_Inr find upd terminal_def split: if_splits)
  have "j < used d" using ok j(1,3) by (simp add: plan_ok_def in_order_def)
  moreover have "ri_dispatch_state (apply_changes ch (rp_items d ! j)) \<noteq> Not_Dispatched"
    using ch j(3) by (cases "ic_dispatch_state ch") (auto simp: apply_changes_def or_else_def)
  ultimately show ?thesis unfolding q using later_change[OF ok j(1), of "apply_changes ch (rp_items d ! j)"] open_item by (simp add: apply_changes_def)
qed

subsection \<open>All plans, workers and requests\<close>

definition plans_ok :: "recovery_db \<Rightarrow> bool" where
  "plans_ok db \<longleftrightarrow> (\<forall>k p poll. rd_plans db k = Some (p, poll) \<longrightarrow>
     rp_plan_id p = k \<and> plan_ok p \<and> (\<forall>x \<in> set (claim_keys p). rd_claims db x = Some k))"

definition db_evolves :: "recovery_db \<Rightarrow> recovery_db \<Rightarrow> bool" where
  "db_evolves db db' \<longleftrightarrow> (\<forall>k p poll. rd_plans db k = Some (p, poll) \<longrightarrow> (\<exists>q poll'. rd_plans db' k = Some (q, poll') \<and> evolves p q))"

lemma db_evolves_refl [simp]: "db_evolves db db"
  unfolding db_evolves_def by (meson evolves_refl)

lemma change_plan_keeps:
  assumes ok: "plans_ok db" and change: "change_plan pid edit action actor now db = (r, db')"
    and edit: "\<And>p poll q. rd_plans db pid = Some (p, poll) \<Longrightarrow> plan_ok p \<Longrightarrow> edit p now = Inr (Some q) \<Longrightarrow> plan_ok q \<and> evolves p q"
  shows "plans_ok db' \<and> db_evolves db db'"
proof -
  consider "db' = db" | p poll q poll' log where "rd_plans db pid = Some (p, poll)" "edit p now = Inr (Some q)"
      "db' = db\<lparr>rd_plans := (rd_plans db)(pid \<mapsto> (q\<lparr>rp_updated_at := now\<rparr>, poll')), rd_audit := log\<rparr>"
    using change by (fastforce simp: change_plan_def Let_def split: option.splits sum.splits prod.splits)
  then show ?thesis
  proof cases
    case 2
    have p: "rp_plan_id p = pid" "plan_ok p" "\<forall>x \<in> set (claim_keys p). rd_claims db x = Some pid" using ok 2(1) by (auto simp: plans_ok_def)
    then have q: "plan_ok q" "evolves p q" using edit 2 by blast+
    have "claim_keys (q\<lparr>rp_updated_at := now\<rparr>) = claim_keys p" using evolvesD(2)[OF q(2)] by (simp add: claim_keys_def)
    then have "plans_ok db'" using ok p q evolvesD(1)[OF q(2)] 2(3) unfolding plans_ok_def by (simp split: if_splits)
    moreover have "db_evolves db db'" using 2 q unfolding db_evolves_def by auto
    ultimately show ?thesis by blast
  qed (use ok in simp)
qed

definition has_plan :: "recovery_db \<Rightarrow> recovery_plan \<Rightarrow> bool" where
  "has_plan db p \<longleftrightarrow> plan_ok p \<and> (\<exists>d poll. rd_plans db (rp_plan_id p) = Some (d, poll) \<and> evolves p d)"

definition has_dispatched :: "recovery_db \<Rightarrow> string \<Rightarrow> string \<Rightarrow> bool" where
  "has_dispatched db pid fid \<longleftrightarrow> (\<exists>d poll. rd_plans db pid = Some (d, poll) \<and> on_its_way d fid)"

definition request_key :: "retry_request \<Rightarrow> string \<times> string" where
  "request_key r = (rq_plan_id r, rq_failure_id r)"

fun sending_key :: "worker \<Rightarrow> (string \<times> string) option" where
  "sending_key (Sending p i note) = Some (rp_plan_id p, ri_failure_id i)"
| "sending_key _ = None"

fun worker_ok :: "recovery_db \<Rightarrow> worker \<Rightarrow> bool" where
  "worker_ok db (Polled p) = has_plan db p"
| "worker_ok db (Checking p i) = (has_plan db p \<and> aimed p i)"
| "worker_ok db (Claiming p i c) = (has_plan db p \<and> aimed p i)"
| "worker_ok db (Sending p i note) = (has_plan db p \<and> i \<in> set (rp_items p) \<and> ri_dispatch_state i \<noteq> Not_Dispatched)"
| "worker_ok db (Answered pid fid ch) = (has_dispatched db pid fid \<and> ic_dispatch_state ch \<noteq> Some Not_Dispatched)"
| "worker_ok db (Observing p items) = (has_plan db p \<and> (\<forall>i \<in> set items. i \<in> set (rp_items p) \<and> ri_dispatch_state i \<noteq> Not_Dispatched))"
| "worker_ok db _ = True"

definition request_ok :: "recovery_db \<Rightarrow> retry_request \<Rightarrow> bool" where
  "request_ok db r \<longleftrightarrow> (\<exists>d poll. rd_plans db (rq_plan_id r) = Some (d, poll) \<and> on_its_way d (rq_failure_id r) \<and>
     rq_service_id r = rp_service_id d \<and> rq_environment r = rp_environment d)"

definition recovery_inv :: "recovery_state \<Rightarrow> bool" where
  "recovery_inv s \<longleftrightarrow> plans_ok (st_db s) \<and> (\<forall>w. worker_ok (st_db s) (st_workers s w)) \<and> (\<forall>r \<in> set (st_sent s). request_ok (st_db s) r) \<and>
     distinct (map request_key (st_sent s)) \<and>
     (\<forall>w k. sending_key (st_workers s w) = Some k \<longrightarrow> k \<notin> set (map request_key (st_sent s)) \<and> (\<forall>v. v \<noteq> w \<longrightarrow> sending_key (st_workers s v) \<noteq> Some k))"

lemma evolves_scope: "evolves p q \<Longrightarrow> rp_items p \<noteq> [] \<Longrightarrow> rp_service_id q = rp_service_id p \<and> rp_environment q = rp_environment p"
  using evolvesD(2)[of p q] by (cases "rp_items p"; cases "rp_items q") (auto simp: claim_keys_def)

lemma has_plan_mono: "has_plan db p \<Longrightarrow> db_evolves db db' \<Longrightarrow> has_plan db' p"
  unfolding has_plan_def db_evolves_def using evolves_trans by blast

lemma has_dispatched_mono: "has_dispatched db pid fid \<Longrightarrow> db_evolves db db' \<Longrightarrow> has_dispatched db' pid fid"
  unfolding has_dispatched_def db_evolves_def using on_its_way_evolves by blast

lemma worker_ok_mono: "worker_ok db pc \<Longrightarrow> db_evolves db db' \<Longrightarrow> worker_ok db' pc"
  by (cases "(db, pc)" rule: worker_ok.cases) (auto intro: has_plan_mono has_dispatched_mono)

lemma request_ok_mono: "request_ok db r \<Longrightarrow> db_evolves db db' \<Longrightarrow> request_ok db' r"
proof -
  assume r: "request_ok db r" and e: "db_evolves db db'"
  then obtain d poll q poll' where d: "rd_plans db (rq_plan_id r) = Some (d, poll)" "on_its_way d (rq_failure_id r)"
      "rq_service_id r = rp_service_id d" "rq_environment r = rp_environment d" and q: "rd_plans db' (rq_plan_id r) = Some (q, poll')" "evolves d q"
    unfolding request_ok_def db_evolves_def by blast
  moreover have "rp_items d \<noteq> []" using d(2) by (auto simp: on_its_way_def)
  ultimately show ?thesis unfolding request_ok_def using on_its_way_evolves[OF d(2) q(2)] evolves_scope[OF q(2)] by auto
qed

lemma inv_db:
  assumes "recovery_inv s" "plans_ok db'" "db_evolves (st_db s) db'"
  shows "recovery_inv (s\<lparr>st_db := db'\<rparr>)"
proof -
  have "worker_ok db' (st_workers s w)" for w using assms(1,3) worker_ok_mono unfolding recovery_inv_def by blast
  moreover have "\<forall>r \<in> set (st_sent s). request_ok db' r" using assms(1,3) request_ok_mono unfolding recovery_inv_def by blast
  ultimately show ?thesis using assms(1,2) unfolding recovery_inv_def by simp
qed

lemma inv_worker:
  assumes "recovery_inv s" "worker_ok (st_db s) pc" "sending_key pc = None"
  shows "recovery_inv (put_worker w pc s)"
  using assms unfolding recovery_inv_def put_worker_def by (simp add: all_conj_distrib)

lemma has_plan_item:
  assumes "has_plan db p" "i \<in> set (rp_items p)" "ri_dispatch_state i \<noteq> Not_Dispatched"
  shows "has_dispatched db (rp_plan_id p) (ri_failure_id i)"
proof -
  have "on_its_way p (ri_failure_id i)" using assms(2,3) unfolding on_its_way_def by (metis in_set_conv_nth)
  then show ?thesis using assms(1) on_its_way_evolves unfolding has_plan_def has_dispatched_def by blast
qed

lemma candidates_ok: "i \<in> set (candidates p) \<Longrightarrow> i \<in> set (rp_items p) \<and> ri_dispatch_state i \<noteq> Not_Dispatched"
  unfolding candidates_def by (drule in_set_takeD) (auto simp: observable_def)

lemma response_dispatch: "ic_dispatch_state (response_changes E fid a) \<noteq> Some Not_Dispatched"
  by (auto simp: response_changes_def accepted_changes_def no_changes_def Let_def split: sum.splits)

lemma or_else_dispatch: "ic_dispatch_state (late_changes E i now ch) = ic_dispatch_state ch"
  by (simp add: late_changes_def split: option.splits)

lemma status_dispatch: "status_changes E service i rep st ch = Inr ch' \<Longrightarrow> ic_dispatch_state ch' = ic_dispatch_state ch"
  by (auto simp: status_changes_def Let_def split: pyval.splits if_splits sum.splits option.splits)

lemma replacement_dispatch: "replacement_changes E service i st ch = Inr ch' \<Longrightarrow> ic_dispatch_state ch' = ic_dispatch_state ch"
  by (auto simp: replacement_changes_def status_dispatch split: pyval.splits if_splits sum.splits)

lemma receipt_dispatch: "receipt_changes E i r ch = Inr (Some ch') \<Longrightarrow> ic_dispatch_state ch' = Some Accepted"
  by (auto simp: receipt_changes_def split: option.splits if_splits)

lemma observation_dispatch:
  assumes "observe_outcome E plan i now found receipt status = (ch, raised)"
  shows "ic_dispatch_state ch \<in> {None, Some Acceptance_Unknown, Some Accepted}"
proof -
  have first: "ic_dispatch_state (first_changes i now) \<in> {None, Some Acceptance_Unknown}" by (simp add: first_changes_def no_changes_def)
  show ?thesis using assms first
    by (auto simp: observe_outcome_def Let_def dest!: replacement_dispatch receipt_dispatch split: sum.splits if_splits option.splits)
qed

lemma new_plan_ok:
  assumes "distinct (claim_keys (new_plan rid h now pr))" "0 \<le> pr_interval_seconds pr"
  shows "plan_ok (new_plan rid h now pr)"
proof -
  let ?p = "new_plan rid h now pr"
  have fresh: "ri_dispatch_state i = Not_Dispatched \<and> ri_outcome i = Not_Requested \<and> ri_requested_at i = None" if "i \<in> set (rp_items ?p)" for i
    using that by (auto simp: new_plan_def plan_item_def)
  have u: "used ?p = 0" using fresh by (simp add: used_def)
  have "map ri_failure_id (rp_items ?p) = map (snd \<circ> snd) (claim_keys ?p)" by (simp add: claim_keys_def comp_def)
  moreover have "inj_on (snd \<circ> snd) (set (claim_keys ?p))" by (auto simp: inj_on_def claim_keys_def)
  ultimately have "distinct (map ri_failure_id (rp_items ?p))" using assms(1) by (simp add: distinct_map)
  moreover have "in_order ?p" using fresh u by (simp add: in_order_def)
  moreover have "spaced ?p" using fresh assms(2) by (auto simp: spaced_def) (auto simp: new_plan_def)
  ultimately show ?thesis using fresh u unfolding plan_ok_def by (simp add: new_plan_def)
qed

lemma store_create_keeps:
  assumes ok: "plans_ok db" and p: "distinct (claim_keys p) \<Longrightarrow> plan_ok p" and run: "store_create actor now p db = (r, db')"
  shows "plans_ok db' \<and> db_evolves db db'"
proof (cases "rd_plans db (rp_plan_id p) = None \<and> list_all (\<lambda>k. rd_claims db k = None) (claim_keys p) \<and> distinct (claim_keys p)")
  case True
  then have plans: "rd_plans db' = (rd_plans db)(rp_plan_id p \<mapsto> (p, now))"
    and claims: "rd_claims db' = (\<lambda>k. if k \<in> set (claim_keys p) then Some (rp_plan_id p) else rd_claims db k)"
    using run by (auto simp: store_create_def)
  have old: "rd_claims db' x = Some k" if "rd_plans db k = Some (q, poll)" "x \<in> set (claim_keys q)" for k q poll x
    using ok True that unfolding plans_ok_def claims by (fastforce simp: list_all_iff)
  have "plans_ok db'" unfolding plans_ok_def
  proof (intro allI impI)
    fix k q poll assume q: "rd_plans db' k = Some (q, poll)"
    show "rp_plan_id q = k \<and> plan_ok q \<and> (\<forall>x \<in> set (claim_keys q). rd_claims db' x = Some k)"
    proof (cases "k = rp_plan_id p")
      case True
      then show ?thesis using q p \<open>_ \<and> _ \<and> distinct (claim_keys p)\<close> by (simp add: plans claims)
    next
      case False
      then have "rd_plans db k = Some (q, poll)" using q by (simp add: plans)
      then show ?thesis using old ok unfolding plans_ok_def by blast
    qed
  qed
  moreover have "db_evolves db db'" using True unfolding db_evolves_def plans by auto
  ultimately show ?thesis by blast
next
  case False
  then have "db' = db" using run by (auto simp: store_create_def split: sum.splits if_splits)
  then show ?thesis using ok by simp
qed

lemma preview_interval: "preview_plan E payload found answers = Inr pr \<Longrightarrow> pr_interval_seconds pr = pq_interval_seconds payload"
  by (auto simp: preview_plan_def split: sum.splits)

lemma create_plan_keeps:
  assumes "plans_ok db" "valid_preview E payload" "create_plan E payload rid digest actor found answers now db = (r, db')"
  shows "plans_ok db' \<and> db_evolves db db'"
proof -
  have refused: "plans_ok db \<and> db_evolves db db" using assms(1) by simp
  show ?thesis
  proof (cases "get_plan rid db")
    case (Inl e)
    show ?thesis
    proof (cases "preview_plan E payload found answers")
      case (Inr pr)
      have "0 \<le> pr_interval_seconds pr" using assms(2) preview_interval[OF Inr] by (simp add: valid_preview_def)
      then have keeps: "store_create a now (new_plan rid h now pr) db = (r, db') \<Longrightarrow> plans_ok db' \<and> db_evolves db db'" for a h
        using store_create_keeps[OF assms(1)] new_plan_ok by blast
      show ?thesis using assms(3) Inl Inr refused by (auto simp: create_plan_def Let_def split: if_splits dest: keeps)
    qed (use assms(3) Inl refused in \<open>simp add: create_plan_def Let_def\<close>)
  qed (use assms(3) refused in \<open>auto simp: create_plan_def Let_def split: if_splits\<close>)
qed

lemma take_due_keeps:
  assumes ok: "plans_ok db" and due: "take_due pid now db = Some (p, db')"
  shows "plans_ok db' \<and> db_evolves db db' \<and> has_plan db' p"
proof -
  obtain poll poll' where p: "rd_plans db pid = Some (p, poll)" "db' = db\<lparr>rd_plans := (rd_plans db)(pid \<mapsto> (p, poll'))\<rparr>"
    using due by (auto simp: take_due_def split: option.splits if_splits)
  moreover from this have "rp_plan_id p = pid" "plan_ok p" using ok by (auto simp: plans_ok_def)
  ultimately show ?thesis using ok by (auto simp: plans_ok_def db_evolves_def has_plan_def)
qed

lemma changed_inv:
  assumes inv: "recovery_inv s" and change: "change_plan pid edit action actor now (st_db s) = (r, db)"
    and edit: "\<And>p poll q. rd_plans (st_db s) pid = Some (p, poll) \<Longrightarrow> plan_ok p \<Longrightarrow> edit p now = Inr (Some q) \<Longrightarrow> plan_ok q \<and> evolves p q"
  shows "recovery_inv (s\<lparr>st_db := db\<rparr>) \<and> db_evolves (st_db s) db"
proof -
  have "plans_ok (st_db s)" using inv by (simp add: recovery_inv_def)
  then have "plans_ok db \<and> db_evolves (st_db s) db" by (rule change_plan_keeps[OF _ change]) (rule edit)
  then show ?thesis using inv_db[OF inv] by blast
qed

lemma worker_changes:
  assumes "recovery_inv s" "change_plan pid edit action actor now (st_db s) = (r, db)"
    and "\<And>p poll q. rd_plans (st_db s) pid = Some (p, poll) \<Longrightarrow> plan_ok p \<Longrightarrow> edit p now = Inr (Some q) \<Longrightarrow> plan_ok q \<and> evolves p q"
    and "worker_ok (st_db s) pc" "sending_key pc = None"
  shows "recovery_inv (put_worker w pc (s\<lparr>st_db := db\<rparr>)) \<and> db_evolves (st_db s) db"
  using changed_inv[OF assms(1-3)] inv_worker[of "s\<lparr>st_db := db\<rparr>" pc] worker_ok_mono[OF assms(4)] assms(5) by simp

lemma st_db_set: "st_db (s\<lparr>st_db := d\<rparr>) = d"
  by simp

lemma put_worker_db [simp]: "st_db (put_worker w pc s) = st_db s"
  by (simp add: put_worker_def)

lemma claim_inv:
  assumes inv: "recovery_inv s" and pc: "st_workers s w = Claiming plan item current"
    and edit: "edit = claim_edit (ri_failure_id item) (rp_version plan) (in_baseline_event current)"
    and change: "change_plan (rp_plan_id plan) edit action actor now (st_db s) = (Inr latest, db)"
    and claimed: "was_claimed (rp_plan_id plan) edit now (st_db s)" "find_item (ri_failure_id item) (rp_items latest) = Some i"
  shows "recovery_inv (put_worker w (Sending latest i note) (s\<lparr>st_db := db\<rparr>)) \<and> db_evolves (st_db s) db"
proof -
  have "worker_ok (st_db s) (st_workers s w)" using inv unfolding recovery_inv_def by blast
  then have w: "has_plan (st_db s) plan" "aimed plan item" by (simp_all add: pc)
  then obtain d poll where d: "rd_plans (st_db s) (rp_plan_id plan) = Some (d, poll)" "evolves plan d" by (auto simp: has_plan_def)
  have ok: "plan_ok d" "rp_plan_id d = rp_plan_id plan" using inv d(1) by (auto simp: recovery_inv_def plans_ok_def)
  obtain q where q: "edit d now = Inr (Some q)" using claimed(1) d(1) by (auto simp: was_claimed_def split: sum.splits option.splits)
  note keeps = claim_edit_keeps[OF ok(1) w(2) d(2) q[unfolded edit]]
  have latest: "latest = q\<lparr>rp_updated_at := now\<rparr>" and plans: "\<exists>poll'. rd_plans db (rp_plan_id plan) = Some (latest, poll')"
    using change d(1) q by (auto simp: change_plan_def Let_def)
  have "ri_failure_id item = ri_failure_id (rp_items latest ! used d)" "used d < length (rp_items latest)"
    using keeps evolves_length[of d q] by (simp_all add: latest)
  then have i: "i = rp_items latest ! used d" using item_at(1)[of "rp_items latest" "used d"] claimed(2) keeps by (simp add: latest plan_ok_def)
  have sent: "i \<in> set (rp_items latest)" "ri_dispatch_state i \<noteq> Not_Dispatched" "ri_failure_id i = ri_failure_id item"
    using i keeps \<open>used d < length (rp_items latest)\<close> by (simp_all add: latest)
  have id: "rp_plan_id latest = rp_plan_id plan" using keeps ok(2) evolvesD(1)[of d q] by (simp add: latest)
  have inv': "recovery_inv (s\<lparr>st_db := db\<rparr>)" "has_plan db latest" "db_evolves (st_db s) db"
  proof -
    have keeps': "plan_ok q' \<and> evolves p q'" if p: "rd_plans (st_db s) (rp_plan_id plan) = Some (p, poll')" "plan_ok p" "edit p now = Inr (Some q')" for p poll' q'
    proof -
      have "p = d" using p(1) d(1) by simp
      then show ?thesis using claim_edit_keeps[OF p(2) w(2) _ p(3)[unfolded edit]] d(2) by simp
    qed
    show "recovery_inv (s\<lparr>st_db := db\<rparr>)" "db_evolves (st_db s) db" using changed_inv[OF inv change keeps'] by simp_all
    show "has_plan db latest" using plans keeps id by (auto simp: has_plan_def latest)
  qed
  have "\<not> on_its_way d (ri_failure_id item)"
  proof
    assume "on_its_way d (ri_failure_id item)"
    then obtain j where j: "j < length (rp_items d)" "ri_failure_id (rp_items d ! j) = ri_failure_id item" "j < used d"
      using ok(1) by (auto simp: on_its_way_def plan_ok_def in_order_def)
    then show False using ok(1) keeps by (auto simp: plan_ok_def distinct_conv_nth)
  qed
  then have fresh: "\<not> has_dispatched (st_db s) (rp_plan_id plan) (ri_failure_id item)" using d(1) by (simp add: has_dispatched_def)
  have "(rp_plan_id latest, ri_failure_id i) \<noteq> request_key r" if "r \<in> set (st_sent s)" for r
  proof
    assume "(rp_plan_id latest, ri_failure_id i) = request_key r"
    moreover have "request_ok (st_db s) r" using inv that by (simp add: recovery_inv_def)
    ultimately show False using fresh id sent(3) by (auto simp: request_ok_def request_key_def has_dispatched_def)
  qed
  moreover have "sending_key (st_workers s v) \<noteq> Some (rp_plan_id latest, ri_failure_id i)" for v
  proof
    assume v: "sending_key (st_workers s v) = Some (rp_plan_id latest, ri_failure_id i)"
    then obtain p x n where x: "st_workers s v = Sending p x n" "rp_plan_id p = rp_plan_id latest" "ri_failure_id x = ri_failure_id i"
      by (cases "st_workers s v") auto
    moreover have "worker_ok (st_db s) (st_workers s v)" using inv unfolding recovery_inv_def by blast
    ultimately have "has_dispatched (st_db s) (rp_plan_id plan) (ri_failure_id item)" using has_plan_item[of "st_db s" p x] id sent(3) by auto
    then show False using fresh by simp
  qed
  ultimately show ?thesis using inv' sent(1,2) unfolding recovery_inv_def put_worker_def by (auto simp: image_iff)
qed

lemma send_inv:
  assumes inv: "recovery_inv s" and pc: "st_workers s w = Sending latest item note"
  shows "recovery_inv (put_worker w (Answered (rp_plan_id latest) (ri_failure_id item) (response_changes E (ri_failure_id item) a))
    (s\<lparr>st_sent := st_sent s @ [retry_request_of latest item note]\<rparr>))"
proof -
  let ?r = "retry_request_of latest item note"
  have "worker_ok (st_db s) (st_workers s w)" using inv unfolding recovery_inv_def by blast
  then have w: "has_plan (st_db s) latest" "item \<in> set (rp_items latest)" "ri_dispatch_state item \<noteq> Not_Dispatched" by (simp_all add: pc)
  have way: "on_its_way latest (ri_failure_id item)" using w(2,3) unfolding on_its_way_def by (metis in_set_conv_nth)
  obtain d poll where d: "rd_plans (st_db s) (rp_plan_id latest) = Some (d, poll)" "evolves latest d" using w(1) by (auto simp: has_plan_def)
  have "rp_items latest \<noteq> []" using w(2) by auto
  then have "request_ok (st_db s) ?r"
    using d on_its_way_evolves[OF way d(2)] evolves_scope[OF d(2)] by (simp add: request_ok_def retry_request_of_def)
  moreover have "sending_key (st_workers s w) = Some (request_key ?r)" by (simp add: pc request_key_def retry_request_of_def)
  then have "request_key ?r \<notin> set (map request_key (st_sent s))" "\<forall>v. v \<noteq> w \<longrightarrow> sending_key (st_workers s v) \<noteq> Some (request_key ?r)"
    using inv unfolding recovery_inv_def by blast+
  moreover have "worker_ok (st_db s) (Answered (rp_plan_id latest) (ri_failure_id item) (response_changes E (ri_failure_id item) a))"
    using has_plan_item[OF w] response_dispatch by simp
  ultimately show ?thesis using inv unfolding recovery_inv_def put_worker_def by auto
qed

lemma recovery_step_inv:
  assumes "recovery_inv s" "recovery_step E s t"
  shows "recovery_inv t \<and> db_evolves (st_db s) (st_db t)"
proof -
  have ok: "plans_ok (st_db s)" and wok: "\<And>w. worker_ok (st_db s) (st_workers s w)" using assms(1) by (auto simp: recovery_inv_def)
  from assms(2) show ?thesis
  proof (cases rule: recovery_step.cases)
    case (operator_creates payload rid digest actor found answers now r db)
    then show ?thesis using create_plan_keeps[OF ok operator_creates(2,3)] inv_db[OF assms(1)] by simp
  next
    case (operator_controls c pid actor now r db)
    then show ?thesis using changed_inv[OF assms(1)] control_edit_keeps unfolding control_plan_def by simp
  next
    case (worker_polls w pid now plan db)
    then show ?thesis using take_due_keeps[OF ok worker_polls(3)] inv_db[OF assms(1)] inv_worker[of "s\<lparr>st_db := db\<rparr>" "Polled plan"] by simp
  next
    case (worker_skips w plan)
    then show ?thesis using inv_worker[OF assms(1)] by simp
  next
    case (worker_picks w plan item)
    then show ?thesis using inv_worker[OF assms(1)] wok[of w] next_item_aimed by (auto simp: has_plan_def)
  next
    case (worker_blocks w plan item found admin fetched topology e now r db)
    have w: "has_plan (st_db s) plan" "aimed plan item" using wok[of w] worker_blocks(2) by simp_all
    show ?thesis unfolding worker_blocks(1) put_worker_db st_db_set
    proof (rule worker_changes[OF assms(1) worker_blocks(5)])
      show "plan_ok q \<and> evolves p q" if "rd_plans (st_db s) (rp_plan_id plan) = Some (p, poll)" "plan_ok p"
        "block_edit (ri_failure_id item) (retryable_preflight e) (error_text e) p now = Inr (Some q)" for p poll q
        using block_edit_keeps[OF that(2) w(2) _ that(3)] w(1) that(1) by (auto simp: has_plan_def)
    qed simp_all
  next
    case (worker_passes w plan item found admin fetched topology current)
    then show ?thesis using inv_worker[OF assms(1)] wok[of w] by simp
  next
    case (worker_claims w plan item current edit now latest db claimed)
    then show ?thesis using claim_inv[OF assms(1) worker_claims(2,3,4,5,6)] by simp
  next
    case (worker_loses_claim w plan item current edit now r db)
    have "db = st_db s" using worker_loses_claim(4,5) by (auto simp: change_plan_def was_claimed_def split: option.splits sum.splits)
    then show ?thesis using worker_loses_claim(1) inv_worker[OF assms(1)] by simp
  next
    case (worker_sends w latest item remark a)
    then show ?thesis using send_inv[OF assms(1) worker_sends(2)] by simp
  next
    case (worker_records w pid fid ch now r db)
    have w: "has_dispatched (st_db s) pid fid" "ic_dispatch_state ch \<noteq> Some Not_Dispatched" using wok[of w] worker_records(2) by simp_all
    show ?thesis unfolding worker_records(1) put_worker_db st_db_set
    proof (rule worker_changes[OF assms(1) worker_records(3)])
      show "plan_ok q \<and> evolves p q" if "rd_plans (st_db s) pid = Some (p, poll)" "plan_ok p" "item_change_edit fid ch p now = Inr (Some q)" for p poll q
        using item_change_keeps[OF that(2) _ w(2) that(3)] w(1) that(1) by (auto simp: has_dispatched_def)
    qed simp_all
  next
    case (worker_reads w pid plan)
    obtain poll where poll: "rd_plans (st_db s) pid = Some (plan, poll)" using worker_reads(3) by (auto simp: get_plan_def split: option.splits)
    then have "rp_plan_id plan = pid" "plan_ok plan" using ok by (auto simp: plans_ok_def)
    then have "has_plan (st_db s) plan" using poll evolves_refl unfolding has_plan_def by blast
    then show ?thesis using worker_reads(1) inv_worker[OF assms(1)] candidates_ok by simp
  next
    case (worker_waits w plan item items now)
    then show ?thesis using inv_worker[OF assms(1)] wok[of w] by simp
  next
    case (worker_observes w plan item items now found receipt status ch raised now' r db)
    have w: "has_plan (st_db s) plan" "item \<in> set (rp_items plan)" "ri_dispatch_state item \<noteq> Not_Dispatched"
        "worker_ok (st_db s) (if raised then Idle else Observing plan items)"
      using wok[of w] worker_observes(2) by simp_all
    have ch: "ic_dispatch_state (late_changes E item now ch) \<noteq> Some Not_Dispatched"
      using observation_dispatch[OF worker_observes(4)] by (auto simp: or_else_dispatch)
    show ?thesis unfolding worker_observes(1) put_worker_db st_db_set
    proof (rule worker_changes[OF assms(1) worker_observes(5)])
      show "plan_ok q \<and> evolves p q" if "rd_plans (st_db s) (rp_plan_id plan) = Some (p, poll)" "plan_ok p"
        "item_change_edit (ri_failure_id item) (late_changes E item now ch) p now' = Inr (Some q)" for p poll q
        using item_change_keeps[OF that(2) _ ch that(3)] has_plan_item[OF w(1-3)] that(1) by (auto simp: has_dispatched_def)
    qed (use w(4) in simp_all)
  next
    case (worker_observed w plan)
    then show ?thesis using inv_worker[OF assms(1)] by simp
  next
    case (worker_settles w pid now r db)
    show ?thesis unfolding worker_settles(1) put_worker_db st_db_set
      by (rule worker_changes[OF assms(1) worker_settles(3)]) (auto dest: settle_edit_keeps)
  next
    case (worker_stops w)
    then show ?thesis using inv_worker[OF assms(1)] by simp
  qed
qed

lemma recovery_reach_inv: "recovery_reach E s \<Longrightarrow> recovery_inv s"
proof (induction rule: recovery_reach.induct)
  case reach_start
  show ?case by (simp add: recovery_inv_def recovery_start_def plans_ok_def)
qed (blast dest: recovery_step_inv)

subsection \<open>What a recovery promises\<close>

lemma sent_distinct:
  assumes "recovery_inv s"
  shows "distinct (map (\<lambda>r. (rq_service_id r, rq_environment r, rq_failure_id r)) (st_sent s))"
proof -
  have key: "rd_claims (st_db s) (rq_service_id r, rq_environment r, rq_failure_id r) = Some (rq_plan_id r)" if r: "r \<in> set (st_sent s)" for r
  proof -
    obtain d poll where d: "rd_plans (st_db s) (rq_plan_id r) = Some (d, poll)" "on_its_way d (rq_failure_id r)"
        "rq_service_id r = rp_service_id d" "rq_environment r = rp_environment d"
      using assms r unfolding recovery_inv_def request_ok_def by blast
    then have "(rq_service_id r, rq_environment r, rq_failure_id r) \<in> set (claim_keys d)"
      by (auto simp: on_its_way_def claim_keys_def image_iff) (metis nth_mem)
    then show ?thesis using assms d(1) by (auto simp: recovery_inv_def plans_ok_def)
  qed
  have "inj_on request_key (set (st_sent s))" "distinct (st_sent s)" using assms by (simp_all add: recovery_inv_def distinct_map)
  moreover have "inj_on (\<lambda>r. (rq_service_id r, rq_environment r, rq_failure_id r)) (set (st_sent s))"
  proof (rule inj_onI)
    fix r q assume rq: "r \<in> set (st_sent s)" "q \<in> set (st_sent s)"
      "(rq_service_id r, rq_environment r, rq_failure_id r) = (rq_service_id q, rq_environment q, rq_failure_id q)"
    then have "request_key r = request_key q" using key[OF rq(1)] key[OF rq(2)] by (simp add: request_key_def)
    then show "r = q" using rq(1,2) \<open>inj_on request_key _\<close> by (simp add: inj_on_def)
  qed
  ultimately show ?thesis by (simp add: distinct_map)
qed

text \<open> C19. Studio's recovery (studio/backend/src/relayna_studio/_recovery.py) never sends a retry twice: however operators create
  and control plans, however many workers run and whenever they stop, and whatever the services
  answer, the requests sent are for pairwise different failures of a service, and each was sent after
  its dispatch was committed to the plan. \<close>

theorem recovery_never_resends:
  assumes "recovery_reach E s"
  shows "distinct (map (\<lambda>r. (rq_service_id r, rq_environment r, rq_failure_id r)) (st_sent s)) \<and>
    (\<forall>r \<in> set (st_sent s). \<exists>p poll i. rd_plans (st_db s) (rq_plan_id r) = Some (p, poll) \<and> i \<in> set (rp_items p) \<and>
       ri_failure_id i = rq_failure_id r \<and> ri_dispatch_state i \<noteq> Not_Dispatched)"
proof -
  have inv: "recovery_inv s" using assms by (rule recovery_reach_inv)
  have "\<exists>p poll i. rd_plans (st_db s) (rq_plan_id r) = Some (p, poll) \<and> i \<in> set (rp_items p) \<and>
       ri_failure_id i = rq_failure_id r \<and> ri_dispatch_state i \<noteq> Not_Dispatched" if "r \<in> set (st_sent s)" for r
    using inv that unfolding recovery_inv_def request_ok_def on_its_way_def by (metis nth_mem)
  then show ?thesis using sent_distinct[OF inv] by blast
qed

lemma requests_le_used:
  assumes inv: "recovery_inv s" and p: "rd_plans (st_db s) pid = Some (p, poll)"
  shows "length (filter (\<lambda>r. rq_plan_id r = pid) (st_sent s)) \<le> used p"
proof -
  let ?rs = "filter (\<lambda>r. rq_plan_id r = pid) (st_sent s)"
  have "distinct (map request_key ?rs)" using inv by (simp add: recovery_inv_def distinct_map inj_on_def)
  then have dist: "distinct (map rq_failure_id ?rs)" by (auto simp: distinct_map inj_on_def request_key_def)
  have "set (map rq_failure_id ?rs) \<subseteq> set (map ri_failure_id (filter (\<lambda>i. ri_dispatch_state i \<noteq> Not_Dispatched) (rp_items p)))"
  proof
    fix fid assume "fid \<in> set (map rq_failure_id ?rs)"
    then obtain r where r: "r \<in> set (st_sent s)" "rq_plan_id r = pid" "rq_failure_id r = fid" by auto
    then have "on_its_way p fid" using inv p by (auto simp: recovery_inv_def request_ok_def)
    then show "fid \<in> set (map ri_failure_id (filter (\<lambda>i. ri_dispatch_state i \<noteq> Not_Dispatched) (rp_items p)))"
      unfolding on_its_way_def by force
  qed
  then have "length (map rq_failure_id ?rs) \<le> card (set (map ri_failure_id (filter (\<lambda>i. ri_dispatch_state i \<noteq> Not_Dispatched) (rp_items p))))"
    using dist by (metis card_mono distinct_card finite_set)
  also have "\<dots> \<le> used p" unfolding used_def by (metis card_length length_map)
  finally show ?thesis by simp
qed

text \<open> C20. A recovery plan (_recovery.py) never sends more than the operator authorised: the requests of a plan are
  at most its dispatched items, those at most its allowance, that at most its items; and two
  requests of a plan were committed at least its interval apart. \<close>

theorem recovery_within_allowance:
  assumes "recovery_reach E s" and "rd_plans (st_db s) pid = Some (p, poll)"
  shows "int (length (filter (\<lambda>r. rq_plan_id r = pid) (st_sent s))) \<le> rp_allowance p \<and> rp_allowance p \<le> int (length (rp_items p)) \<and>
    (\<forall>a b t u. a < b \<and> b < length (rp_items p) \<and> ri_requested_at (rp_items p ! a) = Some t \<and> ri_requested_at (rp_items p ! b) = Some u \<longrightarrow>
       t + rp_interval_seconds p * 1000000 \<le> u)"
proof -
  have inv: "recovery_inv s" using assms(1) by (rule recovery_reach_inv)
  then have "plan_ok p" using assms(2) by (auto simp: recovery_inv_def plans_ok_def)
  then show ?thesis using requests_le_used[OF inv assms(2)] unfolding plan_ok_def spaced_def by (auto intro: order_trans)
qed

text \<open> C21. Progress of a recovery plan (_recovery.py) is never undone: in every reachable state, whatever step comes next, a plan
  stays with its failures, a dispatched item stays dispatched, an observed success or failure stays
  as it is, and a plan that was stopped or completed stays so and dispatches nothing more. \<close>

theorem recovery_progress_kept:
  assumes "recovery_reach E s" and "recovery_step E s t" and "rd_plans (st_db s) pid = Some (p, poll)"
  shows "\<exists>q poll'. rd_plans (st_db t) pid = Some (q, poll') \<and> map ri_failure_id (rp_items q) = map ri_failure_id (rp_items p) \<and>
    (\<forall>j < length (rp_items p).
       (ri_dispatch_state (rp_items p ! j) \<noteq> Not_Dispatched \<longrightarrow> ri_dispatch_state (rp_items q ! j) \<noteq> Not_Dispatched) \<and>
       (ri_outcome (rp_items p ! j) \<in> {Succeeded, Failure_Observed} \<longrightarrow> ri_outcome (rp_items q ! j) = ri_outcome (rp_items p ! j))) \<and>
    (rp_state p \<in> {Stopped, Completed} \<longrightarrow> rp_state q = rp_state p \<and> used q = used p)"
proof -
  have "db_evolves (st_db s) (st_db t)" using recovery_step_inv[OF recovery_reach_inv[OF assms(1)] assms(2)] by blast
  then obtain q poll' where q: "rd_plans (st_db t) pid = Some (q, poll')" "evolves p q" using assms(3) unfolding db_evolves_def by blast
  show ?thesis using q evolves_ids[OF q(2)] evolvesD(4,5,7,8)[OF q(2)] by (auto simp: terminal_def finished_def)
qed

text \<open> Controls of a plan (_recovery.py) are compared with its version: a control with another version changes nothing and
  answers 409, and one that is accepted raises the version, so a repeated authorisation is refused. \<close>

theorem stale_control_refused:
  assumes "rd_plans db pid = Some (p, poll)" and "control_plan pid c actor now db = (r, db')"
  shows "(ct_version c \<noteq> rp_version p \<longrightarrow> db' = db \<and> (\<exists>m. r = Inl (Http_Error 409 m))) \<and>
    (\<forall>q. r = Inr q \<longrightarrow> rp_version q = rp_version p + 1 \<and>
       (\<exists>m. control_plan pid c actor' now' db' = (Inl (Http_Error 409 m), db')))"
proof -
  have version: "rp_version q' = rp_version p" if "control_state c p now = Inr q'" for q'
    using that by (auto simp: control_state_def conflict_def Let_def split: control_action.splits if_splits)
  have raised: "rp_version q = rp_version p + 1" if "control_edit c actor p now = Inr (Some q)" for q
    using that by (auto simp: control_edit_def conflict_def Let_def split: sum.splits if_splits dest!: version)
  have stale: "control_edit c a q n = Inl (Http_Error 409 ''Plan changed. Refresh before issuing another control.'')"
    if "rp_version q \<noteq> ct_version c" for a q n using that by (simp add: control_edit_def conflict_def)
  have never: "control_edit c actor p now \<noteq> Inr None" by (auto simp: control_edit_def conflict_def Let_def split: sum.splits if_splits)
  show ?thesis
  proof (cases "control_edit c actor p now")
    case (Inl e)
    then show ?thesis using assms stale[of p actor now] by (auto simp: control_plan_def change_plan_def)
  next
    case (Inr x)
    then obtain q where q: "x = Some q" using never by (cases x) auto
    have v: "rp_version p = ct_version c" using Inr stale[of p actor now] by fastforce
    have r: "r = Inr (q\<lparr>rp_updated_at := now\<rparr>)" and db': "\<exists>poll'. rd_plans db' pid = Some (q\<lparr>rp_updated_at := now\<rparr>, poll')"
      using assms Inr q by (auto simp: control_plan_def change_plan_def Let_def)
    have "control_edit c actor' (q\<lparr>rp_updated_at := now\<rparr>) now' = Inl (Http_Error 409 ''Plan changed. Refresh before issuing another control.'')"
      using raised[of q] Inr q v stale[of "q\<lparr>rp_updated_at := now\<rparr>"] by simp
    then have "control_plan pid c actor' now' db' = (Inl (Http_Error 409 ''Plan changed. Refresh before issuing another control.''), db')"
      using db' by (auto simp: control_plan_def change_plan_def)
    then show ?thesis using r raised[of q] Inr q v by auto
  qed
qed

subsection \<open>Witnesses\<close>

definition sample_env :: recovery_env where
  "sample_env = \<lparr>rv_date = (\<lambda>v. case v of PInt n \<Rightarrow> Some n | _ \<Rightarrow> None), rv_hash = (\<lambda>_. ''h''), rv_preview_digest = (\<lambda>_. ''d''),
     rv_request_hash = (\<lambda>_. ''q''), rv_request_bytes = (\<lambda>_. 100)\<rparr>"

definition sample_service :: "pinned_service answer" where
  "sample_service = Inr \<lparr>pv_service_id = ''pay'', pv_name = ''Payments'', pv_environment = ''prod'', pv_base_url = ''http://pay'',
     pv_supported_routes = PList [PStr ''failed_tasks.detail'', PStr ''failed_tasks.retry''], pv_payload_aliases = []\<rparr>"

definition sample_detail :: "dict answer" where
  "sample_detail = Inr [(''failure_id'', PStr ''f1''), (''status'', PStr ''DLQ''), (''payload_available'', PBool True), (''raw_body_b64'', PStr ''e30=''),
     (''retry_status'', PStr ''not_retried''), (''source_queue_name'', PStr ''jobs'')]"

definition sample_request :: preview_request where
  "sample_request = \<lparr>pq_service_id = ''pay'', pq_environment = ''prod'', pq_items = [\<lparr>sl_failure_id = ''f1'', sl_target_queue = None, sl_override_payload = PNone\<rparr>],
     pq_interval_seconds = 2, pq_note = ''again''\<rparr>"

definition created_run where
  "created_run = create_plan sample_env sample_request ''p1'' ''d'' None sample_service (\<lambda>_. (sample_detail, Inr [])) 0 (st_db recovery_start)"

definition controlled_run where
  "controlled_run = control_plan ''p1'' \<lparr>ct_action = Batch, ct_count = 5, ct_version = 0\<rparr> None 10 (snd created_run)"

definition due_run where
  "due_run = the (take_due ''p1'' 20 (snd controlled_run))"

definition sample_item :: recovery_item where
  "sample_item = \<lparr>ri_failure_id = ''f1'', ri_target_queue = PStr ''jobs'', ri_override_payload = PNone, ri_fingerprint = ''h'',
     ri_baseline_event = [(''timestamp'', PNone)], ri_receipt_marker = ''[studio-recovery:p1:0]'', ri_dispatch_state = Not_Dispatched, ri_outcome = Not_Requested,
     ri_requested_at = None, ri_accepted_at = PNone, ri_replacement_task_id = PNone, ri_observed_at = None, ri_observed_event = None,
     ri_last_checked_at = None, ri_message = None\<rparr>"

definition sample_plan :: recovery_plan where
  "sample_plan = \<lparr>rp_plan_id = ''p1'', rp_request_hash = ''q'', rp_service_id = ''pay'', rp_environment = ''prod'', rp_base_url = ''http://pay'',
     rp_items = [sample_item], rp_interval_seconds = 2, rp_note = ''again'', rp_state = Running_Plan, rp_version = 1, rp_updated_at = 10,
     rp_execution_actor = None, rp_execution_email = Some ''operator'', rp_started_at = Some 10, rp_dispatch_finished_at = None, rp_allowance = 1,
     rp_next_dispatch_at = 0\<rparr>"

definition sample_current :: inspection where
  "sample_current = projr (preflight sample_env sample_plan sample_item sample_service True sample_detail (Inr []))"

definition sample_edit where
  "sample_edit = claim_edit (ri_failure_id sample_item) (rp_version sample_plan) (in_baseline_event sample_current)"

definition claimed_run where
  "claimed_run = change_plan (rp_plan_id sample_plan) sample_edit ''recovery.dispatch.requested'' None 30 (snd due_run)"

definition sample_claimed where
  "sample_claimed = the (find_item (ri_failure_id sample_item) (rp_items (projr (fst claimed_run))))"

definition sample_sent where
  "sample_sent = put_worker 0 (Answered (rp_plan_id (projr (fst claimed_run))) (ri_failure_id sample_claimed) (response_changes sample_env (ri_failure_id sample_claimed) (Inl (Unforeseen ''timeout''))))
     (put_worker 0 (Sending (projr (fst claimed_run)) sample_claimed (rp_note sample_plan))
       (put_worker 0 (Claiming sample_plan sample_item sample_current) (put_worker 0 (Checking sample_plan sample_item)
         (put_worker 0 (Polled sample_plan) (recovery_start\<lparr>st_db := snd due_run\<rparr>))))
       \<lparr>st_db := snd claimed_run, st_sent := [retry_request_of (projr (fst claimed_run)) sample_claimed (rp_note sample_plan)]\<rparr>)"


lemma sample_due: "rd_plans (snd controlled_run) ''p1'' = Some (sample_plan, 10)"
  by code_simp

lemma sample_due_run: "take_due ''p1'' 20 (snd controlled_run) = Some (sample_plan, snd due_run)" "rd_plans (snd due_run) ''p1'' = Some (sample_plan, 2000020)"
proof -
  have "active_plan sample_plan" by code_simp
  then show "take_due ''p1'' 20 (snd controlled_run) = Some (sample_plan, snd due_run)" "rd_plans (snd due_run) ''p1'' = Some (sample_plan, 2000020)"
    by (simp_all add: due_run_def take_due_def sample_due)
qed

lemma sample_valid: "valid_preview sample_env sample_request"
  by (simp add: valid_preview_def sample_env_def sample_request_def)

lemma sample_next: "next_item sample_plan = Some sample_item"
  by (simp add: next_item_def used_def sample_plan_def) (simp add: sample_item_def)

lemma sample_passes: "preflight sample_env sample_plan sample_item sample_service True sample_detail (Inr []) = Inr sample_current"
proof -
  have "\<not> isl (preflight sample_env sample_plan sample_item sample_service True sample_detail (Inr []))" by code_simp
  then show ?thesis by (auto simp: sample_current_def isl_def)
qed

lemma sample_claim:
  "change_plan (rp_plan_id sample_plan) sample_edit ''recovery.dispatch.requested'' None 30 (snd due_run) = (Inr (projr (fst claimed_run)), snd claimed_run)"
  "was_claimed (rp_plan_id sample_plan) sample_edit 30 (snd due_run)"
  "find_item (ri_failure_id sample_item) (rp_items (projr (fst claimed_run))) = Some sample_claimed"
proof -
  have id: "rp_plan_id sample_plan = ''p1''" by (simp add: sample_plan_def)
  have u: "used sample_plan = 0" by code_simp
  have edit: "sample_edit sample_plan 30 = Inr (Some (sample_plan\<lparr>rp_items := [sample_item\<lparr>ri_dispatch_state := Dispatching, ri_requested_at := Some 30,
      ri_outcome := Outcome_Unknown, ri_baseline_event := in_baseline_event sample_current\<rparr>], rp_next_dispatch_at := 2000030\<rparr>))"
    by (simp add: sample_edit_def claim_edit_def with_item_def find_item_def u) (simp add: sample_plan_def sample_item_def)
  show "change_plan (rp_plan_id sample_plan) sample_edit ''recovery.dispatch.requested'' None 30 (snd due_run) = (Inr (projr (fst claimed_run)), snd claimed_run)"
    "was_claimed (rp_plan_id sample_plan) sample_edit 30 (snd due_run)"
    "find_item (ri_failure_id sample_item) (rp_items (projr (fst claimed_run))) = Some sample_claimed"
    by (simp_all add: claimed_run_def change_plan_def was_claimed_def id sample_due_run edit Let_def sample_claimed_def find_item_def)
qed

lemma sample_reached: "recovery_reach sample_env sample_sent"
proof -
  let ?s1 = "recovery_start\<lparr>st_db := snd created_run\<rparr>" and ?s2 = "recovery_start\<lparr>st_db := snd controlled_run\<rparr>"
  let ?s3 = "put_worker 0 (Polled sample_plan) (recovery_start\<lparr>st_db := snd due_run\<rparr>)"
  let ?s4 = "put_worker 0 (Checking sample_plan sample_item) ?s3"
  let ?s5 = "put_worker 0 (Claiming sample_plan sample_item sample_current) ?s4"
  let ?s6 = "put_worker 0 (Sending (projr (fst claimed_run)) sample_claimed (rp_note sample_plan)) (?s5\<lparr>st_db := snd claimed_run\<rparr>)"
  note reach = reach_step[of sample_env]
  have "create_plan sample_env sample_request ''p1'' ''d'' None sample_service (\<lambda>_. (sample_detail, Inr [])) 0 (st_db recovery_start) = (fst created_run, snd created_run)"
    by (simp add: created_run_def)
  from reach[OF reach_start operator_creates[OF sample_valid this]] have 1: "recovery_reach sample_env ?s1" .
  have "control_plan ''p1'' \<lparr>ct_action = Batch, ct_count = 5, ct_version = 0\<rparr> None 10 (st_db ?s1) = (fst controlled_run, snd controlled_run)"
    by (simp add: controlled_run_def)
  then have "recovery_step sample_env ?s1 (?s1\<lparr>st_db := snd controlled_run\<rparr>)" by (rule operator_controls[rotated 2]) simp_all
  then have 2: "recovery_reach sample_env ?s2" using reach[OF 1] by simp
  have "recovery_step sample_env ?s2 (put_worker 0 (Polled sample_plan) (?s2\<lparr>st_db := snd due_run\<rparr>))"
    by (rule worker_polls[where pid = "''p1''" and now = 20]) (simp_all add: sample_due_run recovery_start_def)
  then have 3: "recovery_reach sample_env ?s3" using reach[OF 2] by simp
  have 4: "recovery_reach sample_env ?s4" by (rule reach[OF 3], rule worker_picks[OF _ sample_next]) (simp add: put_worker_def)
  have 5: "recovery_reach sample_env ?s5" by (rule reach[OF 4], rule worker_passes[OF _ sample_passes]) (simp add: put_worker_def)
  have db5: "st_db ?s5 = snd due_run" by simp
  have 6: "recovery_reach sample_env ?s6"
    by (rule reach[OF 5], rule worker_claims[OF _ sample_edit_def _ _ sample_claim(3), where now = 30])
      (simp_all add: sample_claim db5[unfolded put_worker_db] put_worker_def)
  have "recovery_step sample_env ?s6 sample_sent"
  proof -
    have "recovery_step sample_env ?s6 (put_worker 0 (Answered (rp_plan_id (projr (fst claimed_run))) (ri_failure_id sample_claimed)
        (response_changes sample_env (ri_failure_id sample_claimed) (Inl (Unforeseen ''timeout''))))
        (?s6\<lparr>st_sent := st_sent ?s6 @ [retry_request_of (projr (fst claimed_run)) sample_claimed (rp_note sample_plan)]\<rparr>))"
      by (rule worker_sends) (simp add: put_worker_def)
    then show ?thesis by (simp add: sample_sent_def put_worker_def recovery_start_def)
  qed
  then show ?thesis by (rule reach[OF 6])
qed

theorem recovery_never_resends_witness:
  "recovery_reach sample_env sample_sent \<and> length (st_sent sample_sent) = 1 \<and>
   (\<exists>p poll i. rd_plans (st_db sample_sent) ''p1'' = Some (p, poll) \<and> i \<in> set (rp_items p) \<and> ri_dispatch_state i \<noteq> Not_Dispatched)"
proof -
  have one: "st_sent sample_sent = [retry_request_of (projr (fst claimed_run)) sample_claimed (rp_note sample_plan)]" by (simp add: sample_sent_def put_worker_def)
  have "rq_plan_id (retry_request_of (projr (fst claimed_run)) sample_claimed (rp_note sample_plan)) = ''p1''" by code_simp
  then show ?thesis using recovery_never_resends[OF sample_reached] sample_reached one by auto
qed

theorem recovery_within_allowance_witness:
  "\<exists>p poll. rd_plans (st_db sample_sent) ''p1'' = Some (p, poll) \<and> rp_allowance p \<le> int (length (rp_items p))"
proof -
  have "\<not> Option.is_none (rd_plans (snd claimed_run) ''p1'')" by code_simp
  then obtain p poll where "rd_plans (st_db sample_sent) ''p1'' = Some (p, poll)" by (auto simp: Option.is_none_def sample_sent_def put_worker_def)
  then show ?thesis using recovery_within_allowance[OF sample_reached] by blast
qed

text \<open>The worker records the answer of the request it sent: the item stays dispatched.\<close>

theorem recovery_progress_kept_witness:
  "\<exists>t p poll q poll'. recovery_step sample_env sample_sent t \<and> (\<exists>pid. st_workers t 0 = Dispatched pid) \<and>
     rd_plans (st_db sample_sent) ''p1'' = Some (p, poll) \<and> rd_plans (st_db t) ''p1'' = Some (q, poll') \<and>
     (\<exists>j < length (rp_items p). ri_dispatch_state (rp_items p ! j) \<noteq> Not_Dispatched \<and> ri_dispatch_state (rp_items q ! j) \<noteq> Not_Dispatched)"
proof -
  let ?pid = "rp_plan_id (projr (fst claimed_run))" and ?fid = "ri_failure_id sample_claimed"
  let ?ch = "response_changes sample_env ?fid (Inl (Unforeseen ''timeout''))"
  let ?run = "change_plan ?pid (item_change_edit ?fid ?ch) ''recovery.dispatch.recorded'' None 20 (st_db sample_sent)"
  let ?t = "put_worker 0 (Dispatched ?pid) (sample_sent\<lparr>st_db := snd ?run\<rparr>)"
  have "st_workers sample_sent 0 = Answered ?pid ?fid ?ch" by (simp add: sample_sent_def put_worker_def)
  from worker_records[OF this prod.collapse[symmetric]] have step: "recovery_step sample_env sample_sent ?t" .
  have "case rd_plans (snd claimed_run) ''p1'' of Some (p, _) \<Rightarrow> 0 < length (rp_items p) \<and> ri_dispatch_state (rp_items p ! 0) \<noteq> Not_Dispatched | None \<Rightarrow> False"
    by code_simp
  then obtain p poll where p: "rd_plans (st_db sample_sent) ''p1'' = Some (p, poll)" "0 < length (rp_items p)" "ri_dispatch_state (rp_items p ! 0) \<noteq> Not_Dispatched"
    by (auto simp: sample_sent_def put_worker_def split: option.splits)
  moreover have "\<exists>pid. st_workers ?t 0 = Dispatched pid" by (simp add: put_worker_def)
  ultimately show ?thesis using recovery_progress_kept[OF sample_reached step p(1)] step p by blast
qed

theorem stale_control_refused_witness:
  "\<exists>m. control_plan ''p1'' \<lparr>ct_action = Batch, ct_count = 5, ct_version = 0\<rparr> None 20 (snd controlled_run) = (Inl (Http_Error 409 m), snd controlled_run)"
  using stale_control_refused[OF sample_due, of "\<lparr>ct_action = Batch, ct_count = 5, ct_version = 0\<rparr>" None 20] by (auto simp: sample_plan_def prod_eq_iff)

end
