(* ===== verification/Incidents.thy ===== *)
theory Incidents
  imports Contracts "HOL-Library.Option_ord" "HOL-Library.List_Lexorder" "HOL-Library.Char_ord" "HOL-Library.Multiset"
begin

text \<open>
  \<^verbatim>\<open>_incident_groups.py\<close>, \<^verbatim>\<open>_incident_store.py\<close> and \<^verbatim>\<open>_incidents.py\<close> of the Studio backend: failures are grouped into incidents
  by a signature, and operators merge and split the groups.  The tables are lists of rows; a transaction
  is one operation (all of them take the same advisory lock).  The substitutions of identifiers and numbers
  in messages (\<open>erase\<close>), the SHA-256 of the dimensions (\<open>group_id\<close>), the reading of dates (\<open>stamp\<close>) and fresh ids are
  arguments.
\<close>

subsection \<open>Groups\<close>

record dimensions =
  dm_environment :: string
  dm_service_id :: string
  dm_queue_name :: string
  dm_stage :: string
  dm_error_type :: string
  dm_signature :: string

record failure_row =
  fl_failure_id :: string
  fl_service_id :: string
  fl_environment :: string
  fl_task_id :: "string option"
  fl_queue_name :: "string option"
  fl_source_queue_name :: "string option"
  fl_stage :: "string option"
  fl_error_type :: "string option"
  fl_error_message :: "string option"
  fl_failed_at :: "string option"

text \<open>\<^verbatim>\<open>" ".join(text.split())\<close>\<close>

fun words :: "string \<Rightarrow> string \<Rightarrow> string list" where
  "words acc [] = (if acc = [] then [] else [rev acc])"
| "words acc (c # cs) = (if is_space c then (if acc = [] then words [] cs else rev acc # words [] cs) else words (c # acc) cs)"

definition dimensions_of :: "(string \<Rightarrow> string) \<Rightarrow> failure_row \<Rightarrow> dimensions" where
  "dimensions_of erase item =
     (let signature = join '' '' (words [] (erase (strip (or_text (fl_error_message item) [])))) in
      \<lparr>dm_environment = fl_environment item, dm_service_id = fl_service_id item,
       dm_queue_name = or_text (fl_queue_name item) (or_text (fl_source_queue_name item) ''unknown''),
       dm_stage = or_text (fl_stage item) ''unknown'', dm_error_type = or_text (fl_error_type item) ''unknown'',
       dm_signature = (if signature \<noteq> [] then signature else ''Missing error message ('' @ fl_failure_id item @ '')'')\<rparr>)"

datatype incident_status = Open_Incident | Acknowledged | Resolved

record incident =
  nc_incident_id :: string
  nc_service_id :: string
  nc_environment :: string
  nc_dimensions :: dimensions
  nc_status :: incident_status
  nc_owner :: "string option"
  nc_revision :: int
  nc_merged_into :: "string option"

datatype incident_error = Incident_Http int string | Incident_Runtime string

text \<open>An incident stands for the one it was merged into, and so on; ids without a state stand for themselves.\<close>

definition merged_into :: "(string \<times> incident) list \<Rightarrow> string \<Rightarrow> string option" where
  "merged_into states i =
     (case map_of states i of None \<Rightarrow> None | Some row \<Rightarrow> (case nc_merged_into row of Some t \<Rightarrow> if t = [] then None else Some t | None \<Rightarrow> None))"

lemma merged_into_dom: "merged_into states i = Some t \<Longrightarrow> i \<in> fst ` set states"
  by (force simp: merged_into_def dest: map_of_SomeD split: option.splits)

function resolve_from :: "(string \<times> incident) list \<Rightarrow> string list \<Rightarrow> string \<Rightarrow> incident_error + string" where
  "resolve_from states visited i =
     (case merged_into states i of
        None \<Rightarrow> Inr i
      | Some t \<Rightarrow> if i \<in> set visited then Inl (Incident_Runtime ''Invalid incident merge cycle.'')
                  else resolve_from states (i # visited) t)"
  by auto
termination
proof (relation "measure (\<lambda>(states, visited, i). card (fst ` set states - set visited))", simp_all)
  fix states :: "(string \<times> incident) list" and visited i t
  assume "merged_into states i = Some t" "i \<notin> set visited"
  then have "i \<in> fst ` set states - set visited" using merged_into_dom[of states i t] by simp
  then have "fst ` set states - insert i (set visited) \<subset> fst ` set states - set visited" by auto
  then show "card (fst ` set states - insert i (set visited)) < card (fst ` set states - set visited)" by (rule psubset_card_mono[rotated]) simp
qed

declare resolve_from.simps [simp del]

definition resolve :: "(string \<times> incident) list \<Rightarrow> string \<Rightarrow> incident_error + string" where
  "resolve states i = resolve_from states [] i"

subsection \<open>The tables\<close>

record history_entry =
  hs_incident :: string
  hs_action :: string
  hs_source :: string
  hs_target :: string

record incident_db =
  nd_rows :: "incident list"
  nd_overrides :: "((string \<times> string \<times> string) \<times> string) list"
  nd_history :: "history_entry list"

definition states_of :: "incident list \<Rightarrow> (string \<times> incident) list" where
  "states_of rows = map (\<lambda>r. (nc_incident_id r, r)) rows"

definition find_row :: "string \<Rightarrow> incident_db \<Rightarrow> incident option" where
  "find_row i db = find (\<lambda>r. nc_incident_id r = i) (nd_rows db)"

definition update_row :: "string \<Rightarrow> (incident \<Rightarrow> incident) \<Rightarrow> incident_db \<Rightarrow> incident_db" where
  "update_row i f db = db\<lparr>nd_rows := map (\<lambda>r. if nc_incident_id r = i then f r else r) (nd_rows db)\<rparr>"

definition new_incident :: "string \<Rightarrow> string \<Rightarrow> string \<Rightarrow> dimensions \<Rightarrow> incident" where
  "new_incident i service environment dims = \<lparr>nc_incident_id = i, nc_service_id = service, nc_environment = environment,
     nc_dimensions = dims, nc_status = Open_Incident, nc_owner = None, nc_revision = 0, nc_merged_into = None\<rparr>"

definition record_history :: "string \<Rightarrow> string \<Rightarrow> string \<Rightarrow> string \<Rightarrow> incident_db \<Rightarrow> incident_db" where
  "record_history i action source target db =
     db\<lparr>nd_history := nd_history db @ [\<lparr>hs_incident = i, hs_action = action, hs_source = source, hs_target = target\<rparr>]\<rparr>"

definition get_incident :: "string \<Rightarrow> incident_db \<Rightarrow> incident_error + incident" where
  "get_incident i db = (case find_row i db of None \<Rightarrow> Inl (Incident_Http 404 ''Incident not found.'') | Some row \<Rightarrow> Inr row)"

text \<open>New groups are inserted, those that exist are left alone; then the rows in scope are read.\<close>

definition insert_discovery :: "incident_db \<Rightarrow> string \<times> dimensions \<Rightarrow> incident_db" where
  "insert_discovery db d =
     (if find_row (fst d) db = None
      then db\<lparr>nd_rows := nd_rows db @ [new_incident (fst d) (dm_service_id (snd d)) (dm_environment (snd d)) (snd d)]\<rparr> else db)"

definition in_scope :: "string option \<Rightarrow> string option \<Rightarrow> string \<Rightarrow> string \<Rightarrow> bool" where
  "in_scope environment service env sid \<longleftrightarrow> (or_text environment env = env) \<and> (or_text service sid = sid)"

definition snapshot_incidents ::
  "(string \<times> dimensions) list \<Rightarrow> string option \<Rightarrow> string option \<Rightarrow> incident_db \<Rightarrow>
   ((string \<times> incident) list \<times> ((string \<times> string \<times> string) \<times> string) list) \<times> incident_db" where
  "snapshot_incidents discoveries environment service db =
     (let db = foldl insert_discovery db (sort_key fst discoveries) in
      ((states_of (filter (\<lambda>r. in_scope environment service (nc_environment r) (nc_service_id r)) (nd_rows db)),
        filter (\<lambda>((sid, env, fid), _). in_scope environment service env sid) (nd_overrides db)), db))"

definition locked :: "string \<Rightarrow> int \<Rightarrow> incident_db \<Rightarrow> incident_error + incident" where
  "locked i revision db =
     (case find_row i db of
        None \<Rightarrow> Inl (Incident_Http 404 ''Incident not found.'')
      | Some row \<Rightarrow> if nc_revision row \<noteq> revision \<or> or_text (nc_merged_into row) [] \<noteq> []
                    then Inl (Incident_Http 409 ''Incident changed. Refresh before applying this action.'') else Inr row)"

record incident_change =
  ng_status :: "incident_status option"
  ng_owner :: "string option option"

definition change_incident :: "string \<Rightarrow> int \<Rightarrow> incident_change \<Rightarrow> string \<Rightarrow> incident_db \<Rightarrow> (incident_error + string \<times> int) \<times> incident_db" where
  "change_incident i revision ch remark db =
     (case locked i revision db of
        Inl e \<Rightarrow> (Inl e, db)
      | Inr row \<Rightarrow>
          if ng_status ch = None \<and> ng_owner ch = None \<and> strip remark = []
          then (Inl (Incident_Http 422 ''Change an owner or status, or supply a note.''), db)
          else (Inr (i, revision + 1), record_history i ''updated'' i i (update_row i (\<lambda>r. r\<lparr>
                  nc_status := (case ng_status ch of Some s \<Rightarrow> s | None \<Rightarrow> nc_status r),
                  nc_owner := (case ng_owner ch of Some s \<Rightarrow> s | None \<Rightarrow> nc_owner r), nc_revision := revision + 1\<rparr>) db)))"

definition merge_incident :: "string \<Rightarrow> int \<Rightarrow> string \<Rightarrow> int \<Rightarrow> incident_db \<Rightarrow> (incident_error + string \<times> int) \<times> incident_db" where
  "merge_incident source revision target target_revision db =
     (if source = target then (Inl (Incident_Http 422 ''Choose a different incident to merge into.''), db)
      else case (locked source revision db, locked target target_revision db) of
             (Inl e, _) \<Rightarrow> (Inl e, db)
           | (_, Inl e) \<Rightarrow> (Inl e, db)
           | (Inr s, Inr t) \<Rightarrow>
               if (nc_environment s, nc_service_id s) \<noteq> (nc_environment t, nc_service_id t)
               then (Inl (Incident_Http 422 ''Merge requires the same environment and service.''), db)
               else (Inr (target, target_revision + 1),
                 record_history target ''merged_from'' source target (record_history source ''merged'' source target
                   (update_row target (\<lambda>r. r\<lparr>nc_revision := target_revision + 1\<rparr>)
                     (update_row source (\<lambda>r. r\<lparr>nc_merged_into := Some target, nc_revision := revision + 1\<rparr>) db)))))"

text \<open>The incident of an observed failure: its override, or its natural group, resolved.\<close>

definition incident_of :: "incident_db \<Rightarrow> string \<Rightarrow> string \<Rightarrow> string \<Rightarrow> string \<Rightarrow> incident_error + string" where
  "incident_of db sid env fid natural =
     resolve (states_of (filter (\<lambda>r. nc_service_id r = sid \<and> nc_environment r = env) (nd_rows db)))
       (case map_of (nd_overrides db) (sid, env, fid) of Some i \<Rightarrow> i | None \<Rightarrow> natural)"

fun members_of :: "incident_db \<Rightarrow> incident \<Rightarrow> (string \<times> string) list \<Rightarrow> incident_error + string list" where
  "members_of db source [] = Inr []"
| "members_of db source ((fid, natural) # rest) =
     (case incident_of db (nc_service_id source) (nc_environment source) fid natural of
        Inl e \<Rightarrow> Inl e
      | Inr i \<Rightarrow> (case members_of db source rest of Inl e \<Rightarrow> Inl e
                  | Inr ms \<Rightarrow> Inr (if i = nc_incident_id source then fid # ms else ms)))"

definition override_to :: "incident \<Rightarrow> string \<Rightarrow> incident_db \<Rightarrow> string \<Rightarrow> incident_db" where
  "override_to source new_id db fid =
     db\<lparr>nd_overrides := AList.update (nc_service_id source, nc_environment source, fid) new_id (nd_overrides db)\<rparr>"

definition split_incident ::
  "string \<Rightarrow> string \<Rightarrow> int \<Rightarrow> string list \<Rightarrow> (string \<times> string) list \<Rightarrow> incident_db \<Rightarrow> (incident_error + string \<times> int) \<times> incident_db" where
  "split_incident new_id i revision failure_ids observed db =
     (case locked i revision db of
        Inl e \<Rightarrow> (Inl e, db)
      | Inr source \<Rightarrow>
          (case members_of db source observed of
             Inl e \<Rightarrow> (Inl e, db)
           | Inr members \<Rightarrow>
               if failure_ids = [] \<or> \<not> set failure_ids \<subset> set members
               then (Inl (Incident_Http 409 ''Select a proper subset of the currently observed failures; refresh and try again.''), db)
               else let db = db\<lparr>nd_rows := nd_rows db @ [new_incident new_id (nc_service_id source) (nc_environment source) (nc_dimensions source)]\<rparr>;
                        db = foldl (override_to source new_id) db (remdups failure_ids);
                        db = update_row i (\<lambda>r. r\<lparr>nc_revision := revision + 1\<rparr>) db
                    in (Inr (new_id, 0), record_history new_id ''split_from'' i new_id (record_history i ''split'' i new_id db))))"

subsection \<open>Evidence, groups and summaries\<close>

text \<open>The page of a failure feed: its records, or what makes it unusable, and the next cursor.\<close>

datatype failure_item = Feed_Record failure_row | Without_Id | Malformed_Fields

record feed_page =
  pg_items :: "failure_item list"
  pg_errors :: bool
  pg_next :: pyval

datatype coverage_status = Complete_Scan | Truncated | Unavailable string

text \<open>\<open>items\<close> is the dictionary of the records by failure id; a record that is malformed makes the feed unusable.\<close>

fun collect_page :: "failure_item list \<Rightarrow> (string \<times> failure_row) list \<Rightarrow> (string \<times> failure_row) list \<times> string option" where
  "collect_page [] items = (items, None)"
| "collect_page (Feed_Record f # rest) items = collect_page rest (AList.update (fl_failure_id f) f items)"
| "collect_page (Without_Id # rest) items = (items, Some ''Failure feed returned a record without a failure ID.'')"
| "collect_page (Malformed_Fields # rest) items = (items, Some ''Failure feed returned malformed evidence fields.'')"

fun read_pages :: "(string option \<Rightarrow> string + feed_page) \<Rightarrow> nat \<Rightarrow> string option \<Rightarrow> string list \<Rightarrow> (string \<times> failure_row) list \<Rightarrow> nat \<Rightarrow>
  (string \<times> failure_row) list \<times> coverage_status \<times> nat" where
  "read_pages fetch 0 cursor cursors items pages = (items, Truncated, pages)"
| "read_pages fetch (Suc budget) cursor cursors items pages =
     (case fetch cursor of
        Inl m \<Rightarrow> (items, Unavailable (if m = [] then ''Failure scan timed out.'' else m), pages)
      | Inr page \<Rightarrow>
          if pg_errors page then (items, Unavailable ''Failure feed returned incomplete or malformed evidence.'', pages)
          else (case collect_page (pg_items page) items of
                  (items, Some m) \<Rightarrow> (items, Unavailable m, pages + 1)
                | (items, None) \<Rightarrow>
                    (case pg_next page of
                       PNone \<Rightarrow> (items, Complete_Scan, pages + 1)
                     | PStr following \<Rightarrow>
                         if following = [] then (items, Complete_Scan, pages + 1)
                         else if following \<in> set cursors then (items, Unavailable ''Failure feed pagination did not advance.'', pages + 1)
                         else read_pages fetch budget (Some following) (following # cursors) items (pages + 1)
                     | _ \<Rightarrow> (items, Unavailable ''Failure feed pagination did not advance.'', pages + 1))))"

definition read_service :: "nat \<Rightarrow> (string option \<Rightarrow> string + feed_page) \<Rightarrow> failure_row list \<times> coverage_status" where
  "read_service page_budget fetch = (case read_pages fetch page_budget None [] [] 0 of (items, status, _) \<Rightarrow> (map snd items, status))"

text \<open>The services of a scan are those not disabled and in scope; their evidence is put together.\<close>

record scan_service =
  sv_service_id :: string
  sv_environment :: string
  sv_disabled :: bool

record incident_scan =
  sn_evidence :: "failure_row list"
  sn_coverage :: "(string \<times> string \<times> coverage_status \<times> nat) list"
  sn_complete :: bool

definition scan :: "nat \<Rightarrow> (string \<Rightarrow> string option \<Rightarrow> string + feed_page) \<Rightarrow> scan_service list \<Rightarrow> string option \<Rightarrow> string option \<Rightarrow> incident_scan" where
  "scan page_budget fetch services environment service_id =
     (let services = filter (\<lambda>s. \<not> sv_disabled s \<and> in_scope environment service_id (sv_environment s) (sv_service_id s)) services;
          results = map (\<lambda>s. (s, read_service page_budget (fetch (sv_service_id s)))) services
      in \<lparr>sn_evidence = concat (map (\<lambda>(s, items, status). items) results),
          sn_coverage = map (\<lambda>(s, items, status). (sv_service_id s, sv_environment s, status, length items)) results,
          sn_complete = list_all (\<lambda>(s, items, status). status = Complete_Scan) results\<rparr>)"

definition natural_id :: "(string \<Rightarrow> string) \<Rightarrow> (dimensions \<Rightarrow> string) \<Rightarrow> failure_row \<Rightarrow> string" where
  "natural_id erase group_id item = group_id (dimensions_of erase item)"

definition discoveries_of :: "(string \<Rightarrow> string) \<Rightarrow> (dimensions \<Rightarrow> string) \<Rightarrow> failure_row list \<Rightarrow> (string \<times> dimensions) list" where
  "discoveries_of erase group_id evidence =
     foldl (\<lambda>d item. AList.update (natural_id erase group_id item) (dimensions_of erase item) d) [] evidence"

fun group_evidence :: "(failure_row \<Rightarrow> incident_error + string) \<Rightarrow> failure_row list \<Rightarrow> (string \<times> failure_row list) list \<Rightarrow> incident_error + (string \<times> failure_row list) list" where
  "group_evidence where_to [] groups = Inr groups"
| "group_evidence where_to (item # rest) groups =
     (case where_to item of
        Inl e \<Rightarrow> Inl e
      | Inr i \<Rightarrow> group_evidence where_to rest (AList.update i ((case map_of groups i of Some items \<Rightarrow> items | None \<Rightarrow> []) @ [item]) groups))"

fun resolve_all :: "(string \<times> incident) list \<Rightarrow> string list \<Rightarrow> incident_error + string list" where
  "resolve_all states [] = Inr []"
| "resolve_all states (i # rest) =
     (case resolve states i of Inl e \<Rightarrow> Inl e | Inr r \<Rightarrow> (case resolve_all states rest of Inl e \<Rightarrow> Inl e | Inr rs \<Rightarrow> Inr (r # rs)))"

definition manually_grouped :: "(dimensions \<Rightarrow> string) \<Rightarrow> (string \<times> incident) list \<Rightarrow> string list" where
  "manually_grouped group_id states =
     map fst (filter (\<lambda>(key, row). or_text (nc_merged_into row) [] \<noteq> [] \<or> key \<noteq> group_id (nc_dimensions row)) states)"

text \<open>\<^verbatim>\<open>datetime.min\<close> in UTC, in microseconds from the epoch.\<close>

definition datetime_min :: int where
  "datetime_min = -62135596800000000"

text \<open>Descending by date and failure id; the sort is stable, also when reversed.\<close>

definition newest_first :: "(string option \<Rightarrow> int option) \<Rightarrow> failure_row list \<Rightarrow> failure_row list" where
  "newest_first stamp items =
     rev (sort_key (\<lambda>f. case stamp (fl_failed_at f) of Some t \<Rightarrow> t | None \<Rightarrow> datetime_min) (sort_key fl_failure_id (rev items)))"

record incident_build =
  nb_states :: "(string \<times> incident) list"
  nb_manual :: "string list"
  nb_groups :: "(string \<times> failure_row list) list"

definition build_incidents ::
  "(string \<Rightarrow> string) \<Rightarrow> (dimensions \<Rightarrow> string) \<Rightarrow> (string option \<Rightarrow> int option) \<Rightarrow> failure_row list \<Rightarrow> string option \<Rightarrow> string option \<Rightarrow> incident_db \<Rightarrow>
   (incident_error + incident_build) \<times> incident_db" where
  "build_incidents erase group_id stamp evidence environment service db =
     (case snapshot_incidents (discoveries_of erase group_id evidence) environment service db of
        ((states, overrides), db) \<Rightarrow>
          (case resolve_all states (manually_grouped group_id states) of
             Inl e \<Rightarrow> (Inl e, db)
           | Inr manual \<Rightarrow>
               (case group_evidence (\<lambda>item. resolve states
                       (case map_of overrides (fl_service_id item, fl_environment item, fl_failure_id item) of Some i \<Rightarrow> i | None \<Rightarrow> natural_id erase group_id item))
                       evidence [] of
                  Inl e \<Rightarrow> (Inl e, db)
                | Inr groups \<Rightarrow> (Inr \<lparr>nb_states = states, nb_manual = manual, nb_groups = map (\<lambda>(i, items). (i, newest_first stamp items)) groups\<rparr>, db))))"

record trend =
  tr_recent_hour :: nat
  tr_preceding_hour :: nat
  tr_unknown_timestamps :: nat
  tr_outside_two_hours :: int

record incident_summary =
  ns_failure_count :: nat
  ns_affected_tasks :: nat
  ns_missing_task_ids :: nat
  ns_first_seen :: "int option"
  ns_last_seen :: "int option"
  ns_trend :: trend
  ns_representative :: "failure_row list"

definition summarize :: "(string option \<Rightarrow> int option) \<Rightarrow> int \<Rightarrow> failure_row list \<Rightarrow> incident_summary" where
  "summarize stamp now evidence =
     (let times = concat (map (\<lambda>f. case stamp (fl_failed_at f) of Some t \<Rightarrow> [t] | None \<Rightarrow> []) evidence);
          hour = 3600 * 1000000;
          recent = length (filter (\<lambda>t. now - hour \<le> t \<and> t \<le> now) times);
          preceding = length (filter (\<lambda>t. now - 2 * hour \<le> t \<and> t < now - hour) times)
      in \<lparr>ns_failure_count = length evidence,
          ns_affected_tasks = length (remdups (filter (\<lambda>t. t \<noteq> []) (map (\<lambda>f. or_text (fl_task_id f) []) evidence))),
          ns_missing_task_ids = length (filter (\<lambda>f. or_text (fl_task_id f) [] = []) evidence),
          ns_first_seen = (if times = [] then None else Some (Min (set times))),
          ns_last_seen = (if times = [] then None else Some (Max (set times))),
          ns_trend = \<lparr>tr_recent_hour = recent, tr_preceding_hour = preceding, tr_unknown_timestamps = length evidence - length times,
            tr_outside_two_hours = int (length times) - int recent - int preceding\<rparr>,
          ns_representative = take 3 evidence\<rparr>)"

text \<open>The routes.  \<open>evidence\<close> is what the scan that each of them makes first has found.\<close>

definition history_of :: "string \<Rightarrow> incident_db \<Rightarrow> history_entry list" where
  "history_of i db = take 100 (rev (filter (\<lambda>h. hs_incident h = i) (nd_history db)))"

definition items_of :: "incident_build \<Rightarrow> string \<Rightarrow> failure_row list" where
  "items_of snapshot i = (case map_of (nb_groups snapshot) i of Some items \<Rightarrow> items | None \<Rightarrow> [])"

definition incident_detail ::
  "(string \<Rightarrow> string) \<Rightarrow> (dimensions \<Rightarrow> string) \<Rightarrow> (string option \<Rightarrow> int option) \<Rightarrow> int \<Rightarrow> failure_row list \<Rightarrow> string \<Rightarrow> incident_db \<Rightarrow>
   (incident_error + incident \<times> incident_summary \<times> failure_row list \<times> history_entry list) \<times> incident_db" where
  "incident_detail erase group_id stamp now evidence i db =
     (case get_incident i db of
        Inl e \<Rightarrow> (Inl e, db)
      | Inr state \<Rightarrow>
          (case build_incidents erase group_id stamp evidence (Some (nc_environment state)) (Some (nc_service_id state)) db of
             (Inl e, db) \<Rightarrow> (Inl e, db)
           | (Inr snapshot, db) \<Rightarrow>
               (case map_of (nb_states snapshot) i of
                  None \<Rightarrow> (Inl (Incident_Runtime ''KeyError''), db)
                | Some state \<Rightarrow> (Inr (state, summarize stamp now (items_of snapshot i), items_of snapshot i, history_of i db), db))))"

datatype status_filter = Active | All | Only incident_status

definition status_shown :: "status_filter \<Rightarrow> incident_status \<Rightarrow> bool" where
  "status_shown f s \<longleftrightarrow> (case f of All \<Rightarrow> True | Active \<Rightarrow> s \<noteq> Resolved | Only t \<Rightarrow> s = t)"

text \<open>Rows by failure count, last seen and id, descending; \<^verbatim>\<open>isoformat\<close> strings of UTC dates are ordered as the dates are, and a missing one comes last.\<close>

definition list_incidents ::
  "(string \<Rightarrow> string) \<Rightarrow> (dimensions \<Rightarrow> string) \<Rightarrow> (string option \<Rightarrow> int option) \<Rightarrow> int \<Rightarrow> failure_row list \<Rightarrow> string option \<Rightarrow> status_filter \<Rightarrow> nat \<Rightarrow> nat \<Rightarrow> incident_db \<Rightarrow>
   (incident_error + (incident \<times> incident_summary) list \<times> nat \<times> nat option) \<times> incident_db" where
  "list_incidents erase group_id stamp now evidence environment status offset limit db =
     (case build_incidents erase group_id stamp evidence environment None db of
        (Inl e, db) \<Rightarrow> (Inl e, db)
      | (Inr snapshot, db) \<Rightarrow>
          (let shown = filter (\<lambda>(i, state). or_text (nc_merged_into state) [] = [] \<and> status_shown status (nc_status state)) (nb_states snapshot);
               items = map (\<lambda>(i, state). (state, summarize stamp now (items_of snapshot i))) shown;
               items = rev (sort_key (\<lambda>(_, s). ns_failure_count s) (sort_key (\<lambda>(_, s). ns_last_seen s)
                         (sort_key (\<lambda>(state, _). nc_incident_id state) (rev items))))
           in (Inr (take limit (drop offset items), length items, if offset + limit < length items then Some (offset + limit) else None), db)))"

text \<open>An unset field of the body is not a change; a status of null is refused, an owner is trimmed, and an empty one becomes none.\<close>

definition update_incident :: "string \<Rightarrow> int \<Rightarrow> incident_status option option \<Rightarrow> string option option \<Rightarrow> string \<Rightarrow> incident_db \<Rightarrow>
  (incident_error + string \<times> int) \<times> incident_db" where
  "update_incident i revision status owner remark db =
     (if status = Some None then (Inl (Incident_Http 422 ''Status cannot be null.''), db)
      else change_incident i revision
             \<lparr>ng_status = (case status of Some s \<Rightarrow> s | None \<Rightarrow> None),
              ng_owner = map_option (\<lambda>v. let t = strip (or_text v []) in if t = [] then None else Some t) owner\<rparr> remark db)"

definition split_route ::
  "(string \<Rightarrow> string) \<Rightarrow> (dimensions \<Rightarrow> string) \<Rightarrow> (string option \<Rightarrow> int option) \<Rightarrow> failure_row list \<Rightarrow> string \<Rightarrow> string \<Rightarrow> int \<Rightarrow> string list \<Rightarrow> incident_db \<Rightarrow>
   (incident_error + string \<times> int) \<times> incident_db" where
  "split_route erase group_id stamp evidence new_id i revision failure_ids db =
     (case get_incident i db of
        Inl e \<Rightarrow> (Inl e, db)
      | Inr state \<Rightarrow>
          (case build_incidents erase group_id stamp evidence (Some (nc_environment state)) (Some (nc_service_id state)) db of
             (Inl e, db) \<Rightarrow> (Inl e, db)
           | (Inr snapshot, db) \<Rightarrow>
               split_incident new_id i revision failure_ids
                 (foldl (\<lambda>d item. AList.update (fl_failure_id item) (natural_id erase group_id item) d) [] evidence) db))"

subsection \<open>Merges form a forest\<close>

definition merges :: "(string \<times> incident) list \<Rightarrow> (string \<times> string) set" where
  "merges states = {(a, b). merged_into states a = Some b}"

lemma resolve_from_acyclic:
  assumes "acyclic (merges states)"
  shows "\<forall>v \<in> set visited. (v, i) \<in> (merges states)\<^sup>+ \<Longrightarrow>
    \<exists>r. resolve_from states visited i = Inr r \<and> (i, r) \<in> (merges states)\<^sup>* \<and> merged_into states r = None"
  using assms
proof (induction states visited i rule: resolve_from.induct)
  case (1 states visited i)
  show ?case
  proof (cases "merged_into states i")
    case None
    then show ?thesis by (subst resolve_from.simps) simp
  next
    case (Some t)
    then have step: "(i, t) \<in> merges states" by (simp add: merges_def)
    have new: "i \<notin> set visited" using "1.prems" by (auto simp: acyclic_def)
    have "\<forall>v \<in> set (i # visited). (v, t) \<in> (merges states)\<^sup>+" using "1.prems"(1) step by (auto intro: trancl_into_trancl)
    then obtain r where "resolve_from states (i # visited) t = Inr r" "(t, r) \<in> (merges states)\<^sup>*" "merged_into states r = None"
      using "1.IH"[OF Some new _ "1.prems"(2)] by blast
    then show ?thesis using Some new step by (subst resolve_from.simps) (auto intro: converse_rtrancl_into_rtrancl)
  qed
qed

lemma merges_root_unique:
  assumes "(i, r) \<in> (merges states)\<^sup>*" "(i, q) \<in> (merges states)\<^sup>*" "merged_into states r = None" "merged_into states q = None"
  shows "r = q"
proof -
  have "single_valued (merges states)" by (auto simp: single_valued_def merges_def)
  then have "(r, q) \<in> (merges states)\<^sup>* \<or> (q, r) \<in> (merges states)\<^sup>*" using assms(1,2) by (rule single_valued_confluent)
  then show ?thesis using assms(3,4) by (auto simp: merges_def elim: converse_rtranclE)
qed

text \<open>Resolution in a forest: it never raises and gives the root.\<close>

lemma resolve_root:
  assumes "acyclic (merges states)"
  shows "resolve states i = Inr r \<longleftrightarrow> (i, r) \<in> (merges states)\<^sup>* \<and> merged_into states r = None"
proof -
  obtain q where q: "resolve states i = Inr q" "(i, q) \<in> (merges states)\<^sup>*" "merged_into states q = None"
    using resolve_from_acyclic[OF assms, of "[]" i] by (auto simp: resolve_def)
  then show ?thesis using merges_root_unique by auto
qed

lemma resolve_total:
  assumes "acyclic (merges states)"
  obtains r where "resolve states i = Inr r"
  using resolve_from_acyclic[OF assms, of "[]" i] by (auto simp: resolve_def)

lemma resolve_cong:
  assumes "merged_into states = merged_into states'" "acyclic (merges states)"
  shows "resolve states i = resolve states' i"
proof -
  have "merges states' = merges states" using assms(1) by (simp add: merges_def)
  then show ?thesis using resolve_root[OF assms(2), of i] resolve_root[of states' i] assms resolve_total[OF assms(2), of i] by metis
qed

lemma resolve_merge:
  assumes acyclic: "acyclic (merges states')" and new: "merges states' = insert (s, t) (merges states)" "merged_into states s = None"
    "merged_into states t = None" "s \<noteq> t" and r: "resolve states i = Inr r"
  shows "resolve states' i = Inr (if r = s then t else r)"
proof -
  have old: "acyclic (merges states)" using acyclic new(1) by (auto intro: acyclic_subset)
  have i: "(i, r) \<in> (merges states)\<^sup>*" "merged_into states r = None" using r resolve_root[OF old] by auto
  then have i': "(i, r) \<in> (merges states')\<^sup>*" using new(1) rtrancl_mono[of "merges states" "merges states'"] by auto
  have root: "merged_into states' x = None" if "merged_into states x = None" "x \<noteq> s" for x
  proof (rule ccontr)
    assume "merged_into states' x \<noteq> None"
    then have "(x, the (merged_into states' x)) \<in> merges states'" by (auto simp: merges_def)
    then show False using new(1) that by (auto simp: merges_def)
  qed
  show ?thesis
  proof (cases "r = s")
    case True
    then have "(i, t) \<in> (merges states')\<^sup>*" using i' new(1) by (auto intro: rtrancl_into_rtrancl)
    then show ?thesis using True root[OF new(3)] new(4) resolve_root[OF acyclic] by auto
  next
    case False
    then show ?thesis using i' root[OF i(2)] resolve_root[OF acyclic] by auto
  qed
qed

subsection \<open>The tables stay a forest\<close>

definition forest :: "incident_db \<Rightarrow> bool" where
  "forest db \<longleftrightarrow> distinct (map nc_incident_id (nd_rows db)) \<and> acyclic (merges (states_of (nd_rows db))) \<and>
     (\<forall>r \<in> set (nd_rows db). nc_incident_id r \<noteq> [] \<and>
        (\<forall>t. nc_merged_into r = Some t \<longrightarrow> (\<exists>r' \<in> set (nd_rows db). nc_incident_id r' = t \<and> nc_environment r' = nc_environment r \<and> nc_service_id r' = nc_service_id r)))"

lemma map_of_states: "map_of (states_of rows) i = find (\<lambda>r. nc_incident_id r = i) rows"
  by (induction rows) (auto simp: states_of_def)

lemma find_filter:
  assumes "distinct (map nc_incident_id rows)"
  shows "find (\<lambda>r. nc_incident_id r = i) (filter P rows) = (case find (\<lambda>r. nc_incident_id r = i) rows of Some r \<Rightarrow> if P r then Some r else None | None \<Rightarrow> None)"
  using assms
proof (induction rows)
  case (Cons r rows)
  have "find (\<lambda>x. nc_incident_id x = nc_incident_id r) (filter P rows) = None"
    using Cons.prems by (auto simp: find_None_iff image_iff)
  then show ?case using Cons by auto
qed simp

lemma merged_into_filter:
  assumes "distinct (map nc_incident_id rows)"
  shows "merged_into (states_of (filter P rows)) i =
    (case find (\<lambda>r. nc_incident_id r = i) rows of Some r \<Rightarrow> if P r then merged_into (states_of rows) i else None | None \<Rightarrow> None)"
  unfolding merged_into_def map_of_states find_filter[OF assms] by (auto split: option.splits)

lemma scoped_acyclic: "forest db \<Longrightarrow> acyclic (merges (states_of (filter P (nd_rows db))))"
proof -
  assume f: "forest db"
  then have "merges (states_of (filter P (nd_rows db))) \<subseteq> merges (states_of (nd_rows db))"
    by (auto simp: forest_def merges_def merged_into_filter split: option.splits if_splits)
  then show ?thesis using f acyclic_subset unfolding forest_def by blast
qed

lemma find_update:
  assumes "\<And>r. nc_incident_id (f r) = nc_incident_id r"
  shows "find (\<lambda>r. nc_incident_id r = i) (map (\<lambda>r. if nc_incident_id r = j then f r else r) rows) =
    map_option (\<lambda>r. if i = j then f r else r) (find (\<lambda>r. nc_incident_id r = i) rows)"
  using assms by (induction rows) auto

lemma filter_update:
  assumes "\<And>r. P (f r) = P r"
  shows "filter P (map (\<lambda>r. if nc_incident_id r = j then f r else r) rows) = map (\<lambda>r. if nc_incident_id r = j then f r else r) (filter P rows)"
  using assms by (induction rows) auto

lemma locked_row: "locked i revision db = Inr row \<Longrightarrow> find_row i db = Some row \<and> (nc_merged_into row = None \<or> nc_merged_into row = Some []) \<and> nc_revision row = revision"
  by (auto simp: locked_def or_text_def split: option.splits if_splits)

lemma find_row_mem: "find_row i db = Some r \<Longrightarrow> r \<in> set (nd_rows db) \<and> nc_incident_id r = i"
  by (auto simp: find_row_def find_Some_iff)

definition target_of :: "incident \<Rightarrow> string option" where
  "target_of row = (case nc_merged_into row of Some t \<Rightarrow> if t = [] then None else Some t | None \<Rightarrow> None)"

lemma merged_into_find: "merged_into (states_of rows) i = (case find (\<lambda>r. nc_incident_id r = i) rows of None \<Rightarrow> None | Some r \<Rightarrow> target_of r)"
  by (simp add: merged_into_def map_of_states target_of_def split: option.splits)

lemma merged_update:
  assumes "\<And>r. nc_incident_id (f r) = nc_incident_id r" "\<And>r. P (f r) = P r"
  shows "merged_into (states_of (filter P (map (\<lambda>r. if nc_incident_id r = j then f r else r) rows))) i =
    (case find (\<lambda>r. nc_incident_id r = i) (filter P rows) of None \<Rightarrow> None | Some r \<Rightarrow> target_of (if i = j then f r else r))"
proof -
  have "filter P (map (\<lambda>r. if nc_incident_id r = j then f r else r) rows) = map (\<lambda>r. if nc_incident_id r = j then f r else r) (filter P rows)"
    using assms(2) by (rule filter_update)
  then show ?thesis by (simp add: merged_into_find find_update assms(1) split: option.splits)
qed

lemma find_app: "find P (xs @ ys) = (case find P xs of None \<Rightarrow> find P ys | Some x \<Rightarrow> Some x)"
  by (induction xs) auto

lemma merged_append:
  assumes "target_of new = None"
  shows "merged_into (states_of (filter P (rows @ [new]))) = merged_into (states_of (filter P rows))"
  using assms by (auto simp: merged_into_find find_app fun_eq_iff split: option.splits)

text \<open>Operations that change neither ids nor scopes nor merges.\<close>

definition same_merges :: "incident_db \<Rightarrow> incident_db \<Rightarrow> bool" where
  "same_merges db db' \<longleftrightarrow> (\<forall>sid env. merged_into (states_of (filter (\<lambda>r. nc_service_id r = sid \<and> nc_environment r = env) (nd_rows db'))) =
       merged_into (states_of (filter (\<lambda>r. nc_service_id r = sid \<and> nc_environment r = env) (nd_rows db)))) \<and>
     merged_into (states_of (nd_rows db')) = merged_into (states_of (nd_rows db))"

lemma incident_of_same:
  assumes "forest db" "same_merges db db'" "map_of (nd_overrides db') (sid, env, fid) = map_of (nd_overrides db) (sid, env, fid)"
  shows "incident_of db' sid env fid natural = incident_of db sid env fid natural"
proof -
  have "merged_into (states_of (filter (\<lambda>r. nc_service_id r = sid \<and> nc_environment r = env) (nd_rows db))) =
      merged_into (states_of (filter (\<lambda>r. nc_service_id r = sid \<and> nc_environment r = env) (nd_rows db')))"
    using assms(2) by (simp add: same_merges_def)
  from resolve_cong[OF this scoped_acyclic[OF assms(1)], symmetric] show ?thesis unfolding incident_of_def assms(3) .
qed

lemma update_plain:
  assumes f: "\<And>r. nc_incident_id (f r) = nc_incident_id r \<and> nc_environment (f r) = nc_environment r \<and> nc_service_id (f r) = nc_service_id r \<and> nc_merged_into (f r) = nc_merged_into r"
  shows "same_merges db (update_row j f db)" "forest db \<Longrightarrow> forest (update_row j f db)" "nd_overrides (update_row j f db) = nd_overrides db"
    "find_row i (update_row j f db) = map_option (\<lambda>r. if i = j then f r else r) (find_row i db)"
proof -
  have t: "target_of (f r) = target_of r" for r using f by (simp add: target_of_def)
  have same: "merged_into (states_of (filter P (nd_rows (update_row j f db)))) = merged_into (states_of (filter P (nd_rows db)))"
    if P: "\<And>r. P (f r) = P r" for P
  proof
    fix i
    have "merged_into (states_of (filter P (nd_rows (update_row j f db)))) i =
        (case find (\<lambda>r. nc_incident_id r = i) (filter P (nd_rows db)) of None \<Rightarrow> None | Some r \<Rightarrow> target_of (if i = j then f r else r))"
      unfolding update_row_def using merged_update[of f P, OF _ P] f by simp
    then show "merged_into (states_of (filter P (nd_rows (update_row j f db)))) i = merged_into (states_of (filter P (nd_rows db))) i"
      by (simp add: merged_into_find t split: option.splits)
  qed
  show sm: "same_merges db (update_row j f db)"
    using same[of "\<lambda>r. nc_service_id r = _ \<and> nc_environment r = _"] same[of "\<lambda>_. True"] f by (simp add: same_merges_def)
  show "nd_overrides (update_row j f db) = nd_overrides db" by (simp add: update_row_def)
  show "find_row i (update_row j f db) = map_option (\<lambda>r. if i = j then f r else r) (find_row i db)"
    using f by (simp add: find_row_def update_row_def find_update)
  assume forest: "forest db"
  have "map nc_incident_id (nd_rows (update_row j f db)) = map nc_incident_id (nd_rows db)" using f by (simp add: update_row_def)
  moreover have "merges (states_of (nd_rows (update_row j f db))) = merges (states_of (nd_rows db))" using sm by (simp add: same_merges_def merges_def)
  moreover have row: "\<exists>r' \<in> set (nd_rows (update_row j f db)). nc_incident_id r' = nc_incident_id r \<and> nc_environment r' = nc_environment r \<and> nc_service_id r' = nc_service_id r"
    if "r \<in> set (nd_rows db)" for r
  proof (rule bexI)
    show "(if nc_incident_id r = j then f r else r) \<in> set (nd_rows (update_row j f db))" using that by (auto simp: update_row_def)
  qed (use f in auto)
  moreover have "nc_incident_id r \<noteq> [] \<and> (\<forall>t. nc_merged_into r = Some t \<longrightarrow>
      (\<exists>r' \<in> set (nd_rows (update_row j f db)). nc_incident_id r' = t \<and> nc_environment r' = nc_environment r \<and> nc_service_id r' = nc_service_id r))"
    if r: "r \<in> set (nd_rows (update_row j f db))" for r
  proof -
    obtain q where q: "q \<in> set (nd_rows db)" "r = (if nc_incident_id q = j then f q else q)" using r by (auto simp: update_row_def)
    then have "nc_incident_id r = nc_incident_id q" "nc_environment r = nc_environment q" "nc_service_id r = nc_service_id q" "nc_merged_into r = nc_merged_into q"
      using f by auto
    then show ?thesis using forest q(1) row unfolding forest_def by metis
  qed
  ultimately show "forest (update_row j f db)" using forest unfolding forest_def by simp
qed

lemma history_parts [simp]:
  "nd_rows (record_history i a s t db) = nd_rows db" "nd_overrides (record_history i a s t db) = nd_overrides db"
  by (simp_all add: record_history_def)

lemma forest_rows: "nd_rows db' = nd_rows db \<Longrightarrow> forest db' = forest db"
  by (simp add: forest_def)

lemma incident_of_rows: "nd_rows db' = nd_rows db \<Longrightarrow> nd_overrides db' = nd_overrides db \<Longrightarrow> incident_of db' = incident_of db"
  by (simp add: incident_of_def fun_eq_iff)

text \<open>Pointing an incident that was not merged to another one.\<close>

lemma point_to:
  assumes f: "forest db" and s: "find_row s db = Some rs" "target_of rs = None" and t: "find_row t db = Some rt" "target_of rt = None"
    and st: "s \<noteq> t" "nc_environment rs = nc_environment rt" "nc_service_id rs = nc_service_id rt"
    and g: "\<And>r. nc_incident_id (g r) = nc_incident_id r \<and> nc_environment (g r) = nc_environment r \<and> nc_service_id (g r) = nc_service_id r \<and> nc_merged_into (g r) = Some t"
  shows "forest (update_row s g db)"
    and "\<exists>i. incident_of db sid env fid natural = Inr i \<and>
      incident_of (update_row s g db) sid env fid natural = Inr (if i = s \<and> sid = nc_service_id rs \<and> env = nc_environment rs then t else i)"
proof -
  let ?rows = "nd_rows (update_row s g db)" and ?scope = "\<lambda>r. nc_service_id r = sid \<and> nc_environment r = env"
  have dist: "distinct (map nc_incident_id (nd_rows db))" using f by (simp add: forest_def)
  have ne: "t \<noteq> []" using f find_row_mem[OF t(1)] by (auto simp: forest_def)
  then have tg: "target_of (g r) = Some t" for r using g by (simp add: target_of_def)
  have merged: "merged_into (states_of (filter P ?rows)) i = (if i = s \<and> P rs then Some t else merged_into (states_of (filter P (nd_rows db))) i)"
    if P: "\<And>r. P (g r) = P r" for P i
  proof -
    have "merged_into (states_of (filter P ?rows)) i =
        (case find (\<lambda>r. nc_incident_id r = i) (filter P (nd_rows db)) of None \<Rightarrow> None | Some r \<Rightarrow> target_of (if i = s then g r else r))"
      unfolding update_row_def using merged_update[of g P, OF _ P] g by simp
    then show ?thesis using s(1) by (auto simp: merged_into_find find_filter[OF dist] find_row_def tg split: option.splits if_splits)
  qed
  have all: "merges (states_of ?rows) = insert (s, t) (merges (states_of (nd_rows db)))"
    using merged[of "\<lambda>_. True"] s by (auto simp: merges_def merged_into_find find_row_def split: if_splits)
  have "(t, s) \<notin> (merges (states_of (nd_rows db)))\<^sup>*"
  proof
    assume "(t, s) \<in> (merges (states_of (nd_rows db)))\<^sup>*"
    then show False using st(1) t by (auto simp: merges_def merged_into_find find_row_def elim: converse_rtranclE)
  qed
  then have acyclic: "acyclic (merges (states_of ?rows))" using f unfolding all by (simp add: forest_def)
  have row: "\<exists>r' \<in> set ?rows. nc_incident_id r' = nc_incident_id r \<and> nc_environment r' = nc_environment r \<and> nc_service_id r' = nc_service_id r"
    if "r \<in> set (nd_rows db)" for r
  proof (rule bexI)
    show "(if nc_incident_id r = s then g r else r) \<in> set ?rows" using that by (auto simp: update_row_def)
  qed (use g in auto)
  have closed: "nc_incident_id r \<noteq> [] \<and> (\<forall>u. nc_merged_into r = Some u \<longrightarrow>
      (\<exists>r' \<in> set ?rows. nc_incident_id r' = u \<and> nc_environment r' = nc_environment r \<and> nc_service_id r' = nc_service_id r))"
    if r: "r \<in> set ?rows" for r
  proof -
    obtain q where q: "q \<in> set (nd_rows db)" "r = (if nc_incident_id q = s then g q else q)" using r by (auto simp: update_row_def)
    then have same: "nc_incident_id r = nc_incident_id q" "nc_environment r = nc_environment q" "nc_service_id r = nc_service_id q" using g by auto
    show ?thesis
    proof (cases "nc_incident_id q = s")
      case True
      then have "q = rs" using q(1) find_row_mem[OF s(1)] dist by (auto simp: distinct_map inj_on_def)
      then show ?thesis using True q same g row[of rt] find_row_mem[OF t(1)] st f unfolding forest_def by auto
    next
      case False
      then show ?thesis using q same row f unfolding forest_def by metis
    qed
  qed
  have "map nc_incident_id ?rows = map nc_incident_id (nd_rows db)" using g by (simp add: update_row_def)
  then show forest': "forest (update_row s g db)" using acyclic closed dist unfolding forest_def by simp
  let ?x = "case map_of (nd_overrides db) (sid, env, fid) of Some i \<Rightarrow> i | None \<Rightarrow> natural"
  let ?old = "states_of (filter ?scope (nd_rows db))" and ?new = "states_of (filter ?scope ?rows)"
  obtain i where i: "resolve ?old ?x = Inr i" using resolve_total[OF scoped_acyclic[OF f]] by blast
  have step: "merged_into ?new = (\<lambda>k. if k = s \<and> ?scope rs then Some t else merged_into ?old k)" using merged[of ?scope] g by auto
  have "resolve ?new ?x = Inr (if i = s \<and> ?scope rs then t else i)"
  proof (cases "?scope rs")
    case True
    have ms: "merged_into ?old s = None" and mt: "merged_into ?old t = None"
      using s t by (auto simp: merged_into_find find_filter[OF dist] find_row_def)
    have "merges ?new = insert (s, t) (merges ?old)"
    proof (rule set_eqI, clarify)
      fix a b
      show "(a, b) \<in> merges ?new \<longleftrightarrow> (a, b) \<in> insert (s, t) (merges ?old)"
        using True ms by (cases "a = s") (auto simp: merges_def step)
    qed
    from resolve_merge[OF scoped_acyclic[OF forest'] this ms mt st(1) i] show ?thesis using True by simp
  next
    case False
    then have "merged_into ?old = merged_into ?new" using step by auto
    from resolve_cong[OF this scoped_acyclic[OF f]] have "resolve ?new ?x = Inr i" using i by simp
    then show ?thesis using False by auto
  qed
  then show "\<exists>i. incident_of db sid env fid natural = Inr i \<and>
      incident_of (update_row s g db) sid env fid natural = Inr (if i = s \<and> sid = nc_service_id rs \<and> env = nc_environment rs then t else i)"
    using i unfolding incident_of_def by (auto simp: update_row_def)
qed

lemma merge_keeps:
  assumes f: "forest db" and run: "merge_incident source srev target trev db = (Inr x, db')"
  shows "forest db'" and "\<exists>s. find_row source db = Some s \<and> (\<forall>sid env fid natural. \<exists>i. incident_of db sid env fid natural = Inr i \<and>
      incident_of db' sid env fid natural = Inr (if i = source \<and> sid = nc_service_id s \<and> env = nc_environment s then target else i))"
proof -
  define g where "g = (\<lambda>r::incident. r\<lparr>nc_merged_into := Some target, nc_revision := srev + 1\<rparr>)"
  define h where "h = (\<lambda>r::incident. r\<lparr>nc_revision := trev + 1\<rparr>)"
  obtain s t where st: "source \<noteq> target" "locked source srev db = Inr s" "locked target trev db = Inr t"
      "nc_environment s = nc_environment t" "nc_service_id s = nc_service_id t"
    and db': "db' = record_history target ''merged_from'' source target (record_history source ''merged'' source target (update_row target h (update_row source g db)))"
    using run by (auto simp: merge_incident_def g_def h_def split: sum.splits if_splits)
  have s: "find_row source db = Some s" "target_of s = None" and t: "find_row target db = Some t" "target_of t = None"
    using locked_row[OF st(2)] locked_row[OF st(3)] by (auto simp: target_of_def)
  note pointed = point_to[OF f s t st(1,4,5), of g]
  have f1: "forest (update_row source g db)" by (rule pointed(1)) (simp add: g_def)
  have h: "nc_incident_id (h r) = nc_incident_id r \<and> nc_environment (h r) = nc_environment r \<and> nc_service_id (h r) = nc_service_id r \<and> nc_merged_into (h r) = nc_merged_into r" for r
    by (simp add: h_def)
  have f2: "forest (update_row target h (update_row source g db))" by (rule update_plain(2)[OF h f1])
  have rows: "nd_rows db' = nd_rows (update_row target h (update_row source g db))" "nd_overrides db' = nd_overrides (update_row target h (update_row source g db))"
    by (simp_all add: db' record_history_def)
  then show "forest db'" using f2 forest_rows by metis
  have "incident_of db' sid env fid natural = incident_of (update_row source g db) sid env fid natural" for sid env fid natural
  proof -
    have "incident_of db' sid env fid natural = incident_of (update_row target h (update_row source g db)) sid env fid natural"
      using incident_of_rows[OF rows] by simp
    also have "\<dots> = incident_of (update_row source g db) sid env fid natural"
      by (rule incident_of_same[OF f1 update_plain(1)[OF h]]) (simp add: update_plain(3)[OF h])
    finally show ?thesis .
  qed
  moreover have "\<exists>i. incident_of db sid env fid natural = Inr i \<and>
      incident_of (update_row source g db) sid env fid natural = Inr (if i = source \<and> sid = nc_service_id s \<and> env = nc_environment s then target else i)" for sid env fid natural
    by (rule pointed(2)) (simp add: g_def)
  ultimately show "\<exists>s. find_row source db = Some s \<and> (\<forall>sid env fid natural. \<exists>i. incident_of db sid env fid natural = Inr i \<and>
      incident_of db' sid env fid natural = Inr (if i = source \<and> sid = nc_service_id s \<and> env = nc_environment s then target else i))"
    using s(1) by simp
qed

lemma overrides_foldl:
  "nd_rows (foldl (override_to source new_id) db fids) = nd_rows db"
  "map_of (nd_overrides (foldl (override_to source new_id) db fids)) (sid, env, fid) =
     (if fid \<in> set fids \<and> sid = nc_service_id source \<and> env = nc_environment source then Some new_id else map_of (nd_overrides db) (sid, env, fid))"
  by (induction fids arbitrary: db) (auto simp: override_to_def update_conv)

lemma members_in:
  assumes "members_of db source observed = Inr ms" "fid \<in> set ms"
  shows "\<exists>natural. (fid, natural) \<in> set observed \<and> incident_of db (nc_service_id source) (nc_environment source) fid natural = Inr (nc_incident_id source)"
  using assms
proof (induction db source observed arbitrary: ms rule: members_of.induct)
  case (2 db source f n rest)
  obtain i rs where i: "incident_of db (nc_service_id source) (nc_environment source) f n = Inr i" and rs: "members_of db source rest = Inr rs"
    and ms: "ms = (if i = nc_incident_id source then f # rs else rs)"
    using 2(2) by (auto split: sum.splits)
  show ?case
  proof (cases "fid \<in> set rs")
    case True
    then show ?thesis using 2(1)[OF i rs True] by auto
  next
    case False
    then show ?thesis using 2(3) i ms by (auto split: if_splits)
  qed
qed simp

lemma append_row:
  assumes f: "forest db" and new: "find_row new_id db = None" "new_id \<noteq> []"
  shows "forest (db\<lparr>nd_rows := nd_rows db @ [new_incident new_id sid env dims]\<rparr>)"
    and "same_merges db (db\<lparr>nd_rows := nd_rows db @ [new_incident new_id sid env dims]\<rparr>)"
proof -
  let ?db = "db\<lparr>nd_rows := nd_rows db @ [new_incident new_id sid env dims]\<rparr>"
  have t: "target_of (new_incident new_id sid env dims) = None" by (simp add: new_incident_def target_of_def)
  show same: "same_merges db ?db" using merged_append[OF t] merged_append[OF t, of "\<lambda>_. True"] by (simp add: same_merges_def)
  have "merges (states_of (nd_rows ?db)) = merges (states_of (nd_rows db))" using same by (simp add: same_merges_def merges_def)
  moreover have "new_id \<notin> nc_incident_id ` set (nd_rows db)" using new(1) by (auto simp: find_row_def find_None_iff)
  ultimately show "forest ?db" using f new(2) unfolding forest_def by (auto simp: new_incident_def)
qed

lemma split_keeps:
  assumes f: "forest db" and new: "find_row new_id db = None" "new_id \<noteq> []"
    and run: "split_incident new_id i revision fids observed db = (Inr x, db')"
  shows "forest db'" and "\<exists>source. find_row i db = Some source \<and>
    (\<forall>fid \<in> set fids. \<exists>natural. (fid, natural) \<in> set observed \<and> incident_of db (nc_service_id source) (nc_environment source) fid natural = Inr i) \<and>
    (\<forall>sid env fid natural. incident_of db' sid env fid natural =
       (if fid \<in> set fids \<and> sid = nc_service_id source \<and> env = nc_environment source then Inr new_id else incident_of db sid env fid natural))"
proof -
  define h where "h = (\<lambda>r::incident. r\<lparr>nc_revision := revision + 1\<rparr>)"
  obtain source ms where source: "locked i revision db = Inr source" "members_of db source observed = Inr ms" "set fids \<subset> set ms"
    using run by (auto simp: split_incident_def Let_def split: sum.splits if_splits)
  define db1 where "db1 = db\<lparr>nd_rows := nd_rows db @ [new_incident new_id (nc_service_id source) (nc_environment source) (nc_dimensions source)]\<rparr>"
  define db2 where "db2 = foldl (override_to source new_id) db1 (remdups fids)"
  have db': "nd_rows db' = nd_rows (update_row i h db2)" "nd_overrides db' = nd_overrides (update_row i h db2)"
    using run source by (auto simp: split_incident_def Let_def db1_def db2_def h_def split: if_splits)
  have h: "nc_incident_id (h r) = nc_incident_id r \<and> nc_environment (h r) = nc_environment r \<and> nc_service_id (h r) = nc_service_id r \<and> nc_merged_into (h r) = nc_merged_into r" for r
    by (simp add: h_def)
  have f1: "forest db1" "same_merges db db1" using append_row[OF f new] by (simp_all add: db1_def)
  have rows: "nd_rows db2 = nd_rows db1" by (simp add: db2_def overrides_foldl)
  then have f2: "forest db2" "same_merges db db2" using f1 forest_rows[OF rows] by (simp_all add: same_merges_def)
  have f3: "forest (update_row i h db2)" "same_merges db2 (update_row i h db2)" using update_plain(1,2)[OF h] f2(1) by blast+
  then show "forest db'" using forest_rows[OF db'(1)] by simp
  have merges: "same_merges db db'" using f2(2) f3(2) db'(1) by (simp add: same_merges_def)
  have over: "map_of (nd_overrides db') (sid, env, fid) =
      (if fid \<in> set fids \<and> sid = nc_service_id source \<and> env = nc_environment source then Some new_id else map_of (nd_overrides db) (sid, env, fid))" for sid env fid
    using overrides_foldl(2)[of source new_id db1 "remdups fids"] by (simp add: db'(2) update_plain(3)[OF h] db2_def db1_def)
  have row: "find_row i db = Some source" "nc_incident_id source = i" using locked_row[OF source(1)] find_row_mem by auto
  have "incident_of db' sid env fid natural = Inr new_id" if "fid \<in> set fids" "sid = nc_service_id source" "env = nc_environment source" for sid env fid natural
  proof -
    let ?states = "states_of (filter (\<lambda>r. nc_service_id r = sid \<and> nc_environment r = env) (nd_rows db'))"
    have "merged_into ?states new_id = merged_into (states_of (filter (\<lambda>r. nc_service_id r = sid \<and> nc_environment r = env) (nd_rows db))) new_id"
      using merges by (simp add: same_merges_def)
    also have "\<dots> = None" using new(1) f by (simp add: merged_into_find find_filter forest_def find_row_def)
    finally have "resolve ?states new_id = Inr new_id" by (simp add: resolve_def resolve_from.simps)
    then show ?thesis using over that by (simp add: incident_of_def)
  qed
  moreover have "incident_of db' sid env fid natural = incident_of db sid env fid natural"
    if "\<not> (fid \<in> set fids \<and> sid = nc_service_id source \<and> env = nc_environment source)" for sid env fid natural
    by (rule incident_of_same[OF f merges]) (use over that in auto)
  ultimately show "\<exists>source. find_row i db = Some source \<and>
    (\<forall>fid \<in> set fids. \<exists>natural. (fid, natural) \<in> set observed \<and> incident_of db (nc_service_id source) (nc_environment source) fid natural = Inr i) \<and>
    (\<forall>sid env fid natural. incident_of db' sid env fid natural =
       (if fid \<in> set fids \<and> sid = nc_service_id source \<and> env = nc_environment source then Inr new_id else incident_of db sid env fid natural))"
    using row members_in[OF source(2)] source(3) by (intro exI[of _ source]) auto
qed

subsection \<open>The tables over time\<close>

text \<open>Every transaction on the tables: reading a snapshot (its group ids are digests, never empty), changing, merging and splitting (the new id is a fresh UUID).\<close>

inductive incident_step :: "incident_db \<Rightarrow> incident_db \<Rightarrow> bool" where
  step_snapshot: "[] \<notin> fst ` set discoveries \<Longrightarrow> incident_step db (snd (snapshot_incidents discoveries environment service db))"
| step_change: "incident_step db (snd (change_incident i revision ch remark db))"
| step_merge: "incident_step db (snd (merge_incident source srev target trev db))"
| step_split: "find_row new_id db = None \<Longrightarrow> new_id \<noteq> [] \<Longrightarrow> incident_step db (snd (split_incident new_id i revision fids observed db))"

inductive incident_reach :: "incident_db \<Rightarrow> bool" where
  reach_empty: "incident_reach \<lparr>nd_rows = [], nd_overrides = [], nd_history = []\<rparr>"
| reach_step: "incident_reach db \<Longrightarrow> incident_step db db' \<Longrightarrow> incident_reach db'"

lemma insert_discoveries_forest:
  assumes "forest db" "[] \<notin> fst ` set ds"
  shows "forest (foldl insert_discovery db ds)"
  using assms
proof (induction ds arbitrary: db)
  case (Cons d ds)
  have "forest (insert_discovery db d)"
    using append_row(1)[OF Cons.prems(1), of "fst d"] Cons.prems by (auto simp: insert_discovery_def)
  then show ?case using Cons by auto
qed simp

lemma snapshot_forest: "forest db \<Longrightarrow> [] \<notin> fst ` set ds \<Longrightarrow> forest (snd (snapshot_incidents ds environment service db))"
  using insert_discoveries_forest[of db "sort_key fst ds"] by (simp add: snapshot_incidents_def Let_def)

lemma change_forest:
  assumes "forest db"
  shows "forest (snd (change_incident i revision ch remark db))"
proof -
  let ?f = "\<lambda>r. r\<lparr>nc_status := (case ng_status ch of Some s \<Rightarrow> s | None \<Rightarrow> nc_status r),
                  nc_owner := (case ng_owner ch of Some s \<Rightarrow> s | None \<Rightarrow> nc_owner r), nc_revision := revision + 1\<rparr>"
  have "forest (update_row i ?f db)" by (rule update_plain(2)) (use assms in auto)
  then have "forest (record_history i ''updated'' i i (update_row i ?f db))" using forest_rows[of "record_history i ''updated'' i i (update_row i ?f db)"] by simp
  then show ?thesis using assms by (simp add: change_incident_def split: sum.splits)
qed

lemma merge_unchanged: "fst (merge_incident source srev target trev db) = Inl e \<Longrightarrow> snd (merge_incident source srev target trev db) = db"
  by (auto simp: merge_incident_def split: sum.splits if_splits)

lemma split_unchanged: "fst (split_incident new_id i revision fids observed db) = Inl e \<Longrightarrow> snd (split_incident new_id i revision fids observed db) = db"
  by (auto simp: split_incident_def Let_def split: sum.splits if_splits)

lemma step_forest:
  assumes "incident_step db db'" "forest db"
  shows "forest db'"
  using assms
proof (induction rule: incident_step.induct)
  case (step_merge db source srev target trev)
  then show ?case
    using merge_keeps(1)[of db source srev target trev] merge_unchanged[of source srev target trev db]
    by (cases "merge_incident source srev target trev db"; cases "fst (merge_incident source srev target trev db)") auto
next
  case (step_split new_id db i revision fids observed)
  then show ?case
    using split_keeps(1)[of db new_id i revision fids observed] split_unchanged[of new_id i revision fids observed db]
    by (cases "split_incident new_id i revision fids observed db"; cases "fst (split_incident new_id i revision fids observed db)") auto
qed (simp_all add: snapshot_forest change_forest)

lemma reach_forest: "incident_reach db \<Longrightarrow> forest db"
proof (induction rule: incident_reach.induct)
  case reach_empty
  have "merges (states_of []) = {}" by (auto simp: merges_def merged_into_def states_of_def)
  then show ?case by (simp add: forest_def acyclic_def)
qed (rule step_forest)

lemma resolve_all_total: "acyclic (merges states) \<Longrightarrow> \<exists>rs. resolve_all states ids = Inr rs"
proof (induction ids)
  case (Cons i rest)
  obtain r where "resolve states i = Inr r" using resolve_total[OF Cons.prems] .
  then show ?case using Cons by auto
qed simp

text \<open>Grouping puts every failure in one group, that of the incident it resolves to.\<close>

definition members_total :: "(string \<times> failure_row list) list \<Rightarrow> failure_row multiset" where
  "members_total groups = mset (concat (map snd groups))"

lemma members_add:
  assumes "distinct (map fst groups)"
  shows "members_total (AList.update i ((case map_of groups i of Some items \<Rightarrow> items | None \<Rightarrow> []) @ [item]) groups) = add_mset item (members_total groups)"
  using assms
proof (induction groups)
  case (Cons g groups)
  obtain j items where "g = (j, items)" by (cases g)
  moreover have "map_of groups j = None" using Cons.prems calculation by (auto simp: map_of_eq_None_iff)
  ultimately show ?case using Cons by (auto simp: members_total_def)
qed (simp add: members_total_def)

lemma update_split:
  assumes "distinct (map fst groups)"
  shows "set (AList.update i v groups) = insert (i, v) {(j, w) \<in> set groups. j \<noteq> i}"
  using assms by (induction groups) (auto simp: image_iff)

lemma group_evidence_complete:
  assumes to: "\<And>item. \<exists>i. where_to item = Inr i"
    and groups: "distinct (map fst groups)" "\<forall>(i, items) \<in> set groups. \<forall>f \<in> set items. where_to f = Inr i"
  shows "\<exists>groups'. group_evidence where_to evidence groups = Inr groups' \<and> distinct (map fst groups') \<and>
    (\<forall>(i, items) \<in> set groups'. \<forall>f \<in> set items. where_to f = Inr i) \<and> members_total groups' = members_total groups + mset evidence"
  using groups
proof (induction evidence arbitrary: groups)
  case (Cons item rest)
  obtain i where i: "where_to item = Inr i" using to by blast
  let ?old = "case map_of groups i of Some items \<Rightarrow> items | None \<Rightarrow> []"
  let ?groups = "AList.update i (?old @ [item]) groups"
  have "\<forall>f \<in> set ?old. where_to f = Inr i" using Cons.prems(2) by (fastforce dest: map_of_SomeD split: option.splits)
  then have "\<forall>(j, items) \<in> set ?groups. \<forall>f \<in> set items. where_to f = Inr j" unfolding update_split[OF Cons.prems(1)] using Cons.prems(2) i by auto
  moreover have "distinct (map fst ?groups)" using Cons.prems(1) by (rule distinct_update)
  moreover have "members_total ?groups = add_mset item (members_total groups)" using Cons.prems(1) by (rule members_add)
  ultimately show ?case using Cons.IH[of ?groups] i by simp
qed simp

lemma newest_first_mset [simp]: "mset (newest_first stamp items) = mset items" "set (newest_first stamp items) = set items"
  by (simp_all add: newest_first_def)

lemma members_total_map: "members_total (map (\<lambda>(i, items). (i, newest_first stamp items)) groups) = members_total groups"
  by (induction groups) (auto simp: members_total_def)

lemma discoveries_ids:
  assumes "\<forall>item \<in> set evidence. natural_id erase group_id item \<noteq> []"
  shows "[] \<notin> fst ` set (discoveries_of erase group_id evidence)"
proof -
  have "[] \<notin> fst ` set (foldl (\<lambda>d item. AList.update (natural_id erase group_id item) (dimensions_of erase item) d) ds evidence)"
    if "[] \<notin> fst ` set ds" for ds using that assms
  proof (induction evidence arbitrary: ds)
    case (Cons item rest)
    have "[] \<notin> fst ` set (AList.update (natural_id erase group_id item) (dimensions_of erase item) ds)"
      using Cons.prems by (auto simp: dom_update)
    then show ?case using Cons.IH Cons.prems(2) by simp
  qed simp
  then show ?thesis by (simp add: discoveries_of_def)
qed

subsection \<open>Properties\<close>

definition demo_failure :: "string \<Rightarrow> string \<Rightarrow> failure_row" where
  "demo_failure i message = \<lparr>fl_failure_id = i, fl_service_id = ''pay'', fl_environment = ''prod'', fl_task_id = Some ''t1'', fl_queue_name = Some ''q'',
     fl_source_queue_name = None, fl_stage = None, fl_error_type = Some ''E'', fl_error_message = Some message, fl_failed_at = None\<rparr>"

definition demo_evidence :: "failure_row list" where
  "demo_evidence = [demo_failure ''f1'' ''boom'', demo_failure ''f2'' ''boom'', demo_failure ''f3'' ''crash'']"

definition demo_empty :: incident_db where
  "demo_empty = \<lparr>nd_rows = [], nd_overrides = [], nd_history = []\<rparr>"

definition demo_discovered :: incident_db where
  "demo_discovered = snd (snapshot_incidents (discoveries_of id dm_signature demo_evidence) None None demo_empty)"

lemma demo_reach: "incident_reach demo_discovered"
proof -
  have "[] \<notin> fst ` set (discoveries_of id dm_signature demo_evidence)" by code_simp
  then show ?thesis unfolding demo_discovered_def demo_empty_def by (intro reach_step[OF reach_empty] step_snapshot)
qed

text \<open>
  C22. The incident inbox always opens and loses nothing: over every history of snapshots, changes, merges and
  splits the merges form a forest, so resolving never raises the merge-cycle error; building the
  groups of a scan succeeds, the groups have distinct incidents that are not merged away, and together they
  hold every failure of the evidence once per occurrence.
\<close>
theorem incident_inbox_complete:
  assumes "incident_reach db" "\<forall>item \<in> set evidence. natural_id erase group_id item \<noteq> []"
  shows "\<exists>b db'. build_incidents erase group_id stamp evidence environment service db = (Inr b, db') \<and> incident_reach db' \<and>
    mset (concat (map snd (nb_groups b))) = mset evidence \<and> distinct (map fst (nb_groups b)) \<and>
    (\<forall>(i, items) \<in> set (nb_groups b). items \<noteq> [] \<longrightarrow> merged_into (nb_states b) i = None)"
proof -
  obtain states overrides db' where snap: "snapshot_incidents (discoveries_of erase group_id evidence) environment service db = ((states, overrides), db')"
    by (metis surj_pair)
  have reach: "incident_reach db'"
    using reach_step[OF assms(1) step_snapshot[OF discoveries_ids[OF assms(2)], of db environment service]] snap by simp
  have "states = states_of (filter (\<lambda>r. in_scope environment service (nc_environment r) (nc_service_id r)) (nd_rows db'))"
    using snap by (auto simp: snapshot_incidents_def Let_def)
  then have acyclic: "acyclic (merges states)" using scoped_acyclic[OF reach_forest[OF reach]] by simp
  obtain manual where manual: "resolve_all states (manually_grouped group_id states) = Inr manual" using resolve_all_total[OF acyclic] by blast
  define where_to where "where_to item = resolve states
    (case map_of overrides (fl_service_id item, fl_environment item, fl_failure_id item) of Some i \<Rightarrow> i | None \<Rightarrow> natural_id erase group_id item)" for item
  have total: "\<exists>i. where_to item = Inr i" for item using resolve_total[OF acyclic] unfolding where_to_def by metis
  have "\<exists>groups. group_evidence where_to evidence [] = Inr groups \<and> distinct (map fst groups) \<and>
      (\<forall>(i, items) \<in> set groups. \<forall>f \<in> set items. where_to f = Inr i) \<and> members_total groups = members_total [] + mset evidence"
    by (rule group_evidence_complete) (simp_all add: total)
  then obtain groups where groups: "group_evidence where_to evidence [] = Inr groups" "distinct (map fst groups)"
    "\<forall>(i, items) \<in> set groups. \<forall>f \<in> set items. where_to f = Inr i" "members_total groups = mset evidence"
    by (auto simp: members_total_def)
  let ?b = "\<lparr>nb_states = states, nb_manual = manual, nb_groups = map (\<lambda>(i, items). (i, newest_first stamp items)) groups\<rparr>"
  have build: "build_incidents erase group_id stamp evidence environment service db = (Inr ?b, db')"
    using snap manual groups(1) by (simp add: build_incidents_def where_to_def[abs_def])
  have "merged_into states i = None" if "(i, items) \<in> set groups" "items \<noteq> []" for i items
  proof -
    have "where_to (hd items) = Inr i" using groups(3) that by auto
    then show ?thesis using resolve_root[OF acyclic] by (simp add: where_to_def)
  qed
  then have roots: "\<forall>(i, items) \<in> set (nb_groups ?b). items \<noteq> [] \<longrightarrow> merged_into (nb_states ?b) i = None"
    by (fastforce simp: newest_first_def)
  have "mset (concat (map snd (nb_groups ?b))) = mset evidence"
    using groups(4) members_total_map[of stamp groups] by (simp add: members_total_def)
  moreover have "distinct (map fst (nb_groups ?b))" using groups(2) by (simp add: comp_def case_prod_unfold)
  ultimately show ?thesis using build reach roots by blast
qed

theorem incident_inbox_complete_witness:
  "\<exists>b db'. build_incidents id dm_signature (\<lambda>_. None) demo_evidence None None demo_discovered = (Inr b, db') \<and> incident_reach db' \<and>
    mset (concat (map snd (nb_groups b))) = mset demo_evidence"
proof -
  have "\<forall>item \<in> set demo_evidence. natural_id id dm_signature item \<noteq> []" by code_simp
  from incident_inbox_complete[OF demo_reach this] show ?thesis by blast
qed

text \<open>
  C23. A merge moves a whole incident: after a successful merge every failure that belonged to the source (in its service
  and environment) belongs to the target, and every other failure belongs where it did.
\<close>
theorem incident_merge_moves_all:
  assumes "incident_reach db" "merge_incident source srev target trev db = (Inr x, db')"
  shows "\<exists>s. find_row source db = Some s \<and> (\<forall>sid env fid natural. \<exists>i. incident_of db sid env fid natural = Inr i \<and>
    incident_of db' sid env fid natural = Inr (if i = source \<and> sid = nc_service_id s \<and> env = nc_environment s then target else i))"
  using merge_keeps(2)[OF reach_forest[OF assms(1)] assms(2)] .

theorem incident_merge_moves_all_witness:
  "\<exists>s. find_row ''boom'' demo_discovered = Some s \<and> (\<forall>sid env fid natural. \<exists>i. incident_of demo_discovered sid env fid natural = Inr i \<and>
    incident_of (snd (merge_incident ''boom'' 0 ''crash'' 0 demo_discovered)) sid env fid natural =
      Inr (if i = ''boom'' \<and> sid = nc_service_id s \<and> env = nc_environment s then ''crash'' else i))"
proof -
  have "fst (merge_incident ''boom'' 0 ''crash'' 0 demo_discovered) = Inr (''crash'', 1)" by code_simp
  then have "merge_incident ''boom'' 0 ''crash'' 0 demo_discovered = (Inr (''crash'', 1), snd (merge_incident ''boom'' 0 ''crash'' 0 demo_discovered))"
    by (simp add: prod_eq_iff)
  from incident_merge_moves_all[OF demo_reach this] show ?thesis .
qed

text \<open>
  C24. A split moves what was selected and nothing else: every selected failure was an observed member of the incident, afterwards
  it belongs to the new incident whatever its natural group is, and all other failures belong where they did.
\<close>
theorem incident_split_moves_selected:
  assumes "incident_reach db" "find_row new_id db = None" "new_id \<noteq> []" "split_incident new_id i revision fids observed db = (Inr x, db')"
  shows "\<exists>source. find_row i db = Some source \<and>
    (\<forall>fid \<in> set fids. \<exists>natural. (fid, natural) \<in> set observed \<and> incident_of db (nc_service_id source) (nc_environment source) fid natural = Inr i) \<and>
    (\<forall>sid env fid natural. incident_of db' sid env fid natural =
       (if fid \<in> set fids \<and> sid = nc_service_id source \<and> env = nc_environment source then Inr new_id else incident_of db sid env fid natural))"
  using split_keeps(2)[OF reach_forest[OF assms(1)] assms(2-4)] .

theorem incident_split_moves_selected_witness:
  "\<exists>source. find_row ''boom'' demo_discovered = Some source \<and>
    (\<forall>sid env fid natural. incident_of (snd (split_incident ''new'' ''boom'' 0 [''f1''] [(''f1'', ''boom''), (''f2'', ''boom''), (''f3'', ''crash'')] demo_discovered)) sid env fid natural =
       (if fid \<in> set [''f1''] \<and> sid = nc_service_id source \<and> env = nc_environment source then Inr ''new'' else incident_of demo_discovered sid env fid natural))"
proof -
  let ?run = "split_incident ''new'' ''boom'' 0 [''f1''] [(''f1'', ''boom''), (''f2'', ''boom''), (''f3'', ''crash'')] demo_discovered"
  have "fst ?run = Inr (''new'', 0)" by code_simp
  then have run: "?run = (Inr (''new'', 0), snd ?run)" by (simp add: prod_eq_iff)
  have "find_row ''new'' demo_discovered = None" by code_simp
  from incident_split_moves_selected[OF demo_reach this _ run] show ?thesis by blast
qed

end
