(* ===== verification/Spec2Isabelle.thy ===== *)
theory Spec2Isabelle
  imports Retry_Policy Bounded_Async Workflow_Graph Workflow_State Lease_Store Contract_Store
    Status_Hub Dlq_Service Task_Consumer Aggregation_Consumer Workflow_Consumer Status_Stream Event_Feed
    Execution_Graph Observation_Store Rabbit_Publish Consumer_Loop Backpressure Recovery Incidents
begin

text \<open>
  Relayna is a Python library for distributed task processing over RabbitMQ and Redis.  Producers
  publish task, status and workflow envelopes through topologies that name exchanges, queues and
  routing keys.  Consumers take messages, run the user's handler under a lease, publish retries
  and dead letters, and settle each message.  The status hub stores the status events in Redis;
  the dead-letter service lists failed messages and replays them.  The Studio
  backend watches the services: it groups their failures and runs recovery plans.  Paths below are
  under \<^verbatim>\<open>src/src/relayna/\<close>, those of the Studio under \<^verbatim>\<open>src/studio/backend/src/relayna_studio/\<close>.

  \<^bold>\<open>Theories and sources.\<close>

  \<^item> \<open>Relayna_Prelude\<close>: exceptions as values (\<open>py_error\<close>, \<open>'a res\<close>), effects as state passing with
    exceptions (\<open>io\<close>), Python values, dictionaries (\<open>dict\<close>, insertion ordered) and strings.
  \<^item> \<open>Py_Json\<close>, \<open>Base64\<close>: \<^verbatim>\<open>json.dumps\<close> and \<^verbatim>\<open>base64\<close> as the code uses them.
  \<^item> \<open>Redis\<close>: the Redis commands the stores use, as an executable database with expiry, and the
    locale \<open>redis_server\<close>: a command takes effect as in the database or raises.  \<open>mem_redis\<close> is the
    instance.
  \<^item> \<open>Contracts\<close>: \<^verbatim>\<open>contracts/\<close> (aliases, envelopes, schemas, event identifiers).
  \<^item> \<open>Retry_Policy\<close>: \<^verbatim>\<open>policies/retry.py\<close>, \<^verbatim>\<open>consumer/_retry_decision.py\<close> and the retry helpers of
    \<^verbatim>\<open>consumer/context.py\<close>.
  \<^item> \<open>Topic_Match\<close>: the two topic matchers, \<^verbatim>\<open>topology/workflow_graph.py\<close> and \<^verbatim>\<open>consumer/context.py\<close>.
  \<^item> \<open>Routing\<close>, \<open>Shared_Topology\<close>, \<open>Workflow_Topology\<close>: \<^verbatim>\<open>topology/base.py\<close>, \<^verbatim>\<open>shared_tasks.py\<close>,
    \<^verbatim>\<open>sharded_aggregation.py\<close>, \<^verbatim>\<open>workflow.py\<close>; a channel is the list of commands sent to it.
  \<^item> \<open>Workflow_Contract\<close>, \<open>Workflow_Graph\<close>, \<open>Workflow_State\<close>: the contracts, the exported graph and
    templates, and \<^verbatim>\<open>workflow/\<close>.
  \<^item> \<open>Lease_Store\<close>, \<open>Contract_Store\<close>: \<^verbatim>\<open>storage/task_lease_store.py\<close>, \<^verbatim>\<open>storage/workflow_contract_store.py\<close>.
  \<^item> \<open>Status_Store\<close>, \<open>Status_Hub\<close>: \<^verbatim>\<open>status/store.py\<close>, \<^verbatim>\<open>status/hub.py\<close>.
  \<^item> \<open>Status_Stream\<close>: \<^verbatim>\<open>status/stream.py\<close> and \<^verbatim>\<open>status/history.py\<close>; what pub/sub and the stream queue
    deliver is an argument.
  \<^item> \<open>Event_Feed\<close>: \<^verbatim>\<open>observability/feed.py\<close>; a Lua script is its effect on the keyspace, and the locale
    \<open>script_server\<close> says that scripts run atomically.
  \<^item> \<open>Execution_Graph\<close>: \<^verbatim>\<open>observability/execution_graph.py\<close>; the builder's local variables are the record
    \<open>building\<close>.
  \<^item> \<open>Observation_Store\<close>: \<^verbatim>\<open>observability/store.py\<close> and the readers of observations.
  \<^item> \<open>Rabbit_Client\<close>, \<open>Rabbit_Publish\<close>: \<^verbatim>\<open>rabbitmq/client.py\<close>; the client object with the log of its calls of
    aio-pika, and \<^verbatim>\<open>publish_tasks\<close> under every schedule of \<^verbatim>\<open>map_bounded\<close>.
  \<^item> \<open>Dlq_Store\<close>, \<open>Dlq_Service\<close>: \<^verbatim>\<open>dlq/models.py\<close>, \<^verbatim>\<open>dlq/store.py\<close>, \<^verbatim>\<open>dlq/service.py\<close>.
  \<^item> \<open>Bounded_Async\<close>: \<^verbatim>\<open>_async.py\<close>, each function as a step relation over every schedule.
  \<^item> \<open>Consumer_Context\<close>: the rest of \<^verbatim>\<open>consumer/context.py\<close>.
  \<^item> \<open>Consumer_Effects\<close>: the calls of a consumer with their trace, the triple \<open>emits\<close> over traces,
    what the consumers share, the abstract dispositions of a message that cannot be completed
    (\<open>disposes\<close>) and the locale \<open>settling_consumer\<close>.
  \<^item> \<open>Task_Consumer\<close>, \<open>Aggregation_Consumer\<close>, \<open>Workflow_Consumer\<close>: \<^verbatim>\<open>consumer/task_consumer.py\<close> and
    \<^verbatim>\<open>consumer/workflow_consumer.py\<close>.
  \<^item> \<open>Consumer_Loop\<close>: the \<^verbatim>\<open>run_forever\<close> loops of the consumers, the hub and the lease scanner as turns over what
    the broker and the clock do; the locale \<open>reconnecting_loop\<close> is interpreted on both kinds of loop.
  \<^item> \<open>Backpressure\<close>: \<^verbatim>\<open>observability/backpressure.py\<close>, its collectors under every schedule of \<^verbatim>\<open>map_bounded\<close>.
  \<^item> \<open>Recovery\<close> (Studio): \<^verbatim>\<open>_recovery.py\<close>; a plan is a row of the table, the worker, the services' answers and the
    operators are the step relation \<open>recovery_step\<close>.
  \<^item> \<open>Incidents\<close> (Studio): \<^verbatim>\<open>_incident_groups.py\<close>, \<^verbatim>\<open>_incident_store.py\<close>, \<^verbatim>\<open>_incidents.py\<close>; the tables are lists of rows, each
    transaction one operation on them.

  \<^bold>\<open>What the theorems show.\<close>

  \<^item> Consumers: each of the three interprets \<open>settling_consumer\<close>: a message is settled at most once,
    and once when its handling returns, and it is acknowledged only when its handler completed or
    a copy of it is safe in another queue.  A failed task goes to the retry queue with the next
    attempt, which the next delivery reads, or to the dead-letter queue at the limit.  A leased task
    and a duplicate message never reach the handler; a retried stage message is admitted again when Redis
    answered the deletion of its entry.
  \<^item> Stores: a redelivered status event is stored once and the history is newest first; a lease is
    held by one owner; a deduplication entry admits one message; pages of dead letters partition the
    list; a replay publishes the original body.  The event feed refines a bounded queue and pages
    it exactly.
  \<^item> Streams: a client gets the history after its resume point and then the live events, each
    identified one once, up to the terminal status, in frames it reads back.  The forwarder keeps
    every event pending until it is confirmed while one batch at most is in flight.
  \<^item> Concurrency: under every schedule the bounded helpers keep their limit, lose nothing but what a
    cancellation drops, end, and do not deadlock; the status hub stores the events of a task one after the other.
  \<^item> Topologies: the constructor accepts exactly the well-formed workflows, both topic matchers decide
    the documented meaning, declarations bind every stage, and what a publisher may send the
    target accepts.
  \<^item> Execution graph: the built graph is closed, ordered and complete for the statuses, every node has
    a live state, the counts add up, and the service answers.
  \<^item> Client: after any calls a client marked initialized has its connection and exchanges; a publish call
    sends one validated, persistent message or raises; many tasks are sent once each; what
    it sends to a stage the stage accepts.
  \<^item> Loops: a consumer and the hub come back after every failure of the broker, close every channel they were
    given and stop when asked to; a channel whose prefetch could not be set is the one left open.  A pressure snapshot never fails for one of its collectors and reports every queue.
  \<^item> Recovery: over every history a plan retries an item at most once, sends no more than its allowance, never
    loses recorded progress, and refuses controls that are based on an old revision.
  \<^item> Incidents: merges stay a forest, so the inbox always opens and holds every failure once; a merge moves a
    whole incident, a split what was selected.
  \<^item> Some theorems show defects: the scanner does not see a lease that ran out, a status event whose first
    delivery lost Redis half-way is taken as stored by the redelivery, a failed heartbeat leaves a task unsettled after its handler, a failed lease
    leaves a deduplication entry that refuses the redelivery, overlapping flushes of the
    forwarder that both succeed lose events, the retries of a workflow task collapse in the execution graph, an
    observation whose write failed is dropped, and a failed initialize leaks its connection.

  \<^bold>\<open>Parameters.\<close>  Code outside the repository is an argument of the definitions that use it: the Redis
  server (locale \<open>redis_server\<close>), the broker's calls (which may do anything to the world and may
  raise), the user's handlers, pydantic's validation and dumps, JSON parsing, SHA digests and clocks.
  Every locale is interpreted on the definitions of the model, and hypotheses about parameters have
  witnesses over the in-memory instances.

  \<^bold>\<open>Bounds and fuel.\<close>  \<open>list_chunks\<close> of the dead-letter store reads the record list in chunks with
  fuel; \<open>length L + 1\<close> rounds are enough for a list \<open>L\<close>, since every round but the last moves the offset,
  and the page theorems are stated with that fuel and give a result.  A heartbeat beats as often as the
  schedule lets it (\<open>lz_beats\<close>, any number).  Python integers are \<open>int\<close>, instants are microseconds.

  \<^bold>\<open>Not modelled.\<close>  Metrics and tracing, which call Prometheus and OpenTelemetry and influence nothing
  modelled here; \<^verbatim>\<open>dlq/broker.py\<close>, HTTP calls to the broker's management interface; the FastAPI routes
  of the library, the MCP server, and the rest of the Studio backend.
\<close>

end
